(* ===== verification/Prelude.thy ===== *)
theory Prelude
  imports Main "HOL-Library.Word" "HOL-Library.Multiset"
begin

text \<open>
  Shared vocabulary of the development.

  It holds the types that stand for Go's basic types, the small part of Go's standard library
  the modelled packages use (decimal printing and parsing of integers, the rendering of a
  \<open>time.Duration\<close>, the \<open>strings\<close> helpers), the collections of simp rules that the component
  theories fill, and generic lemmas on lists, options and sums.

  Conventions.  A Go \<open>string\<close> or \<open>[]byte\<close> is a list (of \<open>char\<close>, of 8-bit words).
  A \<open>time.Time\<close> or a \<open>time.Duration\<close> is an \<open>int\<close> of nanoseconds; clock readings are
  arguments.  A result pair \<open>(T, error)\<close> is a sum, with \<open>Inl\<close> the error.  A Go map is a
  partial function; a nil map reads like an empty one, so both are the empty function.
\<close>

named_theorems corr_simps \<open>defining equations of the correlation tables\<close>
named_theorems pool_simps \<open>defining equations of the buffer pools\<close>

section \<open>Types\<close>

type_synonym bytes = "8 word list"
type_synonym timestamp = int
type_synonym duration = int
type_synonym u64 = "64 word"
type_synonym i64 = "64 word"

text \<open>The Go constants \<open>time.Millisecond\<close>, \<open>time.Second\<close>, in nanoseconds.\<close>

abbreviation Millisecond :: duration where "Millisecond \<equiv> 1000000"
abbreviation Second :: duration where "Second \<equiv> 1000000000"

section \<open>Generic lemmas\<close>

lemma take_drop_append_same [simp]: "take (length xs) (xs @ ys) = xs"
  by simp

lemma distinct_iff_count: "distinct xs \<longleftrightarrow> (\<forall>a. count (mset xs) a \<le> 1)"
proof
  assume "distinct xs"
  then show "\<forall>a. count (mset xs) a \<le> 1" by (simp add: distinct_count_atmost_1)
next
  assume le: "\<forall>a. count (mset xs) a \<le> 1"
  have "count (mset xs) a = (if a \<in> set xs then 1 else 0)" for a
  proof (cases "a \<in> set xs")
    case True
    then have "count (mset xs) a \<noteq> 0" by simp
    with le have "count (mset xs) a = 1" by (metis One_nat_def Suc_leI le_antisym neq0_conv)
    with True show ?thesis by simp
  next
    case False
    then show ?thesis by (simp add: count_eq_zero_iff)
  qed
  then show "distinct xs" by (simp add: distinct_count_atmost_1)
qed

lemma distinct_subseteq_mset: "mset xs \<subseteq># mset ys \<Longrightarrow> distinct ys \<Longrightarrow> distinct xs"
  by (meson distinct_iff_count le_trans mset_subset_eq_count)

lemma set_subseteq_mset: "mset xs \<subseteq># mset ys \<Longrightarrow> set xs \<subseteq> set ys"
  by (metis set_mset_mono set_mset_mset)

lemma sum_case_same [simp]: "(case s of Inl e \<Rightarrow> x | Inr y \<Rightarrow> x) = x"
  by (cases s) simp_all

lemma option_case_same [simp]: "(case s of None \<Rightarrow> x | Some y \<Rightarrow> x) = x"
  by (cases s) simp_all

section \<open>Decimal integers: strconv.Itoa, strconv.ParseInt\<close>

fun digit_char :: "nat \<Rightarrow> char" where
  "digit_char n = (char_of (48 + n) :: char)"

fun nat_to_dec :: "nat \<Rightarrow> string" where
  "nat_to_dec n = (if n < 10 then [digit_char n] else nat_to_dec (n div 10) @ [digit_char (n mod 10)])"

declare nat_to_dec.simps [simp del]

definition itoa :: "int \<Rightarrow> string" where
  "itoa i = (if i < 0 then CHR ''-'' # nat_to_dec (nat (- i)) else nat_to_dec (nat i))"

definition is_digit :: "char \<Rightarrow> bool" where
  "is_digit c \<longleftrightarrow> 48 \<le> (of_char c :: nat) \<and> (of_char c :: nat) \<le> 57"

definition digit_val :: "char \<Rightarrow> nat" where
  "digit_val c = of_char c - 48"

definition dec_val :: "string \<Rightarrow> nat" where
  "dec_val s = foldl (\<lambda>acc c. 10 * acc + digit_val c) 0 s"

text \<open>\<open>strconv.ParseInt(s, 10, 64)\<close>: an optional sign, at least one digit, digits only, and
  a value in the range of \<open>int64\<close>; anything else is an error.\<close>

definition parse_digits :: "string \<Rightarrow> nat option" where
  "parse_digits s = (if s \<noteq> [] \<and> list_all is_digit s then Some (dec_val s) else None)"

definition ParseInt64 :: "string \<Rightarrow> int option" where
  "ParseInt64 s =
     (case s of
        [] \<Rightarrow> None
      | c # cs \<Rightarrow>
          (if c = CHR ''-'' then
             (case parse_digits cs of
                None \<Rightarrow> None
              | Some n \<Rightarrow> if int n \<le> 2 ^ 63 then Some (- int n) else None)
           else
             (case parse_digits (if c = CHR ''+'' then cs else s) of
                None \<Rightarrow> None
              | Some n \<Rightarrow> if int n < 2 ^ 63 then Some (int n) else None)))"

lemma of_char_digit_char: "n < 10 \<Longrightarrow> (of_char (digit_char n) :: nat) = 48 + n"
  by simp

lemma is_digit_digit_char [simp]: "n < 10 \<Longrightarrow> is_digit (digit_char n)"
  by (simp add: is_digit_def)

lemma digit_val_digit_char [simp]: "n < 10 \<Longrightarrow> digit_val (digit_char n) = n"
  by (simp add: digit_val_def)

declare digit_char.simps [simp del]

lemma dec_val_snoc [simp]: "dec_val (s @ [c]) = 10 * dec_val s + digit_val c"
  by (simp add: dec_val_def)

lemma nat_to_dec_not_Nil [simp]: "nat_to_dec n \<noteq> []"
  by (subst nat_to_dec.simps) simp

lemma nat_to_dec_digits: "list_all is_digit (nat_to_dec n)"
proof (induction n rule: nat_to_dec.induct)
  case (1 n)
  then show ?case by (subst nat_to_dec.simps) simp
qed

lemma dec_val_nat_to_dec [simp]: "dec_val (nat_to_dec n) = n"
proof (induction n rule: nat_to_dec.induct)
  case (1 n)
  show ?case
  proof (cases "n < 10")
    case True
    then show ?thesis by (subst nat_to_dec.simps) (simp add: dec_val_def)
  next
    case False
    with 1 show ?thesis by (subst nat_to_dec.simps) simp
  qed
qed

lemma parse_digits_nat_to_dec [simp]: "parse_digits (nat_to_dec n) = Some n"
  by (simp add: parse_digits_def nat_to_dec_digits)

lemma hd_nat_to_dec_digit: "is_digit (hd (nat_to_dec n))"
  using nat_to_dec_digits [of n] nat_to_dec_not_Nil [of n]
  by (cases "nat_to_dec n") auto

lemma not_digit_signs: "\<not> is_digit CHR ''-''" "\<not> is_digit CHR ''+''" "\<not> is_digit CHR '' ''"
  by (simp_all add: is_digit_def)

lemma nat_to_dec_Cons: "nat_to_dec n = c # cs \<Longrightarrow> c \<noteq> CHR ''-'' \<and> c \<noteq> CHR ''+''"
  using hd_nat_to_dec_digit [of n] not_digit_signs by auto

lemma ParseInt64_itoa:
  assumes "- (2 ^ 63) \<le> i" and "i < 2 ^ 63"
  shows "ParseInt64 (itoa i) = Some i"
proof (cases "i < 0")
  case True
  with assms show ?thesis by (simp add: ParseInt64_def itoa_def)
next
  case False
  obtain c cs where c: "nat_to_dec (nat i) = c # cs"
    by (cases "nat_to_dec (nat i)") auto
  then have "c \<noteq> CHR ''-''" "c \<noteq> CHR ''+''" by (simp_all add: nat_to_dec_Cons)
  moreover have "parse_digits (c # cs) = Some (nat i)"
    using c parse_digits_nat_to_dec [of "nat i"] by simp
  ultimately show ?thesis using False c assms by (simp add: ParseInt64_def itoa_def)
qed

lemma nat_to_dec_inject [simp]: "nat_to_dec m = nat_to_dec n \<longleftrightarrow> m = n"
  by (metis dec_val_nat_to_dec)

section \<open>time.Duration.String\<close>

text \<open>\<open>fmtFrac\<close> prints \<open>v mod 10 ^ prec\<close> as a fraction without trailing zeros (and without
  the point when the fraction is zero) and returns the quotient.\<close>

fun frac_digits :: "nat \<Rightarrow> nat \<Rightarrow> string" where
  "frac_digits 0 v = []"
| "frac_digits (Suc p) v = frac_digits p (v div 10) @ [digit_char (v mod 10)]"

definition fmtFrac :: "nat \<Rightarrow> nat \<Rightarrow> string \<times> nat" where
  "fmtFrac prec v =
     (let ds = rev (dropWhile (\<lambda>c. c = CHR ''0'') (rev (frac_digits prec v)))
      in (if ds = [] then [] else CHR ''.'' # ds, v div 10 ^ prec))"

definition micro_unit :: string where
  "micro_unit = [char_of (194 :: nat), char_of (181 :: nat), CHR ''s'']"

definition fmtUnit :: "nat \<Rightarrow> string \<Rightarrow> nat \<Rightarrow> string" where
  "fmtUnit prec unit u = (case fmtFrac prec u of (fr, q) \<Rightarrow> nat_to_dec q @ fr @ unit)"

definition Duration_String :: "duration \<Rightarrow> string" where
  "Duration_String d =
     (let u = nat \<bar>d\<bar>;
          body =
            (if u = 0 then ''0s''
             else if u < 1000 then fmtUnit 0 ''ns'' u
             else if u < 1000000 then fmtUnit 3 micro_unit u
             else if u < 1000000000 then fmtUnit 6 ''ms'' u
             else (case fmtFrac 9 u of
                (fr, secs) \<Rightarrow>
                  (if 3600 \<le> secs then nat_to_dec (secs div 3600) @ ''h'' else []) @
                  (if 60 \<le> secs then nat_to_dec (secs div 60 mod 60) @ ''m'' else []) @
                  nat_to_dec (secs mod 60) @ fr @ ''s''))
      in if d < 0 then CHR ''-'' # body else body)"

section \<open>The strings package\<close>

text \<open>The whitespace that \<open>unicode.IsSpace\<close> accepts among the one-byte characters.  Bytes
  above 127 are parts of longer characters and are not spaces here.\<close>

definition is_space :: "char \<Rightarrow> bool" where
  "is_space c \<longleftrightarrow> c = CHR '' '' \<or> (9 \<le> (of_char c :: nat) \<and> (of_char c :: nat) \<le> 13)"

definition TrimLeft :: "(char \<Rightarrow> bool) \<Rightarrow> string \<Rightarrow> string" where
  "TrimLeft p s = dropWhile p s"

definition TrimRight :: "(char \<Rightarrow> bool) \<Rightarrow> string \<Rightarrow> string" where
  "TrimRight p s = rev (dropWhile p (rev s))"

definition TrimSpace :: "string \<Rightarrow> string" where
  "TrimSpace s = TrimRight is_space (TrimLeft is_space s)"

fun Split :: "char \<Rightarrow> string \<Rightarrow> string list" where
  "Split c [] = [[]]"
| "Split c (x # xs) =
     (if x = c then [] # Split c xs
      else (case Split c xs of [] \<Rightarrow> [[x]] | w # ws \<Rightarrow> (x # w) # ws))"

definition HasSuffix :: "string \<Rightarrow> string \<Rightarrow> bool" where
  "HasSuffix s suf \<longleftrightarrow> length suf \<le> length s \<and> drop (length s - length suf) s = suf"

fun Contains :: "string \<Rightarrow> string \<Rightarrow> bool" where
  "Contains [] sub \<longleftrightarrow> sub = []"
| "Contains (x # xs) sub \<longleftrightarrow> take (length sub) (x # xs) = sub \<or> Contains xs sub"

lemma Contains_append: "Contains ys s \<Longrightarrow> Contains (xs @ ys) s"
  by (induction xs) simp_all

lemma Contains_Nil: "Contains s []"
  by (induction s) simp_all

lemma Contains_take: "Contains s t \<longleftrightarrow> (\<exists>xs ys. s = xs @ t @ ys)"
proof
  show "Contains s t \<Longrightarrow> \<exists>xs ys. s = xs @ t @ ys"
  proof (induction s)
    case (Cons x s)
    show ?case
    proof (cases "take (length t) (x # s) = t")
      case True
      then have "x # s = [] @ t @ drop (length t) (x # s)" by (metis append_Nil append_take_drop_id)
      then show ?thesis by blast
    next
      case False
      with Cons obtain xs ys where "s = xs @ t @ ys" by auto
      then have "x # s = (x # xs) @ t @ ys" by simp
      then show ?thesis by blast
    qed
  qed simp
  show "\<exists>xs ys. s = xs @ t @ ys \<Longrightarrow> Contains s t"
  proof (elim exE)
    fix xs ys assume "s = xs @ t @ ys"
    moreover have "Contains (t @ ys) t" by (cases t) (auto intro: Contains_Nil)
    ultimately show "Contains s t" by (simp add: Contains_append)
  qed
qed

lemma Contains_trans: "Contains s t \<Longrightarrow> Contains t u \<Longrightarrow> Contains s u"
  unfolding Contains_take by (metis append.assoc)

lemma Split_not_Nil [simp]: "Split c s \<noteq> []"
  by (induction s) (auto split: list.splits)

lemma digit_not_space: "is_digit c \<Longrightarrow> \<not> is_space c"
  by (auto simp: is_digit_def is_space_def)

text \<open>The text of Go's \<open>%q\<close> verb on a string of printable ASCII characters.\<close>

definition quoted :: "string \<Rightarrow> string" where
  "quoted s =
     (let q = (char_of (34 :: nat) :: char); bs = (char_of (92 :: nat) :: char)
      in q # concat (map (\<lambda>c. if c = q \<or> c = bs then [bs, c] else [c]) s) @ [q])"

end
