(* ===== verification/Pool.thy ===== *)
theory Pool
  imports Prelude
begin

text \<open>
  The buffer and message pools (\<open>clients/internal/pool/pool.go\<close>, \<open>mode.go\<close>).

  A \<open>*[]byte\<close> is a record: the identity of the pointer, the backing array (whose length is the
  capacity) and the length of the visible part.  A \<open>sync.Pool\<close> is a list of items from which
  \<open>Get\<close> takes an arbitrary one or nothing at all: the argument \<open>choice\<close> is what it does on one
  call, and \<open>gc\<close> drops items at any time.  Allocation takes the next pointer identity.

  The interface \<open>BufferPool\<close> is the locale \<open>buffer_pool\<close>, interpreted on the size-class pool and
  on the no-op pool.
\<close>

section \<open>sort.SearchInts\<close>

text \<open>The binary search of package \<open>sort\<close>: the smallest index whose element is at least \<open>x\<close>.\<close>

function search_loop :: "int list \<Rightarrow> int \<Rightarrow> nat \<Rightarrow> nat \<Rightarrow> nat" where
  "search_loop a x i j =
     (if i < j then
        (let h = (i + j) div 2 in
         if a ! h \<ge> x then search_loop a x i h else search_loop a x (h + 1) j)
      else i)"
  by pat_completeness auto
termination by (relation "measure (\<lambda>(a, x, i, j). j - i)") auto

declare search_loop.simps [simp del]

definition SearchInts :: "int list \<Rightarrow> int \<Rightarrow> nat" where
  "SearchInts a x = search_loop a x 0 (length a)"

lemma search_loop_bounds: "i \<le> j \<Longrightarrow> i \<le> search_loop a x i j \<and> search_loop a x i j \<le> j"
proof (induction a x i j rule: search_loop.induct)
  case (1 a x i j)
  show ?case
  proof (cases "i < j")
    case True
    then have h: "i \<le> (i + j) div 2" "(i + j) div 2 < j" by auto
    with True 1 show ?thesis by (subst (1 2) search_loop.simps) (fastforce simp: Let_def)
  next
    case False
    with 1 show ?thesis by (simp add: search_loop.simps)
  qed
qed

lemma search_loop_split:
  assumes "sorted a" and "i \<le> j" and "j \<le> length a"
    and "\<forall>k < i. a ! k < x" and "\<forall>k. j \<le> k \<longrightarrow> k < length a \<longrightarrow> x \<le> a ! k"
  shows "(\<forall>k < search_loop a x i j. a ! k < x) \<and>
         (\<forall>k. search_loop a x i j \<le> k \<longrightarrow> k < length a \<longrightarrow> x \<le> a ! k)"
  using assms
proof (induction a x i j rule: search_loop.induct)
  case (1 a x i j)
  show ?case
  proof (cases "i < j")
    case True
    let ?h = "(i + j) div 2"
    have h: "i \<le> ?h" "?h < j" using True by auto
    show ?thesis
    proof (cases "x \<le> a ! ?h")
      case low: True
      have eq: "search_loop a x i j = search_loop a x i ?h"
        using True low by (simp add: search_loop.simps [of a x i j] Let_def)
      have "x \<le> a ! k" if "?h \<le> k" and "k < length a" for k
        using low sorted_nth_mono [OF 1(3) that] by simp
      with 1(1) [OF True refl low 1(3) h(1)] 1(5,6) h show ?thesis unfolding eq by simp
    next
      case high: False
      have eq: "search_loop a x i j = search_loop a x (?h + 1) j"
        using True high by (simp add: search_loop.simps [of a x i j] Let_def)
      have "a ! k < x" if "k < ?h + 1" for k
        using high that h 1(5) sorted_nth_mono [OF 1(3), of k ?h] by simp
      with 1(2) [OF True refl high 1(3)] 1(5,7) h show ?thesis unfolding eq by simp
    qed
  next
    case False
    then have "search_loop a x i j = i" by (simp add: search_loop.simps [of a x i j])
    with False 1(4-) show ?thesis by simp
  qed
qed

lemma SearchInts_spec:
  assumes "sorted a"
  shows "SearchInts a x \<le> length a" and "\<forall>k < SearchInts a x. a ! k < x"
    and "\<forall>k. SearchInts a x \<le> k \<longrightarrow> k < length a \<longrightarrow> x \<le> a ! k"
  using search_loop_bounds [of 0 "length a" a x] search_loop_split [OF assms, of 0 "length a" x]
  by (simp_all add: SearchInts_def)

section \<open>The size-class pool\<close>

record buf =
  bid :: nat
  mem :: bytes
  blen :: nat

abbreviation cap :: "buf \<Rightarrow> int" where "cap p \<equiv> int (length (mem p))"

record buffers =
  classes :: "int list"
  pools :: "buf list list"
  b_hits :: "u64 list"
  b_misses :: "u64 list"
  b_drops :: "u64 list"
  oversizeMiss :: u64
  oversizeDrop :: u64
  next_ptr :: nat

definition DefaultClasses :: "int list" where
  "DefaultClasses = [256, 1024, 4096, 16384, 65536, 262144, 1048576]"

text \<open>The deduplication in place: \<open>cs\<close> is the array, \<open>i\<close> the loop index, \<open>k\<close> the length of
  \<open>out\<close>, which shares the array; the loop reads \<open>cs[i-1]\<close> after earlier iterations have written
  to the front of the array.  \<open>Inl\<close> is the panic.\<close>

function dedupe :: "int list \<Rightarrow> nat \<Rightarrow> nat \<Rightarrow> string + int list" where
  "dedupe cs i k =
     (if i < length cs then
        (let c = cs ! i in
         if c \<le> 0 then Inl (''pool: non-positive size class '' @ itoa c)
         else if i = 0 \<or> c \<noteq> cs ! (i - 1) then dedupe (cs[k := c]) (i + 1) (k + 1)
         else dedupe cs (i + 1) k)
      else Inr (take k cs))"
  by pat_completeness auto
termination by (relation "measure (\<lambda>(cs, i, k). length cs - i)") auto

declare dedupe.simps [simp del]

definition NewBuffers :: "int list \<Rightarrow> string + buffers" where
  "NewBuffers cls =
     (let cs = sort (if cls = [] then DefaultClasses else cls) in
      case dedupe cs 0 0 of
        Inl panic \<Rightarrow> Inl panic
      | Inr out \<Rightarrow>
          Inr \<lparr>classes = out, pools = replicate (length out) [], b_hits = replicate (length out) 0,
               b_misses = replicate (length out) 0, b_drops = replicate (length out) 0,
               oversizeMiss = 0, oversizeDrop = 0, next_ptr = 0\<rparr>)"

definition classIndex :: "buffers \<Rightarrow> int \<Rightarrow> int" where
  "classIndex b n =
     (let i = SearchInts (classes b) n in if i = length (classes b) then -1 else int i)"

text \<open>\<open>make([]byte, n, c)\<close>: a fresh zeroed array of \<open>c\<close> bytes.\<close>

definition make_buf :: "nat \<Rightarrow> nat \<Rightarrow> nat \<Rightarrow> buf" where
  "make_buf ptr n c = \<lparr>bid = ptr, mem = replicate c 0, blen = n\<rparr>"

definition sync_pool_Get :: "nat option \<Rightarrow> buf list \<Rightarrow> (buf \<times> buf list) option" where
  "sync_pool_Get choice ps =
     (case choice of
        None \<Rightarrow> None
      | Some k \<Rightarrow> if k < length ps then Some (ps ! k, take k ps @ drop (Suc k) ps) else None)"

text \<open>A negative length panics (\<open>None\<close>), in \<open>make\<close> or in the slice expression.\<close>

definition Buffers_Get :: "nat option \<Rightarrow> int \<Rightarrow> buffers \<Rightarrow> (buf \<times> buffers) option" where
  "Buffers_Get choice n b =
     (if n < 0 then None
      else let i = classIndex b n in
        if i < 0 then
          Some (make_buf (next_ptr b) (nat n) (nat n),
                b\<lparr>oversizeMiss := oversizeMiss b + 1, next_ptr := Suc (next_ptr b)\<rparr>)
        else
          (case sync_pool_Get choice (pools b ! nat i) of
             Some (p, rest) \<Rightarrow>
               Some (p\<lparr>blen := nat n\<rparr>,
                     b\<lparr>b_hits := (b_hits b)[nat i := b_hits b ! nat i + 1], pools := (pools b)[nat i := rest]\<rparr>)
           | None \<Rightarrow>
               Some (make_buf (next_ptr b) (nat n) (nat (classes b ! nat i)),
                     b\<lparr>b_misses := (b_misses b)[nat i := b_misses b ! nat i + 1], next_ptr := Suc (next_ptr b)\<rparr>)))"

definition Buffers_Put :: "buf option \<Rightarrow> buffers \<Rightarrow> buffers" where
  "Buffers_Put ptr b =
     (case ptr of
        None \<Rightarrow> b
      | Some p \<Rightarrow>
          (let c = cap p; i = SearchInts (classes b) c in
           if i = length (classes b) \<or> classes b ! i \<noteq> c then
             (if c > 0 \<and> c > last (classes b) then b\<lparr>oversizeDrop := oversizeDrop b + 1\<rparr>
              else if i < length (classes b) then b\<lparr>b_drops := (b_drops b)[i := b_drops b ! i + 1]\<rparr>
              else b\<lparr>oversizeDrop := oversizeDrop b + 1\<rparr>)
           else b\<lparr>pools := (pools b)[i := p\<lparr>blen := 0\<rparr> # pools b ! i]\<rparr>))"

lemmas pool_ops [pool_simps] = NewBuffers_def Buffers_Get_def Buffers_Put_def make_buf_def Let_def

text \<open>The runtime may drop pooled items at any time.\<close>

definition gc :: "nat \<Rightarrow> (buf \<Rightarrow> bool) \<Rightarrow> buffers \<Rightarrow> buffers" where
  "gc i keep b = b\<lparr>pools := (pools b)[i := filter keep (pools b ! i)]\<rparr>"

record class_stat =
  Class :: int
  cs_Hits :: u64
  cs_Misses :: u64
  cs_Drops :: u64

record stats =
  st_Hits :: u64
  st_Misses :: u64
  st_Drops :: u64
  PerClass :: "class_stat list"

definition Stats :: "buffers \<Rightarrow> stats" where
  "Stats b =
     (let per = map (\<lambda>i. \<lparr>Class = classes b ! i, cs_Hits = b_hits b ! i, cs_Misses = b_misses b ! i,
                          cs_Drops = b_drops b ! i\<rparr>) [0..<length (classes b)];
          s = fold (\<lambda>c s. s\<lparr>st_Hits := st_Hits s + cs_Hits c, st_Misses := st_Misses s + cs_Misses c,
                          st_Drops := st_Drops s + cs_Drops c\<rparr>) per
                \<lparr>st_Hits = 0, st_Misses = 0, st_Drops = 0, PerClass = per\<rparr>
      in s\<lparr>st_Misses := st_Misses s + oversizeMiss b, st_Drops := st_Drops s + oversizeDrop b\<rparr>)"

section \<open>The no-op pool and the message pools\<close>

text \<open>The state of \<open>NopBuffers\<close> is the allocator alone.\<close>

definition NopBuffers_Get :: "nat option \<Rightarrow> int \<Rightarrow> nat \<Rightarrow> (buf \<times> nat) option" where
  "NopBuffers_Get choice n ptr = (if n < 0 then None else Some (make_buf ptr (nat n) (nat n), Suc ptr))"

definition NopBuffers_Put :: "buf option \<Rightarrow> nat \<Rightarrow> nat" where
  "NopBuffers_Put p ptr = ptr"

definition NopBuffers_Stats :: "nat \<Rightarrow> stats" where
  "NopBuffers_Stats ptr = \<lparr>st_Hits = 0, st_Misses = 0, st_Drops = 0, PerClass = []\<rparr>"

text \<open>\<open>Msg\<close> over a message type whose zero value is \<open>zero\<close>: \<open>proto.Reset\<close> makes a message equal
  to it.\<close>

definition Msg_Get :: "'m \<Rightarrow> nat option \<Rightarrow> 'm list \<Rightarrow> 'm \<times> 'm list" where
  "Msg_Get zero choice ms =
     (case choice of
        Some k \<Rightarrow> if k < length ms then (ms ! k, take k ms @ drop (Suc k) ms) else (zero, ms)
      | None \<Rightarrow> (zero, ms))"

definition Msg_Put :: "'m \<Rightarrow> 'm option \<Rightarrow> 'm list \<Rightarrow> 'm list" where
  "Msg_Put zero m ms = (case m of None \<Rightarrow> ms | Some x \<Rightarrow> zero # ms)"

definition NopMsg_Get :: "'m \<Rightarrow> 'm" where
  "NopMsg_Get zero = zero"

section \<open>Modes\<close>

datatype mode = ModeAll | ModeNone | ModeMessages | ModeBuffers

definition ParseMode :: "string \<Rightarrow> string + mode" where
  "ParseMode s =
     (if s = '''' \<or> s = ''all'' then Inr ModeAll
      else if s = ''none'' then Inr ModeNone
      else if s = ''messages'' then Inr ModeMessages
      else if s = ''buffers'' then Inr ModeBuffers
      else Inl (''pool: unknown mode '' @ quoted s @ '' (want none|messages|buffers|all)''))"

fun Mode_String :: "mode \<Rightarrow> string" where
  "Mode_String ModeNone = ''none''"
| "Mode_String ModeMessages = ''messages''"
| "Mode_String ModeBuffers = ''buffers''"
| "Mode_String ModeAll = ''all''"

definition BuffersEnabled :: "mode \<Rightarrow> bool" where
  "BuffersEnabled m \<longleftrightarrow> m = ModeAll \<or> m = ModeBuffers"

definition MessagesEnabled :: "mode \<Rightarrow> bool" where
  "MessagesEnabled m \<longleftrightarrow> m = ModeAll \<or> m = ModeMessages"

datatype buffer_pool_impl = LiveBuffers buffers | NopBuffers nat

definition NewBufferPool :: "mode \<Rightarrow> int list \<Rightarrow> string + buffer_pool_impl" where
  "NewBufferPool m cls =
     (if BuffersEnabled m then map_sum id LiveBuffers (NewBuffers cls) else Inr (NopBuffers 0))"

section \<open>The contract of a buffer pool\<close>

text \<open>What a client of \<open>BufferPool\<close> relies on, for clients that put back only buffers they hold: a
  buffer handed out has the requested length, fits its array, and is held by nobody else.  The
  invariant relates the pool to the set of pointers handed out and not yet put back.\<close>

locale buffer_pool =
  fixes get :: "nat option \<Rightarrow> int \<Rightarrow> 's \<Rightarrow> (buf \<times> 's) option"
    and put :: "buf option \<Rightarrow> 's \<Rightarrow> 's"
    and inv :: "'s \<Rightarrow> nat set \<Rightarrow> bool"
  assumes get_total: "inv s held \<Longrightarrow> 0 \<le> n \<Longrightarrow> \<exists>p s'. get ch n s = Some (p, s')"
    and get_len: "inv s held \<Longrightarrow> get ch n s = Some (p, s') \<Longrightarrow> blen p = nat n \<and> blen p \<le> length (mem p)"
    and get_fresh: "inv s held \<Longrightarrow> get ch n s = Some (p, s') \<Longrightarrow> bid p \<notin> held \<and> inv s' (insert (bid p) held)"
    and put_inv: "inv s held \<Longrightarrow> bid p \<in> held \<Longrightarrow> inv (put (Some p) s) (held - {bid p})"
    and put_nil: "put None s = s"
begin

text \<open>A buffer can be put back and taken out again, and two buffers held at once are distinct.\<close>

lemma two_gets_distinct:
  assumes "inv s held" and "get ch n s = Some (p, s1)" and "get ch' n' s1 = Some (q, s2)"
  shows "bid p \<noteq> bid q \<and> inv s2 (insert (bid q) (insert (bid p) held))"
  using get_fresh [OF assms(1,2)] get_fresh [OF _ assms(3), of "insert (bid p) held"] by auto

lemma get_put_inv:
  assumes "inv s held" and "get ch n s = Some (p, s1)" and "bid q = bid p"
  shows "inv (put (Some q) s1) held"
  using get_fresh [OF assms(1,2)] put_inv [of s1 "insert (bid p) held" q] assms(3) by auto

end

section \<open>The invariant of the size-class pool\<close>

definition shape_inv :: "buffers \<Rightarrow> bool" where
  "shape_inv b \<longleftrightarrow>
     sorted_wrt (<) (classes b) \<and> classes b \<noteq> [] \<and> (\<forall>c \<in> set (classes b). 0 < c) \<and>
     length (pools b) = length (classes b) \<and> length (b_hits b) = length (classes b) \<and>
     length (b_misses b) = length (classes b) \<and> length (b_drops b) = length (classes b)"

text \<open>Only exact-capacity buffers are pooled.\<close>

definition exact_inv :: "buffers \<Rightarrow> bool" where
  "exact_inv b \<longleftrightarrow> (\<forall>i < length (classes b). \<forall>p \<in> set (pools b ! i). cap p = classes b ! i)"

definition owner_inv :: "buffers \<Rightarrow> nat set \<Rightarrow> bool" where
  "owner_inv b held \<longleftrightarrow>
     distinct (map bid (concat (pools b))) \<and>
     (\<forall>p \<in> set (concat (pools b)). bid p < next_ptr b \<and> bid p \<notin> held) \<and> (\<forall>x \<in> held. x < next_ptr b)"

definition pool_inv :: "buffers \<Rightarrow> nat set \<Rightarrow> bool" where
  "pool_inv b held \<longleftrightarrow> shape_inv b \<and> exact_inv b \<and> owner_inv b held"

lemma shape_sorted [simp]: "shape_inv b \<Longrightarrow> sorted (classes b)"
  by (simp add: shape_inv_def strict_sorted_imp_sorted)

lemma classIndex_cases:
  assumes "shape_inv b"
  shows "(classIndex b n = -1 \<and> (\<forall>c \<in> set (classes b). c < n)) \<or>
         (\<exists>i. classIndex b n = int i \<and> i < length (classes b) \<and> n \<le> classes b ! i \<and>
              (\<forall>k < i. classes b ! k < n))"
proof -
  note S = SearchInts_spec [OF shape_sorted [OF assms], of n]
  show ?thesis
  proof (cases "SearchInts (classes b) n = length (classes b)")
    case True
    with S(2) have "\<forall>c \<in> set (classes b). c < n" by (metis in_set_conv_nth)
    with True show ?thesis by (simp add: classIndex_def)
  next
    case False
    with S show ?thesis by (simp add: classIndex_def)
  qed
qed

lemma sync_pool_Get_Some:
  "sync_pool_Get ch ps = Some (p, rest) \<Longrightarrow> mset ps = add_mset p (mset rest)"
  by (auto simp: sync_pool_Get_def split: option.splits if_splits)
     (metis id_take_nth_drop mset_append mset.simps(2) union_mset_add_mset_right)

lemma mset_concat_update:
  assumes "i < length xs"
  shows "mset (concat (xs[i := ys])) + mset (xs ! i) = mset (concat xs) + mset ys"
proof -
  have "concat xs = concat (take i xs) @ xs ! i @ concat (drop (Suc i) xs)"
    using id_take_nth_drop [OF assms] by (metis concat.simps(2) concat_append)
  then show ?thesis using assms by (simp add: upd_conv_take_nth_drop)
qed

lemma mset_concat_take:
  assumes "i < length xs" and "mset (xs ! i) = add_mset p (mset rest)"
  shows "mset (concat xs) = add_mset p (mset (concat (xs[i := rest])))"
  using mset_concat_update [OF assms(1), of rest] assms(2) by simp

lemma mset_concat_put:
  assumes "i < length xs"
  shows "mset (concat (xs[i := p # xs ! i])) = add_mset p (mset (concat xs))"
  using mset_concat_update [OF assms, of "p # xs ! i"] by simp

lemma owner_inv_cong:
  assumes "mset (concat (pools b)) = mset xs"
  shows "owner_inv b held \<longleftrightarrow> distinct (map bid xs) \<and> (\<forall>p \<in> set xs. bid p < next_ptr b \<and> bid p \<notin> held) \<and>
           (\<forall>x \<in> held. x < next_ptr b)"
proof -
  have "mset (map bid (concat (pools b))) = mset (map bid xs)" using assms by simp
  then have "distinct (map bid (concat (pools b))) = distinct (map bid xs)"
    by (rule mset_eq_imp_distinct_iff)
  moreover have "set (concat (pools b)) = set xs" using assms by (rule mset_eq_setD)
  ultimately show ?thesis unfolding owner_inv_def by simp
qed

lemma pool_inv_Get:
  assumes inv: "pool_inv b held" and get: "Buffers_Get ch n b = Some (p, b')"
  shows "bid p \<notin> held \<and> pool_inv b' (insert (bid p) held)"
proof -
  have n: "0 \<le> n" using get by (auto simp: Buffers_Get_def split: if_splits)
  have sh: "shape_inv b" and ex: "exact_inv b" and ow: "owner_inv b held" using inv by (simp_all add: pool_inv_def)
  have fresh: "bid (make_buf (next_ptr b) x y) \<notin> held" for x y
    using ow by (auto simp: owner_inv_def make_buf_def)
  have ow': "owner_inv (b\<lparr>next_ptr := Suc (next_ptr b)\<rparr>) (insert (next_ptr b) held)"
    using ow by (fastforce simp: owner_inv_def)
  from classIndex_cases [OF sh, of n] show ?thesis
  proof (elim disjE exE conjE)
    assume i: "classIndex b n = -1"
    with get n have "p = make_buf (next_ptr b) (nat n) (nat n)"
      and "b' = b\<lparr>oversizeMiss := oversizeMiss b + 1, next_ptr := Suc (next_ptr b)\<rparr>"
      by (auto simp: pool_simps)
    with sh ex ow' fresh show ?thesis
      by (simp add: pool_inv_def shape_inv_def exact_inv_def owner_inv_def make_buf_def)
  next
    fix i assume i: "classIndex b n = int i" "i < length (classes b)"
    show ?thesis
    proof (cases "sync_pool_Get ch (pools b ! i)")
      case None
      with get n i have "p = make_buf (next_ptr b) (nat n) (nat (classes b ! i))"
        and "b' = b\<lparr>b_misses := (b_misses b)[i := b_misses b ! i + 1], next_ptr := Suc (next_ptr b)\<rparr>"
        by (auto simp: pool_simps)
      with sh ex ow' fresh show ?thesis
        by (simp add: pool_inv_def shape_inv_def exact_inv_def owner_inv_def make_buf_def)
    next
      case (Some pr)
      obtain q rest where pr: "pr = (q, rest)" by (cases pr)
      with Some get n i have p: "p = q\<lparr>blen := nat n\<rparr>"
        and b': "b' = b\<lparr>b_hits := (b_hits b)[i := b_hits b ! i + 1], pools := (pools b)[i := rest]\<rparr>"
        by (auto simp: pool_simps)
      have take: "mset (pools b ! i) = add_mset q (mset rest)"
        using sync_pool_Get_Some Some pr by blast
      have len: "i < length (pools b)" using sh i(2) by (simp add: shape_inv_def)
      have "mset (concat (pools b)) = mset (q # concat ((pools b)[i := rest]))"
        using mset_concat_take [OF len take] by simp
      from ow [unfolded owner_inv_cong [OF this]]
      have "bid q \<notin> held" and "owner_inv b' (insert (bid q) held)"
        by (auto simp: owner_inv_def b' image_iff) (metis image_eqI)+
      moreover have "exact_inv b'"
        using ex take len by (auto simp: exact_inv_def b' nth_list_update) (metis union_iff insert_iff set_mset_add_mset_insert set_mset_mset)
      ultimately show ?thesis using sh p by (simp add: pool_inv_def shape_inv_def b')
    qed
  qed
qed

lemma Buffers_Get_result:
  assumes "shape_inv b" and "exact_inv b" and "Buffers_Get ch n b = Some (p, b')"
  shows "0 \<le> n \<and> blen p = nat n \<and>
         (if \<forall>c \<in> set (classes b). c < n then cap p = n
          else \<exists>i < length (classes b). cap p = classes b ! i \<and> n \<le> classes b ! i \<and> (\<forall>k < i. classes b ! k < n))"
proof -
  have n: "0 \<le> n" using assms(3) by (auto simp: Buffers_Get_def split: if_splits)
  from classIndex_cases [OF assms(1), of n] show ?thesis
  proof (elim disjE exE conjE)
    assume "classIndex b n = -1" and "\<forall>c \<in> set (classes b). c < n"
    with assms(3) n show ?thesis by (auto simp: pool_simps)
  next
    fix i assume i: "classIndex b n = int i" "i < length (classes b)" "n \<le> classes b ! i" "\<forall>k < i. classes b ! k < n"
    then have not_all: "\<not> (\<forall>c \<in> set (classes b). c < n)" by (meson nth_mem not_less)
    have pos: "0 < classes b ! i" using assms(1) i(2) by (simp add: shape_inv_def)
    have "cap q = classes b ! i" if "sync_pool_Get ch (pools b ! i) = Some (q, rest)" for q rest
      using sync_pool_Get_Some [OF that] assms(2) i(2) by (auto simp: exact_inv_def) (metis union_single_eq_member set_mset_mset)
    with assms(3) i n pos have "blen p = nat n \<and> cap p = classes b ! i"
      by (auto simp: pool_simps split: option.splits)
    with i n not_all show ?thesis by auto
  qed
qed

lemma pool_inv_Put:
  assumes inv: "pool_inv b held" and "bid p \<in> held"
  shows "pool_inv (Buffers_Put (Some p) b) (held - {bid p})"
proof -
  have sh: "shape_inv b" and ex: "exact_inv b" and ow: "owner_inv b held" using inv by (simp_all add: pool_inv_def)
  let ?i = "SearchInts (classes b) (cap p)"
  have less: "owner_inv b (held - {bid p})" using ow by (auto simp: owner_inv_def)
  show ?thesis
  proof (cases "?i = length (classes b) \<or> classes b ! ?i \<noteq> cap p")
    case True
    with sh ex less show ?thesis
      by (auto simp: Buffers_Put_def Let_def pool_inv_def shape_inv_def exact_inv_def owner_inv_def)
  next
    case False
    with SearchInts_spec(1) [OF shape_sorted [OF sh], of "cap p"] sh
    have i: "?i < length (classes b)" "?i < length (pools b)" "classes b ! ?i = cap p"
      by (simp_all add: shape_inv_def)
    let ?q = "p\<lparr>blen := 0\<rparr>"
    have b': "Buffers_Put (Some p) b = b\<lparr>pools := (pools b)[?i := ?q # pools b ! ?i]\<rparr>"
      using False by (simp add: pool_simps)
    have perm: "mset (concat (pools (Buffers_Put (Some p) b))) = mset (?q # concat (pools b))"
      using mset_concat_put [OF i(2), of ?q] by (simp add: b')
    have "owner_inv (Buffers_Put (Some p) b) (held - {bid p})"
      unfolding owner_inv_cong [OF perm] using ow assms(2) by (fastforce simp: owner_inv_def b')
    moreover have "exact_inv (Buffers_Put (Some p) b)"
      using ex i by (auto simp: exact_inv_def b' nth_list_update)
    ultimately show ?thesis using sh by (simp add: pool_inv_def shape_inv_def b')
  qed
qed

lemma pool_inv_gc:
  assumes "pool_inv b held" and "i < length (classes b)"
  shows "pool_inv (gc i keep b) held"
proof -
  have len: "i < length (pools b)" using assms by (simp add: pool_inv_def shape_inv_def)
  let ?A = "mset (concat ((pools b)[i := filter keep (pools b ! i)]))" and ?F = "mset (filter keep (pools b ! i))"
    and ?G = "mset (filter (\<lambda>p. \<not> keep p) (pools b ! i))"
  have "mset (pools b ! i) = ?F + ?G" using multiset_partition [of "mset (pools b ! i)" keep] by simp
  with mset_concat_update [OF len, of "filter keep (pools b ! i)"]
  have "(?A + ?G) + ?F = mset (concat (pools b)) + ?F" by (simp only: ac_simps)
  then have "?A + ?G = mset (concat (pools b))" by (rule add_right_imp_eq)
  then have perm: "mset (concat (pools b)) =
      mset (concat (pools (gc i keep b)) @ filter (\<lambda>p. \<not> keep p) (pools b ! i))"
    by (simp add: gc_def)
  have "owner_inv b held" using assms(1) by (simp add: pool_inv_def)
  then have "owner_inv (gc i keep b) held"
    unfolding owner_inv_cong [OF perm] by (simp add: owner_inv_def gc_def)
  with assms len show ?thesis
    by (auto simp: pool_inv_def shape_inv_def exact_inv_def gc_def nth_list_update)
qed

interpretation bp: buffer_pool Buffers_Get Buffers_Put pool_inv
proof
  show "\<exists>p s'. Buffers_Get ch n s = Some (p, s')" if "pool_inv s held" and "0 \<le> n" for s held n ch
    using that(2) by (auto simp: pool_simps split: option.split)
  show "blen p = nat n \<and> blen p \<le> length (mem p)"
    if "pool_inv s held" and "Buffers_Get ch n s = Some (p, s')" for s held n ch p s'
    using Buffers_Get_result [of s ch n p s'] that by (auto simp: pool_inv_def split: if_splits)
qed (simp_all add: pool_inv_Get pool_inv_Put, simp add: Buffers_Put_def)

interpretation nop: buffer_pool NopBuffers_Get NopBuffers_Put "\<lambda>ptr held. \<forall>x \<in> held. x < ptr"
  by unfold_locales (auto simp: NopBuffers_Get_def NopBuffers_Put_def make_buf_def split: if_splits)

section \<open>Deduplication in place\<close>

lemma remdups_adj_snoc:
  "remdups_adj (xs @ [x]) = remdups_adj xs @ (if xs = [] \<or> x \<noteq> last xs then [x] else [])"
  by (cases xs rule: rev_cases) (auto simp: remdups_adj_append_two)

lemma dedupe_spec:
  assumes "length cs = length xs" and "k \<le> i" and "drop i cs = drop i xs"
    and "0 < i \<longrightarrow> i \<le> length xs \<longrightarrow> cs ! (i - 1) = xs ! (i - 1)" and "take k cs = remdups_adj (take i xs)"
    and "k = length (remdups_adj (take i xs))" and "i \<le> length xs"
  shows "if \<exists>j. i \<le> j \<and> j < length xs \<and> xs ! j \<le> 0 then \<exists>panic. dedupe cs i k = Inl panic
         else dedupe cs i k = Inr (remdups_adj xs)"
  using assms
proof (induction cs i k rule: dedupe.induct)
  case (1 cs i k)
  show ?case
  proof (cases "i < length cs")
    case False
    with 1 show ?thesis by (subst (1 2) dedupe.simps) simp
  next
    case True
    have ci: "cs ! i = xs ! i" using 1(5) True 1(3) by (metis hd_drop_conv_nth)
    have tk: "take (i + 1) xs = take i xs @ [xs ! i]" using True 1(3) by (simp add: take_Suc_conv_app_nth)
    have lst: "last (take i xs) = xs ! (i - 1)" if "i \<noteq> 0" using that True 1(3) by (subst last_conv_nth) auto
    have dr: "drop (i + 1) cs = drop (i + 1) xs" using arg_cong [OF 1(5), of "drop 1"] by simp
    consider "cs ! i \<le> 0" | "0 < cs ! i" "i = 0 \<or> cs ! i \<noteq> cs ! (i - 1)"
      | "0 < cs ! i" "i \<noteq> 0" "cs ! i = cs ! (i - 1)" by fastforce
    then show ?thesis
    proof cases
      case a: 1
      then have "\<exists>panic. dedupe cs i k = Inl panic" using True by (subst dedupe.simps) (simp add: Let_def)
      moreover have "\<exists>j. i \<le> j \<and> j < length xs \<and> xs ! j \<le> 0" using a ci True 1(3) by auto
      ultimately show ?thesis by simp
    next
      case a: 2
      have eq: "dedupe cs i k = dedupe (cs[k := cs ! i]) (i + 1) (k + 1)"
        using a True by (subst dedupe.simps) (auto simp: Let_def)
      have rd: "remdups_adj (take (i + 1) xs) = remdups_adj (take i xs) @ [xs ! i]"
        using a(2) ci lst 1(6) True 1(3) unfolding tk remdups_adj_snoc by auto
      have "take (k + 1) (cs[k := cs ! i]) = take k cs @ [cs ! i]"
        using True 1(4) by (simp add: take_Suc_conv_app_nth)
      then have "take (k + 1) (cs[k := cs ! i]) = remdups_adj (take (i + 1) xs)"
        and "k + 1 = length (remdups_adj (take (i + 1) xs))" using 1(7,8) ci rd by simp_all
      moreover have "drop (i + 1) (cs[k := cs ! i]) = drop (i + 1) xs" using dr 1(4) by simp
      moreover have "cs[k := cs ! i] ! (i + 1 - 1) = xs ! (i + 1 - 1)" using ci True by (cases "k = i") simp_all
      ultimately have IH: "if \<exists>j. i + 1 \<le> j \<and> j < length xs \<and> xs ! j \<le> 0
          then \<exists>panic. dedupe (cs[k := cs ! i]) (i + 1) (k + 1) = Inl panic
          else dedupe (cs[k := cs ! i]) (i + 1) (k + 1) = Inr (remdups_adj xs)"
        using 1(3,4) True by (intro 1(1) [OF True refl]) (use a in auto)
      have "(\<exists>j. i \<le> j \<and> j < length xs \<and> xs ! j \<le> 0) \<longleftrightarrow> (\<exists>j. i + 1 \<le> j \<and> j < length xs \<and> xs ! j \<le> 0)"
        using a(1) ci by (metis Suc_eq_plus1 le_eq_less_or_eq less_eq_Suc_le not_less)
      with IH show ?thesis unfolding eq by simp
    next
      case a: 3
      have eq: "dedupe cs i k = dedupe cs (i + 1) k"
        using a True by (subst dedupe.simps) (auto simp: Let_def)
      have rd: "remdups_adj (take (i + 1) xs) = remdups_adj (take i xs)"
        using a(2,3) ci lst 1(6) True 1(3) unfolding tk remdups_adj_snoc by auto
      have "take k cs = remdups_adj (take (i + 1) xs)" and "k = length (remdups_adj (take (i + 1) xs))"
        unfolding rd by (rule 1(7), rule 1(8))
      then have IH: "if \<exists>j. i + 1 \<le> j \<and> j < length xs \<and> xs ! j \<le> 0
          then \<exists>panic. dedupe cs (i + 1) k = Inl panic else dedupe cs (i + 1) k = Inr (remdups_adj xs)"
        using 1(3,4) True dr ci by (intro 1(2) [OF True refl]) (use a in auto)
      have "(\<exists>j. i \<le> j \<and> j < length xs \<and> xs ! j \<le> 0) \<longleftrightarrow> (\<exists>j. i + 1 \<le> j \<and> j < length xs \<and> xs ! j \<le> 0)"
        using a(1) ci by (metis Suc_eq_plus1 le_eq_less_or_eq less_eq_Suc_le not_less)
      with IH show ?thesis unfolding eq by simp
    qed
  qed
qed

lemma dedupe_eq:
  "if \<exists>c \<in> set xs. c \<le> 0 then \<exists>panic. dedupe xs 0 0 = Inl panic else dedupe xs 0 0 = Inr (remdups_adj xs)"
  using dedupe_spec [of xs xs 0 0] by (simp add: in_set_conv_nth Bex_def) (metis not_less)

lemma sorted_remdups_adj_strict: "sorted xs \<Longrightarrow> sorted_wrt (<) (remdups_adj xs)"
  by (induction xs rule: remdups_adj.induct) (auto simp: order.order_iff_strict)

lemma NewBuffers_eq:
  "(\<exists>panic. NewBuffers cls = Inl panic) \<longleftrightarrow> (\<exists>c \<in> set cls. c \<le> 0)"
  "NewBuffers cls = Inr b \<Longrightarrow> classes b = remdups_adj (sort (if cls = [] then DefaultClasses else cls)) \<and> pool_inv b {}"
proof -
  let ?cs = "sort (if cls = [] then DefaultClasses else cls)"
  have pos: "(\<exists>c \<in> set ?cs. c \<le> 0) \<longleftrightarrow> (\<exists>c \<in> set cls. c \<le> 0)" by (auto simp: DefaultClasses_def)
  show "(\<exists>panic. NewBuffers cls = Inl panic) \<longleftrightarrow> (\<exists>c \<in> set cls. c \<le> 0)"
    using dedupe_eq [of ?cs] unfolding pos NewBuffers_def Let_def by (cases "\<exists>c \<in> set cls. c \<le> 0") auto
  show "classes b = remdups_adj ?cs \<and> pool_inv b {}" if new: "NewBuffers cls = Inr b"
  proof -
    have np: "\<not> (\<exists>c \<in> set ?cs. c \<le> 0)" and dd: "dedupe ?cs 0 0 = Inr (remdups_adj ?cs)"
      using dedupe_eq [of ?cs] new by (auto simp: pool_simps split: if_splits)
    have strict: "sorted_wrt (<) (remdups_adj ?cs)" by (rule sorted_remdups_adj_strict) simp
    have "set ?cs \<noteq> {}" by (simp add: DefaultClasses_def)
    then have ne: "remdups_adj ?cs \<noteq> []" by (metis remdups_adj_Nil_iff set_empty)
    have b: "b = \<lparr>classes = remdups_adj ?cs, pools = replicate (length (remdups_adj ?cs)) [],
        b_hits = replicate (length (remdups_adj ?cs)) 0, b_misses = replicate (length (remdups_adj ?cs)) 0,
        b_drops = replicate (length (remdups_adj ?cs)) 0, oversizeMiss = 0, oversizeDrop = 0, next_ptr = 0\<rparr>"
      using new dd by (simp add: pool_simps)
    have "\<forall>c \<in> set (remdups_adj ?cs). 0 < c" using np by (auto simp: not_le)
    with strict ne show ?thesis unfolding b pool_inv_def shape_inv_def exact_inv_def owner_inv_def by simp
  qed
qed

section \<open>Accounting\<close>

lemma sum_list_bump: "i < length xs \<Longrightarrow> sum_list (xs[i := xs ! i + 1]) = sum_list xs + (1 :: u64)"
  by (induction xs arbitrary: i) (auto simp: nth_Cons' ac_simps split: nat.split)

lemma Stats_totals:
  assumes "shape_inv b"
  shows "st_Hits (Stats b) = sum_list (b_hits b)" and "st_Misses (Stats b) = sum_list (b_misses b) + oversizeMiss b"
    and "st_Drops (Stats b) = sum_list (b_drops b) + oversizeDrop b"
proof -
  have fold: "fold (\<lambda>c s. s\<lparr>st_Hits := st_Hits s + cs_Hits c, st_Misses := st_Misses s + cs_Misses c,
      st_Drops := st_Drops s + cs_Drops c\<rparr>) per s =
     s\<lparr>st_Hits := st_Hits s + sum_list (map cs_Hits per), st_Misses := st_Misses s + sum_list (map cs_Misses per),
       st_Drops := st_Drops s + sum_list (map cs_Drops per)\<rparr>" for per s
    by (induction per arbitrary: s) (simp_all add: ac_simps)
  have idx: "map (\<lambda>i. xs ! i) [0..<length (classes b)] = xs" if "length xs = length (classes b)" for xs :: "u64 list"
    using that by (metis map_nth)
  show "st_Hits (Stats b) = sum_list (b_hits b)" "st_Misses (Stats b) = sum_list (b_misses b) + oversizeMiss b"
    "st_Drops (Stats b) = sum_list (b_drops b) + oversizeDrop b"
    using assms by (simp_all add: Stats_def Let_def fold o_def idx shape_inv_def)
qed

section \<open>Runs of a pool shared by many clients\<close>

text \<open>Any interleaving of clients and of the runtime: a client takes a buffer, or puts back one it
  holds, possibly after the array behind the pointer was replaced by a grown one; the runtime drops
  pooled buffers.  The last component counts the calls of \<open>Get\<close>.\<close>

inductive preach :: "int list \<Rightarrow> buffers \<Rightarrow> nat set \<Rightarrow> nat \<Rightarrow> bool" for cls where
  start: "NewBuffers cls = Inr b \<Longrightarrow> preach cls b {} 0"
| get: "preach cls b held g \<Longrightarrow> Buffers_Get ch n b = Some (p, b') \<Longrightarrow> preach cls b' (insert (bid p) held) (Suc g)"
| put: "preach cls b held g \<Longrightarrow> bid p \<in> held \<Longrightarrow> preach cls (Buffers_Put (Some p) b) (held - {bid p}) g"
| gc: "preach cls b held g \<Longrightarrow> i < length (classes b) \<Longrightarrow> preach cls (gc i keep b) held g"

lemma Buffers_Get_account:
  assumes "shape_inv b" and "Buffers_Get ch n b = Some (p, b')"
  shows "sum_list (b_hits b') + sum_list (b_misses b') + oversizeMiss b' =
         sum_list (b_hits b) + sum_list (b_misses b) + oversizeMiss b + 1 \<and> classes b' = classes b"
  using classIndex_cases [OF assms(1), of n] assms
  by (auto simp: pool_simps shape_inv_def sum_list_bump split: if_splits option.splits)

lemma Buffers_Put_account:
  "b_hits (Buffers_Put p b) = b_hits b \<and> b_misses (Buffers_Put p b) = b_misses b \<and>
   oversizeMiss (Buffers_Put p b) = oversizeMiss b \<and> classes (Buffers_Put p b) = classes b"
  by (simp add: pool_simps split: option.split)

lemma preach_inv:
  "preach cls b held g \<Longrightarrow> pool_inv b held \<and>
     sum_list (b_hits b) + sum_list (b_misses b) + oversizeMiss b = of_nat g \<and>
     classes b = remdups_adj (sort (if cls = [] then DefaultClasses else cls))"
proof (induction rule: preach.induct)
  case (start b)
  then have "sum_list (b_hits b) = 0 \<and> sum_list (b_misses b) = 0 \<and> oversizeMiss b = 0"
    by (auto simp: pool_simps sum_list_replicate split: sum.splits)
  with NewBuffers_eq(2) [OF start] show ?case by simp
next
  case (get b held g ch n p b')
  with pool_inv_Get [of b held ch n p b'] Buffers_Get_account [of b ch n p b'] show ?case
    by (simp add: pool_inv_def)
next
  case (put b held g p)
  with pool_inv_Put [of b held p] Buffers_Put_account [of "Some p" b] show ?case by simp
next
  case (gc b held g i keep)
  with pool_inv_gc [of b held i keep] show ?case by (simp add: Pool.gc_def)
qed

section \<open>Properties\<close>

text \<open>\<open>NewBuffers\<close> panics exactly when a class is not positive; otherwise the deduplication in
  place, although it reads the array it is overwriting, leaves exactly the given classes, each once,
  in strictly ascending order.\<close>

theorem newbuffers_classes:
  "((\<exists>panic. NewBuffers cls = Inl panic) \<longleftrightarrow> (\<exists>c \<in> set cls. c \<le> 0)) \<and>
   (\<forall>b. NewBuffers cls = Inr b \<longrightarrow>
      sorted_wrt (<) (classes b) \<and> set (classes b) = (if cls = [] then set DefaultClasses else set cls) \<and>
      concat (pools b) = [])"
proof (intro conjI allI impI)
  show "(\<exists>panic. NewBuffers cls = Inl panic) \<longleftrightarrow> (\<exists>c \<in> set cls. c \<le> 0)" by (rule NewBuffers_eq)
  fix b assume new: "NewBuffers cls = Inr b"
  from NewBuffers_eq(2) [OF new] have cs: "classes b = remdups_adj (sort (if cls = [] then DefaultClasses else cls))"
    and "shape_inv b" by (simp_all add: pool_inv_def)
  then show "sorted_wrt (<) (classes b)" by (simp only: shape_inv_def)
  show "set (classes b) = (if cls = [] then set DefaultClasses else set cls)" by (simp add: cs)
  from new show "concat (pools b) = []" by (auto simp: pool_simps split: sum.splits)
qed

theorem newbuffers_classes_witness:
  "\<exists>b. NewBuffers [64, 16, 64, 16] = Inr b \<and> sorted_wrt (<) (classes b) \<and> set (classes b) = {16, 64}"
proof -
  obtain b where b: "NewBuffers [64, 16, 64, 16] = Inr b"
    using newbuffers_classes [of "[64, 16, 64, 16]"] by (cases "NewBuffers [64, 16, 64, 16]") auto
  with newbuffers_classes [of "[64, 16, 64, 16]"] show ?thesis by (intro exI [of _ b]) auto
qed

text \<open>\<open>Get\<close>, in every reachable state and whatever the pool hands back: a nonnegative request
  succeeds; the buffer has the requested length, and as capacity the smallest class that fits, or
  exactly the length when it exceeds every class; and no other client holds it.\<close>

theorem buffers_get:
  assumes "preach cls b held g" and "0 \<le> n"
  shows "\<exists>p b'. Buffers_Get ch n b = Some (p, b') \<and> blen p = nat n \<and> bid p \<notin> held \<and>
           cap p = (if \<exists>c \<in> set (classes b). n \<le> c then Min {c \<in> set (classes b). n \<le> c} else n)"
proof -
  have inv: "pool_inv b held" using preach_inv [OF assms(1)] by blast
  obtain p b' where get: "Buffers_Get ch n b = Some (p, b')" using bp.get_total [OF inv assms(2)] by blast
  have sh: "shape_inv b" and ex: "exact_inv b" using inv by (simp_all add: pool_inv_def)
  note R = Buffers_Get_result [OF sh ex get]
  have "cap p = (if \<exists>c \<in> set (classes b). n \<le> c then Min {c \<in> set (classes b). n \<le> c} else n)"
  proof (cases "\<forall>c \<in> set (classes b). c < n")
    case False
    with R obtain i where i: "i < length (classes b)" "cap p = classes b ! i" "n \<le> classes b ! i"
      "\<forall>k < i. classes b ! k < n" by auto
    have "classes b ! i \<le> c" if "c \<in> set (classes b)" and "n \<le> c" for c
    proof -
      from that(1) obtain k where k: "k < length (classes b)" "c = classes b ! k" by (auto simp: in_set_conv_nth)
      with that(2) i(4) have "i \<le> k" by (meson not_less)
      with k sorted_nth_mono [OF shape_sorted [OF sh]] show ?thesis by simp
    qed
    with i have "Min {c \<in> set (classes b). n \<le> c} = classes b ! i" by (intro Min_eqI) auto
    with i show ?thesis by auto
  qed (use R in auto)
  with get R bp.get_fresh [OF inv get] show ?thesis by blast
qed

theorem buffers_get_witness:
  "\<exists>b p b'. NewBuffers [16, 64] = Inr b \<and> Buffers_Get None 20 b = Some (p, b') \<and> cap p = 64"
proof -
  obtain b where b: "NewBuffers [16, 64] = Inr b"
    using NewBuffers_eq(1) [of "[16, 64]"] by (cases "NewBuffers [16, 64]") auto
  then have "classes b = [16, 64]" using NewBuffers_eq(2) by fastforce
  moreover have "Min {c. (c = 16 \<or> c = 64) \<and> 20 \<le> c} = (64 :: int)"
    by (rule Min_eqI) (auto intro: finite_subset [of _ "{16, 64}"])
  ultimately show ?thesis using buffers_get [OF preach.start [OF b], of 20 None] b by auto
qed

text \<open>C16. Whatever clients and the runtime do: pooled buffers always have exactly their class's
  capacity, so nothing larger than the top class is ever retained; no pointer is pooled twice, and
  none is pooled while a client holds it; and hits plus misses of the statistics is the number of
  \<open>Get\<close> calls, modulo \<open>2^64\<close>.\<close>

theorem buffers_pool_invariant:
  assumes "preach cls b held g"
  shows "(\<forall>i < length (classes b). \<forall>p \<in> set (pools b ! i). cap p = classes b ! i) \<and>
         distinct (map bid (concat (pools b))) \<and> (\<forall>p \<in> set (concat (pools b)). bid p \<notin> held) \<and>
         st_Hits (Stats b) + st_Misses (Stats b) = of_nat g"
proof -
  have inv: "pool_inv b held" and acc: "sum_list (b_hits b) + sum_list (b_misses b) + oversizeMiss b = of_nat g"
    using preach_inv [OF assms] by blast+
  then have "shape_inv b" and "exact_inv b" and "owner_inv b held" by (simp_all add: pool_inv_def)
  with acc show ?thesis by (simp add: Stats_totals exact_inv_def owner_inv_def ac_simps)
qed

theorem buffers_pool_invariant_witness:
  "\<exists>b p b'. NewBuffers [] = Inr b \<and> Buffers_Get None 300 b = Some (p, b') \<and>
     st_Hits (Stats b') + st_Misses (Stats b') = 1"
proof -
  obtain b where b: "NewBuffers [] = Inr b"
    using NewBuffers_eq(1) [of "[]"] by (cases "NewBuffers []") auto
  have "pool_inv b {}" using NewBuffers_eq(2) [OF b] by simp
  then obtain p b' where get: "Buffers_Get None 300 b = Some (p, b')"
    using bp.get_total [of b "{}" 300 None] by auto
  from buffers_pool_invariant [OF preach.get [OF preach.start [OF b] get]] b get show ?thesis by auto
qed

text \<open>The pool mode flag: printing a mode and parsing it gives it back, and the buffer pool a mode
  builds is live exactly for the modes that enable it.\<close>

theorem mode_roundtrip:
  "ParseMode (Mode_String m) = Inr m \<and>
   (\<exists>ptr. NewBufferPool m cls = Inr (NopBuffers ptr)) = (m = ModeNone \<or> m = ModeMessages)"
  by (cases m; cases "NewBuffers cls") (auto simp: ParseMode_def NewBufferPool_def BuffersEnabled_def)

end
