(* ===== verification/Rpc_Core.thy ===== *)
theory Rpc_Core
  imports Prelude
begin

text \<open>
  The transport-independent data of the RPC lab: the wire \<open>Status\<close>, the error values and
  their classification (\<open>clients/internal/rpc/errors.go\<close>), the routing envelope
  \<open>rpc.v1.Request\<close> and \<open>rpc.v1.Response\<close>, and the helpers that build envelopes and pack
  payloads (\<open>request.go\<close>, \<open>anypayload.go\<close>, \<open>capabilities.go\<close>).

  The protobuf library (\<open>anypb.New\<close>, \<open>UnmarshalNew\<close>, \<open>UnmarshalTo\<close>) is not part of the
  repository: each definition takes the functions it calls as arguments.
\<close>

section \<open>Status and errors\<close>

text \<open>\<open>rpcv1.Status\<close> is an open enum over \<open>int32\<close>: \<open>STATUS_OTHER\<close> is a number with no name.\<close>

datatype status =
    STATUS_UNSPECIFIED
  | STATUS_OK
  | STATUS_INVALID_ARGUMENT
  | STATUS_NOT_FOUND
  | STATUS_TIMEOUT
  | STATUS_UNAVAILABLE
  | STATUS_INTERNAL
  | STATUS_OTHER int

fun Status_String :: "status \<Rightarrow> string" where
  "Status_String STATUS_UNSPECIFIED = ''STATUS_UNSPECIFIED''"
| "Status_String STATUS_OK = ''STATUS_OK''"
| "Status_String STATUS_INVALID_ARGUMENT = ''STATUS_INVALID_ARGUMENT''"
| "Status_String STATUS_NOT_FOUND = ''STATUS_NOT_FOUND''"
| "Status_String STATUS_TIMEOUT = ''STATUS_TIMEOUT''"
| "Status_String STATUS_UNAVAILABLE = ''STATUS_UNAVAILABLE''"
| "Status_String STATUS_INTERNAL = ''STATUS_INTERNAL''"
| "Status_String (STATUS_OTHER n) = itoa n"

text \<open>The package-level error values the code compares against with \<open>errors.Is\<close>: the four of
  \<open>errors.go\<close>, the two of package \<open>context\<close>, and those of \<open>nats.go\<close> and \<open>go-redis\<close> that the
  bindings name.\<close>

datatype sentinel =
    ErrNoResponder
  | ErrUnavailable
  | ErrNotFound
  | ErrInvalidArgument
  | CtxDeadlineExceeded
  | CtxCanceled
  | NatsErrNoResponders
  | NatsErrTimeout
  | NatsErrStreamNotFound
  | RedisNil

text \<open>A Go error value.  \<open>RpcError\<close> is a \<open>*rpc.Error\<close>; \<open>Opaque\<close> is any other error that
  wraps nothing, known by its text; \<open>Wrapf pre e post\<close> is \<open>fmt.Errorf\<close> with one \<open>%w\<close> verb,
  the text before and after it already formatted.\<close>

datatype gerr =
    Sentinel sentinel
  | RpcError status string
  | Opaque string
  | Wrapf string gerr string

fun sentinel_text :: "sentinel \<Rightarrow> string" where
  "sentinel_text ErrNoResponder = ''rpc: no responder''"
| "sentinel_text ErrUnavailable = ''rpc: unavailable''"
| "sentinel_text ErrNotFound = ''rpc: service or method not found''"
| "sentinel_text ErrInvalidArgument = ''rpc: invalid argument''"
| "sentinel_text CtxDeadlineExceeded = ''context deadline exceeded''"
| "sentinel_text CtxCanceled = ''context canceled''"
| "sentinel_text NatsErrNoResponders = ''nats: no responders available for request''"
| "sentinel_text NatsErrTimeout = ''nats: timeout''"
| "sentinel_text NatsErrStreamNotFound = ''nats: stream not found''"
| "sentinel_text RedisNil = ''redis: nil''"

primrec Error :: "gerr \<Rightarrow> string" where
  "Error (Sentinel s) = sentinel_text s"
| "Error (RpcError st msg) = ''rpc: '' @ Status_String st @ '': '' @ msg"
| "Error (Opaque t) = t"
| "Error (Wrapf pre e post) = pre @ Error e @ post"

definition Errorf :: "status \<Rightarrow> string \<Rightarrow> gerr" where
  "Errorf s msg = RpcError s msg"

text \<open>\<open>errors.Is(err, target)\<close> and \<open>errors.As(err, &e)\<close> for \<open>e *rpc.Error\<close> walk the chain of
  wrapped errors.\<close>

primrec errors_Is :: "gerr \<Rightarrow> sentinel \<Rightarrow> bool" where
  "errors_Is (Sentinel s) t \<longleftrightarrow> s = t"
| "errors_Is (RpcError st msg) t \<longleftrightarrow> False"
| "errors_Is (Opaque x) t \<longleftrightarrow> False"
| "errors_Is (Wrapf pre e post) t \<longleftrightarrow> errors_Is e t"

primrec errors_As :: "gerr \<Rightarrow> (status \<times> string) option" where
  "errors_As (Sentinel s) = None"
| "errors_As (RpcError st msg) = Some (st, msg)"
| "errors_As (Opaque x) = None"
| "errors_As (Wrapf pre e post) = errors_As e"

definition StatusOf :: "gerr option \<Rightarrow> status" where
  "StatusOf err =
     (case err of
        None \<Rightarrow> STATUS_OK
      | Some e \<Rightarrow>
          (case errors_As e of
             Some (st, msg) \<Rightarrow> st
           | None \<Rightarrow>
               (if errors_Is e CtxDeadlineExceeded then STATUS_TIMEOUT
                else if errors_Is e CtxCanceled then STATUS_UNAVAILABLE
                else if errors_Is e ErrNoResponder \<or> errors_Is e ErrUnavailable then STATUS_UNAVAILABLE
                else if errors_Is e ErrNotFound then STATUS_NOT_FOUND
                else if errors_Is e ErrInvalidArgument then STATUS_INVALID_ARGUMENT
                else STATUS_INTERNAL)))"

section \<open>The routing envelope\<close>

record any_pb =
  TypeUrl :: string
  AnyValue :: bytes

record rpc_request =
  rq_RequestId :: string
  rq_Service :: string
  rq_Method :: string
  rq_ClientId :: string
  rq_TraceId :: string
  rq_IdempotencyKey :: string
  rq_ClientSentAt :: "timestamp option"
  rq_Timeout :: "duration option"
  rq_Metadata :: "string \<Rightarrow> string option"
  rq_Payload :: "any_pb option"

record rpc_response =
  rs_RequestId :: string
  rs_Service :: string
  rs_Method :: string
  rs_ClientSentAt :: "timestamp option"
  rs_ServerReceivedAt :: "timestamp option"
  rs_ServerSentAt :: "timestamp option"
  rs_Status :: status
  rs_ErrorMessage :: string
  rs_Metadata :: "string \<Rightarrow> string option"
  rs_Payload :: "any_pb option"
  rs_GatewayARecv :: "timestamp option"
  rs_GatewayAPub :: "timestamp option"
  rs_GatewayBRecv :: "timestamp option"
  rs_GatewayBInvoke :: "timestamp option"
  rs_ServiceResp :: "timestamp option"
  rs_GatewayBPub :: "timestamp option"
  rs_GatewayARecvResp :: "timestamp option"

text \<open>The zero values of the generated structs: what a composite literal leaves unset.\<close>

definition zero_request :: rpc_request where
  "zero_request =
     \<lparr>rq_RequestId = '''', rq_Service = '''', rq_Method = '''', rq_ClientId = '''', rq_TraceId = '''',
      rq_IdempotencyKey = '''', rq_ClientSentAt = None, rq_Timeout = None, rq_Metadata = Map.empty,
      rq_Payload = None\<rparr>"

definition zero_response :: rpc_response where
  "zero_response =
     \<lparr>rs_RequestId = '''', rs_Service = '''', rs_Method = '''', rs_ClientSentAt = None,
      rs_ServerReceivedAt = None, rs_ServerSentAt = None, rs_Status = STATUS_UNSPECIFIED,
      rs_ErrorMessage = '''', rs_Metadata = Map.empty, rs_Payload = None, rs_GatewayARecv = None,
      rs_GatewayAPub = None, rs_GatewayBRecv = None, rs_GatewayBInvoke = None,
      rs_ServiceResp = None, rs_GatewayBPub = None, rs_GatewayARecvResp = None\<rparr>"

text \<open>\<open>resp.GetStatus()\<close> on a possibly nil response.\<close>

definition GetStatus :: "rpc_response option \<Rightarrow> status" where
  "GetStatus r = (case r of None \<Rightarrow> STATUS_UNSPECIFIED | Some resp \<Rightarrow> rs_Status resp)"

record capabilities =
  NativeRequestReply :: bool
  DurableRequests :: bool
  DurableResponses :: bool
  Replay :: bool
  ServerDiscovery :: bool
  Streaming :: bool
  AtLeastOnce :: bool

definition zero_capabilities :: capabilities where
  "zero_capabilities =
     \<lparr>NativeRequestReply = False, DurableRequests = False, DurableResponses = False, Replay = False,
      ServerDiscovery = False, Streaming = False, AtLeastOnce = False\<rparr>"

section \<open>Packing payloads\<close>

text \<open>A nil \<open>proto.Message\<close> is \<open>None\<close>; a nil \<open>*anypb.Any\<close> is \<open>None\<close>.\<close>

definition Pack :: "('m \<Rightarrow> gerr + any_pb) \<Rightarrow> 'm option \<Rightarrow> gerr + any_pb" where
  "Pack any_new m =
     (case m of
        None \<Rightarrow> Inl (Opaque ''rpc: Pack: nil message'')
      | Some msg \<Rightarrow> any_new msg)"

definition Unpack :: "(any_pb \<Rightarrow> gerr + 'm) \<Rightarrow> any_pb option \<Rightarrow> gerr + 'm" where
  "Unpack unmarshal_new a =
     (case a of
        None \<Rightarrow> Inl (Opaque ''rpc: Unpack: nil Any'')
      | Some x \<Rightarrow>
          (case unmarshal_new x of
             Inl err \<Rightarrow> Inl (Wrapf (''rpc: Unpack '' @ quoted (TypeUrl x) @ '': '') err '''')
           | Inr m \<Rightarrow> Inr m))"

text \<open>\<open>UnmarshalTo\<close> decodes into the caller's message; the result is that message's new value.\<close>

definition UnpackInto ::
  "(any_pb \<Rightarrow> 'm \<Rightarrow> gerr + 'm) \<Rightarrow> any_pb option \<Rightarrow> 'm option \<Rightarrow> gerr + 'm" where
  "UnpackInto unmarshal_to a m =
     (case a of
        None \<Rightarrow> Inl (Opaque ''rpc: UnpackInto: nil Any'')
      | Some x \<Rightarrow>
          (case m of
             None \<Rightarrow> Inl (Opaque ''rpc: UnpackInto: nil target'')
           | Some t \<Rightarrow>
               (case unmarshal_to x t of
                  Inl err \<Rightarrow> Inl (Wrapf (''rpc: UnpackInto '' @ quoted (TypeUrl x) @ '': '') err '''')
                | Inr v \<Rightarrow> Inr v)))"

section \<open>Building envelopes\<close>

text \<open>\<open>uuid\<close> and \<open>now\<close> are the values of \<open>uuid.NewString()\<close> and \<open>timestamppb.Now()\<close>.\<close>

definition NewRequest ::
  "('m \<Rightarrow> gerr + any_pb) \<Rightarrow> string \<Rightarrow> timestamp \<Rightarrow> string \<Rightarrow> string \<Rightarrow> 'm option \<Rightarrow> duration
   \<Rightarrow> gerr + rpc_request" where
  "NewRequest any_new uuid now service method payload timeout =
     (if timeout \<le> 0
      then Inl (Opaque (''rpc: NewRequest: timeout must be > 0, got '' @ Duration_String timeout))
      else (case Pack any_new payload of
              Inl err \<Rightarrow> Inl err
            | Inr a \<Rightarrow>
                Inr (zero_request
                       \<lparr>rq_RequestId := uuid, rq_Service := service, rq_Method := method,
                        rq_ClientSentAt := Some now, rq_Timeout := Some timeout,
                        rq_Payload := Some a\<rparr>)))"

definition NewResponse ::
  "('m \<Rightarrow> gerr + any_pb) \<Rightarrow> rpc_request \<Rightarrow> 'm option \<Rightarrow> gerr + rpc_response" where
  "NewResponse any_new req payload =
     (case Pack any_new payload of
        Inl err \<Rightarrow> Inl err
      | Inr a \<Rightarrow>
          Inr (zero_response
                 \<lparr>rs_RequestId := rq_RequestId req, rs_Service := rq_Service req,
                  rs_Method := rq_Method req, rs_ClientSentAt := rq_ClientSentAt req,
                  rs_Status := STATUS_OK, rs_Payload := Some a\<rparr>))"

definition ErrorResponse :: "rpc_request \<Rightarrow> gerr \<Rightarrow> rpc_response" where
  "ErrorResponse req err =
     zero_response
       \<lparr>rs_RequestId := rq_RequestId req, rs_Service := rq_Service req,
        rs_Method := rq_Method req, rs_ClientSentAt := rq_ClientSentAt req,
        rs_Status := StatusOf (Some err), rs_ErrorMessage := Error err\<rparr>"

section \<open>Facts the component proofs share\<close>

text \<open>Wrapping, however deep, never changes what an error is.\<close>

fun wrap_all :: "(string \<times> string) list \<Rightarrow> gerr \<Rightarrow> gerr" where
  "wrap_all [] e = e"
| "wrap_all ((pre, post) # ws) e = Wrapf pre (wrap_all ws e) post"

lemma StatusOf_None [simp]: "StatusOf None = STATUS_OK"
  by (simp add: StatusOf_def)

lemma StatusOf_Wrapf [simp]: "StatusOf (Some (Wrapf pre e post)) = StatusOf (Some e)"
  by (simp add: StatusOf_def)

lemma StatusOf_RpcError [simp]: "StatusOf (Some (RpcError st msg)) = st"
  by (simp add: StatusOf_def)

lemma StatusOf_Opaque [simp]: "StatusOf (Some (Opaque t)) = STATUS_INTERNAL"
  by (simp add: StatusOf_def)

lemma StatusOf_Sentinel [simp]:
  "StatusOf (Some (Sentinel s)) =
     (case s of
        ErrNoResponder \<Rightarrow> STATUS_UNAVAILABLE
      | ErrUnavailable \<Rightarrow> STATUS_UNAVAILABLE
      | ErrNotFound \<Rightarrow> STATUS_NOT_FOUND
      | ErrInvalidArgument \<Rightarrow> STATUS_INVALID_ARGUMENT
      | CtxDeadlineExceeded \<Rightarrow> STATUS_TIMEOUT
      | CtxCanceled \<Rightarrow> STATUS_UNAVAILABLE
      | _ \<Rightarrow> STATUS_INTERNAL)"
  by (cases s) (simp_all add: StatusOf_def)

lemma StatusOf_wrap_all: "StatusOf (Some (wrap_all ws e)) = StatusOf (Some e)"
  by (induction ws e rule: wrap_all.induct) simp_all

lemma StatusOf_OK_iff:
  "StatusOf (Some e) = STATUS_OK \<longleftrightarrow> (\<exists>msg. errors_As e = Some (STATUS_OK, msg))"
  by (auto simp: StatusOf_def split: option.splits if_splits)

text \<open>The identity a response echoes: the four fields both constructors copy.\<close>

definition echoes :: "rpc_request \<Rightarrow> rpc_response \<Rightarrow> bool" where
  "echoes req resp \<longleftrightarrow>
     rs_RequestId resp = rq_RequestId req \<and> rs_Service resp = rq_Service req \<and>
     rs_Method resp = rq_Method req \<and> rs_ClientSentAt resp = rq_ClientSentAt req"

lemma echoes_ErrorResponse [simp]: "echoes req (ErrorResponse req err)"
  by (simp add: echoes_def ErrorResponse_def)

lemma echoes_NewResponse: "NewResponse any_new req m = Inr resp \<Longrightarrow> echoes req resp"
  by (auto simp: echoes_def NewResponse_def split: sum.splits)

lemma ErrorResponse_fields [simp]:
  "rs_Status (ErrorResponse req err) = StatusOf (Some err)"
  "rs_Payload (ErrorResponse req err) = None"
  "rs_ErrorMessage (ErrorResponse req err) = Error err"
  "rs_RequestId (ErrorResponse req err) = rq_RequestId req"
  by (simp_all add: ErrorResponse_def zero_response_def)

lemma NewResponse_Inr:
  "NewResponse any_new req m = Inr resp \<Longrightarrow>
     rs_Status resp = STATUS_OK \<and> rs_RequestId resp = rq_RequestId req \<and>
     (\<exists>msg a. m = Some msg \<and> any_new msg = Inr a \<and> rs_Payload resp = Some a)"
  by (auto simp: NewResponse_def Pack_def split: sum.splits option.splits)

end
