(* ===== verification/Codec.thy ===== *)
theory Codec
  imports Pool Rpc_Core
begin

text \<open>
  The benchmark codecs (\<open>clients/internal/codec/codec.go\<close>, \<open>vt.go\<close>): the choice of a codec by name
  and by content type, the vtprotobuf marshaller over a slice with spare capacity, and \<open>Encode\<close>,
  which marshals into a pooled buffer.

  A slice is its backing array and its length.  A marshaller returns, next to an error or the
  resulting slice, what it left in the array it was given.  \<open>Encode\<close> takes the pool's operations as
  arguments; its correctness is proved once, inside the locale \<open>buffer_pool\<close>.  The running average
  of ProtoJSON output sizes (floating point) is only a size hint, and is a parameter here.
\<close>

section \<open>Codecs\<close>

datatype codec = Proto | ProtoJSON | VT

fun Name :: "codec \<Rightarrow> string" where
  "Name Proto = ''proto''"
| "Name ProtoJSON = ''protojson''"
| "Name VT = ''vtproto''"

definition ByName :: "string \<Rightarrow> gerr + codec" where
  "ByName name =
     (if name = '''' \<or> name = ''proto'' then Inr Proto
      else if name = ''protojson'' then Inr ProtoJSON
      else if name = ''vtproto'' then Inr VT
      else Inl (Opaque (''codec: unknown '' @ quoted name @ '' (want proto|protojson|vtproto)'')))"

definition ContentType :: "codec option \<Rightarrow> string" where
  "ContentType c =
     (if c \<noteq> None \<and> Name (the c) = ''protojson'' then ''application/json'' else ''application/protobuf'')"

definition ByContentType :: "string \<Rightarrow> codec" where
  "ByContentType ct = (if ct = ''application/json'' then ProtoJSON else Proto)"

section \<open>The vtprotobuf marshaller\<close>

type_synonym slice = "bytes \<times> nat"
type_synonym 'm marshaller = "slice \<Rightarrow> 'm \<Rightarrow> (gerr + slice) \<times> bytes"

text \<open>The generated methods: \<open>MarshalToSizedBufferVT\<close> returns its error and the filled buffer;
  \<open>vt_type\<close> holds of the messages that implement the API.\<close>

record 'm vt_lib =
  vt_type :: "'m \<Rightarrow> bool"
  SizeVT :: "'m \<Rightarrow> nat"
  MarshalToSizedBufferVT :: "bytes \<Rightarrow> 'm \<Rightarrow> gerr option \<times> bytes"
  UnmarshalVT :: "bytes \<Rightarrow> gerr + 'm"
  proto_Size :: "'m \<Rightarrow> nat"
  type_name :: "'m \<Rightarrow> string"

definition vt_SizeHint :: "'m vt_lib \<Rightarrow> 'm \<Rightarrow> int" where
  "vt_SizeHint V m = (if vt_type V m then int (SizeVT V m) else int (proto_Size V m))"

definition vt_MarshalAppend :: "'m vt_lib \<Rightarrow> 'm marshaller" where
  "vt_MarshalAppend V dst m =
     (case dst of (arr, start) \<Rightarrow>
        if \<not> vt_type V m
        then (Inl (Opaque (''codec: '' @ type_name V m @ '' does not implement the vtproto API'')), arr)
        else (let size = SizeVT V m;
                  grown = (length arr - start < size);
                  dst' = (if grown then take start arr @ replicate size 0 else arr);
                  (err, filled) = MarshalToSizedBufferVT V (take size (drop start dst')) m;
                  dst'' = take start dst' @ filled @ drop (start + size) dst'
              in (case err of
                    Some e \<Rightarrow> (Inl e, if grown then arr else dst'')
                  | None \<Rightarrow> (Inr (dst'', start + size), if grown then arr else dst''))))"

definition vt_Unmarshal :: "'m vt_lib \<Rightarrow> bytes \<Rightarrow> 'm \<Rightarrow> gerr + 'm" where
  "vt_Unmarshal V b m =
     (if \<not> vt_type V m then Inl (Opaque (''codec: '' @ type_name V m @ '' does not implement the vtproto API''))
      else UnmarshalVT V b)"

section \<open>Encode\<close>

text \<open>\<open>None\<close> is a panic in the pool.  On an error the buffer goes back to the pool with whatever the
  marshaller left in it; on success the pointer now refers to the resulting slice.\<close>

definition Encode ::
  "(nat option \<Rightarrow> int \<Rightarrow> 's \<Rightarrow> (buf \<times> 's) option) \<Rightarrow> (buf option \<Rightarrow> 's \<Rightarrow> 's) \<Rightarrow>
   ('m \<Rightarrow> int) \<Rightarrow> 'm marshaller \<Rightarrow> nat option \<Rightarrow> 'm \<Rightarrow> 's \<Rightarrow> ((gerr + buf) \<times> 's) option" where
  "Encode get put sizeHint marshalAppend ch m s =
     (case get ch (sizeHint m) s of
        None \<Rightarrow> None
      | Some (p, s1) \<Rightarrow>
          (case marshalAppend (mem p, 0) m of
             (Inl err, arr) \<Rightarrow> Some (Inl err, put (Some (p\<lparr>mem := arr\<rparr>)) s1)
           | (Inr (arr, n), left_over) \<Rightarrow> Some (Inr (p\<lparr>mem := arr, blen := n\<rparr>), s1)))"

text \<open>What a marshaller owes \<open>Encode\<close>: it appends the encoding.\<close>

definition appends :: "('m \<Rightarrow> bytes) \<Rightarrow> 'm marshaller \<Rightarrow> bool" where
  "appends enc f \<longleftrightarrow>
     (\<forall>arr n m arr' n' rest. n \<le> length arr \<longrightarrow> f (arr, n) m = (Inr (arr', n'), rest) \<longrightarrow>
        n' \<le> length arr' \<and> take n' arr' = take n arr @ enc m)"

definition visible :: "buf \<Rightarrow> bytes" where
  "visible p = take (blen p) (mem p)"

context buffer_pool
begin

lemma Encode_total:
  assumes "inv s held" and "0 \<le> hint m"
  shows "\<exists>r s'. Encode get put hint f ch m s = Some (r, s')"
proof -
  obtain p s1 where "get ch (hint m) s = Some (p, s1)" using get_total [OF assms] by blast
  then show ?thesis by (auto simp: Encode_def split: prod.split sum.split)
qed

lemma Encode_ok:
  assumes "inv s held" and "appends enc f" and "Encode get put hint f ch m s = Some (Inr p, s')"
  shows "visible p = enc m \<and> bid p \<notin> held \<and> inv s' (insert (bid p) held)"
proof -
  from assms(3) obtain q arr n rest where q: "get ch (hint m) s = Some (q, s')"
    and f: "f (mem q, 0) m = (Inr (arr, n), rest)" and p: "p = q\<lparr>mem := arr, blen := n\<rparr>"
    by (auto simp: Encode_def split: option.splits prod.splits sum.splits)
  have "take n arr = enc m" using assms(2) f unfolding appends_def by fastforce
  with get_fresh [OF assms(1) q] p show ?thesis by (simp add: visible_def)
qed

lemma Encode_error:
  assumes "inv s held" and "Encode get put hint f ch m s = Some (Inl err, s')"
  shows "inv s' held"
proof -
  from assms(2) obtain q arr s1 where "get ch (hint m) s = Some (q, s1)"
    and "s' = put (Some (q\<lparr>mem := arr\<rparr>)) s1"
    by (auto simp: Encode_def split: option.splits prod.splits sum.splits)
  then show ?thesis using get_put_inv [OF assms(1)] by simp
qed

end

text \<open>The generated code fills exactly the sized buffer it is given.\<close>

definition vt_fills :: "('m \<Rightarrow> bytes) \<Rightarrow> 'm vt_lib \<Rightarrow> bool" where
  "vt_fills enc V \<longleftrightarrow>
     (\<forall>m dst filled. length dst = SizeVT V m \<longrightarrow> MarshalToSizedBufferVT V dst m = (None, filled) \<longrightarrow>
        filled = enc m \<and> length (enc m) = SizeVT V m)"

lemma vt_appends:
  assumes "vt_fills enc V"
  shows "appends enc (vt_MarshalAppend V)"
  unfolding appends_def
proof (intro allI impI)
  fix arr n m arr' n' rest
  assume n: "n \<le> length arr" and ok: "vt_MarshalAppend V (arr, n) m = (Inr (arr', n'), rest)"
  let ?size = "SizeVT V m"
  have fill: "filled = enc m" "length (enc m) = ?size"
    if "MarshalToSizedBufferVT V dst m = (None, filled)" and "length dst = ?size" for dst filled
    using assms that unfolding vt_fills_def by blast+
  show "n' \<le> length arr' \<and> take n' arr' = take n arr @ enc m"
  proof (cases "length arr - n < ?size")
    case True
    obtain err filled where M: "MarshalToSizedBufferVT V (replicate ?size 0) m = (err, filled)"
      by (cases "MarshalToSizedBufferVT V (replicate ?size 0) m")
    with ok True n have "err = None" and "arr' = take n arr @ filled" and "n' = n + ?size"
      by (auto simp: vt_MarshalAppend_def Let_def split: if_splits option.splits)
    with fill [of "replicate ?size 0" filled] M n show ?thesis by simp
  next
    case False
    obtain err filled where M: "MarshalToSizedBufferVT V (take ?size (drop n arr)) m = (err, filled)"
      by (cases "MarshalToSizedBufferVT V (take ?size (drop n arr)) m")
    with ok False n have "err = None" and "arr' = take n arr @ filled @ drop (n + ?size) arr" and "n' = n + ?size"
      by (auto simp: vt_MarshalAppend_def Let_def split: if_splits option.splits)
    with fill [of "take ?size (drop n arr)" filled] M n False show ?thesis by simp
  qed
qed

section \<open>Properties\<close>

text \<open>A library for messages that are their own encoding, on which the properties are evaluated.\<close>

definition raw_vt :: "bytes vt_lib" where
  "raw_vt = \<lparr>vt_type = (\<lambda>_. True), SizeVT = length, MarshalToSizedBufferVT = (\<lambda>dst m. (None, m)),
             UnmarshalVT = Inr, proto_Size = length, type_name = (\<lambda>_. ''raw'')\<rparr>"

lemma raw_vt_fills: "vt_fills (\<lambda>m. m) raw_vt"
  by (simp add: vt_fills_def raw_vt_def)

text \<open>Encoding into a shared pool.  In every reachable state of the size-class pool, \<open>Encode\<close> with
  the vtprotobuf codec returns; on success the buffer shows exactly the message's encoding, with no
  byte left over from an earlier use, and only the caller holds it; on an error the buffer is back in
  the pool's custody.\<close>

theorem encode_pooled:
  assumes "preach cls b held g" and "vt_fills enc V"
  shows "\<exists>r b'. Encode Buffers_Get Buffers_Put (vt_SizeHint V) (vt_MarshalAppend V) ch m b = Some (r, b') \<and>
           (case r of
              Inr p \<Rightarrow> take (blen p) (mem p) = enc m \<and> bid p \<notin> held \<and> pool_inv b' (insert (bid p) held)
            | Inl err \<Rightarrow> pool_inv b' held)"
proof -
  have inv: "pool_inv b held" using preach_inv [OF assms(1)] by blast
  have "0 \<le> vt_SizeHint V m" by (simp add: vt_SizeHint_def)
  then obtain r b' where E: "Encode Buffers_Get Buffers_Put (vt_SizeHint V) (vt_MarshalAppend V) ch m b = Some (r, b')"
    using bp.Encode_total [OF inv, of "vt_SizeHint V" m] by blast
  show ?thesis
  proof (cases r)
    case (Inl err)
    with bp.Encode_error [OF inv] E show ?thesis by simp
  next
    case (Inr p)
    with bp.Encode_ok [OF inv vt_appends [OF assms(2)]] E show ?thesis by (simp add: visible_def)
  qed
qed

theorem encode_pooled_witness:
  "\<exists>b p b'. NewBuffers [4, 8] = Inr b \<and>
     Encode Buffers_Get Buffers_Put (vt_SizeHint raw_vt) (vt_MarshalAppend raw_vt) None [1, 2, 3] b = Some (Inr p, b') \<and>
     take (blen p) (mem p) = [1, 2, 3]"
proof -
  obtain b where b: "NewBuffers [4, 8] = Inr b"
    using NewBuffers_eq(1) [of "[4, 8]"] by (cases "NewBuffers [4, 8]") auto
  obtain r b' where E: "Encode Buffers_Get Buffers_Put (vt_SizeHint raw_vt) (vt_MarshalAppend raw_vt) None [1, 2, 3] b = Some (r, b')"
    and R: "case r of Inr p \<Rightarrow> take (blen p) (mem p) = [1, 2, 3] \<and> bid p \<notin> {} \<and> pool_inv b' (insert (bid p) {})
            | Inl err \<Rightarrow> pool_inv b' {}"
    using encode_pooled [OF preach.start [OF b] raw_vt_fills, of None "[1, 2, 3]"] by blast
  have "\<not> (\<exists>err. r = Inl err)"
    using E by (auto simp: Encode_def vt_MarshalAppend_def raw_vt_def Let_def split: option.splits prod.splits sum.splits)
  with b E R show ?thesis by (cases r) auto
qed

text \<open>The no-op pool gives the same encodings: \<open>Encode\<close> with pooling off returns, and on success
  shows exactly the message's encoding in a buffer nobody else holds.\<close>

theorem encode_unpooled:
  assumes "\<forall>x \<in> held. x < ptr" and "vt_fills enc V"
  shows "\<exists>r ptr'. Encode NopBuffers_Get NopBuffers_Put (vt_SizeHint V) (vt_MarshalAppend V) ch m ptr = Some (r, ptr') \<and>
           (\<forall>p. r = Inr p \<longrightarrow> take (blen p) (mem p) = enc m \<and> bid p \<notin> held)"
proof -
  have "0 \<le> vt_SizeHint V m" by (simp add: vt_SizeHint_def)
  then obtain r ptr' where E: "Encode NopBuffers_Get NopBuffers_Put (vt_SizeHint V) (vt_MarshalAppend V) ch m ptr = Some (r, ptr')"
    using nop.Encode_total [OF assms(1), of "vt_SizeHint V" m] by blast
  with nop.Encode_ok [OF assms(1) vt_appends [OF assms(2)], of "vt_SizeHint V" ch m]
  show ?thesis by (auto simp: visible_def)
qed

theorem encode_unpooled_witness:
  "\<exists>r ptr'. Encode NopBuffers_Get NopBuffers_Put (vt_SizeHint raw_vt) (vt_MarshalAppend raw_vt) None [7] 0 = Some (r, ptr')"
  using encode_unpooled [OF _ raw_vt_fills, of "{}" 0 None "[7]"] by blast

text \<open>Codec negotiation: a name resolves to the codec of that name, and the content type a sender
  announces selects a codec that decodes what the sender's codec wrote: the same codec, or the
  binary codec for the byte-identical vtprotobuf profile.\<close>

theorem codec_negotiation:
  "ByName (Name c) = Inr c \<and> ByContentType (ContentType (Some c)) = (if c = VT then Proto else c) \<and>
   (\<forall>name c'. ByName name = Inr c' \<longrightarrow> name = '''' \<or> name = Name c')"
  by (cases c) (auto simp: ByName_def ByContentType_def ContentType_def split: if_splits)

theorem codec_negotiation_witness:
  "ByName ''vtproto'' = Inr VT \<and> (''vtproto'' = '''' \<or> ''vtproto'' = Name VT)"
proof -
  have "ByName ''vtproto'' = Inr VT" by (simp add: ByName_def)
  with codec_negotiation [of VT] show ?thesis by blast
qed

end
