(* ===== verification/Clocks.thy ===== *)
theory Clocks
  imports Codec "HOL-Library.Signed_Division"
begin

text \<open>
  Time in the benchmark: the envelope that rides on every message
  (\<open>clients/internal/envelope/envelope.go\<close>), the stamping done by the region agent
  (\<open>clients/workloads/region-agent/main.go\<close>, its unary handlers), and the clock probe of the driver
  (\<open>clients/workloads/benchcli/clockprobe.go\<close>), whose offset corrects the one-way latencies.

  Clock readings, the UUID generator, the hash and the RPC are arguments.  Instants are nanoseconds;
  \<open>Sub\<close> saturates as \<open>time.Time.Sub\<close> does, and the probe's 64-bit arithmetic wraps.
\<close>

section \<open>Integers and instants\<close>

definition Sub :: "timestamp \<Rightarrow> timestamp \<Rightarrow> duration" where
  "Sub t u = max (- (2 ^ 63)) (min (2 ^ 63 - 1) (t - u))"

definition wrap64 :: "int \<Rightarrow> int" where
  "wrap64 x = (x + 2 ^ 63) mod 2 ^ 64 - 2 ^ 63"

lemma Sub_exact: "\<bar>t - u\<bar> < 2 ^ 63 \<Longrightarrow> Sub t u = t - u"
  by (auto simp: Sub_def)

lemma wrap64_exact: "\<bar>x\<bar> < 2 ^ 63 \<Longrightarrow> wrap64 x = x"
  by (auto simp: wrap64_def)

section \<open>The envelope\<close>

datatype wl_codec = CODEC_UNSPECIFIED | CODEC_PROTO | CODEC_PROTOJSON | CODEC_VTPROTO

datatype wl_transport =
    TRANSPORT_UNSPECIFIED | TRANSPORT_GRPC_UNARY | TRANSPORT_GRPC_SERVER_STREAM | TRANSPORT_GRPC_CLIENT_STREAM
  | TRANSPORT_GRPC_BIDI | TRANSPORT_NATS_REQUEST_REPLY | TRANSPORT_NATS_JETSTREAM | TRANSPORT_RABBITMQ_RPC
  | TRANSPORT_RABBITMQ_QUORUM | TRANSPORT_VALKEY_STREAM | TRANSPORT_MQTT

record envelope =
  RunId :: string
  MessageId :: bytes
  Sequence :: u64
  ClientSendTime :: "timestamp option"
  ServerReceiveTime :: "timestamp option"
  ServerSendTime :: "timestamp option"
  RequestWireBytes :: "32 word"
  RequestSha256 :: bytes
  ResponderId :: string
  ECodec :: wl_codec
  ETransport :: wl_transport
  Fixture :: string

definition zero_envelope :: envelope where
  "zero_envelope =
     \<lparr>RunId = '''', MessageId = [], Sequence = 0, ClientSendTime = None, ServerReceiveTime = None,
      ServerSendTime = None, RequestWireBytes = 0, RequestSha256 = [], ResponderId = '''',
      ECodec = CODEC_UNSPECIFIED, ETransport = TRANSPORT_UNSPECIFIED, Fixture = ''''\<rparr>"

text \<open>\<open>newV7\<close> and \<open>marshal_uuid\<close> stand for the UUID library.\<close>

definition Fill ::
  "(gerr + 'u) \<Rightarrow> ('u \<Rightarrow> gerr + bytes) \<Rightarrow> timestamp \<Rightarrow> string \<Rightarrow> u64 \<Rightarrow> wl_codec \<Rightarrow> wl_transport \<Rightarrow> string
   \<Rightarrow> envelope \<Rightarrow> gerr + envelope" where
  "Fill newV7 marshal_uuid now runID sq c t fixture env =
     (case newV7 of
        Inl err \<Rightarrow> Inl err
      | Inr u \<Rightarrow>
          (case marshal_uuid u of
             Inl err \<Rightarrow> Inl err
           | Inr b \<Rightarrow>
               Inr (env\<lparr>RunId := runID, MessageId := b, Sequence := sq, ClientSendTime := Some now,
                        ECodec := c, ETransport := t, Fixture := fixture\<rparr>)))"

definition StampReceive ::
  "(bytes \<Rightarrow> bytes) \<Rightarrow> timestamp \<Rightarrow> string \<Rightarrow> bytes \<Rightarrow> bool \<Rightarrow> envelope \<Rightarrow> envelope" where
  "StampReceive sha256 now responderID wire integrity env =
     (let env1 = env\<lparr>ServerReceiveTime := Some now, ResponderId := responderID\<rparr> in
      if integrity then env1\<lparr>RequestWireBytes := of_nat (length wire), RequestSha256 := sha256 wire\<rparr> else env1)"

definition StampSend :: "timestamp \<Rightarrow> envelope \<Rightarrow> envelope" where
  "StampSend now env = env\<lparr>ServerSendTime := Some now\<rparr>"

definition RTT :: "timestamp \<Rightarrow> timestamp \<Rightarrow> duration" where
  "RTT sendMono recvMono = Sub recvMono sendMono"

definition ServerDuration :: "envelope option \<Rightarrow> duration" where
  "ServerDuration env =
     (case env of
        None \<Rightarrow> 0
      | Some e \<Rightarrow>
          (case (ServerReceiveTime e, ServerSendTime e) of
             (Some r, Some s) \<Rightarrow> (let d = Sub s r in if d < 0 then 0 else d)
           | _ \<Rightarrow> 0))"

definition OneWay :: "envelope \<Rightarrow> timestamp \<Rightarrow> duration \<Rightarrow> duration \<times> duration \<times> bool" where
  "OneWay env clientRecv offset =
     (case (ServerReceiveTime env, ServerSendTime env, ClientSendTime env) of
        (Some srvRecv, Some srvSend, Some snt) \<Rightarrow>
          (wrap64 (Sub srvRecv snt - offset), wrap64 (Sub clientRecv srvSend + offset), True)
      | _ \<Rightarrow> (0, 0, False))"

datatype anomaly = AnomalyNegativeOneWay | AnomalyServerTimesReversed | AnomalyFutureSend

fun Anomaly_String :: "anomaly \<Rightarrow> string" where
  "Anomaly_String AnomalyNegativeOneWay = ''negative_one_way''"
| "Anomaly_String AnomalyServerTimesReversed = ''server_times_reversed''"
| "Anomaly_String AnomalyFutureSend = ''future_send''"

definition Classify :: "envelope \<Rightarrow> timestamp \<Rightarrow> duration \<Rightarrow> duration \<Rightarrow> anomaly list" where
  "Classify env clientRecv fwd rv =
     (case (ServerReceiveTime env, ServerSendTime env) of
        (Some r, Some s) \<Rightarrow> if s < r then [AnomalyServerTimesReversed] else []
      | _ \<Rightarrow> []) @
     (case ClientSendTime env of Some t \<Rightarrow> if clientRecv < t then [AnomalyFutureSend] else [] | None \<Rightarrow> []) @
     (if fwd < 0 \<or> rv < 0 then [AnomalyNegativeOneWay] else [])"

section \<open>The region agent\<close>

record cell =
  c_Transport :: string
  c_Codec :: string
  c_Fixture :: string
  c_Pool :: string
  c_GC :: string
  c_Mode :: string
  c_Region :: string
  c_Role :: string
  c_Tier :: string

text \<open>What the handlers record in the instruments.\<close>

datatype measurement =
    Message cell string
  | WireBytes cell int string
  | ServerTook cell duration
  | ErrorCount cell string
  | RoundTrip cell duration
  | ActiveCell cell bool

record agent =
  ag_region :: string
  ag_pool :: string
  ag_responderID :: string

fun codecLabel :: "wl_codec \<Rightarrow> string" where
  "codecLabel CODEC_PROTO = ''proto''"
| "codecLabel CODEC_PROTOJSON = ''protojson''"
| "codecLabel CODEC_VTPROTO = ''vtproto''"
| "codecLabel CODEC_UNSPECIFIED = ''unknown''"

fun transportLabel :: "wl_transport \<Rightarrow> string" where
  "transportLabel TRANSPORT_GRPC_UNARY = ''grpc_unary''"
| "transportLabel TRANSPORT_GRPC_SERVER_STREAM = ''grpc_server_stream''"
| "transportLabel TRANSPORT_GRPC_CLIENT_STREAM = ''grpc_client_stream''"
| "transportLabel TRANSPORT_GRPC_BIDI = ''grpc_bidi''"
| "transportLabel TRANSPORT_NATS_REQUEST_REPLY = ''nats_request_reply''"
| "transportLabel TRANSPORT_NATS_JETSTREAM = ''nats_jetstream''"
| "transportLabel TRANSPORT_RABBITMQ_RPC = ''rabbitmq_rpc''"
| "transportLabel TRANSPORT_RABBITMQ_QUORUM = ''rabbitmq_quorum''"
| "transportLabel TRANSPORT_VALKEY_STREAM = ''valkey_stream''"
| "transportLabel TRANSPORT_MQTT = ''mqtt''"
| "transportLabel TRANSPORT_UNSPECIFIED = ''unknown''"

definition tierFor :: "wl_transport \<Rightarrow> string" where
  "tierFor t =
     (if t = TRANSPORT_MQTT then ''at_most_once''
      else if t \<in> {TRANSPORT_NATS_JETSTREAM, TRANSPORT_RABBITMQ_QUORUM, TRANSPORT_VALKEY_STREAM} then ''at_least_once''
      else ''rpc'')"

definition agent_cell :: "agent \<Rightarrow> envelope \<Rightarrow> cell" where
  "agent_cell a env =
     \<lparr>c_Transport = transportLabel (ETransport env), c_Codec = codecLabel (ECodec env), c_Fixture = Fixture env,
      c_Pool = ag_pool a, c_GC = '''', c_Mode = ''latency'', c_Region = ag_region a, c_Role = ''server'',
      c_Tier = tierFor (ETransport env)\<rparr>"

text \<open>The clock readings of one handler, in the order it takes them.\<close>

record agent_clock =
  at_start :: timestamp
  at_recv :: timestamp
  at_send :: timestamp
  at_end :: timestamp

text \<open>\<open>stamp\<close> followed by its deferred part \<open>done\<close>; \<open>info\<close> is the wire size the stats handler saw.\<close>

definition agent_stamp ::
  "(bytes \<Rightarrow> bytes) \<Rightarrow> agent \<Rightarrow> agent_clock \<Rightarrow> (32 word) option \<Rightarrow> envelope option \<Rightarrow> envelope \<times> cell \<times> measurement list" where
  "agent_stamp sha256 a ck info env0 =
     (let env = (case env0 of None \<Rightarrow> zero_envelope | Some e \<Rightarrow> e);
          cl = agent_cell a env;
          env1 = StampReceive sha256 (at_recv ck) (ag_responderID a) [] False env;
          (env2, ms) = (case info of
                          None \<Rightarrow> (env1, [])
                        | Some wb \<Rightarrow> if wb > 0 then (env1\<lparr>RequestWireBytes := wb\<rparr>, [WireBytes cl (uint wb) ''forward'']) else (env1, []))
      in (env2, cl, ms @ [Message cl ''received'']))"

definition agent_done :: "agent_clock \<Rightarrow> envelope \<times> cell \<times> measurement list \<Rightarrow> envelope \<times> measurement list" where
  "agent_done ck s =
     (case s of (env, cl, ms) \<Rightarrow>
        (StampSend (at_send ck) env, ms @ [ServerTook cl (Sub (at_end ck) (at_start ck)), Message cl ''ok'']))"

definition Ping :: "(bytes \<Rightarrow> bytes) \<Rightarrow> agent \<Rightarrow> agent_clock \<Rightarrow> (32 word) option \<Rightarrow> envelope option \<Rightarrow> envelope \<times> measurement list" where
  "Ping sha256 a ck info env = agent_done ck (agent_stamp sha256 a ck info env)"

record 'r deploy_response =
  dr_Envelope :: envelope
  dr_Ref :: 'r
  dr_Applied :: bool
  dr_Region :: string
  dr_ClusterId :: string
  dr_Generation :: nat

definition Deploy ::
  "(bytes \<Rightarrow> bytes) \<Rightarrow> agent \<Rightarrow> agent_clock \<Rightarrow> (32 word) option \<Rightarrow> envelope option \<Rightarrow> 'r \<Rightarrow> 'r deploy_response \<times> measurement list" where
  "Deploy sha256 a ck info env ref =
     (let (env1, ms) = agent_done ck (agent_stamp sha256 a ck info env) in
      (\<lparr>dr_Envelope = env1, dr_Ref = ref, dr_Applied = True, dr_Region = ag_region a,
        dr_ClusterId = ag_region a @ ''-0'', dr_Generation = 1\<rparr>, ms))"

record probe_response =
  T1 :: "timestamp option"
  T2 :: "timestamp option"
  T3 :: "timestamp option"
  ClockSource :: string
  ChronySynced :: bool

text \<open>\<open>t2\<close> and \<open>t3\<close> are the two further readings of the handler.  The clock source (a file) and the
  chrony status (a child process) are read after \<open>t3\<close>.\<close>

definition agent_ClockProbe ::
  "(bytes \<Rightarrow> bytes) \<Rightarrow> agent \<Rightarrow> timestamp \<Rightarrow> agent_clock \<Rightarrow> timestamp \<Rightarrow> (32 word) option \<Rightarrow> string \<Rightarrow> bool
   \<Rightarrow> envelope option \<Rightarrow> timestamp option \<Rightarrow> (envelope \<times> probe_response) \<times> measurement list" where
  "agent_ClockProbe sha256 a t2 ck t3 info source synced env t1 =
     (let (env1, ms) = agent_done ck (agent_stamp sha256 a ck info env) in
      ((env1, \<lparr>T1 = t1, T2 = Some t2, T3 = Some t3, ClockSource = source, ChronySynced = synced\<rparr>), ms))"

section \<open>The clock probe\<close>

definition codecEnum :: "string \<Rightarrow> gerr + wl_codec" where
  "codecEnum name =
     (if name = ''proto'' then Inr CODEC_PROTO
      else if name = ''protojson'' then Inr CODEC_PROTOJSON
      else if name = ''vtproto'' then Inr CODEC_VTPROTO
      else Inl (Opaque (''unknown codec '' @ quoted name)))"

definition probeSample :: "timestamp option \<Rightarrow> timestamp option \<Rightarrow> timestamp option \<Rightarrow> timestamp \<Rightarrow> int \<times> int \<times> bool" where
  "probeSample t1 t2 t3 t4 =
     (case (t1, t2, t3) of
        (Some a, Some b, Some c) \<Rightarrow>
          (wrap64 (wrap64 (b - a) + wrap64 (c - t4)) sdiv 2, wrap64 (wrap64 (t4 - a) - wrap64 (c - b)), True)
      | _ \<Rightarrow> (0, 0, False))"

record clock_result =
  cr_Region :: string
  cr_Probes :: int
  cr_OK :: nat
  OffsetNs :: int
  UncertaintyNs :: int
  RTTMinNs :: int
  cr_ClockSource :: string
  cr_ChronySynced :: bool

text \<open>What one round of the loop meets: the UUID library, the client's send reading, the RPC's answer
  to the filled envelope, and the receive reading.\<close>

record 'u probe_round =
  rd_uuid :: "gerr + 'u"
  rd_now :: timestamp
  rd_answer :: "envelope \<Rightarrow> timestamp option \<Rightarrow> gerr + probe_response"
  rd_recv :: timestamp

text \<open>The loop's state: the result so far, the reused envelope, the error count and the lines printed
  to standard error.\<close>

type_synonym probe_state = "clock_result \<times> envelope \<times> nat \<times> string list"

definition probe_step ::
  "('u \<Rightarrow> gerr + bytes) \<Rightarrow> wl_codec \<Rightarrow> nat \<Rightarrow> 'u probe_round \<Rightarrow> probe_state \<Rightarrow> gerr + probe_state" where
  "probe_step marshal_uuid cen i rd s =
     (case s of (res, env, errs, out) \<Rightarrow>
        (case Fill (rd_uuid rd) marshal_uuid (rd_now rd) ''clockprobe'' (of_nat i) cen TRANSPORT_GRPC_UNARY ''tiny'' env of
           Inl err \<Rightarrow> Inl err
         | Inr env1 \<Rightarrow>
             (let t1 = ClientSendTime env1 in
              case rd_answer rd env1 t1 of
                Inl err \<Rightarrow>
                  Inr (res, env1, errs + 1,
                       if errs + 1 \<le> 3 then out @ [''probe '' @ itoa (int i) @ '': '' @ Error err] else out)
              | Inr resp \<Rightarrow>
                  (let (offset, rtt, ok) = probeSample t1 (T2 resp) (T3 resp) (rd_recv rd) in
                   if \<not> ok then Inr (res, env1, errs + 1, out)
                   else (let res1 = res\<lparr>cr_OK := cr_OK res + 1, cr_ClockSource := ClockSource resp,
                                        cr_ChronySynced := ChronySynced resp\<rparr>;
                             res2 = (if rtt < RTTMinNs res1 then res1\<lparr>RTTMinNs := rtt, OffsetNs := offset\<rparr> else res1)
                         in Inr (res2, env1, errs, out))))))"

fun probe_loop ::
  "('u \<Rightarrow> gerr + bytes) \<Rightarrow> wl_codec \<Rightarrow> nat \<Rightarrow> 'u probe_round list \<Rightarrow> probe_state \<Rightarrow> gerr + probe_state" where
  "probe_loop marshal_uuid cen i [] s = Inr s"
| "probe_loop marshal_uuid cen i (rd # rds) s =
     (case probe_step marshal_uuid cen i rd s of
        Inl err \<Rightarrow> Inl err
      | Inr s1 \<Rightarrow> probe_loop marshal_uuid cen (i + 1) rds s1)"

definition clockProbe ::
  "('u \<Rightarrow> gerr + bytes) \<Rightarrow> string \<Rightarrow> string \<Rightarrow> 'u probe_round list \<Rightarrow> gerr + clock_result" where
  "clockProbe marshal_uuid region codecName rds =
     (case codecEnum codecName of
        Inl err \<Rightarrow> Inl err
      | Inr cen \<Rightarrow>
          (let n = int (length rds);
               res0 = \<lparr>cr_Region = region, cr_Probes = n, cr_OK = 0, OffsetNs = 0, UncertaintyNs = 0,
                       RTTMinNs = 2 ^ 63 - 1, cr_ClockSource = '''', cr_ChronySynced = False\<rparr>
           in case probe_loop marshal_uuid cen 0 rds (res0, zero_envelope, 0, []) of
                Inl err \<Rightarrow> Inl err
              | Inr (res, env, errs, out) \<Rightarrow>
                  (if cr_OK res = 0
                   then Inl (Opaque (''clockprobe '' @ region @ '': no successful probe out of '' @ itoa n))
                   else Inr (res\<lparr>UncertaintyNs := RTTMinNs res sdiv 2\<rparr>))))"

section \<open>Facts about the probe\<close>

lemma sdiv_2: "\<bar>2 * (x sdiv 2) - x\<bar> \<le> (1 :: int)"
  by (cases "x \<ge> 0") (auto simp: signed_divide_int_def sgn_if)

text \<open>The true course of a round over a server clock that is ahead by \<open>\<theta>\<close>: forward delay, time between
  the server's two readings, backward delay (everything after the second reading, up to the client's).
  A lost round has none.\<close>

type_synonym legs = "int \<times> int \<times> int"

definition round_of :: "('u \<Rightarrow> gerr + bytes) \<Rightarrow> int \<Rightarrow> legs option \<Rightarrow> 'u probe_round \<Rightarrow> bool" where
  "round_of marshal_uuid \<theta> l rd \<longleftrightarrow>
     (\<exists>u b. rd_uuid rd = Inr u \<and> marshal_uuid u = Inr b) \<and>
     (case l of
        None \<Rightarrow> \<forall>env t. \<exists>err. rd_answer rd env t = Inl err
      | Some (fw, sv, bw) \<Rightarrow>
          0 \<le> fw \<and> 0 \<le> sv \<and> 0 \<le> bw \<and> fw + sv + bw < 2 ^ 61 \<and>
          rd_recv rd = rd_now rd + fw + sv + bw \<and>
          (\<forall>env t. \<exists>resp. rd_answer rd env t = Inr resp \<and>
             T2 resp = Some (rd_now rd + fw + \<theta>) \<and> T3 resp = Some (rd_now rd + fw + sv + \<theta>)))"

lemma probeSample_legs:
  assumes "0 \<le> fw" and "0 \<le> sv" and "0 \<le> bw" and "fw + sv + bw < 2 ^ 61" and "\<bar>\<theta>\<bar> < 2 ^ 61"
    and "probeSample (Some t) (Some (t + fw + \<theta>)) (Some (t + fw + sv + \<theta>)) (t + fw + sv + bw) = (offset, rtt, ok)"
  shows "ok \<and> rtt = fw + bw \<and> \<bar>2 * (offset - \<theta>) - (fw - bw)\<bar> \<le> 1"
proof -
  have w: "wrap64 (fw + \<theta>) = fw + \<theta>" "wrap64 (\<theta> - bw) = \<theta> - bw" "wrap64 (fw + \<theta> + (\<theta> - bw)) = fw + \<theta> + (\<theta> - bw)"
    "wrap64 (fw + sv + bw) = fw + sv + bw" "wrap64 sv = sv" "wrap64 (fw + bw) = fw + bw"
    using assms(1-5) by (auto intro!: wrap64_exact)
  have d: "t + fw + \<theta> - t = fw + \<theta>" "t + fw + sv + \<theta> - (t + fw + sv + bw) = \<theta> - bw"
    "t + fw + sv + bw - t = fw + sv + bw" "t + fw + sv + \<theta> - (t + fw + \<theta>) = sv" "fw + sv + bw - sv = fw + bw" by simp_all
  have "offset = (fw + \<theta> + (\<theta> - bw)) sdiv 2" "rtt = fw + bw" ok
    using assms(6) unfolding probeSample_def prod.case option.case d w prod.inject by auto
  with sdiv_2 [of "fw + \<theta> + (\<theta> - bw)"] show ?thesis by (auto simp: algebra_simps)
qed

text \<open>The result so far against the legs of the rounds that were answered.\<close>

definition best :: "int \<Rightarrow> legs list \<Rightarrow> clock_result \<Rightarrow> bool" where
  "best \<theta> ls res \<longleftrightarrow>
     cr_OK res = length ls \<and> (ls = [] \<longrightarrow> RTTMinNs res = 2 ^ 63 - 1) \<and>
     (ls \<noteq> [] \<longrightarrow>
        (\<exists>(fw, sv, bw) \<in> set ls. RTTMinNs res = fw + bw \<and> \<bar>2 * (OffsetNs res - \<theta>) - (fw - bw)\<bar> \<le> 1 \<and>
           (\<forall>(fw', sv', bw') \<in> set ls. fw + bw \<le> fw' + bw')))"

lemma best_step:
  assumes "best \<theta> ls res" and "fw + bw < 2 ^ 61" and "\<bar>2 * (offset - \<theta>) - (fw - bw)\<bar> \<le> 1"
    and "res1 = res\<lparr>cr_OK := cr_OK res + 1, cr_ClockSource := src, cr_ChronySynced := syn\<rparr>"
  shows "best \<theta> (ls @ [(fw, sv, bw)]) (if fw + bw < RTTMinNs res1 then res1\<lparr>RTTMinNs := fw + bw, OffsetNs := offset\<rparr> else res1)"
proof (cases "ls = []")
  case True
  with assms show ?thesis by (simp add: best_def)
next
  case False
  with assms(1) obtain f s b where m: "(f, s, b) \<in> set ls" "RTTMinNs res = f + b" "\<bar>2 * (OffsetNs res - \<theta>) - (f - b)\<bar> \<le> 1"
    "\<forall>(fw', sv', bw') \<in> set ls. f + b \<le> fw' + bw'" by (auto simp: best_def)
  show ?thesis
  proof (cases "fw + bw < RTTMinNs res")
    case True
    with m have "\<forall>(fw', sv', bw') \<in> set (ls @ [(fw, sv, bw)]). fw + bw \<le> fw' + bw'" by fastforce
    with True assms show ?thesis by (auto simp: best_def)
  next
    case less: False
    with m have "\<forall>(fw', sv', bw') \<in> set (ls @ [(fw, sv, bw)]). f + b \<le> fw' + bw'" by auto
    with m have "\<exists>(fw', sv', bw') \<in> set (ls @ [(fw, sv, bw)]). RTTMinNs res = fw' + bw' \<and>
        \<bar>2 * (OffsetNs res - \<theta>) - (fw' - bw')\<bar> \<le> 1 \<and> (\<forall>(f', s', b') \<in> set (ls @ [(fw, sv, bw)]). fw' + bw' \<le> f' + b')"
      by (intro bexI [of _ "(f, s, b)"]) auto
    with less assms(1,4) show ?thesis by (simp add: best_def)
  qed
qed

definition answered_legs :: "legs option list \<Rightarrow> legs list" where
  "answered_legs ls = List.map_filter (\<lambda>l. l) ls"

lemma answered_legs_simps [simp]:
  "answered_legs [] = []" "answered_legs (None # ls) = answered_legs ls" "answered_legs (Some l # ls) = l # answered_legs ls"
  by (simp_all add: answered_legs_def List.map_filter_simps)

lemma probe_loop_best:
  assumes "list_all2 (round_of mu \<theta>) ls rds" and "\<bar>\<theta>\<bar> < 2 ^ 61" and "best \<theta> seen res"
  shows "\<exists>res' env' errs' out'. probe_loop mu cen i rds (res, env, errs, out) = Inr (res', env', errs', out') \<and>
           best \<theta> (seen @ answered_legs ls) res' \<and> cr_Region res' = cr_Region res \<and> cr_Probes res' = cr_Probes res"
  using assms(1,3)
proof (induction ls rds arbitrary: i res env errs out seen rule: list_all2_induct)
  case Nil
  then show ?case by simp
next
  case (Cons l ls rd rds)
  obtain env1 where fill: "Fill (rd_uuid rd) mu (rd_now rd) ''clockprobe'' (of_nat i) cen TRANSPORT_GRPC_UNARY ''tiny'' env = Inr env1"
    and t1: "ClientSendTime env1 = Some (rd_now rd)"
    using Cons.hyps(1) by (auto simp: round_of_def Fill_def)
  show ?case
  proof (cases l)
    case None
    then obtain err where "rd_answer rd env1 (Some (rd_now rd)) = Inl err" using Cons.hyps(1) by (auto simp: round_of_def)
    with None Cons.IH [OF Cons.prems] show ?thesis by (simp add: probe_step_def fill t1)
  next
    case (Some p)
    obtain fw sv bw where p: "p = (fw, sv, bw)" by (cases p)
    then obtain resp where resp: "rd_answer rd env1 (Some (rd_now rd)) = Inr resp" "T2 resp = Some (rd_now rd + fw + \<theta>)"
      "T3 resp = Some (rd_now rd + fw + sv + \<theta>)" and legs: "0 \<le> fw" "0 \<le> sv" "0 \<le> bw" "fw + sv + bw < 2 ^ 61"
      and recv: "rd_recv rd = rd_now rd + fw + sv + bw"
      using Cons.hyps(1) Some by (fastforce simp: round_of_def)
    obtain offset rtt ok where s: "probeSample (Some (rd_now rd)) (T2 resp) (T3 resp) (rd_recv rd) = (offset, rtt, ok)"
      by (metis prod.exhaust)
    have S: "ok \<and> rtt = fw + bw \<and> \<bar>2 * (offset - \<theta>) - (fw - bw)\<bar> \<le> 1"
      by (rule probeSample_legs [OF legs assms(2)]) (use s resp recv in simp)
    have "fw + bw < 2 ^ 61" using legs by simp
    note B = best_step [OF Cons.prems this, where offset = offset and src = "ClockSource resp" and syn = "ChronySynced resp" and sv = sv, OF _ refl]
    from Cons.IH [OF B] S Some p show ?thesis
      by (auto simp: probe_step_def fill t1 resp(1) s Let_def split: if_splits)
  qed
qed

section \<open>Properties\<close>

text \<open>C11. The clock probe.  Over a server clock ahead by a fixed offset, with rounds lost or answered and
  arbitrary nonnegative delays, the probe succeeds as soon as one round is answered; it keeps the
  round with the least round-trip time, counts the answered rounds, and its estimate is off by half
  the difference of the kept round's two delays, up to half a nanosecond of truncation: at most the
  reported uncertainty plus one nanosecond.  The backward delay starts at the agent's second
  reading, so whatever the agent does after it shifts the estimate.\<close>

theorem clock_probe_bound:
  assumes "codecEnum codecName = Inr cen" and "list_all2 (round_of mu \<theta>) ls rds" and "\<bar>\<theta>\<bar> < 2 ^ 61"
    and "answered_legs ls \<noteq> []"
  shows "\<exists>res fw sv bw. clockProbe mu region codecName rds = Inr res \<and> cr_Region res = region \<and>
           cr_OK res = length (answered_legs ls) \<and> (fw, sv, bw) \<in> set (answered_legs ls) \<and>
           (\<forall>(fw', sv', bw') \<in> set (answered_legs ls). fw + bw \<le> fw' + bw') \<and>
           RTTMinNs res = fw + bw \<and> UncertaintyNs res = (fw + bw) div 2 \<and>
           \<bar>2 * (OffsetNs res - \<theta>) - (fw - bw)\<bar> \<le> 1 \<and> \<bar>OffsetNs res - \<theta>\<bar> \<le> UncertaintyNs res + 1"
proof -
  define res0 where "res0 = \<lparr>cr_Region = region, cr_Probes = int (length rds), cr_OK = 0, OffsetNs = 0, UncertaintyNs = 0,
       RTTMinNs = 2 ^ 63 - 1, cr_ClockSource = '''', cr_ChronySynced = False\<rparr>"
  have "best \<theta> [] res0" by (simp add: best_def res0_def)
  from probe_loop_best [OF assms(2,3) this, of cen 0 zero_envelope 0 "[]"] obtain res env errs out
    where L: "probe_loop mu cen 0 rds (res0, zero_envelope, 0, []) = Inr (res, env, errs, out)"
      and B: "best \<theta> (answered_legs ls) res" and R: "cr_Region res = region" by (auto simp: res0_def)
  from B assms(4) obtain fw sv bw where m: "(fw, sv, bw) \<in> set (answered_legs ls)" "RTTMinNs res = fw + bw"
    "\<bar>2 * (OffsetNs res - \<theta>) - (fw - bw)\<bar> \<le> 1" "\<forall>(fw', sv', bw') \<in> set (answered_legs ls). fw + bw \<le> fw' + bw'"
    and n: "cr_OK res = length (answered_legs ls)" by (auto simp: best_def)
  have pos: "0 \<le> f' \<and> 0 \<le> b'" if "(f', s', b') \<in> set (answered_legs ls)" for f' s' b'
    using assms(2) that
    by (induction rule: list_all2_induct) (auto simp: round_of_def split: option.splits)
  have nonneg: "0 \<le> fw" "0 \<le> bw" using pos [OF m(1)] by auto
  then have half: "(fw + bw) sdiv 2 = (fw + bw) div 2" by (simp add: signed_divide_int_def sgn_if)
  have "clockProbe mu region codecName rds = Inr (res\<lparr>UncertaintyNs := (fw + bw) div 2\<rparr>)"
    using L n assms(1,4) m(2) half by (simp add: clockProbe_def res0_def)
  moreover have two: "2 * \<bar>OffsetNs res - \<theta>\<bar> \<le> fw + bw + 1"
    using m(3) nonneg by (simp add: abs_if split: if_splits)
  have "2 * y \<le> x + 1 \<Longrightarrow> y \<le> x div 2 + 1" for x y :: int by presburger
  moreover note this [OF two]
  ultimately show ?thesis using R n m by (intro exI [of _ "res\<lparr>UncertaintyNs := (fw + bw) div 2\<rparr>"] exI [of _ fw] exI [of _ sv] exI [of _ bw]) simp
qed

theorem clock_probe_bound_witness:
  "\<exists>res. clockProbe (\<lambda>u. Inr u) ''eu'' ''proto''
      [\<lparr>rd_uuid = Inr [1], rd_now = 1000, rd_answer = (\<lambda>_ _. Inl (Opaque ''lost'')), rd_recv = 2000\<rparr>,
       \<lparr>rd_uuid = Inr [2], rd_now = 5000,
        rd_answer = (\<lambda>_ _. Inr \<lparr>T1 = None, T2 = Some 5110, T3 = Some 5115, ClockSource = ''tsc'', ChronySynced = False\<rparr>),
        rd_recv = 5045\<rparr>] = Inr res \<and> \<bar>OffsetNs res - 100\<bar> \<le> UncertaintyNs res + 1"
proof -
  let ?r = "[\<lparr>rd_uuid = Inr [1], rd_now = 1000, rd_answer = (\<lambda>_ _. Inl (Opaque ''lost'')), rd_recv = 2000\<rparr>,
       \<lparr>rd_uuid = Inr [2], rd_now = 5000,
        rd_answer = (\<lambda>_ _. Inr \<lparr>T1 = None, T2 = Some 5110, T3 = Some 5115, ClockSource = ''tsc'', ChronySynced = False\<rparr>),
        rd_recv = 5045\<rparr>]"
  have "list_all2 (round_of (\<lambda>u. Inr u) 100) [None, Some (10, 5, 30)] ?r" by (simp add: round_of_def)
  from clock_probe_bound [OF _ this, of "''proto''" CODEC_PROTO "''eu''"] show ?thesis by (auto simp: codecEnum_def)
qed

text \<open>C12. One-way latencies.  An envelope stamped by the agent, whose clock is ahead by a fixed offset, and
  an offset estimate with a known error bound: the estimated forward and backward latencies are within
  that bound of the true delays, their sum is exact whatever the estimate, the server duration is
  exact, and no anomaly is reported when both delays exceed the bound.\<close>

theorem one_way_accuracy:
  assumes "0 \<le> fw" and "0 \<le> sv" and "0 \<le> bw" and "fw + sv + bw < 2 ^ 61" and "\<bar>\<theta>\<bar> < 2 ^ 61"
    and "\<bar>offset - \<theta>\<bar> \<le> u" and "u < 2 ^ 61" and "ClientSendTime env0 = Some t"
    and "env = fst (Ping sha a ck info (Some env0))" and "at_recv ck = t + fw + \<theta>" and "at_send ck = t + fw + sv + \<theta>"
    and "OneWay env (t + fw + sv + bw) offset = (f', b', ok)"
  shows "ok \<and> \<bar>f' - fw\<bar> \<le> u \<and> \<bar>b' - bw\<bar> \<le> u \<and> f' + b' = fw + bw \<and> ServerDuration (Some env) = sv \<and>
         (u \<le> fw \<and> u \<le> bw \<longrightarrow> Classify env (t + fw + sv + bw) f' b' = [])"
proof -
  have env: "ClientSendTime env = Some t" "ServerReceiveTime env = Some (t + fw + \<theta>)"
    "ServerSendTime env = Some (t + fw + sv + \<theta>)"
    using assms(8-11)
    by (auto simp: Ping_def agent_stamp_def agent_done_def StampReceive_def StampSend_def Let_def split: option.splits)
  have s: "Sub (t + fw + \<theta>) t = fw + \<theta>" "Sub (t + fw + sv + bw) (t + fw + sv + \<theta>) = bw - \<theta>"
    "Sub (t + fw + sv + \<theta>) (t + fw + \<theta>) = sv"
    using assms(1-5) Sub_exact [of "t + fw + \<theta>" t] Sub_exact [of "t + fw + sv + bw" "t + fw + sv + \<theta>"]
      Sub_exact [of "t + fw + sv + \<theta>" "t + fw + \<theta>"] by auto
  have w: "wrap64 (fw + \<theta> - offset) = fw + \<theta> - offset" "wrap64 (bw - \<theta> + offset) = bw - \<theta> + offset"
    using assms(1-7) by (auto intro!: wrap64_exact)
  have r: "f' = fw + \<theta> - offset" "b' = bw - \<theta> + offset" ok
    using assms(12) unfolding OneWay_def env option.case prod.case s w by auto
  have "ServerDuration (Some env) = sv" using env s(3) assms(2) by (simp add: ServerDuration_def Let_def)
  moreover have "u \<le> fw \<and> u \<le> bw \<longrightarrow> Classify env (t + fw + sv + bw) f' b' = []"
    using env r assms(1-3,6) by (auto simp: Classify_def)
  ultimately show ?thesis using r assms(6) by auto
qed

theorem one_way_accuracy_witness:
  "\<exists>f' b' ok. OneWay (fst (Ping (\<lambda>b. b) \<lparr>ag_region = ''eu'', ag_pool = ''all'', ag_responderID = ''r''\<rparr>
       \<lparr>at_start = 1110, at_recv = 1110, at_send = 1115, at_end = 1115\<rparr> None
       (Some (zero_envelope\<lparr>ClientSendTime := Some 1000\<rparr>)))) 1045 101 = (f', b', ok) \<and> f' + b' = 40 \<and> \<bar>f' - 10\<bar> \<le> 1"
proof -
  let ?a = "\<lparr>ag_region = ''eu'', ag_pool = ''all'', ag_responderID = ''r''\<rparr>"
    and ?c = "\<lparr>at_start = 1110, at_recv = 1110, at_send = 1115, at_end = 1115\<rparr>"
    and ?e = "zero_envelope\<lparr>ClientSendTime := Some 1000\<rparr>"
  obtain f' b' ok where o: "OneWay (fst (Ping (\<lambda>b. b) ?a ?c None (Some ?e))) 1045 101 = (f', b', ok)" by (metis prod.exhaust)
  from one_way_accuracy [of 10 5 30 100 101 1 ?e 1000 "fst (Ping (\<lambda>b. b) ?a ?c None (Some ?e))" "\<lambda>b. b" ?a ?c None f' b' ok] o
  show ?thesis by auto
qed

end
