(* ===== verification/Float64.thy ===== *)
theory Float64
  imports Complex_Main "HOL-Library.Log_Nat"
begin

text \<open>
  Go's \<open>float64\<close> arithmetic as rational arithmetic with a rounding step: every operation is the exact one
  followed by \<open>fl\<close>, rounding to nearest, ties to even, at 53 significant bits.  The exponent range is not
  bounded here: the program's rates, counts and durations stay far from overflow and from subnormals.
\<close>

section \<open>Rounding\<close>

text \<open>Round a rational to an integer, ties to even.\<close>

definition rne :: "rat \<Rightarrow> int" where
  "rne y = (let f = \<lfloor>y\<rfloor>; d = y - of_int f in
            if d < 1 / 2 then f else if 1 / 2 < d then f + 1 else if even f then f else f + 1)"

text \<open>The binary exponent of a positive rational.\<close>

definition expo :: "rat \<Rightarrow> int" where
  "expo x = (if 1 \<le> x then int (floorlog 2 (nat \<lfloor>x\<rfloor>)) - 1 else - int (floorlog 2 (nat (\<lceil>1 / x\<rceil> - 1))))"

definition ulp :: "rat \<Rightarrow> rat" where
  "ulp x = 2 powi (expo x - 52)"

definition fl :: "rat \<Rightarrow> rat" where
  "fl x = (if x = 0 then 0 else sgn x * of_int (rne (\<bar>x\<bar> / ulp \<bar>x\<bar>)) * ulp \<bar>x\<bar>)"

section \<open>Rounding to an integer\<close>

lemma rne_of_int [simp]: "rne (of_int k) = k"
  by (simp add: rne_def)

lemma rne_mono: "x \<le> y \<Longrightarrow> rne x \<le> rne y"
proof (cases "\<lfloor>x\<rfloor> = \<lfloor>y\<rfloor>")
  case True
  assume "x \<le> y"
  with True show ?thesis by (simp add: rne_def Let_def)
next
  case False
  assume "x \<le> y"
  then have "\<lfloor>x\<rfloor> \<le> \<lfloor>y\<rfloor>" by (rule floor_mono)
  with False have "\<lfloor>x\<rfloor> + 1 \<le> \<lfloor>y\<rfloor>" by simp
  moreover have "rne x \<le> \<lfloor>x\<rfloor> + 1" "\<lfloor>y\<rfloor> \<le> rne y" by (simp_all add: rne_def Let_def)
  ultimately show ?thesis by simp
qed

section \<open>The exponent\<close>

lemma powi_neg: "(2 :: rat) powi (- int n) = 1 / 2 ^ n"
  by (simp only: power_int_minus power_int_of_nat inverse_eq_divide)

lemma expo_bounds:
  assumes "0 < x"
  shows "2 powi expo x \<le> x" and "x < 2 powi (expo x + 1)"
proof -
  have "2 powi expo x \<le> x \<and> x < 2 powi (expo x + 1)"
  proof (cases "1 \<le> x")
    case True
    define n where "n = nat \<lfloor>x\<rfloor>"
    have n: "0 < n" "of_nat n \<le> x" "x < of_nat n + 1" using True by (auto simp: n_def of_nat_nat) linarith
    define k where "k = floorlog 2 n - 1"
    have fk: "floorlog 2 n = Suc k" using n(1) floorlog_eq_zero_iff [of 2 n] by (cases "floorlog 2 n") (auto simp: k_def)
    have b: "2 ^ k \<le> n" "n < 2 ^ (k + 1)"
      using floorlog_bounds [of n 2] n(1) fk by auto
    have e: "expo x = int k" using True fk by (simp add: expo_def n_def)
    have "(2 :: rat) ^ k \<le> of_nat n" using b(1) by (metis of_nat_le_iff of_nat_numeral of_nat_power)
    then have lo: "2 ^ k \<le> x" using n(2) by linarith
    have "of_nat n + 1 \<le> (2 :: rat) ^ (k + 1)" using b(2) by (metis Suc_eq_plus1 Suc_leI of_nat_1 of_nat_add of_nat_le_iff of_nat_numeral of_nat_power)
    then have "x < 2 ^ (k + 1)" using n(3) by linarith
    with lo e show ?thesis by (simp add: power_int_add)
  next
    case False
    define n where "n = nat (\<lceil>1 / x\<rceil> - 1)"
    have y: "1 < 1 / x" using False assms by simp
    then have "1 < \<lceil>1 / x\<rceil>" by linarith
    then have n: "0 < n" "of_nat n < 1 / x" "1 / x \<le> of_nat n + 1"
      unfolding n_def by (auto simp: of_nat_nat) linarith+
    define k where "k = floorlog 2 n - 1"
    have fk: "floorlog 2 n = Suc k" using n(1) floorlog_eq_zero_iff [of 2 n] by (cases "floorlog 2 n") (auto simp: k_def)
    have b: "2 ^ k \<le> n" "n < 2 ^ (k + 1)"
      using floorlog_bounds [of n 2] n(1) fk by auto
    have e: "expo x = - int (Suc k)" using False fk by (simp add: expo_def n_def)
    have "(2 :: rat) ^ k \<le> of_nat n" using b(1) by (metis of_nat_le_iff of_nat_numeral of_nat_power)
    then have lo: "2 ^ k < 1 / x" using n(2) by linarith
    have "of_nat n + 1 \<le> (2 :: rat) ^ (k + 1)" using b(2) by (metis Suc_eq_plus1 Suc_leI of_nat_1 of_nat_add of_nat_le_iff of_nat_numeral of_nat_power)
    then have hi: "1 / x \<le> 2 ^ Suc k" using n(3) by simp
    have "1 / 2 ^ Suc k \<le> x" using hi assms by (simp add: field_simps)
    moreover have "x < 1 / 2 ^ k" using lo assms by (simp add: field_simps)
    moreover have "2 powi expo x = 1 / (2 :: rat) ^ Suc k" "2 powi (expo x + 1) = 1 / (2 :: rat) ^ k"
      using powi_neg [of "Suc k"] powi_neg [of k] e by simp_all
    ultimately show ?thesis by simp
  qed
  then show "2 powi expo x \<le> x" and "x < 2 powi (expo x + 1)" by auto
qed

lemma ulp_pos [simp]: "0 < ulp x"
  by (simp add: ulp_def)

text \<open>The significand lies between the 53-bit bounds.\<close>

lemma rne_bounds:
  assumes "0 < x"
  shows "2 ^ 52 \<le> rne (x / ulp x)" and "rne (x / ulp x) \<le> 2 ^ 53"
proof -
  have u: "ulp x * 2 ^ 52 = 2 powi expo x" "ulp x * 2 ^ 53 = 2 powi (expo x + 1)"
    by (simp_all add: ulp_def power_int_diff power_int_add)
  have "2 ^ 52 * ulp x \<le> x" "x \<le> 2 ^ 53 * ulp x"
    using expo_bounds [OF assms] u by (simp_all add: mult.commute)
  then have "of_int (2 ^ 52) \<le> x / ulp x" "x / ulp x \<le> of_int (2 ^ 53)"
    by (simp_all add: pos_le_divide_eq pos_divide_le_eq)
  then show "2 ^ 52 \<le> rne (x / ulp x)" and "rne (x / ulp x) \<le> 2 ^ 53"
    using rne_mono rne_of_int by metis+
qed

section \<open>Rounding to a float\<close>

lemma fl_0 [simp]: "fl 0 = 0"
  by (simp add: fl_def)

lemma fl_uminus [simp]: "fl (- x) = - fl x"
  by (simp add: fl_def)

lemma fl_pos: "0 < x \<Longrightarrow> fl x = of_int (rne (x / ulp x)) * ulp x"
  by (simp add: fl_def)

lemma fl_between:
  assumes "0 < x"
  shows "2 powi expo x \<le> fl x" and "fl x \<le> 2 powi (expo x + 1)"
proof -
  have u: "2 powi expo x = of_int (2 ^ 52) * ulp x" "2 powi (expo x + 1) = of_int (2 ^ 53) * ulp x"
    by (simp_all add: ulp_def power_int_diff power_int_add)
  show "2 powi expo x \<le> fl x" and "fl x \<le> 2 powi (expo x + 1)"
    unfolding u fl_pos [OF assms] using rne_bounds [OF assms] by (simp_all only: mult_le_cancel_right_pos ulp_pos of_int_le_iff)
qed

lemma fl_mono_pos:
  assumes "0 < x" and "x \<le> y"
  shows "fl x \<le> fl y"
proof -
  have y: "0 < y" using assms by simp
  have "expo x \<le> expo y"
  proof (rule ccontr)
    assume "\<not> expo x \<le> expo y"
    then have "(2 :: rat) powi (expo y + 1) \<le> 2 powi expo x" by (intro power_int_increasing) auto
    with expo_bounds [OF assms(1)] expo_bounds [OF y] assms(2) show False by linarith
  qed
  then consider "expo x = expo y" | "expo x + 1 \<le> expo y" by linarith
  then show ?thesis
  proof cases
    case 1
    then have "x / ulp x \<le> y / ulp y" using assms(2) ulp_pos by (simp add: ulp_def divide_right_mono)
    with 1 show ?thesis using rne_mono by (simp add: fl_pos assms(1) y ulp_def)
  next
    case 2
    then have "(2 :: rat) powi (expo x + 1) \<le> 2 powi expo y" by (intro power_int_increasing) auto
    with fl_between [OF assms(1)] fl_between [OF y] show ?thesis by linarith
  qed
qed

lemma fl_pos_pos: "0 < x \<Longrightarrow> 0 < fl x"
  using fl_between(1) [of x] zero_less_power_int [of "2 :: rat" "expo x"] by linarith

lemma fl_nonneg: "0 \<le> x \<Longrightarrow> 0 \<le> fl x"
  using fl_pos_pos [of x] by (cases "x = 0") auto

lemma fl_mono: "x \<le> y \<Longrightarrow> fl x \<le> fl y"
proof -
  assume le: "x \<le> y"
  consider "0 < x" | "x \<le> 0" "0 \<le> y" | "y < 0" by linarith
  then show ?thesis
  proof cases
    case 1
    from fl_mono_pos [OF this le] show ?thesis .
  next
    case 2
    then show ?thesis using fl_nonneg [of y] fl_nonneg [of "- x"] by simp
  next
    case 3
    then show ?thesis using fl_mono_pos [of "- y" "- x"] le by simp
  qed
qed

text \<open>Values with at most 53 significant bits are exact.\<close>

definition exact64 :: "rat \<Rightarrow> bool" where
  "exact64 x = (fl x = x)"

lemma exact64_fl [simp]: "exact64 x \<Longrightarrow> fl x = x"
  by (simp add: exact64_def)

lemma fl_scaled:
  assumes "\<bar>k\<bar> \<le> 2 ^ 53"
  shows "exact64 (of_int k * 2 powi e)"
proof -
  have pos: "fl (of_int k * 2 powi e) = of_int k * 2 powi e" if "0 < k" "k \<le> 2 ^ 53" for k :: int
  proof -
    let ?x = "of_int k * (2 :: rat) powi e"
    have x: "0 < ?x" using that by simp
    have "?x \<le> 2 powi (e + 53)"
    proof -
      have "(of_int k :: rat) \<le> of_int (2 ^ 53)" using that(2) by (simp only: of_int_le_iff)
      then show ?thesis by (simp add: power_int_add)
    qed
    with expo_bounds(1) [OF x] have "(2 :: rat) powi expo ?x \<le> 2 powi (e + 53)" by linarith
    then have "expo ?x \<le> e + 53" using power_int_strict_increasing [of "e + 53" "expo ?x" "2 :: rat"] by force
    then consider "expo ?x - 52 \<le> e" | "expo ?x = e + 53" by linarith
    then have "\<exists>j :: int. ?x / ulp ?x = of_int j"
    proof cases
      case 1
      define d where "d = nat (e - (expo ?x - 52))"
      have "?x / ulp ?x = of_int k * 2 powi (e - (expo ?x - 52))" by (simp add: ulp_def power_int_diff)
      also have "\<dots> = of_int (k * 2 ^ d)" using 1 by (simp add: d_def power_int_def)
      finally show ?thesis by blast
    next
      case 2
      then have "(2 :: rat) powi (e + 53) \<le> ?x" using expo_bounds(1) [OF x] by simp
      with \<open>?x \<le> 2 powi (e + 53)\<close> have "?x = 2 powi (e + 53)" by simp
      then have "?x / ulp ?x = 2 powi 52" using 2 by (simp add: ulp_def power_int_diff power_int_add)
      then show ?thesis by (intro exI [of _ "2 ^ 52"]) simp
    qed
    then obtain j where j: "?x / ulp ?x = of_int j" by blast
    then have "?x = of_int j * ulp ?x" using ulp_pos [of ?x] by (simp add: divide_eq_eq)
    with j show ?thesis by (simp add: fl_pos [OF x])
  qed
  show ?thesis
  proof (cases "k = 0")
    case False
    show ?thesis
    proof (cases "0 < k")
      case True
      with pos [of k] assms show ?thesis by (simp add: exact64_def)
    next
      case False
      with \<open>k \<noteq> 0\<close> pos [of "- k"] assms have "fl (- (of_int k * 2 powi e)) = - (of_int k * 2 powi e)" by simp
      then show ?thesis by (simp add: exact64_def del: mult_minus_left mult_minus_right)
    qed
  qed (simp add: exact64_def)
qed

lemma fl_of_int: "\<bar>k\<bar> \<le> 2 ^ 53 \<Longrightarrow> exact64 (of_int k)"
  using fl_scaled [of k 0] by simp

lemma expo_unique:
  assumes "2 powi e \<le> x" and "x < 2 powi (e + 1)"
  shows "expo x = e"
proof -
  have x: "0 < x" using assms(1) zero_less_power_int [of "2 :: rat" e] by linarith
  have le: "a \<le> b" if "2 powi a \<le> x" "x < 2 powi (b + 1)" for a b :: int
  proof (rule ccontr)
    assume "\<not> a \<le> b"
    then have "(2 :: rat) powi (b + 1) \<le> 2 powi a" by (intro power_int_increasing) auto
    with that show False by linarith
  qed
  show ?thesis using le expo_bounds [OF x] assms by (intro antisym) auto
qed

lemma fl_times_power: "fl (x * 2 ^ k) = fl x * 2 ^ k"
proof -
  have pos: "fl (x * 2 ^ k) = fl x * 2 ^ k" if "0 < x" for x
  proof -
    have pk: "(2 :: rat) ^ k = 2 powi int k" by simp
    have "expo (x * 2 ^ k) = expo x + int k"
    proof (rule expo_unique)
      show "2 powi (expo x + int k) \<le> x * 2 ^ k" using expo_bounds(1) [OF that] by (simp add: power_int_add)
      have "x * 2 ^ k < 2 powi (expo x + 1) * 2 ^ k" using expo_bounds(2) [OF that] by simp
      then show "x * 2 ^ k < 2 powi (expo x + int k + 1)" by (simp add: power_int_add mult.assoc mult.left_commute)
    qed
    then have "ulp (x * 2 ^ k) = ulp x * 2 ^ k" by (simp add: ulp_def power_int_add power_int_diff)
    then show ?thesis using that by (simp add: fl_pos)
  qed
  consider "x = 0" | "0 < x" | "0 < - x" by linarith
  then show ?thesis using pos [of x] pos [of "- x"] by cases auto
qed

lemma exact64_times_power: "exact64 x \<Longrightarrow> exact64 (x * 2 ^ k)"
  by (simp add: exact64_def fl_times_power)

lemma exact64_0 [simp]: "exact64 0"
  by (simp add: exact64_def)

lemma exact64_rounded [simp]: "exact64 (fl x)"
proof -
  have pos: "exact64 (fl x)" if "0 < x" for x
    using fl_scaled [of "rne (x / ulp x)" "expo x - 52"] rne_bounds [OF that] by (simp add: fl_pos that ulp_def)
  consider "x = 0" | "0 < x" | "0 < - x" by linarith
  then show ?thesis using pos [of x] pos [of "- x"] by cases (auto simp: exact64_def)
qed

lemma exact64_uminus [simp]: "exact64 (- x) = exact64 x"
  by (simp add: exact64_def)

section \<open>Conversions\<close>

text \<open>\<open>float64(n)\<close>, \<open>int64(x)\<close>, and \<open>Duration.Seconds\<close>, which adds whole seconds and the fraction.\<close>

definition of_i64 :: "int \<Rightarrow> rat" where
  "of_i64 n = fl (of_int n)"

definition to_i64 :: "rat \<Rightarrow> int" where
  "to_i64 x = (if 0 \<le> x then \<lfloor>x\<rfloor> else \<lceil>x\<rceil>)"

definition fdiv :: "rat \<Rightarrow> rat \<Rightarrow> rat" where
  "fdiv x y = fl (x / y)"

definition fmul :: "rat \<Rightarrow> rat \<Rightarrow> rat" where
  "fmul x y = fl (x * y)"

definition fadd :: "rat \<Rightarrow> rat \<Rightarrow> rat" where
  "fadd x y = fl (x + y)"

definition fsub :: "rat \<Rightarrow> rat \<Rightarrow> rat" where
  "fsub x y = fl (x - y)"

lemmas float_ops = of_i64_def to_i64_def fdiv_def fmul_def fadd_def fsub_def

lemma of_i64_exact: "\<bar>n\<bar> \<le> 2 ^ 53 \<Longrightarrow> of_i64 n = of_int n"
  using fl_of_int [of n] by (simp add: of_i64_def exact64_def)

lemma of_i64_nonneg: "0 \<le> n \<Longrightarrow> 0 \<le> of_i64 n"
  by (simp add: of_i64_def fl_nonneg)

end
