(* ===== verification/Harness.thy ===== *)
theory Harness
  imports Clocks Float64
begin

text \<open>
  The latency accumulator of the benchmark (\<open>clients/internal/harness/hdr.go\<close>).

  The HdrHistogram library is an argument, a record of the operations the code calls; \<open>hist_ok\<close> states
  what the code relies on of it.  Error kinds are counted in an association list, since they are summed.
\<close>

section \<open>The histogram library\<close>

record 'h hist_lib =
  h_new :: 'h
  h_record :: "int \<Rightarrow> 'h \<Rightarrow> 'h"
  h_corrected :: "int \<Rightarrow> int \<Rightarrow> 'h \<Rightarrow> 'h"
  h_total :: "'h \<Rightarrow> int"
  h_min :: "'h \<Rightarrow> int"
  h_max :: "'h \<Rightarrow> int"
  h_mean :: "'h \<Rightarrow> rat"
  h_quantile :: "rat \<Rightarrow> 'h \<Rightarrow> int"
  h_print :: "'h \<Rightarrow> gerr + string"

definition maxTrackNs :: int where
  "maxTrackNs = 60 * Second"

text \<open>A value of the tracked range adds one to the total; a corrected value adds at least one.\<close>

definition hist_ok :: "'h hist_lib \<Rightarrow> bool" where
  "hist_ok H \<longleftrightarrow>
     h_total H (h_new H) = 0 \<and>
     (\<forall>h v. 1 \<le> v \<and> v \<le> maxTrackNs \<longrightarrow> h_total H (h_record H v h) = h_total H h + 1) \<and>
     (\<forall>h v e. 1 \<le> v \<and> v \<le> maxTrackNs \<and> 1 \<le> e \<longrightarrow> h_total H h + 1 \<le> h_total H (h_corrected H v e h))"

section \<open>The accumulator\<close>

record 'h HDR =
  raw :: 'h
  corrected :: 'h
  hdr_errors :: int
  errKinds :: "(string \<times> int) list"

definition NewHDR :: "'h hist_lib \<Rightarrow> 'h HDR" where
  "NewHDR H = \<lparr>raw = h_new H, corrected = h_new H, hdr_errors = 0, errKinds = []\<rparr>"

definition clamp :: "duration \<Rightarrow> int" where
  "clamp d = (if d < 1 then 1 else if d > maxTrackNs then maxTrackNs else d)"

definition Record :: "'h hist_lib \<Rightarrow> duration \<Rightarrow> 'h HDR \<Rightarrow> 'h HDR" where
  "Record H d r = r\<lparr>raw := h_record H (clamp d) (raw r)\<rparr>"

definition RecordCorrected :: "'h hist_lib \<Rightarrow> duration \<Rightarrow> duration \<Rightarrow> 'h HDR \<Rightarrow> 'h HDR" where
  "RecordCorrected H d expected r =
     (let v = clamp d in
      r\<lparr>raw := h_record H v (raw r), corrected := h_corrected H v (clamp expected) (corrected r)\<rparr>)"

fun count_kind :: "string \<Rightarrow> (string \<times> int) list \<Rightarrow> (string \<times> int) list" where
  "count_kind k [] = [(k, 1)]"
| "count_kind k ((k', n) # ks) = (if k = k' then (k', n + 1) # ks else (k', n) # count_kind k ks)"

definition AddErrorKind :: "string \<Rightarrow> 'h HDR \<Rightarrow> 'h HDR" where
  "AddErrorKind kind r = r\<lparr>hdr_errors := hdr_errors r + 1, errKinds := count_kind kind (errKinds r)\<rparr>"

definition AddError :: "'h HDR \<Rightarrow> 'h HDR" where
  "AddError r = AddErrorKind ''error'' r"

definition NumErrors :: "'h HDR \<Rightarrow> int" where
  "NumErrors r = hdr_errors r"

definition ErrorKinds :: "'h HDR \<Rightarrow> (string \<times> int) list option" where
  "ErrorKinds r = (if errKinds r = [] then None else Some (errKinds r))"

definition hdr_Count :: "'h hist_lib \<Rightarrow> 'h HDR \<Rightarrow> int" where
  "hdr_Count H r = h_total H (raw r)"

record summary =
  sm_Count :: int
  sm_Errors :: int
  sm_Min :: duration
  P50 :: duration
  P90 :: duration
  P99 :: duration
  P999 :: duration
  sm_Max :: duration
  sm_Mean :: duration
  ThroughputPerSec :: rat

text \<open>\<open>Duration.Seconds\<close>.\<close>

definition Seconds :: "duration \<Rightarrow> rat" where
  "Seconds d = fadd (of_i64 (d sdiv Second)) (fdiv (of_i64 (d smod Second)) (of_i64 Second))"

definition Summarize :: "'h hist_lib \<Rightarrow> duration \<Rightarrow> 'h HDR \<Rightarrow> summary" where
  "Summarize H elapsed r =
     (let n = h_total H (raw r);
          s = \<lparr>sm_Count = n, sm_Errors = hdr_errors r, sm_Min = 0, P50 = 0, P90 = 0, P99 = 0, P999 = 0,
               sm_Max = 0, sm_Mean = 0, ThroughputPerSec = 0\<rparr>
      in if n = 0 then s
         else (let s1 = s\<lparr>sm_Min := h_min H (raw r), sm_Max := h_max H (raw r), sm_Mean := to_i64 (h_mean H (raw r)),
                          P50 := h_quantile H 50 (raw r), P90 := h_quantile H 90 (raw r), P99 := h_quantile H 99 (raw r),
                          P999 := h_quantile H (fl (999 / 10)) (raw r)\<rparr>
               in if elapsed > 0 then s1\<lparr>ThroughputPerSec := fdiv (of_i64 n) (Seconds elapsed)\<rparr> else s1))"

definition ValueAt :: "'h hist_lib \<Rightarrow> rat \<Rightarrow> 'h HDR \<Rightarrow> duration" where
  "ValueAt H q r = h_quantile H q (raw r)"

definition CorrectedP99 :: "'h hist_lib \<Rightarrow> 'h HDR \<Rightarrow> duration \<times> bool" where
  "CorrectedP99 H r =
     (if h_total H (corrected r) = 0 then (0, False) else (h_quantile H 99 (corrected r), True))"

text \<open>The text written, or the first error of a write or of the library's printer; \<open>wr i\<close> is the error of
  the \<open>i\<close>-th heading.\<close>

definition WriteHGRM :: "'h hist_lib \<Rightarrow> (nat \<Rightarrow> gerr option) \<Rightarrow> 'h HDR \<Rightarrow> gerr + string" where
  "WriteHGRM H wr r =
     (case wr 0 of
        Some err \<Rightarrow> Inl err
      | None \<Rightarrow>
          (case h_print H (raw r) of
             Inl err \<Rightarrow> Inl err
           | Inr body \<Rightarrow>
               (let out = ''#[raw latencies, microseconds]\<newline>'' @ body in
                if h_total H (corrected r) > 0 then
                  (case wr 1 of
                     Some err \<Rightarrow> Inl err
                   | None \<Rightarrow>
                       (case h_print H (corrected r) of
                          Inl err \<Rightarrow> Inl err
                        | Inr body2 \<Rightarrow> Inr (out @ ''\<newline>#[coordinated-omission-corrected, microseconds]\<newline>'' @ body2)))
                else Inr out)))"

section \<open>Facts\<close>

text \<open>The per-kind counts add up to the error count.\<close>

definition hdr_inv :: "'h HDR \<Rightarrow> bool" where
  "hdr_inv r \<longleftrightarrow> hdr_errors r = sum_list (map snd (errKinds r)) \<and> distinct (map fst (errKinds r)) \<and>
     (\<forall>(k, n) \<in> set (errKinds r). 1 \<le> n)"

lemma clamp_range: "1 \<le> clamp d" "clamp d \<le> maxTrackNs"
  by (simp_all add: clamp_def maxTrackNs_def)

lemma count_kind_sum [simp]: "sum_list (map snd (count_kind k ks)) = sum_list (map snd ks) + 1"
  by (induction k ks rule: count_kind.induct) auto

lemma count_kind_fst: "set (map fst (count_kind k ks)) = insert k (set (map fst ks))"
  by (induction k ks rule: count_kind.induct) auto

lemma count_kind_distinct: "distinct (map fst ks) \<Longrightarrow> distinct (map fst (count_kind k ks))"
proof (induction k ks rule: count_kind.induct)
  case (2 k k' n ks)
  with count_kind_fst [of k ks] show ?case by auto
qed simp

lemma count_kind_pos: "\<forall>(k, n) \<in> set ks. 1 \<le> n \<Longrightarrow> \<forall>(k, n) \<in> set (count_kind k' ks). (1 :: int) \<le> n"
  by (induction k' ks rule: count_kind.induct) auto

lemma hdr_inv_new [simp]: "hdr_inv (NewHDR H)"
  by (simp add: hdr_inv_def NewHDR_def)

lemma hdr_inv_record [simp]:
  "hdr_inv (Record H d r) = hdr_inv r" "hdr_inv (RecordCorrected H d e r) = hdr_inv r"
  by (simp_all add: hdr_inv_def Record_def RecordCorrected_def Let_def)

lemma hdr_inv_error: "hdr_inv r \<Longrightarrow> hdr_inv (AddErrorKind k r)"
  using count_kind_pos [of "errKinds r" k] by (auto simp: hdr_inv_def AddErrorKind_def count_kind_distinct)

text \<open>Each operation adds one sample or one error.\<close>

definition outcomes :: "'h hist_lib \<Rightarrow> 'h HDR \<Rightarrow> int" where
  "outcomes H r = hdr_Count H r + NumErrors r"

lemma hist_okD:
  assumes "hist_ok H"
  shows "h_total H (h_new H) = 0" and "h_total H (h_record H (clamp d) h) = h_total H h + 1"
  using assms clamp_range [of d] by (auto simp: hist_ok_def)

lemma hdr_counts [simp]:
  assumes "hist_ok H"
  shows "hdr_Count H (NewHDR H) = 0" and "hdr_Count H (Record H d r) = hdr_Count H r + 1"
    and "hdr_Count H (RecordCorrected H d e r) = hdr_Count H r + 1"
    and "hdr_Count H (AddErrorKind k r) = hdr_Count H r"
    and "NumErrors (NewHDR H) = 0" and "NumErrors (Record H d r) = NumErrors r"
    and "NumErrors (RecordCorrected H d e r) = NumErrors r" and "NumErrors (AddErrorKind k r) = NumErrors r + 1"
  using hist_okD [OF assms]
  by (simp_all add: hdr_Count_def NumErrors_def NewHDR_def Record_def RecordCorrected_def AddErrorKind_def Let_def)

end
