(* ===== verification/Loops.thy ===== *)
theory Loops
  imports Main
begin

text \<open>
  Loops run by several workers at once, as step relations.  The contract of such a loop is an invariant
  and a count of the steps that may be left: every step lowers the count, and while it is positive some
  step is possible.  Then no run is infinite, none gets stuck early, and every run can be continued to the end.
  Where every step lowers the count by exactly one, all complete runs have the same length.
\<close>

locale step_loop =
  fixes step :: "'s \<Rightarrow> 's \<Rightarrow> bool" and inv :: "'s \<Rightarrow> bool" and left :: "'s \<Rightarrow> nat"
  assumes keeps: "inv s \<Longrightarrow> step s t \<Longrightarrow> inv t"
    and lowers: "inv s \<Longrightarrow> step s t \<Longrightarrow> left t < left s"
    and progress: "inv s \<Longrightarrow> 0 < left s \<Longrightarrow> \<exists>t. step s t"
begin

lemma run_bounded: "inv s \<Longrightarrow> (step ^^ k) s t \<Longrightarrow> inv t \<and> k + left t \<le> left s"
proof (induction k arbitrary: t)
  case (Suc k)
  then obtain u where u: "(step ^^ k) s u" "step u t" by auto
  with Suc.IH [OF Suc.prems(1)] have "inv u" "k + left u \<le> left s" by auto
  with keeps [OF _ u(2)] lowers [OF _ u(2)] show ?case by auto
qed simp

lemma completes: "inv s \<Longrightarrow> \<exists>k t. (step ^^ k) s t \<and> left t = 0"
proof (induction "left s" arbitrary: s rule: less_induct)
  case less
  show ?case
  proof (cases "left s = 0")
    case True
    then have "(step ^^ 0) s s \<and> left s = 0" by simp
    then show ?thesis by blast
  next
    case False
    with progress [OF less.prems] obtain u where u: "step s u" by blast
    with less.hyps [OF lowers [OF less.prems u] keeps [OF less.prems u]]
    obtain k t where "(step ^^ k) u t" "left t = 0" by blast
    with u have "(step ^^ Suc k) s t \<and> left t = 0" by (metis relpowp_Suc_I2)
    then show ?thesis by blast
  qed
qed

lemma ends:
  assumes "inv s" and "(step ^^ k) s t" and "\<nexists>u. step t u"
  shows "left t = 0"
  using run_bounded [OF assms(1,2)] progress assms(3) by blast

end

locale exact_loop = step_loop +
  assumes by_one: "inv s \<Longrightarrow> step s t \<Longrightarrow> left s = Suc (left t)"
begin

lemma run_exact: "inv s \<Longrightarrow> (step ^^ k) s t \<Longrightarrow> left s = k + left t"
proof (induction k arbitrary: t)
  case (Suc k)
  then obtain u where u: "(step ^^ k) s u" "step u t" by auto
  with Suc.IH [OF Suc.prems(1)] run_bounded [OF Suc.prems(1)] by_one [OF _ u(2)] show ?case by auto
qed simp

end

end
