(* ===== verification/Driver.thy ===== *)
theory Driver
  imports Harness Loops
begin

text \<open>
  The run-mode driver of the benchmark (\<open>clients/workloads/benchcli/drive.go\<close>): configuration, one
  measured request, the closed loop as a step relation over its workers, the open loop, the saturation
  ramp, cold starts, and the driver's garbage-collection profile.

  Arguments stand for the clock, the UUID library, the histogram library and the transport's answer to a
  request.  Rates are floats.
\<close>

section \<open>Configuration\<close>

record drive_config =
  d_mode :: string
  d_n :: int
  d_inflight :: int
  d_rate :: rat
  d_duration :: duration
  d_step :: duration
  d_floor :: duration
  d_conns :: int
  d_timeout :: duration
  d_runID :: string
  d_fixture :: string

definition drive_validate :: "drive_config \<Rightarrow> gerr + drive_config" where
  "drive_validate c =
     (if d_mode c = ''latency'' then
        (let c1 = (if d_inflight c = 0 then c\<lparr>d_inflight := 1\<rparr> else c) in
         if d_inflight c1 \<noteq> 1 then
           Inl (Opaque (''mode=latency is closed-loop inflight=1 (got -inflight='' @ itoa (d_inflight c1) @ ''); use -mode=windowed for concurrency''))
         else if d_n c1 \<le> 0 then Inl (Opaque ''mode=latency needs -n > 0'')
         else Inr c1)
      else if d_mode c = ''windowed'' then
        (if d_inflight c < 2 then
           Inl (Opaque ''mode=windowed needs -inflight >= 2 (design sweeps 16|64|256); use -mode=latency for inflight=1'')
         else if d_n c \<le> 0 then Inl (Opaque ''mode=windowed needs -n > 0'')
         else Inr c)
      else if d_mode c = ''openloop'' then
        (if d_rate c \<le> 0 then Inl (Opaque ''mode=openloop needs -rate > 0 (offered msg/s)'')
         else if d_duration c \<le> 0 then Inl (Opaque ''mode=openloop needs -duration > 0'')
         else Inr (if d_inflight c \<le> 0 then c\<lparr>d_inflight := 1024\<rparr> else c))
      else if d_mode c = ''saturation'' then
        (if d_rate c \<le> 0 then Inl (Opaque ''mode=saturation needs -rate > 0 (the base rate the ramp doubles from)'')
         else (let c1 = (if d_step c \<le> 0 then c\<lparr>d_step := 10 * Second\<rparr> else c) in
               if d_floor c1 < 0 then
                 Inl (Opaque ''mode=saturation needs -floor >= 0 (0 = measure the floor from the first ramp step)'')
               else Inr (if d_inflight c1 \<le> 0 then c1\<lparr>d_inflight := 1024\<rparr> else c1)))
      else if d_mode c = ''coldstart'' then
        (let c1 = (if d_conns c \<le> 0 then c\<lparr>d_conns := 20\<rparr> else c);
             c2 = (if d_inflight c1 = 0 then c1\<lparr>d_inflight := 1\<rparr> else c1)
         in if d_inflight c2 \<noteq> 1 then
              Inl (Opaque (''mode=coldstart sends one request per fresh connection (inflight=1, got -inflight='' @ itoa (d_inflight c2) @ '')''))
            else Inr c2)
      else if d_mode c = ''fault'' then
        (if d_rate c \<le> 0 then Inl (Opaque ''mode=fault needs -rate > 0 (offered msg/s held through the disruption)'')
         else if d_duration c \<le> 0 then Inl (Opaque ''mode=fault needs -duration > 0 (the window spanning the pod kill)'')
         else Inr (if d_inflight c \<le> 0 then c\<lparr>d_inflight := 1024\<rparr> else c))
      else Inl (Opaque (''unknown -mode '' @ quoted (d_mode c) @ '' (latency|windowed|openloop|saturation|coldstart|fault)'')))"

section \<open>A measurement pass\<close>

record 'h series =
  s_hdr :: "'h HDR"
  s_srv :: "'h HDR"
  s_late :: int

definition newSeries :: "'h hist_lib \<Rightarrow> 'h series" where
  "newSeries H = \<lparr>s_hdr = NewHDR H, s_srv = NewHDR H, s_late = 0\<rparr>"

definition recordServer :: "'h hist_lib \<Rightarrow> duration \<Rightarrow> 'h series \<Rightarrow> 'h series" where
  "recordServer H d s = s\<lparr>s_srv := Record H d (s_srv s)\<rparr>"

definition series_record :: "'h hist_lib \<Rightarrow> duration \<Rightarrow> string \<Rightarrow> duration \<Rightarrow> 'h series \<Rightarrow> 'h series" where
  "series_record H rtt kind expected s =
     (if kind \<noteq> '''' then s\<lparr>s_hdr := AddErrorKind kind (s_hdr s)\<rparr>
      else if expected > 0 then s\<lparr>s_hdr := RecordCorrected H rtt expected (s_hdr s)\<rparr>
      else s\<lparr>s_hdr := Record H rtt (s_hdr s)\<rparr>)"

definition sent :: "'h hist_lib \<Rightarrow> 'h series \<Rightarrow> int" where
  "sent H s = hdr_Count H (s_hdr s) + NumErrors (s_hdr s)"

text \<open>What the driver's cell holds, and what one request meets: the UUID, the clock, the transport's error
  or the reply's envelope, and the time since the reference instant.\<close>

record 'u req_cell =
  rc_marshal :: "'u \<Rightarrow> gerr + bytes"
  rc_cenum :: wl_codec
  rc_tenum :: wl_transport
  rc_cell :: cell

record 'u exchange =
  ex_uuid :: "gerr + 'u"
  ex_now :: timestamp
  ex_answer :: "envelope \<Rightarrow> gerr + envelope option"
  ex_rtt :: duration

definition doOn ::
  "'h hist_lib \<Rightarrow> 'u req_cell \<Rightarrow> drive_config \<Rightarrow> 'u exchange \<Rightarrow> u64 \<Rightarrow> duration \<Rightarrow> 'h series \<times> envelope
   \<Rightarrow> 'h series \<times> envelope \<times> measurement list" where
  "doOn H rc cfg ex sq expected st =
     (case st of (s, env) \<Rightarrow>
        (case Fill (ex_uuid ex) (rc_marshal rc) (ex_now ex) (d_runID cfg) sq (rc_cenum rc) (rc_tenum rc) (d_fixture cfg) env of
           Inl err \<Rightarrow> (series_record H 0 ''encode'' expected s, env, [])
         | Inr env1 \<Rightarrow>
             (case ex_answer ex env1 of
                Inl err \<Rightarrow>
                  (series_record H 0 ''transport'' expected s, env1, [Message (rc_cell rc) ''sent'', ErrorCount (rc_cell rc) ''transport''])
              | Inr re \<Rightarrow>
                  (if re = None \<or> MessageId (the re) \<noteq> MessageId env1 then
                     (series_record H 0 ''corrupt'' expected s, env1, [Message (rc_cell rc) ''sent'', ErrorCount (rc_cell rc) ''corrupt''])
                   else (let sd = ServerDuration re;
                             s1 = (if sd > 0 then recordServer H sd s else s)
                         in (series_record H (ex_rtt ex) '''' expected s1, env1,
                             [Message (rc_cell rc) ''sent'', Message (rc_cell rc) ''received'', RoundTrip (rc_cell rc) (ex_rtt ex)]))))))"

section \<open>The closed loop\<close>

text \<open>A worker is between requests, in one, or finished; all share the sequence counter and the series.
  Its private request envelope is carried along.\<close>

datatype worker = Ready | Busy int | Finished

record 'h closed_run =
  w_seq :: int
  w_state :: "worker list"
  w_env :: "envelope list"
  w_series :: "'h series"
  w_log :: "int list"

definition closed_init :: "'h hist_lib \<Rightarrow> drive_config \<Rightarrow> envelope \<Rightarrow> 'h closed_run" where
  "closed_init H cfg env =
     \<lparr>w_seq = -1, w_state = replicate (nat (d_inflight cfg)) Ready, w_env = replicate (nat (d_inflight cfg)) env,
      w_series = newSeries H, w_log = []\<rparr>"

text \<open>The atomic increment and the test, then the request with its recorded outcome.\<close>

definition closed_take :: "drive_config \<Rightarrow> nat \<Rightarrow> 'h closed_run \<Rightarrow> 'h closed_run" where
  "closed_take cfg w r =
     (let i = w_seq r + 1 in
      r\<lparr>w_seq := i, w_state := (w_state r)[w := if i \<ge> d_n cfg then Finished else Busy i]\<rparr>)"

definition closed_do ::
  "'h hist_lib \<Rightarrow> 'u req_cell \<Rightarrow> drive_config \<Rightarrow> 'u exchange \<Rightarrow> nat \<Rightarrow> int \<Rightarrow> 'h closed_run \<Rightarrow> 'h closed_run" where
  "closed_do H rc cfg ex w i r =
     (let (s, env, ms) = doOn H rc cfg ex (of_int i) 0 (w_series r, w_env r ! w) in
      r\<lparr>w_state := (w_state r)[w := Ready], w_env := (w_env r)[w := env], w_series := s, w_log := w_log r @ [i]\<rparr>)"

inductive closed_step :: "'h hist_lib \<Rightarrow> 'u req_cell \<Rightarrow> drive_config \<Rightarrow> 'h closed_run \<Rightarrow> 'h closed_run \<Rightarrow> bool"
  for H rc cfg where
  take: "w < length (w_state r) \<Longrightarrow> w_state r ! w = Ready \<Longrightarrow> closed_step H rc cfg r (closed_take cfg w r)"
| do: "w < length (w_state r) \<Longrightarrow> w_state r ! w = Busy i \<Longrightarrow> closed_step H rc cfg r (closed_do H rc cfg ex w i r)"

section \<open>The open loop\<close>

definition open_interval :: "rat \<Rightarrow> duration" where
  "open_interval rate = (let i = to_i64 (fdiv (of_i64 Second) rate) in if i < 1 then 1 else i)"

text \<open>The sender from sequence number \<open>sq\<close>: the numbers it dispatches and how many of them late.  \<open>since\<close> is
  the time past the intended instant when a free worker was obtained.\<close>

function open_send :: "duration \<Rightarrow> duration \<Rightarrow> (nat \<Rightarrow> duration) \<Rightarrow> nat \<Rightarrow> nat list \<times> int" where
  "open_send interval dur since sq =
     (if \<not> (0 < interval \<and> int sq * interval < dur) then ([], 0)
      else (let (ds, late) = open_send interval dur since (sq + 1)
            in (sq # ds, (if since sq > Millisecond then 1 else 0) + late)))"
  by pat_completeness auto
termination
  by (relation "measure (\<lambda>(interval, dur, since, sq). nat (dur - int sq * interval))") (auto simp: algebra_simps)

declare open_send.simps [simp del]

text \<open>The requests end in some order, which \<open>order\<close> gives for the numbers dispatched; each starts from
  the envelope of the worker it got.\<close>

record 'u open_env =
  oe_since :: "nat \<Rightarrow> duration"
  oe_order :: "nat list \<Rightarrow> nat list"
  oe_worker :: "nat \<Rightarrow> envelope"
  oe_exchange :: "nat \<Rightarrow> 'u exchange"
  oe_elapsed :: duration

definition openPass ::
  "'h hist_lib \<Rightarrow> 'u req_cell \<Rightarrow> drive_config \<Rightarrow> 'u open_env \<Rightarrow> rat \<Rightarrow> duration \<Rightarrow> 'h series \<Rightarrow> duration \<times> 'h series" where
  "openPass H rc cfg oe rate dur s =
     (let interval = open_interval rate;
          (ds, late) = open_send interval dur (oe_since oe) 0;
          s1 = fold (\<lambda>sq u. fst (doOn H rc cfg (oe_exchange oe sq) (of_nat sq) interval (u, oe_worker oe sq))) (oe_order oe ds) s
      in (oe_elapsed oe, s1\<lparr>s_late := s_late s1 + late\<rparr>))"

section \<open>The saturation ramp\<close>

definition stepSustainable :: "duration \<Rightarrow> duration \<Rightarrow> rat \<Rightarrow> bool \<times> string" where
  "stepSustainable p99 flr lateFrac =
     (if flr > 0 \<and> p99 > wrap64 (10 * flr) then (False, ''p99'')
      else if lateFrac > fl (1 / 100) then (False, ''late'')
      else (True, ''''))"

record sat_result =
  sat_floor :: duration
  knee :: rat
  stopRate :: rat
  reason :: string

type_synonym 'h pass_fn = "nat \<Rightarrow> rat \<Rightarrow> duration \<Rightarrow> 'h series \<Rightarrow> duration \<times> 'h series"

definition ramp_rate :: "drive_config \<Rightarrow> nat \<Rightarrow> rat" where
  "ramp_rate cfg i = fmul (d_rate cfg) (2 ^ i)"

definition late_fraction :: "'h hist_lib \<Rightarrow> 'h series \<Rightarrow> rat" where
  "late_fraction H s = (let n = sent H s in if n > 0 then fdiv (of_i64 (s_late s)) (of_i64 n) else 0)"

text \<open>The loop from step \<open>i\<close>, and what it leaves: total time, knee and last series, verdict, \<open>capHit\<close>.\<close>

function ramp_from ::
  "'h hist_lib \<Rightarrow> 'h pass_fn \<Rightarrow> drive_config \<Rightarrow> nat \<Rightarrow> duration \<Rightarrow> duration \<times> 'h series option \<times> 'h series option \<times> sat_result
   \<Rightarrow> bool \<times> duration \<times> 'h series option \<times> 'h series option \<times> sat_result" where
  "ramp_from H pass cfg i flr st =
     (case st of (tot, kneeS, lastS, sr) \<Rightarrow>
        (if i < 24 then
           (let rate = ramp_rate cfg i;
                (t, s) = pass i rate (d_step cfg) (newSeries H);
                p99 = P99 (Summarize H 0 (s_hdr s));
                (flr1, sr1) = (if flr \<le> 0 \<and> i = 0 then (p99, sr\<lparr>sat_floor := p99\<rparr>) else (flr, sr));
                (ok, why) = stepSustainable p99 flr1 (late_fraction H s)
            in if \<not> ok then (False, tot + t, kneeS, Some s, sr1\<lparr>stopRate := rate, reason := why\<rparr>)
               else ramp_from H pass cfg (i + 1) flr1 (tot + t, Some s, Some s, sr1\<lparr>knee := rate\<rparr>))
         else (True, st)))"
  by pat_completeness auto
termination by (relation "measure (\<lambda>(H, pass, cfg, i, flr, st). 24 - i)") auto

declare ramp_from.simps [simp del]

definition ramp ::
  "'h hist_lib \<Rightarrow> 'h pass_fn \<Rightarrow> drive_config \<Rightarrow> duration \<times> 'h series option \<times> sat_result" where
  "ramp H pass cfg =
     (let (capHit, tot, kneeS, lastS, sr) =
            ramp_from H pass cfg 0 (d_floor cfg) (0, None, None, \<lparr>sat_floor = d_floor cfg, knee = 0, stopRate = 0, reason = ''''\<rparr>);
          sr1 = (if capHit then sr\<lparr>reason := ''cap'', stopRate := knee sr\<rparr> else sr)
      in (tot, (case kneeS of None \<Rightarrow> lastS | Some s \<Rightarrow> Some s), sr1))"

definition runSaturation ::
  "'h hist_lib \<Rightarrow> 'u req_cell \<Rightarrow> drive_config \<Rightarrow> (nat \<Rightarrow> 'u open_env) \<Rightarrow> duration \<times> 'h series option \<times> sat_result" where
  "runSaturation H rc cfg oes = ramp H (\<lambda>i. openPass H rc cfg (oes i)) cfg"

section \<open>Cold starts\<close>

text \<open>Each connection fails to dial or carries one request on a fresh job.\<close>

definition coldstart_conn ::
  "'h hist_lib \<Rightarrow> 'u req_cell \<Rightarrow> drive_config \<Rightarrow> envelope \<Rightarrow> nat \<times> (gerr + 'u exchange) \<Rightarrow> 'h series \<Rightarrow> 'h series" where
  "coldstart_conn H rc cfg env conn s =
     (case conn of (i, r) \<Rightarrow>
        (case r of
           Inl err \<Rightarrow> series_record H 0 ''connect'' 0 s
         | Inr ex \<Rightarrow> fst (doOn H rc cfg ex (of_nat i) 0 (s, env))))"

definition runColdstart ::
  "'h hist_lib \<Rightarrow> 'u req_cell \<Rightarrow> drive_config \<Rightarrow> (nat \<Rightarrow> gerr + 'u exchange) option \<Rightarrow> envelope \<Rightarrow> 'h series \<Rightarrow> gerr + 'h series" where
  "runColdstart H rc cfg dial env s =
     (case dial of
        None \<Rightarrow> Inl (Opaque ''mode=coldstart is not supported by this transport (no per-connection dialer)'')
      | Some conn \<Rightarrow> Inr (fold (\<lambda>i. coldstart_conn H rc cfg env (i, conn i)) [0..<nat (d_conns cfg)] s))"

section \<open>The driver's garbage collection\<close>

text \<open>The pauses of the cycles from \<open>gc1 - n\<close> up to \<open>gc1\<close> in the runtime's ring of 256.\<close>

definition gc_pauses :: "32 word \<Rightarrow> 32 word \<Rightarrow> (nat \<Rightarrow> duration) \<Rightarrow> duration list" where
  "gc_pauses gc1 n pauseNs = map (\<lambda>k. pauseNs (unat ((gc1 - n + of_nat k) mod 256))) [0..<unat n]"

definition driverGCProfile :: "32 word \<Rightarrow> 32 word \<Rightarrow> (nat \<Rightarrow> duration) \<Rightarrow> duration \<Rightarrow> duration \<times> rat" where
  "driverGCProfile gc0 gc1 pauseNs elapsed =
     (let n = gc1 - gc0 in
      if n = 0 then (0, 0)
      else (let cyclesPerS = (if elapsed > 0 then fdiv (of_i64 (uint n)) (Seconds elapsed) else 0);
                n1 = (if n > 256 then 256 else n);
                pauses = sort (gc_pauses gc1 n1 pauseNs);
                idx = \<lceil>fmul (fl (99 / 100)) (of_i64 (int (length pauses)))\<rceil> - 1;
                idx1 = (if idx < 0 then 0 else idx)
            in (pauses ! nat idx1, cyclesPerS)))"

section \<open>Driving a cell\<close>

record 'h cell_result =
  r_hdr :: "'h HDR"
  r_elapsed :: duration
  r_wireReq :: int
  r_inflight :: int
  r_rate :: rat
  r_lateSends :: int
  r_missing :: int
  r_sat :: "sat_result option"
  r_srvHDR :: "'h HDR"
  allocsPerMsg :: rat
  allocBytesPerMsg :: rat
  gcPauseP99 :: duration
  gcCyclesPerS :: rat

record memstats =
  Mallocs :: u64
  TotalAlloc :: u64
  NumGC :: "32 word"
  PauseNs :: "nat \<Rightarrow> duration"

text \<open>What a run meets: the connections of a cold start, the environment of each open pass, the end of the
  closed loop, and the two readings of the runtime's statistics.\<close>

record ('u, 'h) drive_env =
  de_dial :: "(nat \<Rightarrow> gerr + 'u exchange) option"
  de_env :: envelope
  de_open :: "nat \<Rightarrow> 'u open_env"
  de_closed :: "'h closed_run"
  de_elapsed :: duration
  de_m0 :: memstats
  de_m1 :: memstats

definition measured ::
  "'h series \<Rightarrow> duration \<Rightarrow> int \<Rightarrow> int \<Rightarrow> rat \<Rightarrow> int \<Rightarrow> sat_result option \<Rightarrow> 'h cell_result" where
  "measured s elapsed wireReq inflight rate missing sat =
     \<lparr>r_hdr = s_hdr s, r_elapsed = elapsed, r_wireReq = wireReq, r_inflight = inflight, r_rate = rate,
      r_lateSends = s_late s, r_missing = missing, r_sat = sat, r_srvHDR = s_srv s,
      allocsPerMsg = 0, allocBytesPerMsg = 0, gcPauseP99 = 0, gcCyclesPerS = 0\<rparr>"

text \<open>The pass of the configured mode; \<open>None\<close> would be the dereference of a ramp without a series.\<close>

definition drive_pass ::
  "'h hist_lib \<Rightarrow> 'u req_cell \<Rightarrow> drive_config \<Rightarrow> ('u, 'h) drive_env \<Rightarrow> int \<Rightarrow> (gerr + 'h cell_result) option" where
  "drive_pass H rc cfg de wireReq =
     (if d_mode cfg = ''coldstart'' then
        (case runColdstart H rc cfg (de_dial de) (de_env de) (newSeries H) of
           Inl err \<Rightarrow> Some (Inl err)
         | Inr s \<Rightarrow> Some (Inr ((measured s (de_elapsed de) wireReq 1 0 0 None)\<lparr>r_lateSends := 0\<rparr>)))
      else if d_mode cfg = ''saturation'' then
        (case runSaturation H rc cfg (de_open de) of
           (elapsed, None, sr) \<Rightarrow> None
         | (elapsed, Some s, sr) \<Rightarrow> Some (Inr (measured s elapsed wireReq (d_inflight cfg) (knee sr) 0 (Some sr))))
      else if d_mode cfg = ''openloop'' then
        (let (elapsed, s) = openPass H rc cfg (de_open de 0) (d_rate cfg) (d_duration cfg) (newSeries H)
         in Some (Inr (measured s elapsed wireReq (d_inflight cfg) (d_rate cfg) 0 None)))
      else if d_mode cfg = ''fault'' then
        (let (elapsed, s) = openPass H rc cfg (de_open de 0) (d_rate cfg) (d_duration cfg) (newSeries H)
         in Some (Inr (measured s elapsed wireReq (d_inflight cfg) (d_rate cfg) (NumErrors (s_hdr s)) None)))
      else
        (let s = w_series (de_closed de)
         in Some (Inr (measured s (de_elapsed de) wireReq (d_inflight cfg) (d_rate cfg) 0 None))))"

definition with_profile :: "'h hist_lib \<Rightarrow> memstats \<Rightarrow> memstats \<Rightarrow> 'h cell_result \<Rightarrow> 'h cell_result" where
  "with_profile H m0 m1 res =
     (let msgs = hdr_Count H (r_hdr res);
          res1 = (if msgs > 0
                  then res\<lparr>allocsPerMsg := fdiv (of_i64 (uint (Mallocs m1 - Mallocs m0))) (of_i64 msgs),
                           allocBytesPerMsg := fdiv (of_i64 (uint (TotalAlloc m1 - TotalAlloc m0))) (of_i64 msgs)\<rparr>
                  else res);
          (p99, cps) = driverGCProfile (NumGC m0) (NumGC m1) (PauseNs m1) (r_elapsed res)
      in res1\<lparr>gcPauseP99 := p99, gcCyclesPerS := cps\<rparr>)"

definition drive ::
  "'h hist_lib \<Rightarrow> 'u req_cell \<Rightarrow> drive_config \<Rightarrow> ('u, 'h) drive_env \<Rightarrow> int \<Rightarrow> (gerr + 'h cell_result) option" where
  "drive H rc cfg0 de wireReq =
     (case drive_validate cfg0 of
        Inl err \<Rightarrow> Some (Inl err)
      | Inr cfg \<Rightarrow> map_option (map_sum id (with_profile H (de_m0 de) (de_m1 de))) (drive_pass H rc cfg de wireReq))"

section \<open>The closed loop is complete\<close>

lemma sum_list_update:
  fixes f :: "'a \<Rightarrow> 'b :: comm_monoid_add"
  assumes "w < length xs"
  shows "sum_list (map f (xs[w := y])) + f (xs ! w) = sum_list (map f xs) + f y"
  using assms
proof (induction xs arbitrary: w)
  case (Cons x xs)
  then show ?case by (cases w) (auto simp: add_ac)
qed simp

lemma doOn_sent:
  assumes "hist_ok H" and "doOn H rc cfg ex sq expected (s, env) = (s', env', ms)"
  shows "sent H s' = sent H s + 1" and "hdr_inv (s_hdr s) \<Longrightarrow> hdr_inv (s_hdr s')" and "s_late s' = s_late s"
proof -
  have r: "sent H (series_record H rtt k e u) = sent H u + 1" "sent H (recordServer H d u) = sent H u"
    "hdr_inv (s_hdr u) \<Longrightarrow> hdr_inv (s_hdr (series_record H rtt k e u))" "s_hdr (recordServer H d u) = s_hdr u"
    "s_late (series_record H rtt k e u) = s_late u" "s_late (recordServer H d u) = s_late u" for rtt k e d u
    using assms(1) by (simp_all add: sent_def series_record_def recordServer_def hdr_inv_error)
  show "sent H s' = sent H s + 1" and "hdr_inv (s_hdr s) \<Longrightarrow> hdr_inv (s_hdr s')" and "s_late s' = s_late s"
    using assms(2) r by (auto simp: doOn_def Let_def split: sum.splits if_splits)
qed

fun busy_of :: "worker \<Rightarrow> int multiset" where
  "busy_of Ready = {#}"
| "busy_of (Busy i) = {#i#}"
| "busy_of Finished = {#}"

fun work_of :: "worker \<Rightarrow> nat" where
  "work_of Ready = 1"
| "work_of (Busy i) = 2"
| "work_of Finished = 0"

definition steps_left :: "drive_config \<Rightarrow> 'h closed_run \<Rightarrow> nat" where
  "steps_left cfg r = 2 * nat (d_n cfg - 1 - w_seq r) + sum_list (map work_of (w_state r))"

definition closed_inv :: "'h hist_lib \<Rightarrow> drive_config \<Rightarrow> 'h closed_run \<Rightarrow> bool" where
  "closed_inv H cfg r \<longleftrightarrow>
     -1 \<le> w_seq r \<and> length (w_state r) = nat (d_inflight cfg) \<and>
     mset (w_log r) + sum_list (map busy_of (w_state r)) = mset (map int [0..<nat (min (w_seq r + 1) (d_n cfg))]) \<and>
     (Finished \<in> set (w_state r) \<longrightarrow> d_n cfg \<le> w_seq r) \<and>
     sent H (w_series r) = int (length (w_log r)) \<and> hdr_inv (s_hdr (w_series r))"

lemma sum_list_empty: "sum_list (replicate n {#}) = {#}"
  by (induction n) simp_all

lemma closed_inv_init: "hist_ok H \<Longrightarrow> closed_inv H cfg (closed_init H cfg env)"
  by (simp add: closed_inv_def closed_init_def newSeries_def sent_def sum_list_empty)

lemma closed_take_inv:
  assumes "closed_inv H cfg r" and "w < length (w_state r)" and "w_state r ! w = Ready"
  shows "closed_inv H cfg (closed_take cfg w r)" and "steps_left cfg r = Suc (steps_left cfg (closed_take cfg w r))"
proof -
  let ?i = "w_seq r + 1" and ?n = "d_n cfg" and ?new = "\<lambda>i. if i \<ge> d_n cfg then Finished else Busy i"
  have seq: "-1 \<le> w_seq r" using assms(1) by (simp add: closed_inv_def)
  note b = sum_list_update [OF assms(2), of busy_of "?new ?i", unfolded assms(3)]
  note k = sum_list_update [OF assms(2), of work_of "?new ?i", unfolded assms(3)]
  have fin: "Finished \<in> set ((w_state r)[w := ?new ?i]) \<longrightarrow> ?n \<le> ?i"
    using assms(1) set_update_subset_insert [of "w_state r" w "?new ?i"] by (auto simp: closed_inv_def)
  have upt: "mset (map int [0..<nat (min (?i + 1) ?n)]) = mset (map int [0..<nat (min ?i ?n)]) + busy_of (?new ?i)"
  proof (cases "?i \<ge> ?n")
    case False
    then have "nat (min (?i + 1) ?n) = Suc (nat ?i)" "nat (min ?i ?n) = nat ?i" "int (nat ?i) = ?i" using seq by auto
    with False show ?thesis by simp
  qed (simp add: min_def)
  show "closed_inv H cfg (closed_take cfg w r)"
    using assms(1) b upt fin by (simp add: closed_inv_def closed_take_def Let_def add.assoc flip: add.assoc)
  show "steps_left cfg r = Suc (steps_left cfg (closed_take cfg w r))"
    using k seq by (auto simp: steps_left_def closed_take_def Let_def split: if_splits)
qed

lemma closed_do_inv:
  assumes "hist_ok H" and "closed_inv H cfg r" and "w < length (w_state r)" and "w_state r ! w = Busy i"
  shows "closed_inv H cfg (closed_do H rc cfg ex w i r)" and "steps_left cfg r = Suc (steps_left cfg (closed_do H rc cfg ex w i r))"
proof -
  obtain s env ms where D: "doOn H rc cfg ex (of_int i) 0 (w_series r, w_env r ! w) = (s, env, ms)" by (metis prod_cases3)
  note b = sum_list_update [OF assms(3), of busy_of Ready, unfolded assms(4)]
  note k = sum_list_update [OF assms(3), of work_of Ready, unfolded assms(4)]
  have fin: "Finished \<in> set ((w_state r)[w := Ready]) \<longrightarrow> d_n cfg \<le> w_seq r"
    using assms(2) set_update_subset_insert [of "w_state r" w Ready] by (auto simp: closed_inv_def)
  have "mset (w_log r @ [i]) + sum_list (map busy_of ((w_state r)[w := Ready])) =
      mset (w_log r) + sum_list (map busy_of (w_state r))"
    using b by (simp add: ac_simps)
  with assms(2) fin doOn_sent [OF assms(1) D] D
  show "closed_inv H cfg (closed_do H rc cfg ex w i r)"
    by (simp add: closed_inv_def closed_do_def)
  show "steps_left cfg r = Suc (steps_left cfg (closed_do H rc cfg ex w i r))"
    using k D by (simp add: steps_left_def closed_do_def)
qed

lemma closed_progress: "steps_left cfg r > 0 \<Longrightarrow> closed_inv H cfg r \<Longrightarrow> 0 < d_inflight cfg \<Longrightarrow> \<exists>r'. closed_step H rc cfg r r'"
proof -
  assume left: "steps_left cfg r > 0" and inv: "closed_inv H cfg r" and "0 < d_inflight cfg"
  then have "w_state r \<noteq> []" by (auto simp: closed_inv_def)
  have "\<not> set (w_state r) \<subseteq> {Finished}"
  proof
    assume fin: "set (w_state r) \<subseteq> {Finished}"
    with \<open>w_state r \<noteq> []\<close> have "Finished \<in> set (w_state r)" by (cases "w_state r") auto
    with inv have "nat (d_n cfg - 1 - w_seq r) = 0" by (simp add: closed_inv_def)
    moreover have "sum_list (map work_of (w_state r)) = 0" using fin by (auto simp: subset_iff)
    ultimately show False using left unfolding steps_left_def by linarith
  qed
  then obtain w where w: "w < length (w_state r)" "w_state r ! w \<noteq> Finished" by (auto simp: in_set_conv_nth subset_iff)
  then show ?thesis by (cases "w_state r ! w") (auto intro: closed_step.intros)
qed

lemma closed_step_inv:
  assumes "closed_step H rc cfg r r'" and "hist_ok H" and "closed_inv H cfg r"
  shows "closed_inv H cfg r' \<and> steps_left cfg r = Suc (steps_left cfg r')"
  using assms(1)
proof (cases rule: closed_step.cases)
  case (take w)
  with closed_take_inv [OF assms(3) take(2,3)] show ?thesis by simp
next
  case (do w i ex)
  with closed_do_inv [OF assms(2,3) do(2,3), of rc ex] show ?thesis by simp
qed

text \<open>The closed loop is a loop whose every step is one of the steps left.\<close>

interpretation cl: exact_loop "closed_step H rc cfg" "\<lambda>r. hist_ok H \<and> 0 < d_inflight cfg \<and> closed_inv H cfg r" "steps_left cfg"
  for H rc cfg
  by unfold_locales (auto dest: closed_step_inv intro: closed_progress)

lemma closed_run_inv:
  assumes "hist_ok H" and "0 < d_inflight cfg" and "(closed_step H rc cfg ^^ k) (closed_init H cfg env) r"
  shows "closed_inv H cfg r \<and> steps_left cfg (closed_init H cfg env) = k + steps_left cfg r"
  using cl.run_bounded [OF _ assms(3)] cl.run_exact [OF _ assms(3)] assms(1,2) closed_inv_init by blast

lemma closed_done:
  assumes "steps_left cfg r = 0" and "closed_inv H cfg r" and "0 < d_inflight cfg"
  shows "set (w_state r) = {Finished}" and "mset (w_log r) = mset (map int [0..<nat (d_n cfg)])"
proof -
  have ne: "w_state r \<noteq> []" using assms(2,3) by (auto simp: closed_inv_def)
  have "\<forall>x \<in> set (w_state r). work_of x = 0" using assms(1) by (simp add: steps_left_def)
  moreover have "x = Finished" if "work_of x = 0" for x using that by (cases x) auto
  ultimately have fin: "\<forall>x \<in> set (w_state r). x = Finished" by blast
  then show f: "set (w_state r) = {Finished}" using ne by (cases "w_state r") auto
  have "d_n cfg \<le> w_seq r" using assms(2) f by (simp add: closed_inv_def)
  moreover have "map busy_of (w_state r) = replicate (length (w_state r)) {#}" using fin by (intro nth_equalityI) (auto, metis busy_of.simps(3) nth_mem)
  then have "sum_list (map busy_of (w_state r)) = {#}" by (simp add: sum_list_empty)
  ultimately show "mset (w_log r) = mset (map int [0..<nat (d_n cfg)])" using assms(2) by (simp add: closed_inv_def min_def)
qed


section \<open>The open loop\<close>

lemma instants_Suc:
  fixes interval dur :: int
  assumes "0 < interval" and "int sq * interval < dur"
  shows "sq < nat ((dur + interval - 1) div interval)"
proof -
  have "(int sq + 1) * interval \<le> dur + interval - 1" using assms(2) by (simp add: algebra_simps)
  then have "int sq + 1 \<le> (dur + interval - 1) div interval" using assms(1) by (metis mult.commute nonzero_mult_div_cancel_left order_less_irrefl zdiv_mono1)
  then show ?thesis by linarith
qed

lemma instants_end:
  fixes interval dur :: int
  assumes "0 < interval" and "\<not> int sq * interval < dur"
  shows "nat ((dur + interval - 1) div interval) \<le> sq"
proof -
  have "(dur + interval - 1) div interval \<le> (int sq * interval + (interval - 1)) div interval"
    using assms by (intro zdiv_mono1) auto
  also have "\<dots> = int sq" using assms(1) by simp
  finally show ?thesis by simp
qed

lemma open_send_spec:
  assumes "0 < interval"
  shows "open_send interval dur since sq =
    ([sq..<nat ((dur + interval - 1) div interval)],
     int (length (filter (\<lambda>i. since i > Millisecond) [sq..<nat ((dur + interval - 1) div interval)])))"
  using assms
proof (induction interval dur since sq rule: open_send.induct)
  case (1 interval dur since sq)
  show ?case
  proof (cases "int sq * interval < dur")
    case True
    let ?N = "nat ((dur + interval - 1) div interval)"
    have "[sq..<?N] = sq # [Suc sq..<?N]" using instants_Suc [OF 1(2) True] by (rule upt_conv_Cons)
    then show ?thesis using 1(1) 1(2) True by (subst open_send.simps) (simp add: Let_def)
  next
    case False
    with instants_end [OF 1(2) False] show ?thesis by (subst open_send.simps) simp
  qed
qed

lemma fold_counts:
  assumes "\<And>x u. sent H (f x u) = sent H u + 1" and "\<And>x u. s_late (f x u) = s_late u"
    and "\<And>x u. hdr_inv (s_hdr u) \<Longrightarrow> hdr_inv (s_hdr (f x u))"
  shows "sent H (fold f xs s) = sent H s + int (length xs) \<and> s_late (fold f xs s) = s_late s \<and>
         (hdr_inv (s_hdr s) \<longrightarrow> hdr_inv (s_hdr (fold f xs s)))"
  by (induction xs arbitrary: s) (auto simp: assms)

lemma doOn_counts:
  assumes "hist_ok H"
  shows "sent H (fst (doOn H rc cfg ex sq e (s, env))) = sent H s + 1"
    and "s_late (fst (doOn H rc cfg ex sq e (s, env))) = s_late s"
    and "hdr_inv (s_hdr s) \<Longrightarrow> hdr_inv (s_hdr (fst (doOn H rc cfg ex sq e (s, env))))"
proof -
  obtain s' env' ms where D: "doOn H rc cfg ex sq e (s, env) = (s', env', ms)" by (metis prod_cases3)
  show "sent H (fst (doOn H rc cfg ex sq e (s, env))) = sent H s + 1"
    and "s_late (fst (doOn H rc cfg ex sq e (s, env))) = s_late s"
    and "hdr_inv (s_hdr s) \<Longrightarrow> hdr_inv (s_hdr (fst (doOn H rc cfg ex sq e (s, env))))"
    using doOn_sent [OF assms D] unfolding D by simp_all
qed

lemma sent_late [simp]: "sent H (s\<lparr>s_late := x\<rparr>) = sent H s"
  by (simp add: sent_def)

lemma newSeries_counts [simp]:
  assumes "hist_ok H"
  shows "sent H (newSeries H) = 0" "s_late (newSeries H) = 0" "hdr_inv (s_hdr (newSeries H))"
  using assms by (simp_all add: newSeries_def sent_def)

lemma open_interval_pos: "1 \<le> open_interval rate"
  by (simp add: open_interval_def Let_def)

text \<open>The number of instants of a pass.\<close>

definition instants :: "rat \<Rightarrow> duration \<Rightarrow> nat" where
  "instants rate dur = nat ((dur + open_interval rate - 1) div open_interval rate)"

lemma openPass_spec:
  assumes "hist_ok H" and "\<And>xs. mset (oe_order oe xs) = mset xs" and "openPass H rc cfg oe rate dur (newSeries H) = (t, s)"
  shows "sent H s = int (instants rate dur)" and "hdr_inv (s_hdr s)"
    and "s_late s = int (length (filter (\<lambda>i. oe_since oe i > Millisecond) [0..<instants rate dur]))"
proof -
  have iv: "0 < open_interval rate" using open_interval_pos [of rate] by simp
  have len: "length (oe_order oe xs) = length xs" for xs using assms(2) [of xs] by (metis size_mset)
  show "sent H s = int (instants rate dur)" and "hdr_inv (s_hdr s)"
    and "s_late s = int (length (filter (\<lambda>i. oe_since oe i > Millisecond) [0..<instants rate dur]))"
    using assms(3) fold_counts [where H = H and xs = "oe_order oe [0..<instants rate dur]" and s = "newSeries H" and
        f = "\<lambda>sq u. fst (doOn H rc cfg (oe_exchange oe sq) (of_nat sq) (open_interval rate) (u, oe_worker oe sq))",
        OF doOn_counts [OF assms(1)]]
    by (auto simp: openPass_def open_send_spec [OF iv] len assms(1) simp flip: instants_def)
qed


section \<open>The ramp\<close>

lemma ramp_rate_exact: "exact64 (d_rate cfg) \<Longrightarrow> ramp_rate cfg i = d_rate cfg * 2 ^ i"
  by (simp add: ramp_rate_def fmul_def fl_times_power)

text \<open>The series and the p99 of a step, and the floor the steps are held against.\<close>

definition step_series :: "'h hist_lib \<Rightarrow> 'h pass_fn \<Rightarrow> drive_config \<Rightarrow> nat \<Rightarrow> 'h series" where
  "step_series H pass cfg i = snd (pass i (ramp_rate cfg i) (d_step cfg) (newSeries H))"

definition step_p99 :: "'h hist_lib \<Rightarrow> 'h pass_fn \<Rightarrow> drive_config \<Rightarrow> nat \<Rightarrow> duration" where
  "step_p99 H pass cfg i = P99 (Summarize H 0 (s_hdr (step_series H pass cfg i)))"

definition ramp_floor :: "'h hist_lib \<Rightarrow> 'h pass_fn \<Rightarrow> drive_config \<Rightarrow> duration" where
  "ramp_floor H pass cfg = (if d_floor cfg \<le> 0 then step_p99 H pass cfg 0 else d_floor cfg)"

definition step_check :: "'h hist_lib \<Rightarrow> 'h pass_fn \<Rightarrow> drive_config \<Rightarrow> nat \<Rightarrow> bool \<times> string" where
  "step_check H pass cfg i =
     stepSustainable (step_p99 H pass cfg i) (ramp_floor H pass cfg) (late_fraction H (step_series H pass cfg i))"

lemma ramp_from_step:
  assumes "i < 24" and "flr = ramp_floor H pass cfg" and "sat_floor sr = flr \<or> 0 < i" and "i = 0 \<longrightarrow> flr \<le> 0 \<longrightarrow> flr = step_p99 H pass cfg 0"
  shows "\<exists>t. ramp_from H pass cfg i flr (tot, K, L, sr) =
     (if fst (step_check H pass cfg i)
      then ramp_from H pass cfg (i + 1) flr (tot + t, Some (step_series H pass cfg i), Some (step_series H pass cfg i), sr\<lparr>knee := ramp_rate cfg i\<rparr>)
      else (False, tot + t, K, Some (step_series H pass cfg i),
            sr\<lparr>stopRate := ramp_rate cfg i, reason := snd (step_check H pass cfg i)\<rparr>))"
proof -
  obtain t s where P: "pass i (ramp_rate cfg i) (d_step cfg) (newSeries H) = (t, s)" by (metis prod.exhaust)
  have s: "s = step_series H pass cfg i" "P99 (Summarize H 0 (s_hdr s)) = step_p99 H pass cfg i"
    using P by (simp_all add: step_series_def step_p99_def)
  obtain ok why where C: "step_check H pass cfg i = (ok, why)" by (metis prod.exhaust)
  have S: "stepSustainable (step_p99 H pass cfg i) flr (late_fraction H s) = (ok, why)"
    using C assms(2) s(1) by (simp add: step_check_def)
  have F: "(if flr \<le> 0 \<and> i = 0 then (step_p99 H pass cfg i, sr\<lparr>sat_floor := step_p99 H pass cfg i\<rparr>) else (flr, sr)) = (flr, sr)"
    using assms(3,4) by auto
  have "ramp_from H pass cfg i flr (tot, K, L, sr) =
     (if ok then ramp_from H pass cfg (i + 1) flr (tot + t, Some s, Some s, sr\<lparr>knee := ramp_rate cfg i\<rparr>)
      else (False, tot + t, K, Some s, sr\<lparr>stopRate := ramp_rate cfg i, reason := why\<rparr>))"
    by (subst ramp_from.simps) (cases ok; simp only: prod.case if_True if_False Let_def P S s(2) F assms(1) not_True_eq_False not_False_eq_True)
  then show ?thesis unfolding C s(1) by auto
qed

text \<open>The verdict of the loop when the steps before \<open>k\<close> hold and step \<open>k\<close>, if there is one, does not.\<close>

lemma ramp_from_spec:
  assumes "i \<le> k" and "k \<le> 24" and "\<And>j. i \<le> j \<Longrightarrow> j < k \<Longrightarrow> fst (step_check H pass cfg j)"
    and "k < 24 \<Longrightarrow> \<not> fst (step_check H pass cfg k)"
    and "sat_floor sr = ramp_floor H pass cfg" and "ramp_floor H pass cfg \<le> 0 \<longrightarrow> ramp_floor H pass cfg = step_p99 H pass cfg 0"
  shows "\<exists>tot' L'. ramp_from H pass cfg i (ramp_floor H pass cfg) (tot, K, L, sr) =
    (k = 24, tot', (if i = k then K else Some (step_series H pass cfg (k - 1))), L',
     (let sr1 = (if i = k then sr else sr\<lparr>knee := ramp_rate cfg (k - 1)\<rparr>)
      in if k < 24 then sr1\<lparr>stopRate := ramp_rate cfg k, reason := snd (step_check H pass cfg k)\<rparr> else sr1)) \<and>
    (k < 24 \<longrightarrow> L' = Some (step_series H pass cfg k))"
  using assms(1,3,5)
proof (induction "k - i" arbitrary: i tot K L sr)
  case 0
  then have i: "i = k" by simp
  show ?case
  proof (cases "k < 24")
    case True
    from ramp_from_step [OF True refl, where H = H and pass = pass and cfg = cfg and sr = sr and tot = tot and K = K and L = L] assms(4) [OF True] 0(4) assms(6) i True
    show ?thesis by auto
  next
    case False
    with assms(2) i show ?thesis by (subst ramp_from.simps) simp
  qed
next
  case (Suc n)
  then have lt: "i < k" "i < 24" using assms(2) by auto
  let ?S = "step_series H pass cfg i"
  obtain t where R: "ramp_from H pass cfg i (ramp_floor H pass cfg) (tot, K, L, sr) =
      ramp_from H pass cfg (i + 1) (ramp_floor H pass cfg) (tot + t, Some ?S, Some ?S, sr\<lparr>knee := ramp_rate cfg i\<rparr>)"
    using ramp_from_step [OF lt(2) refl, where H = H and pass = pass and cfg = cfg and sr = sr and tot = tot and K = K and L = L] Suc.prems(2) [of i] lt Suc.prems(3) assms(6) by auto
  have "n = k - (i + 1)" "i + 1 \<le> k" using Suc.hyps(2) lt by auto
  note IH = Suc.hyps(1) [OF this, of "sr\<lparr>knee := ramp_rate cfg i\<rparr>" "tot + t" "Some ?S" "Some ?S"]
  show ?case unfolding R using IH Suc.prems lt by (auto simp: Let_def split: if_splits)
qed


lemma ramp_verdict:
  obtains k where "k \<le> 24" and "\<forall>i < k. fst (step_check H pass cfg i)" and "k < 24 \<longrightarrow> \<not> fst (step_check H pass cfg k)"
proof -
  define k where "k = (LEAST k. k = 24 \<or> \<not> fst (step_check H pass cfg k))"
  have "k = 24 \<or> \<not> fst (step_check H pass cfg k)" unfolding k_def by (rule LeastI [of _ 24]) simp
  moreover have "k \<le> 24" unfolding k_def by (rule Least_le) simp
  moreover have "\<forall>i < k. fst (step_check H pass cfg i)" using not_less_Least unfolding k_def by blast
  ultimately show ?thesis using that [of k] by auto
qed

lemma ramp_start:
  assumes "0 \<le> d_floor cfg"
  shows "\<exists>sr0. ramp_from H pass cfg 0 (d_floor cfg) (0, None, None, \<lparr>sat_floor = d_floor cfg, knee = 0, stopRate = 0, reason = ''''\<rparr>) =
     ramp_from H pass cfg 0 (ramp_floor H pass cfg) (0, None, None, sr0) \<and>
     sr0 = \<lparr>sat_floor = ramp_floor H pass cfg, knee = 0, stopRate = 0, reason = ''''\<rparr>"
proof (cases "d_floor cfg = 0")
  case True
  obtain t s where P: "pass 0 (ramp_rate cfg 0) (d_step cfg) (newSeries H) = (t, s)" by (metis prod.exhaust)
  have p: "P99 (Summarize H 0 (s_hdr s)) = step_p99 H pass cfg 0" "ramp_floor H pass cfg = step_p99 H pass cfg 0"
    using P True by (simp_all add: step_p99_def step_series_def ramp_floor_def)
  show ?thesis unfolding p(2) by (subst (1 2) ramp_from.simps) (simp add: P p(1) True Let_def split: prod.split)
qed (use assms in \<open>simp add: ramp_floor_def\<close>)

definition verdict :: "'h hist_lib \<Rightarrow> 'h pass_fn \<Rightarrow> drive_config \<Rightarrow> nat \<Rightarrow> sat_result" where
  "verdict H pass cfg k =
     \<lparr>sat_floor = ramp_floor H pass cfg, knee = (if k = 0 then 0 else ramp_rate cfg (k - 1)),
      stopRate = (if k = 24 then ramp_rate cfg 23 else ramp_rate cfg k),
      reason = (if k = 24 then ''cap'' else snd (step_check H pass cfg k))\<rparr>"

lemma ramp_spec:
  assumes "0 \<le> d_floor cfg"
  shows "\<exists>tot k. ramp H pass cfg = (tot, Some (step_series H pass cfg (k - 1)), verdict H pass cfg k) \<and> k \<le> 24 \<and>
           (\<forall>i < k. fst (step_check H pass cfg i)) \<and> (k < 24 \<longrightarrow> \<not> fst (step_check H pass cfg k))"
proof -
  obtain k where k: "k \<le> 24" "\<forall>i < k. fst (step_check H pass cfg i)" "k < 24 \<longrightarrow> \<not> fst (step_check H pass cfg k)"
    by (rule ramp_verdict)
  have f0: "ramp_floor H pass cfg \<le> 0 \<longrightarrow> ramp_floor H pass cfg = step_p99 H pass cfg 0"
    using assms by (auto simp: ramp_floor_def)
  let ?sr = "\<lparr>sat_floor = ramp_floor H pass cfg, knee = 0, stopRate = 0, reason = ''''\<rparr>"
  obtain tot L where R: "ramp_from H pass cfg 0 (ramp_floor H pass cfg) (0, None, None, ?sr) =
    (k = 24, tot, (if 0 = k then None else Some (step_series H pass cfg (k - 1))), L,
     (let sr1 = (if 0 = k then ?sr else ?sr\<lparr>knee := ramp_rate cfg (k - 1)\<rparr>)
      in if k < 24 then sr1\<lparr>stopRate := ramp_rate cfg k, reason := snd (step_check H pass cfg k)\<rparr> else sr1))"
    and L: "k < 24 \<longrightarrow> L = Some (step_series H pass cfg k)"
    using ramp_from_spec [of 0 k H pass cfg ?sr 0 None None] k f0 by auto
  have start: "ramp_from H pass cfg 0 (d_floor cfg) (0, None, None, \<lparr>sat_floor = d_floor cfg, knee = 0, stopRate = 0, reason = ''''\<rparr>) =
      ramp_from H pass cfg 0 (ramp_floor H pass cfg) (0, None, None, ?sr)"
    using ramp_start [OF assms] by blast
  consider "k = 0" | "0 < k" "k < 24" | "k = 24" using k(1) by linarith
  then have "ramp H pass cfg = (tot, Some (step_series H pass cfg (k - 1)), verdict H pass cfg k)"
    by cases (use L in \<open>simp_all add: ramp_def start R verdict_def Let_def\<close>)
  with k show ?thesis by blast
qed

section \<open>Properties\<close>

text \<open>C17. The closed loop under every interleaving of its workers.  After the validation of a latency or
  windowed configuration, a run never takes more than twice the message budget plus the number of
  workers steps, and while it has taken fewer some worker can move: it always ends, after exactly that
  many steps.  Until then no sequence number is sent twice and every request sent has exactly one
  recorded outcome; at the end every worker has finished, every sequence number from zero to the budget
  was sent exactly once, and samples plus errors are the budget.\<close>

theorem closed_loop_complete:
  assumes "hist_ok H" and "drive_validate cfg0 = Inr cfg" and "d_mode cfg0 = ''latency'' \<or> d_mode cfg0 = ''windowed''"
    and "(closed_step H rc cfg ^^ k) (closed_init H cfg env) r"
  shows "k \<le> 2 * nat (d_n cfg) + nat (d_inflight cfg) \<and>
         (k < 2 * nat (d_n cfg) + nat (d_inflight cfg) \<longrightarrow> (\<exists>r'. closed_step H rc cfg r r')) \<and>
         distinct (w_log r) \<and> set (w_log r) \<subseteq> {0..<d_n cfg} \<and>
         hdr_Count H (s_hdr (w_series r)) + NumErrors (s_hdr (w_series r)) = int (length (w_log r)) \<and>
         (k = 2 * nat (d_n cfg) + nat (d_inflight cfg) \<longrightarrow>
            set (w_state r) = {Finished} \<and> set (w_log r) = {0..<d_n cfg} \<and>
            hdr_Count H (s_hdr (w_series r)) + NumErrors (s_hdr (w_series r)) = d_n cfg)"
proof -
  have pos: "0 < d_inflight cfg" "0 < d_n cfg"
    using assms(2,3) by (auto simp: drive_validate_def Let_def split: if_splits)
  have inv: "closed_inv H cfg r" and left: "steps_left cfg (closed_init H cfg env) = k + steps_left cfg r"
    using closed_run_inv [OF assms(1) pos(1) assms(4)] by auto
  have init: "steps_left cfg (closed_init H cfg env) = 2 * nat (d_n cfg) + nat (d_inflight cfg)"
    by (simp add: steps_left_def closed_init_def sum_list_replicate)
  have log: "mset (w_log r) \<subseteq># mset (map int [0..<nat (min (w_seq r + 1) (d_n cfg))])"
    using inv unfolding closed_inv_def by (metis mset_subset_eq_add_left)
  have sub: "distinct (w_log r)" "set (w_log r) \<subseteq> {0..<d_n cfg}"
    using distinct_subseteq_mset [OF log] set_subseteq_mset [OF log] by (auto simp: distinct_map)
  have cnt: "hdr_Count H (s_hdr (w_series r)) + NumErrors (s_hdr (w_series r)) = int (length (w_log r))"
    using inv by (simp add: closed_inv_def sent_def)
  have fin: "set (w_state r) = {Finished} \<and> set (w_log r) = {0..<d_n cfg} \<and> int (length (w_log r)) = d_n cfg"
    if "k = 2 * nat (d_n cfg) + nat (d_inflight cfg)"
  proof -
    have z: "steps_left cfg r = 0" using that left init by simp
    note D = closed_done [OF z inv pos(1)]
    have "set (w_log r) = int ` {0..<nat (d_n cfg)}" using mset_eq_setD [OF D(2)] by simp
    moreover have "length (w_log r) = nat (d_n cfg)" using mset_eq_length [OF D(2)] by simp
    moreover have "int ` {0..<nat (d_n cfg)} = {0..<d_n cfg}" using pos(2) image_int_atLeastLessThan [of 0 "nat (d_n cfg)"] by simp
    ultimately show ?thesis using D(1) pos(2) by simp
  qed
  have prog: "\<exists>r'. closed_step H rc cfg r r'" if "k < 2 * nat (d_n cfg) + nat (d_inflight cfg)"
    using closed_progress [OF _ inv pos(1)] that left init by simp
  show ?thesis using left init sub cnt fin prog by auto
qed


text \<open>A histogram that only counts, and a cell whose requests are all answered.\<close>

definition count_hist :: "int hist_lib" where
  "count_hist = \<lparr>h_new = 0, h_record = (\<lambda>v h. h + 1), h_corrected = (\<lambda>v e h. h + 1), h_total = (\<lambda>h. h), h_min = (\<lambda>h. 1), h_max = (\<lambda>h. 1),
     h_mean = (\<lambda>h. 1), h_quantile = (\<lambda>q h. 1), h_print = (\<lambda>h. Inr '''')\<rparr>"

lemma count_hist_ok: "hist_ok count_hist"
  by (simp add: hist_ok_def count_hist_def)

definition demo_cell :: "bytes req_cell" where
  "demo_cell = \<lparr>rc_marshal = (\<lambda>u. Inr u), rc_cenum = CODEC_PROTO, rc_tenum = TRANSPORT_GRPC_UNARY,
     rc_cell = \<lparr>c_Transport = ''grpc_unary'', c_Codec = ''proto'', c_Fixture = ''tiny'', c_Pool = ''all'', c_GC = ''default'', c_Mode = ''latency'',
       c_Region = ''eu'', c_Role = ''client'', c_Tier = ''rpc''\<rparr>\<rparr>"

definition demo_exchange :: "bytes exchange" where
  "demo_exchange = \<lparr>ex_uuid = Inr [7], ex_now = 0, ex_answer = (\<lambda>e. Inr (Some e)), ex_rtt = 5\<rparr>"

definition demo_config :: drive_config where
  "demo_config = \<lparr>d_mode = ''latency'', d_n = 1, d_inflight = 0, d_rate = 2, d_duration = 10, d_step = 1, d_floor = 1, d_conns = 0,
     d_timeout = 1, d_runID = ''r'', d_fixture = ''tiny''\<rparr>"

theorem closed_loop_complete_witness:
  "\<exists>cfg r. drive_validate demo_config = Inr cfg \<and>
     (closed_step count_hist demo_cell cfg ^^ 3) (closed_init count_hist cfg zero_envelope) r \<and> set (w_log r) = {0..<1}"
proof -
  let ?cfg = "demo_config\<lparr>d_inflight := 1\<rparr>"
  have v: "drive_validate demo_config = Inr ?cfg" by (simp add: drive_validate_def demo_config_def)
  define r0 where "r0 = closed_init count_hist ?cfg zero_envelope"
  define r1 where "r1 = closed_take ?cfg 0 r0"
  define r2 where "r2 = closed_do count_hist demo_cell ?cfg demo_exchange 0 0 r1"
  have r0: "w_state r0 = [Ready]" "w_seq r0 = -1" by (simp_all add: r0_def closed_init_def demo_config_def)
  have r1: "w_state r1 = [Busy 0]" using r0 by (simp add: r1_def closed_take_def demo_config_def Let_def)
  have r2: "w_state r2 = [Ready]" using r1 by (simp add: r2_def closed_do_def case_prod_unfold Let_def)
  have s1: "closed_step count_hist demo_cell ?cfg r0 r1" unfolding r1_def by (rule closed_step.take) (use r0 in auto)
  have s2: "closed_step count_hist demo_cell ?cfg r1 r2" unfolding r2_def by (rule closed_step.do) (use r1 in auto)
  have s3: "closed_step count_hist demo_cell ?cfg r2 (closed_take ?cfg 0 r2)" by (rule closed_step.take) (use r2 in auto)
  have "(closed_step count_hist demo_cell ?cfg ^^ 3) r0 (closed_take ?cfg 0 r2)"
    using s1 s2 s3 by (auto simp: numeral_3_eq_3)
  with closed_loop_complete [OF count_hist_ok v _ this [unfolded r0_def]] show ?thesis
    using v r0_def by (auto simp: demo_config_def)
qed

text \<open>The saturation ramp.  It always ends, with a series to report.  For a base rate that is a float, the
  steps run at exactly the base rate times the powers of two, against one floor, the configured one or the
  first step's p99.  There is a step such that all before it hold and it does not, or there is none below the
  cap; the knee is the rate of the last step that held, zero if the first did not, the series is that step's,
  the stop rate is the failing step's or, at the cap, the knee, and the reason names the bound the failing
  step broke, p99 before lateness.\<close>

theorem ramp_knee:
  assumes "exact64 (d_rate cfg)" and "0 \<le> d_floor cfg"
    and "flr = (if d_floor cfg = 0 then p99 0 else d_floor cfg)"
    and "\<forall>i. ser i = snd (pass i (d_rate cfg * 2 ^ i) (d_step cfg) (newSeries H))"
    and "\<forall>i. p99 i = P99 (Summarize H 0 (s_hdr (ser i)))"
    and "\<forall>i. too_slow i \<longleftrightarrow> 0 < flr \<and> wrap64 (10 * flr) < p99 i"
    and "\<forall>i. too_late i \<longleftrightarrow> fl (1 / 100) < late_fraction H (ser i)"
  shows "\<exists>tot sr k. ramp H pass cfg = (tot, Some (ser (k - 1)), sr) \<and> k \<le> 24 \<and>
           (\<forall>i < k. \<not> too_slow i \<and> \<not> too_late i) \<and> (k < 24 \<longrightarrow> too_slow k \<or> too_late k) \<and>
           sat_floor sr = flr \<and> knee sr = (if k = 0 then 0 else d_rate cfg * 2 ^ (k - 1)) \<and>
           stopRate sr = d_rate cfg * 2 ^ min k 23 \<and>
           reason sr = (if k = 24 then ''cap'' else if too_slow k then ''p99'' else ''late'')"
proof -
  have rate: "ramp_rate cfg i = d_rate cfg * 2 ^ i" for i using assms(1) by (rule ramp_rate_exact)
  have ser: "step_series H pass cfg i = ser i" and p: "step_p99 H pass cfg i = p99 i" for i
    using assms(4,5) by (simp_all add: step_series_def step_p99_def rate)
  have flr: "ramp_floor H pass cfg = flr" using assms(2,3) p by (auto simp: ramp_floor_def)
  have chk: "step_check H pass cfg i = (\<not> too_slow i \<and> \<not> too_late i, if too_slow i then ''p99'' else if too_late i then ''late'' else '''')" for i
    using assms(6,7) by (simp add: step_check_def stepSustainable_def flr ser p)
  obtain tot k where k: "k \<le> 24" "\<forall>i < k. fst (step_check H pass cfg i)" "k < 24 \<longrightarrow> \<not> fst (step_check H pass cfg k)"
    and R: "ramp H pass cfg = (tot, Some (step_series H pass cfg (k - 1)), verdict H pass cfg k)"
    using ramp_spec [OF assms(2)] by blast
  have steps: "\<forall>i < k. \<not> too_slow i \<and> \<not> too_late i" "k < 24 \<longrightarrow> too_slow k \<or> too_late k" using k(2,3) chk by auto
  moreover have "sat_floor (verdict H pass cfg k) = flr" "knee (verdict H pass cfg k) = (if k = 0 then 0 else d_rate cfg * 2 ^ (k - 1))"
    "stopRate (verdict H pass cfg k) = d_rate cfg * 2 ^ min k 23"
    "reason (verdict H pass cfg k) = (if k = 24 then ''cap'' else if too_slow k then ''p99'' else ''late'')"
    using k(1) steps(2) by (auto simp: verdict_def rate flr chk min_def)
  moreover have "ramp H pass cfg = (tot, Some (ser (k - 1)), verdict H pass cfg k)" using R ser by simp
  ultimately show ?thesis using k(1) by blast
qed


theorem ramp_knee_witness:
  "\<exists>tot sr k. ramp count_hist (\<lambda>i rate dur s. (dur, if i < 3 then s else s\<lparr>s_hdr := Record count_hist 7 (s_hdr s), s_late := 1\<rparr>)) demo_config =
      (tot, Some (newSeries count_hist), sr) \<and> k \<le> 24 \<and> knee sr = 2 * 2 ^ (k - 1) \<and> reason sr = ''late''"
proof -
  let ?pass = "\<lambda>i rate dur s. (dur, if i < 3 then s else s\<lparr>s_hdr := Record count_hist 7 (s_hdr s), s_late := 1\<rparr>)"
  define ser :: "nat \<Rightarrow> int series" where "ser = (\<lambda>i. if i < 3 then newSeries count_hist
                   else (newSeries count_hist)\<lparr>s_hdr := Record count_hist 7 (NewHDR count_hist), s_late := 1\<rparr>)"
  let ?p = "\<lambda>i. P99 (Summarize count_hist 0 (s_hdr (ser i)))"
  have p: "?p i = (if i < 3 then 0 else 1)" for i
    by (simp add: ser_def Summarize_def count_hist_def newSeries_def NewHDR_def Record_def)
  have one: "of_i64 1 = 1" by (rule of_i64_exact [of 1, simplified])
  have late: "late_fraction count_hist (ser i) = (if i < 3 then 0 else fl 1)" for i
    by (simp add: ser_def late_fraction_def sent_def hdr_Count_def NumErrors_def newSeries_def NewHDR_def Record_def count_hist_def one fdiv_def)
  have ex: "exact64 2" "exact64 1" using fl_of_int [of 2] fl_of_int [of 1] by simp_all
  have half: "fl (1 / 2) = 1 / 2" using exact64_fl [OF fl_scaled [of 1 "-1"]] by simp
  have "fl (1 / 100) \<le> fl (1 / 2)" by (rule fl_mono) simp
  then have flf: "fl (1 / 100) < 1" using half by linarith
  have flf0: "\<not> fl (1 / 100) < 0" using fl_nonneg [of "1 / 100"] by linarith
  obtain tot sr k where R: "ramp count_hist ?pass demo_config = (tot, Some (ser (k - 1)), sr)" "k \<le> 24"
    "\<forall>i < k. \<not> (0 < (1 :: int) \<and> wrap64 (10 * 1) < ?p i) \<and> \<not> fl (1 / 100) < late_fraction count_hist (ser i)"
    "k < 24 \<longrightarrow> (0 < (1 :: int) \<and> wrap64 (10 * 1) < ?p k) \<or> fl (1 / 100) < late_fraction count_hist (ser k)"
    "knee sr = (if k = 0 then 0 else d_rate demo_config * 2 ^ (k - 1))"
    "reason sr = (if k = 24 then ''cap'' else if 0 < (1 :: int) \<and> wrap64 (10 * 1) < ?p k then ''p99'' else ''late'')"
    using ramp_knee [of demo_config 1 ?p ser ?pass count_hist "\<lambda>i. 0 < (1 :: int) \<and> wrap64 (10 * 1) < ?p i"
        "\<lambda>i. fl (1 / 100) < late_fraction count_hist (ser i)"] ex
    by (auto simp: demo_config_def newSeries_def ser_def)
  have w: "wrap64 10 = 10" by (simp add: wrap64_def)
  have "k = 3"
  proof (rule linorder_cases [of k 3])
    assume "k < 3"
    with R(4) show ?thesis using p flf0 w late by auto
  next
    assume "3 < k"
    with R(3) have "\<not> fl (1 / 100) < late_fraction count_hist (ser 3)" by blast
    then show ?thesis using late [of 3] flf ex by simp
  qed
  moreover from this have "reason sr = ''late''" "ser (k - 1) = newSeries count_hist" "knee sr = 2 * 2 ^ (k - 1)"
    using R(5,6) p [of 3] w by (simp_all add: demo_config_def) (simp add: ser_def)
  ultimately show ?thesis using R(1,2) by metis
qed


section \<open>Accounting across the modes\<close>

lemma with_profile_keeps [simp]:
  "r_hdr (with_profile H m0 m1 res) = r_hdr res" "r_missing (with_profile H m0 m1 res) = r_missing res"
  "r_lateSends (with_profile H m0 m1 res) = r_lateSends res" "r_rate (with_profile H m0 m1 res) = r_rate res"
  by (simp_all add: with_profile_def Let_def split: prod.split)

lemma coldstart_counts:
  assumes "hist_ok H"
  shows "sent H (fold (\<lambda>i. coldstart_conn H rc cfg env (i, conn i)) xs (newSeries H)) = int (length xs) \<and>
         hdr_inv (s_hdr (fold (\<lambda>i. coldstart_conn H rc cfg env (i, conn i)) xs (newSeries H)))"
proof -
  have r: "sent H (series_record H rtt k e u) = sent H u + 1" "s_late (series_record H rtt k e u) = s_late u"
    "hdr_inv (s_hdr u) \<Longrightarrow> hdr_inv (s_hdr (series_record H rtt k e u))" for rtt k e u
    using assms by (simp_all add: sent_def series_record_def hdr_inv_error)
  have "sent H (coldstart_conn H rc cfg env (i, conn i) u) = sent H u + 1"
    "s_late (coldstart_conn H rc cfg env (i, conn i) u) = s_late u"
    "hdr_inv (s_hdr u) \<Longrightarrow> hdr_inv (s_hdr (coldstart_conn H rc cfg env (i, conn i) u))" for i u
    using r by (simp_all add: coldstart_conn_def doOn_counts [OF assms] split: sum.split)
  from fold_counts [where f = "\<lambda>i. coldstart_conn H rc cfg env (i, conn i)", OF this] assms show ?thesis by simp
qed

lemma drive_validate_floor: "drive_validate c = Inr c' \<Longrightarrow> d_mode c' = ''saturation'' \<Longrightarrow> 0 \<le> d_floor c'"
  by (auto simp: drive_validate_def Let_def split: if_splits)

lemma drive_validate_mode: "drive_validate c = Inr c' \<Longrightarrow> d_mode c' = d_mode c"
  by (auto simp: drive_validate_def Let_def split: if_splits)

lemma drive_validate_modes: "drive_validate c = Inr c' \<Longrightarrow>
    d_mode c' \<in> {''latency'', ''windowed'', ''openloop'', ''saturation'', ''coldstart'', ''fault''} \<and> 0 < d_inflight c' \<and>
    (d_mode c' \<in> {''latency'', ''windowed''} \<longrightarrow> 0 < d_n c') \<and> (d_mode c' = ''coldstart'' \<longrightarrow> 0 < d_conns c')"
  by (auto simp: drive_validate_def Let_def split: if_splits)

lemma drive_result:
  assumes "drive_validate cfg0 = Inr cfg" and "drive_pass H rc cfg de wireReq = Some (Inr res0)"
  shows "\<exists>res. drive H rc cfg0 de wireReq = Some (Inr res) \<and> r_hdr res = r_hdr res0 \<and> r_missing res = r_missing res0"
  using assms by (simp add: drive_def)

text \<open>C18. Nothing is lost from a measurement.  Whatever the mode, and whatever the transport answers, a valid
  configuration always gives a result (a cold start needs a dialer), in which the samples and the errors
  together are exactly the requests of the pass: the message budget of a closed loop that has run to its
  end, the connections of a cold start, the intended instants of an open loop, of a fault window, or of
  the ramp step reported; the per-kind error counts add up to the errors; and a fault run reports exactly
  the requests without a valid reply as missing.\<close>

theorem drive_accounts:
  assumes "hist_ok H" and "drive_validate cfg0 = Inr cfg" and "\<forall>i xs. mset (oe_order (de_open de i) xs) = mset xs"
    and "d_mode cfg \<in> {''latency'', ''windowed''} \<longrightarrow>
           (closed_step H rc cfg ^^ (2 * nat (d_n cfg) + nat (d_inflight cfg))) (closed_init H cfg env) (de_closed de)"
    and "d_mode cfg = ''coldstart'' \<longrightarrow> de_dial de \<noteq> None"
  shows "\<exists>res. drive H rc cfg0 de wireReq = Some (Inr res) \<and>
           (\<exists>j < 24. hdr_Count H (r_hdr res) + NumErrors (r_hdr res) =
              (if d_mode cfg \<in> {''latency'', ''windowed''} then d_n cfg
               else if d_mode cfg = ''coldstart'' then d_conns cfg
               else if d_mode cfg = ''saturation'' then int (instants (ramp_rate cfg j) (d_step cfg))
               else int (instants (d_rate cfg) (d_duration cfg)))) \<and>
           NumErrors (r_hdr res) = sum_list (map snd (errKinds (r_hdr res))) \<and>
           r_missing res = (if d_mode cfg = ''fault'' then NumErrors (r_hdr res) else 0)"
proof -
  note V = drive_validate_modes [OF assms(2)]
  have main: ?thesis
    if "drive_pass H rc cfg de wireReq = Some (Inr res0)" "hdr_inv (r_hdr res0)" "j < 24"
      "hdr_Count H (r_hdr res0) + NumErrors (r_hdr res0) =
              (if d_mode cfg \<in> {''latency'', ''windowed''} then d_n cfg
               else if d_mode cfg = ''coldstart'' then d_conns cfg
               else if d_mode cfg = ''saturation'' then int (instants (ramp_rate cfg j) (d_step cfg))
               else int (instants (d_rate cfg) (d_duration cfg)))"
      "r_missing res0 = (if d_mode cfg = ''fault'' then NumErrors (r_hdr res0) else 0)" for res0 j
  proof -
    note T = that
    obtain res where "drive H rc cfg0 de wireReq = Some (Inr res)" "r_hdr res = r_hdr res0" "r_missing res = r_missing res0"
      using drive_result [OF assms(2) T(1)] by blast
    moreover have "NumErrors (r_hdr res0) = sum_list (map snd (errKinds (r_hdr res0)))"
      using that(2) by (simp add: hdr_inv_def NumErrors_def)
    ultimately show ?thesis using T(3,4,5) by (intro exI [of _ res] conjI exI [of _ j]) simp_all
  qed
  consider "d_mode cfg \<in> {''latency'', ''windowed''}" | "d_mode cfg = ''coldstart''" | "d_mode cfg = ''saturation''"
    | "d_mode cfg \<in> {''openloop'', ''fault''}" using V by auto
  then show ?thesis
  proof cases
    case 1
    let ?r = "de_closed de"
    have "0 < d_inflight cfg" using V 1 by auto
    from closed_run_inv [OF assms(1) this, where rc = rc and env = env and r = ?r] assms(4) 1
    have I: "closed_inv H cfg ?r" and "steps_left cfg (closed_init H cfg env) = 2 * nat (d_n cfg) + nat (d_inflight cfg) + steps_left cfg ?r" by auto
    then have "steps_left cfg ?r = 0" by (simp add: steps_left_def closed_init_def sum_list_replicate)
    then have "int (length (w_log ?r)) = d_n cfg" using mset_eq_length [OF closed_done(2) [OF _ I]] V 1 by auto
    then have "sent H (w_series ?r) = d_n cfg" "hdr_inv (s_hdr (w_series ?r))" using I by (simp_all add: closed_inv_def)
    with 1 show ?thesis
      by (intro main [of "measured (w_series ?r) (de_elapsed de) wireReq (d_inflight cfg) (d_rate cfg) 0 None" 0])
         (auto simp: drive_pass_def measured_def sent_def Let_def)
  next
    case 2
    then obtain conn where c: "de_dial de = Some conn" using assms(5) by auto
    let ?s = "fold (\<lambda>i. coldstart_conn H rc cfg (de_env de) (i, conn i)) [0..<nat (d_conns cfg)] (newSeries H)"
    from coldstart_counts [OF assms(1), of rc cfg "de_env de" conn "[0..<nat (d_conns cfg)]"] 2 c V show ?thesis
      by (intro main [of "(measured ?s (de_elapsed de) wireReq 1 0 0 None)\<lparr>r_lateSends := 0\<rparr>" 0])
         (auto simp: drive_pass_def runColdstart_def measured_def sent_def)
  next
    case 3
    let ?pass = "\<lambda>i. openPass H rc cfg (de_open de i)"
    obtain tot k where R: "ramp H ?pass cfg = (tot, Some (step_series H ?pass cfg (k - 1)), verdict H ?pass cfg k)" "k \<le> 24"
      using ramp_spec [OF drive_validate_floor [OF assms(2) 3]] by blast
    obtain t s where S: "openPass H rc cfg (de_open de (k - 1)) (ramp_rate cfg (k - 1)) (d_step cfg) (newSeries H) = (t, s)" by (metis prod.exhaust)
    have "step_series H ?pass cfg (k - 1) = s" using S by (simp add: step_series_def)
    with R openPass_spec(1,2) [OF assms(1) _ S] assms(3) 3 show ?thesis
      by (intro main [of "measured s tot wireReq (d_inflight cfg) (knee (verdict H ?pass cfg k)) 0 (Some (verdict H ?pass cfg k))" "k - 1"])
         (auto simp: drive_pass_def runSaturation_def measured_def sent_def)
  next
    case 4
    obtain t s where S: "openPass H rc cfg (de_open de 0) (d_rate cfg) (d_duration cfg) (newSeries H) = (t, s)" by (metis prod.exhaust)
    from openPass_spec(1,2) [OF assms(1) _ S] assms(3) 4 S show ?thesis
      by (intro main [of "measured s t wireReq (d_inflight cfg) (d_rate cfg) (if d_mode cfg = ''fault'' then NumErrors (s_hdr s) else 0) None" 0])
         (auto simp: drive_pass_def measured_def sent_def)
  qed
qed

theorem drive_accounts_witness:
  "\<exists>res. drive count_hist demo_cell (demo_config\<lparr>d_mode := ''fault''\<rparr>)
     \<lparr>de_dial = None, de_env = zero_envelope,
      de_open = (\<lambda>i. \<lparr>oe_since = (\<lambda>_. 0), oe_order = rev, oe_worker = (\<lambda>_. zero_envelope), oe_exchange = (\<lambda>_. demo_exchange), oe_elapsed = 1\<rparr>),
      de_closed = closed_init count_hist demo_config zero_envelope, de_elapsed = 1,
      de_m0 = \<lparr>Mallocs = 0, TotalAlloc = 0, NumGC = 0, PauseNs = (\<lambda>_. 0)\<rparr>,
      de_m1 = \<lparr>Mallocs = 0, TotalAlloc = 0, NumGC = 0, PauseNs = (\<lambda>_. 0)\<rparr>\<rparr> 3 = Some (Inr res) \<and>
     r_missing res = NumErrors (r_hdr res)"
proof -
  let ?de = "\<lparr>de_dial = None, de_env = zero_envelope,
      de_open = (\<lambda>i. \<lparr>oe_since = (\<lambda>_. 0), oe_order = rev, oe_worker = (\<lambda>_. zero_envelope), oe_exchange = (\<lambda>_. demo_exchange), oe_elapsed = 1\<rparr>),
      de_closed = closed_init count_hist demo_config zero_envelope, de_elapsed = 1,
      de_m0 = \<lparr>Mallocs = 0, TotalAlloc = 0, NumGC = 0, PauseNs = (\<lambda>_. 0)\<rparr>,
      de_m1 = \<lparr>Mallocs = 0, TotalAlloc = 0, NumGC = 0, PauseNs = (\<lambda>_. 0)\<rparr>\<rparr>"
  have v: "drive_validate (demo_config\<lparr>d_mode := ''fault''\<rparr>) = Inr (demo_config\<lparr>d_mode := ''fault'', d_inflight := 1024\<rparr>)"
    by (simp add: drive_validate_def demo_config_def)
  from drive_accounts [OF count_hist_ok v, where de = ?de and rc = demo_cell and wireReq = 3] show ?thesis
    by auto
qed


section \<open>The garbage-collection profile\<close>

lemma p99_index:
  assumes "0 < m" and "m \<le> 256"
  defines "idx \<equiv> \<lceil>fmul (fl (99 / 100)) (of_i64 (int m))\<rceil>"
  shows "1 \<le> idx" and "idx \<le> int m" and "63 * int m \<le> 64 * idx"
proof -
  let ?c = "fl (99 / 100)"
  have m: "of_i64 (int m) = of_nat m" using of_i64_exact [of "int m"] assms(2) by simp
  have "exact64 (of_int 63 * 2 powi - 6)" by (rule fl_scaled) simp
  then have e: "fl (63 / 64) = 63 / 64" using exact64_fl [of "63 / 64"] by (simp add: power_int_minus)
  have one: "fl 1 = 1" using exact64_fl [OF fl_of_int [of 1]] by simp
  have c: "63 / 64 \<le> ?c" "?c \<le> 1" using fl_mono [of "63 / 64" "99 / 100"] fl_mono [of "99 / 100" 1] e one by simp_all
  have exm: "fl (of_nat m) = of_nat m" using exact64_fl [OF fl_of_int [of "int m"]] assms(2) by simp
  have ex: "fl (of_nat m * (63 / 64)) = of_nat m * (63 / 64)"
    using exact64_fl [OF fl_scaled [of "int m * 63" "-6"]] assms(2) by (simp add: power_int_minus)
  have "of_nat m * (63 / 64) \<le> ?c * of_nat m" using mult_right_mono [OF c(1), of "of_nat m"] by (simp add: mult.commute)
  then have lo: "of_nat m * (63 / 64) \<le> fl (?c * of_nat m)" using fl_mono ex by metis
  have "?c * of_nat m \<le> of_nat m" using mult_right_mono [OF c(2), of "of_nat m"] by simp
  then have hi: "fl (?c * of_nat m) \<le> of_nat m" using fl_mono exm by metis
  have idx: "idx = \<lceil>fl (?c * of_nat m)\<rceil>" by (simp add: idx_def fmul_def m)
  show "idx \<le> int m" unfolding idx using hi by (simp add: ceiling_le_iff)
  have "of_nat m * (63 / 64) \<le> (of_int idx :: rat)" unfolding idx using lo le_of_int_ceiling order_trans by blast
  then have "(of_int (63 * int m) :: rat) \<le> of_int (64 * idx)" by simp
  then show b: "63 * int m \<le> 64 * idx" by (simp only: of_int_le_iff)
  with assms(1) show "1 \<le> idx" by linarith
qed

text \<open>The index is within the window, so nothing panics, and the value returned is a pause of the window
  that at least 63 in 64 of its pauses do not exceed.\<close>

lemma gc_profile_safe:
  assumes "gc1 - gc0 \<noteq> 0" and "ps = gc_pauses gc1 (if gc1 - gc0 > 256 then 256 else gc1 - gc0) pauseNs"
    and "driverGCProfile gc0 gc1 pauseNs elapsed = (p99, cps)"
  shows "p99 \<in> set ps" and "63 * length ps \<le> 64 * length (filter (\<lambda>p. p \<le> p99) ps)"
proof -
  let ?n = "if gc1 - gc0 > 256 then 256 else gc1 - gc0"
  have "?n \<noteq> 0" "?n \<le> 256" using assms(1) by auto
  then have n: "0 < unat ?n" "unat ?n \<le> 256"
    by (simp_all add: unat_gt_0 word_le_nat_alt del: if_split_asm)
  have len: "length ps = unat ?n" unfolding assms(2) gc_pauses_def by simp
  define idx where "idx = \<lceil>fmul (fl (99 / 100)) (of_i64 (int (length ps)))\<rceil>"
  have I: "1 \<le> idx" "idx \<le> int (length ps)" "63 * int (length ps) \<le> 64 * idx"
    using p99_index [of "length ps"] n len by (simp_all add: idx_def)
  define k where "k = nat (idx - 1)"
  have k: "k < length ps" "int k + 1 = idx" using I by (auto simp: k_def)
  have p: "p99 = sort ps ! k"
    using assms(1,3) I by (auto simp: driverGCProfile_def Let_def k_def idx_def assms(2))
  show "p99 \<in> set ps" using k(1) unfolding p by (metis length_sort nth_mem set_sort)
  have "\<forall>x \<in> set (take (Suc k) (sort ps)). x \<le> p99"
    using sorted_sort [of ps] k(1) unfolding p by (auto simp: in_set_conv_nth intro!: sorted_nth_mono)
  then have "Suc k \<le> length (filter (\<lambda>p. p \<le> p99) (take (Suc k) (sort ps)))"
    using k(1) by (simp add: filter_id_conv [THEN iffD2])
  also have "\<dots> \<le> length (filter (\<lambda>p. p \<le> p99) (sort ps))"
    by (metis append_take_drop_id filter_append le_add1 length_append)
  also have "\<dots> = length (filter (\<lambda>p. p \<le> p99) ps)" by (metis filter_sort length_sort)
  finally show "63 * length ps \<le> 64 * length (filter (\<lambda>p. p \<le> p99) ps)" using I(3) k(2) by linarith
qed

end
