(* ===== verification/Runrecord.thy ===== *)
theory Runrecord
  imports Driver
begin

text \<open>
  The record of a benchmark run (\<open>clients/internal/runrecord\<close>) and how a finished cell becomes one
  (\<open>clients/workloads/benchcli/emit.go\<close>): the reported columns, their median and median absolute
  deviation across repeats, and the stability verdict.  Numbers reported are floats.
\<close>

section \<open>The reported columns\<close>

record run_summary =
  rs_Tier :: string
  rs_Transport :: string
  rs_Codec :: string
  rs_Fixture :: string
  rs_Pool :: string
  rs_GC :: string
  rs_Mode :: string
  rs_Inflight :: int
  rs_Rate :: rat
  rs_Msgs :: int
  rs_Errors :: "(string \<times> int) list"
  rs_Retries :: int
  rs_Replays :: int
  rs_ThroughputMsgS :: rat
  rs_ThroughputMiBS :: rat
  rs_RTTP50US :: rat
  rs_RTTP90US :: rat
  rs_RTTP95US :: rat
  rs_RTTP99US :: rat
  rs_RTTP999US :: rat
  rs_RTTMaxUS :: rat
  rs_RTTCoCorrectedP99US :: rat
  rs_OneWayFwdP50US :: rat
  rs_OneWayFwdP99US :: rat
  rs_OneWayRevP50US :: rat
  rs_OneWayRevP99US :: rat
  rs_ClockUncertaintyUS :: rat
  rs_OneWayPublished :: bool
  rs_ServerDurationP50US :: rat
  rs_ServerDurationP99US :: rat
  rs_WireBytesReq :: int
  rs_WireBytesResp :: int
  rs_DriverAllocBytesPerMsg :: rat
  rs_DriverAllocsPerMsg :: rat
  rs_DriverGCCyclesPerS :: rat
  rs_DriverGCPauseP99US :: rat
  rs_DriverGCCPUFraction :: rat
  rs_AgentAllocBytesPerMsg :: rat
  rs_AgentAllocsPerMsg :: rat
  rs_AgentGCCyclesPerS :: rat
  rs_AgentGCPauseP99US :: rat
  rs_AgentGCCPUFraction :: rat
  rs_DriverCPUUsPerMsg :: rat
  rs_AgentCPUUsPerMsg :: rat
  rs_BrokerCPUUsPerMsg :: rat
  rs_BrokerNodeCPUBusyPct :: rat
  rs_BrokerThrottled :: bool
  rs_PoolHitRatio :: rat
  rs_Missing :: int
  rs_Duplicate :: int
  rs_Reordered :: int
  rs_Redelivered :: int
  rs_LateSends :: int
  rs_Grafana :: string

definition zero_summary :: run_summary where   "zero_summary = \<lparr>rs_Tier = '''', rs_Transport = '''', rs_Codec =
      '''', rs_Fixture = '''', rs_Pool = '''', rs_GC = '''', rs_Mode = '''', rs_Inflight = 0, rs_Rate = 0, rs_Msgs =
      0, rs_Errors = [], rs_Retries = 0, rs_Replays = 0, rs_ThroughputMsgS = 0, rs_ThroughputMiBS = 0, rs_RTTP50US =
      0, rs_RTTP90US = 0, rs_RTTP95US = 0, rs_RTTP99US = 0, rs_RTTP999US = 0, rs_RTTMaxUS = 0, rs_RTTCoCorrectedP99US
      = 0, rs_OneWayFwdP50US = 0, rs_OneWayFwdP99US = 0, rs_OneWayRevP50US = 0, rs_OneWayRevP99US = 0,
      rs_ClockUncertaintyUS = 0, rs_OneWayPublished = False, rs_ServerDurationP50US = 0, rs_ServerDurationP99US = 0,
      rs_WireBytesReq = 0, rs_WireBytesResp = 0, rs_DriverAllocBytesPerMsg = 0, rs_DriverAllocsPerMsg = 0,
      rs_DriverGCCyclesPerS = 0, rs_DriverGCPauseP99US = 0, rs_DriverGCCPUFraction = 0, rs_AgentAllocBytesPerMsg = 0,
      rs_AgentAllocsPerMsg = 0, rs_AgentGCCyclesPerS = 0, rs_AgentGCPauseP99US = 0, rs_AgentGCCPUFraction = 0,
      rs_DriverCPUUsPerMsg = 0, rs_AgentCPUUsPerMsg = 0, rs_BrokerCPUUsPerMsg = 0, rs_BrokerNodeCPUBusyPct = 0,
      rs_BrokerThrottled = False, rs_PoolHitRatio = 0, rs_Missing = 0, rs_Duplicate = 0, rs_Reordered = 0,
      rs_Redelivered = 0, rs_LateSends = 0, rs_Grafana = ''''\<rparr>"

definition TotalErrors :: "run_summary \<Rightarrow> int" where
  "TotalErrors s = sum_list (map snd (rs_Errors s))"

type_synonym column = "string \<times> nat \<times> (run_summary \<Rightarrow> rat)"

definition NumericColumns :: "column list" where
  "NumericColumns =
     [(''msgs'', 0, \<lambda>s. of_i64 (rs_Msgs s)),
      (''errors'', 0, \<lambda>s. of_i64 (TotalErrors s)),
      (''throughput_msg_s'', 0, rs_ThroughputMsgS),
      (''throughput_mib_s'', 1, rs_ThroughputMiBS),
      (''rtt_p50_us'', 0, rs_RTTP50US),
      (''rtt_p90_us'', 0, rs_RTTP90US),
      (''rtt_p99_us'', 0, rs_RTTP99US),
      (''rtt_p999_us'', 0, rs_RTTP999US),
      (''rtt_max_us'', 0, rs_RTTMaxUS),
      (''rtt_co_corrected_p99_us'', 0, rs_RTTCoCorrectedP99US),
      (''one_way_fwd_p50_us'', 0, rs_OneWayFwdP50US),
      (''one_way_fwd_p99_us'', 0, rs_OneWayFwdP99US),
      (''one_way_rev_p50_us'', 0, rs_OneWayRevP50US),
      (''one_way_rev_p99_us'', 0, rs_OneWayRevP99US),
      (''clock_uncertainty_us'', 1, rs_ClockUncertaintyUS),
      (''server_duration_p50_us'', 0, rs_ServerDurationP50US),
      (''server_duration_p99_us'', 0, rs_ServerDurationP99US),
      (''wire_bytes_req'', 0, \<lambda>s. of_i64 (rs_WireBytesReq s)),
      (''wire_bytes_resp'', 0, \<lambda>s. of_i64 (rs_WireBytesResp s)),
      (''driver_alloc_bytes_per_msg'', 0, rs_DriverAllocBytesPerMsg),
      (''driver_allocs_per_msg'', 2, rs_DriverAllocsPerMsg),
      (''driver_gc_cycles_per_s'', 2, rs_DriverGCCyclesPerS),
      (''driver_gc_pause_p99_us'', 1, rs_DriverGCPauseP99US),
      (''driver_gc_cpu_fraction'', 4, rs_DriverGCCPUFraction),
      (''agent_alloc_bytes_per_msg'', 0, rs_AgentAllocBytesPerMsg),
      (''agent_allocs_per_msg'', 2, rs_AgentAllocsPerMsg),
      (''agent_gc_cycles_per_s'', 2, rs_AgentGCCyclesPerS),
      (''agent_gc_pause_p99_us'', 1, rs_AgentGCPauseP99US),
      (''agent_gc_cpu_fraction'', 4, rs_AgentGCCPUFraction),
      (''driver_cpu_us_per_msg'', 2, rs_DriverCPUUsPerMsg),
      (''agent_cpu_us_per_msg'', 2, rs_AgentCPUUsPerMsg),
      (''broker_cpu_us_per_msg'', 2, rs_BrokerCPUUsPerMsg),
      (''broker_node_cpu_busy_pct'', 1, rs_BrokerNodeCPUBusyPct),
      (''pool_hit_ratio'', 3, rs_PoolHitRatio),
      (''missing'', 0, \<lambda>s. of_i64 (rs_Missing s)),
      (''duplicate'', 0, \<lambda>s. of_i64 (rs_Duplicate s)),
      (''reordered'', 0, \<lambda>s. of_i64 (rs_Reordered s)),
      (''redelivered'', 0, \<lambda>s. of_i64 (rs_Redelivered s)),
      (''late_sends'', 0, \<lambda>s. of_i64 (rs_LateSends s))]"

record run_cell =
  rc_ID :: string
  rc_Repeat :: int
  rc_Summary :: run_summary
  rc_HGRM :: string

section \<open>Median and deviation\<close>

definition median :: "rat list \<Rightarrow> rat" where
  "median vs =
     (if vs = [] then 0
      else (let c = sort vs; n = length c in
            if odd n then c ! (n div 2) else fdiv (fadd (c ! (n div 2 - 1)) (c ! (n div 2))) 2))"

definition mad :: "rat list \<Rightarrow> rat \<Rightarrow> rat" where
  "mad vs med = (if vs = [] then 0 else median (map (\<lambda>v. \<bar>fsub v med\<bar>) vs))"

section \<open>Aggregating repeats\<close>

record aggregated =
  ag_ID :: string
  ag_Repeats :: nat
  ag_Ident :: run_summary
  ag_Med :: "string \<rightharpoonup> rat"
  ag_MAD :: "string \<rightharpoonup> rat"
  ag_Unstable :: bool
  ag_StableBy :: string
  ag_HGRM :: "string list"

text \<open>The grouping loop: first-seen order and the cells of each id.\<close>

definition group_cell :: "run_cell \<Rightarrow> string list \<times> (string \<rightharpoonup> run_cell list) \<Rightarrow> string list \<times> (string \<rightharpoonup> run_cell list)" where
  "group_cell c st =
     (case st of (order, groups) \<Rightarrow>
        (case groups (rc_ID c) of
           None \<Rightarrow> (order @ [rc_ID c], groups(rc_ID c \<mapsto> [c]))
         | Some g \<Rightarrow> (order, groups(rc_ID c \<mapsto> g @ [c]))))"

definition lookup0 :: "(string \<rightharpoonup> rat) \<Rightarrow> string \<Rightarrow> rat" where
  "lookup0 m k = (case m k of None \<Rightarrow> 0 | Some x \<Rightarrow> x)"

definition reduce_group :: "string \<Rightarrow> run_cell list \<Rightarrow> aggregated" where
  "reduce_group cid grp =
     (let vals = (\<lambda>get. map (\<lambda>c. get (rc_Summary c)) grp);
          med = map_of (map (\<lambda>(name, dec, get). (name, median (vals get))) NumericColumns);
          dev = map_of (map (\<lambda>(name, dec, get). (name, mad (vals get) (median (vals get)))) NumericColumns);
          by = (if lookup0 med ''rtt_p99_us'' \<le> 0 then ''throughput_msg_s'' else ''rtt_p99_us'');
          m = lookup0 med by
      in \<lparr>ag_ID = cid, ag_Repeats = length grp, ag_Ident = rc_Summary (hd grp), ag_Med = med, ag_MAD = dev,
          ag_Unstable = (m > 0 \<and> fdiv (lookup0 dev by) m > fl (1 / 5)), ag_StableBy = by,
          ag_HGRM = filter (\<lambda>h. h \<noteq> '''') (map rc_HGRM grp)\<rparr>)"

definition Aggregate :: "run_cell list \<Rightarrow> aggregated list" where
  "Aggregate cells =
     (let (order, groups) = fold group_cell cells ([], Map.empty)
      in map (\<lambda>cid. reduce_group cid (case groups cid of None \<Rightarrow> [] | Some g \<Rightarrow> g)) order)"

section \<open>Emitting a cell\<close>

definition cellID :: "cell \<Rightarrow> string" where
  "cellID c = c_Transport c @ ''/'' @ c_Codec c @ ''/'' @ c_Fixture c @ ''/'' @ c_Pool c @ ''/'' @ c_GC c @ ''/'' @ c_Mode c"

definition us :: "duration \<Rightarrow> rat" where
  "us d = fdiv (of_i64 d) 1000"

definition summaryFromHDR :: "'h hist_lib \<Rightarrow> cell \<Rightarrow> 'h cell_result \<Rightarrow> run_summary" where
  "summaryFromHDR H c r =
     (let s = Summarize H (r_elapsed r) (r_hdr r);
          out0 = zero_summary\<lparr>rs_Tier := c_Tier c, rs_Transport := c_Transport c, rs_Codec := c_Codec c, rs_Fixture := c_Fixture c,
                   rs_Pool := c_Pool c, rs_GC := c_GC c, rs_Mode := c_Mode c, rs_Inflight := r_inflight r, rs_Rate := r_rate r,
                   rs_Msgs := sm_Count s, rs_Errors := (case ErrorKinds (r_hdr r) of None \<Rightarrow> [] | Some ks \<Rightarrow> ks),
                   rs_ThroughputMsgS := ThroughputPerSec s, rs_RTTP50US := us (P50 s), rs_RTTP90US := us (P90 s),
                   rs_RTTP99US := us (P99 s), rs_RTTP999US := us (P999 s), rs_RTTMaxUS := us (sm_Max s),
                   rs_WireBytesReq := r_wireReq r, rs_LateSends := r_lateSends r, rs_Missing := r_missing r\<rparr>;
          out1 = (if r_wireReq r > 0 \<and> ThroughputPerSec s > 0
                  then out0\<lparr>rs_ThroughputMiBS := fdiv (fmul (ThroughputPerSec s) (of_i64 (r_wireReq r))) 1048576\<rparr> else out0);
          out2 = (case CorrectedP99 H (r_hdr r) of (p99, ok) \<Rightarrow> if ok then out1\<lparr>rs_RTTCoCorrectedP99US := us p99\<rparr> else out1);
          out3 = out2\<lparr>rs_DriverAllocsPerMsg := allocsPerMsg r, rs_DriverAllocBytesPerMsg := allocBytesPerMsg r,
                   rs_DriverGCPauseP99US := us (gcPauseP99 r), rs_DriverGCCyclesPerS := gcCyclesPerS r\<rparr>
      in if hdr_Count H (r_srvHDR r) > 0
         then (let ss = Summarize H 0 (r_srvHDR r) in out3\<lparr>rs_ServerDurationP50US := us (P50 ss), rs_ServerDurationP99US := us (P99 ss)\<rparr>)
         else out3)"

record emit_options =
  eo_out :: string
  eo_hgrm :: string
  eo_repeat :: int

datatype file_write = HGRM_file string string | Cell_file string run_cell

text \<open>The files written, in order, and the error; \<open>wr\<close> is the error of writing a path, \<open>marshal\<close> that of the
  JSON encoder.\<close>

definition emitCell ::
  "'h hist_lib \<Rightarrow> (nat \<Rightarrow> gerr option) \<Rightarrow> (string \<Rightarrow> gerr option) \<Rightarrow> (run_cell \<Rightarrow> gerr option) \<Rightarrow> emit_options \<Rightarrow> cell \<Rightarrow> 'h cell_result
   \<Rightarrow> gerr option \<times> file_write list" where
  "emitCell H buf wr marshal e c r =
     (case (if eo_hgrm e \<noteq> ''''
            then (case WriteHGRM H buf (r_hdr r) of
                    Inl err \<Rightarrow> (Some err, [])
                  | Inr txt \<Rightarrow> (case wr (eo_hgrm e) of Some err \<Rightarrow> (Some err, []) | None \<Rightarrow> (None, [HGRM_file (eo_hgrm e) txt])))
            else (None, [])) of
        (Some err, ws) \<Rightarrow> (Some err, ws)
      | (None, ws) \<Rightarrow>
          (if eo_out e = '''' then (None, ws)
           else (let cl = \<lparr>rc_ID = cellID c, rc_Repeat = eo_repeat e, rc_Summary = summaryFromHDR H c r, rc_HGRM = eo_hgrm e\<rparr> in
                 case marshal cl of
                   Some err \<Rightarrow> (Some err, ws)
                 | None \<Rightarrow> (case wr (eo_out e) of Some err \<Rightarrow> (Some err, ws) | None \<Rightarrow> (None, ws @ [Cell_file (eo_out e) cl])))))"

definition satReason :: "string \<Rightarrow> string" where
  "satReason r =
     (if r = ''p99'' then ''p99 exceeded 10'' @ [CHR 0xC3, CHR 0x97] @ '' floor''
      else if r = ''late'' then ''late_sends exceeded 1%''
      else if r = ''cap'' then ''ramp cap reached without saturating''
      else r)"

section \<open>Facts about the median\<close>

lemma sort_cong_mset: "mset xs = mset ys \<Longrightarrow> sort xs = sort ys"
  by (metis properties_for_sort mset_sort sorted_sort)

lemma median_perm: "mset vs = mset ws \<Longrightarrow> median vs = median ws"
proof -
  assume eq: "mset vs = mset ws"
  then have "(vs = []) = (ws = [])" by (metis mset_zero_iff)
  with sort_cong_mset [OF eq] show ?thesis by (simp add: median_def)
qed

lemma fhalf_between:
  assumes "exact64 a" and "exact64 b" and "a \<le> b"
  shows "a \<le> fdiv (fadd a b) 2" and "fdiv (fadd a b) 2 \<le> b"
proof -
  have d: "fl (a * 2) = a * 2" "fl (b * 2) = b * 2"
    using fl_times_power [of a 1] fl_times_power [of b 1] assms(1,2) by simp_all
  have "a * 2 \<le> fl (a + b)" "fl (a + b) \<le> b * 2"
    using fl_mono [of "a * 2" "a + b"] fl_mono [of "a + b" "b * 2"] d assms(3) by simp_all
  then have "fl a \<le> fl (fl (a + b) / 2)" "fl (fl (a + b) / 2) \<le> fl b" by (auto intro!: fl_mono)
  then show "a \<le> fdiv (fadd a b) 2" and "fdiv (fadd a b) 2 \<le> b"
    using assms(1,2) by (simp_all add: fdiv_def fadd_def)
qed

lemma median_between:
  assumes "vs \<noteq> []" and "\<forall>v \<in> set vs. exact64 v"
  shows "sort vs ! ((length vs - 1) div 2) \<le> median vs" and "median vs \<le> sort vs ! (length vs div 2)"
proof -
  let ?c = "sort vs" and ?n = "length vs"
  have pos: "0 < ?n" using assms(1) by simp
  show "?c ! ((?n - 1) div 2) \<le> median vs" and "median vs \<le> ?c ! (?n div 2)"
  proof -
    have "?c ! ((?n - 1) div 2) \<le> median vs \<and> median vs \<le> ?c ! (?n div 2)"
    proof (cases "odd ?n")
      case True
      then have "(?n - 1) div 2 = ?n div 2" by (auto elim!: oddE)
      with True assms(1) show ?thesis by (simp add: median_def)
    next
      case False
      then have i: "(?n - 1) div 2 = ?n div 2 - 1" "?n div 2 - 1 < ?n" "?n div 2 < ?n" using pos by (presburger, linarith, linarith)
      have "exact64 (?c ! (?n div 2 - 1))" "exact64 (?c ! (?n div 2))"
        using assms(2) i(2,3) by (metis length_sort nth_mem set_sort)+
      moreover have "?c ! (?n div 2 - 1) \<le> ?c ! (?n div 2)" using i by (intro sorted_nth_mono) auto
      ultimately show ?thesis using fhalf_between False assms(1) i(1) by (simp add: median_def Let_def)
    qed
    then show "?c ! ((?n - 1) div 2) \<le> median vs" and "median vs \<le> ?c ! (?n div 2)" by auto
  qed
qed

lemma sort_nth_count:
  fixes vs :: "'a :: linorder list"
  assumes "i < length vs"
  shows "Suc i \<le> length (filter (\<lambda>v. v \<le> sort vs ! i) vs)" and "length vs - i \<le> length (filter (\<lambda>v. sort vs ! i \<le> v) vs)"
proof -
  let ?c = "sort vs"
  have part: "length ys \<le> length (filter P vs)" if "\<forall>y \<in> set ys. P y" "mset ys \<subseteq># mset vs" for ys P
  proof -
    have "mset (filter P ys) \<subseteq># mset (filter P vs)" using that(2) by (simp add: multiset_filter_mono)
    with that(1) show ?thesis by (metis filter_True size_mset size_mset_mono)
  qed
  have sub: "mset (take k ?c) \<subseteq># mset vs" "mset (drop k ?c) \<subseteq># mset vs" for k
    by (metis append_take_drop_id mset_append mset_sort mset_subset_eq_add_left mset_subset_eq_add_right)+
  have "\<forall>y \<in> set (take (Suc i) ?c). y \<le> ?c ! i"
    using assms sorted_sort [of vs] by (auto simp: in_set_conv_nth intro!: sorted_nth_mono)
  from part [OF this sub(1)] assms show "Suc i \<le> length (filter (\<lambda>v. v \<le> ?c ! i) vs)" by simp
  have "\<forall>y \<in> set (drop i ?c). ?c ! i \<le> y"
    using assms sorted_sort [of vs] by (auto simp: in_set_conv_nth intro!: sorted_nth_mono)
  from part [OF this sub(2)] show "length vs - i \<le> length (filter (\<lambda>v. ?c ! i \<le> v) vs)" by simp
qed

lemma length_filter_le_mono: "(\<And>x. P x \<Longrightarrow> Q x) \<Longrightarrow> length (filter P xs) \<le> length (filter Q xs)"
  by (induction xs) auto

text \<open>At least half of the values lie on each side.\<close>

lemma median_halves:
  assumes "vs \<noteq> []" and "\<forall>v \<in> set vs. exact64 v"
  shows "length vs \<le> 2 * length (filter (\<lambda>v. v \<le> median vs) vs)" and "length vs \<le> 2 * length (filter (\<lambda>v. median vs \<le> v) vs)"
proof -
  let ?i = "(length vs - 1) div 2" and ?j = "length vs div 2"
  have lt: "?i < length vs" "?j < length vs" using assms(1) by (cases vs; simp)+
  have "length (filter (\<lambda>v. v \<le> sort vs ! ?i) vs) \<le> length (filter (\<lambda>v. v \<le> median vs) vs)"
    using median_between(1) [OF assms] by (intro length_filter_le_mono) auto
  with sort_nth_count(1) [OF lt(1)] show "length vs \<le> 2 * length (filter (\<lambda>v. v \<le> median vs) vs)" by linarith
  have "length (filter (\<lambda>v. sort vs ! ?j \<le> v) vs) \<le> length (filter (\<lambda>v. median vs \<le> v) vs)"
    using median_between(2) [OF assms] by (intro length_filter_le_mono) auto
  with sort_nth_count(2) [OF lt(2)] show "length vs \<le> 2 * length (filter (\<lambda>v. median vs \<le> v) vs)" by linarith
qed

lemma mad_nonneg: "0 \<le> mad vs med"
proof (cases "vs = []")
  case False
  let ?ds = "map (\<lambda>v. \<bar>fsub v med\<bar>) vs"
  have ex: "\<forall>d \<in> set ?ds. exact64 d" by (auto simp: fsub_def abs_if exact64_uminus)
  have "0 < length vs" using False by simp
  then have "(length ?ds - 1) div 2 < length (sort ?ds)" unfolding length_sort length_map by linarith
  then have "sort ?ds ! ((length ?ds - 1) div 2) \<in> set ?ds" by (metis nth_mem set_sort)
  then have "0 \<le> sort ?ds ! ((length ?ds - 1) div 2)" by auto
  with median_between(1) [OF _ ex] False show ?thesis by (simp add: mad_def)
qed (simp add: mad_def)


section \<open>Facts about grouping\<close>

fun firsts :: "'a list \<Rightarrow> 'a list" where
  "firsts [] = []"
| "firsts (x # xs) = x # filter (\<lambda>y. y \<noteq> x) (firsts xs)"

lemma set_firsts [simp]: "set (firsts xs) = set xs"
  by (induction xs) auto

lemma distinct_firsts [simp]: "distinct (firsts xs)"
  by (induction xs) auto

lemma firsts_snoc: "firsts (xs @ [x]) = firsts xs @ (if x \<in> set xs then [] else [x])"
  by (induction xs) auto

definition cells_of :: "run_cell list \<Rightarrow> string \<Rightarrow> run_cell list" where
  "cells_of cells cid = filter (\<lambda>c. rc_ID c = cid) cells"

lemma group_fold:
  "fold group_cell cells ([], Map.empty) =
     (firsts (map rc_ID cells), \<lambda>cid. if cid \<in> rc_ID ` set cells then Some (cells_of cells cid) else None)"
proof (induction cells rule: rev_induct)
  case (snoc c cells)
  show ?case
  proof (cases "rc_ID c \<in> rc_ID ` set cells")
    case True
    with snoc show ?thesis by (auto simp: group_cell_def firsts_snoc cells_of_def fun_eq_iff)
  next
    case False
    then have "filter (\<lambda>c'. rc_ID c' = rc_ID c) cells = []" by (metis (mono_tags, lifting) filter_False imageI)
    with False snoc show ?thesis by (auto simp: group_cell_def firsts_snoc cells_of_def fun_eq_iff)
  qed
qed simp

lemma Aggregate_eq: "Aggregate cells = map (\<lambda>cid. reduce_group cid (cells_of cells cid)) (firsts (map rc_ID cells))"
  unfolding Aggregate_def group_fold by (auto simp: Let_def)

lemma sum_cells_of:
  assumes "distinct ids" and "rc_ID ` set cells \<subseteq> set ids"
  shows "(\<Sum>cid\<leftarrow>ids. length (cells_of cells cid)) = length cells"
  using assms(2)
proof (induction cells)
  case (Cons c cells)
  have "(\<Sum>cid\<leftarrow>ids. length (cells_of (c # cells) cid)) = (\<Sum>cid\<leftarrow>ids. (if cid = rc_ID c then 1 else 0) + length (cells_of cells cid))"
    by (rule arg_cong [where f = sum_list], rule map_cong) (auto simp: cells_of_def)
  also have "\<dots> = (\<Sum>cid\<leftarrow>ids. if cid = rc_ID c then 1 else 0) + length cells"
    using Cons by (simp add: sum_list_addf)
  also have "(\<Sum>cid\<leftarrow>ids. if cid = rc_ID c then 1 else 0) = (1 :: nat)"
    using assms(1) Cons.prems by (simp add: sum_list_distinct_conv_sum_set)
  finally show ?case by simp
qed (simp add: cells_of_def)

lemma cells_of_nonempty: "cid \<in> set (map rc_ID cells) \<Longrightarrow> cells_of cells cid \<noteq> []"
  by (auto simp: cells_of_def filter_empty_conv)

lemma NumericColumns_distinct: "distinct (map fst NumericColumns)"
  by (simp add: NumericColumns_def)

text \<open>A reduced group looked up by a column.\<close>

lemma reduce_group_column:
  assumes "(name, dec, get) \<in> set NumericColumns" and "vals = map (\<lambda>c. get (rc_Summary c)) grp"
  shows "ag_Med (reduce_group cid grp) name = Some (median vals)"
    and "ag_MAD (reduce_group cid grp) name = Some (mad vals (median vals))"
proof -
  have f: "map fst (map (\<lambda>(name, dec, get). (name, F get)) NumericColumns) = map fst NumericColumns" for F :: "(run_summary \<Rightarrow> rat) \<Rightarrow> rat"
    by (simp add: case_prod_unfold comp_def)
  have "map_of (map (\<lambda>(name, dec, get). (name, F get)) NumericColumns) name = Some (F get)" for F :: "(run_summary \<Rightarrow> rat) \<Rightarrow> rat"
    using NumericColumns_distinct by (intro map_of_is_SomeI) (simp only: f, use assms(1) in force)
  then show "ag_Med (reduce_group cid grp) name = Some (median vals)"
    and "ag_MAD (reduce_group cid grp) name = Some (mad vals (median vals))"
    by (simp_all add: reduce_group_def Let_def assms(2))
qed

lemma verdict_of:
  "ag_Unstable (reduce_group cid grp) =
     (0 < lookup0 (ag_Med (reduce_group cid grp)) (ag_StableBy (reduce_group cid grp)) \<and>
      fl (1 / 5) < fdiv (lookup0 (ag_MAD (reduce_group cid grp)) (ag_StableBy (reduce_group cid grp)))
                        (lookup0 (ag_Med (reduce_group cid grp)) (ag_StableBy (reduce_group cid grp))))"
  unfolding reduce_group_def Let_def by (simp only: aggregated.select_convs)

section \<open>Properties\<close>

text \<open>Aggregation.  A run's cells are reduced to one entry per cell id, in the order the ids first appear,
  whose repeat counts add up to the number of cells.  For every reported column whose values are floats,
  the entry's median has at least half of the id's values on each side, its deviation is not negative, and
  both depend only on which values the repeats gave, not on their order; the entry is flagged unstable
  exactly when the deviation of its headline column exceeds a fifth of a positive median.\<close>

theorem aggregate_sound:
  assumes "\<forall>c \<in> set cells. \<forall>(name, dec, get) \<in> set NumericColumns. exact64 (get (rc_Summary c))"
  shows "map ag_ID (Aggregate cells) = firsts (map rc_ID cells) \<and>
         (\<Sum>a\<leftarrow>Aggregate cells. ag_Repeats a) = length cells \<and>
         (\<forall>a \<in> set (Aggregate cells). \<forall>(name, dec, get) \<in> set NumericColumns.
            let vals = map (\<lambda>c. get (rc_Summary c)) (filter (\<lambda>c. rc_ID c = ag_ID a) cells);
                med = lookup0 (ag_Med a) name; dev = lookup0 (ag_MAD a) name
            in length vals = ag_Repeats a \<and> length vals \<le> 2 * length (filter (\<lambda>v. v \<le> med) vals) \<and>
               length vals \<le> 2 * length (filter (\<lambda>v. med \<le> v) vals) \<and> 0 \<le> dev \<and>
               (\<forall>ws. mset ws = mset vals \<longrightarrow> median ws = med \<and> mad ws med = dev) \<and>
               (name = ag_StableBy a \<longrightarrow> ag_Unstable a = (0 < med \<and> fl (1 / 5) < fdiv dev med)))"
proof (intro conjI ballI)
  show "map ag_ID (Aggregate cells) = firsts (map rc_ID cells)"
    by (simp add: Aggregate_eq comp_def reduce_group_def Let_def)
  show "(\<Sum>a\<leftarrow>Aggregate cells. ag_Repeats a) = length cells"
    using sum_cells_of [of "firsts (map rc_ID cells)" cells] by (simp add: Aggregate_eq comp_def reduce_group_def Let_def)
  fix a assume "a \<in> set (Aggregate cells)"
  then obtain cid where c: "cid \<in> set (map rc_ID cells)" and a: "a = reduce_group cid (cells_of cells cid)"
    by (auto simp: Aggregate_eq)
  have i: "ag_ID a = cid" "ag_Repeats a = length (cells_of cells cid)" by (simp_all add: a reduce_group_def Let_def)
  fix col assume col: "col \<in> set NumericColumns"
  obtain name dec get where n: "col = (name, dec, get)" by (cases col)
  define vals where "vals = map (\<lambda>c. get (rc_Summary c)) (cells_of cells cid)"
  have ne: "vals \<noteq> []" using cells_of_nonempty [OF c] by (simp add: vals_def)
  have ex: "\<forall>v \<in> set vals. exact64 v" using assms col n by (fastforce simp: vals_def cells_of_def)
  note M = reduce_group_column [OF col [unfolded n] vals_def, of cid, folded a]
  have med: "lookup0 (ag_Med a) name = median vals" "lookup0 (ag_MAD a) name = mad vals (median vals)" using M by (simp_all add: lookup0_def)
  have perm: "median ws = median vals \<and> mad ws (median vals) = mad vals (median vals)" if "mset ws = mset vals" for ws
    using median_perm [OF that] median_perm [of "map (\<lambda>v. \<bar>fsub v (median vals)\<bar>) ws" "map (\<lambda>v. \<bar>fsub v (median vals)\<bar>) vals"] that
    by (auto simp: mad_def)
  have st: "name = ag_StableBy a \<longrightarrow> ag_Unstable a = (0 < median vals \<and> fl (1 / 5) < fdiv (mad vals (median vals)) (median vals))"
    using verdict_of [of cid "cells_of cells cid", folded a] med by auto
  have len: "length vals = ag_Repeats a" by (simp add: vals_def i(2))
  show "case col of (name, dec, get) \<Rightarrow>
          let vals = map (\<lambda>c. get (rc_Summary c)) (filter (\<lambda>c. rc_ID c = ag_ID a) cells);
              med = lookup0 (ag_Med a) name; dev = lookup0 (ag_MAD a) name
          in length vals = ag_Repeats a \<and> length vals \<le> 2 * length (filter (\<lambda>v. v \<le> med) vals) \<and>
             length vals \<le> 2 * length (filter (\<lambda>v. med \<le> v) vals) \<and> 0 \<le> dev \<and>
             (\<forall>ws. mset ws = mset vals \<longrightarrow> median ws = med \<and> mad ws med = dev) \<and>
             (name = ag_StableBy a \<longrightarrow> ag_Unstable a = (0 < med \<and> fl (1 / 5) < fdiv dev med))"
    unfolding n prod.case Let_def i(1) cells_of_def [symmetric] vals_def [symmetric] med
    using len median_halves [OF ne ex] mad_nonneg [of vals "median vals"] perm st by blast
qed


theorem aggregate_sound_witness:
  "(\<Sum>a\<leftarrow>Aggregate [\<lparr>rc_ID = ''g'', rc_Repeat = 0, rc_Summary = zero_summary\<lparr>rs_RTTP99US := 100\<rparr>, rc_HGRM = ''''\<rparr>,
                   \<lparr>rc_ID = ''h'', rc_Repeat = 0, rc_Summary = zero_summary, rc_HGRM = ''''\<rparr>,
                   \<lparr>rc_ID = ''g'', rc_Repeat = 1, rc_Summary = zero_summary\<lparr>rs_RTTP99US := 300\<rparr>, rc_HGRM = ''''\<rparr>]. ag_Repeats a) = 3"
proof -
  let ?cells = "[\<lparr>rc_ID = ''g'', rc_Repeat = 0, rc_Summary = zero_summary\<lparr>rs_RTTP99US := 100\<rparr>, rc_HGRM = ''''\<rparr>,
                   \<lparr>rc_ID = ''h'', rc_Repeat = 0, rc_Summary = zero_summary, rc_HGRM = ''''\<rparr>,
                   \<lparr>rc_ID = ''g'', rc_Repeat = 1, rc_Summary = zero_summary\<lparr>rs_RTTP99US := 300\<rparr>, rc_HGRM = ''''\<rparr>]"
  have ex: "exact64 100" "exact64 300" using fl_of_int [of 100] fl_of_int [of 300] by simp_all
  have z: "of_i64 0 = 0" by (simp add: of_i64_def)
  have "\<forall>c \<in> set ?cells. \<forall>(name, dec, get) \<in> set NumericColumns. exact64 (get (rc_Summary c))"
    by (simp add: NumericColumns_def zero_summary_def TotalErrors_def ex z)
  from aggregate_sound [OF this] show ?thesis by simp
qed

end
