(* ===== verification/Report.thy ===== *)
theory Report
  imports Runrecord "HOL-Library.AList" "HOL-Library.List_Lexorder" "HOL-Library.Char_ord" "HOL-Library.Product_Lexorder"
begin

text \<open>
  The report renderer (\<open>clients/workloads/benchcli/report.go\<close>): the flat table of every repeat, and the
  Markdown report of the aggregated cells, grouped into tables by tier and mode.

  Go maps that are iterated are association lists; the code sorts their keys before it prints.  Strings
  are byte strings, compared bytewise.
\<close>

section \<open>Formatting\<close>

fun Join :: "string \<Rightarrow> string list \<Rightarrow> string" where
  "Join sep [] = ''''"
| "Join sep [x] = x"
| "Join sep (x # y # xs) = x @ sep @ Join sep (y # xs)"

text \<open>\<open>strconv.FormatFloat(f, 'f', dec, 64)\<close> of a finite float: the exact value rounded to \<open>dec\<close> decimals, ties to even.\<close>

definition pad_left :: "nat \<Rightarrow> string \<Rightarrow> string" where
  "pad_left n s = replicate (n - length s) CHR ''0'' @ s"

definition FormatFixed :: "rat \<Rightarrow> nat \<Rightarrow> string" where
  "FormatFixed f dec =
     (let n = nat (rne (\<bar>f\<bar> * 10 ^ dec));
          whole = nat_to_dec (n div 10 ^ dec)
      in (if f < 0 then ''-'' else '''') @ whole @
         (if dec = 0 then '''' else ''.'' @ pad_left dec (nat_to_dec (n mod 10 ^ dec))))"

definition trimFloat :: "rat \<Rightarrow> nat \<Rightarrow> string" where
  "trimFloat f dec =
     (let s = FormatFixed f dec in
      if dec > 0 \<and> Contains s ''.'' then TrimRight (\<lambda>c. c = CHR ''.'') (TrimRight (\<lambda>c. c = CHR ''0'') s) else s)"

definition FormatBool :: "bool \<Rightarrow> string" where
  "FormatBool b = (if b then ''true'' else ''false'')"

definition pctOf :: "rat \<Rightarrow> rat \<Rightarrow> string" where
  "pctOf part whole = (if whole = 0 then ''n/a'' else trimFloat (fmul (fdiv part whole) 100) 0 @ ''%'')"

definition orUnknown :: "string \<Rightarrow> string" where
  "orUnknown s = (if s = '''' then ''unknown'' else s)"

definition kvLine :: "(string \<times> string) list \<Rightarrow> string" where
  "kvLine m = Join '', '' (map (\<lambda>k. k @ '' '' @ the (map_of m k)) (sort (map fst m)))"

definition knob :: "string \<Rightarrow> string" where
  "knob m = (if m \<in> {''openloop'', ''saturation'', ''fault''} then ''rate'' else ''inflight'')"

definition knobValue :: "string \<Rightarrow> run_summary \<Rightarrow> string" where
  "knobValue m s =
     (if knob m = ''rate'' then trimFloat (rs_Rate s) 0 else if rs_Inflight s = 0 then ''1'' else itoa (rs_Inflight s))"

definition decFor :: "string \<Rightarrow> nat" where
  "decFor key = (case find (\<lambda>c. fst c = key) NumericColumns of None \<Rightarrow> 0 | Some (name, dec, get) \<Rightarrow> dec)"

definition writeRow :: "string list \<Rightarrow> string" where
  "writeRow cells = ''| '' @ Join '' | '' cells @ '' |\<newline>''"

definition sep_row :: "nat \<Rightarrow> string list" where
  "sep_row n = replicate n ''---''"

section \<open>The flat table\<close>

record run_host =
  ho_CPU :: string
  ho_DriverCPUSet :: string

record run_clock =
  cl_OffsetNs :: int
  cl_UncertaintyNs :: int
  cl_Source :: string
  cl_Synced :: bool

record run =
  ru_RunID :: string
  ru_StartedAt :: string
  ru_FinishedAt :: string
  ru_Rev :: string
  ru_Dirty :: bool
  ru_Versions :: "(string \<times> string) list"
  ru_Host :: run_host
  ru_Clock :: "(string \<times> run_clock) list"
  ru_Seed :: u64
  ru_Fixtures :: "(string \<times> int \<times> int \<times> int) list"
  ru_Cells :: "run_cell list"

definition colNames :: "column list \<Rightarrow> string list" where
  "colNames cols = map fst cols"

definition tsv_head :: "string list" where
  "tsv_head = [''id'', ''repeat'', ''tier'', ''transport'', ''codec'', ''fixture'', ''pool'', ''gc'', ''mode'', ''inflight'', ''rate''] @
     colNames NumericColumns @ [''one_way_published'', ''broker_throttled'', ''hgrm'', ''grafana'']"

definition tsv_row :: "run_cell \<Rightarrow> string list" where
  "tsv_row c =
     (let s = rc_Summary c in
      [rc_ID c, itoa (rc_Repeat c), rs_Tier s, rs_Transport s, rs_Codec s, rs_Fixture s, rs_Pool s, rs_GC s, rs_Mode s,
       itoa (rs_Inflight s), trimFloat (rs_Rate s) 0] @
      map (\<lambda>(name, dec, get). trimFloat (get s) dec) NumericColumns @
      [FormatBool (rs_OneWayPublished s), FormatBool (rs_BrokerThrottled s), rc_HGRM c, rs_Grafana s])"

definition renderTSV :: "run \<Rightarrow> string" where
  "renderTSV r = concat (map (\<lambda>row. Join [CHR 0x09] row @ [CHR 0x0A]) (tsv_head # map tsv_row (ru_Cells r)))"

section \<open>Markdown tables\<close>

text \<open>Characters beyond ASCII, in UTF-8.\<close>

definition micros :: string where "micros = [CHR 0xC2, CHR 0xB5, CHR ''s'']"
definition plus_minus :: string where "plus_minus = [CHR 0xC2, CHR 0xB1]"
definition arrow :: string where "arrow = [CHR 0xE2, CHR 0x86, CHR 0x92]"
definition em_dash :: string where "em_dash = [CHR 0xE2, CHR 0x80, CHR 0x94]"
definition warning_sign :: string where "warning_sign = [CHR 0xE2, CHR 0x9A, CHR 0xA0]"

record md_column =
  md_head :: string
  md_key :: string
  md_mad :: bool

definition md :: "string \<Rightarrow> string \<Rightarrow> bool \<Rightarrow> md_column" where
  "md h k m = \<lparr>md_head = h, md_key = k, md_mad = m\<rparr>"

definition columnsForMode :: "string \<Rightarrow> md_column list" where
  "columnsForMode m =
     (if m \<in> {''openloop'', ''saturation''} then
        [md ''tput msg/s'' ''throughput_msg_s'' False, md (''p50 '' @ micros) ''rtt_p50_us'' True,
         md (''p99 '' @ micros) ''rtt_p99_us'' True, md (''p99.9 '' @ micros) ''rtt_p999_us'' False,
         md (''co-p99 '' @ micros) ''rtt_co_corrected_p99_us'' False, md ''late'' ''late_sends'' False,
         md ''errors'' ''errors'' False, md ''alloc/msg'' ''driver_allocs_per_msg'' False]
      else if m = ''fault'' then
        [md ''msgs'' ''msgs'' False, md ''missing'' ''missing'' False, md ''dup'' ''duplicate'' False,
         md ''reord'' ''reordered'' False, md ''redeliv'' ''redelivered'' False,
         md (''p99 '' @ micros) ''rtt_p99_us'' False, md ''errors'' ''errors'' False]
      else
        [md (''p50 '' @ micros) ''rtt_p50_us'' True, md (''p90 '' @ micros) ''rtt_p90_us'' False,
         md (''p99 '' @ micros) ''rtt_p99_us'' True, md (''p99.9 '' @ micros) ''rtt_p999_us'' False,
         md (''max '' @ micros) ''rtt_max_us'' False, md ''tput msg/s'' ''throughput_msg_s'' False,
         md (''srv p99 '' @ micros) ''server_duration_p99_us'' False, md ''alloc/msg'' ''driver_allocs_per_msg'' False,
         md (''gc pause p99 '' @ micros) ''driver_gc_pause_p99_us'' False, md ''errors'' ''errors'' False])"

definition cellValue :: "aggregated \<Rightarrow> md_column \<Rightarrow> string" where
  "cellValue a c =
     (case ag_Med a (md_key c) of
        None \<Rightarrow> ''-''
      | Some med \<Rightarrow>
          (let dec = decFor (md_key c); s = trimFloat med dec; d = lookup0 (ag_MAD a) (md_key c)
           in if md_mad c \<and> d > 0 then s @ '' '' @ plus_minus @ trimFloat d dec else s))"

text \<open>The order of the rows of a table; the sort is stable.\<close>

definition agg_key :: "aggregated \<Rightarrow> string \<times> string \<times> string \<times> string \<times> string \<times> int \<times> rat" where
  "agg_key a = (let s = ag_Ident a in (rs_Transport s, rs_Codec s, rs_Fixture s, rs_Pool s, rs_GC s, rs_Inflight s, rs_Rate s))"

definition sortAgg :: "aggregated list \<Rightarrow> aggregated list" where
  "sortAgg cells = sort_key agg_key cells"

definition table_row :: "string \<Rightarrow> aggregated \<Rightarrow> string list" where
  "table_row m a =
     (let s = ag_Ident a in
      [rs_Transport s, rs_Codec s, rs_Fixture s, rs_Pool s, rs_GC s, knobValue m s] @ map (cellValue a) (columnsForMode m) @
      [if ag_Unstable a
       then warning_sign @ '' unstable (MAD '' @ pctOf (lookup0 (ag_MAD a) (ag_StableBy a)) (lookup0 (ag_Med a) (ag_StableBy a)) @ '')''
       else ''ok''])"

definition writeCellTable :: "string \<Rightarrow> aggregated list \<Rightarrow> string" where
  "writeCellTable m cells =
     (let head = [''transport'', ''codec'', ''fixture'', ''pool'', ''gc'', knob m] @ map md_head (columnsForMode m) @ [''stable'']
      in writeRow head @ writeRow (sep_row (length head)) @ concat (map (\<lambda>a. writeRow (table_row m a)) (sortAgg cells)))"

section \<open>Ordering\<close>

definition orderedKeys :: "string list \<Rightarrow> string list \<Rightarrow> string list" where
  "orderedKeys keys pref =
     (let out = filter (\<lambda>p. p \<in> set keys) pref
      in out @ sort (filter (\<lambda>k. k \<notin> set out) keys))"

definition sortedKeys :: "(string \<times> 'v) list \<Rightarrow> string list" where
  "sortedKeys m = sort (map fst m)"

text \<open>The key of a pooling comparison, and its rendering by \<open>%v\<close>, which orders the keys.\<close>

type_synonym pool_key = "string \<times> string \<times> string \<times> string \<times> string"

definition render_key :: "pool_key \<Rightarrow> string" where
  "render_key k = (case k of (t, c, f, g, m) \<Rightarrow> ''{'' @ Join '' '' [t, c, f, g, m] @ ''}'')"

definition sortKeys :: "(pool_key \<times> 'v) list \<Rightarrow> pool_key list" where
  "sortKeys m = sort_key render_key (map fst m)"

definition tierOrder :: "string list" where
  "tierOrder = [''rpc'', ''at_least_once'', ''at_most_once'']"

section \<open>Sections of the report\<close>

definition alist_get :: "'k \<Rightarrow> 'v \<Rightarrow> ('k \<times> 'v) list \<Rightarrow> 'v" where
  "alist_get k d m = (case map_of m k of None \<Rightarrow> d | Some v \<Rightarrow> v)"

definition writeClockSection :: "run \<Rightarrow> string" where
  "writeClockSection r =
     (if ru_Clock r = [] then ''''
      else ''## Clock\<newline>\<newline>'' @ writeRow [''region'', ''offset '' @ micros, ''uncertainty '' @ micros, ''source'', ''synced''] @
           writeRow (sep_row 5) @
           concat (map (\<lambda>region. let c = the (map_of (ru_Clock r) region) in
             writeRow [region, trimFloat (fdiv (of_i64 (cl_OffsetNs c)) 1000) 2, trimFloat (fdiv (of_i64 (cl_UncertaintyNs c)) 1000) 2,
                       orUnknown (cl_Source c), FormatBool (cl_Synced c)]) (sortedKeys (ru_Clock r))) @ ''\<newline>'')"

definition writeCorpusSection :: "run \<Rightarrow> string" where
  "writeCorpusSection r =
     (if ru_Fixtures r = [] then ''''
      else ''## Corpus (seed '' @ itoa (uint (ru_Seed r)) @ '')\<newline>\<newline>'' @ writeRow [''fixture'', ''proto B'', ''protojson B'', ''vtproto B''] @
           writeRow (sep_row 4) @
           concat (map (\<lambda>f. case the (map_of (ru_Fixtures r) f) of (p, j, v) \<Rightarrow> writeRow [f, itoa p, itoa j, itoa v]) (sortedKeys (ru_Fixtures r))) @
           ''\<newline>'')"

text \<open>The lowest median latency per tier, the first of equals.\<close>

definition best_step :: "aggregated \<Rightarrow> (string \<times> aggregated) list \<Rightarrow> (string \<times> aggregated) list" where
  "best_step a bs =
     (if rs_Mode (ag_Ident a) \<noteq> ''latency'' \<or> lookup0 (ag_Med a) ''rtt_p50_us'' \<le> 0 then bs
      else (let tier = orUnknown (rs_Tier (ag_Ident a)) in
            case map_of bs tier of
              None \<Rightarrow> AList.update tier a bs
            | Some cur \<Rightarrow>
                (if lookup0 (ag_Med a) ''rtt_p50_us'' < lookup0 (ag_Med cur) ''rtt_p50_us'' then AList.update tier a bs else bs)))"

definition best_cells :: "aggregated list \<Rightarrow> (string \<times> aggregated) list" where
  "best_cells agg = fold best_step agg []"

definition pool_step :: "aggregated \<Rightarrow> (pool_key \<times> (string \<times> aggregated) list) list \<Rightarrow> (pool_key \<times> (string \<times> aggregated) list) list" where
  "pool_step a m =
     (let s = ag_Ident a; k = (rs_Transport s, rs_Codec s, rs_Fixture s, rs_GC s, rs_Mode s)
      in AList.update k (AList.update (rs_Pool s) a (alist_get k [] m)) m)"

definition pool_pairs :: "aggregated list \<Rightarrow> (pool_key \<times> rat \<times> rat) list" where
  "pool_pairs agg =
     (let m = fold pool_step agg []
      in concat (map (\<lambda>k. case (map_of (alist_get k [] m) ''all'', map_of (alist_get k [] m) ''none'') of
             (Some al, Some no) \<Rightarrow>
               (let na = lookup0 (ag_Med no) ''driver_allocs_per_msg''; aa = lookup0 (ag_Med al) ''driver_allocs_per_msg''
                in if na \<le> 0 \<and> aa \<le> 0 then [] else [(k, na, aa)])
           | _ \<Rightarrow> []) (sortKeys m)))"

definition writeScorecard :: "aggregated list \<Rightarrow> string" where
  "writeScorecard agg =
     (let bs = best_cells agg; pairs = pool_pairs agg
      in ''## Scorecard\<newline>\<newline>'' @
         (if bs = [] then ''''
          else ''Lowest-latency cell per tier (latency mode):\<newline>\<newline>'' @
               concat (map (\<lambda>tier. let a = the (map_of bs tier); s = ag_Ident a in
                 ''- **'' @ tier @ ''**: '' @ rs_Transport s @ ''/'' @ rs_Codec s @ ''/'' @ rs_Fixture s @ '' p50 '' @
                 trimFloat (lookup0 (ag_Med a) ''rtt_p50_us'') 0 @ '' '' @ micros @ ''\<newline>'')
                 (orderedKeys (sortedKeys bs) tierOrder)) @ ''\<newline>'') @
         (if pairs = [] then ''''
          else ''Driver allocations per message, pool=none '' @ arrow @ '' pool=all:\<newline>\<newline>'' @
               concat (map (\<lambda>((t, c, f, g, m), na, aa). ''- '' @ t @ ''/'' @ c @ ''/'' @ f @ '': '' @ trimFloat na 2 @ '' '' @ arrow @ '' '' @
                 trimFloat aa 2 @ '' allocs/msg\<newline>'') pairs)) @
         (if pairs = [] \<and> bs = [] then ''_(no comparable cells in this run)_\<newline>'' else ''''))"

section \<open>The report\<close>

text \<open>Aggregated cells by tier, then mode, and the tables in the order they are written.\<close>

definition tier_step :: "aggregated \<Rightarrow> (string \<times> (string \<times> aggregated list) list) list \<Rightarrow> (string \<times> (string \<times> aggregated list) list) list" where
  "tier_step a m =
     (let tier = orUnknown (rs_Tier (ag_Ident a)); md = orUnknown (rs_Mode (ag_Ident a)); modes = alist_get tier [] m
      in AList.update tier (AList.update md (alist_get md [] modes @ [a]) modes) m)"

definition report_tables :: "aggregated list \<Rightarrow> (string \<times> (string \<times> aggregated list) list) list" where
  "report_tables agg =
     (let m = fold tier_step agg []
      in map (\<lambda>tier. let modes = alist_get tier [] m in (tier, map (\<lambda>md. (md, alist_get md [] modes)) (sortedKeys modes)))
           (orderedKeys (map fst m) tierOrder))"

definition renderMarkdown :: "run \<Rightarrow> string" where
  "renderMarkdown r =
     (let agg = Aggregate (ru_Cells r)
      in ''# proto-bench results '' @ em_dash @ '' `'' @ ru_RunID r @ ''`\<newline>\<newline>'' @
         ''- git: `'' @ ru_Rev r @ ''`'' @ (if ru_Dirty r then '' (dirty)'' else '''') @ ''\<newline>'' @
         (if ru_StartedAt r = '''' then '''' else ''- started: '' @ ru_StartedAt r @ '' '' @ arrow @ '' finished: '' @ ru_FinishedAt r @ ''\<newline>'') @
         (if ru_Versions r = [] then '''' else ''- versions: '' @ kvLine (ru_Versions r) @ ''\<newline>'') @
         (if ho_CPU (ru_Host r) = '''' \<and> ho_DriverCPUSet (ru_Host r) = '''' then ''''
          else ''- host: '' @ ho_CPU (ru_Host r) @ '' (driver cpuset '' @ ho_DriverCPUSet (ru_Host r) @ '')\<newline>'') @ ''\<newline>'' @
         writeClockSection r @ writeCorpusSection r @
         concat (map (\<lambda>(tier, tabs). ''## Tier: '' @ tier @ ''\<newline>\<newline>'' @
           concat (map (\<lambda>(m, cells). ''### Mode: '' @ m @ ''\<newline>\<newline>'' @ writeCellTable m cells @ ''\<newline>'') tabs)) (report_tables agg)) @
         writeScorecard agg)"


section \<open>Facts about the tables\<close>

lemma mset_partition:
  assumes "distinct ks" and "f ` set xs \<subseteq> set ks"
  shows "mset (concat (map (\<lambda>k. filter (\<lambda>x. f x = k) xs) ks)) = mset xs"
  using assms(2)
proof (induction xs)
  case (Cons x xs)
  have "mset (concat (map (\<lambda>k. filter (\<lambda>y. f y = k) (x # xs)) ks)) =
      mset (concat (map (\<lambda>k. filter (\<lambda>y. f y = k) xs) ks)) + (\<Sum>k\<leftarrow>ks. if k = f x then {#x#} else {#})"
    by (induction ks) auto
  also have "(\<Sum>k\<leftarrow>ks. if k = f x then {#x#} else {#}) = {#x#}"
    using assms(1) Cons.prems by (simp add: sum_list_distinct_conv_sum_set)
  finally show ?case using Cons by simp
qed (induction ks, auto)

lemma mset_concat_cong: "(\<And>k. mset (F k) = mset (G k)) \<Longrightarrow> mset (concat (map F ks)) = mset (concat (map G ks))"
  by (induction ks) auto

lemma alist_get_update: "alist_get k d (AList.update k' v m) = (if k = k' then v else alist_get k d m)"
  by (simp add: alist_get_def update_conv')

definition tier_of :: "aggregated \<Rightarrow> string" where
  "tier_of a = orUnknown (rs_Tier (ag_Ident a))"

definition mode_of :: "aggregated \<Rightarrow> string" where
  "mode_of a = orUnknown (rs_Mode (ag_Ident a))"

definition tiers_inv :: "aggregated list \<Rightarrow> (string \<times> (string \<times> aggregated list) list) list \<Rightarrow> bool" where
  "tiers_inv agg m \<longleftrightarrow>
     distinct (map fst m) \<and> fst ` set m = tier_of ` set agg \<and>
     (\<forall>t. distinct (map fst (alist_get t [] m)) \<and>
          fst ` set (alist_get t [] m) = mode_of ` {a \<in> set agg. tier_of a = t} \<and>
          (\<forall>k. alist_get k [] (alist_get t [] m) = filter (\<lambda>a. tier_of a = t \<and> mode_of a = k) agg))"

lemma tier_step_inv:
  assumes "tiers_inv agg m"
  shows "tiers_inv (agg @ [a]) (tier_step a m)"
proof -
  let ?t = "tier_of a" and ?k = "mode_of a"
  have E: "tier_step a m = AList.update ?t (AList.update ?k (alist_get ?k [] (alist_get ?t [] m) @ [a]) (alist_get ?t [] m)) m"
    by (simp add: tier_step_def tier_of_def mode_of_def Let_def)
  have "distinct (map fst (tier_step a m))" "fst ` set (tier_step a m) = tier_of ` set (agg @ [a])"
    using assms unfolding E by (auto simp: tiers_inv_def distinct_update dom_update)
  moreover have "distinct (map fst (alist_get t [] (tier_step a m))) \<and>
      fst ` set (alist_get t [] (tier_step a m)) = mode_of ` {b \<in> set (agg @ [a]). tier_of b = t} \<and>
      (\<forall>k. alist_get k [] (alist_get t [] (tier_step a m)) = filter (\<lambda>b. tier_of b = t \<and> mode_of b = k) (agg @ [a]))" for t
  proof (cases "t = ?t")
    case True
    have I: "distinct (map fst (alist_get ?t [] m))" "fst ` set (alist_get ?t [] m) = mode_of ` {b \<in> set agg. tier_of b = ?t}"
      "\<And>k. alist_get k [] (alist_get ?t [] m) = filter (\<lambda>b. tier_of b = ?t \<and> mode_of b = k) agg"
      using assms by (auto simp: tiers_inv_def)
    have "fst ` set (AList.update ?k v (alist_get ?t [] m)) = insert ?k (mode_of ` {b \<in> set agg. tier_of b = ?t})" for v
      using I(2) by (simp add: dom_update)
    then show ?thesis unfolding True E alist_get_update using I by (auto simp: alist_get_update distinct_update)
  next
    case False
    then show ?thesis using assms unfolding E alist_get_update by (auto simp: tiers_inv_def)
  qed
  ultimately show ?thesis by (simp add: tiers_inv_def)
qed

lemma tiers_fold: "tiers_inv agg (fold tier_step agg [])"
proof (induction agg rule: rev_induct)
  case Nil
  show ?case by (simp add: tiers_inv_def alist_get_def)
next
  case (snoc a agg)
  then show ?case using tier_step_inv by simp
qed

lemma orderedKeys_set:
  assumes "distinct keys" and "distinct pref"
  shows "set (orderedKeys keys pref) = set keys" and "distinct (orderedKeys keys pref)"
  using assms by (auto simp: orderedKeys_def Let_def)

section \<open>Facts about the flat table\<close>

lemma Split_append: "c \<notin> set x \<Longrightarrow> Split c (x @ c # ys) = x # Split c ys"
  by (induction x) auto

lemma Split_whole: "c \<notin> set x \<Longrightarrow> Split c x = [x]"
  by (induction x) auto

lemma Split_Join: "xs \<noteq> [] \<Longrightarrow> \<forall>x \<in> set xs. c \<notin> set x \<Longrightarrow> Split c (Join [c] xs) = xs"
  by (induction "[c]" xs rule: Join.induct) (auto simp: Split_append Split_whole)

lemma Split_lines: "\<forall>x \<in> set rows. c \<notin> set x \<Longrightarrow> Split c (concat (map (\<lambda>x. x @ [c]) rows)) = rows @ [[]]"
  by (induction rows) (auto simp: Split_append)

lemma set_Join: "set (Join sep xs) \<subseteq> set sep \<union> \<Union> (set ` set xs)"
  by (induction sep xs rule: Join.induct) auto

text \<open>Numbers and truth values contain neither tabs nor line ends.\<close>

definition printable :: "string \<Rightarrow> bool" where
  "printable s \<longleftrightarrow> CHR 0x09 \<notin> set s \<and> CHR 0x0A \<notin> set s"

lemma printable_append [simp]: "printable (x @ y) \<longleftrightarrow> printable x \<and> printable y"
  by (auto simp: printable_def)

lemma printable_Cons: "printable (x # xs) \<longleftrightarrow> x \<noteq> CHR 0x09 \<and> x \<noteq> CHR 0x0A \<and> printable xs"
  by (auto simp: printable_def)

lemma printable_subset: "set x \<subseteq> set y \<Longrightarrow> printable y \<Longrightarrow> printable x"
  by (auto simp: printable_def)

lemma printable_digits: "list_all is_digit s \<Longrightarrow> printable s"
  by (auto simp: printable_def list_all_iff is_digit_def)

lemma printable_nat [simp]: "printable (nat_to_dec n)"
  by (rule printable_digits) (rule nat_to_dec_digits)

lemma printable_itoa [simp]: "printable (itoa i)"
  by (auto simp: itoa_def printable_def [of "CHR ''-'' # _"]) (use printable_nat in \<open>auto simp: printable_def\<close>)

lemma printable_fixed: "printable (FormatFixed f dec)"
proof -
  have "printable (pad_left n s)" if "printable s" for n s
    using that by (auto simp: pad_left_def printable_def)
  moreover have "printable ''-''" "printable ''.''" "printable ''''" by (simp_all add: printable_def)
  ultimately show ?thesis by (simp add: FormatFixed_def Let_def printable_Cons)
qed

lemma printable_trimFloat [simp]: "printable (trimFloat f dec)"
proof -
  have sub: "set (TrimRight p s) \<subseteq> set s" for p s by (auto simp: TrimRight_def dest: set_dropWhileD)
  have "printable (TrimRight p (TrimRight q (FormatFixed f dec)))" for p q
    by (rule printable_subset [OF _ printable_fixed]) (use sub in blast)
  then show ?thesis by (simp add: trimFloat_def Let_def printable_fixed)
qed

lemma printable_bool [simp]: "printable (FormatBool b)"
  by (simp add: FormatBool_def printable_def)


section \<open>Properties\<close>

text \<open>The Markdown report shows every aggregated cell exactly once.  Its tables hold, together, exactly the
  aggregated cells of the run; a table stands under the tier and the mode of each of its cells and is not
  empty; every tier that occurs has one section, the known tiers first and in their order; the modes of
  a section and the rows of a table are sorted.\<close>

theorem report_complete:
  "mset (concat (map (\<lambda>(tier, tabs). concat (map snd tabs)) (report_tables agg))) = mset agg \<and>
   distinct (map fst (report_tables agg)) \<and>
   (\<exists>others. map fst (report_tables agg) = filter (\<lambda>t. t \<in> tier_of ` set agg) tierOrder @ others \<and> sorted others) \<and>
   (\<forall>(tier, tabs) \<in> set (report_tables agg). sorted (map fst tabs) \<and> distinct (map fst tabs) \<and>
      (\<forall>(m, cells) \<in> set tabs. cells \<noteq> [] \<and> (\<forall>a \<in> set cells. tier_of a = tier \<and> mode_of a = m) \<and>
         sorted (map agg_key (sortAgg cells)) \<and> mset (sortAgg cells) = mset cells))"
proof -
  let ?m = "fold tier_step agg []"
  have I: "distinct (map fst ?m)" "fst ` set ?m = tier_of ` set agg"
    "\<And>t. distinct (map fst (alist_get t [] ?m))" "\<And>t. fst ` set (alist_get t [] ?m) = mode_of ` {a \<in> set agg. tier_of a = t}"
    "\<And>t k. alist_get k [] (alist_get t [] ?m) = filter (\<lambda>a. tier_of a = t \<and> mode_of a = k) agg"
    using tiers_fold [of agg] by (auto simp: tiers_inv_def)
  have dt: "distinct tierOrder" by (simp add: tierOrder_def)
  let ?ks = "orderedKeys (map fst ?m) tierOrder"
  note O = orderedKeys_set [OF I(1) dt]
  have R: "report_tables agg = map (\<lambda>t. (t, map (\<lambda>k. (k, filter (\<lambda>a. tier_of a = t \<and> mode_of a = k) agg)) (sortedKeys (alist_get t [] ?m)))) ?ks"
    by (simp add: report_tables_def Let_def I(5))
  have inner: "mset (concat (map (\<lambda>k. filter (\<lambda>a. tier_of a = t \<and> mode_of a = k) agg) (sortedKeys (alist_get t [] ?m)))) = mset (filter (\<lambda>a. tier_of a = t) agg)" for t
  proof -
    have "mset (concat (map (\<lambda>k. filter (\<lambda>a. mode_of a = k) (filter (\<lambda>a. tier_of a = t) agg)) (sortedKeys (alist_get t [] ?m)))) = mset (filter (\<lambda>a. tier_of a = t) agg)"
      by (rule mset_partition) (use I(3,4) [of t] in \<open>auto simp: sortedKeys_def\<close>)
    then show ?thesis by (simp add: conj_commute)
  qed
  have flat: "concat (map (\<lambda>(tier, tabs). concat (map snd tabs)) (report_tables agg)) =
      concat (map (\<lambda>t. concat (map (\<lambda>k. filter (\<lambda>a. tier_of a = t \<and> mode_of a = k) agg) (sortedKeys (alist_get t [] ?m)))) ?ks)"
    unfolding R by (simp add: comp_def)
  have "mset (concat (map (\<lambda>(tier, tabs). concat (map snd tabs)) (report_tables agg))) =
      mset (concat (map (\<lambda>t. filter (\<lambda>a. tier_of a = t) agg) ?ks))"
    unfolding flat by (rule mset_concat_cong) (rule inner)
  also have "\<dots> = mset agg" by (rule mset_partition) (use O I(2) in auto)
  finally have A: "mset (concat (map (\<lambda>(tier, tabs). concat (map snd tabs)) (report_tables agg))) = mset agg" .
  have fsts: "map fst (report_tables agg) = ?ks" by (simp add: R comp_def)
  have ord: "\<exists>others. ?ks = filter (\<lambda>t. t \<in> tier_of ` set agg) tierOrder @ others \<and> sorted others"
    using I(2) by (simp add: orderedKeys_def Let_def)
  have tabs: "sorted (map fst tabs) \<and> distinct (map fst tabs) \<and>
      (\<forall>(m, cells) \<in> set tabs. cells \<noteq> [] \<and> (\<forall>a \<in> set cells. tier_of a = tier \<and> mode_of a = m) \<and>
         sorted (map agg_key (sortAgg cells)) \<and> mset (sortAgg cells) = mset cells)"
    if "(tier, tabs) \<in> set (report_tables agg)" for tier tabs
  proof -
    have t: "tabs = map (\<lambda>k. (k, filter (\<lambda>a. tier_of a = tier \<and> mode_of a = k) agg)) (sortedKeys (alist_get tier [] ?m))"
      using that by (auto simp: R)
    have k: "set (sortedKeys (alist_get tier [] ?m)) = mode_of ` {a \<in> set agg. tier_of a = tier}"
      using I(4) by (simp add: sortedKeys_def)
    have "map fst tabs = sortedKeys (alist_get tier [] ?m)" by (simp add: t comp_def)
    then have "sorted (map fst tabs)" "distinct (map fst tabs)" using I(3) by (simp_all add: sortedKeys_def)
    moreover have "cells \<noteq> [] \<and> (\<forall>a \<in> set cells. tier_of a = tier \<and> mode_of a = m)" if "(m, cells) \<in> set tabs" for m cells
      using that k by (auto simp: t filter_empty_conv)
    ultimately show ?thesis by (auto simp: sortAgg_def)
  qed
  show ?thesis
  proof (intro conjI)
    show "\<forall>(tier, tabs) \<in> set (report_tables agg). sorted (map fst tabs) \<and> distinct (map fst tabs) \<and>
      (\<forall>(m, cells) \<in> set tabs. cells \<noteq> [] \<and> (\<forall>a \<in> set cells. tier_of a = tier \<and> mode_of a = m) \<and>
         sorted (map agg_key (sortAgg cells)) \<and> mset (sortAgg cells) = mset cells)"
      by (intro ballI, unfold split_paired_all prod.case, rule tabs)
  qed (use A O(2) fsts ord in simp_all)
qed

text \<open>The flat table can be read back.  When the run's labels contain neither tabs nor line ends, splitting
  the table into lines and each line at its tabs gives back the header and one row per executed cell
  and repeat, in order, all of the header's width; whatever the numbers are.\<close>

theorem tsv_roundtrip:
  assumes "\<forall>c \<in> set (ru_Cells r). \<forall>s \<in> {rc_ID c, rc_HGRM c, rs_Grafana (rc_Summary c), rs_Tier (rc_Summary c), rs_Transport (rc_Summary c),
             rs_Codec (rc_Summary c), rs_Fixture (rc_Summary c), rs_Pool (rc_Summary c), rs_GC (rc_Summary c), rs_Mode (rc_Summary c)}. printable s"
  shows "map (Split CHR 0x09) (butlast (Split CHR 0x0A (renderTSV r))) = tsv_head # map tsv_row (ru_Cells r) \<and>
         (\<forall>c \<in> set (ru_Cells r). length (tsv_row c) = length tsv_head)"
proof
  let ?rows = "tsv_head # map tsv_row (ru_Cells r)"
  have "\<forall>n \<in> set (colNames NumericColumns). printable n" by (simp add: colNames_def NumericColumns_def printable_def)
  then have head: "\<forall>x \<in> set tsv_head. printable x" by (auto simp: tsv_head_def printable_def)
  have "\<forall>x \<in> set (tsv_row c). printable x" if "c \<in> set (ru_Cells r)" for c
    using assms that by (auto simp: tsv_row_def Let_def)
  with head have clean: "\<forall>row \<in> set ?rows. \<forall>x \<in> set row. printable x" by auto
  have ne: "\<forall>row \<in> set ?rows. row \<noteq> []" by (auto simp: tsv_head_def tsv_row_def Let_def)
  have rejoin: "Split CHR 0x09 (Join [CHR 0x09] row) = row" if "row \<noteq> []" "\<forall>x \<in> set row. printable x" for row
    using that by (intro Split_Join) (auto simp: printable_def)
  have lines: "\<forall>l \<in> set (map (Join [CHR 0x09]) ?rows). CHR 0x0A \<notin> set l"
    using clean set_Join [of "[CHR 0x09]"] by (fastforce simp: printable_def)
  have "renderTSV r = concat (map (\<lambda>l. l @ [CHR 0x0A]) (map (Join [CHR 0x09]) ?rows))" by (simp add: renderTSV_def comp_def)
  then have "butlast (Split CHR 0x0A (renderTSV r)) = map (Join [CHR 0x09]) ?rows" using Split_lines [OF lines] by simp
  moreover have "map (Split CHR 0x09) (map (Join [CHR 0x09]) ?rows) = ?rows"
    unfolding map_map comp_def by (rule map_idI) (use clean ne in \<open>blast intro: rejoin\<close>)
  ultimately show "map (Split CHR 0x09) (butlast (Split CHR 0x0A (renderTSV r))) = ?rows" by simp
  show "\<forall>c \<in> set (ru_Cells r). length (tsv_row c) = length tsv_head"
    by (simp add: tsv_row_def tsv_head_def colNames_def Let_def)
qed


theorem tsv_roundtrip_witness:
  "map (Split CHR 0x09) (butlast (Split CHR 0x0A (renderTSV
     \<lparr>ru_RunID = ''r'', ru_StartedAt = '''', ru_FinishedAt = '''', ru_Rev = ''abc'', ru_Dirty = False, ru_Versions = [],
      ru_Host = \<lparr>ho_CPU = '''', ho_DriverCPUSet = ''''\<rparr>, ru_Clock = [], ru_Seed = 1, ru_Fixtures = [],
      ru_Cells = [\<lparr>rc_ID = ''g'', rc_Repeat = 0, rc_Summary = zero_summary, rc_HGRM = ''''\<rparr>]\<rparr>))) =
   [tsv_head, tsv_row \<lparr>rc_ID = ''g'', rc_Repeat = 0, rc_Summary = zero_summary, rc_HGRM = ''''\<rparr>]"
proof -
  let ?r = "\<lparr>ru_RunID = ''r'', ru_StartedAt = '''', ru_FinishedAt = '''', ru_Rev = ''abc'', ru_Dirty = False, ru_Versions = [],
      ru_Host = \<lparr>ho_CPU = '''', ho_DriverCPUSet = ''''\<rparr>, ru_Clock = [], ru_Seed = 1, ru_Fixtures = [],
      ru_Cells = [\<lparr>rc_ID = ''g'', rc_Repeat = 0, rc_Summary = zero_summary, rc_HGRM = ''''\<rparr>]\<rparr>"
  have "\<forall>c \<in> set (ru_Cells ?r). \<forall>s \<in> {rc_ID c, rc_HGRM c, rs_Grafana (rc_Summary c), rs_Tier (rc_Summary c), rs_Transport (rc_Summary c),
             rs_Codec (rc_Summary c), rs_Fixture (rc_Summary c), rs_Pool (rc_Summary c), rs_GC (rc_Summary c), rs_Mode (rc_Summary c)}. printable s"
    by (simp add: zero_summary_def printable_def)
  from tsv_roundtrip [OF this] show ?thesis by simp
qed

text \<open>Bounded quantifiers of the tables at a run of one cell.\<close>

theorem report_complete_witness:
  "mset (concat (map (\<lambda>(tier, tabs). concat (map snd tabs))
     (report_tables (Aggregate [\<lparr>rc_ID = ''g'', rc_Repeat = 0, rc_Summary = zero_summary, rc_HGRM = ''''\<rparr>])))) =
   mset (Aggregate [\<lparr>rc_ID = ''g'', rc_Repeat = 0, rc_Summary = zero_summary, rc_HGRM = ''''\<rparr>])"
  using report_complete [of "Aggregate [\<lparr>rc_ID = ''g'', rc_Repeat = 0, rc_Summary = zero_summary, rc_HGRM = ''''\<rparr>]"] by (rule conjunct1)

end
