(* ===== verification/Idempotency.thy ===== *)
theory Idempotency
  imports Rpc_Core
begin

text \<open>
  The idempotency cache (\<open>clients/internal/rpc/idempotency.go\<close>): the remembered response of a
  completed logical operation, keyed by idempotency key, with a time to live.

  The clock is an argument: \<open>Get\<close> reads it once before taking the lock, \<open>Put\<close> once while
  holding it.  The contract a client relies on is the locale \<open>replay_cache\<close>, interpreted on the
  model at the end of the theory.
\<close>

section \<open>The cache\<close>

record entry =
  resp :: rpc_response
  expires :: timestamp

record idempotency_cache =
  ttl :: duration
  entries :: "string \<Rightarrow> entry option"
  hits :: u64

definition NewIdempotencyCache :: "duration \<Rightarrow> idempotency_cache" where
  "NewIdempotencyCache d = \<lparr>ttl = d, entries = Map.empty, hits = 0\<rparr>"

definition Get :: "timestamp \<Rightarrow> string \<Rightarrow> idempotency_cache \<Rightarrow> rpc_response option \<times> idempotency_cache" where
  "Get now key c =
     (if key = '''' \<or> ttl c \<le> 0 then (None, c)
      else (case entries c key of
              None \<Rightarrow> (None, c)
            | Some e \<Rightarrow>
                if now > expires e then (None, c\<lparr>entries := (entries c)(key := None)\<rparr>)
                else (Some (resp e), c\<lparr>hits := hits c + 1\<rparr>)))"

definition Put :: "timestamp \<Rightarrow> string \<Rightarrow> rpc_response \<Rightarrow> idempotency_cache \<Rightarrow> idempotency_cache" where
  "Put now key r c =
     (if key = '''' \<or> ttl c \<le> 0 then c
      else c\<lparr>entries := (entries c)(key \<mapsto> \<lparr>resp = r, expires = now + ttl c\<rparr>)\<rparr>)"

definition Hits :: "idempotency_cache \<Rightarrow> u64" where
  "Hits c = hits c"

section \<open>What a lookup sees\<close>

text \<open>The live value of a key at an instant.\<close>

definition live :: "timestamp \<Rightarrow> string \<Rightarrow> idempotency_cache \<Rightarrow> rpc_response option" where
  "live now key c =
     (if key = '''' \<or> ttl c \<le> 0 then None
      else (case entries c key of
              None \<Rightarrow> None
            | Some e \<Rightarrow> if now > expires e then None else Some (resp e)))"

lemma fst_Get: "fst (Get now key c) = live now key c"
  by (simp add: Get_def live_def split: option.split)

lemma ttl_Get [simp]: "ttl (snd (Get now key c)) = ttl c"
  by (simp add: Get_def split: option.split)

lemma ttl_Put [simp]: "ttl (Put now key r c) = ttl c"
  by (simp add: Put_def)

lemma live_Get: "now \<le> t \<Longrightarrow> live t k (snd (Get now key c)) = live t k c"
  by (auto simp: Get_def live_def split: option.split)

lemma live_Put:
  "live t k (Put now key r c) =
     (if k = key \<and> key \<noteq> '''' \<and> ttl c > 0 \<and> t \<le> now + ttl c then Some r
      else if k = key \<and> key \<noteq> '''' \<and> ttl c > 0 then None
      else live t k c)"
  by (auto simp: Put_def live_def)

lemma live_antimono: "live t k c = Some r \<Longrightarrow> t' \<le> t \<Longrightarrow> live t' k c = Some r"
  by (auto simp: live_def split: option.splits if_splits)

lemma live_expired: "live t k c = None \<Longrightarrow> t \<le> t' \<Longrightarrow> live t' k c = None"
  by (auto simp: live_def split: option.splits if_splits)

lemma hits_Get:
  "hits (snd (Get now key c)) = (if live now key c = None then hits c else hits c + 1)"
  by (auto simp: Get_def live_def split: option.split)

section \<open>The contract of a replay cache\<close>

text \<open>The operations the idempotent handler calls, and what it relies on: lookups and stores
  answer for the observable value of a key, a stored value is seen until its time to live has
  passed, and nothing else changes the value of a key at later times.\<close>

locale replay_cache =
  fixes get :: "timestamp \<Rightarrow> string \<Rightarrow> 'c \<Rightarrow> 'r option \<times> 'c"
    and put :: "timestamp \<Rightarrow> string \<Rightarrow> 'r \<Rightarrow> 'c \<Rightarrow> 'c"
    and val :: "timestamp \<Rightarrow> string \<Rightarrow> 'c \<Rightarrow> 'r option"
    and life :: "'c \<Rightarrow> duration"
  assumes get_val: "fst (get t k c) = val t k c"
    and val_get: "t \<le> t' \<Longrightarrow> val t' j (snd (get t k c)) = val t' j c"
    and val_put: "k \<noteq> '''' \<Longrightarrow> life c > 0 \<Longrightarrow> val t' k (put t k r c) = (if t' \<le> t + life c then Some r else None)"
    and val_put_other: "j \<noteq> k \<Longrightarrow> val t' j (put t k r c) = val t' j c"
    and val_antimono: "val t k c = Some r \<Longrightarrow> t' \<le> t \<Longrightarrow> val t' k c = Some r"
    and life_get: "life (snd (get t k c)) = life c"
    and life_put: "life (put t k r c) = life c"
begin

lemma get_after_put:
  "k \<noteq> '''' \<Longrightarrow> life c > 0 \<Longrightarrow> t' \<le> t + life c \<Longrightarrow> fst (get t' k (put t k r c)) = Some r"
  by (simp add: get_val val_put)

lemma get_after_get:
  "t \<le> t' \<Longrightarrow> fst (get t' j (snd (get t k c))) = fst (get t' j c)"
  by (simp add: get_val val_get)

text \<open>Earlier lookups, of any keys, change no value.\<close>

lemma val_gets:
  "\<forall>q\<in>set qs. fst q \<le> t' \<Longrightarrow> val t' j (fold (\<lambda>(t, k) c. snd (get t k c)) qs c) = val t' j c"
proof (induction qs arbitrary: c)
  case (Cons q qs)
  then show ?case using val_get [of "fst q" t' j "snd q" c] by (simp add: case_prod_unfold)
qed simp

end

interpretation ic: replay_cache Get Put live ttl
  by unfold_locales (simp_all add: fst_Get live_Get live_Put, erule (1) live_antimono)

section \<open>Properties\<close>

text \<open>A response put under a nonempty key is returned by every lookup of that key up to and
  including the instant its time to live ends, however many lookups (of any keys)
  come in between, and by none after it.  A disabled cache or the empty key never hits.\<close>

theorem idempotency_get_put:
  assumes "\<forall>q\<in>set qs. fst q \<le> t'"
  shows "fst (Get t' key (fold (\<lambda>(u, k) c. snd (Get u k c)) qs (Put t key r c))) =
           (if key = '''' \<or> ttl c \<le> 0 then None else if t' \<le> t + ttl c then Some r else None)"
proof (cases "key = '''' \<or> ttl c \<le> 0")
  case True
  have "ttl (fold (\<lambda>(u, k) c. snd (Get u k c)) qs d) = ttl d" for d
    by (induction qs arbitrary: d) auto
  with True show ?thesis by (auto simp: fst_Get live_def)
next
  case False
  with assms show ?thesis by (simp add: fst_Get ic.val_gets ic.val_put)
qed

theorem idempotency_get_put_witness:
  "fst (Get 12 ''k'' (fold (\<lambda>(u, k) c. snd (Get u k c)) [(3, ''k''), (4, ''j'')]
      (Put 2 ''k'' zero_response (NewIdempotencyCache 10)))) = Some zero_response"
  using idempotency_get_put [of "[(3, ''k''), (4, ''j'')]" 12 "''k''" 2 zero_response "NewIdempotencyCache 10"]
  by (simp add: NewIdempotencyCache_def)

end
