(* ===== verification/Mux.thy ===== *)
theory Mux
  imports Rpc_Core
begin

text \<open>
  The server-side router (\<open>clients/internal/rpc/mux.go\<close>): a table from \<open>service.method\<close> to a
  registered method handler, and the dispatch of one routed request, which decodes, validates,
  invokes, packs and stamps.

  The handler is application code: a function of the decoded request and of the application's
  state \<open>'w\<close>, returning an error or a possibly nil message, and the new state.  The protobuf
  library and the validator are the record \<open>proto_lib\<close>, an argument of \<open>Dispatch\<close>; the clock
  readings are the record \<open>stamps\<close>.
\<close>

section \<open>The table and its operations\<close>

record 'm proto_lib =
  anypb_New :: "'m \<Rightarrow> gerr + any_pb"
  anypb_UnmarshalTo :: "any_pb \<Rightarrow> 'm \<Rightarrow> gerr + 'm"
  protovalidate :: "'m \<Rightarrow> gerr option"

type_synonym ('m, 'w) method_handler = "'m \<Rightarrow> 'w \<Rightarrow> (gerr + 'm option) \<times> 'w"

record ('m, 'w) route =
  newReq :: 'm
  handle :: "('m, 'w) method_handler"

record ('m, 'w) mux =
  routes :: "string \<Rightarrow> ('m, 'w) route option"
  validate :: bool

record stamps =
  t_received :: timestamp
  t_invoke :: timestamp
  t_done :: timestamp
  t_sent :: timestamp

definition NewMux :: "bool \<Rightarrow> ('m, 'w) mux" where
  "NewMux v = \<lparr>routes = Map.empty, validate = v\<rparr>"

definition muxKey :: "string \<Rightarrow> string \<Rightarrow> string" where
  "muxKey service method = service @ ''.'' @ method"

text \<open>A duplicate registration panics: \<open>Inl\<close> is the panic value.\<close>

definition Handle ::
  "string \<Rightarrow> string \<Rightarrow> 'm \<Rightarrow> ('m, 'w) method_handler \<Rightarrow> ('m, 'w) mux \<Rightarrow> string + ('m, 'w) mux" where
  "Handle service method new h m =
     (let k = muxKey service method in
      case routes m k of
        Some dup \<Rightarrow> Inl (''rpc: Mux.Handle: duplicate route '' @ quoted k)
      | None \<Rightarrow> Inr (m\<lparr>routes := (routes m)(k \<mapsto> \<lparr>newReq = new, handle = h\<rparr>)\<rparr>))"

text \<open>The \<open>%v\<close> verb copies the text of an error and drops its identity.\<close>

definition dispatch ::
  "'m proto_lib \<Rightarrow> stamps \<Rightarrow> rpc_request \<Rightarrow> ('m, 'w) route option \<Rightarrow> ('m, 'w) mux \<Rightarrow> 'w \<Rightarrow> rpc_response \<times> 'w"
where
  "dispatch L ts req r m w =
     (case r of
        None \<Rightarrow>
          (ErrorResponse req (Wrapf '''' (Sentinel ErrNotFound)
             ('': '' @ rq_Service req @ ''.'' @ rq_Method req)), w)
      | Some rt \<Rightarrow>
          (case UnpackInto (anypb_UnmarshalTo L) (rq_Payload req) (Some (newReq rt)) of
             Inl err \<Rightarrow>
               (ErrorResponse req (Wrapf '''' (Sentinel ErrInvalidArgument) ('': decode: '' @ Error err)), w)
           | Inr msg \<Rightarrow>
               (case (if validate m then protovalidate L msg else None) of
                  Some err \<Rightarrow>
                    (ErrorResponse req (Wrapf '''' (Sentinel ErrInvalidArgument) ('': '' @ Error err)), w)
                | None \<Rightarrow>
                    (let (out, w') = handle rt msg w in
                     case out of
                       Inl err \<Rightarrow> (ErrorResponse req err, w')
                     | Inr o_msg \<Rightarrow>
                         (case NewResponse (anypb_New L) req o_msg of
                            Inl perr \<Rightarrow>
                              (ErrorResponse req
                                 (Wrapf '''' (Sentinel ErrInvalidArgument) ('': encode: '' @ Error perr)), w')
                          | Inr resp \<Rightarrow>
                              (resp\<lparr>rs_GatewayBInvoke := Some (t_invoke ts),
                                    rs_ServiceResp := Some (t_done ts)\<rparr>, w'))))))"

definition Dispatch ::
  "'m proto_lib \<Rightarrow> stamps \<Rightarrow> rpc_request \<Rightarrow> ('m, 'w) mux \<Rightarrow> 'w \<Rightarrow> rpc_response \<times> 'w" where
  "Dispatch L ts req m w =
     (let r = routes m (muxKey (rq_Service req) (rq_Method req));
          (resp, w') = dispatch L ts req r m w
      in (resp\<lparr>rs_ServerReceivedAt := Some (t_received ts), rs_GatewayBRecv := Some (t_received ts),
               rs_ServerSentAt := Some (t_sent ts)\<rparr>, w'))"

section \<open>Which requests reach the application\<close>

text \<open>The decoded message of a request that passes routing, decoding and validation, with the
  route that will serve it.\<close>

definition admitted ::
  "'m proto_lib \<Rightarrow> rpc_request \<Rightarrow> ('m, 'w) mux \<Rightarrow> (('m, 'w) route \<times> 'm) option" where
  "admitted L req m =
     (case routes m (muxKey (rq_Service req) (rq_Method req)) of
        None \<Rightarrow> None
      | Some rt \<Rightarrow>
          (case UnpackInto (anypb_UnmarshalTo L) (rq_Payload req) (Some (newReq rt)) of
             Inl e \<Rightarrow> None
           | Inr msg \<Rightarrow> if validate m \<and> protovalidate L msg \<noteq> None then None else Some (rt, msg)))"

lemma admitted_None_cases:
  assumes "admitted L req m = None"
  obtains (no_route) "routes m (muxKey (rq_Service req) (rq_Method req)) = None"
  | (undecodable) rt e where "routes m (muxKey (rq_Service req) (rq_Method req)) = Some rt"
      "UnpackInto (anypb_UnmarshalTo L) (rq_Payload req) (Some (newReq rt)) = Inl e"
  | (invalid) rt msg e where "routes m (muxKey (rq_Service req) (rq_Method req)) = Some rt"
      "UnpackInto (anypb_UnmarshalTo L) (rq_Payload req) (Some (newReq rt)) = Inr msg"
      "validate m" "protovalidate L msg = Some e"
  using assms that by (auto simp: admitted_def split: option.splits sum.splits if_splits)

lemma Dispatch_rejected:
  assumes "admitted L req m = None"
  shows "snd (Dispatch L ts req m w) = w \<and>
         rs_Status (fst (Dispatch L ts req m w)) =
           (if routes m (muxKey (rq_Service req) (rq_Method req)) = None then STATUS_NOT_FOUND
            else STATUS_INVALID_ARGUMENT)"
  using assms by (cases rule: admitted_None_cases) (simp_all add: Dispatch_def dispatch_def)

lemma Dispatch_admitted:
  assumes "admitted L req m = Some (rt, msg)" and "handle rt msg w = (out, w')"
  shows "Dispatch L ts req m w =
    ((case out of
        Inl err \<Rightarrow> ErrorResponse req err
      | Inr o_msg \<Rightarrow>
          (case NewResponse (anypb_New L) req o_msg of
             Inl perr \<Rightarrow> ErrorResponse req (Wrapf '''' (Sentinel ErrInvalidArgument) ('': encode: '' @ Error perr))
           | Inr resp \<Rightarrow> resp\<lparr>rs_GatewayBInvoke := Some (t_invoke ts), rs_ServiceResp := Some (t_done ts)\<rparr>))
       \<lparr>rs_ServerReceivedAt := Some (t_received ts), rs_GatewayBRecv := Some (t_received ts),
        rs_ServerSentAt := Some (t_sent ts)\<rparr>, w')"
  using assms
  by (auto simp: admitted_def Dispatch_def dispatch_def split: option.splits sum.splits if_splits)

lemma snd_Dispatch:
  "snd (Dispatch L ts req m w) =
     (case admitted L req m of None \<Rightarrow> w | Some (rt, msg) \<Rightarrow> snd (handle rt msg w))"
proof (cases "admitted L req m")
  case None
  then show ?thesis by (simp add: Dispatch_rejected)
next
  case (Some a)
  obtain rt msg where a: "a = (rt, msg)" by (cases a)
  obtain out w' where h: "handle rt msg w = (out, w')" by (cases "handle rt msg w")
  show ?thesis by (simp add: Some a h Dispatch_admitted [OF Some [unfolded a] h])
qed

lemma echoes_stamp [simp]:
  "echoes req (resp\<lparr>rs_ServerReceivedAt := a, rs_GatewayBRecv := b, rs_ServerSentAt := c\<rparr>) = echoes req resp"
  "echoes req (resp\<lparr>rs_GatewayBInvoke := d, rs_ServiceResp := e\<rparr>) = echoes req resp"
  by (simp_all add: echoes_def)

lemma Dispatch_echoes: "echoes req (fst (Dispatch L ts req m w))"
  by (auto simp: Dispatch_def dispatch_def echoes_NewResponse Let_def split: option.splits sum.splits prod.splits)

text \<open>No handler of the table reports a failure under the status that means success.\<close>

definition honest_handlers :: "('m, 'w) mux \<Rightarrow> bool" where
  "honest_handlers m \<longleftrightarrow>
     (\<forall>k rt msg w err w'. routes m k = Some rt \<longrightarrow> handle rt msg w = (Inl err, w') \<longrightarrow>
        StatusOf (Some err) \<noteq> STATUS_OK)"

lemma admitted_route: "admitted L req m = Some (rt, msg) \<Longrightarrow> \<exists>k. routes m k = Some rt"
  by (auto simp: admitted_def split: option.splits sum.splits if_splits)

section \<open>A concrete instance\<close>

text \<open>A library over raw bytes and a one-route table, on which the properties are evaluated.\<close>

definition bytes_lib :: "bytes proto_lib" where
  "bytes_lib =
     \<lparr>anypb_New = (\<lambda>b. Inr \<lparr>TypeUrl = ''bytes'', AnyValue = b\<rparr>),
      anypb_UnmarshalTo = (\<lambda>a t. Inr (AnyValue a)),
      protovalidate = (\<lambda>b. if b = [] then Some (Opaque ''value is required'') else None)\<rparr>"

definition sample_mux :: "(bytes, nat) mux" where
  "sample_mux =
     \<lparr>routes = [''echo.Echo'' \<mapsto> \<lparr>newReq = [], handle = (\<lambda>b n. (Inr (Some b), Suc n))\<rparr>], validate = True\<rparr>"

definition sample_request :: rpc_request where
  "sample_request =
     zero_request\<lparr>rq_RequestId := ''r1'', rq_Service := ''echo'', rq_Method := ''Echo'',
                  rq_IdempotencyKey := ''k'', rq_ClientSentAt := Some 7, rq_Timeout := Some Second,
                  rq_Payload := Some \<lparr>TypeUrl = ''bytes'', AnyValue = [1, 2]\<rparr>\<rparr>"

definition sample_stamps :: stamps where
  "sample_stamps = \<lparr>t_received = 10, t_invoke = 11, t_done = 12, t_sent = 13\<rparr>"

lemma admitted_sample:
  "admitted bytes_lib sample_request sample_mux =
     Some (\<lparr>newReq = [], handle = (\<lambda>b n. (Inr (Some b), Suc n))\<rparr>, [1, 2])"
  by (simp add: admitted_def sample_mux_def sample_request_def zero_request_def bytes_lib_def
      muxKey_def UnpackInto_def)

section \<open>Properties\<close>



text \<open>The statuses of the failing branches: an unknown route is NOT_FOUND; a payload that does
  not decode, or fails validation, or a result that cannot be packed, is INVALID_ARGUMENT; a
  handler's error keeps the class of the error, through any wrapping; no failing branch carries a
  payload.\<close>

theorem dispatch_errors:
  "(routes m (muxKey (rq_Service req) (rq_Method req)) = None \<longrightarrow>
      rs_Status (fst (Dispatch L ts req m w)) = STATUS_NOT_FOUND) \<and>
   (routes m (muxKey (rq_Service req) (rq_Method req)) \<noteq> None \<longrightarrow> admitted L req m = None \<longrightarrow>
      rs_Status (fst (Dispatch L ts req m w)) = STATUS_INVALID_ARGUMENT) \<and>
   (admitted L req m = Some (rt, msg) \<longrightarrow> handle rt msg w = (Inl (wrap_all ws err), w') \<longrightarrow>
      rs_Status (fst (Dispatch L ts req m w)) = StatusOf (Some err) \<and>
      rs_Payload (fst (Dispatch L ts req m w)) = None) \<and>
   (admitted L req m = Some (rt, msg) \<longrightarrow> handle rt msg w = (Inr out, w') \<longrightarrow>
      (out = None \<or> (\<exists>e. anypb_New L (the out) = Inl e)) \<longrightarrow>
      rs_Status (fst (Dispatch L ts req m w)) = STATUS_INVALID_ARGUMENT \<and>
      rs_Payload (fst (Dispatch L ts req m w)) = None)"
proof (intro conjI)
  show "routes m (muxKey (rq_Service req) (rq_Method req)) = None \<longrightarrow>
           rs_Status (fst (Dispatch L ts req m w)) = STATUS_NOT_FOUND"
    using Dispatch_rejected [of L req m ts w] by (simp add: admitted_def)
  show "routes m (muxKey (rq_Service req) (rq_Method req)) \<noteq> None \<longrightarrow> admitted L req m = None \<longrightarrow>
           rs_Status (fst (Dispatch L ts req m w)) = STATUS_INVALID_ARGUMENT"
    using Dispatch_rejected [of L req m ts w] by simp
qed (auto simp: Dispatch_admitted StatusOf_wrap_all NewResponse_def Pack_def split: option.split)

theorem dispatch_errors_witness:
  "rs_Status (fst (Dispatch bytes_lib sample_stamps (sample_request\<lparr>rq_Method := ''Nope''\<rparr>) sample_mux 0))
     = STATUS_NOT_FOUND \<and>
   rs_Status (fst (Dispatch bytes_lib sample_stamps (sample_request\<lparr>rq_Payload := None\<rparr>) sample_mux 0))
     = STATUS_INVALID_ARGUMENT"
proof -
  have "routes sample_mux (muxKey ''echo'' ''Nope'') = None"
    by (simp add: sample_mux_def muxKey_def)
  moreover have "admitted bytes_lib (sample_request\<lparr>rq_Payload := None\<rparr>) sample_mux = None"
    by (simp add: admitted_def UnpackInto_def split: option.split)
  moreover have "routes sample_mux (muxKey ''echo'' ''Echo'') =
      Some \<lparr>newReq = [], handle = (\<lambda>b n. (Inr (Some b), Suc n))\<rparr>"
    by (simp add: sample_mux_def muxKey_def)
  moreover have "rq_Service sample_request = ''echo''" and "rq_Method sample_request = ''Echo''"
    by (simp_all add: sample_request_def)
  ultimately show ?thesis
    using dispatch_errors [of sample_mux "sample_request\<lparr>rq_Method := ''Nope''\<rparr>" bytes_lib sample_stamps 0]
      dispatch_errors [of sample_mux "sample_request\<lparr>rq_Payload := None\<rparr>" bytes_lib sample_stamps 0]
    by simp
qed

lemma muxKey_inject:
  assumes "CHR ''.'' \<notin> set m" and "CHR ''.'' \<notin> set m'"
  shows "muxKey s m = muxKey s' m' \<longleftrightarrow> s = s' \<and> m = m'"
proof
  assume "muxKey s m = muxKey s' m'"
  then have eq: "rev m @ CHR ''.'' # rev s = rev m' @ CHR ''.'' # rev s'"
    unfolding muxKey_def by (metis append.assoc append_Cons append_Nil rev.simps(2) rev_append rev_rev_ident)
  have "takeWhile (\<lambda>c. c \<noteq> CHR ''.'') (rev m @ CHR ''.'' # rev s) = rev m"
    using assms(1) by (subst takeWhile_append2) auto
  moreover have "takeWhile (\<lambda>c. c \<noteq> CHR ''.'') (rev m' @ CHR ''.'' # rev s') = rev m'"
    using assms(2) by (subst takeWhile_append2) auto
  ultimately have "rev m = rev m'" using eq by simp
  with eq show "s = s' \<and> m = m'" by simp
qed simp

text \<open>Registration.  Method names without a dot (the schema allows only letters, digits and
  underscores) give every \<open>(service, method)\<close> pair its own key, even when services contain dots:
  registering one pair adds exactly that route, leaves every other pair's route alone, and panics
  exactly when the same pair is already registered.\<close>

theorem handle_registers:
  assumes "CHR ''.'' \<notin> set method" and "CHR ''.'' \<notin> set method'"
  shows "((\<exists>panic. Handle service method new h m = Inl panic) \<longleftrightarrow> routes m (muxKey service method) \<noteq> None) \<and>
         (\<forall>m'. Handle service method new h m = Inr m' \<longrightarrow>
           routes m' (muxKey service' method') =
             (if service' = service \<and> method' = method then Some \<lparr>newReq = new, handle = h\<rparr>
              else routes m (muxKey service' method')) \<and> validate m' = validate m)"
  using muxKey_inject [OF assms(2) assms(1), of service' service]
  by (auto simp: Handle_def Let_def split: option.splits)

theorem handle_registers_witness:
  "\<exists>m'. Handle ''a.b'' ''C'' [] (\<lambda>b n. (Inr (Some b), n)) sample_mux = Inr m' \<and>
        routes m' (muxKey ''echo'' ''Echo'') = routes sample_mux (muxKey ''echo'' ''Echo'')"
proof -
  let ?h = "(\<lambda>b n. (Inr (Some b), n)) :: (bytes, nat) method_handler"
  let ?m = "sample_mux\<lparr>routes := (routes sample_mux)(muxKey ''a.b'' ''C'' \<mapsto> \<lparr>newReq = [], handle = ?h\<rparr>)\<rparr>"
  have H: "Handle ''a.b'' ''C'' [] ?h sample_mux = Inr ?m"
    by (simp add: Handle_def sample_mux_def muxKey_def)
  show ?thesis
    using handle_registers [of "''C''" "''Echo''" "''a.b''" "[]" ?h sample_mux "''echo''"] H by auto
qed

end
