(* ===== verification/Service.thy ===== *)
theory Service
  imports Idempotency Mux
begin

text \<open>
  The backend service (\<open>clients/rpc-service/main.go\<close>): the idempotent handler that puts the
  cache of theory \<open>Idempotency\<close> in front of the router of theory \<open>Mux\<close>, and the two demo
  services it registers.

  One call of the handler reads the clock three times outside the router: for the lookup, and for
  the store.  A sequence of calls is \<open>serve\<close>; the application's state is threaded through.
\<close>

section \<open>The idempotent handler\<close>

record call_clock =
  t_get :: timestamp
  t_stamps :: stamps
  t_put :: timestamp

text \<open>The replay: a clone of the cached response under this attempt's request id, tagged.\<close>

definition replay_of :: "rpc_request \<Rightarrow> rpc_response \<Rightarrow> rpc_response" where
  "replay_of req cached =
     cached\<lparr>rs_RequestId := rq_RequestId req,
            rs_Metadata := (rs_Metadata cached)(''idempotent-replay'' \<mapsto> ''true'')\<rparr>"

definition idempotent ::
  "'m proto_lib \<Rightarrow> ('m, 'w) mux \<Rightarrow> call_clock \<Rightarrow> rpc_request \<Rightarrow> idempotency_cache \<times> 'w
   \<Rightarrow> rpc_response \<times> (idempotency_cache \<times> 'w)" where
  "idempotent L m ck req s =
     (case s of (c, w) \<Rightarrow>
        (let key = rq_IdempotencyKey req in
         case Get (t_get ck) key c of
           (Some cached, c1) \<Rightarrow>
             (replay_of req cached, (c1, w))
         | (None, c1) \<Rightarrow>
             (let (r, w') = Dispatch L (t_stamps ck) req m w in
              (r, (if GetStatus (Some r) = STATUS_OK then Put (t_put ck) key r c1 else c1, w')))))"

fun serve ::
  "'m proto_lib \<Rightarrow> ('m, 'w) mux \<Rightarrow> (call_clock \<times> rpc_request) list \<Rightarrow> idempotency_cache \<times> 'w
   \<Rightarrow> rpc_response list \<times> (idempotency_cache \<times> 'w)" where
  "serve L m [] s = ([], s)"
| "serve L m ((ck, req) # calls) s =
     (let (r, s1) = idempotent L m ck req s; (rs, s2) = serve L m calls s1 in (r # rs, s2))"

section \<open>The demo services\<close>

text \<open>The concrete messages of the two services; \<open>'a\<close> is the content of the generated message
  \<open>AllTypes\<close>, which the echo service never looks into.\<close>

datatype 'a service_msg =
    AllTypes 'a
  | CustomerLookupRequest (req_CustomerId: string) (req_Region: string)
  | CustomerLookupResponse string string string "string list"

fun IndexByte :: "string \<Rightarrow> char \<Rightarrow> int" where
  "IndexByte [] c = -1"
| "IndexByte (x # xs) c =
     (if x = c then 0 else let i = IndexByte xs c in if i = -1 then -1 else i + 1)"

lemma IndexByte_cases:
  "(IndexByte s c = -1 \<and> c \<notin> set s) \<or>
   (\<exists>n. IndexByte s c = int n \<and> n < length s \<and> s ! n = c \<and> c \<notin> set (take n s))"
proof (induction s)
  case (Cons x xs)
  show ?case
  proof (cases "x = c")
    case True
    then show ?thesis by (intro disjI2 exI [of _ 0]) simp
  next
    case False
    from Cons show ?thesis
    proof (elim disjE exE conjE)
      fix n assume "IndexByte xs c = int n" "n < length xs" "xs ! n = c" "c \<notin> set (take n xs)"
      with False show ?thesis by (intro disjI2 exI [of _ "Suc n"]) auto
    qed (use False in simp)
  qed
qed simp

definition echo_handler :: "('a service_msg, 'w) method_handler" where
  "echo_handler inm w = (Inr (Some inm), w)"

text \<open>The type assertion on the decoded message panics on any other message; the model returns the
  panic's text as an error, and \<open>customer_no_panic\<close> below shows that the branch is not taken.\<close>

definition customer_handler :: "('a service_msg, 'w) method_handler" where
  "customer_handler inm w =
     (case inm of
        CustomerLookupRequest cid region \<Rightarrow>
          (let i = IndexByte cid (CHR ''-'');
               short = (if i > 0 then take (nat i) cid else cid)
           in (Inr (Some (CustomerLookupResponse cid
                 (''Customer '' @ short @ '' ('' @ region @ '')'')
                 (short @ ''@'' @ region @ ''.example.com'')
                 [cid])), w))
      | _ \<Rightarrow> (Inl (Opaque ''panic: interface conversion''), w))"

definition registerEcho ::
  "'a \<Rightarrow> ('a service_msg, 'w) mux \<Rightarrow> string + ('a service_msg, 'w) mux" where
  "registerEcho zero m = Handle ''echo'' ''Echo'' (AllTypes zero) echo_handler m"

definition registerCustomer :: "('a service_msg, 'w) mux \<Rightarrow> string + ('a service_msg, 'w) mux" where
  "registerCustomer m =
     Handle ''customer'' ''Lookup'' (CustomerLookupRequest '''' '''') customer_handler m"

text \<open>The table \<open>main\<close> builds: first the customer service, then echo.\<close>

definition service_mux :: "'a \<Rightarrow> bool \<Rightarrow> string + ('a service_msg, 'w) mux" where
  "service_mux zero v =
     (case registerCustomer (NewMux v) of Inl p \<Rightarrow> Inl p | Inr m \<Rightarrow> registerEcho zero m)"

lemma service_mux_eq:
  "service_mux zero v = Inr
     \<lparr>routes = [''customer.Lookup'' \<mapsto> \<lparr>newReq = CustomerLookupRequest '''' '''', handle = customer_handler\<rparr>,
                ''echo.Echo'' \<mapsto> \<lparr>newReq = AllTypes zero, handle = echo_handler\<rparr>],
      validate = v\<rparr>"
  by (simp add: service_mux_def registerCustomer_def registerEcho_def Handle_def muxKey_def NewMux_def)

text \<open>Decoding into a message keeps its type: what \<open>anypb.UnmarshalTo\<close> documents.\<close>

definition type_preserving :: "'a service_msg proto_lib \<Rightarrow> bool" where
  "type_preserving L \<longleftrightarrow>
     (\<forall>a t v. anypb_UnmarshalTo L a t = Inr v \<longrightarrow>
        (\<forall>cid reg. t = CustomerLookupRequest cid reg \<longrightarrow> (\<exists>cid' reg'. v = CustomerLookupRequest cid' reg')))"

lemma customer_no_panic:
  assumes "type_preserving L" and "service_mux zero v = Inr m" and "admitted L req m = Some (rt, msg)"
  shows "\<exists>out. handle rt msg w = (Inr (Some out), w)"
  using assms
  by (auto simp: service_mux_eq admitted_def UnpackInto_def echo_handler_def customer_handler_def
      type_preserving_def Let_def split: option.splits sum.splits if_splits service_msg.splits)
     (metis service_msg.distinct(5) service_msg.distinct(1) service_msg.exhaust)+

section \<open>Facts about one call\<close>

text \<open>A response fresh from the router is not tagged as a replay.\<close>

definition replayed :: "rpc_response \<Rightarrow> bool" where
  "replayed r \<longleftrightarrow> rs_Metadata r ''idempotent-replay'' = Some ''true''"

definition fresh_ok :: "rpc_response \<Rightarrow> bool" where
  "fresh_ok r \<longleftrightarrow> rs_Status r = STATUS_OK \<and> \<not> replayed r"

lemma ErrorResponse_metadata [simp]: "rs_Metadata (ErrorResponse req err) = Map.empty"
  by (simp add: ErrorResponse_def zero_response_def)

lemma NewResponse_metadata: "NewResponse f req o_msg = Inr r \<Longrightarrow> rs_Metadata r = Map.empty"
  by (auto simp: NewResponse_def zero_response_def split: sum.splits)

lemma Dispatch_metadata: "rs_Metadata (fst (Dispatch L ts req m w)) = Map.empty"
  by (auto simp: Dispatch_def dispatch_def NewResponse_metadata Let_def split: option.splits sum.splits prod.splits)

lemma Dispatch_not_replayed: "\<not> replayed (fst (Dispatch L ts req m w))"
  by (simp add: replayed_def Dispatch_metadata)

lemma idempotent_hit:
  assumes "live (t_get ck) (rq_IdempotencyKey req) c = Some cached"
  shows "fst (idempotent L m ck req (c, w)) =
           replay_of req cached"
    and "snd (idempotent L m ck req (c, w)) = (snd (Get (t_get ck) (rq_IdempotencyKey req) c), w)"
  using assms fst_Get [of "t_get ck" "rq_IdempotencyKey req" c]
  by (auto simp: idempotent_def Let_def split: prod.split)

lemma idempotent_miss:
  assumes "live (t_get ck) (rq_IdempotencyKey req) c = None"
    and "Dispatch L (t_stamps ck) req m w = (r, w')"
  shows "idempotent L m ck req (c, w) =
           (r, (if rs_Status r = STATUS_OK
                then Put (t_put ck) (rq_IdempotencyKey req) r (snd (Get (t_get ck) (rq_IdempotencyKey req) c))
                else snd (Get (t_get ck) (rq_IdempotencyKey req) c), w'))"
  using assms fst_Get [of "t_get ck" "rq_IdempotencyKey req" c]
  by (auto simp: idempotent_def Let_def GetStatus_def split: prod.split option.split)

section \<open>Sequences of calls within one time to live\<close>

text \<open>Every lookup of the sequence happens by \<open>T\<close>, and \<open>T\<close> is within the time to live of every
  store.\<close>

definition in_ttl :: "timestamp \<Rightarrow> duration \<Rightarrow> (call_clock \<times> rpc_request) list \<Rightarrow> bool" where
  "in_ttl T d calls \<longleftrightarrow> (\<forall>(ck, req) \<in> set calls. t_get ck \<le> T \<and> T \<le> t_put ck + d)"

lemma within_simps [simp]:
  "in_ttl T d []"
  "in_ttl T d ((ck, req) # calls) \<longleftrightarrow> t_get ck \<le> T \<and> T \<le> t_put ck + d \<and> in_ttl T d calls"
  by (auto simp: in_ttl_def)

lemma entries_Get_other [simp]: "j \<noteq> k \<Longrightarrow> entries (snd (Get t k c)) j = entries c j"
  by (simp add: Get_def split: option.split)

lemma entries_Put_other [simp]: "j \<noteq> k \<Longrightarrow> entries (Put t k r c) j = entries c j"
  by (simp add: Put_def)

lemma entries_Get_None: "entries c k = None \<Longrightarrow> entries (snd (Get t j c)) k = None"
  by (simp add: Get_def split: option.split)

lemma live_no_entry [simp]: "entries c k = None \<Longrightarrow> live t k c = None"
  by (simp add: live_def)

lemma ttl_idempotent [simp]: "ttl (fst (snd (idempotent L m ck req (c, w)))) = ttl c"
  by (auto simp: idempotent_def Let_def split: prod.split option.split) (metis snd_conv ttl_Get ttl_Put)+

text \<open>A call under another key leaves a key's entry and its live value alone.\<close>

lemma idempotent_other:
  assumes "rq_IdempotencyKey req \<noteq> k" and "idempotent L m ck req (c, w) = (r, (c1, w1))"
  shows "entries c1 k = entries c k" and "live t k c1 = live t k c"
proof -
  show e: "entries c1 k = entries c k"
    using assms by (auto simp: idempotent_def Let_def split: prod.splits option.splits if_splits)
      (metis assms(1) entries_Get_other entries_Put_other snd_conv)+
  have "ttl c1 = ttl c" using ttl_idempotent [of L m ck req c w] assms(2) by simp
  with e show "live t k c1 = live t k c" by (simp add: live_def)
qed

text \<open>A call under a key whose response is remembered replays it.\<close>

lemma idempotent_replay:
  assumes "live T (rq_IdempotencyKey req) c = Some r0" and "t_get ck \<le> T"
  shows "\<exists>c1. idempotent L m ck req (c, w) =
           (replay_of req r0, (c1, w)) \<and>
         live T (rq_IdempotencyKey req) c1 = Some r0 \<and> ttl c1 = ttl c \<and>
         (\<forall>j. j \<noteq> rq_IdempotencyKey req \<longrightarrow> entries c1 j = entries c j)"
proof -
  have "live (t_get ck) (rq_IdempotencyKey req) c = Some r0" using assms live_antimono by blast
  from idempotent_hit [OF this, of L m w] assms show ?thesis
    by (cases "idempotent L m ck req (c, w)") (auto simp: live_Get)
qed

lemma serve_replays:
  assumes "in_ttl T (ttl c) calls" and "live T k c = Some r0"
    and "i < length calls" and "rq_IdempotencyKey (snd (calls ! i)) = k"
  shows "fst (serve L m calls (c, w)) ! i =
           replay_of (snd (calls ! i)) r0"
  using assms
proof (induction calls arbitrary: c w i)
  case (Cons call calls)
  obtain ck req where call: "call = (ck, req)" by (cases call)
  obtain r c1 w1 where step: "idempotent L m ck req (c, w) = (r, (c1, w1))"
    by (cases "idempotent L m ck req (c, w)") auto
  have ttl: "ttl c1 = ttl c" using ttl_idempotent [of L m ck req c w] step by simp
  have live: "live T k c1 = Some r0"
  proof (cases "rq_IdempotencyKey req = k")
    case True
    with idempotent_replay [of T req c r0 ck L m w] Cons.prems call step show ?thesis by auto
  next
    case False
    with idempotent_other(2) [OF False step] Cons.prems show ?thesis by simp
  qed
  show ?case
  proof (cases i)
    case 0
    with idempotent_replay [of T req c r0 ck L m w] Cons.prems call step show ?thesis
      by (auto simp: Let_def split: prod.split)
  next
    case (Suc n)
    with Cons.IH [of c1 n w1] Cons.prems call step ttl live show ?thesis
      by (auto simp: Let_def split: prod.split)
  qed
qed simp

lemma length_serve [simp]: "length (fst (serve L m calls s)) = length calls"
  by (induction L m calls s rule: serve.induct) (auto simp: Let_def split: prod.splits)

text \<open>The application's state depends on the cache only through the entries of the keys in play.\<close>

lemma idempotent_cong:
  assumes "entries c (rq_IdempotencyKey req) = entries d (rq_IdempotencyKey req)" and "ttl c = ttl d"
  shows "fst (idempotent L m ck req (c, w)) = fst (idempotent L m ck req (d, w)) \<and>
         snd (snd (idempotent L m ck req (c, w))) = snd (snd (idempotent L m ck req (d, w))) \<and>
         entries (fst (snd (idempotent L m ck req (c, w)))) (rq_IdempotencyKey req) =
         entries (fst (snd (idempotent L m ck req (d, w)))) (rq_IdempotencyKey req)"
  using assms
  by (auto simp: idempotent_def Get_def Put_def Let_def split: prod.splits option.splits if_splits)

lemma serve_world:
  assumes "in_ttl T (ttl c) calls" and "live T k c = Some r0"
    and "ttl c = ttl d" and "\<forall>j. j \<noteq> k \<longrightarrow> entries c j = entries d j"
  shows "snd (snd (serve L m calls (c, w))) =
         snd (snd (serve L m (filter (\<lambda>(ck, req). rq_IdempotencyKey req \<noteq> k) calls) (d, w)))"
  using assms
proof (induction calls arbitrary: c d w)
  case (Cons call calls)
  obtain ck req where call: "call = (ck, req)" by (cases call)
  show ?case
  proof (cases "rq_IdempotencyKey req = k")
    case True
    with idempotent_replay [of T req c r0 ck L m w] Cons.prems call obtain r c1
      where "idempotent L m ck req (c, w) = (r, (c1, w))" "live T k c1 = Some r0" "ttl c1 = ttl c"
        "\<forall>j. j \<noteq> k \<longrightarrow> entries c1 j = entries c j" by auto
    with Cons.IH [of c1 d w] Cons.prems True call show ?thesis by (auto simp: Let_def split: prod.split)
  next
    case False
    obtain r c1 w1 where sc: "idempotent L m ck req (c, w) = (r, (c1, w1))"
      by (cases "idempotent L m ck req (c, w)") auto
    obtain r' d1 w1' where sd: "idempotent L m ck req (d, w) = (r', (d1, w1'))"
      by (cases "idempotent L m ck req (d, w)") auto
    have "entries c1 j = entries d1 j" if "j \<noteq> k" for j
      using idempotent_cong [of c req d L m ck w] idempotent_other(1) [of req j L m ck] sc sd Cons.prems that False
      by (cases "j = rq_IdempotencyKey req") auto
    moreover have "ttl c1 = ttl c" "ttl d1 = ttl d" "w1 = w1'" "live T k c1 = Some r0"
      using ttl_idempotent [of L m ck req c w] ttl_idempotent [of L m ck req d w] sc sd
        idempotent_cong [of c req d L m ck w] idempotent_other(2) [OF False sc] Cons.prems False by auto
    ultimately show ?thesis
      using Cons.IH [of c1 d1 w1] Cons.prems False call sc sd by (auto simp: Let_def split: prod.split)
  qed
qed simp

text \<open>How often a sequence of calls ran the operation of a key successfully.\<close>

definition executions :: "string \<Rightarrow> (call_clock \<times> rpc_request) list \<Rightarrow> rpc_response list \<Rightarrow> nat" where
  "executions k calls rs =
     length (filter (\<lambda>((ck, req), r). rq_IdempotencyKey req = k \<and> fresh_ok r) (zip calls rs))"

lemma executions_Cons [simp]:
  "executions k ((ck, req) # calls) (r # rs) =
     (if rq_IdempotencyKey req = k \<and> fresh_ok r then 1 else 0) + executions k calls rs"
  by (simp add: executions_def)

lemma replayed_replay_of [simp]: "replayed (replay_of req r)"
  by (simp add: replayed_def replay_of_def)

lemma executions_remembered:
  assumes "in_ttl T (ttl c) calls" and "live T k c = Some r0"
  shows "executions k calls (fst (serve L m calls (c, w))) = 0"
proof -
  have "replayed (fst (serve L m calls (c, w)) ! i)"
    if "i < length calls" and "rq_IdempotencyKey (snd (calls ! i)) = k" for i
    using serve_replays [OF assms that, of L m w] by simp
  then show ?thesis
    by (auto simp: executions_def filter_empty_conv in_set_zip fresh_ok_def)
qed

lemma executions_le_1:
  assumes "k \<noteq> ''''" and "ttl c > 0" and "in_ttl T (ttl c) calls" and "entries c k = None"
  shows "executions k calls (fst (serve L m calls (c, w))) \<le> 1"
  using assms
proof (induction calls arbitrary: c w)
  case Nil
  then show ?case by (simp add: executions_def)
next
  case (Cons call calls)
  obtain ck req where call: "call = (ck, req)" by (cases call)
  obtain r c1 w1 where step: "idempotent L m ck req (c, w) = (r, (c1, w1))"
    by (cases "idempotent L m ck req (c, w)") auto
  have ttl: "ttl c1 = ttl c" using ttl_idempotent [of L m ck req c w] step by simp
  show ?case
  proof (cases "rq_IdempotencyKey req = k \<and> rs_Status r = STATUS_OK")
    case True
    obtain r' w' where D: "Dispatch L (t_stamps ck) req m w = (r', w')"
      by (cases "Dispatch L (t_stamps ck) req m w")
    from idempotent_miss [OF _ D, of c] Cons.prems True step
    have "c1 = Put (t_put ck) k r (snd (Get (t_get ck) k c))" by auto
    then have "live T k c1 = Some r" using Cons.prems call by (simp add: live_Put)
    with executions_remembered [of T c1 calls k r L m w1] Cons.prems call step ttl show ?thesis
      by (auto simp: Let_def split: prod.split)
  next
    case False
    have "entries c1 k = None"
    proof (cases "rq_IdempotencyKey req = k")
      case True
      obtain r' w' where D: "Dispatch L (t_stamps ck) req m w = (r', w')"
        by (cases "Dispatch L (t_stamps ck) req m w")
      from idempotent_miss [OF _ D, of c] Cons.prems True False step show ?thesis
        by (auto simp: entries_Get_None)
    next
      case False
      with idempotent_other(1) [OF False step] Cons.prems show ?thesis by simp
    qed
    with Cons.IH [of c1 w1] Cons.prems False call step ttl show ?thesis
      by (auto simp: Let_def fresh_ok_def split: prod.split)
  qed
qed

text \<open>Every success under a key carries the payload of an execution of the same sequence.\<close>

lemma serve_ok_origin:
  assumes "k \<noteq> ''''" and "ttl c > 0" and "in_ttl T (ttl c) calls" and "entries c k = None"
    and "\<forall>(ck, req) \<in> set calls. rq_IdempotencyKey req = k"
    and "r \<in> set (fst (serve L m calls (c, w)))" and "rs_Status r = STATUS_OK"
  shows "\<exists>r0 \<in> set (fst (serve L m calls (c, w))). fresh_ok r0 \<and> rs_Payload r = rs_Payload r0"
  using assms
proof (induction calls arbitrary: c w)
  case (Cons call calls)
  obtain ck req where call: "call = (ck, req)" by (cases call)
  then have k: "rq_IdempotencyKey req = k" using Cons.prems by simp
  obtain q w1 where D: "Dispatch L (t_stamps ck) req m w = (q, w1)"
    by (cases "Dispatch L (t_stamps ck) req m w")
  let ?c1 = "if rs_Status q = STATUS_OK then Put (t_put ck) k q (snd (Get (t_get ck) k c)) else snd (Get (t_get ck) k c)"
  have step: "idempotent L m ck req (c, w) = (q, (?c1, w1))"
    using idempotent_miss [OF _ D, of c] Cons.prems k by simp
  have rs: "fst (serve L m (call # calls) (c, w)) = q # fst (serve L m calls (?c1, w1))"
    by (simp add: call step Let_def split: prod.split)
  have within: "in_ttl T (ttl ?c1) calls" using Cons.prems call by simp
  show ?case
  proof (cases "rs_Status q = STATUS_OK")
    case True
    then have live: "live T k ?c1 = Some q" using Cons.prems call by (simp add: live_Put)
    have "rs_Payload r = rs_Payload q"
    proof (cases "r = q")
      case False
      with Cons.prems rs obtain i where i: "i < length calls" "r = fst (serve L m calls (?c1, w1)) ! i"
        by (auto simp: in_set_conv_nth)
      have "rq_IdempotencyKey (snd (calls ! i)) = k" using Cons.prems(5) i(1) nth_mem by fastforce
      from serve_replays [OF within live i(1) this, of L m w1] i(2) show ?thesis by (simp add: replay_of_def)
    qed simp
    moreover have "fresh_ok q" using True D Dispatch_not_replayed [of L "t_stamps ck" req m w] by (simp add: fresh_ok_def)
    ultimately show ?thesis using rs by auto
  next
    case False
    with Cons.prems rs have "r \<in> set (fst (serve L m calls (?c1, w1)))" by auto
    with Cons.IH [of ?c1 w1] Cons.prems within False rs show ?thesis by (auto simp: entries_Get_None)
  qed
qed simp

section \<open>Concrete calls\<close>

definition sample_clock :: call_clock where
  "sample_clock = \<lparr>t_get = 9, t_stamps = sample_stamps, t_put = 14\<rparr>"

definition sample_retry :: rpc_request where
  "sample_retry = sample_request\<lparr>rq_RequestId := ''r2'', rq_ClientSentAt := Some 20\<rparr>"

lemma Dispatch_sample:
  "Dispatch bytes_lib sample_stamps sample_request sample_mux n =
     (zero_response\<lparr>rs_RequestId := ''r1'', rs_Service := ''echo'', rs_Method := ''Echo'',
        rs_ClientSentAt := Some 7, rs_Status := STATUS_OK,
        rs_Payload := Some \<lparr>TypeUrl = ''bytes'', AnyValue = [1, 2]\<rparr>,
        rs_GatewayBInvoke := Some 11, rs_ServiceResp := Some 12, rs_ServerReceivedAt := Some 10,
        rs_GatewayBRecv := Some 10, rs_ServerSentAt := Some 13\<rparr>, Suc n)"
  by (subst Dispatch_admitted [OF admitted_sample, of n "Inr (Some [1, 2])" "Suc n"])
     (simp_all add: bytes_lib_def NewResponse_def Pack_def sample_request_def sample_stamps_def zero_request_def)

lemma idempotent_sample:
  "\<exists>r c. idempotent bytes_lib sample_mux sample_clock sample_request (NewIdempotencyCache Second, n) =
           (r, (c, Suc n)) \<and> fresh_ok r"
proof -
  have D: "Dispatch bytes_lib (t_stamps sample_clock) sample_request sample_mux n =
      (fst (Dispatch bytes_lib sample_stamps sample_request sample_mux n), Suc n)"
    by (simp add: sample_clock_def Dispatch_sample)
  have "fresh_ok (fst (Dispatch bytes_lib sample_stamps sample_request sample_mux n))"
    by (simp add: Dispatch_sample fresh_ok_def replayed_def zero_response_def)
  with idempotent_miss [OF _ D, of "NewIdempotencyCache Second"] show ?thesis
    by (simp add: NewIdempotencyCache_def)
qed

section \<open>Properties\<close>

text \<open>At most one execution per logical operation: in any sequence of calls of the handler that
  fits in one time to live, with any mix of keys, at most one call under a given nonempty key is
  executed successfully by the application; every other success under that key is a replay.\<close>

theorem service_at_most_once:
  assumes "k \<noteq> ''''" and "d > 0" and "in_ttl T d calls"
  shows "executions k calls (fst (serve L m calls (NewIdempotencyCache d, w))) \<le> 1"
  using executions_le_1 [of k "NewIdempotencyCache d" T calls L m w] assms
  by (simp add: NewIdempotencyCache_def)

theorem service_at_most_once_witness:
  "in_ttl 100 Second [(sample_clock, sample_request), (sample_clock, sample_retry)] \<and>
   executions ''k'' [(sample_clock, sample_request), (sample_clock, sample_retry)]
     (fst (serve bytes_lib sample_mux [(sample_clock, sample_request), (sample_clock, sample_retry)]
        (NewIdempotencyCache Second, 0))) \<le> 1"
proof -
  have fits: "in_ttl 100 Second [(sample_clock, sample_request), (sample_clock, sample_retry)]"
    by (simp add: sample_clock_def)
  show ?thesis
    by (intro conjI fits service_at_most_once [of "''k''" Second 100 _ bytes_lib sample_mux 0]) simp_all
qed

text \<open>C2. What a retry sees: once a call under a nonempty key has been executed successfully, every
  later call under that key within the time to live is answered with the same response, its
  payload and status included, under the retry's own request id and tagged as a replay; and the
  application ends in the state it would be in had those retries never been made.\<close>

theorem service_replay:
  assumes "rq_IdempotencyKey req \<noteq> ''''" and "d > 0"
    and "idempotent L m ck req (NewIdempotencyCache d, w) = (r, (c1, w1))" and "fresh_ok r"
    and "in_ttl T d ((ck, req) # calls)"
  shows "(\<forall>i < length calls. rq_IdempotencyKey (snd (calls ! i)) = rq_IdempotencyKey req \<longrightarrow>
            fst (serve L m calls (c1, w1)) ! i =
              r\<lparr>rs_RequestId := rq_RequestId (snd (calls ! i)),
                rs_Metadata := (rs_Metadata r)(''idempotent-replay'' \<mapsto> ''true'')\<rparr>) \<and>
         snd (snd (serve L m calls (c1, w1))) =
           snd (snd (serve L m
             (filter (\<lambda>(ck', q). rq_IdempotencyKey q \<noteq> rq_IdempotencyKey req) calls) (c1, w1)))"
proof -
  let ?k = "rq_IdempotencyKey req" and ?c = "NewIdempotencyCache d"
  obtain r' w' where D: "Dispatch L (t_stamps ck) req m w = (r', w')"
    by (cases "Dispatch L (t_stamps ck) req m w")
  have miss: "live (t_get ck) ?k ?c = None" by (simp add: NewIdempotencyCache_def)
  from idempotent_miss [OF miss D] assms(3,4)
  have "c1 = Put (t_put ck) ?k r (snd (Get (t_get ck) ?k ?c))" by (auto simp: fresh_ok_def)
  then have "live T ?k c1 = Some r" and "ttl c1 = d"
    using assms(1,2,5) by (simp_all add: live_Put NewIdempotencyCache_def)
  with serve_replays [of T c1 calls ?k r _ L m w1] serve_world [of T c1 calls ?k r c1 L m w1] assms(5)
  show ?thesis by (simp add: replay_of_def)
qed

theorem service_replay_witness:
  "\<exists>r c1. idempotent bytes_lib sample_mux sample_clock sample_request (NewIdempotencyCache Second, 0) = (r, (c1, 1)) \<and>
     rs_RequestId (fst (serve bytes_lib sample_mux [(sample_clock, sample_retry)] (c1, 1)) ! 0) = ''r2''"
proof -
  obtain r c1 where step: "idempotent bytes_lib sample_mux sample_clock sample_request
      (NewIdempotencyCache Second, 0) = (r, (c1, 1))" and "fresh_ok r"
    using idempotent_sample [of 0] by auto
  moreover have "in_ttl 100 Second [(sample_clock, sample_request), (sample_clock, sample_retry)]"
    by (simp add: sample_clock_def)
  ultimately have "fst (serve bytes_lib sample_mux [(sample_clock, sample_retry)] (c1, 1)) ! 0 =
      r\<lparr>rs_RequestId := ''r2'', rs_Metadata := (rs_Metadata r)(''idempotent-replay'' \<mapsto> ''true'')\<rparr>"
    using service_replay [of sample_request Second bytes_lib sample_mux sample_clock 0 r c1 1 100
        "[(sample_clock, sample_retry)]"]
    by (simp add: sample_request_def sample_retry_def)
  then show ?thesis using step by (intro exI [of _ r] exI [of _ c1]) simp
qed

text \<open>A replay does not echo the client timestamp of the request it answers: it keeps the one
  of the attempt that was executed (the schema comments the field \<open>T0, echoed\<close>).\<close>

theorem service_replay_stale_timestamp:
  assumes "live (t_get ck) (rq_IdempotencyKey retry) c = Some cached"
    and "rs_ClientSentAt cached \<noteq> rq_ClientSentAt retry"
  shows "\<not> echoes retry (fst (idempotent L m ck retry (c, w))) \<and>
         rs_ClientSentAt (fst (idempotent L m ck retry (c, w))) = rs_ClientSentAt cached"
  using idempotent_hit(1) [OF assms(1), of L m w] assms(2) by (simp add: echoes_def replay_of_def)

theorem service_replay_stale_timestamp_witness:
  "\<exists>c. \<not> echoes sample_retry (fst (idempotent bytes_lib sample_mux sample_clock sample_retry (c, 0)))"
proof -
  let ?c = "Put 14 ''k'' (zero_response\<lparr>rs_ClientSentAt := Some 7\<rparr>) (NewIdempotencyCache Second)"
  have "live (t_get sample_clock) (rq_IdempotencyKey sample_retry) ?c =
      Some (zero_response\<lparr>rs_ClientSentAt := Some 7\<rparr>)"
    by (simp add: live_Put sample_clock_def sample_retry_def sample_request_def NewIdempotencyCache_def)
  from service_replay_stale_timestamp [OF this, of bytes_lib sample_mux 0] show ?thesis
    by (intro exI [of _ ?c]) (simp add: sample_retry_def)
qed

text \<open>The demo services end to end.  \<open>main\<close> registers both routes without a panic.  For a
  protobuf library whose decoding inverts its packing and a payload that passes validation, the
  echo service answers OK with exactly the client's packed payload.\<close>

theorem echo_roundtrip:
  assumes "anypb_New L (AllTypes v) = Inr a" and "\<forall>t. anypb_UnmarshalTo L a t = Inr (AllTypes v)"
    and "protovalidate L (AllTypes v) = None" and "timeout > 0"
  shows "\<exists>m req. service_mux zero val = Inr m \<and>
           NewRequest (anypb_New L) uuid now ''echo'' ''Echo'' (Some (AllTypes v)) timeout = Inr req \<and>
           rs_Status (fst (Dispatch L ts req m w)) = STATUS_OK \<and>
           rs_Payload (fst (Dispatch L ts req m w)) = Some a \<and>
           rs_RequestId (fst (Dispatch L ts req m w)) = uuid \<and>
           snd (Dispatch L ts req m w) = w"
proof -
  obtain m :: "('a service_msg, 'b) mux" where m: "service_mux zero val = Inr m"
    by (simp add: service_mux_eq)
  obtain req where req: "NewRequest (anypb_New L) uuid now ''echo'' ''Echo'' (Some (AllTypes v)) timeout = Inr req"
    and f: "rq_Service req = ''echo''" "rq_Method req = ''Echo''" "rq_Payload req = Some a" "rq_RequestId req = uuid"
    using assms(1,4) by (simp add: NewRequest_def Pack_def)
  have "admitted L req m = Some (\<lparr>newReq = AllTypes zero, handle = echo_handler\<rparr>, AllTypes v)"
    using m assms(2,3) f by (auto simp: service_mux_eq admitted_def muxKey_def UnpackInto_def)
  from Dispatch_admitted [OF this, of w "Inr (Some (AllTypes v))" w ts] m req f assms(1)
  show ?thesis by (simp add: echo_handler_def NewResponse_def Pack_def)
qed

theorem echo_roundtrip_witness:
  "\<exists>m req. service_mux (0 :: nat) True = Inr m \<and>
     rs_Status (fst (Dispatch \<lparr>anypb_New = (\<lambda>_. Inr \<lparr>TypeUrl = ''t'', AnyValue = [5]\<rparr>),
        anypb_UnmarshalTo = (\<lambda>_ _. Inr (AllTypes 5)), protovalidate = (\<lambda>_. None)\<rparr>
        sample_stamps req m ())) = STATUS_OK"
proof -
  let ?L = "\<lparr>anypb_New = (\<lambda>_. Inr \<lparr>TypeUrl = ''t'', AnyValue = [5]\<rparr>),
        anypb_UnmarshalTo = (\<lambda>_ _. Inr (AllTypes 5)), protovalidate = (\<lambda>_. None)\<rparr>"
  show ?thesis
    using echo_roundtrip [of ?L 5 "\<lparr>TypeUrl = ''t'', AnyValue = [5]\<rparr>" Second 0 True "''u''" 1 sample_stamps "()"]
    by auto
qed

text \<open>The customer service answers from the id and the region alone: the short form is the part
  of the id before its first dash, and the whole id when there is none or it comes first; the
  application state is untouched, and the type assertion never fails for a library that decodes
  into the type it is given.\<close>

theorem customer_lookup:
  assumes "type_preserving L" and "service_mux zero v = Inr m"
    and "admitted L req m = Some (rt, msg)" and "rq_Service req = ''customer''"
  shows "\<exists>cid region short. msg = CustomerLookupRequest cid region \<and>
           (short = cid \<or> (\<exists>rest. cid = short @ CHR ''-'' # rest)) \<and>
           (CHR ''-'' \<notin> set short \<or> short = cid \<and> hd cid = CHR ''-'') \<and>
           handle rt msg w = (Inr (Some (CustomerLookupResponse cid (''Customer '' @ short @ '' ('' @ region @ '')'')
             (short @ ''@'' @ region @ ''.example.com'') [cid])), w)"
proof -
  have rt: "rt = \<lparr>newReq = CustomerLookupRequest '''' '''', handle = customer_handler\<rparr>"
    using assms(2-4) by (auto simp: service_mux_eq admitted_def muxKey_def split: option.splits sum.splits if_splits)
  have "\<exists>x. anypb_UnmarshalTo L x (CustomerLookupRequest '''' '''') = Inr msg"
    using assms(3) rt by (auto simp: admitted_def UnpackInto_def split: option.splits sum.splits if_splits)
  then obtain cid region where msg: "msg = CustomerLookupRequest cid region"
    using assms(1) unfolding type_preserving_def by blast
  let ?i = "IndexByte cid (CHR ''-'')"
  define short where "short = (if ?i > 0 then take (nat ?i) cid else cid)"
  have "handle rt msg w = (Inr (Some (CustomerLookupResponse cid (''Customer '' @ short @ '' ('' @ region @ '')'')
             (short @ ''@'' @ region @ ''.example.com'') [cid])), w)"
    by (simp add: rt msg customer_handler_def short_def Let_def)
  moreover have "(short = cid \<or> (\<exists>rest. cid = short @ CHR ''-'' # rest)) \<and>
       (CHR ''-'' \<notin> set short \<or> short = cid \<and> hd cid = CHR ''-'')"
    using IndexByte_cases [of cid "CHR ''-''"]
    by (auto simp: short_def hd_conv_nth) (metis id_take_nth_drop)+
  ultimately show ?thesis using msg by blast
qed

theorem customer_lookup_witness:
  "customer_handler (CustomerLookupRequest ''7f-1'' ''eu-west-1'' :: nat service_msg) () =
       (Inr (Some (CustomerLookupResponse ''7f-1'' ''Customer 7f (eu-west-1)'' ''7f@eu-west-1.example.com'' [''7f-1''])), ())"
proof -
  let ?L = "\<lparr>anypb_New = (\<lambda>_. Inl (Opaque '''')), anypb_UnmarshalTo = (\<lambda>a t. case t of
               CustomerLookupRequest _ _ \<Rightarrow> Inr (CustomerLookupRequest ''7f-1'' ''eu-west-1'') | _ \<Rightarrow> Inr t),
             protovalidate = (\<lambda>_. None)\<rparr> :: nat service_msg proto_lib"
  let ?req = "sample_request\<lparr>rq_Service := ''customer'', rq_Method := ''Lookup''\<rparr>"
  obtain m :: "(nat service_msg, unit) mux" where m: "service_mux (0 :: nat) True = Inr m"
    by (simp add: service_mux_eq)
  have tp: "type_preserving ?L" by (auto simp: type_preserving_def)
  let ?rt = "\<lparr>newReq = CustomerLookupRequest '''' '''', handle = customer_handler\<rparr> :: (nat service_msg, unit) route"
  have adm: "admitted ?L ?req m = Some (?rt, CustomerLookupRequest ''7f-1'' ''eu-west-1'')"
    using m by (auto simp: service_mux_eq admitted_def muxKey_def UnpackInto_def sample_request_def)
  have svc: "rq_Service ?req = ''customer''" by simp
  from customer_lookup [OF tp m adm svc, of "()"] obtain cid region short
    where msg: "(CustomerLookupRequest ''7f-1'' ''eu-west-1'' :: nat service_msg) = CustomerLookupRequest cid region"
      and pre: "short = cid \<or> (\<exists>rest. cid = short @ CHR ''-'' # rest)"
      and nd: "CHR ''-'' \<notin> set short \<or> short = cid \<and> hd cid = CHR ''-''"
      and h: "handle ?rt (CustomerLookupRequest ''7f-1'' ''eu-west-1'') () =
        (Inr (Some (CustomerLookupResponse cid (''Customer '' @ short @ '' ('' @ region @ '')'')
             (short @ ''@'' @ region @ ''.example.com'') [cid])), ())"
    by (elim exE conjE) (rule that, assumption+)
  have cid: "cid = ''7f-1''" "region = ''eu-west-1''" using msg by simp_all
  have "short = ''7f''" using pre nd unfolding cid by (auto simp: Cons_eq_append_conv)
  with h cid show ?thesis by simp
qed

end
