(* ===== verification/Pending.thy ===== *)
theory Pending
  imports Prelude "HOL-Library.AList"
begin

text \<open>
  The interface every correlation table of the repository offers its callers: store a waiting
  channel under a key, atomically take it out again, drop it.  \<open>rpc.Correlator\<close> keeps the table
  in a \<open>sync.Map\<close>; the requesters of \<open>internal/transport/rabbitmq\<close> and
  \<open>internal/transport/valkey\<close> keep it in a Go map under a mutex.  The lemmas of the locale
  hold for all of them.
\<close>

locale pending_table =
  fixes empty_table :: "'t"
    and store :: "string \<Rightarrow> 'c \<Rightarrow> 't \<Rightarrow> 't"
    and load_and_delete :: "string \<Rightarrow> 't \<Rightarrow> 'c option \<times> 't"
    and delete_key :: "string \<Rightarrow> 't \<Rightarrow> 't"
    and lookup :: "'t \<Rightarrow> string \<Rightarrow> 'c option"
    and invar :: "'t \<Rightarrow> bool"
  assumes lookup_empty: "lookup empty_table = Map.empty"
    and lookup_store: "invar t \<Longrightarrow> lookup (store k c t) = (lookup t)(k \<mapsto> c)"
    and fst_load_and_delete: "invar t \<Longrightarrow> fst (load_and_delete k t) = lookup t k"
    and lookup_load_and_delete: "invar t \<Longrightarrow> lookup (snd (load_and_delete k t)) = (lookup t)(k := None)"
    and lookup_delete_key: "invar t \<Longrightarrow> lookup (delete_key k t) = (lookup t)(k := None)"
    and invar_empty: "invar empty_table"
    and invar_store: "invar t \<Longrightarrow> invar (store k c t)"
    and invar_load_and_delete: "invar t \<Longrightarrow> invar (snd (load_and_delete k t))"
    and invar_delete_key: "invar t \<Longrightarrow> invar (delete_key k t)"
begin

lemma take_after_store: "invar t \<Longrightarrow> fst (load_and_delete k (store k c t)) = Some c"
  by (simp add: fst_load_and_delete lookup_store invar_store)

lemma take_twice: "invar t \<Longrightarrow> fst (load_and_delete k (snd (load_and_delete k t))) = None"
  by (simp add: fst_load_and_delete lookup_load_and_delete invar_load_and_delete)

lemma take_after_delete: "invar t \<Longrightarrow> fst (load_and_delete k (delete_key k t)) = None"
  by (simp add: fst_load_and_delete lookup_delete_key invar_delete_key)

lemma take_other:
  "invar t \<Longrightarrow> j \<noteq> k \<Longrightarrow> fst (load_and_delete j (snd (load_and_delete k t))) = fst (load_and_delete j t)"
  by (simp add: fst_load_and_delete lookup_load_and_delete invar_load_and_delete)

lemma store_delete_other:
  "invar t \<Longrightarrow> j \<noteq> k \<Longrightarrow> fst (load_and_delete j (delete_key k (store k c t))) = fst (load_and_delete j t)"
  by (simp add: fst_load_and_delete lookup_delete_key lookup_store invar_store invar_delete_key)

lemmas table_invars = invar_empty invar_store invar_load_and_delete invar_delete_key

lemmas table_lookups = lookup_empty lookup_store lookup_load_and_delete lookup_delete_key

end

lemma distinct_snd_delete: "distinct (map snd m) \<Longrightarrow> distinct (map snd (AList.delete k m))"
  by (induction m) (auto simp: AList.delete_eq)

lemma set_delete_subset: "set (AList.delete k m) \<subseteq> set m"
  by (auto simp: AList.delete_eq)

lemma set_update_subset: "set (AList.update k v m) \<subseteq> insert (k, v) (set m)"
  by (induction m) auto

lemma distinct_snd_update:
  "distinct (map snd m) \<Longrightarrow> v \<notin> snd ` set m \<Longrightarrow> distinct (map snd (AList.update k v m))"
proof (induction m)
  case Nil
  then show ?case by simp
next
  case (Cons p m)
  have "snd ` set (AList.update k v m) \<subseteq> insert v (snd ` set m)"
    using set_update_subset [of k v m] by auto
  with Cons show ?case by (cases p) auto
qed

lemma mset_snd_delete: "mset (map snd (AList.delete k m)) \<subseteq># mset (map snd m)"
  by (induction m) (auto intro: subset_mset.order_trans)

lemma mset_snd_update: "mset (map snd (AList.update k v m)) \<subseteq># add_mset v (mset (map snd m))"
proof (induction m)
  case Nil
  then show ?case by simp
next
  case (Cons p m)
  then show ?case
    by (cases p) (auto simp: add_mset_commute intro: subset_mset.order_trans)
qed

lemma mset_snd_take:
  assumes "distinct (map fst m)" and "map_of m k = Some v"
  shows "mset (map snd m) = add_mset v (mset (map snd (AList.delete k m)))"
  using assms
proof (induction m)
  case Nil
  then show ?case by simp
next
  case (Cons p m)
  show ?case
  proof (cases "fst p = k")
    case True
    with Cons.prems have "k \<notin> fst ` set m" by auto
    with True Cons.prems show ?thesis by (cases p) simp
  next
    case False
    with Cons show ?thesis by (cases p) simp
  qed
qed

section \<open>sync.Map\<close>

text \<open>A \<open>sync.Map\<close> is an association list with distinct keys; the order of the list is the order
  in which \<open>Range\<close> visits the keys.\<close>

type_synonym 'c sync_map = "(string \<times> 'c) list"

definition sm_Store :: "string \<Rightarrow> 'c \<Rightarrow> 'c sync_map \<Rightarrow> 'c sync_map" where
  "sm_Store k c m = AList.update k c m"

definition sm_LoadAndDelete :: "string \<Rightarrow> 'c sync_map \<Rightarrow> 'c option \<times> 'c sync_map" where
  "sm_LoadAndDelete k m = (map_of m k, AList.delete k m)"

definition sm_Delete :: "string \<Rightarrow> 'c sync_map \<Rightarrow> 'c sync_map" where
  "sm_Delete k m = AList.delete k m"

definition sm_invar :: "'c sync_map \<Rightarrow> bool" where
  "sm_invar m \<longleftrightarrow> distinct (map fst m)"

interpretation sm: pending_table "[]" sm_Store sm_LoadAndDelete sm_Delete map_of sm_invar
  by unfold_locales
    (simp_all add: sm_Store_def sm_LoadAndDelete_def sm_Delete_def sm_invar_def update_conv' delete_conv'
      distinct_update distinct_delete)

lemmas sync_map_defs = sm_Store_def sm_LoadAndDelete_def sm_Delete_def

section \<open>map[string]chan T under a mutex\<close>

text \<open>\<open>w := r.pending[k]; delete(r.pending, k)\<close> inside one critical section, and
  \<open>r.pending[k] = ch\<close>, \<open>delete(r.pending, k)\<close>.\<close>

type_synonym 'c locked_map = "string \<Rightarrow> 'c option"

definition lm_store :: "string \<Rightarrow> 'c \<Rightarrow> 'c locked_map \<Rightarrow> 'c locked_map" where
  "lm_store k c m = m(k \<mapsto> c)"

definition lm_take :: "string \<Rightarrow> 'c locked_map \<Rightarrow> 'c option \<times> 'c locked_map" where
  "lm_take k m = (m k, m(k := None))"

definition lm_forget :: "string \<Rightarrow> 'c locked_map \<Rightarrow> 'c locked_map" where
  "lm_forget k m = m(k := None)"

interpretation lm: pending_table Map.empty lm_store lm_take lm_forget "\<lambda>m. m" "\<lambda>_. True"
  by unfold_locales (simp_all add: lm_store_def lm_take_def lm_forget_def)

end
