(* ===== verification/Correlator.thy ===== *)
theory Correlator
  imports Rpc_Core Pending
begin

text \<open>
  \<open>clients/internal/rpc/correlator.go\<close>: the table that matches an asynchronous reply to the
  goroutine waiting for it.

  The first part is the sequential behaviour of every method.  Channels live in a store: a
  channel is a number, \<open>bufs\<close> gives the values buffered in it, and a send to a channel whose
  buffer (capacity 1) is full blocks, which is the result \<open>None\<close>.  The second part is the
  concurrent behaviour: a step relation in which the atomic accesses of different goroutines
  (the \<open>sync.Map\<close> operations and the channel operations) interleave freely.
\<close>

record result =
  Response :: "rpc_response option"
  Err :: "gerr option"

type_synonym chan = nat

record correlator =
  pending :: "chan sync_map"
  bufs :: "chan \<Rightarrow> result list"
  next_chan :: chan

definition NewCorrelator :: correlator where
  "NewCorrelator = \<lparr>pending = [], bufs = (\<lambda>_. []), next_chan = 0\<rparr>"

text \<open>\<open>make(chan Result, 1)\<close>, the send \<open>ch <- r\<close> and the receive \<open><-ch\<close>; \<open>None\<close> is blocked.\<close>

definition make_chan :: "correlator \<Rightarrow> chan \<times> correlator" where
  "make_chan c = (next_chan c, c\<lparr>next_chan := Suc (next_chan c), bufs := (bufs c)(next_chan c := [])\<rparr>)"

definition send :: "chan \<Rightarrow> result \<Rightarrow> correlator \<Rightarrow> correlator option" where
  "send ch r c = (if length (bufs c ch) < 1 then Some (c\<lparr>bufs := (bufs c)(ch := bufs c ch @ [r])\<rparr>) else None)"

definition receive :: "chan \<Rightarrow> correlator \<Rightarrow> (result \<times> correlator) option" where
  "receive ch c =
     (case bufs c ch of [] \<Rightarrow> None | r # rs \<Rightarrow> Some (r, c\<lparr>bufs := (bufs c)(ch := rs)\<rparr>))"

text \<open>The cancel function \<open>Register\<close> returns is a closure over the id and a \<open>sync.Once\<close>.\<close>

record cancel_fn =
  cancel_id :: string
  once_done :: bool

definition Register :: "string \<Rightarrow> correlator \<Rightarrow> (chan \<times> cancel_fn) \<times> correlator" where
  "Register rid c =
     (case make_chan c of
        (ch, c1) \<Rightarrow>
          ((ch, \<lparr>cancel_id = rid, once_done = False\<rparr>), c1\<lparr>pending := sm_Store rid ch (pending c1)\<rparr>))"

definition cancel :: "cancel_fn \<Rightarrow> correlator \<Rightarrow> cancel_fn \<times> correlator" where
  "cancel f c =
     (if once_done f then (f, c)
      else (f\<lparr>once_done := True\<rparr>, c\<lparr>pending := sm_Delete (cancel_id f) (pending c)\<rparr>))"

definition Deliver :: "string \<Rightarrow> result \<Rightarrow> correlator \<Rightarrow> (bool \<times> correlator) option" where
  "Deliver rid res c =
     (case sm_LoadAndDelete rid (pending c) of
        (None, p) \<Rightarrow> Some (False, c\<lparr>pending := p\<rparr>)
      | (Some ch, p) \<Rightarrow>
          (case send ch res (c\<lparr>pending := p\<rparr>) of
             None \<Rightarrow> None
           | Some c' \<Rightarrow> Some (True, c')))"

text \<open>\<open>Shutdown\<close> visits the keys present when \<open>Range\<close> starts; each visit is a
  \<open>LoadAndDelete\<close> and, when the key is still there, a send.\<close>

fun shutdown_range :: "gerr \<Rightarrow> string list \<Rightarrow> correlator \<Rightarrow> correlator option" where
  "shutdown_range err [] c = Some c"
| "shutdown_range err (k # ks) c =
     (case Deliver k \<lparr>Response = None, Err = Some err\<rparr> c of
        None \<Rightarrow> None
      | Some (found, c') \<Rightarrow> shutdown_range err ks c')"

definition Shutdown :: "gerr \<Rightarrow> correlator \<Rightarrow> correlator option" where
  "Shutdown err c = shutdown_range err (map fst (pending c)) c"

definition Len :: "correlator \<Rightarrow> nat" where
  "Len c = foldl (\<lambda>n _. n + 1) 0 (pending c)"

lemmas method_defs [corr_simps] =
  NewCorrelator_def make_chan_def send_def Register_def cancel_def Deliver_def sm_Store_def sm_Delete_def sm_LoadAndDelete_def

section \<open>Sequential invariant\<close>

text \<open>Keys are distinct, every waiting channel is allocated, belongs to one key and is empty.\<close>

definition corr_inv :: "correlator \<Rightarrow> bool" where
  "corr_inv c \<longleftrightarrow>
     sm_invar (pending c) \<and> distinct (map snd (pending c)) \<and>
     (\<forall>ch \<in> snd ` set (pending c). ch < next_chan c \<and> bufs c ch = [])"

lemma corr_inv_New [simp]: "corr_inv NewCorrelator"
  by (simp add: corr_inv_def NewCorrelator_def sm_invar_def)

lemma Len_length [simp]: "Len c = length (pending c)"
proof -
  have "foldl (\<lambda>n _. n + 1) m xs = m + length xs" for m :: nat and xs :: "chan sync_map"
    by (induction xs arbitrary: m) simp_all
  from this [of 0] show ?thesis by (simp add: Len_def)
qed

lemma corr_inv_waiting: "corr_inv c \<Longrightarrow> map_of (pending c) k = Some ch \<Longrightarrow> ch < next_chan c \<and> bufs c ch = []"
  unfolding corr_inv_def by (metis image_eqI map_of_SomeD snd_conv)

lemma corr_inv_delete: "corr_inv c \<Longrightarrow> corr_inv (c\<lparr>pending := AList.delete k (pending c)\<rparr>)"
  using set_delete_subset [of k "pending c"]
  by (auto simp: corr_inv_def sm_invar_def distinct_delete distinct_snd_delete)

lemma corr_inv_Register: "corr_inv c \<Longrightarrow> corr_inv (snd (Register k c))"
proof -
  assume inv: "corr_inv c"
  then have fresh: "next_chan c \<notin> snd ` set (pending c)" by (auto simp: corr_inv_def)
  have sub: "set (AList.update k (next_chan c) (pending c)) \<subseteq> insert (k, next_chan c) (set (pending c))"
    by (rule set_update_subset)
  from inv fresh sub show ?thesis
    by (fastforce simp: corr_inv_def Register_def make_chan_def sm_Store_def sm_invar_def
        distinct_update intro: distinct_snd_update)
qed

lemma corr_inv_cancel: "corr_inv c \<Longrightarrow> corr_inv (snd (cancel f c))"
  by (simp add: cancel_def sm_Delete_def corr_inv_delete)

lemma taken_not_pending:
  "corr_inv c \<Longrightarrow> map_of (pending c) k = Some ch \<Longrightarrow> ch \<notin> snd ` set (AList.delete k (pending c))"
proof
  assume inv: "corr_inv c" and k: "map_of (pending c) k = Some ch"
    and "ch \<in> snd ` set (AList.delete k (pending c))"
  then obtain j where j: "(j, ch) \<in> set (pending c)" "j \<noteq> k" by (auto simp: AList.delete_eq)
  from k have "(k, ch) \<in> set (pending c)" by (rule map_of_SomeD)
  moreover have "inj_on snd (set (pending c))"
    using inv by (simp add: corr_inv_def distinct_map)
  ultimately have "(j, ch) = (k, ch)" using j by (intro inj_onD [of snd "set (pending c)"]) simp_all
  with j show False by simp
qed

text \<open>Under the invariant a delivery never blocks, and its effect is explicit.\<close>

lemma Deliver_found:
  assumes "corr_inv c" and "map_of (pending c) k = Some ch"
  shows "Deliver k r c = Some (True, c\<lparr>pending := AList.delete k (pending c), bufs := (bufs c)(ch := [r])\<rparr>)"
  using assms corr_inv_waiting [OF assms] by (simp add: corr_simps)

lemma Deliver_missing:
  "map_of (pending c) k = None \<Longrightarrow> Deliver k r c = Some (False, c)"
  by (simp add: corr_simps delete_idem flip: map_of_eq_None_iff)

lemma Deliver_inv:
  assumes "corr_inv c" and "Deliver k r c = Some (b, c')"
  shows "corr_inv c'"
proof (cases "map_of (pending c) k")
  case None
  with assms show ?thesis by (simp add: Deliver_missing)
next
  case (Some ch)
  have "corr_inv (c\<lparr>pending := AList.delete k (pending c)\<rparr>)"
    using assms(1) by (rule corr_inv_delete)
  moreover have "ch \<notin> snd ` set (AList.delete k (pending c))"
    using assms(1) Some by (rule taken_not_pending)
  ultimately show ?thesis
    using assms Some by (force simp: Deliver_found corr_inv_def)
qed

lemma Deliver_not_blocked: "corr_inv c \<Longrightarrow> \<exists>b c'. Deliver k r c = Some (b, c')"
  by (cases "map_of (pending c) k") (auto simp: Deliver_found Deliver_missing)

lemmas corr_inv_intros = corr_inv_New corr_inv_Register corr_inv_cancel Deliver_inv

section \<open>Shutdown\<close>

text \<open>What \<open>Shutdown\<close> leaves behind: the visited keys are gone, each of their channels holds
  exactly the error, nothing else changes.\<close>

lemma shutdown_range_spec:
  assumes "corr_inv c" and "distinct ks" and "\<forall>k \<in> set ks. \<exists>ch. map_of (pending c) k = Some ch"
  shows "\<exists>c'. shutdown_range err ks c = Some c' \<and> corr_inv c' \<and>
           map_of (pending c') = (\<lambda>k. if k \<in> set ks then None else map_of (pending c) k) \<and>
           bufs c' = (\<lambda>ch. if \<exists>k \<in> set ks. map_of (pending c) k = Some ch
                           then [\<lparr>Response = None, Err = Some err\<rparr>] else bufs c ch)"
  using assms
proof (induction ks arbitrary: c)
  case Nil
  then show ?case by simp
next
  case (Cons k ks)
  let ?r = "\<lparr>Response = None, Err = Some err\<rparr>"
  from Cons.prems obtain ch where ch: "map_of (pending c) k = Some ch" by auto
  define c1 where "c1 = c\<lparr>pending := AList.delete k (pending c), bufs := (bufs c)(ch := [?r])\<rparr>"
  have d: "Deliver k ?r c = Some (True, c1)"
    using Cons.prems(1) ch by (simp add: Deliver_found c1_def)
  have p1: "map_of (pending c1) = (map_of (pending c))(k := None)"
    by (simp add: c1_def delete_conv')
  have b1: "bufs c1 = (bufs c)(ch := [?r])" by (simp add: c1_def)
  have "corr_inv c1" using Cons.prems(1) d by (rule Deliver_inv)
  moreover have "distinct ks" and "k \<notin> set ks" using Cons.prems(2) by simp_all
  moreover from this have "\<forall>j \<in> set ks. \<exists>x. map_of (pending c1) j = Some x"
    using Cons.prems(3) by (auto simp: p1)
  ultimately obtain c' where c': "shutdown_range err ks c1 = Some c'" "corr_inv c'"
    and p': "map_of (pending c') = (\<lambda>j. if j \<in> set ks then None else map_of (pending c1) j)"
    and b': "bufs c' = (\<lambda>x. if \<exists>j \<in> set ks. map_of (pending c1) j = Some x then [?r] else bufs c1 x)"
    using Cons.IH by blast
  have "map_of (pending c') = (\<lambda>j. if j \<in> set (k # ks) then None else map_of (pending c) j)"
    by (auto simp: p' p1)
  moreover have "bufs c' = (\<lambda>x. if \<exists>j \<in> set (k # ks). map_of (pending c) j = Some x then [?r] else bufs c x)"
    using \<open>k \<notin> set ks\<close> ch by (auto simp: b' p1 b1 fun_eq_iff)
  ultimately show ?case using c' by (simp add: d)
qed

lemma shutdown_range_next_chan: "shutdown_range err ks c = Some c' \<Longrightarrow> next_chan c' = next_chan c"
proof (induction ks arbitrary: c)
  case (Cons k ks)
  then show ?case
    by (auto simp: corr_simps split: option.splits if_splits prod.splits)
qed simp

lemma Shutdown_next_chan: "Shutdown err c = Some c' \<Longrightarrow> next_chan c' = next_chan c"
  by (simp add: Shutdown_def shutdown_range_next_chan)

lemma Shutdown_spec:
  assumes "corr_inv c"
  shows "\<exists>c'. Shutdown err c = Some c' \<and> corr_inv c' \<and> pending c' = [] \<and>
           bufs c' = (\<lambda>ch. if ch \<in> snd ` set (pending c)
                           then [\<lparr>Response = None, Err = Some err\<rparr>] else bufs c ch)"
proof -
  have dist: "distinct (map fst (pending c))" using assms by (simp add: corr_inv_def sm_invar_def)
  then have mem: "map_of (pending c) k = Some ch \<longleftrightarrow> (k, ch) \<in> set (pending c)" for k ch by simp
  have keys: "\<forall>k \<in> set (map fst (pending c)). \<exists>ch. map_of (pending c) k = Some ch"
    using mem by force
  obtain c' where c': "shutdown_range err (map fst (pending c)) c = Some c'" "corr_inv c'"
    and p: "map_of (pending c') = (\<lambda>k. if k \<in> set (map fst (pending c)) then None else map_of (pending c) k)"
    and b: "bufs c' = (\<lambda>ch. if \<exists>k \<in> set (map fst (pending c)). map_of (pending c) k = Some ch
                             then [\<lparr>Response = None, Err = Some err\<rparr>] else bufs c ch)"
    using shutdown_range_spec [OF assms dist keys, of err] by blast
  have "map_of (pending c') = Map.empty" by (auto simp: p map_of_eq_None_iff)
  then have "pending c' = []" by simp
  moreover have "(\<exists>k \<in> set (map fst (pending c)). map_of (pending c) k = Some ch) \<longleftrightarrow> ch \<in> snd ` set (pending c)" for ch
    using mem by force
  ultimately show ?thesis using c' b by (simp add: Shutdown_def)
qed

section \<open>Interleaved goroutines\<close>

text \<open>
  The shared state and, for each goroutine inside \<open>Deliver\<close> or \<open>Shutdown\<close>, whether it stands
  between its \<open>LoadAndDelete\<close> and its send (\<open>claimed\<close>: the channel it took, the id it was
  called with, the value it will send).  \<open>owner\<close> and \<open>sends\<close> record history only: the id a
  channel was registered under and the completed sends.  No step reads them.
\<close>

record csys =
  tab :: "chan sync_map"
  buf :: "chan \<Rightarrow> result list"
  fresh :: chan
  claimed :: "(chan \<times> string \<times> result) list"
  owner :: "chan \<Rightarrow> string"
  sends :: "(chan \<times> string \<times> result) list"

definition csys_init :: csys where
  "csys_init = \<lparr>tab = [], buf = (\<lambda>_. []), fresh = 0, claimed = [], owner = (\<lambda>_. ''''), sends = []\<rparr>"

inductive cstep :: "csys \<Rightarrow> csys \<Rightarrow> bool" where
  cs_register:
    "cstep s (s\<lparr>tab := sm_Store rid (fresh s) (tab s), buf := (buf s)(fresh s := []),
                 fresh := Suc (fresh s), owner := (owner s)(fresh s := rid)\<rparr>)"
| cs_cancel: "cstep s (s\<lparr>tab := sm_Delete rid (tab s)\<rparr>)"
| cs_claim:
    "sm_LoadAndDelete rid (tab s) = (Some ch, t) \<Longrightarrow>
     cstep s (s\<lparr>tab := t, claimed := (ch, rid, r) # claimed s\<rparr>)"
| cs_miss: "sm_LoadAndDelete rid (tab s) = (None, t) \<Longrightarrow> cstep s (s\<lparr>tab := t\<rparr>)"
| cs_send:
    "claimed s = xs @ (ch, rid, r) # ys \<Longrightarrow> length (buf s ch) < 1 \<Longrightarrow>
     cstep s (s\<lparr>claimed := xs @ ys, buf := (buf s)(ch := buf s ch @ [r]),
                 sends := (ch, rid, r) # sends s\<rparr>)"
| cs_receive: "buf s ch = r # rs \<Longrightarrow> cstep s (s\<lparr>buf := (buf s)(ch := rs)\<rparr>)"

inductive creach :: "csys \<Rightarrow> bool" where
  creach_init: "creach csys_init"
| creach_step: "creach s \<Longrightarrow> cstep s t \<Longrightarrow> creach t"

text \<open>Every channel is in at most one of three places: waiting in the table, claimed by one
  goroutine, or already sent to; and it is always tied to the id it was registered under.\<close>

definition used_chans :: "csys \<Rightarrow> chan list" where
  "used_chans s = map snd (tab s) @ map fst (claimed s) @ map fst (sends s)"

definition places_inv :: "csys \<Rightarrow> bool" where
  "places_inv s \<longleftrightarrow> sm_invar (tab s) \<and> distinct (used_chans s) \<and> (\<forall>ch \<in> set (used_chans s). ch < fresh s)"

definition owner_inv :: "csys \<Rightarrow> bool" where
  "owner_inv s \<longleftrightarrow>
     (\<forall>k ch. (k, ch) \<in> set (tab s) \<longrightarrow> owner s ch = k) \<and>
     (\<forall>ch k r. (ch, k, r) \<in> set (claimed s) \<union> set (sends s) \<longrightarrow> owner s ch = k)"

definition buf_inv :: "csys \<Rightarrow> bool" where
  "buf_inv s \<longleftrightarrow> (\<forall>ch. buf s ch = [] \<or> (\<exists>k r. (ch, k, r) \<in> set (sends s) \<and> buf s ch = [r]))"

definition cinv :: "csys \<Rightarrow> bool" where
  "cinv s \<longleftrightarrow> places_inv s \<and> owner_inv s \<and> buf_inv s"

lemma cinv_init: "cinv csys_init"
  by (simp add: cinv_def places_inv_def owner_inv_def buf_inv_def csys_init_def used_chans_def sm_invar_def)

text \<open>A step that only moves channels between the places, or drops some, keeps the places apart.\<close>

lemma places_mono:
  assumes "places_inv s" and "sm_invar (tab t)" and "fresh t = fresh s"
    and "mset (used_chans t) \<subseteq># mset (used_chans s)"
  shows "places_inv t"
  using assms distinct_subseteq_mset set_subseteq_mset unfolding places_inv_def by (metis subsetD)

lemma places_cancel:
  assumes "places_inv s"
  shows "places_inv (s\<lparr>tab := sm_Delete k (tab s)\<rparr>)"
proof (rule places_mono [OF assms])
  show "sm_invar (tab (s\<lparr>tab := sm_Delete k (tab s)\<rparr>))"
    using assms by (simp add: places_inv_def sm.invar_delete_key)
  show "mset (used_chans (s\<lparr>tab := sm_Delete k (tab s)\<rparr>)) \<subseteq># mset (used_chans s)"
    using mset_snd_delete [of k "tab s"] by (simp add: used_chans_def sm_Delete_def)
qed simp

lemma places_register:
  assumes "places_inv s"
  shows "places_inv (s\<lparr>tab := sm_Store k (fresh s) (tab s), buf := b, fresh := Suc (fresh s), owner := ow\<rparr>)"
    (is "places_inv ?t")
proof -
  have sub: "mset (used_chans ?t) \<subseteq># mset (fresh s # used_chans s)"
    using mset_snd_update [of k "fresh s" "tab s"] by (simp add: used_chans_def sm_Store_def subset_mset.add_right_mono flip: add_mset_add_single union_mset_add_mset_left)
  have "distinct (fresh s # used_chans s)" and lt: "\<forall>ch \<in> set (fresh s # used_chans s). ch < Suc (fresh s)"
    using assms by (force simp: places_inv_def)+
  from sub this(1) have "distinct (used_chans ?t)" by (rule distinct_subseteq_mset)
  moreover have "\<forall>ch \<in> set (used_chans ?t). ch < fresh ?t"
    using set_subseteq_mset [OF sub] lt by auto
  moreover have "sm_invar (tab ?t)" using assms by (simp add: places_inv_def sm.invar_store)
  ultimately show ?thesis by (simp add: places_inv_def)
qed

lemma places_claim:
  assumes "places_inv s" and "sm_LoadAndDelete k (tab s) = (Some ch, t)"
  shows "places_inv (s\<lparr>tab := t, claimed := (ch, k, r) # claimed s\<rparr>)"
proof (rule places_mono [OF assms(1)])
  have dist: "distinct (map fst (tab s))" using assms(1) by (simp add: places_inv_def sm_invar_def)
  have t: "map_of (tab s) k = Some ch" "t = AList.delete k (tab s)"
    using assms(2) by (simp_all add: sm_LoadAndDelete_def)
  then show "mset (used_chans (s\<lparr>tab := t, claimed := (ch, k, r) # claimed s\<rparr>)) \<subseteq># mset (used_chans s)"
    using mset_snd_take [OF dist t(1)] by (simp add: used_chans_def)
  show "sm_invar (tab (s\<lparr>tab := t, claimed := (ch, k, r) # claimed s\<rparr>))"
    using assms(1) t by (simp add: places_inv_def sm_invar_def distinct_delete)
qed simp_all

lemma places_send:
  assumes "places_inv s" and "claimed s = xs @ (ch, k, r) # ys"
  shows "places_inv (s\<lparr>claimed := xs @ ys, buf := b, sends := (ch, k, r) # sends s\<rparr>)"
  using assms by (intro places_mono [OF assms(1)]) (simp_all add: places_inv_def used_chans_def)

lemma places_claimed_unsent:
  assumes "places_inv s" and "(ch, k, r) \<in> set (claimed s)"
  shows "ch \<notin> fst ` set (sends s)"
proof -
  have "ch \<in> set (map fst (claimed s))" using assms(2) by (force simp: image_iff)
  moreover have "set (map fst (claimed s)) \<inter> set (map fst (sends s)) = {}"
    using assms(1) by (simp add: places_inv_def used_chans_def)
  ultimately show ?thesis by auto
qed

lemma claimed_buf_empty:
  assumes "cinv s" and "(ch, k, r) \<in> set (claimed s)"
  shows "buf s ch = []"
proof -
  have "ch \<notin> fst ` set (sends s)"
    using assms by (intro places_claimed_unsent) (auto simp: cinv_def)
  then have "(ch, j, x) \<notin> set (sends s)" for j x by force
  then show ?thesis using assms(1) by (auto simp: cinv_def buf_inv_def)
qed

lemmas places_steps = places_cancel places_register places_claim places_send

lemma cstep_places: "cstep s t \<Longrightarrow> places_inv s \<Longrightarrow> places_inv t"
proof (induction rule: cstep.induct)
  case (cs_miss rid s t)
  then show ?case
    using places_cancel [of s rid] by (simp add: sm_LoadAndDelete_def sm_Delete_def)
next
  case (cs_receive s ch r rs)
  then show ?case by (simp add: places_inv_def used_chans_def)
qed (simp_all add: places_steps)

lemma cstep_owner:
  assumes "cstep s t" and "places_inv s" and "owner_inv s"
  shows "owner_inv t"
  using assms
proof (induction rule: cstep.induct)
  case (cs_register s rid)
  have old: "\<forall>ch \<in> set (used_chans s). ch \<noteq> fresh s" using cs_register by (auto simp: places_inv_def)
  then have "\<forall>k ch. (k, ch) \<in> set (tab s) \<longrightarrow> ch \<noteq> fresh s"
    and "\<forall>ch k r. (ch, k, r) \<in> set (claimed s) \<union> set (sends s) \<longrightarrow> ch \<noteq> fresh s"
    by (force simp: used_chans_def)+
  moreover have "(k, ch) \<in> set (sm_Store rid (fresh s) (tab s)) \<Longrightarrow> (k, ch) = (rid, fresh s) \<or> (k, ch) \<in> set (tab s)" for k ch
    using set_update_subset [of rid "fresh s" "tab s"] by (auto simp: sm_Store_def)
  ultimately show ?case
    using cs_register by (fastforce simp: owner_inv_def)
next
  case (cs_claim rid s ch t r)
  then have "(rid, ch) \<in> set (tab s)" and "set t \<subseteq> set (tab s)"
    using set_delete_subset [of rid "tab s"] by (auto simp: sm_LoadAndDelete_def dest: map_of_SomeD)
  with cs_claim show ?case by (auto simp: owner_inv_def)
next
  case (cs_cancel s rid)
  then show ?case using set_delete_subset [of rid "tab s"] by (auto simp: owner_inv_def sm_Delete_def)
next
  case (cs_miss rid s t)
  then show ?case
    using set_delete_subset [of rid "tab s"] by (auto simp: owner_inv_def sm_LoadAndDelete_def)
qed (auto simp: owner_inv_def)

lemma cstep_buf:
  assumes "cstep s t" and "buf_inv s"
  shows "buf_inv t"
  using assms
proof (induction rule: cstep.induct)
  case (cs_receive s ch r rs)
  then have "buf s ch = [r]" and "rs = []" unfolding buf_inv_def by (metis list.distinct(1) list.inject)+
  with cs_receive show ?case by (auto simp: buf_inv_def)
next
  case (cs_send s xs ch rid r ys)
  then show ?case by (auto simp: buf_inv_def)
qed (auto simp: buf_inv_def)

lemma creach_cinv: "creach s \<Longrightarrow> cinv s"
proof (induction rule: creach.induct)
  case creach_init
  show ?case by (rule cinv_init)
next
  case (creach_step s t)
  then show ?case by (auto simp: cinv_def intro: cstep_places cstep_owner cstep_buf)
qed

section \<open>The methods as runs of the step relation\<close>

text \<open>The sequential state seen through the concurrent one.\<close>

definition seq_view :: "csys \<Rightarrow> correlator" where
  "seq_view s = \<lparr>pending = tab s, bufs = buf s, next_chan = fresh s\<rparr>"

lemma Register_simulated:
  "\<exists>t. cstep s t \<and> seq_view t = snd (Register rid (seq_view s)) \<and> claimed t = claimed s"
  by (rule exI, rule conjI, rule cs_register [of s rid]) (simp add: seq_view_def corr_simps)

lemma cancel_simulated:
  "\<not> once_done f \<Longrightarrow> \<exists>t. cstep s t \<and> seq_view t = snd (cancel f (seq_view s)) \<and> claimed t = claimed s"
  by (rule exI, rule conjI, rule cs_cancel [of s "cancel_id f"]) (simp add: seq_view_def corr_simps)

lemma Deliver_simulated:
  assumes "Deliver rid r (seq_view s) = Some (b, c')"
  shows "\<exists>t. cstep\<^sup>*\<^sup>* s t \<and> seq_view t = c' \<and> claimed t = claimed s"
proof (cases "sm_LoadAndDelete rid (tab s)")
  case (Pair found p)
  show ?thesis
  proof (cases found)
    case None
    with Pair have "cstep s (s\<lparr>tab := p\<rparr>)" by (intro cs_miss) simp
    moreover have "seq_view (s\<lparr>tab := p\<rparr>) = c'"
      using assms Pair None by (simp add: Deliver_def seq_view_def)
    ultimately show ?thesis by (intro exI [of _ "s\<lparr>tab := p\<rparr>"]) auto
  next
    case (Some ch)
    let ?s1 = "s\<lparr>tab := p, claimed := (ch, rid, r) # claimed s\<rparr>"
    let ?s2 = "?s1\<lparr>claimed := [] @ claimed s, buf := (buf ?s1)(ch := buf ?s1 ch @ [r]),
                  sends := (ch, rid, r) # sends ?s1\<rparr>"
    have room: "length (buf s ch) < 1"
      using assms Pair Some by (auto simp: Deliver_def seq_view_def send_def split: if_splits)
    have "cstep s ?s1" using Pair Some by (intro cs_claim) simp
    moreover have "cstep ?s1 ?s2" using room by (intro cs_send) simp_all
    ultimately have "cstep\<^sup>*\<^sup>* s ?s2" by simp
    moreover have "seq_view ?s2 = c'"
      using assms Pair Some room by (simp add: Deliver_def seq_view_def send_def)
    ultimately show ?thesis by (intro exI [of _ ?s2]) simp
  qed
qed

lemma corr_inv_receive:
  assumes "corr_inv c" and "receive ch c = Some (r, c')"
  shows "corr_inv c'"
proof -
  from assms(2) have "bufs c ch \<noteq> []" and c': "c' = c\<lparr>bufs := (bufs c)(ch := tl (bufs c ch))\<rparr>"
    by (auto simp: receive_def split: list.splits)
  with assms(1) have "ch \<notin> snd ` set (pending c)" by (auto simp: corr_inv_def)
  with assms(1) c' show ?thesis by (auto simp: corr_inv_def)
qed

section \<open>Properties\<close>


text \<open>A concrete run for the witnesses: one registration, one delivery in flight, then sent.\<close>

lemma creach_claimed_example:
  "creach \<lparr>tab = [], buf = (\<lambda>_. []), fresh = 1, claimed = [(0, ''a'', r)],
           owner = (\<lambda>_. '''')(0 := ''a''), sends = []\<rparr>"
proof -
  let ?s1 = "\<lparr>tab = [(''a'', 0)], buf = (\<lambda>_. []), fresh = 1, claimed = [],
              owner = (\<lambda>_. '''')(0 := ''a''), sends = []\<rparr>"
  have "(\<lambda>_. [])(0 := []) = (\<lambda>_ :: chan. [] :: result list)" by (rule ext) simp
  then have "creach ?s1"
    using creach_step [OF creach_init cs_register [of csys_init "''a''"]]
    by (simp add: csys_init_def sm_Store_def)
  moreover have "cstep ?s1 (?s1\<lparr>tab := [], claimed := [(0, ''a'', r)]\<rparr>)"
    using cs_claim [of "''a''" ?s1 0 "[]" r] by (simp add: sm_LoadAndDelete_def)
  ultimately show ?thesis by (auto dest: creach_step)
qed

lemma creach_sent_example:
  "creach \<lparr>tab = [], buf = (\<lambda>_. [])(0 := [r]), fresh = 1, claimed = [],
           owner = (\<lambda>_. '''')(0 := ''a''), sends = [(0, ''a'', r)]\<rparr>"
proof -
  let ?s = "\<lparr>tab = [], buf = (\<lambda>_. []), fresh = 1, claimed = [(0, ''a'', r)],
             owner = (\<lambda>_. '''')(0 := ''a''), sends = []\<rparr>"
  have "cstep ?s (?s\<lparr>claimed := [] @ [], buf := (buf ?s)(0 := buf ?s 0 @ [r]), sends := (0, ''a'', r) # sends ?s\<rparr>)"
    by (rule cs_send) simp_all
  with creach_claimed_example [of r] show ?thesis by (auto dest: creach_step)
qed

definition sample_result :: result where
  "sample_result = \<lparr>Response = None, Err = Some (Sentinel ErrUnavailable)\<rparr>"


text \<open>C4. A goroutine that has taken a channel out of the table can always complete its send in
  one step: \<open>Deliver\<close> and \<open>Shutdown\<close> never block, even when the caller has stopped reading.\<close>

theorem correlator_send_never_blocks:
  assumes "creach s" and "(ch, k, r) \<in> set (claimed s)"
  shows "buf s ch = [] \<and> (\<exists>t. cstep s t \<and> buf t ch = [r] \<and> (ch, k, r) \<in> set (sends t) \<and>
           length (claimed t) + 1 = length (claimed s))"
proof -
  have empty: "buf s ch = []" using creach_cinv [OF assms(1)] assms(2) by (rule claimed_buf_empty)
  obtain xs ys where split: "claimed s = xs @ (ch, k, r) # ys" using assms(2) by (meson split_list)
  let ?t = "s\<lparr>claimed := xs @ ys, buf := (buf s)(ch := buf s ch @ [r]), sends := (ch, k, r) # sends s\<rparr>"
  have "cstep s ?t" using split empty by (intro cs_send) simp_all
  with empty split show ?thesis by (intro conjI exI [of _ ?t]) simp_all
qed

theorem correlator_send_never_blocks_witness:
  "\<exists>s. creach s \<and> (0, ''a'', sample_result) \<in> set (claimed s) \<and> buf s 0 = []"
proof -
  let ?s = "\<lparr>tab = [], buf = (\<lambda>_. []), fresh = 1, claimed = [(0, ''a'', sample_result)],
             owner = (\<lambda>_. '''')(0 := ''a''), sends = []\<rparr>"
  have mem: "(0, ''a'', sample_result) \<in> set (claimed ?s)" by simp
  from correlator_send_never_blocks [OF creach_claimed_example mem] mem creach_claimed_example
  show ?thesis by blast
qed

text \<open>A value a caller can receive on its channel was delivered under the very id the channel
  was registered with: replies are never cross-wired.\<close>

theorem correlator_routing:
  assumes "creach s" and "r \<in> set (buf s ch)"
  shows "(ch, owner s ch, r) \<in> set (sends s)"
proof -
  have inv: "cinv s" using assms(1) by (rule creach_cinv)
  then obtain k r' where sent: "(ch, k, r') \<in> set (sends s)" and "buf s ch = [r']"
    using assms(2) unfolding cinv_def buf_inv_def by (metis empty_iff list.set(1))
  moreover have "owner s ch = k" using inv sent by (auto simp: cinv_def owner_inv_def)
  ultimately show ?thesis using assms(2) by simp
qed

theorem correlator_routing_witness:
  "\<exists>s. creach s \<and> sample_result \<in> set (buf s 0) \<and> (0, ''a'', sample_result) \<in> set (sends s)"
proof -
  let ?s = "\<lparr>tab = [], buf = (\<lambda>_. [])(0 := [sample_result]), fresh = 1, claimed = [],
             owner = (\<lambda>_. '''')(0 := ''a''), sends = [(0, ''a'', sample_result)]\<rparr>"
  have mem: "sample_result \<in> set (buf ?s 0)" by simp
  have "(0, owner ?s 0, sample_result) \<in> set (sends ?s)"
    by (rule correlator_routing [OF creach_sent_example mem])
  with mem creach_sent_example [of sample_result] show ?thesis by (intro exI [of _ ?s]) simp
qed

text \<open>C5. The life of one registration: the waiting caller gets exactly the delivered result and
  the slot is freed; a second delivery under the same id is refused and changes nothing, as is a
  delivery after the caller cancelled; other ids keep their waiters.\<close>

theorem correlator_lifecycle:
  assumes "corr_inv c" and "Register k c = ((ch, f), c1)"
  shows "\<exists>c2. Deliver k r c1 = Some (True, c2) \<and> fst ` set (pending c2) = fst ` set (pending c) - {k} \<and>
           map_option fst (receive ch c2) = Some r \<and> Deliver k r' c2 = Some (False, c2) \<and>
           Deliver k r (snd (cancel f c1)) = Some (False, snd (cancel f c1)) \<and>
           (\<forall>j. j \<noteq> k \<longrightarrow> map_of (pending c2) j = map_of (pending c) j)"
proof -
  have inv1: "corr_inv c1" using corr_inv_Register [OF assms(1), of k] assms(2) by simp
  have p1: "pending c1 = AList.update k ch (pending c)" and f: "f = \<lparr>cancel_id = k, once_done = False\<rparr>"
    using assms(2) by (auto simp: corr_simps)
  have look: "map_of (pending c1) k = Some ch" by (simp add: p1 update_conv')
  let ?c2 = "c1\<lparr>pending := AList.delete k (pending c1), bufs := (bufs c1)(ch := [r])\<rparr>"
  have "Deliver k r c1 = Some (True, ?c2)" by (rule Deliver_found [OF inv1 look])
  moreover have "fst ` set (pending ?c2) = fst ` set (pending c) - {k}"
    by (simp add: p1 delete_update_same flip: set_map) (simp add: delete_keys)
  moreover have "map_option fst (receive ch ?c2) = Some r" by (simp add: receive_def)
  moreover have "Deliver k r' ?c2 = Some (False, ?c2)"
    by (rule Deliver_missing) (simp add: delete_conv')
  moreover have "Deliver k r (snd (cancel f c1)) = Some (False, snd (cancel f c1))"
    by (rule Deliver_missing) (simp add: f cancel_def sm_Delete_def delete_conv')
  moreover have "\<forall>j. j \<noteq> k \<longrightarrow> map_of (pending ?c2) j = map_of (pending c) j"
    by (simp add: p1 delete_update_same)
  ultimately show ?thesis by (intro exI [of _ ?c2]) blast
qed

theorem correlator_lifecycle_witness:
  "\<exists>c2. Deliver ''a'' sample_result (snd (Register ''a'' NewCorrelator)) = Some (True, c2) \<and> pending c2 = []"
proof -
  let ?c1 = "snd (Register ''a'' NewCorrelator)"
  have reg: "Register ''a'' NewCorrelator = ((0, \<lparr>cancel_id = ''a'', once_done = False\<rparr>), ?c1)"
    by (simp add: corr_simps)
  obtain c2 where "Deliver ''a'' sample_result ?c1 = Some (True, c2)"
    and "fst ` set (pending c2) = fst ` set (pending NewCorrelator) - {''a''}"
    using correlator_lifecycle [OF corr_inv_New reg, of sample_result sample_result] by blast
  then show ?thesis by (auto simp: NewCorrelator_def)
qed

text \<open>C6. \<open>Shutdown\<close> terminates without blocking, leaves no registration outstanding, gives every
  waiting caller exactly the shutdown error, and touches no other channel.\<close>

theorem correlator_shutdown:
  assumes "corr_inv c"
  shows "\<exists>c'. Shutdown err c = Some c' \<and> corr_inv c' \<and> Len c' = 0 \<and>
           (\<forall>ch. bufs c' ch = (if ch \<in> snd ` set (pending c) then [\<lparr>Response = None, Err = Some err\<rparr>]
                               else bufs c ch))"
  using Shutdown_spec [OF assms, of err] by auto

theorem correlator_shutdown_witness:
  "\<exists>c'. Shutdown (Sentinel ErrUnavailable) (snd (Register ''a'' NewCorrelator)) = Some c' \<and>
        Len c' = 0 \<and> bufs c' 0 = [sample_result]"
proof -
  let ?c = "snd (Register ''a'' NewCorrelator)"
  have mem: "0 \<in> snd ` set (pending ?c)"
    by (simp add: corr_simps)
  obtain c' where "Shutdown (Sentinel ErrUnavailable) ?c = Some c'" and "Len c' = 0"
    and bufs: "\<forall>ch. bufs c' ch = (if ch \<in> snd ` set (pending ?c)
                 then [\<lparr>Response = None, Err = Some (Sentinel ErrUnavailable)\<rparr>] else bufs ?c ch)"
    using correlator_shutdown [OF corr_inv_Register [OF corr_inv_New, of "''a''"], of "Sentinel ErrUnavailable"]
    by blast
  moreover have "bufs c' 0 = [sample_result]"
    unfolding spec [OF bufs, of 0] sample_result_def using mem by simp
  ultimately show ?thesis by blast
qed

text \<open>Registering an id twice and then cancelling the \<open>first\<close> registration removes the
  \<open>second\<close> one: the later caller's reply is then refused.  The cancel function deletes by id, not
  by channel.\<close>

theorem correlator_stale_cancel:
  assumes "Register k c = ((ch1, f1), c1)" and "Register k c1 = ((ch2, f2), c2)"
  shows "map_of (pending c2) k = Some ch2 \<and> ch2 \<noteq> ch1 \<and>
         Deliver k r (snd (cancel f1 c2)) = Some (False, snd (cancel f1 c2))"
proof -
  have f1: "f1 = \<lparr>cancel_id = k, once_done = False\<rparr>" and ch: "ch1 = next_chan c" "ch2 = Suc (next_chan c)"
    and p: "pending c2 = AList.update k ch2 (pending c1)"
    using assms by (auto simp: corr_simps)
  have "Deliver k r (snd (cancel f1 c2)) = Some (False, snd (cancel f1 c2))"
    by (rule Deliver_missing) (simp add: f1 cancel_def sm_Delete_def delete_conv')
  with ch p show ?thesis by (simp add: update_conv')
qed

theorem correlator_stale_cancel_witness:
  "\<exists>c1 c2 f1 f2. Register ''a'' NewCorrelator = ((0, f1), c1) \<and> Register ''a'' c1 = ((1, f2), c2) \<and>
     Deliver ''a'' sample_result (snd (cancel f1 c2)) = Some (False, snd (cancel f1 c2))"
proof -
  let ?c1 = "snd (Register ''a'' NewCorrelator)" and ?f = "\<lparr>cancel_id = ''a'', once_done = False\<rparr>"
  have 1: "Register ''a'' NewCorrelator = ((0, ?f), ?c1)"
    by (simp add: corr_simps)
  have 2: "Register ''a'' ?c1 = ((1, ?f), snd (Register ''a'' ?c1))"
    by (simp add: corr_simps)
  from correlator_stale_cancel [OF 1 2, of sample_result] 1 2 show ?thesis by blast
qed



end
