(* ===== verification/Retry.thy ===== *)
theory Retry
  imports Rpc_Core
begin

text \<open>
  The retrying client (\<open>clients/internal/rpc/retry.go\<close>): a decorator that re-sends a transiently
  failed request under a new request id and the same idempotency key.

  The wrapped client is a function of the request and of the state \<open>'w\<close> of everything behind it,
  returning Go's pair of a possibly nil response and a possibly nil error.  What the loop reads from
  the outside is the record \<open>retry_env\<close>: the values of \<open>uuid.NewString()\<close>, whether the context is
  still alive, and which channel of the backoff's \<open>select\<close> fires, each by attempt number.
\<close>

section \<open>The client\<close>

record retry_policy =
  MaxAttempts :: int
  Backoff :: duration

record retry_client =
  policy :: retry_policy
  retries :: u64

type_synonym outcome = "rpc_response option \<times> gerr option"
type_synonym 'w client_call = "rpc_request \<Rightarrow> 'w \<Rightarrow> outcome \<times> 'w"

record retry_env =
  minted :: string
  fresh_id :: "int \<Rightarrow> string"
  ctx_alive :: "int \<Rightarrow> bool"
  timer_fires :: "int \<Rightarrow> bool"

definition NewRetryClient :: "retry_policy \<Rightarrow> retry_client" where
  "NewRetryClient p =
     \<lparr>policy = (if MaxAttempts p < 1 then p\<lparr>MaxAttempts := 1\<rparr> else p), retries = 0\<rparr>"

definition retryable :: "gerr option \<Rightarrow> rpc_response option \<Rightarrow> bool" where
  "retryable err resp =
     (case err of
        Some e \<Rightarrow> StatusOf (Some e) = STATUS_TIMEOUT \<or> StatusOf (Some e) = STATUS_UNAVAILABLE
      | None \<Rightarrow> GetStatus resp = STATUS_TIMEOUT \<or> GetStatus resp = STATUS_UNAVAILABLE)"

definition sleepCtx :: "duration \<Rightarrow> bool \<Rightarrow> bool \<Rightarrow> bool" where
  "sleepCtx d alive fires = (if d \<le> 0 then alive else fires)"

text \<open>The request of one attempt: a clone under the operation's key, with a new id from the second
  attempt on.\<close>

definition attempt_request :: "retry_env \<Rightarrow> string \<Rightarrow> rpc_request \<Rightarrow> int \<Rightarrow> rpc_request" where
  "attempt_request env key req attempt =
     (let r = req\<lparr>rq_IdempotencyKey := key\<rparr> in
      if attempt > 1 then r\<lparr>rq_RequestId := fresh_id env attempt\<rparr> else r)"

text \<open>The loop from a given attempt; \<open>prev\<close> holds the variables \<open>resp\<close> and \<open>err\<close>.\<close>

function attempts ::
  "retry_env \<Rightarrow> 'w client_call \<Rightarrow> string \<Rightarrow> rpc_request \<Rightarrow> int \<Rightarrow> outcome \<Rightarrow> retry_client \<times> 'w
   \<Rightarrow> outcome \<times> (retry_client \<times> 'w)" where
  "attempts env call key req attempt prev s =
     (if attempt \<le> MaxAttempts (policy (fst s)) then
        (let (c, w) = s; (out, w1) = call (attempt_request env key req attempt) w in
         if \<not> retryable (snd out) (fst out) \<or> attempt = MaxAttempts (policy c) then (out, (c, w1))
         else (let c1 = c\<lparr>retries := retries c + 1\<rparr> in
               if \<not> sleepCtx (Backoff (policy c)) (ctx_alive env attempt) (timer_fires env attempt)
               then (out, (c1, w1))
               else attempts env call key req (attempt + 1) out (c1, w1)))
      else (prev, s))"
  by pat_completeness auto
termination
  by (relation "measure (\<lambda>(env, call, key, req, attempt, prev, s). nat (MaxAttempts (policy (fst s)) + 1 - attempt))")
     auto

declare attempts.simps [simp del]

definition retry_key :: "retry_env \<Rightarrow> rpc_request \<Rightarrow> string" where
  "retry_key env req = (if rq_IdempotencyKey req = '''' then minted env else rq_IdempotencyKey req)"

definition Call ::
  "retry_env \<Rightarrow> 'w client_call \<Rightarrow> rpc_request \<Rightarrow> retry_client \<times> 'w \<Rightarrow> outcome \<times> (retry_client \<times> 'w)" where
  "Call env call req s = attempts env call (retry_key env req) req 1 (None, None) s"

definition Retries :: "retry_client \<Rightarrow> u64" where
  "Retries c = retries c"

section \<open>What is sent\<close>

text \<open>The wrapped client with a record of every request it was given and what it answered.\<close>

type_synonym exchange = "rpc_request \<times> outcome"

definition traced :: "'w client_call \<Rightarrow> ('w \<times> exchange list) client_call" where
  "traced call r s = (let (out, w1) = call r (fst s) in (out, (w1, snd s @ [(r, out)])))"

lemma NewRetryClient_MaxAttempts: "MaxAttempts (policy (NewRetryClient p)) \<ge> 1"
  by (simp add: NewRetryClient_def)

text \<open>A run of the loop from attempt \<open>a\<close> that made the exchanges \<open>xs\<close>, returned \<open>out\<close> and
  moved the retry counter from \<open>n\<close> to \<open>n'\<close>.\<close>

definition gave_up :: "retry_env \<Rightarrow> retry_policy \<Rightarrow> int \<Rightarrow> bool" where
  "gave_up env p attempt \<longleftrightarrow> \<not> sleepCtx (Backoff p) (ctx_alive env attempt) (timer_fires env attempt)"

definition transient :: "outcome \<Rightarrow> bool" where
  "transient out = retryable (snd out) (fst out)"

inductive run :: "retry_env \<Rightarrow> retry_policy \<Rightarrow> string \<Rightarrow> rpc_request \<Rightarrow> int \<Rightarrow> exchange list \<Rightarrow> outcome \<Rightarrow> u64 \<Rightarrow> u64 \<Rightarrow> bool"
  for env p key req where
  final: "\<not> transient out \<or> a = MaxAttempts p \<Longrightarrow>
     run env p key req a [(attempt_request env key req a, out)] out n n"
| expired: "transient out \<Longrightarrow> a < MaxAttempts p \<Longrightarrow> gave_up env p a \<Longrightarrow>
     run env p key req a [(attempt_request env key req a, out)] out n (n + 1)"
| again: "transient out \<Longrightarrow> a < MaxAttempts p \<Longrightarrow> \<not> gave_up env p a \<Longrightarrow>
     run env p key req (a + 1) xs out' (n + 1) n' \<Longrightarrow>
     run env p key req a ((attempt_request env key req a, out) # xs) out' n n'"

lemma attempts_run:
  assumes "a \<le> MaxAttempts (policy c)"
  shows "\<exists>xs out c' w'. attempts env (traced call) key req a l (c, (w, ys)) = (out, (c', (w', ys @ xs))) \<and>
           policy c' = policy c \<and> run env (policy c) key req a xs out (retries c) (retries c')"
  using assms
proof (induction "nat (MaxAttempts (policy c) + 1 - a)" arbitrary: a c w ys l rule: less_induct)
  case less
  let ?r = "attempt_request env key req a"
  obtain out w1 where call: "call ?r w = (out, w1)" by (cases "call ?r w")
  have tr: "traced call ?r (w, ys) = (out, (w1, ys @ [(?r, out)]))" by (simp add: traced_def call)
  let ?c1 = "c\<lparr>retries := retries c + 1\<rparr>"
  show ?case
  proof (cases "\<not> transient out \<or> a = MaxAttempts (policy c)")
    case True
    then have "attempts env (traced call) key req a l (c, (w, ys)) = (out, (c, (w1, ys @ [(?r, out)])))"
      using less.prems tr by (auto simp: attempts.simps [of env _ key req a] transient_def)
    with run.final [OF True] show ?thesis by blast
  next
    case False
    then have lt: "a < MaxAttempts (policy c)" using less.prems by simp
    show ?thesis
    proof (cases "gave_up env (policy c) a")
      case True
      then have "attempts env (traced call) key req a l (c, (w, ys)) = (out, (?c1, (w1, ys @ [(?r, out)])))"
        using False lt tr by (auto simp: attempts.simps [of env _ key req a] transient_def gave_up_def Let_def)
      moreover from False lt True have "run env (policy c) key req a [(?r, out)] out (retries c) (retries ?c1)"
        by (auto intro: run.expired)
      ultimately show ?thesis by (intro exI [of _ "[(?r, out)]"] exI [of _ out] exI [of _ ?c1] exI [of _ w1]) simp
    next
      case go: False
      have "attempts env (traced call) key req a l (c, (w, ys)) =
          attempts env (traced call) key req (a + 1) out (?c1, (w1, ys @ [(?r, out)]))"
        using False lt go tr by (auto simp: attempts.simps [of env _ key req a] transient_def gave_up_def Let_def)
      moreover obtain xs out' c' w' where
        "attempts env (traced call) key req (a + 1) out (?c1, (w1, ys @ [(?r, out)])) =
           (out', (c', (w', (ys @ [(?r, out)]) @ xs)))"
        and "policy c' = policy c"
        and "run env (policy c) key req (a + 1) xs out' (retries c + 1) (retries c')"
        using less.hyps [of ?c1 "a + 1" out w1 "ys @ [(?r, out)]"] lt by auto
      moreover from this(3) False lt go have
        "run env (policy c) key req a ((?r, out) # xs) out' (retries c) (retries c')"
        by (auto intro: run.again)
      ultimately show ?thesis by (intro exI [of _ "(?r, out) # xs"] exI conjI) auto
    qed
  qed
qed

lemma run_length: "run env p key req a xs out n n' \<Longrightarrow> a \<le> MaxAttempts p \<Longrightarrow>
    xs \<noteq> [] \<and> int (length xs) \<le> MaxAttempts p + 1 - a"
  by (induction rule: run.induct) auto

lemma run_requests: "run env p key req a xs out n n' \<Longrightarrow>
    map fst xs = map (\<lambda>i. attempt_request env key req (a + int i)) [0..<length xs]"
proof (induction rule: run.induct)
  case (again out a xs out' n n')
  have "map (\<lambda>i. attempt_request env key req (a + int i)) [0..<Suc (length xs)] =
        attempt_request env key req a # map (\<lambda>i. attempt_request env key req (a + 1 + int i)) [0..<length xs]"
    by (simp add: upt_conv_Cons map_Suc_upt [symmetric] o_def ac_simps del: upt_Suc)
  with again.IH show ?case by simp
qed simp_all

lemma run_outcomes: "run env p key req a xs out n n' \<Longrightarrow>
    snd (last xs) = out \<and> (\<forall>x \<in> set (butlast xs). transient (snd x))"
proof (induction rule: run.induct)
  case (again out a xs out' n n')
  then have "xs \<noteq> []" using run.cases by blast
  with again show ?case by simp
qed simp_all

lemma run_stop: "run env p key req a xs out n n' \<Longrightarrow>
    transient out \<Longrightarrow> int (length xs) = MaxAttempts p + 1 - a \<or> gave_up env p (a + int (length xs) - 1)"
  by (induction rule: run.induct) (auto simp: algebra_simps)

lemma run_counter: "run env p key req a xs out n n' \<Longrightarrow>
    n' = n + of_nat (length xs - 1) +
      (if transient out \<and> int (length xs) < MaxAttempts p + 1 - a then 1 else 0)"
proof (induction rule: run.induct)
  case (again out a xs out' n n')
  then have "xs \<noteq> []" using run.cases by blast
  then obtain m where m: "length xs = Suc m" by (cases xs) auto
  with again.IH show ?case by (simp add: algebra_simps)
qed (auto simp: transient_def)

lemma Call_run:
  assumes "Call env (traced call) req (c, (w, [])) = (out, (c', (w', xs)))" and "MaxAttempts (policy c) \<ge> 1"
  shows "policy c' = policy c \<and> run env (policy c) (retry_key env req) req 1 xs out (retries c) (retries c')"
  using attempts_run [OF assms(2), of env call "retry_key env req" req "(None, None)" w "[]"] assms(1)
  by (auto simp: Call_def)

text \<open>Recording the exchanges does not change what the client does.\<close>

lemma attempts_traced:
  "attempts env (traced call) key req a l (c, (w, ys)) =
     (let (out, (c', w')) = attempts env call key req a l (c, w) in
      (out, (c', (w', snd (snd (snd (attempts env (traced call) key req a l (c, (w, ys)))))))))"
proof (induction "nat (MaxAttempts (policy c) + 1 - a)" arbitrary: a c w ys l rule: less_induct)
  case less
  let ?r = "attempt_request env key req a"
  obtain out w1 where call: "call ?r w = (out, w1)" by (cases "call ?r w")
  have tr: "traced call ?r (w, ys) = (out, (w1, ys @ [(?r, out)]))" by (simp add: traced_def call)
  have IH: "a \<le> MaxAttempts (policy c) \<Longrightarrow>
    attempts env (traced call) key req (a + 1) out (c\<lparr>retries := retries c + 1\<rparr>, (w1, ys @ [(?r, out)])) =
     (let (o2, (c', w')) = attempts env call key req (a + 1) out (c\<lparr>retries := retries c + 1\<rparr>, w1) in
      (o2, (c', (w', snd (snd (snd (attempts env (traced call) key req (a + 1) out
         (c\<lparr>retries := retries c + 1\<rparr>, (w1, ys @ [(?r, out)])))))))))"
    by (rule less) simp
  show ?case
    unfolding attempts.simps [of env _ key req a l] fst_conv snd_conv Let_def case_prod_conv tr call
    using IH by (simp add: Let_def case_prod_unfold)
qed

text \<open>What the wrapped client keeps of its state, and guarantees of every outcome, for the requests
  of one operation, holds after the whole call, and of the outcome the call returns.\<close>

lemma attempts_invariant:
  assumes step: "\<And>r w out w'. rq_IdempotencyKey r = key \<Longrightarrow> I w \<Longrightarrow> call r w = (out, w') \<Longrightarrow> I w' \<and> J out w'"
    and "a \<le> MaxAttempts (policy c)" and "I w"
    and "attempts env call key req a l (c, w) = (out, (c', w'))"
  shows "I w' \<and> J out w'"
  using assms(2-4)
proof (induction "nat (MaxAttempts (policy c) + 1 - a)" arbitrary: a c w l rule: less_induct)
  case less
  let ?r = "attempt_request env key req a"
  obtain o1 w1 where call: "call ?r w = (o1, w1)" by (cases "call ?r w")
  have "rq_IdempotencyKey ?r = key" by (simp add: attempt_request_def Let_def)
  with step call less.prems have one: "I w1 \<and> J o1 w1" by blast
  have again: "I w' \<and> J out w'"
    if "attempts env call key req (a + 1) o1 (c\<lparr>retries := retries c + 1\<rparr>, w1) = (out, (c', w'))"
      and "a < MaxAttempts (policy c)"
  proof (rule less.hyps [of "c\<lparr>retries := retries c + 1\<rparr>" "a + 1" w1 o1])
    show "nat (MaxAttempts (policy (c\<lparr>retries := retries c + 1\<rparr>)) + 1 - (a + 1)) < nat (MaxAttempts (policy c) + 1 - a)"
      and "a + 1 \<le> MaxAttempts (policy (c\<lparr>retries := retries c + 1\<rparr>))" using that(2) by simp_all
  qed (use that one in simp_all)
  from less.prems call one again show ?case
    unfolding attempts.simps [of env _ key req a l] by (auto simp: Let_def split: if_splits)
qed

lemma Call_invariant:
  assumes "\<And>r w out w'. rq_IdempotencyKey r = retry_key env req \<Longrightarrow> I w \<Longrightarrow> call r w = (out, w') \<Longrightarrow> I w' \<and> J out w'"
    and "I w" and "Call env call req (NewRetryClient p, w) = (out, (c', w'))"
  shows "I w' \<and> J out w'"
  by (rule attempts_invariant [where I = I and J = J, OF assms(1) NewRetryClient_MaxAttempts assms(2)
        assms(3) [unfolded Call_def]])

section \<open>Concrete runs\<close>

text \<open>A wrapped client that fails with the wrapped timeout error a given number of times and then
  answers OK; and an environment with a live context.\<close>

definition flaky :: "nat client_call" where
  "flaky r n =
     (case n of
        0 \<Rightarrow> ((Some (zero_response\<lparr>rs_RequestId := rq_RequestId r, rs_Status := STATUS_OK\<rparr>), None), 0)
      | Suc k \<Rightarrow> ((None, Some (Wrapf ''call: '' (Sentinel CtxDeadlineExceeded) '''')), k))"

definition live_env :: retry_env where
  "live_env = \<lparr>minted = ''key'', fresh_id = (\<lambda>a. itoa a), ctx_alive = (\<lambda>_. True), timer_fires = (\<lambda>_. True)\<rparr>"

definition dead_env :: retry_env where
  "dead_env = live_env\<lparr>ctx_alive := (\<lambda>_. False), timer_fires := (\<lambda>_. False)\<rparr>"

lemmas retry_eval = attempts.simps Call_def NewRetryClient_def flaky_def traced_def retryable_def
  GetStatus_def attempt_request_def retry_key_def sleepCtx_def live_env_def dead_env_def zero_request_def

section \<open>Properties\<close>

text \<open>What the client sends for one call: between one and the policy's maximum of attempts (the
  maximum raised to one); every attempt carries the caller's request unchanged except for the
  idempotency key, which is the caller's or else one minted key for all attempts, and the request
  id, which is the caller's on the first attempt and that attempt's fresh id on every later one.\<close>

theorem retry_requests:
  assumes "Call env (traced call) req (NewRetryClient p, (w, [])) = (out, (c', (w', xs)))"
  shows "1 \<le> length xs \<and> int (length xs) \<le> max 1 (MaxAttempts p) \<and>
         (\<forall>i < length xs. fst (xs ! i) =
            req\<lparr>rq_IdempotencyKey := (if rq_IdempotencyKey req = '''' then minted env else rq_IdempotencyKey req),
                rq_RequestId := (if i = 0 then rq_RequestId req else fresh_id env (int i + 1))\<rparr>)"
proof -
  let ?c = "NewRetryClient p" and ?key = "retry_key env req"
  have R: "run env (policy ?c) ?key req 1 xs out (retries ?c) (retries c')"
    using Call_run [OF assms NewRetryClient_MaxAttempts] by simp
  have "xs \<noteq> []" and "int (length xs) \<le> MaxAttempts (policy ?c)"
    using run_length [OF R NewRetryClient_MaxAttempts] by simp_all
  then have len: "1 \<le> length xs \<and> int (length xs) \<le> max 1 (MaxAttempts p)"
    by (cases xs) (auto simp: NewRetryClient_def split: if_splits)
  have "fst (xs ! i) = attempt_request env ?key req (1 + int i)" if "i < length xs" for i
    using arg_cong [OF run_requests [OF R], of "\<lambda>l. l ! i"] that by simp
  with len show ?thesis by (auto simp: attempt_request_def retry_key_def Let_def add.commute)
qed

theorem retry_requests_witness:
  "\<exists>out c' w' xs. Call live_env (traced flaky) zero_request
       (NewRetryClient \<lparr>MaxAttempts = 3, Backoff = 0\<rparr>, (1, [])) = (out, (c', (w', xs))) \<and> length xs = 2 \<and>
     fst (xs ! 1) = zero_request\<lparr>rq_IdempotencyKey := ''key'', rq_RequestId := ''2''\<rparr>"
proof -
  obtain out c' w' xs where C: "Call live_env (traced flaky) zero_request
      (NewRetryClient \<lparr>MaxAttempts = 3, Backoff = 0\<rparr>, (1, [])) = (out, (c', (w', xs)))" and len: "length xs = 2"
    by (simp add: retry_eval numeral_eq_Suc)
  have two: "itoa 2 = ''2''" by code_simp
  have "fst (xs ! 1) = zero_request\<lparr>rq_IdempotencyKey := ''key'', rq_RequestId := ''2''\<rparr>"
    using retry_requests [OF C] len two by (simp add: live_env_def zero_request_def)
  with C len show ?thesis by blast
qed

text \<open>What one call returns: exactly the outcome of its last attempt, unmodified.  Every earlier
  attempt failed transiently (a timeout or an unavailable status, as an error however wrapped, or as
  the status of a response); and a transient failure is returned only when the attempts are used up
  or the context ended during the backoff.  So a permanent failure or a success is returned at once,
  after the attempt that produced it.\<close>

theorem retry_outcome:
  assumes "Call env (traced call) req (NewRetryClient p, (w, [])) = (out, (c', (w', xs)))"
  shows "snd (last xs) = out \<and>
         (\<forall>x \<in> set (butlast xs). retryable (snd (snd x)) (fst (snd x))) \<and>
         (retryable (snd out) (fst out) \<longrightarrow>
            int (length xs) = max 1 (MaxAttempts p) \<or>
            \<not> sleepCtx (Backoff p) (ctx_alive env (int (length xs))) (timer_fires env (int (length xs))))"
proof -
  let ?c = "NewRetryClient p"
  have R: "run env (policy ?c) (retry_key env req) req 1 xs out (retries ?c) (retries c')"
    using Call_run [OF assms NewRetryClient_MaxAttempts] by simp
  have "MaxAttempts (policy ?c) = max 1 (MaxAttempts p)" and "Backoff (policy ?c) = Backoff p"
    by (simp_all add: NewRetryClient_def)
  with run_outcomes [OF R] run_stop [OF R] show ?thesis by (simp add: transient_def gave_up_def)
qed

theorem retry_outcome_witness:
  "\<exists>c' w' xs. Call live_env (traced flaky) zero_request (NewRetryClient \<lparr>MaxAttempts = 3, Backoff = 0\<rparr>, (7, []))
     = ((None, Some (Wrapf ''call: '' (Sentinel CtxDeadlineExceeded) '''')), (c', (w', xs))) \<and> length xs = 3"
proof -
  obtain c' w' xs where C: "Call live_env (traced flaky) zero_request
      (NewRetryClient \<lparr>MaxAttempts = 3, Backoff = 0\<rparr>, (7, [])) =
      ((None, Some (Wrapf ''call: '' (Sentinel CtxDeadlineExceeded) '''')), (c', (w', xs)))"
    by (simp add: retry_eval numeral_eq_Suc)
  with retry_outcome [OF C] show ?thesis by (simp add: retryable_def sleepCtx_def live_env_def)
qed

text \<open>The retry counter advances by the number of attempts after the first, plus one when the
  context ends during a backoff: that last increment counts a retry that is never issued.\<close>

theorem retry_counter:
  assumes "Call env (traced call) req (NewRetryClient p, (w, [])) = (out, (c', (w', xs)))"
  shows "Retries c' = of_nat (length xs - 1) +
           (if retryable (snd out) (fst out) \<and> int (length xs) < max 1 (MaxAttempts p) then 1 else 0)"
proof -
  let ?c = "NewRetryClient p"
  have R: "run env (policy ?c) (retry_key env req) req 1 xs out (retries ?c) (retries c')"
    using Call_run [OF assms NewRetryClient_MaxAttempts] by simp
  have "MaxAttempts (policy ?c) = max 1 (MaxAttempts p)" and "retries ?c = 0"
    by (simp_all add: NewRetryClient_def)
  with run_counter [OF R] show ?thesis by (simp add: transient_def Retries_def)
qed

theorem retry_counter_witness:
  "\<exists>out c' w' xs. Call dead_env (traced flaky) zero_request (NewRetryClient \<lparr>MaxAttempts = 3, Backoff = 5\<rparr>, (7, []))
     = (out, (c', (w', xs))) \<and> length xs = 1 \<and> Retries c' = 1"
proof -
  obtain out c' w' xs where C: "Call dead_env (traced flaky) zero_request
      (NewRetryClient \<lparr>MaxAttempts = 3, Backoff = 5\<rparr>, (7, [])) = (out, (c', (w', xs)))"
      and "length xs = 1" and "retryable (snd out) (fst out)"
    by (simp add: retry_eval numeral_eq_Suc)
  with retry_counter [OF C] show ?thesis by simp
qed

end
