(* ===== verification/Waiting.thy ===== *)
theory Waiting
  imports Correlator Retry
begin

text \<open>
  What the out-of-band bindings of the RPC lab share (\<open>natsx\<close> JetStream, \<open>rabbitmqx\<close>, \<open>mqttx\<close>,
  \<open>valkeyx\<close>): a call registers its request id, publishes, and then waits in a \<open>select\<close> for its
  channel or for the context, with a deferred cancel; a reply handler decodes incoming replies and
  hands them to the correlator; closing the client shuts the correlator down.

  While a call waits, other goroutines of the same client act on the correlator: the list of
  \<open>event\<close>s is what they do until the \<open>select\<close> fires.  The contract of a reply handler is the locale
  \<open>reply_router\<close>, which every binding's theory interprets on its own handler; the behaviour of the
  wait is proved once inside it.
\<close>

section \<open>The wire\<close>

text \<open>\<open>proto.Marshal\<close> and \<open>proto.Unmarshal\<close> on the two envelopes.\<close>

record wire =
  marshal_req :: "rpc_request \<Rightarrow> gerr + bytes"
  unmarshal_req :: "bytes \<Rightarrow> gerr + rpc_request"
  marshal_resp :: "rpc_response \<Rightarrow> gerr + bytes"
  unmarshal_resp :: "bytes \<Rightarrow> gerr + rpc_response"

text \<open>\<open>rpc.Handler\<close>: application code behind a responder; \<open>handled\<close> is the three lines every
  responder has, that turn a handler's error into an error response.\<close>

type_synonym 'w rpc_handler = "rpc_request \<Rightarrow> 'w \<Rightarrow> (gerr + rpc_response) \<times> 'w"

definition handled :: "'w rpc_handler \<Rightarrow> rpc_request \<Rightarrow> 'w \<Rightarrow> rpc_response \<times> 'w" where
  "handled h req w =
     (case h req w of (Inl err, w') \<Rightarrow> (ErrorResponse req err, w') | (Inr resp, w') \<Rightarrow> (resp, w'))"

section \<open>Waiting for a reply\<close>

datatype 'x event =
    Reply 'x
  | Stop gerr
  | Begin string
  | Finish cancel_fn

text \<open>The \<open>select\<close>: \<open>ctx\<close> is \<open>ctx.Err()\<close> once the context is done; when both cases are ready Go
  picks one, here by \<open>prefer\<close>.  \<open>None\<close> is waiting forever.\<close>

definition await_reply :: "chan \<Rightarrow> gerr option \<Rightarrow> bool \<Rightarrow> correlator \<Rightarrow> (outcome \<times> correlator) option" where
  "await_reply ch ctx prefer c =
     (case (receive ch c, ctx) of
        (Some (res, c'), None) \<Rightarrow> Some ((Response res, Err res), c')
      | (Some (res, c'), Some e) \<Rightarrow>
          if prefer then Some ((None, Some e), c) else Some ((Response res, Err res), c')
      | (None, Some e) \<Rightarrow> Some ((None, Some e), c)
      | (None, None) \<Rightarrow> None)"

fun step_event :: "('x \<Rightarrow> correlator \<Rightarrow> correlator option) \<Rightarrow> 'x event \<Rightarrow> correlator \<Rightarrow> correlator option" where
  "step_event onReply (Reply x) c = onReply x c"
| "step_event onReply (Stop err) c = Shutdown err c"
| "step_event onReply (Begin rid) c = Some (snd (Register rid c))"
| "step_event onReply (Finish f) c = Some (snd (cancel f c))"

fun run_events :: "('x \<Rightarrow> correlator \<Rightarrow> correlator option) \<Rightarrow> 'x event list \<Rightarrow> correlator \<Rightarrow> correlator option" where
  "run_events onReply [] c = Some c"
| "run_events onReply (e # es) c =
     (case step_event onReply e c of None \<Rightarrow> None | Some c1 \<Rightarrow> run_events onReply es c1)"

text \<open>The rest of a call once its request is published: the events, the \<open>select\<close>, the deferred
  cancel.\<close>

definition wait_reply ::
  "('x \<Rightarrow> correlator \<Rightarrow> correlator option) \<Rightarrow> 'x event list \<Rightarrow> gerr option \<Rightarrow> bool \<Rightarrow> chan \<Rightarrow> cancel_fn
   \<Rightarrow> correlator \<Rightarrow> (outcome \<times> correlator) option" where
  "wait_reply onReply es ctx prefer ch f c =
     (case run_events onReply es c of
        None \<Rightarrow> None
      | Some c1 \<Rightarrow> map_option (\<lambda>(out, c2). (out, snd (cancel f c2))) (await_reply ch ctx prefer c1))"

text \<open>What one call meets: the result of its publish, the context, the choice of a ready \<open>select\<close>, and
  the other goroutines.\<close>

record 'x call_env =
  pub_err :: "gerr option"
  ctx_done :: "gerr option"
  prefer_ctx :: bool
  others :: "'x event list"

text \<open>What a call hands to the library: destination, reply address, correlation id, body.\<close>

record outgoing =
  out_dest :: string
  out_reply_to :: string
  out_corr_id :: string
  out_body :: bytes

section \<open>The contract of a reply handler\<close>

definition foreign :: "string \<Rightarrow> 'x event \<Rightarrow> bool" where
  "foreign rid e = (case e of Begin r \<Rightarrow> r \<noteq> rid | Finish f \<Rightarrow> cancel_id f \<noteq> rid | _ \<Rightarrow> True)"

text \<open>Replies are routed to the call registered under an id; the first event that concerns a waiting
  call decides its result.\<close>

primrec first_outcome :: "('x \<Rightarrow> (string \<times> rpc_response) option) \<Rightarrow> string \<Rightarrow> 'x event list \<Rightarrow> result option" where
  "first_outcome routed rid [] = None"
| "first_outcome routed rid (e # es) =
     (case e of
        Reply x \<Rightarrow>
          (case routed x of
             Some (r, resp) \<Rightarrow> if r = rid then Some \<lparr>Response = Some resp, Err = None\<rparr> else first_outcome routed rid es
           | None \<Rightarrow> first_outcome routed rid es)
      | Stop err \<Rightarrow> Some \<lparr>Response = None, Err = Some err\<rparr>
      | Begin r \<Rightarrow> first_outcome routed rid es
      | Finish f \<Rightarrow> first_outcome routed rid es)"

text \<open>What every binding owes its caller: a call that does not return has nothing to return (published,
  no reply, no shutdown, context alive); one that returns leaves the correlator in order and nothing
  registered under its id, a response it returns was routed to its id, and without a response there
  is an error.\<close>

definition call_ok ::
  "('x \<Rightarrow> (string \<times> rpc_response) option) \<Rightarrow> rpc_request \<Rightarrow> 'x call_env
   \<Rightarrow> ((outcome \<times> correlator) \<times> outgoing option) option \<Rightarrow> bool" where
  "call_ok routed req env r \<longleftrightarrow>
     (case r of
        None \<Rightarrow> pub_err env = None \<and> ctx_done env = None \<and> first_outcome routed (rq_RequestId req) (others env) = None
      | Some ((out, c'), msg) \<Rightarrow>
          corr_inv c' \<and> map_of (pending c') (rq_RequestId req) = None \<and>
          (\<forall>resp. fst out = Some resp \<longrightarrow>
             (\<exists>x. Reply x \<in> set (others env) \<and> routed x = Some (rq_RequestId req, resp))) \<and>
          (fst out = None \<longrightarrow> snd out \<noteq> None))"

lemma first_outcome_reply:
  "first_outcome routed rid es = Some res \<Longrightarrow>
     (\<exists>x resp. Reply x \<in> set es \<and> routed x = Some (rid, resp) \<and> res = \<lparr>Response = Some resp, Err = None\<rparr>) \<or>
     (\<exists>err. Stop err \<in> set es \<and> res = \<lparr>Response = None, Err = Some err\<rparr>)"
  by (induction es) (auto split: event.splits option.splits if_splits, blast+)

text \<open>Replies that carry their own correlation: the envelope's request id.\<close>

definition by_request_id :: "wire \<Rightarrow> bytes \<Rightarrow> (string \<times> rpc_response) option" where
  "by_request_id W data =
     (case unmarshal_resp W data of Inl err \<Rightarrow> None | Inr resp \<Rightarrow> Some (rs_RequestId resp, resp))"

lemma call_ok_failed:
  assumes "corr_inv c" and "map_of (pending c) (rq_RequestId req) = None"
  shows "call_ok routed req env (Some (((None, Some err), c), msg))"
  using assms by (simp add: call_ok_def)

lemma call_ok_cancelled:
  assumes "corr_inv c" and "Register (rq_RequestId req) c = ((ch, f), c1)"
  shows "call_ok routed req env (Some (((None, Some err), snd (cancel f c1)), msg))"
proof -
  have "corr_inv c1" using corr_inv_Register [OF assms(1), of "rq_RequestId req"] assms(2) by simp
  moreover have "map_of (pending (snd (cancel f c1))) (rq_RequestId req) = None"
    using assms(2) by (auto simp: Register_def make_chan_def cancel_def sm_Delete_def delete_conv')
  ultimately show ?thesis by (simp add: call_ok_def corr_inv_cancel)
qed

locale reply_router =
  fixes onReply :: "'x \<Rightarrow> correlator \<Rightarrow> correlator option"
    and routed :: "'x \<Rightarrow> (string \<times> rpc_response) option"
  assumes onReply_eq: "onReply x c =
    (case routed x of None \<Rightarrow> Some c
     | Some (rid, resp) \<Rightarrow> map_option snd (Deliver rid \<lparr>Response = Some resp, Err = None\<rparr> c))"
begin

lemma step_total:
  assumes "corr_inv c"
  shows "\<exists>c'. step_event onReply e c = Some c' \<and> corr_inv c'"
proof (cases e)
  case (Reply x)
  show ?thesis
  proof (cases "routed x")
    case None
    with Reply assms show ?thesis by (simp add: onReply_eq)
  next
    case (Some p)
    obtain rid resp where p: "p = (rid, resp)" by (cases p)
    obtain b c' where "Deliver rid \<lparr>Response = Some resp, Err = None\<rparr> c = Some (b, c')"
      using Deliver_not_blocked [OF assms] by blast
    with Reply Some p Deliver_inv [OF assms] show ?thesis by (auto simp: onReply_eq)
  qed
next
  case (Stop err)
  with Shutdown_spec [OF assms, of err] show ?thesis by auto
qed (use assms in \<open>simp_all add: corr_inv_Register corr_inv_cancel\<close>)

text \<open>A channel no longer in the table keeps its contents.\<close>

lemma step_settled:
  assumes inv: "corr_inv c" and ch: "ch \<notin> snd ` set (pending c)" "ch < next_chan c"
    and step: "step_event onReply e c = Some c'"
  shows "bufs c' ch = bufs c ch \<and> ch \<notin> snd ` set (pending c') \<and> ch < next_chan c'"
proof (cases e)
  case (Reply x)
  show ?thesis
  proof (cases "routed x")
    case None
    with Reply step ch show ?thesis by (simp add: onReply_eq)
  next
    case (Some p)
    obtain rid resp where p: "p = (rid, resp)" by (cases p)
    show ?thesis
    proof (cases "map_of (pending c) rid")
      case None
      with Reply Some p step ch show ?thesis by (simp add: onReply_eq Deliver_missing)
    next
      case (Some k)
      then have "k \<in> snd ` set (pending c)" by (metis image_eqI map_of_SomeD snd_conv)
      with ch have "ch \<noteq> k" by auto
      with Some Reply \<open>routed x = Some p\<close> p step ch set_delete_subset [of rid "pending c"] show ?thesis
        by (auto simp: onReply_eq Deliver_found [OF inv])
    qed
  qed
next
  case (Stop err)
  obtain d where d: "Shutdown err c = Some d" "pending d = []"
    "bufs d = (\<lambda>k. if k \<in> snd ` set (pending c) then [\<lparr>Response = None, Err = Some err\<rparr>] else bufs c k)"
    using Shutdown_spec [OF inv, of err] by blast
  have "next_chan d = next_chan c" by (rule Shutdown_next_chan [OF d(1)])
  with Stop step d ch show ?thesis by simp
next
  case (Begin rid)
  with step ch set_update_subset [of rid "next_chan c" "pending c"] show ?thesis
    by (auto simp: Register_def make_chan_def sm_Store_def)
next
  case (Finish f)
  with step ch set_delete_subset [of "cancel_id f" "pending c"] show ?thesis
    by (cases "once_done f") (force simp: cancel_def sm_Delete_def)+
qed

lemma run_settled:
  assumes "corr_inv c" and "ch \<notin> snd ` set (pending c)" and "ch < next_chan c"
  shows "\<exists>c'. run_events onReply es c = Some c' \<and> corr_inv c' \<and> bufs c' ch = bufs c ch"
  using assms
proof (induction es arbitrary: c)
  case (Cons e es)
  obtain c1 where c1: "step_event onReply e c = Some c1" "corr_inv c1" using step_total [OF Cons.prems(1)] by blast
  with step_settled [OF Cons.prems c1(1)] Cons.IH [of c1] show ?case by auto
qed simp

text \<open>One event seen from a call that is still waiting.\<close>

lemma step_waiting:
  assumes inv: "corr_inv c" and ch: "map_of (pending c) rid = Some ch" and "foreign rid e"
    and step: "step_event onReply e c = Some c'"
  shows "case first_outcome routed rid [e] of
           None \<Rightarrow> map_of (pending c') rid = Some ch
         | Some res \<Rightarrow> bufs c' ch = [res] \<and> ch \<notin> snd ` set (pending c') \<and> ch < next_chan c'"
proof (cases e)
  case (Reply x)
  show ?thesis
  proof (cases "routed x")
    case None
    with Reply step ch show ?thesis by (simp add: onReply_eq)
  next
    case (Some p)
    obtain r resp where p: "p = (r, resp)" by (cases p)
    show ?thesis
    proof (cases "r = rid")
      case True
      with Reply Some p step corr_inv_waiting [OF inv ch] taken_not_pending [OF inv ch] show ?thesis
        by (auto simp: onReply_eq Deliver_found [OF inv ch])
    next
      case False
      with Reply Some p step ch show ?thesis
        by (cases "map_of (pending c) r") (auto simp: onReply_eq Deliver_missing Deliver_found [OF inv] delete_conv')
    qed
  qed
next
  case (Stop err)
  obtain d where d: "Shutdown err c = Some d" "pending d = []"
    "bufs d = (\<lambda>k. if k \<in> snd ` set (pending c) then [\<lparr>Response = None, Err = Some err\<rparr>] else bufs c k)"
    using Shutdown_spec [OF inv, of err] by blast
  have "ch \<in> snd ` set (pending c)" using ch by (metis image_eqI map_of_SomeD snd_conv)
  with Stop step d corr_inv_waiting [OF inv ch] Shutdown_next_chan [OF d(1)] show ?thesis by simp
next
  case (Begin r)
  with step ch assms(3) show ?thesis
    by (auto simp: foreign_def Register_def make_chan_def sm_Store_def update_conv')
next
  case (Finish f)
  with step ch assms(3) show ?thesis by (auto simp: foreign_def cancel_def sm_Delete_def delete_conv')
qed

lemma run_waiting:
  assumes "corr_inv c" and "map_of (pending c) rid = Some ch" and "\<forall>e \<in> set es. foreign rid e"
  shows "\<exists>c'. run_events onReply es c = Some c' \<and> corr_inv c' \<and>
           bufs c' ch = (case first_outcome routed rid es of None \<Rightarrow> [] | Some res \<Rightarrow> [res])"
  using assms
proof (induction es arbitrary: c)
  case Nil
  then show ?case using corr_inv_waiting by simp
next
  case (Cons e es)
  obtain c1 where c1: "step_event onReply e c = Some c1" "corr_inv c1" using step_total [OF Cons.prems(1)] by blast
  have fe: "foreign rid e" using Cons.prems(3) by simp
  note W = step_waiting [OF Cons.prems(1,2) fe c1(1)]
  show ?case
  proof (cases "first_outcome routed rid [e]")
    case None
    moreover have "first_outcome routed rid (e # es) = first_outcome routed rid es"
      using None by (auto split: event.splits option.splits if_splits)
    ultimately show ?thesis using Cons.IH [OF c1(2)] W Cons.prems(3) c1(1) by simp
  next
    case (Some res)
    moreover have "first_outcome routed rid (e # es) = Some res"
      using Some by (auto split: event.splits option.splits if_splits)
    ultimately show ?thesis using run_settled [OF c1(2), of ch es] W c1(1) by auto
  qed
qed

text \<open>The whole wait of a freshly registered call: it never blocks the other goroutines, it returns
  as soon as there is something to return, and it leaves no registration behind.\<close>

lemma wait_reply_spec:
  assumes "corr_inv c" and reg: "Register rid c = ((ch, f), c1)" and "\<forall>e \<in> set es. foreign rid e"
  shows "case (first_outcome routed rid es, ctx) of
           (None, None) \<Rightarrow> wait_reply onReply es ctx prefer ch f c1 = None
         | (first, done) \<Rightarrow>
             \<exists>c2. wait_reply onReply es ctx prefer ch f c1 =
               Some (case (first, done) of
                       (Some res, Some e) \<Rightarrow> if prefer then (None, Some e) else (Response res, Err res)
                     | (Some res, None) \<Rightarrow> (Response res, Err res)
                     | (None, e) \<Rightarrow> (None, e), c2) \<and>
             corr_inv c2 \<and> map_of (pending c2) rid = None"
proof -
  have inv1: "corr_inv c1" using corr_inv_Register [OF assms(1), of rid] reg by simp
  have ch: "map_of (pending c1) rid = Some ch" and f: "f = \<lparr>cancel_id = rid, once_done = False\<rparr>"
    using reg by (auto simp: Register_def make_chan_def sm_Store_def update_conv')
  obtain c2 where c2: "run_events onReply es c1 = Some c2" "corr_inv c2"
    and b: "bufs c2 ch = (case first_outcome routed rid es of None \<Rightarrow> [] | Some res \<Rightarrow> [res])"
    using run_waiting [OF inv1 ch assms(3)] by blast
  have gone: "map_of (pending (snd (cancel f c))) rid = None" for c
    by (simp add: f cancel_def sm_Delete_def delete_conv')
  have rcv: "receive ch c2 = (case first_outcome routed rid es of None \<Rightarrow> None
      | Some res \<Rightarrow> Some (res, c2\<lparr>bufs := (bufs c2)(ch := [])\<rparr>))"
    by (simp add: receive_def b split: option.split)
  have "corr_inv (c2\<lparr>bufs := (bufs c2)(ch := [])\<rparr>)" using c2(2) by (auto simp: corr_inv_def)
  with c2 gone rcv show ?thesis
    by (auto simp: wait_reply_def await_reply_def corr_inv_cancel split: option.splits)
qed

lemma call_ok_wait:
  assumes "corr_inv c" and "Register (rq_RequestId req) c = ((ch, f), c1)"
    and "\<forall>e \<in> set (others env). foreign (rq_RequestId req) e" and "pub_err env = None"
  shows "call_ok routed req env
    (map_option (\<lambda>r. (r, msg)) (wait_reply onReply (others env) (ctx_done env) (prefer_ctx env) ch f c1))"
proof (cases "first_outcome routed (rq_RequestId req) (others env)")
  case None
  with wait_reply_spec [OF assms(1-3), of "ctx_done env" "prefer_ctx env"] assms(4) show ?thesis
    by (cases "ctx_done env") (auto simp: call_ok_def)
next
  case (Some res)
  from first_outcome_reply [OF Some] show ?thesis
  proof (elim disjE exE conjE)
    fix x resp assume "Reply x \<in> set (others env)" "routed x = Some (rq_RequestId req, resp)"
      "res = \<lparr>Response = Some resp, Err = None\<rparr>"
    with wait_reply_spec [OF assms(1-3), of "ctx_done env" "prefer_ctx env"] Some show ?thesis
      by (cases "ctx_done env") (auto simp: call_ok_def)
  next
    fix err assume "Stop err \<in> set (others env)" "res = \<lparr>Response = None, Err = Some err\<rparr>"
    with wait_reply_spec [OF assms(1-3), of "ctx_done env" "prefer_ctx env"] Some show ?thesis
      by (cases "ctx_done env") (auto simp: call_ok_def)
  qed
qed

end

end
