(* ===== verification/Gateway.thy ===== *)
theory Gateway
  imports Waiting
begin

text \<open>
  The front of the RPC lab: the gRPC binding (\<open>clients/internal/rpc/grpcx/grpcx.go\<close>) and the gateway
  (\<open>clients/rpc-gateway/main.go\<close>), which forwards each request to the backend of its service.

  The dialers and the wrapped clients are arguments; the tracing decorators are in theory \<open>Tracing\<close>.
\<close>

section \<open>The gRPC binding\<close>

text \<open>The generated stub and the connection are the library's: a unary call passes the request and the
  handler's result through unchanged on both sides.\<close>

definition grpcx_Dial :: "gerr option \<Rightarrow> gerr + capabilities" where
  "grpcx_Dial err =
     (case err of Some e \<Rightarrow> Inl e | None \<Rightarrow> Inr (zero_capabilities\<lparr>NativeRequestReply := True, Streaming := True\<rparr>))"

definition grpcx_Call :: "'w client_call \<Rightarrow> 'w client_call" where
  "grpcx_Call stub req w = stub req w"

definition server_Call :: "'w rpc_handler \<Rightarrow> 'w rpc_handler" where
  "server_Call h req w = h req w"

text \<open>What \<open>stream.Recv\<close> yields, and whether the following \<open>Send\<close> fails.  The result is the responses
  sent, the stream's error, and whether the stream has ended.\<close>

datatype recv = EOF | RecvErr gerr | Req rpc_request "gerr option"

fun CallStream :: "'w rpc_handler \<Rightarrow> recv list \<Rightarrow> 'w \<Rightarrow> rpc_response list \<times> (bool \<times> gerr option) \<times> 'w" where
  "CallStream h [] w = ([], (False, None), w)"
| "CallStream h (EOF # rs) w = ([], (True, None), w)"
| "CallStream h (RecvErr e # rs) w = ([], (True, Some e), w)"
| "CallStream h (Req req send_err # rs) w =
     (let (resp, w1) = handled h req w in
      case send_err of
        Some e \<Rightarrow> ([], (True, Some e), w1)
      | None \<Rightarrow> (let (out, fin, w2) = CallStream h rs w1 in (resp # out, fin, w2)))"

section \<open>The gateway's router\<close>

record 'k router =
  transport :: string
  defaultTarget :: string
  mqttQoS :: nat
  byService :: "string \<Rightarrow> string option"
  clients :: "string \<Rightarrow> 'k option"

definition transports :: "string list" where
  "transports = [''grpc'', ''nats'', ''natsjs'', ''rabbitmq'', ''rabbitmq-direct'', ''mqtt'', ''valkey'', ''valkey-stream'']"

definition newRouter :: "string \<Rightarrow> string \<Rightarrow> nat \<Rightarrow> (string \<times> string) list \<Rightarrow> gerr + 'k router" where
  "newRouter tr def qos routes =
     (if tr \<notin> set transports then
        Inl (Opaque (''unknown -transport '' @ quoted tr @
              '' (grpc|nats|natsjs|rabbitmq|rabbitmq-direct|mqtt|valkey|valkey-stream)''))
      else if tr = ''mqtt'' \<and> qos > 2 then
        Inl (Opaque (''-mqtt-qos must be 0, 1, or 2, got '' @ itoa (int qos)))
      else Inr \<lparr>transport = tr, defaultTarget = def, mqttQoS = qos,
                byService = fold (\<lambda>(s, t) m. m(s \<mapsto> t)) routes Map.empty, clients = Map.empty\<rparr>)"

definition target :: "'k router \<Rightarrow> string \<Rightarrow> string" where
  "target r service = (case byService r service of Some t \<Rightarrow> t | None \<Rightarrow> defaultTarget r)"

text \<open>\<open>dial\<close> is the transport's dialer followed by the tracing decorator.\<close>

definition client :: "(string \<Rightarrow> string \<Rightarrow> nat \<Rightarrow> gerr + 'k) \<Rightarrow> string \<Rightarrow> 'k router \<Rightarrow> (gerr + 'k) \<times> 'k router" where
  "client dial t r =
     (case clients r t of
        Some c \<Rightarrow> (Inr c, r)
      | None \<Rightarrow>
          (case dial (transport r) t (mqttQoS r) of
             Inl err \<Rightarrow> (Inl err, r)
           | Inr c \<Rightarrow> (Inr c, r\<lparr>clients := (clients r)(t \<mapsto> c)\<rparr>)))"

record gateway_clock =
  gw_recv :: timestamp
  gw_pub :: timestamp
  gw_got :: timestamp
  gw_now :: timestamp

text \<open>\<open>call c deadline req w\<close> is the backend client's call under a context with that deadline.  A client
  that returned neither a response nor an error would be a nil dereference: the result is \<open>None\<close>.\<close>

definition forward_deadline :: "timestamp \<Rightarrow> timestamp option \<Rightarrow> rpc_request \<Rightarrow> timestamp option" where
  "forward_deadline now deadline req =
     (case rq_Timeout req of
        None \<Rightarrow> deadline
      | Some d \<Rightarrow> if d > 0 \<and> deadline = None then Some (now + d) else deadline)"

definition gateway_Handle ::
  "(string \<Rightarrow> string \<Rightarrow> nat \<Rightarrow> gerr + 'k) \<Rightarrow> ('k \<Rightarrow> timestamp option \<Rightarrow> 'w client_call) \<Rightarrow> gateway_clock
   \<Rightarrow> timestamp option \<Rightarrow> rpc_request \<Rightarrow> 'k router \<times> 'w \<Rightarrow> (rpc_response \<times> ('k router \<times> 'w)) option" where
  "gateway_Handle dial call ck deadline req s =
     (case s of (r, w) \<Rightarrow>
        (let dl = forward_deadline (gw_now ck) deadline req in
         case client dial (target r (rq_Service req)) r of
           (Inl err, r1) \<Rightarrow>
             Some ((ErrorResponse req (Wrapf '''' (Sentinel ErrUnavailable) ('': dial backend: '' @ Error err)))
                     \<lparr>rs_GatewayARecv := Some (gw_recv ck), rs_GatewayARecvResp := Some (gw_got ck)\<rparr>, (r1, w))
         | (Inr c, r1) \<Rightarrow>
             (let ((resp, err), w1) = call c dl req w;
                  resp1 = (case err of
                             Some e \<Rightarrow> Some (ErrorResponse req (Wrapf '''' (Sentinel ErrUnavailable) ('': forward: '' @ Error e)))
                           | None \<Rightarrow> resp)
              in map_option (\<lambda>x. (x\<lparr>rs_GatewayARecv := Some (gw_recv ck), rs_GatewayAPub := Some (gw_pub ck),
                                    rs_GatewayARecvResp := Some (gw_got ck)\<rparr>, (r1, w1))) resp1)))"

text \<open>\<open>Close\<close> returns the first error in the map's iteration order.\<close>

definition router_Close :: "'k list \<Rightarrow> ('k \<Rightarrow> gerr option) \<Rightarrow> gerr option" where
  "router_Close cs close = foldl (\<lambda>first c. case close c of Some e \<Rightarrow> if first = None then Some e else first | None \<Rightarrow> first) None cs"

definition route_String :: "(string \<times> string) list \<Rightarrow> string" where
  "route_String f = (case map (\<lambda>(s, t). s @ ''='' @ t) f of [] \<Rightarrow> '''' | p # ps \<Rightarrow> p @ concat (map (\<lambda>q. '','' @ q) ps))"

text \<open>\<open>Set\<close> splits at the first equals sign.\<close>

definition route_Set :: "string \<Rightarrow> (string \<times> string) list \<Rightarrow> gerr + (string \<times> string) list" where
  "route_Set v f =
     (let s = takeWhile (\<lambda>c. c \<noteq> CHR ''='') v in
      if s = v \<or> s = '''' \<or> length s = length v - 1
      then Inl (Opaque (''route must be service=host:port, got '' @ quoted v))
      else Inr (f @ [(s, drop (length s + 1) v)]))"

section \<open>Facts\<close>

lemma handled_echoes:
  assumes "h req w = (Inl err, w')"
  shows "handled h req w = (ErrorResponse req err, w')"
  using assms by (simp add: handled_def)

lemma client_cached: "client dial t r = (Inr c, r1) \<Longrightarrow> clients r1 t = Some c"
  by (auto simp: client_def split: option.splits sum.splits)

lemma client_frame:
  "client dial t r = (x, r1) \<Longrightarrow> byService r1 = byService r \<and> defaultTarget r1 = defaultTarget r \<and>
     transport r1 = transport r \<and> mqttQoS r1 = mqttQoS r \<and> (\<forall>t' c. clients r t' = Some c \<longrightarrow> clients r1 t' = Some c)"
  by (auto simp: client_def split: option.splits sum.splits)

lemma byService_last:
  "newRouter tr def qos (rs @ [(s, t)]) = Inr r \<Longrightarrow> target r s = t"
  by (auto simp: newRouter_def target_def split: if_splits)

lemma target_default:
  "newRouter tr def qos rs = Inr r \<Longrightarrow> s \<notin> fst ` set rs \<Longrightarrow> target r s = def"
proof -
  have "s \<notin> fst ` set rs \<Longrightarrow> fold (\<lambda>(s, t) m. m(s \<mapsto> t)) rs m s = m s" for m :: "string \<Rightarrow> string option"
    by (induction rs arbitrary: m) auto
  then show "newRouter tr def qos rs = Inr r \<Longrightarrow> s \<notin> fst ` set rs \<Longrightarrow> target r s = def"
    by (auto simp: newRouter_def target_def split: if_splits)
qed

lemma route_Set_roundtrip:
  assumes "CHR ''='' \<notin> set s" and "s \<noteq> ''''" and "t \<noteq> ''''"
  shows "route_Set (s @ ''='' @ t) f = Inr (f @ [(s, t)])"
proof -
  have "takeWhile (\<lambda>c. c \<noteq> CHR ''='') (s @ ''='' @ t) = s"
    using assms(1) by (subst takeWhile_append2) auto
  then show ?thesis using assms by (simp add: route_Set_def Let_def)
qed

section \<open>Properties\<close>

text \<open>C28. The gateway answers every request with a response, whatever fails: it forwards to the target
  of the request's service over a client it dials at most once per target and keeps, under the
  request's own timeout when the inbound context has no deadline; a failed dial or a failed forward,
  a timeout included, becomes an UNAVAILABLE response that echoes the request; otherwise the backend's
  response is passed on with only the gateway's stamps added.\<close>

theorem gateway_forwards:
  assumes "\<forall>c dl q w. fst (fst (call c dl q w)) \<noteq> None \<or> snd (fst (call c dl q w)) \<noteq> None"
  shows "\<exists>resp r1 w1. gateway_Handle dial call ck deadline req (r, w) = Some (resp, (r1, w1)) \<and>
           rs_GatewayARecv resp = Some (gw_recv ck) \<and> rs_GatewayARecvResp resp = Some (gw_got ck) \<and>
           (case client dial (target r (rq_Service req)) r of
              (Inl err, r') \<Rightarrow>
                echoes req resp \<and> rs_Status resp = STATUS_UNAVAILABLE \<and> r1 = r \<and> w1 = w
            | (Inr c, r') \<Rightarrow>
                r1 = r' \<and> clients r1 (target r (rq_Service req)) = Some c \<and>
                client dial' (target r1 (rq_Service req)) r1 = (Inr c, r1) \<and>
                w1 = snd (call c (forward_deadline (gw_now ck) deadline req) req w) \<and>
                (case fst (call c (forward_deadline (gw_now ck) deadline req) req w) of
                   (x, Some e) \<Rightarrow> echoes req resp \<and> rs_Status resp = STATUS_UNAVAILABLE
                 | (x, None) \<Rightarrow>
                     \<exists>b. x = Some b \<and>
                       resp = b\<lparr>rs_GatewayARecv := Some (gw_recv ck), rs_GatewayAPub := Some (gw_pub ck),
                                rs_GatewayARecvResp := Some (gw_got ck)\<rparr>))"
proof (cases "client dial (target r (rq_Service req)) r")
  case (Pair x r')
  show ?thesis
  proof (cases x)
    case (Inl err)
    then have "r' = r" using Pair by (auto simp: client_def split: option.splits sum.splits)
    with Pair Inl show ?thesis
      by (simp add: gateway_Handle_def echoes_def ErrorResponse_def zero_response_def)
  next
    case (Inr c)
    have cl: "clients r' (target r (rq_Service req)) = Some c" using client_cached Pair Inr by simp
    have tg: "target r' (rq_Service req) = target r (rq_Service req)"
      using client_frame [OF Pair] by (simp add: target_def split: option.split)
    obtain b err w1 where C: "call c (forward_deadline (gw_now ck) deadline req) req w = ((b, err), w1)"
      by (metis prod.exhaust)
    have some: "b \<noteq> None \<or> err \<noteq> None"
      using assms [rule_format, of c "forward_deadline (gw_now ck) deadline req" req w] C by simp
    have again: "client dial' (target r' (rq_Service req)) r' = (Inr c, r')"
      using cl tg by (simp add: client_def)
    show ?thesis
      using Pair Inr C cl tg again some
      by (cases err) (auto simp: gateway_Handle_def echoes_def ErrorResponse_def zero_response_def)
  qed
qed

theorem gateway_forwards_witness:
  "\<exists>resp r1. gateway_Handle (\<lambda>tr t q. Inl (Opaque ''refused'')) (\<lambda>c dl q w. ((None, Some (Opaque ''x'')), w))
     \<lparr>gw_recv = 1, gw_pub = 2, gw_got = 3, gw_now = 4\<rparr> None zero_request
     (\<lparr>transport = ''grpc'', defaultTarget = ''b:1'', mqttQoS = 0, byService = Map.empty, clients = Map.empty\<rparr> :: unit router, ())
     = Some (resp, (r1, ())) \<and> rs_Status resp = STATUS_UNAVAILABLE"
proof -
  let ?d = "(\<lambda>tr t q. Inl (Opaque ''refused'')) :: string \<Rightarrow> string \<Rightarrow> nat \<Rightarrow> gerr + unit"
  let ?c = "(\<lambda>c dl q w. ((None, Some (Opaque ''x'')), w)) :: unit \<Rightarrow> timestamp option \<Rightarrow> unit client_call"
  let ?r = "\<lparr>transport = ''grpc'', defaultTarget = ''b:1'', mqttQoS = 0, byService = Map.empty, clients = Map.empty\<rparr> :: unit router"
  show ?thesis
    using gateway_forwards [of ?c ?d "\<lparr>gw_recv = 1, gw_pub = 2, gw_got = 3, gw_now = 4\<rparr>" None zero_request ?r "()" ?d]
    by (auto simp: client_def)
qed

text \<open>The gRPC server stream answers every request it received with exactly one response, in order,
  until the stream ends: the responses are those of the handler applied in sequence, a handler's error
  becomes an error response and does not end the stream, and when the client closes the stream every
  request has been answered.\<close>

theorem callstream_in_order:
  "CallStream h (map (\<lambda>q. Req q None) qs @ EOF # rest) w =
     (fst (fold (\<lambda>q (out, w). (out @ [fst (handled h q w)], snd (handled h q w))) qs ([], w)), (True, None),
      snd (fold (\<lambda>q (out, w). (out @ [fst (handled h q w)], snd (handled h q w))) qs ([], w))) \<and>
   length (fst (CallStream h (map (\<lambda>q. Req q None) qs @ EOF # rest) w)) = length qs"
proof -
  have acc: "fold (\<lambda>q (out, w). (out @ [fst (handled h q w)], snd (handled h q w))) qs (xs, w) =
      (xs @ fst (fold (\<lambda>q (out, w). (out @ [fst (handled h q w)], snd (handled h q w))) qs ([], w)),
       snd (fold (\<lambda>q (out, w). (out @ [fst (handled h q w)], snd (handled h q w))) qs ([], w)))" for xs qs w
  proof (induction qs arbitrary: xs w)
    case (Cons q qs)
    show ?case
      using Cons.IH [of "xs @ [fst (handled h q w)]" "snd (handled h q w)"]
        Cons.IH [of "[fst (handled h q w)]" "snd (handled h q w)"] by simp
  qed simp
  have eq: "CallStream h (map (\<lambda>q. Req q None) qs @ EOF # rest) w =
     (fst (fold (\<lambda>q (out, w). (out @ [fst (handled h q w)], snd (handled h q w))) qs ([], w)), (True, None),
      snd (fold (\<lambda>q (out, w). (out @ [fst (handled h q w)], snd (handled h q w))) qs ([], w)))"
  proof (induction qs arbitrary: w)
    case (Cons q qs)
    show ?case
      using Cons.IH [of "snd (handled h q w)"] acc [of qs "[fst (handled h q w)]" "snd (handled h q w)"]
      by (simp add: case_prod_unfold Let_def)
  qed simp
  have len: "length (fst (fold (\<lambda>q (out, w). (out @ [fst (handled h q w)], snd (handled h q w))) qs (xs, w))) =
      length xs + length qs" for xs w
    by (induction qs arbitrary: xs w) simp_all
  from eq len [of "[]" w] show ?thesis by simp
qed

end
