(* ===== verification/Natsx.thy ===== *)
theory Natsx
  imports Waiting
begin

text \<open>
  The NATS bindings (\<open>clients/internal/rpc/natsx/natsx.go\<close> and \<open>jetstream.go\<close>): the Core client, whose
  request/reply is the library's, and the durable JetStream client, which publishes into a stream
  and correlates replies by request id; and both responders.

  Library calls are arguments: the result of \<open>RequestWithContext\<close>, of each connection or stream
  operation, of each fetch.  A function that acquires resources returns what it leaves open.
\<close>

section \<open>Subjects and errors\<close>

definition subjectPrefix :: string where "subjectPrefix = ''rpc''"

definition SubjectWildcard :: string where "SubjectWildcard = subjectPrefix @ ''.>''"

definition Subject :: "string \<Rightarrow> string \<Rightarrow> string" where
  "Subject service method = subjectPrefix @ ''.'' @ service @ ''.'' @ method"

definition natsURL :: "string \<Rightarrow> string" where
  "natsURL addr = (if Contains addr ''://'' then addr else ''nats://'' @ addr)"

definition mapErr :: "gerr option \<Rightarrow> gerr option" where
  "mapErr err =
     (case err of
        None \<Rightarrow> None
      | Some e \<Rightarrow>
          (if errors_Is e NatsErrNoResponders then Some (Wrapf '''' (Sentinel ErrNoResponder) ('': '' @ Error e))
           else if errors_Is e NatsErrTimeout then Some (Wrapf '''' (Sentinel CtxDeadlineExceeded) ('': '' @ Error e))
           else Some e))"

section \<open>Core client and responder\<close>

definition natsx_caps :: capabilities where
  "natsx_caps = zero_capabilities\<lparr>NativeRequestReply := True, ServerDiscovery := True\<rparr>"

definition natsx_Dial :: "gerr option \<Rightarrow> (gerr + capabilities) \<times> string list" where
  "natsx_Dial dial_err = (case dial_err of Some e \<Rightarrow> (Inl e, []) | None \<Rightarrow> (Inr natsx_caps, [''nc'']))"

text \<open>\<open>request subject data\<close> is \<open>RequestWithContext\<close>: the reply's bytes or an error.\<close>

definition natsx_Call :: "wire \<Rightarrow> (string \<Rightarrow> bytes \<Rightarrow> gerr + bytes) \<Rightarrow> rpc_request \<Rightarrow> outcome" where
  "natsx_Call W request req =
     (case marshal_req W req of
        Inl err \<Rightarrow> (None, Some err)
      | Inr data \<Rightarrow>
          (case request (Subject (rq_Service req) (rq_Method req)) data of
             Inl err \<Rightarrow> (None, mapErr (Some err))
           | Inr reply \<Rightarrow>
               (case unmarshal_resp W reply of Inl err \<Rightarrow> (None, Some err) | Inr resp \<Rightarrow> (Some resp, None))))"

definition natsx_Serve :: "gerr option \<Rightarrow> gerr option \<Rightarrow> (gerr + unit) \<times> string list" where
  "natsx_Serve dial_err sub_err =
     (case dial_err of
        Some e \<Rightarrow> (Inl e, [])
      | None \<Rightarrow> (case sub_err of Some e \<Rightarrow> (Inl e, remove1 ''nc'' [''nc'']) | None \<Rightarrow> (Inr (), [''nc'', ''sub''])))"

text \<open>The reply of one delivery, or none.\<close>

definition natsx_handle :: "wire \<Rightarrow> 'w rpc_handler \<Rightarrow> bytes \<Rightarrow> 'w \<Rightarrow> bytes option \<times> 'w" where
  "natsx_handle W h data w =
     (case unmarshal_req W data of
        Inl err \<Rightarrow> (None, w)
      | Inr req \<Rightarrow>
          (let (resp, w') = handled h req w in
           case marshal_resp W resp of Inl err \<Rightarrow> (None, w') | Inr out \<Rightarrow> (Some out, w')))"

section \<open>JetStream client\<close>

definition jsStreamName :: string where "jsStreamName = ''RPC_REQUESTS''"
definition jsSubjectPrefix :: string where "jsSubjectPrefix = ''rpcjs''"

definition JSSubject :: "string \<Rightarrow> string \<Rightarrow> string" where
  "JSSubject service method = jsSubjectPrefix @ ''.'' @ service @ ''.'' @ method"

text \<open>The arguments are the results of the first \<open>StreamInfo\<close>, of \<open>AddStream\<close> and of the second
  \<open>StreamInfo\<close>, where they are called.\<close>

definition ensureRPCStream :: "gerr option \<Rightarrow> gerr option \<Rightarrow> gerr option \<Rightarrow> gerr option" where
  "ensureRPCStream info add info2 =
     (case info of
        None \<Rightarrow> None
      | Some e \<Rightarrow>
          (if \<not> errors_Is e NatsErrStreamNotFound then Some e
           else (case add of
                   None \<Rightarrow> None
                 | Some err \<Rightarrow> (case info2 of None \<Rightarrow> None | Some e2 \<Rightarrow> Some err))))"

record js_client =
  js_inbox :: string
  js_corr :: correlator
  js_caps :: capabilities

definition DialJetStream ::
  "gerr option \<Rightarrow> gerr option \<Rightarrow> gerr option \<Rightarrow> gerr option \<Rightarrow> string \<Rightarrow> (gerr + js_client) \<times> string list" where
  "DialJetStream dial_err js_err ensure_err sub_err inbox =
     (case dial_err of
        Some e \<Rightarrow> (Inl e, [])
      | None \<Rightarrow>
          (case js_err of
             Some e \<Rightarrow> (Inl e, remove1 ''nc'' [''nc''])
           | None \<Rightarrow>
               (case ensure_err of
                  Some e \<Rightarrow> (Inl (Wrapf (''ensure '' @ jsStreamName @ '' stream: '') e ''''), remove1 ''nc'' [''nc''])
                | None \<Rightarrow>
                    (case sub_err of
                       Some e \<Rightarrow> (Inl e, remove1 ''nc'' [''nc''])
                     | None \<Rightarrow>
                         (Inr \<lparr>js_inbox = inbox, js_corr = NewCorrelator,
                               js_caps = zero_capabilities\<lparr>DurableRequests := True, Replay := True, AtLeastOnce := True\<rparr>\<rparr>,
                          [''nc'', ''sub''])))))"

definition js_onReply :: "wire \<Rightarrow> bytes \<Rightarrow> correlator \<Rightarrow> correlator option" where
  "js_onReply W data c =
     (case unmarshal_resp W data of
        Inl err \<Rightarrow> Some c
      | Inr resp \<Rightarrow> map_option snd (Deliver (rs_RequestId resp) \<lparr>Response = Some resp, Err = None\<rparr> c))"

text \<open>One call: its outcome and the client's correlator afterwards, and the message it published.\<close>

definition js_Call ::
  "wire \<Rightarrow> string \<Rightarrow> bytes call_env \<Rightarrow> rpc_request \<Rightarrow> correlator \<Rightarrow> ((outcome \<times> correlator) \<times> outgoing option) option" where
  "js_Call W inbox env req c =
     (case marshal_req W req of
        Inl err \<Rightarrow> Some (((None, Some err), c), None)
      | Inr data \<Rightarrow>
          (let ((ch, f), c1) = Register (rq_RequestId req) c;
               msg = \<lparr>out_dest = JSSubject (rq_Service req) (rq_Method req), out_reply_to = inbox,
                      out_corr_id = '''', out_body = data\<rparr>
           in case pub_err env of
                Some err \<Rightarrow> Some (((None, mapErr (Some err)), snd (cancel f c1)), Some msg)
              | None \<Rightarrow>
                  map_option (\<lambda>r. (r, Some msg))
                    (wait_reply (js_onReply W) (others env) (ctx_done env) (prefer_ctx env) ch f c1)))"

definition js_Close :: "correlator \<Rightarrow> correlator option" where
  "js_Close c = Shutdown (Opaque ''natsx: client closed'') c"

section \<open>JetStream responder\<close>

datatype js_action = Term | Reply_To string bytes | Ack

record js_msg =
  js_data :: bytes
  js_replyTo :: string

definition ServeJetStream ::
  "gerr option \<Rightarrow> gerr option \<Rightarrow> gerr option \<Rightarrow> gerr option \<Rightarrow> (gerr + unit) \<times> string list" where
  "ServeJetStream dial_err js_err ensure_err sub_err =
     (case dial_err of
        Some e \<Rightarrow> (Inl e, [])
      | None \<Rightarrow>
          (case js_err of
             Some e \<Rightarrow> (Inl e, remove1 ''nc'' [''nc''])
           | None \<Rightarrow>
               (case ensure_err of
                  Some e \<Rightarrow> (Inl (Wrapf (''ensure '' @ jsStreamName @ '' stream: '') e ''''), remove1 ''nc'' [''nc''])
                | None \<Rightarrow>
                    (case sub_err of
                       Some e \<Rightarrow> (Inl e, remove1 ''nc'' [''nc''])
                     | None \<Rightarrow> (Inr (), [''nc'', ''sub'', ''loop''])))))"

definition js_handle :: "wire \<Rightarrow> 'w rpc_handler \<Rightarrow> js_msg \<Rightarrow> 'w \<Rightarrow> js_action list \<times> 'w" where
  "js_handle W h m w =
     (case unmarshal_req W (js_data m) of
        Inl err \<Rightarrow> ([Term], w)
      | Inr req \<Rightarrow>
          (let (resp, w') = handled h req w;
               reply = (if js_replyTo m \<noteq> '''' then
                          (case marshal_resp W resp of Inr out \<Rightarrow> [Reply_To (js_replyTo m) out] | Inl err \<Rightarrow> [])
                        else [])
           in (reply @ [Ack], w')))"

fun js_handle_all :: "wire \<Rightarrow> 'w rpc_handler \<Rightarrow> js_msg list \<Rightarrow> 'w \<Rightarrow> js_action list \<times> 'w" where
  "js_handle_all W h [] w = ([], w)"
| "js_handle_all W h (m # ms) w =
     (let (as1, w1) = js_handle W h m w; (as2, w2) = js_handle_all W h ms w1 in (as1 @ as2, w2))"

text \<open>The serve loop over what its iterations meet: whether the context is done at the top, the
  result of the fetch, and whether the context is done when the fetch failed.  The flag of the
  result says whether the loop has ended.\<close>

fun js_loop :: "wire \<Rightarrow> 'w rpc_handler \<Rightarrow> (bool \<times> (gerr + js_msg list) \<times> bool) list \<Rightarrow> 'w \<Rightarrow> bool \<times> js_action list \<times> 'w" where
  "js_loop W h [] w = (False, [], w)"
| "js_loop W h ((ctx_at_top, fetched, ctx_later) # its) w =
     (if ctx_at_top then (True, [], w)
      else (case fetched of
              Inl err \<Rightarrow>
                (if errors_Is err NatsErrTimeout \<or> ctx_later then js_loop W h its w else (True, [], w))
            | Inr msgs \<Rightarrow>
                (let (as1, w1) = js_handle_all W h msgs w; (ended, as2, w2) = js_loop W h its w1
                 in (ended, as1 @ as2, w2))))"

section \<open>The JetStream call\<close>

interpretation js: reply_router "js_onReply W" "by_request_id W" for W
  by unfold_locales (simp add: js_onReply_def by_request_id_def split: sum.split)

lemma js_Call_ok:
  assumes "corr_inv c" and "map_of (pending c) (rq_RequestId req) = None"
    and "\<forall>e \<in> set (others env). foreign (rq_RequestId req) e"
  shows "call_ok (by_request_id W) req env (js_Call W inbox env req c)"
proof (cases "marshal_req W req")
  case (Inl err)
  with call_ok_failed [OF assms(1,2)] show ?thesis by (simp add: js_Call_def)
next
  case (Inr data)
  obtain ch f c1 where reg: "Register (rq_RequestId req) c = ((ch, f), c1)" by (metis prod.exhaust)
  show ?thesis
  proof (cases "pub_err env")
    case None
    with js.call_ok_wait [OF assms(1) reg assms(3) None] Inr reg show ?thesis by (simp add: js_Call_def)
  next
    case (Some err)
    have "\<exists>e'. mapErr (Some err) = Some e'" by (simp add: mapErr_def)
    with Some Inr reg call_ok_cancelled [OF assms(1) reg] show ?thesis by (auto simp: js_Call_def)
  qed
qed

text \<open>The status a mapped error ends up with.\<close>

lemma StatusOf_mapErr:
  "StatusOf (mapErr (Some e)) =
     (if errors_Is e NatsErrNoResponders then STATUS_UNAVAILABLE
      else if errors_Is e NatsErrTimeout then STATUS_TIMEOUT else StatusOf (Some e))"
  by (simp add: mapErr_def)

section \<open>The JetStream responder\<close>

text \<open>How often a delivery is settled, and what is left to redelivery.\<close>

lemma js_handle_settles:
  "js_handle W h m w = (acts, w') \<Longrightarrow>
     (\<exists>err. unmarshal_req W (js_data m) = Inl err) \<and> acts = [Term] \<and> w' = w \<or>
     (\<exists>req. unmarshal_req W (js_data m) = Inr req) \<and> last acts = Ack \<and> length (filter (\<lambda>a. a = Ack \<or> a = Term) acts) = 1"
  by (auto simp: js_handle_def Let_def split: sum.splits prod.splits if_splits)

end
