(* ===== verification/Rabbitmqx.thy ===== *)
theory Rabbitmqx
  imports Waiting
begin

text \<open>
  The RabbitMQ binding (\<open>clients/internal/rpc/rabbitmqx/rabbitmqx.go\<close>): request/reply over a request
  queue, with a private reply queue or Direct Reply-To, correlated by the AMQP correlation id.

  Library calls are arguments; a function that acquires resources returns what it leaves open.
\<close>

definition RequestQueue :: string where "RequestQueue = ''rpc.requests''"
definition directReplyTo :: string where "directReplyTo = ''amq.rabbitmq.reply-to''"

datatype rabbit_mode = ModeReplyQueue | ModeDirect

definition rabbit_URL :: "string \<Rightarrow> string \<Rightarrow> string \<Rightarrow> string" where
  "rabbit_URL addr user pass =
     (if Contains addr ''://'' then addr else ''amqp://'' @ user @ '':'' @ pass @ ''@'' @ addr @ ''/'')"

record rabbit_client =
  rb_corr :: correlator
  rb_replyTo :: string
  rb_caps :: capabilities

text \<open>\<open>declare\<close> is the server's name for the reply queue.\<close>

definition rabbit_Dial ::
  "rabbit_mode \<Rightarrow> gerr option \<Rightarrow> gerr option \<Rightarrow> (gerr + string) \<Rightarrow> gerr option \<Rightarrow> (gerr + rabbit_client) \<times> string list" where
  "rabbit_Dial mode dial_err chan_err queue consume_err =
     (case dial_err of
        Some e \<Rightarrow> (Inl e, [])
      | None \<Rightarrow>
          (case chan_err of
             Some e \<Rightarrow> (Inl e, remove1 ''conn'' [''conn''])
           | None \<Rightarrow>
               (case (if mode = ModeDirect then Inr directReplyTo else queue) of
                  Inl e \<Rightarrow> (Inl e, remove1 ''conn'' (remove1 ''ch'' [''conn'', ''ch'']))
                | Inr replyTo \<Rightarrow>
                    (case consume_err of
                       Some e \<Rightarrow> (Inl e, remove1 ''conn'' (remove1 ''ch'' [''conn'', ''ch'']))
                     | None \<Rightarrow>
                         (Inr \<lparr>rb_corr = NewCorrelator, rb_replyTo = replyTo, rb_caps = zero_capabilities\<rparr>,
                          [''conn'', ''ch''])))))"

text \<open>A delivery: correlation id, reply address, body.\<close>

record delivery =
  CorrelationId :: string
  ReplyTo :: string
  d_Body :: bytes

definition rabbit_deliver :: "wire \<Rightarrow> delivery \<Rightarrow> correlator \<Rightarrow> correlator option" where
  "rabbit_deliver W d c =
     (case unmarshal_resp W (d_Body d) of
        Inl err \<Rightarrow> Some c
      | Inr resp \<Rightarrow> map_option snd (Deliver (CorrelationId d) \<lparr>Response = Some resp, Err = None\<rparr> c))"

text \<open>The dispatch loop over the deliveries until the channel closes.\<close>

fun rabbit_dispatch :: "wire \<Rightarrow> delivery list \<Rightarrow> correlator \<Rightarrow> correlator option" where
  "rabbit_dispatch W [] c = Some c"
| "rabbit_dispatch W (d # ds) c =
     (case rabbit_deliver W d c of None \<Rightarrow> None | Some c1 \<Rightarrow> rabbit_dispatch W ds c1)"

definition rabbit_Call ::
  "wire \<Rightarrow> string \<Rightarrow> delivery call_env \<Rightarrow> rpc_request \<Rightarrow> correlator \<Rightarrow> ((outcome \<times> correlator) \<times> outgoing option) option" where
  "rabbit_Call W replyTo env req c =
     (case marshal_req W req of
        Inl err \<Rightarrow> Some (((None, Some err), c), None)
      | Inr data \<Rightarrow>
          (let rid = rq_RequestId req;
               ((ch, f), c1) = Register rid c;
               msg = \<lparr>out_dest = RequestQueue, out_reply_to = replyTo, out_corr_id = rid, out_body = data\<rparr>
           in case pub_err env of
                Some err \<Rightarrow>
                  Some (((None, Some (Wrapf '''' (Sentinel ErrUnavailable) ('': publish: '' @ Error err))), snd (cancel f c1)), Some msg)
              | None \<Rightarrow>
                  map_option (\<lambda>r. (r, Some msg))
                    (wait_reply (rabbit_deliver W) (others env) (ctx_done env) (prefer_ctx env) ch f c1)))"

definition closed_error :: gerr where
  "closed_error = Wrapf '''' (Sentinel ErrUnavailable) '': client closed''"

definition rabbit_Close :: "correlator \<Rightarrow> correlator option" where
  "rabbit_Close c = Shutdown closed_error c"

definition rabbit_Serve ::
  "gerr option \<Rightarrow> gerr option \<Rightarrow> gerr option \<Rightarrow> gerr option \<Rightarrow> (gerr + unit) \<times> string list" where
  "rabbit_Serve dial_err chan_err declare_err consume_err =
     (case dial_err of
        Some e \<Rightarrow> (Inl e, [])
      | None \<Rightarrow>
          (case chan_err of
             Some e \<Rightarrow> (Inl e, remove1 ''conn'' [''conn''])
           | None \<Rightarrow>
               (case declare_err of
                  Some e \<Rightarrow> (Inl e, remove1 ''conn'' (remove1 ''ch'' [''conn'', ''ch'']))
                | None \<Rightarrow>
                    (case consume_err of
                       Some e \<Rightarrow> (Inl e, remove1 ''conn'' (remove1 ''ch'' [''conn'', ''ch'']))
                     | None \<Rightarrow> (Inr (), [''conn'', ''ch'', ''loop''])))))"

text \<open>The reply of one delivery: destination, correlation id and body, or none.\<close>

definition rabbit_handle :: "wire \<Rightarrow> 'w rpc_handler \<Rightarrow> delivery \<Rightarrow> 'w \<Rightarrow> outgoing option \<times> 'w" where
  "rabbit_handle W h d w =
     (case unmarshal_req W (d_Body d) of
        Inl err \<Rightarrow> (None, w)
      | Inr req \<Rightarrow>
          (let (resp, w') = handled h req w in
           case marshal_resp W resp of
             Inl err \<Rightarrow> (None, w')
           | Inr out \<Rightarrow>
               (Some \<lparr>out_dest = ReplyTo d, out_reply_to = '''', out_corr_id = CorrelationId d, out_body = out\<rparr>, w')))"

text \<open>The serve loop: each iteration meets the context's end, or a delivery, or the channel's end
  (\<open>Inr None\<close>).\<close>

fun rabbit_loop :: "wire \<Rightarrow> 'w rpc_handler \<Rightarrow> (unit + delivery option) list \<Rightarrow> 'w \<Rightarrow> bool \<times> outgoing option list \<times> 'w" where
  "rabbit_loop W h [] w = (False, [], w)"
| "rabbit_loop W h (Inl u # its) w = (True, [], w)"
| "rabbit_loop W h (Inr None # its) w = (True, [], w)"
| "rabbit_loop W h (Inr (Some d) # its) w =
     (let (r, w1) = rabbit_handle W h d w; (ended, rs, w2) = rabbit_loop W h its w1 in (ended, r # rs, w2))"

section \<open>The call\<close>

definition by_correlation_id :: "wire \<Rightarrow> delivery \<Rightarrow> (string \<times> rpc_response) option" where
  "by_correlation_id W d =
     (case unmarshal_resp W (d_Body d) of Inl err \<Rightarrow> None | Inr resp \<Rightarrow> Some (CorrelationId d, resp))"

interpretation rabbit: reply_router "rabbit_deliver W" "by_correlation_id W" for W
  by unfold_locales (simp add: rabbit_deliver_def by_correlation_id_def split: sum.split)

lemma rabbit_Call_ok:
  assumes "corr_inv c" and "map_of (pending c) (rq_RequestId req) = None"
    and "\<forall>e \<in> set (others env). foreign (rq_RequestId req) e"
  shows "call_ok (by_correlation_id W) req env (rabbit_Call W replyTo env req c)"
proof (cases "marshal_req W req")
  case (Inl err)
  with call_ok_failed [OF assms(1,2)] show ?thesis by (simp add: rabbit_Call_def)
next
  case (Inr data)
  obtain ch f c1 where reg: "Register (rq_RequestId req) c = ((ch, f), c1)" by (metis prod.exhaust)
  show ?thesis
  proof (cases "pub_err env")
    case None
    with rabbit.call_ok_wait [OF assms(1) reg assms(3) None] Inr reg show ?thesis by (simp add: rabbit_Call_def)
  next
    case (Some err)
    with Inr reg call_ok_cancelled [OF assms(1) reg] show ?thesis by (simp add: rabbit_Call_def)
  qed
qed

text \<open>The responder echoes the delivery's correlation id to the delivery's reply address, so whichever
  reply mode the client chose, the reply comes back under the id the client registered.\<close>

lemma rabbit_handle_echo:
  "rabbit_handle W h d w = (Some out, w') \<Longrightarrow> out_dest out = ReplyTo d \<and> out_corr_id out = CorrelationId d"
  by (auto simp: rabbit_handle_def Let_def split: sum.splits prod.splits)

end
