(* ===== verification/Mqttx.thy ===== *)
theory Mqttx
  imports Waiting
begin

text \<open>
  The MQTT binding (\<open>clients/internal/rpc/mqttx/mqttx.go\<close>): request topics per method, one reply topic
  per client id, correlation by the envelope's request id.

  Library calls are arguments; the process id and the value drawn from the process-wide client
  sequence are too.  A function that acquires resources returns what it leaves open.
\<close>

definition RequestTopic :: "string \<Rightarrow> string \<Rightarrow> string" where
  "RequestTopic service method = ''rpc/request'' @ ''/'' @ service @ ''/'' @ method"

definition ResponseTopic :: "string \<Rightarrow> string" where
  "ResponseTopic clientID = ''rpc/response'' @ ''/'' @ clientID"

definition brokerURL :: "string \<Rightarrow> string" where
  "brokerURL addr = (if Contains addr ''://'' then addr else ''tcp://'' @ addr)"

definition mqtt_client_id :: "string \<Rightarrow> nat \<Rightarrow> nat \<Rightarrow> string" where
  "mqtt_client_id prefix pid sq = prefix @ ''-'' @ itoa (int pid) @ ''-'' @ itoa (int sq)"

text \<open>A token is \<open>None\<close> until it completes, then its error.  On failure \<open>connect\<close> returns without
  disconnecting the client it created; an incomplete token has no error to wrap.\<close>

definition token_failed :: "gerr option option \<Rightarrow> bool" where
  "token_failed tok = (tok \<noteq> Some None)"

definition token_error :: "gerr option option \<Rightarrow> string \<Rightarrow> gerr" where
  "token_error tok text =
     (case tok of Some (Some e) \<Rightarrow> Wrapf text e '''' | _ \<Rightarrow> Opaque (text @ ''%!w(<nil>)''))"

definition mqtt_connect :: "string \<Rightarrow> gerr option option \<Rightarrow> (gerr + unit) \<times> string list" where
  "mqtt_connect addr tok =
     (if token_failed tok then (Inl (token_error tok (''mqtt connect '' @ addr @ '': '')), [''paho''])
      else (Inr (), [''paho'']))"

record mqtt_client =
  mq_corr :: correlator
  mq_clientID :: string
  mq_qos :: nat
  mq_caps :: capabilities

definition mqtt_Dial ::
  "string \<Rightarrow> nat \<Rightarrow> nat \<Rightarrow> nat \<Rightarrow> gerr option option \<Rightarrow> gerr option option \<Rightarrow> (gerr + mqtt_client) \<times> string list" where
  "mqtt_Dial addr qos pid sq conn_tok sub_tok =
     (let cid = mqtt_client_id ''rpc-mqttx'' pid sq in
      case mqtt_connect addr conn_tok of
        (Inl e, left) \<Rightarrow> (Inl e, left)
      | (Inr u, left) \<Rightarrow>
          (if token_failed sub_tok
           then (Inl (token_error sub_tok (''mqtt subscribe '' @ ResponseTopic cid @ '': '')), remove1 ''paho'' left)
           else (Inr \<lparr>mq_corr = NewCorrelator, mq_clientID = cid, mq_qos = qos,
                      mq_caps = zero_capabilities\<lparr>AtLeastOnce := (qos \<ge> 1)\<rparr>\<rparr>, left)))"

definition mqtt_deliver :: "wire \<Rightarrow> bytes \<Rightarrow> correlator \<Rightarrow> correlator option" where
  "mqtt_deliver W body c =
     (case unmarshal_resp W body of
        Inl err \<Rightarrow> Some c
      | Inr resp \<Rightarrow> map_option snd (Deliver (rs_RequestId resp) \<lparr>Response = Some resp, Err = None\<rparr> c))"

text \<open>The publish is itself awaited: \<open>published\<close> is what its \<open>select\<close> sees, \<open>Inl\<close> the context's end,
  \<open>Inr\<close> the completed token's error.  The caller's request is stamped in place, so the stamped
  request is part of the result.\<close>

definition mqtt_Call ::
  "wire \<Rightarrow> string \<Rightarrow> (gerr + gerr option) \<Rightarrow> bytes call_env \<Rightarrow> rpc_request \<Rightarrow> correlator
   \<Rightarrow> ((outcome \<times> correlator) \<times> outgoing option) option \<times> rpc_request" where
  "mqtt_Call W clientID published env req0 c =
     (let req = req0\<lparr>rq_ClientId := clientID\<rparr> in
      ((case marshal_req W req of
          Inl err \<Rightarrow> Some (((None, Some err), c), None)
        | Inr data \<Rightarrow>
            (let ((ch, f), c1) = Register (rq_RequestId req) c;
                 msg = \<lparr>out_dest = RequestTopic (rq_Service req) (rq_Method req), out_reply_to = '''',
                        out_corr_id = '''', out_body = data\<rparr>
             in case published of
                  Inl ctx_err \<Rightarrow> Some (((None, Some ctx_err), snd (cancel f c1)), Some msg)
                | Inr (Some err) \<Rightarrow>
                    Some (((None, Some (Wrapf '''' (Sentinel ErrUnavailable) ('': publish: '' @ Error err))),
                           snd (cancel f c1)), Some msg)
                | Inr None \<Rightarrow>
                    map_option (\<lambda>r. (r, Some msg))
                      (wait_reply (mqtt_deliver W) (others env) (ctx_done env) (prefer_ctx env) ch f c1))), req))"

definition mqtt_Close :: "correlator \<Rightarrow> correlator option" where
  "mqtt_Close c = Shutdown (Wrapf '''' (Sentinel ErrUnavailable) '': client closed'') c"

definition mqtt_Serve :: "string \<Rightarrow> gerr option option \<Rightarrow> gerr option option \<Rightarrow> (gerr + unit) \<times> string list" where
  "mqtt_Serve addr conn_tok sub_tok =
     (case mqtt_connect addr conn_tok of
        (Inl e, left) \<Rightarrow> (Inl e, left)
      | (Inr u, left) \<Rightarrow>
          (if token_failed sub_tok
           then (Inl (token_error sub_tok ''mqtt subscribe rpc/request/+/+: ''), remove1 ''paho'' left)
           else (Inr (), left)))"

definition mqtt_handle :: "wire \<Rightarrow> 'w rpc_handler \<Rightarrow> bytes \<Rightarrow> 'w \<Rightarrow> (string \<times> bytes) option \<times> 'w" where
  "mqtt_handle W h body w =
     (case unmarshal_req W body of
        Inl err \<Rightarrow> (None, w)
      | Inr req \<Rightarrow>
          (if rq_ClientId req = '''' then (None, w)
           else (let (resp, w') = handled h req w in
                 case marshal_resp W resp of
                   Inl err \<Rightarrow> (None, w')
                 | Inr out \<Rightarrow> (Some (ResponseTopic (rq_ClientId req), out), w'))))"

section \<open>The call\<close>

interpretation mqtt: reply_router "mqtt_deliver W" "by_request_id W" for W
  by unfold_locales (simp add: mqtt_deliver_def by_request_id_def split: sum.split)

lemma mqtt_Call_ok:
  assumes "corr_inv c" and "map_of (pending c) (rq_RequestId req) = None"
    and "\<forall>e \<in> set (others env). foreign (rq_RequestId req) e" and "pub_err env = None"
  shows "call_ok (by_request_id W) req env (fst (mqtt_Call W clientID published env req c))"
proof -
  let ?req = "req\<lparr>rq_ClientId := clientID\<rparr>"
  have same: "call_ok (by_request_id W) ?req env r = call_ok (by_request_id W) req env r" for r
    unfolding call_ok_def rpc_request.select_convs rpc_request.update_convs by (cases r) auto
  obtain ch f c1 where reg: "Register (rq_RequestId ?req) c = ((ch, f), c1)" by (metis prod.exhaust)
  have "call_ok (by_request_id W) ?req env (fst (mqtt_Call W clientID published env req c))"
    using call_ok_failed [of c ?req "by_request_id W" env] call_ok_cancelled [OF assms(1) reg, of "by_request_id W" env]
      mqtt.call_ok_wait [OF assms(1) reg _ assms(4), of W] assms(1-3) reg
    by (auto simp: mqtt_Call_def Let_def split: sum.split option.split)
  then show ?thesis by (simp only: same)
qed

end
