(* ===== verification/Valkeyx.thy ===== *)
theory Valkeyx
  imports Waiting
begin

text \<open>
  The Valkey bindings (\<open>clients/internal/rpc/valkeyx/valkeyx.go\<close> and \<open>stream.go\<close>): ephemeral Pub/Sub
  channels, and durable streams with a consumer group; both reply by client id and correlate by the
  envelope's request id.

  Library calls are arguments; a function that acquires resources returns what it leaves open.
\<close>

section \<open>Names\<close>

definition RequestChannel :: "string \<Rightarrow> string \<Rightarrow> string" where
  "RequestChannel service method = ''rpc:request'' @ '':'' @ service @ '':'' @ method"

definition ResponseChannel :: "string \<Rightarrow> string" where
  "ResponseChannel clientID = ''rpc:response'' @ '':'' @ clientID"

definition respStreamName :: "string \<Rightarrow> string" where
  "respStreamName clientID = ''rpc:stream:response'' @ '':'' @ clientID"

definition reqStream :: string where "reqStream = ''rpc:stream:requests''"

definition splitSentinels :: "string \<Rightarrow> string list" where
  "splitSentinels addr = filter (\<lambda>p. p \<noteq> '''') (map TrimSpace (Split (CHR '','') addr))"

definition newClientID :: "string \<Rightarrow> nat \<Rightarrow> nat \<Rightarrow> string" where
  "newClientID prefix pid sq = prefix @ ''-'' @ itoa (int pid) @ ''-'' @ itoa (int sq)"

definition unavailable :: "string \<Rightarrow> gerr \<Rightarrow> gerr" where
  "unavailable what err = Wrapf '''' (Sentinel ErrUnavailable) ('': '' @ what @ '': '' @ Error err)"

definition valkey_dial :: "gerr option \<Rightarrow> (gerr + unit) \<times> string list" where
  "valkey_dial ping_err =
     (case ping_err of
        Some e \<Rightarrow> (Inl (unavailable ''valkey connect'' e), remove1 ''rdb'' [''rdb''])
      | None \<Rightarrow> (Inr (), [''rdb'']))"

section \<open>Pub/Sub client and responder\<close>

record valkey_client =
  vk_corr :: correlator
  vk_clientID :: string
  vk_caps :: capabilities

definition valkey_Dial :: "nat \<Rightarrow> nat \<Rightarrow> gerr option \<Rightarrow> gerr option \<Rightarrow> (gerr + valkey_client) \<times> string list" where
  "valkey_Dial pid sq ping_err sub_err =
     (case valkey_dial ping_err of
        (Inl e, left) \<Rightarrow> (Inl e, left)
      | (Inr u, left) \<Rightarrow>
          (case sub_err of
             Some e \<Rightarrow> (Inl (unavailable ''valkey subscribe'' e), remove1 ''rdb'' (remove1 ''sub'' (left @ [''sub''])))
           | None \<Rightarrow>
               (Inr \<lparr>vk_corr = NewCorrelator, vk_clientID = newClientID ''rpc-valkeyx'' pid sq,
                     vk_caps = zero_capabilities\<rparr>, left @ [''sub''])))"

definition valkey_deliver :: "wire \<Rightarrow> bytes \<Rightarrow> correlator \<Rightarrow> correlator option" where
  "valkey_deliver W payload c =
     (case unmarshal_resp W payload of
        Inl err \<Rightarrow> Some c
      | Inr resp \<Rightarrow> map_option snd (Deliver (rs_RequestId resp) \<lparr>Response = Some resp, Err = None\<rparr> c))"

fun valkey_dispatch :: "wire \<Rightarrow> bytes list \<Rightarrow> correlator \<Rightarrow> correlator option" where
  "valkey_dispatch W [] c = Some c"
| "valkey_dispatch W (m # ms) c =
     (case valkey_deliver W m c of None \<Rightarrow> None | Some c1 \<Rightarrow> valkey_dispatch W ms c1)"

definition valkey_Call ::
  "wire \<Rightarrow> string \<Rightarrow> bytes call_env \<Rightarrow> rpc_request \<Rightarrow> correlator
   \<Rightarrow> ((outcome \<times> correlator) \<times> outgoing option) option \<times> rpc_request" where
  "valkey_Call W clientID env req0 c =
     (let req = req0\<lparr>rq_ClientId := clientID\<rparr> in
      ((case marshal_req W req of
          Inl err \<Rightarrow> Some (((None, Some err), c), None)
        | Inr data \<Rightarrow>
            (let ((ch, f), c1) = Register (rq_RequestId req) c;
                 msg = \<lparr>out_dest = RequestChannel (rq_Service req) (rq_Method req), out_reply_to = '''',
                        out_corr_id = '''', out_body = data\<rparr>
             in case pub_err env of
                  Some err \<Rightarrow> Some (((None, Some (unavailable ''publish'' err)), snd (cancel f c1)), Some msg)
                | None \<Rightarrow>
                    map_option (\<lambda>r. (r, Some msg))
                      (wait_reply (valkey_deliver W) (others env) (ctx_done env) (prefer_ctx env) ch f c1))), req))"

definition valkey_closed :: gerr where
  "valkey_closed = Wrapf '''' (Sentinel ErrUnavailable) '': client closed''"

definition valkey_Close :: "correlator \<Rightarrow> correlator option" where
  "valkey_Close c = Shutdown valkey_closed c"

definition valkey_Serve :: "gerr option \<Rightarrow> gerr option \<Rightarrow> (gerr + unit) \<times> string list" where
  "valkey_Serve ping_err sub_err =
     (case valkey_dial ping_err of
        (Inl e, left) \<Rightarrow> (Inl e, left)
      | (Inr u, left) \<Rightarrow>
          (case sub_err of
             Some e \<Rightarrow> (Inl (unavailable ''valkey psubscribe'' e), remove1 ''rdb'' (remove1 ''psub'' (left @ [''psub''])))
           | None \<Rightarrow> (Inr (), left @ [''psub'', ''loop''])))"

definition valkey_handle :: "wire \<Rightarrow> 'w rpc_handler \<Rightarrow> bytes \<Rightarrow> 'w \<Rightarrow> (string \<times> bytes) option \<times> 'w" where
  "valkey_handle W h body w =
     (case unmarshal_req W body of
        Inl err \<Rightarrow> (None, w)
      | Inr req \<Rightarrow>
          (if rq_ClientId req = '''' then (None, w)
           else (let (resp, w') = handled h req w in
                 case marshal_resp W resp of
                   Inl err \<Rightarrow> (None, w')
                 | Inr out \<Rightarrow> (Some (ResponseChannel (rq_ClientId req), out), w'))))"

text \<open>The serve loop: each iteration meets the context's end (\<open>Inl\<close>), the channel's end (\<open>Inr None\<close>) or a
  message, which is handed to a goroutine of its own; the result is the payloads handed over.\<close>

fun valkey_loop :: "(unit + bytes option) list \<Rightarrow> bool \<times> bytes list" where
  "valkey_loop [] = (False, [])"
| "valkey_loop (Inl u # its) = (True, [])"
| "valkey_loop (Inr None # its) = (True, [])"
| "valkey_loop (Inr (Some payload) # its) = (let (ended, ps) = valkey_loop its in (ended, payload # ps))"

section \<open>Stream client\<close>

definition stream_caps :: capabilities where
  "stream_caps = zero_capabilities\<lparr>DurableRequests := True, Replay := True, AtLeastOnce := True\<rparr>"

definition DialStream :: "nat \<Rightarrow> nat \<Rightarrow> gerr option \<Rightarrow> (gerr + valkey_client) \<times> string list" where
  "DialStream pid sq ping_err =
     (case valkey_dial ping_err of
        (Inl e, left) \<Rightarrow> (Inl e, left)
      | (Inr u, left) \<Rightarrow>
          (Inr \<lparr>vk_corr = NewCorrelator, vk_clientID = newClientID ''rpc-valkeyx-stream'' pid sq, vk_caps = stream_caps\<rparr>,
           left @ [''reader'']))"

text \<open>A stream entry: its id and the \<open>data\<close> value (the empty string when it is missing).\<close>

type_synonym stream_entry = "string \<times> bytes"

fun read_batch :: "wire \<Rightarrow> stream_entry list \<Rightarrow> string \<times> correlator \<Rightarrow> (string \<times> correlator) option" where
  "read_batch W [] st = Some st"
| "read_batch W ((sid, data) # es) (lastID, c) =
     (case unmarshal_resp W data of
        Inl err \<Rightarrow> read_batch W es (sid, c)
      | Inr resp \<Rightarrow>
          (case Deliver (rs_RequestId resp) \<lparr>Response = Some resp, Err = None\<rparr> c of
             None \<Rightarrow> None
           | Some (b, c1) \<Rightarrow> read_batch W es (sid, c1)))"

text \<open>The reader over what its iterations meet: the context at the top, the function of the id it
  asks from that \<open>XREAD\<close> answers with, the context after an error, and whether the context ends
  during the back-off.  The flag says whether the reader has ended.\<close>

type_synonym read_iter = "bool \<times> (string \<Rightarrow> gerr + stream_entry list) \<times> bool \<times> bool"

fun readReplies :: "wire \<Rightarrow> read_iter list \<Rightarrow> string \<times> correlator \<Rightarrow> (bool \<times> string \<times> correlator) option" where
  "readReplies W [] st = Some (False, st)"
| "readReplies W ((ctx_top, xread, ctx_err, ctx_backoff) # its) (lastID, c) =
     (if ctx_top then Some (True, lastID, c)
      else (case xread lastID of
              Inl err \<Rightarrow>
                (if errors_Is err RedisNil then readReplies W its (lastID, c)
                 else if ctx_err \<or> ctx_backoff then Some (True, lastID, c)
                 else readReplies W its (lastID, c))
            | Inr es \<Rightarrow>
                (case read_batch W es (lastID, c) of None \<Rightarrow> None | Some st1 \<Rightarrow> readReplies W its st1)))"

definition stream_Call ::
  "wire \<Rightarrow> string \<Rightarrow> bytes call_env \<Rightarrow> rpc_request \<Rightarrow> correlator
   \<Rightarrow> ((outcome \<times> correlator) \<times> outgoing option) option \<times> rpc_request" where
  "stream_Call W clientID env req0 c =
     (let req = req0\<lparr>rq_ClientId := clientID\<rparr> in
      ((case marshal_req W req of
          Inl err \<Rightarrow> Some (((None, Some err), c), None)
        | Inr data \<Rightarrow>
            (let ((ch, f), c1) = Register (rq_RequestId req) c;
                 msg = \<lparr>out_dest = reqStream, out_reply_to = '''', out_corr_id = '''', out_body = data\<rparr>
             in case pub_err env of
                  Some err \<Rightarrow> Some (((None, Some (unavailable ''xadd'' err)), snd (cancel f c1)), Some msg)
                | None \<Rightarrow>
                    map_option (\<lambda>r. (r, Some msg))
                      (wait_reply (valkey_deliver W) (others env) (ctx_done env) (prefer_ctx env) ch f c1))), req))"

definition stream_Close :: "correlator \<Rightarrow> correlator option" where
  "stream_Close c = Shutdown valkey_closed c"

section \<open>Stream responder\<close>

definition ServeStream :: "gerr option \<Rightarrow> gerr option \<Rightarrow> (gerr + unit) \<times> string list" where
  "ServeStream ping_err group_err =
     (case valkey_dial ping_err of
        (Inl e, left) \<Rightarrow> (Inl e, left)
      | (Inr u, left) \<Rightarrow>
          (case group_err of
             None \<Rightarrow> (Inr (), left @ [''loop''])
           | Some e \<Rightarrow>
               (if \<not> Contains (Error e) ''BUSYGROUP''
                then (Inl (unavailable ''valkey xgroup create'' e), remove1 ''rdb'' left)
                else (Inr (), left @ [''loop'']))))"

datatype stream_action = XAck string | XAdd string bytes

text \<open>The acknowledgement is deferred: it is the last action on every path.\<close>

definition stream_handle :: "wire \<Rightarrow> 'w rpc_handler \<Rightarrow> stream_entry \<Rightarrow> 'w \<Rightarrow> stream_action list \<times> 'w" where
  "stream_handle W h m w =
     (case m of (sid, data) \<Rightarrow>
        (case unmarshal_req W data of
           Inl err \<Rightarrow> ([XAck sid], w)
         | Inr req \<Rightarrow>
             (if rq_ClientId req = '''' then ([XAck sid], w)
              else (let (resp, w') = handled h req w in
                    case marshal_resp W resp of
                      Inl err \<Rightarrow> ([XAck sid], w')
                    | Inr out \<Rightarrow> ([XAdd (respStreamName (rq_ClientId req)) out, XAck sid], w')))))"

text \<open>The serve loop: its state is the pending flag and the last pending id; it yields the ids it
  reads from and the entries it hands to handlers.\<close>

fun stream_loop :: "read_iter list \<Rightarrow> bool \<times> string \<Rightarrow> bool \<times> string list \<times> stream_entry list" where
  "stream_loop [] st = (False, [], [])"
| "stream_loop ((ctx_top, xread, ctx_err, ctx_backoff) # its) (pend, lastPending) =
     (if ctx_top then (True, [], [])
      else (let readID = (if pend then lastPending else ''>'') in
            case xread readID of
              Inl err \<Rightarrow>
                (if errors_Is err RedisNil then
                   (let (e, ids, hs) = stream_loop its (False, lastPending) in (e, readID # ids, hs))
                 else if ctx_err \<or> ctx_backoff then (True, [readID], [])
                 else (let (e, ids, hs) = stream_loop its (pend, lastPending) in (e, readID # ids, hs)))
            | Inr es \<Rightarrow>
                (let last' = (if pend \<and> es \<noteq> [] then fst (last es) else lastPending);
                     pend' = (pend \<and> es \<noteq> []);
                     (e, ids, hs) = stream_loop its (pend', last')
                 in (e, readID # ids, es @ hs))))"

text \<open>The reader hands its entries to the correlator exactly as the Pub/Sub dispatcher would, and moves
  its cursor to the last entry.\<close>

lemma read_batch_dispatch:
  "read_batch W es (lid, c) =
     map_option (\<lambda>c'. (if es = [] then lid else fst (last es), c')) (valkey_dispatch W (map snd es) c)"
proof (induction es arbitrary: lid c)
  case (Cons e es)
  obtain sid data where e: "e = (sid, data)" by (cases e)
  show ?case
  proof (cases "unmarshal_resp W data")
    case (Inl err)
    then show ?thesis by (simp add: e Cons.IH valkey_deliver_def)
  next
    case (Inr resp)
    then show ?thesis
      by (cases "Deliver (rs_RequestId resp) \<lparr>Response = Some resp, Err = None\<rparr> c")
         (auto simp: e Cons.IH valkey_deliver_def)
  qed
qed simp

section \<open>The calls\<close>

interpretation valkey: reply_router "valkey_deliver W" "by_request_id W" for W
  by unfold_locales (simp add: valkey_deliver_def by_request_id_def split: sum.split)

lemma call_ok_stamped [simp]:
  "call_ok routed (req\<lparr>rq_ClientId := cid\<rparr>) env r = call_ok routed req env r"
  unfolding call_ok_def rpc_request.select_convs rpc_request.update_convs by (cases r) auto

lemma valkey_Call_ok:
  assumes "corr_inv c" and "map_of (pending c) (rq_RequestId req) = None"
    and "\<forall>e \<in> set (others env). foreign (rq_RequestId req) e"
  shows "call_ok (by_request_id W) req env (fst (valkey_Call W clientID env req c))"
    and "call_ok (by_request_id W) req env (fst (stream_Call W clientID env req c))"
proof -
  let ?req = "req\<lparr>rq_ClientId := clientID\<rparr>"
  obtain ch f c1 where reg: "Register (rq_RequestId ?req) c = ((ch, f), c1)" by (metis prod.exhaust)
  have none: "call_ok (by_request_id W) req env (Some (((None, Some err), c), msg))" for err msg
    using call_ok_failed [OF assms(1,2)] .
  have canc: "call_ok (by_request_id W) req env (Some (((None, Some err), snd (cancel f c1)), msg))" for err msg
    using call_ok_cancelled [OF assms(1) reg] by simp
  have wait: "pub_err env = None \<Longrightarrow> call_ok (by_request_id W) req env (map_option (\<lambda>r. (r, msg))
      (wait_reply (valkey_deliver W) (others env) (ctx_done env) (prefer_ctx env) ch f c1))" for msg
    using valkey.call_ok_wait [OF assms(1) reg, of env W msg] assms(3) by simp
  show "call_ok (by_request_id W) req env (fst (valkey_Call W clientID env req c))"
    using none canc wait reg by (auto simp: valkey_Call_def Let_def split: sum.split option.split)
  show "call_ok (by_request_id W) req env (fst (stream_Call W clientID env req c))"
    using none canc wait reg by (auto simp: stream_Call_def Let_def split: sum.split option.split)
qed

end
