(* ===== verification/Bindings.thy ===== *)
theory Bindings
  imports Natsx Rabbitmqx Mqttx Valkeyx
begin

text \<open>
  Properties that hold across the out-of-band bindings of theories \<open>Natsx\<close>, \<open>Rabbitmqx\<close>, \<open>Mqttx\<close> and
  \<open>Valkeyx\<close>: what a call owes its caller, the round trip through a responder, the statuses of the
  failure paths, what a failed connection attempt leaves open, and how responders settle deliveries.
\<close>

section \<open>The calls\<close>


text \<open>A wire whose decoding inverts its encoding, for one request and one response.\<close>

definition toy_wire :: "rpc_request \<Rightarrow> rpc_response \<Rightarrow> wire" where
  "toy_wire req resp =
     \<lparr>marshal_req = (\<lambda>_. Inr [1]), unmarshal_req = (\<lambda>_. Inr req), marshal_resp = (\<lambda>_. Inr [2]),
      unmarshal_resp = (\<lambda>b. if b = [2] then Inr resp else Inl (Opaque ''bad''))\<rparr>"

definition quiet_env :: "'x event list \<Rightarrow> 'x call_env" where
  "quiet_env es = \<lparr>pub_err = None, ctx_done = None, prefer_ctx = False, others = es\<rparr>"


section \<open>Round trips\<close>

lemma wait_first_reply:
  assumes "reply_router onReply routed" and "corr_inv c" and "Register rid c = ((ch, f), c1)"
    and "routed x = Some (rid, resp)"
  shows "\<exists>c2. wait_reply onReply [Reply x] None p ch f c1 = Some ((Some resp, None), c2)"
  using reply_router.wait_reply_spec [OF assms(1-3), of "[Reply x]" None p] assms(4) by (auto simp: foreign_def)

text \<open>C8. The round trip over each binding: when the wire's decoding inverts its encoding and the
  service answers the request with a response that carries its request id, feeding the published
  message to the responder and the responder's reply back to the client makes the call return
  exactly that response.  (RabbitMQ correlates by the message property and needs no such id.)\<close>

theorem bindings_roundtrip:
  assumes "corr_inv c"
    and "\<forall>r \<in> {req, req\<lparr>rq_ClientId := clientID\<rparr>}. \<exists>b. marshal_req W r = Inr b \<and> unmarshal_req W b = Inr r"
    and "marshal_resp W resp = Inr out" and "unmarshal_resp W out = Inr resp"
    and "\<forall>r \<in> {req, req\<lparr>rq_ClientId := clientID\<rparr>}. h r w = (Inr resp, w')"
    and "rs_RequestId resp = rq_RequestId req" and "inbox \<noteq> ''''" and "clientID \<noteq> ''''"
  shows "(\<exists>m c'. js_Call W inbox (quiet_env [Reply out]) req c = Some (((Some resp, None), c'), Some m) \<and>
            js_handle W h \<lparr>js_data = out_body m, js_replyTo = out_reply_to m\<rparr> w = ([Reply_To inbox out, Ack], w')) \<and>
         (\<exists>m c'. rabbit_Call W replyTo (quiet_env [Reply \<lparr>CorrelationId = out_corr_id m, ReplyTo = '''', d_Body = out\<rparr>]) req c
              = Some (((Some resp, None), c'), Some m) \<and>
            rabbit_handle W h \<lparr>CorrelationId = out_corr_id m, ReplyTo = out_reply_to m, d_Body = out_body m\<rparr> w =
              (Some \<lparr>out_dest = replyTo, out_reply_to = '''', out_corr_id = out_corr_id m, out_body = out\<rparr>, w')) \<and>
         (\<exists>m c'. fst (mqtt_Call W clientID (Inr None) (quiet_env [Reply out]) req c) = Some (((Some resp, None), c'), Some m) \<and>
            mqtt_handle W h (out_body m) w = (Some (ResponseTopic clientID, out), w')) \<and>
         (\<exists>m c'. fst (valkey_Call W clientID (quiet_env [Reply out]) req c) = Some (((Some resp, None), c'), Some m) \<and>
            valkey_handle W h (out_body m) w = (Some (ResponseChannel clientID, out), w')) \<and>
         (\<exists>m c'. fst (stream_Call W clientID (quiet_env [Reply out]) req c) = Some (((Some resp, None), c'), Some m) \<and>
            stream_handle W h (sid, out_body m) w = ([XAdd (respStreamName clientID) out, XAck sid], w'))"
proof -
  let ?q = "req\<lparr>rq_ClientId := clientID\<rparr>"
  obtain b where b: "marshal_req W req = Inr b" "unmarshal_req W b = Inr req" using assms(2) by blast
  obtain b' where b': "marshal_req W ?q = Inr b'" "unmarshal_req W b' = Inr ?q" using assms(2) by blast
  obtain ch f c1 where reg: "Register (rq_RequestId req) c = ((ch, f), c1)" by (metis prod.exhaust)
  have key: "by_request_id W out = Some (rq_RequestId req, resp)"
    "by_correlation_id W \<lparr>CorrelationId = rq_RequestId req, ReplyTo = '''', d_Body = out\<rparr> = Some (rq_RequestId req, resp)"
    using assms(4,6) by (simp_all add: by_request_id_def by_correlation_id_def)
  have hd: "handled h req w = (resp, w')" "handled h ?q w = (resp, w')" using assms(5) by (simp_all add: handled_def)
  note js = wait_first_reply [OF js.reply_router_axioms assms(1) reg key(1), of False]
  note rb = wait_first_reply [OF rabbit.reply_router_axioms assms(1) reg key(2), of False]
  note mq = wait_first_reply [OF mqtt.reply_router_axioms assms(1) reg key(1), of False]
  note vk = wait_first_reply [OF valkey.reply_router_axioms assms(1) reg key(1), of False]
  have 1: "\<exists>m c'. js_Call W inbox (quiet_env [Reply out]) req c = Some (((Some resp, None), c'), Some m) \<and>
      js_handle W h \<lparr>js_data = out_body m, js_replyTo = out_reply_to m\<rparr> w = ([Reply_To inbox out, Ack], w')"
    using js b reg hd assms(3,7) by (auto simp: js_Call_def js_handle_def quiet_env_def)
  have 2: "\<exists>m c'. rabbit_Call W replyTo (quiet_env [Reply \<lparr>CorrelationId = out_corr_id m, ReplyTo = '''', d_Body = out\<rparr>]) req c
              = Some (((Some resp, None), c'), Some m) \<and>
            rabbit_handle W h \<lparr>CorrelationId = out_corr_id m, ReplyTo = out_reply_to m, d_Body = out_body m\<rparr> w =
              (Some \<lparr>out_dest = replyTo, out_reply_to = '''', out_corr_id = out_corr_id m, out_body = out\<rparr>, w')"
    by (rule exI [of _ "\<lparr>out_dest = RequestQueue, out_reply_to = replyTo, out_corr_id = rq_RequestId req, out_body = b\<rparr>"])
       (use rb b reg hd assms(3) in \<open>auto simp: rabbit_Call_def rabbit_handle_def quiet_env_def\<close>)
  have 3: "\<exists>m c'. fst (mqtt_Call W clientID (Inr None) (quiet_env [Reply out]) req c) = Some (((Some resp, None), c'), Some m) \<and>
      mqtt_handle W h (out_body m) w = (Some (ResponseTopic clientID, out), w')"
    using mq b' reg hd assms(3,8) by (auto simp: mqtt_Call_def mqtt_handle_def quiet_env_def)
  have 4: "\<exists>m c'. fst (valkey_Call W clientID (quiet_env [Reply out]) req c) = Some (((Some resp, None), c'), Some m) \<and>
      valkey_handle W h (out_body m) w = (Some (ResponseChannel clientID, out), w')"
    using vk b' reg hd assms(3,8) by (auto simp: valkey_Call_def valkey_handle_def quiet_env_def)
  have 5: "\<exists>m c'. fst (stream_Call W clientID (quiet_env [Reply out]) req c) = Some (((Some resp, None), c'), Some m) \<and>
      stream_handle W h (sid, out_body m) w = ([XAdd (respStreamName clientID) out, XAck sid], w')"
    using vk b' reg hd assms(3,8) by (auto simp: stream_Call_def stream_handle_def quiet_env_def)
  from 1 2 3 4 5 show ?thesis by blast
qed

theorem bindings_roundtrip_witness:
  "\<exists>m c'. rabbit_Call (toy_wire (zero_request\<lparr>rq_ClientId := ''c''\<rparr>) zero_response) ''q''
        (quiet_env [Reply \<lparr>CorrelationId = out_corr_id m, ReplyTo = '''', d_Body = [2]\<rparr>])
        (zero_request\<lparr>rq_ClientId := ''c''\<rparr>) NewCorrelator = Some (((Some zero_response, None), c'), Some m)"
proof -
  let ?req = "zero_request\<lparr>rq_ClientId := ''c''\<rparr>" and ?h = "(\<lambda>_ n. (Inr zero_response, Suc n)) :: nat rpc_handler"
  have same: "?req\<lparr>rq_ClientId := ''c''\<rparr> = ?req" by simp
  have "rs_RequestId zero_response = rq_RequestId ?req" by (simp add: zero_response_def zero_request_def)
  with bindings_roundtrip [OF corr_inv_New, of ?req "''c''" "toy_wire ?req zero_response" zero_response "[2]" ?h 0 1
      "''i''" "''q''" "''s''"]
  show ?thesis unfolding same by (simp add: toy_wire_def) blast
qed

section \<open>Failures\<close>

text \<open>The status a caller sees for each way a call fails before a reply: a failed publish is
  UNAVAILABLE over RabbitMQ, MQTT, Valkey Pub/Sub and Valkey Streams; NATS maps its no-responder
  error to UNAVAILABLE and its timeout to TIMEOUT and passes every other error on; a context
  deadline is TIMEOUT; a client closed underneath the call is UNAVAILABLE, except over JetStream,
  where it is INTERNAL.\<close>

theorem bindings_failure_status:
  assumes "marshal_req W req = Inr b" and "marshal_req W (req\<lparr>rq_ClientId := cid\<rparr>) = Inr b'" and "pub_err env = Some e"
    and "pub_err renv = Some e"
  shows "map_option (\<lambda>r. StatusOf (snd (fst (fst r)))) (rabbit_Call W replyTo renv req c) = Some STATUS_UNAVAILABLE \<and>
         map_option (\<lambda>r. StatusOf (snd (fst (fst r)))) (fst (mqtt_Call W cid (Inr (Some e)) menv req c)) = Some STATUS_UNAVAILABLE \<and>
         map_option (\<lambda>r. StatusOf (snd (fst (fst r)))) (fst (valkey_Call W cid env req c)) = Some STATUS_UNAVAILABLE \<and>
         map_option (\<lambda>r. StatusOf (snd (fst (fst r)))) (fst (stream_Call W cid env req c)) = Some STATUS_UNAVAILABLE \<and>
         map_option (\<lambda>r. StatusOf (snd (fst (fst r)))) (js_Call W inbox env req c) =
           Some (if errors_Is e NatsErrNoResponders then STATUS_UNAVAILABLE
                 else if errors_Is e NatsErrTimeout then STATUS_TIMEOUT else StatusOf (Some e)) \<and>
         StatusOf (Some closed_error) = STATUS_UNAVAILABLE \<and> StatusOf (Some valkey_closed) = STATUS_UNAVAILABLE \<and>
         js_Close c = Shutdown (Opaque ''natsx: client closed'') c \<and>
         StatusOf (Some (Opaque ''natsx: client closed'')) = STATUS_INTERNAL"
proof -
  obtain ch f c1 where reg: "Register (rq_RequestId req) c = ((ch, f), c1)" by (metis prod.exhaust)
  have 1: "map_option (\<lambda>r. StatusOf (snd (fst (fst r)))) (rabbit_Call W replyTo renv req c) = Some STATUS_UNAVAILABLE"
    using assms reg by (simp add: rabbit_Call_def)
  have 2: "map_option (\<lambda>r. StatusOf (snd (fst (fst r)))) (fst (mqtt_Call W cid (Inr (Some e)) menv req c)) = Some STATUS_UNAVAILABLE"
    using assms reg by (simp add: mqtt_Call_def)
  have 3: "map_option (\<lambda>r. StatusOf (snd (fst (fst r)))) (fst (valkey_Call W cid env req c)) = Some STATUS_UNAVAILABLE"
    "map_option (\<lambda>r. StatusOf (snd (fst (fst r)))) (fst (stream_Call W cid env req c)) = Some STATUS_UNAVAILABLE"
    using assms reg by (simp_all add: valkey_Call_def stream_Call_def unavailable_def)
  have 4: "map_option (\<lambda>r. StatusOf (snd (fst (fst r)))) (js_Call W inbox env req c) =
      Some (if errors_Is e NatsErrNoResponders then STATUS_UNAVAILABLE
            else if errors_Is e NatsErrTimeout then STATUS_TIMEOUT else StatusOf (Some e))"
    using assms reg by (simp add: js_Call_def StatusOf_mapErr)
  from 1 2 3 4 show ?thesis by (simp add: closed_error_def valkey_closed_def js_Close_def)
qed

theorem bindings_failure_status_witness:
  "map_option (\<lambda>r. StatusOf (snd (fst (fst r)))) (js_Call (toy_wire zero_request zero_response) ''i''
     (quiet_env []\<lparr>pub_err := Some (Sentinel NatsErrTimeout)\<rparr>) zero_request NewCorrelator) = Some STATUS_TIMEOUT"
  using bindings_failure_status [of "toy_wire zero_request zero_response" zero_request "[1]" "''c''" "[1]"
      "quiet_env []\<lparr>pub_err := Some (Sentinel NatsErrTimeout)\<rparr>" "Sentinel NatsErrTimeout"
      "quiet_env []\<lparr>pub_err := Some (Sentinel NatsErrTimeout)\<rparr>" "''q''" NewCorrelator "quiet_env []" "''i''"]
  by (simp add: toy_wire_def)

text \<open>Connecting.  A failed \<open>Dial\<close> or \<open>Serve\<close> of NATS, JetStream, RabbitMQ and Valkey leaves
  nothing open.  Over MQTT only a failed subscription does: a failed or timed-out connection attempt
  leaves the client, which keeps retrying in the background, and a timed-out one wraps no error.\<close>

theorem bindings_failed_dial:
  "(\<forall>e left. natsx_Dial d = (Inl e, left) \<or> natsx_Serve d s = (Inl e, left) \<or>
      DialJetStream d j en s inbox = (Inl e, left) \<or> ServeJetStream d j en s = (Inl e, left) \<or>
      rabbit_Dial mode d ch q co = (Inl e, left) \<or> rabbit_Serve d ch de co = (Inl e, left) \<or>
      valkey_Dial pid sq pg s = (Inl e, left) \<or> valkey_Serve pg s = (Inl e, left) \<or>
      DialStream pid sq pg = (Inl e, left) \<or> ServeStream pg gr = (Inl e, left) \<longrightarrow> left = []) \<and>
   (\<forall>e left. mqtt_Dial addr qos pid sq tok stok = (Inl e, left) \<longrightarrow>
      left = (if token_failed tok then [''paho''] else [])) \<and>
   fst (mqtt_Dial addr qos pid sq None stok) = Inl (Opaque (''mqtt connect '' @ addr @ '': %!w(<nil>)''))"
proof (intro conjI allI impI)
  fix e left
  assume "natsx_Dial d = (Inl e, left) \<or> natsx_Serve d s = (Inl e, left) \<or>
      DialJetStream d j en s inbox = (Inl e, left) \<or> ServeJetStream d j en s = (Inl e, left) \<or>
      rabbit_Dial mode d ch q co = (Inl e, left) \<or> rabbit_Serve d ch de co = (Inl e, left) \<or>
      valkey_Dial pid sq pg s = (Inl e, left) \<or> valkey_Serve pg s = (Inl e, left) \<or>
      DialStream pid sq pg = (Inl e, left) \<or> ServeStream pg gr = (Inl e, left)"
  then show "left = []"
    by (elim disjE)
       (auto simp: natsx_Dial_def natsx_Serve_def DialJetStream_def ServeJetStream_def rabbit_Dial_def
          rabbit_Serve_def valkey_Dial_def valkey_Serve_def DialStream_def ServeStream_def valkey_dial_def
          split: option.splits sum.splits if_splits)
next
  fix e left assume "mqtt_Dial addr qos pid sq tok stok = (Inl e, left)"
  then show "left = (if token_failed tok then [''paho''] else [])"
    by (auto simp: mqtt_Dial_def mqtt_connect_def Let_def split: if_splits)
next
  show "fst (mqtt_Dial addr qos pid sq None stok) = Inl (Opaque (''mqtt connect '' @ addr @ '': %!w(<nil>)''))"
    by (simp add: mqtt_Dial_def mqtt_connect_def token_failed_def token_error_def)
qed

theorem bindings_failed_dial_witness:
  "natsx_Serve None (Some (Opaque ''x'')) = (Inl (Opaque ''x''), [])"
proof -
  obtain left where n: "natsx_Serve None (Some (Opaque ''x'')) = (Inl (Opaque ''x''), left)"
    by (simp add: natsx_Serve_def)
  from bindings_failed_dial [of None "Some (Opaque ''x'')"] n have "left = []" by blast
  with n show ?thesis by simp
qed

text \<open>Durable responders settle every delivery exactly once and last: a JetStream delivery is
  terminated, untouched by the handler, when it does not decode, and otherwise acknowledged after the
  reply; a Valkey stream entry is acknowledged on every path, after the reply if there is one.\<close>

theorem responders_settle:
  "(\<forall>acts w'. js_handle W h m w = (acts, w') \<longrightarrow>
      length (filter (\<lambda>a. a = Ack \<or> a = Term) acts) = 1 \<and> (last acts = Ack \<or> last acts = Term) \<and>
      (last acts = Term \<longleftrightarrow> (\<exists>err. unmarshal_req W (js_data m) = Inl err)) \<and> (last acts = Term \<longrightarrow> w' = w)) \<and>
   (\<forall>acts w'. stream_handle W h (sid, data) w = (acts, w') \<longrightarrow>
      filter (\<lambda>a. a = XAck sid) acts = [XAck sid] \<and> last acts = XAck sid \<and> length acts \<le> 2)"
proof (intro conjI allI impI)
  fix acts w' assume "js_handle W h m w = (acts, w')"
  note J = js_handle_settles [OF this]
  from J show "length (filter (\<lambda>a. a = Ack \<or> a = Term) acts) = 1" by auto
  from J show "last acts = Ack \<or> last acts = Term" by auto
  from J show "last acts = Term \<longleftrightarrow> (\<exists>err. unmarshal_req W (js_data m) = Inl err)" by auto
  from J show "last acts = Term \<Longrightarrow> w' = w" by auto
next
  fix acts w' assume S: "stream_handle W h (sid, data) w = (acts, w')"
  then have "acts = [XAck sid] \<or> (\<exists>d out. acts = [XAdd d out, XAck sid])"
    by (auto simp: stream_handle_def Let_def split: sum.splits if_splits prod.splits)
  then show "filter (\<lambda>a. a = XAck sid) acts = [XAck sid]" "last acts = XAck sid" "length acts \<le> 2" by auto
qed

theorem responders_settle_witness:
  "\<exists>acts w'. js_handle (toy_wire zero_request zero_response) (\<lambda>_ n. (Inr zero_response, Suc n))
     \<lparr>js_data = [1], js_replyTo = ''i''\<rparr> (0 :: nat) = (acts, w') \<and> last acts = Ack"
proof -
  let ?h = "(\<lambda>_ n. (Inr zero_response, Suc n)) :: nat rpc_handler" and ?m = "\<lparr>js_data = [1], js_replyTo = ''i''\<rparr>"
  obtain acts w' where j: "js_handle (toy_wire zero_request zero_response) ?h ?m 0 = (acts, w')"
    by (cases "js_handle (toy_wire zero_request zero_response) ?h ?m 0")
  have "\<not> (\<exists>err. unmarshal_req (toy_wire zero_request zero_response) (js_data ?m) = Inl err)"
    by (simp add: toy_wire_def)
  with responders_settle [of "toy_wire zero_request zero_response" ?h ?m 0 "''s''" "[]"] j have "last acts = Ack" by blast
  with j show ?thesis by blast
qed

end
