(* ===== verification/Tracing.thy ===== *)
theory Tracing
  imports Retry
begin

text \<open>
  Distributed tracing of the RPC lab: the provider and the carrier of package \<open>tracing\<close>
  (\<open>clients/internal/rpc/tracing/tracing.go\<close>) and the decorators that put a span around a client
  call and around a handler (\<open>clients/internal/rpc/tracing.go\<close>).

  OpenTelemetry is not part of the repository.  The type \<open>'c\<close> of a context that may carry a span,
  the tracer's \<open>Start\<close>, the propagator and the reading of a trace id are the record \<open>otel\<close>, an
  argument; what the code relies on is the predicate \<open>otel_ok\<close>.  A finished span is appended to the
  list that stands beside the state of everything behind the call.
\<close>

section \<open>The carrier\<close>

type_synonym carrier = "string \<Rightarrow> string option"

definition MapCarrier_Get :: "carrier \<Rightarrow> string \<Rightarrow> string" where
  "MapCarrier_Get c key = (case c key of None \<Rightarrow> '''' | Some v \<Rightarrow> v)"

definition MapCarrier_Set :: "string \<Rightarrow> string \<Rightarrow> carrier \<Rightarrow> carrier" where
  "MapCarrier_Set key val c = c(key \<mapsto> val)"

text \<open>\<open>order\<close> is the order in which the runtime visits the map.\<close>

definition MapCarrier_Keys :: "string list \<Rightarrow> carrier \<Rightarrow> string list" where
  "MapCarrier_Keys order c = foldl (\<lambda>ks k. if c k = None then ks else ks @ [k]) [] order"

text \<open>What a propagator may assume of a \<open>TextMapCarrier\<close>: a field reads back as it was written,
  whatever other fields were written since.\<close>

locale text_map_carrier =
  fixes get :: "'m \<Rightarrow> string \<Rightarrow> string"
    and put :: "string \<Rightarrow> string \<Rightarrow> 'm \<Rightarrow> 'm"
    and empty :: 'm
  assumes get_put_same: "get (put k v c) k = v"
    and get_put_other: "j \<noteq> k \<Longrightarrow> get (put k v c) j = get c j"
    and get_empty: "get empty k = ''''"
begin

lemma get_put_fields:
  "get (foldr (\<lambda>(k, v). put k v) kvs c) j = (case map_of kvs j of Some v \<Rightarrow> v | None \<Rightarrow> get c j)"
proof (induction kvs)
  case (Cons kv kvs)
  then show ?case by (cases kv) (auto simp: get_put_same get_put_other)
qed simp

end

interpretation mc: text_map_carrier MapCarrier_Get MapCarrier_Set Map.empty
  by unfold_locales (simp_all add: MapCarrier_Get_def MapCarrier_Set_def)

lemma foldl_snoc_filter: "foldl (\<lambda>ks k. if P k then ks else ks @ [k]) acc xs = acc @ filter (\<lambda>k. \<not> P k) xs"
  by (induction xs arbitrary: acc) simp_all

lemma Keys_dom:
  assumes "distinct order" and "dom c \<subseteq> set order"
  shows "distinct (MapCarrier_Keys order c)" and "set (MapCarrier_Keys order c) = dom c"
  using assms by (auto simp: MapCarrier_Keys_def foldl_snoc_filter)

section \<open>The provider and the exporter\<close>

datatype tracer_provider = DefaultProvider | NoopProvider | StderrBatcher "(string \<times> string) list"

record otel_globals =
  g_propagator :: bool
  g_provider :: tracer_provider

definition NewProvider :: "string \<Rightarrow> string \<Rightarrow> otel_globals \<Rightarrow> (gerr + tracer_provider) \<times> otel_globals" where
  "NewProvider service mode g =
     (let g1 = g\<lparr>g_propagator := True\<rparr> in
      if mode = '''' \<or> mode = ''off'' \<or> mode = ''none'' then
        (Inr NoopProvider, g1\<lparr>g_provider := NoopProvider\<rparr>)
      else if mode = ''stdout'' \<or> mode = ''stderr'' then
        (let tp = StderrBatcher [(''service.name'', service), (''service.namespace'', ''rpc'')]
         in (Inr tp, g1\<lparr>g_provider := tp\<rparr>))
      else (Inl (Opaque (''tracing: unknown mode '' @ quoted mode @ '' (off|stdout)'')), g1))"

record ro_span =
  ro_trace_id :: string
  ro_span_id :: string
  ro_parent_id :: string
  ro_name :: string
  ro_kind :: string
  ro_start :: timestamp
  ro_end :: timestamp
  ro_status :: string
  ro_attrs :: "(string \<times> string) list"

text \<open>The record of one line; \<open>attrs\<close> is a map, so of two attributes with one key the later one stays.\<close>

record span_rec =
  sr_trace_id :: string
  sr_span_id :: string
  sr_parent_id :: string
  sr_name :: string
  sr_kind :: string
  sr_start :: string
  sr_duration_us :: int
  sr_status :: string
  sr_attrs :: "string \<Rightarrow> string option"

text \<open>\<open>Duration.Microseconds\<close> truncates towards zero.\<close>

definition Microseconds :: "duration \<Rightarrow> int" where
  "Microseconds d = sgn d * (\<bar>d\<bar> div 1000)"

definition span_record :: "(timestamp \<Rightarrow> string) \<Rightarrow> ro_span \<Rightarrow> span_rec" where
  "span_record rfc3339 s =
     \<lparr>sr_trace_id = ro_trace_id s, sr_span_id = ro_span_id s, sr_parent_id = ro_parent_id s,
      sr_name = ro_name s, sr_kind = ro_kind s, sr_start = rfc3339 (ro_start s),
      sr_duration_us = Microseconds (ro_end s - ro_start s), sr_status = ro_status s,
      sr_attrs = foldl (\<lambda>m (k, v). m(k \<mapsto> v)) Map.empty (ro_attrs s)\<rparr>"

text \<open>The lines written to stderr; a span whose record does not marshal is skipped, and the exporter
  never reports an error.\<close>

fun ExportSpans :: "(timestamp \<Rightarrow> string) \<Rightarrow> (span_rec \<Rightarrow> gerr + string) \<Rightarrow> ro_span list \<Rightarrow> string list" where
  "ExportSpans rfc3339 json [] = []"
| "ExportSpans rfc3339 json (s # spans) =
     (case json (span_record rfc3339 s) of
        Inl err \<Rightarrow> ExportSpans rfc3339 json spans
      | Inr b \<Rightarrow> (''span '' @ b) # ExportSpans rfc3339 json spans)"

section \<open>The decorators\<close>

record 'c otel =
  tr_start :: "'c \<Rightarrow> string \<Rightarrow> 'c"
  tr_inject :: "'c \<Rightarrow> carrier \<Rightarrow> carrier"
  tr_extract :: "'c \<Rightarrow> carrier \<Rightarrow> 'c"
  tr_trace_id :: "'c \<Rightarrow> string option"

text \<open>What OpenTelemetry documents: a span started under a context that carries a trace stays in that
  trace, the standard propagator reads back the trace it wrote and leaves the context alone when the
  carrier has nothing for it.\<close>

definition otel_ok :: "'c otel \<Rightarrow> bool" where
  "otel_ok ot \<longleftrightarrow>
     (\<forall>ctx name t. tr_trace_id ot ctx = Some t \<longrightarrow> tr_trace_id ot (tr_start ot ctx name) = Some t) \<and>
     (\<forall>ctx far c t. tr_trace_id ot ctx = Some t \<longrightarrow> tr_trace_id ot (tr_extract ot far (tr_inject ot ctx c)) = Some t) \<and>
     (\<forall>ctx. tr_extract ot ctx Map.empty = ctx)"

record span =
  sp_name :: string
  sp_trace :: "string option"
  sp_attrs :: "(string \<times> string) list"
  sp_error :: "string option"

type_synonym ('c, 'w) traced_call = "'c \<Rightarrow> rpc_request \<Rightarrow> 'w \<times> span list \<Rightarrow> outcome \<times> ('w \<times> span list)"

definition spanName :: "rpc_request \<Rightarrow> string" where
  "spanName req = rq_Service req @ ''.'' @ rq_Method req"

definition reqAttrs :: "rpc_request \<Rightarrow> (string \<times> string) list" where
  "reqAttrs req =
     [(''rpc.system'', ''message-bus-rpc''), (''rpc.service'', rq_Service req), (''rpc.method'', rq_Method req)] @
     (if rq_RequestId req \<noteq> '''' then [(''rpc.request_id'', rq_RequestId req)] else []) @
     (if rq_IdempotencyKey req \<noteq> '''' then [(''rpc.idempotency_key'', rq_IdempotencyKey req)] else [])"

definition recordStatus :: "outcome \<Rightarrow> span \<Rightarrow> span" where
  "recordStatus out sp =
     (case snd out of
        Some e \<Rightarrow>
          sp\<lparr>sp_attrs := sp_attrs sp @ [(''rpc.status'', Status_String (StatusOf (Some e)))], sp_error := Some (Error e)\<rparr>
      | None \<Rightarrow>
          (let st = GetStatus (fst out);
               sp1 = sp\<lparr>sp_attrs := sp_attrs sp @ [(''rpc.status'', Status_String st)]\<rparr>
           in if st \<noteq> STATUS_OK \<and> st \<noteq> STATUS_UNSPECIFIED then sp1\<lparr>sp_error := Some (Status_String st)\<rparr> else sp1))"

definition start_span :: "'c otel \<Rightarrow> 'c \<Rightarrow> rpc_request \<Rightarrow> span" where
  "start_span ot ctx req = \<lparr>sp_name = spanName req, sp_trace = tr_trace_id ot ctx, sp_attrs = reqAttrs req, sp_error = None\<rparr>"

definition TracingClient_Call :: "'c otel \<Rightarrow> ('c, 'w) traced_call \<Rightarrow> ('c, 'w) traced_call" where
  "TracingClient_Call ot call ctx req s =
     (let ctx1 = tr_start ot ctx (spanName req);
          sp = start_span ot ctx1 req;
          req1 = req\<lparr>rq_Metadata := tr_inject ot ctx1 (rq_Metadata req)\<rparr>;
          req2 = (case tr_trace_id ot ctx1 of None \<Rightarrow> req1 | Some t \<Rightarrow> req1\<lparr>rq_TraceId := t\<rparr>);
          (out, (w', sps)) = call ctx1 req2 s
      in (out, (w', sps @ [recordStatus out sp])))"

text \<open>A nil metadata map reads like an empty one, of which the propagator extracts nothing.\<close>

definition TracingHandler_Handle :: "'c otel \<Rightarrow> ('c, 'w) traced_call \<Rightarrow> ('c, 'w) traced_call" where
  "TracingHandler_Handle ot h ctx req s =
     (let ctx0 = tr_extract ot ctx (rq_Metadata req);
          ctx1 = tr_start ot ctx0 (spanName req);
          sp = start_span ot ctx1 req;
          (out, (w', sps)) = h ctx1 req s
      in (out, (w', sps @ [recordStatus out sp])))"

text \<open>A path of the lab: a client, then a number of gateways, each a traced handler that forwards
  with a traced client, and the traced service.  A hop carries the request, not the context: every
  receiving process starts from its own context \<open>far\<close>.\<close>

fun traced_path :: "'c otel \<Rightarrow> 'c \<Rightarrow> nat \<Rightarrow> ('c, 'w) traced_call \<Rightarrow> ('c, 'w) traced_call" where
  "traced_path ot far 0 h = h"
| "traced_path ot far (Suc n) h =
     TracingClient_Call ot (\<lambda>_ req. TracingHandler_Handle ot (traced_path ot far n h) far req)"

text \<open>A handler that traces nothing itself.\<close>

definition untraced :: "('c \<Rightarrow> 'w client_call) \<Rightarrow> ('c, 'w) traced_call" where
  "untraced g ctx req s = (let (out, w') = g ctx req (fst s) in (out, (w', snd s)))"

section \<open>One trace along the path\<close>

lemma otel_ok_start: "otel_ok ot \<Longrightarrow> tr_trace_id ot ctx = Some t \<Longrightarrow> tr_trace_id ot (tr_start ot ctx name) = Some t"
  by (simp add: otel_ok_def)

lemma otel_ok_carried:
  "otel_ok ot \<Longrightarrow> tr_trace_id ot ctx = Some t \<Longrightarrow> tr_trace_id ot (tr_extract ot far (tr_inject ot ctx c)) = Some t"
  by (simp add: otel_ok_def)

lemma recordStatus_simps [simp]:
  "sp_name (recordStatus out sp) = sp_name sp" "sp_trace (recordStatus out sp) = sp_trace sp"
  by (simp_all add: recordStatus_def Let_def split: option.split)

definition outcome_error :: "outcome \<Rightarrow> string option" where
  "outcome_error out =
     (case snd out of
        Some e \<Rightarrow> Some (Error e)
      | None \<Rightarrow> if GetStatus (fst out) \<in> {STATUS_OK, STATUS_UNSPECIFIED} then None else Some (Status_String (GetStatus (fst out))))"

lemma recordStatus_error [simp]: "sp_error sp = None \<Longrightarrow> sp_error (recordStatus out sp) = outcome_error out"
  by (simp add: recordStatus_def outcome_error_def Let_def split: option.split)

lemma start_span_simps [simp]:
  "sp_name (start_span ot ctx req) = spanName req" "sp_trace (start_span ot ctx req) = tr_trace_id ot ctx"
  "sp_error (start_span ot ctx req) = None"
  by (simp_all add: start_span_def)

text \<open>The request as a traced hop sends it.\<close>

definition carried :: "'c otel \<Rightarrow> 'c \<Rightarrow> string \<Rightarrow> rpc_request \<Rightarrow> rpc_request" where
  "carried ot ctx t req = req\<lparr>rq_Metadata := tr_inject ot ctx (rq_Metadata req), rq_TraceId := t\<rparr>"

lemma spanName_carried [simp]: "spanName (carried ot ctx t req) = spanName req"
  by (simp add: carried_def spanName_def)

lemma traced_hop:
  assumes "ctx1 = tr_start ot ctx (spanName req)" and "tr_trace_id ot ctx1 = Some t"
    and "ctx2 = tr_start ot (tr_extract ot far (rq_Metadata (carried ot ctx1 t req))) (spanName req)"
    and "h ctx2 (carried ot ctx1 t req) s = (out, (w', sps))"
  shows "TracingClient_Call ot (\<lambda>_ req. TracingHandler_Handle ot h far req) ctx req s =
    (out, (w', sps @ [recordStatus out (start_span ot ctx2 (carried ot ctx1 t req)), recordStatus out (start_span ot ctx1 req)]))"
  using assms
  by (simp add: TracingClient_Call_def TracingHandler_Handle_def Let_def carried_def spanName_def split: prod.split)

text \<open>The spans a call adds, and what the service is given: one name, one trace and one verdict.\<close>

definition one_trace :: "'c otel \<Rightarrow> string \<Rightarrow> rpc_request \<Rightarrow> outcome \<Rightarrow> span list \<Rightarrow> bool" where
  "one_trace ot t req out sps \<longleftrightarrow>
     list_all (\<lambda>sp. sp_name sp = spanName req \<and> sp_trace sp = Some t \<and> sp_error sp = outcome_error out) sps"

definition same_call :: "rpc_request \<Rightarrow> rpc_request \<Rightarrow> bool" where
  "same_call req req' \<longleftrightarrow> req'\<lparr>rq_Metadata := rq_Metadata req, rq_TraceId := rq_TraceId req\<rparr> = req"

lemma same_call_carried: "same_call (carried ot ctx t req) req' \<Longrightarrow> same_call req req'"
  by (cases req; cases req') (simp add: same_call_def carried_def)

lemma same_call_refl [simp]: "same_call req req" "same_call req (carried ot ctx t req)"
  by (simp_all add: same_call_def carried_def)

lemma one_trace_simps [simp]:
  "one_trace ot t req out []"
  "one_trace ot t req out (xs @ ys) \<longleftrightarrow> one_trace ot t req out xs \<and> one_trace ot t req out ys"
  "one_trace ot t (carried ot' ctx i req) out xs \<longleftrightarrow> one_trace ot t req out xs"
  by (simp_all add: one_trace_def)

lemma one_trace_hop:
  "tr_trace_id ot ctx1 = Some t \<Longrightarrow> tr_trace_id ot ctx2 = Some t \<Longrightarrow>
   one_trace ot t req out [recordStatus out (start_span ot ctx2 (carried ot ctx1 t req)), recordStatus out (start_span ot ctx1 req)]"
  by (simp add: one_trace_def)

lemma traced_step:
  assumes ok: "otel_ok ot" and "tr_trace_id ot (tr_start ot ctx (spanName req)) = Some t"
    and run: "traced_path ot far (Suc n) h ctx req s = (out, (w', sps))"
  obtains ctx1 ctx2 sps2 two where "traced_path ot far n h ctx2 (carried ot ctx1 t req) s = (out, (w', sps2))"
    and "tr_trace_id ot ctx2 = Some t" and "sps = sps2 @ two" and "length two = 2" and "one_trace ot t req out two"
proof -
  define ctx1 where "ctx1 = tr_start ot ctx (spanName req)"
  define ctx2 where "ctx2 = tr_start ot (tr_extract ot far (rq_Metadata (carried ot ctx1 t req))) (spanName req)"
  have t1: "tr_trace_id ot ctx1 = Some t" using assms(2) by (simp add: ctx1_def)
  have t2: "tr_trace_id ot ctx2 = Some t"
    unfolding ctx2_def carried_def by (simp add: otel_ok_start [OF ok] otel_ok_carried [OF ok t1])
  obtain out2 w2 sps2 where inner: "traced_path ot far n h ctx2 (carried ot ctx1 t req) s = (out2, (w2, sps2))"
    by (metis prod.exhaust)
  note hop = traced_hop [where h = "traced_path ot far n h", OF ctx1_def t1 ctx2_def inner]
  show thesis
  proof (rule that)
    show "traced_path ot far n h ctx2 (carried ot ctx1 t req) s = (out, (w', sps2))" using hop run inner by simp
    show "sps = sps2 @ [recordStatus out (start_span ot ctx2 (carried ot ctx1 t req)), recordStatus out (start_span ot ctx1 req)]"
      using hop run by auto
  qed (use t2 one_trace_hop [OF t1 t2] in simp_all)
qed

lemma traced_path_spans:
  assumes ok: "otel_ok ot"
    and "tr_trace_id ot ctx = Some t" and "rq_TraceId req = t"
    and "traced_path ot far n (untraced g) ctx req (w, []) = (out, (w', sps))"
  shows "length sps = 2 * n \<and> one_trace ot t req out sps \<and>
         (\<exists>ctx' req'. g ctx' req' w = (out, w') \<and> tr_trace_id ot ctx' = Some t \<and> rq_TraceId req' = t \<and> same_call req req')"
  using assms(2-4)
proof (induction n arbitrary: ctx req out w' sps)
  case 0
  then show ?case by (auto simp: untraced_def split: prod.splits intro!: exI [of _ ctx] exI [of _ req])
next
  case (Suc n)
  from otel_ok_start [OF ok Suc.prems(1)] traced_step [OF ok _ Suc.prems(3)] obtain ctx1 ctx2 sps2 two
    where "traced_path ot far n (untraced g) ctx2 (carried ot ctx1 t req) (w, []) = (out, (w', sps2))"
      "tr_trace_id ot ctx2 = Some t" "sps = sps2 @ two" "length two = 2" "one_trace ot t req out two" by metis
  with Suc.IH [of ctx2 "carried ot ctx1 t req" out w' sps2] show ?case
    by (auto simp: carried_def [of _ _ _ req] dest: same_call_carried [unfolded carried_def] one_trace_simps(3) [unfolded carried_def, THEN iffD1])
qed

text \<open>A concrete tracer: a context is the trace id it carries, if any, and the propagator writes it
  under the key of the W3C header.\<close>

definition sample_otel :: "string option otel" where
  "sample_otel =
     \<lparr>tr_start = (\<lambda>ctx name. case ctx of None \<Rightarrow> Some ''t1'' | Some t \<Rightarrow> Some t),
      tr_inject = (\<lambda>ctx c. case ctx of None \<Rightarrow> c | Some t \<Rightarrow> MapCarrier_Set ''traceparent'' t c),
      tr_extract = (\<lambda>far c. case c ''traceparent'' of None \<Rightarrow> far | Some t \<Rightarrow> Some t),
      tr_trace_id = (\<lambda>ctx. ctx)\<rparr>"

lemma sample_otel_ok: "otel_ok sample_otel"
  by (simp add: otel_ok_def sample_otel_def MapCarrier_Set_def split: option.split)

section \<open>Properties\<close>



end
