(* ===== verification/Rpcclient.thy ===== *)
theory Rpcclient
  imports Report Service Gateway Bindings Tracing
begin

text \<open>
  The caller side of the RPC lab (\<open>clients/rpc-client/main.go\<close>): the checks of the flags, the choice
  of the transport, the unary and the streamed calls, the report of each response and the exit status.

  The record \<open>client_lib\<close> holds what comes from outside: the protobuf library, the values of
  \<open>uuid.NewString()\<close> and of the clock by call number, the two renderings in JSON, OpenTelemetry and the
  background context.  A dialled client is a value \<open>'k\<close>, its call under a timeout and its stream are
  arguments.  Standard output and the log are lists of lines.
\<close>

section \<open>Flags and transports\<close>

record client_flags =
  f_addr :: string
  f_transport :: string
  f_user :: string
  f_pass :: string
  f_mqttQoS :: int
  f_valkeyPass :: string
  f_service :: string
  f_method :: string
  f_customerID :: string
  f_region :: string
  f_timeout :: duration
  f_idemKey :: string
  f_count :: int
  f_stream :: bool
  f_asJSON :: bool
  f_trace :: string

text \<open>The defaults; the two passwords come from the environment.\<close>

definition client_defaults :: "string \<Rightarrow> string \<Rightarrow> client_flags" where
  "client_defaults rabbit valkey =
     \<lparr>f_addr = ''localhost:9430'', f_transport = ''grpc'', f_user = ''admin'', f_pass = rabbit, f_mqttQoS = 1,
      f_valkeyPass = valkey, f_service = ''customer'', f_method = ''Lookup'',
      f_customerID = ''11111111-1111-1111-1111-111111111111'', f_region = ''us-west-2'', f_timeout = 5 * Second,
      f_idemKey = '''', f_count = 1, f_stream = False, f_asJSON = False, f_trace = ''off''\<rparr>"

text \<open>Which dialer is called and with what.\<close>

datatype dial_target =
    GrpcDial string
  | NatsDial string
  | JetStreamDial string
  | RabbitDial string rabbit_mode
  | MqttDial string "8 word"
  | ValkeyDial string string
  | ValkeyStreamDial string string

definition refuse_stream :: "client_flags \<Rightarrow> string \<Rightarrow> string + dial_target \<Rightarrow> string + dial_target" where
  "refuse_stream f why next =
     (if f_stream f then Inl (''rpc-client: -stream requires -transport grpc ('' @ why @ '')'') else next)"

definition dial_of :: "client_flags \<Rightarrow> string + dial_target" where
  "dial_of f =
     (if f_transport f = ''grpc'' then Inr (GrpcDial (f_addr f))
      else if f_transport f = ''nats'' then
        refuse_stream f ''NATS Core req/reply has no streaming'' (Inr (NatsDial (f_addr f)))
      else if f_transport f = ''natsjs'' then
        refuse_stream f ''JetStream RPC has no streaming'' (Inr (JetStreamDial (f_addr f)))
      else if f_transport f = ''rabbitmq'' then
        refuse_stream f ''RabbitMQ RPC has no streaming''
          (Inr (RabbitDial (rabbit_URL (f_addr f) (f_user f) (f_pass f)) ModeReplyQueue))
      else if f_transport f = ''rabbitmq-direct'' then
        refuse_stream f ''RabbitMQ RPC has no streaming''
          (Inr (RabbitDial (rabbit_URL (f_addr f) (f_user f) (f_pass f)) ModeDirect))
      else if f_transport f = ''mqtt'' then
        refuse_stream f ''MQTT req/reply has no streaming''
          (if f_mqttQoS f < 0 \<or> f_mqttQoS f > 2
           then Inl (''rpc-client: -mqtt-qos must be 0, 1, or 2, got '' @ itoa (f_mqttQoS f))
           else Inr (MqttDial (f_addr f) (word_of_int (f_mqttQoS f))))
      else if f_transport f = ''valkey'' then
        refuse_stream f ''Valkey Pub/Sub req/reply has no streaming'' (Inr (ValkeyDial (f_addr f) (f_valkeyPass f)))
      else if f_transport f = ''valkey-stream'' then
        refuse_stream f ''Valkey Streams req/reply has no gRPC streaming''
          (Inr (ValkeyStreamDial (f_addr f) (f_valkeyPass f)))
      else Inl (''rpc-client: unknown -transport '' @ quoted (f_transport f) @
                '' (grpc|nats|natsjs|rabbitmq|rabbitmq-direct|mqtt|valkey|valkey-stream)''))"

section \<open>Reports\<close>

record customerView =
  cv_CustomerID :: string
  cv_Name :: string
  cv_Email :: string
  cv_AccountIDs :: "string list"

record report =
  rp_Seq :: int
  rp_RequestID :: string
  rp_Status :: string
  rp_ErrorMessage :: string
  rp_Replay :: bool
  rp_RoundTripMS :: rat
  rp_Customer :: "customerView option"

record ('a, 'c) client_lib =
  cl_proto :: "'a service_msg proto_lib"
  cl_uuid :: "int \<Rightarrow> string"
  cl_now :: "int \<Rightarrow> timestamp"
  cl_elapsed :: "int \<Rightarrow> duration"
  cl_json :: "report \<Rightarrow> string"
  cl_protojson :: "rpc_response \<Rightarrow> string"
  cl_otel :: "'c otel"
  cl_background :: 'c

text \<open>The getters of the message just decoded; its type is that of the target, so the last case does
  not arise with a library that decodes into the type it is given.\<close>

fun view_of :: "'a service_msg \<Rightarrow> customerView option" where
  "view_of (CustomerLookupResponse cid name email ids) =
     Some \<lparr>cv_CustomerID = cid, cv_Name = name, cv_Email = email, cv_AccountIDs = ids\<rparr>"
| "view_of _ = None"

text \<open>A nil response reads as the zero response.\<close>

definition newReport ::
  "('a, 'c) client_lib \<Rightarrow> int \<Rightarrow> rpc_request \<Rightarrow> rpc_response option \<Rightarrow> duration \<Rightarrow> report" where
  "newReport lib sq req oresp elapsed =
     (let rsp = (case oresp of None \<Rightarrow> zero_response | Some x \<Rightarrow> x);
          r = \<lparr>rp_Seq = sq, rp_RequestID = rq_RequestId req, rp_Status = Status_String (rs_Status rsp),
               rp_ErrorMessage = rs_ErrorMessage rsp,
               rp_Replay = (rs_Metadata rsp ''idempotent-replay'' = Some ''true''),
               rp_RoundTripMS = fdiv (of_i64 (Microseconds elapsed)) 1000, rp_Customer = None\<rparr>
      in if rs_Status rsp = STATUS_OK \<and> rs_Payload rsp \<noteq> None then
           (case UnpackInto (anypb_UnmarshalTo (cl_proto lib)) (rs_Payload rsp)
                   (Some (CustomerLookupResponse '''' '''' '''' [])) of
              Inr out \<Rightarrow> r\<lparr>rp_Customer := view_of out\<rparr>
            | Inl err \<Rightarrow>
                r\<lparr>rp_ErrorMessage := ''decode payload: '' @ Error err @ '' ('' @ cl_protojson lib rsp @ '')''\<rparr>)
         else r)"

definition report_print :: "report \<Rightarrow> string list" where
  "report_print r =
     [''#'' @ itoa (rp_Seq r) @ '' '' @ rp_Status r @ (if rp_Replay r then '' [idempotent-replay]'' else '''') @
      ''  rtt='' @ FormatFixed (rp_RoundTripMS r) 3 @ ''ms  request_id='' @ rp_RequestID r] @
     (case rp_Customer r of
        None \<Rightarrow> []
      | Some c \<Rightarrow>
          [''    customer_id='' @ cv_CustomerID c @ '' name='' @ quoted (cv_Name c) @ '' email='' @ cv_Email c @
           '' accounts=['' @ Join '' '' (cv_AccountIDs c) @ '']'']) @
     (if rp_ErrorMessage r \<noteq> '''' then [''    error: '' @ rp_ErrorMessage r] else [])"

definition emit :: "('a, 'c) client_lib \<Rightarrow> client_flags \<Rightarrow> report \<Rightarrow> string list" where
  "emit lib f r = (if f_asJSON f then [cl_json lib r] else report_print r)"

section \<open>The calls\<close>

record client_io =
  io_out :: "string list"
  io_log :: "string list"

definition say :: "string list \<Rightarrow> client_io \<Rightarrow> client_io" where
  "say ls io = io\<lparr>io_out := io_out io @ ls\<rparr>"

definition logf :: "string \<Rightarrow> client_io \<Rightarrow> client_io" where
  "logf l io = io\<lparr>io_log := io_log io @ [l]\<rparr>"

definition lookup_payload :: "client_flags \<Rightarrow> 'a service_msg" where
  "lookup_payload f = CustomerLookupRequest (f_customerID f) (f_region f)"

definition client_request :: "('a, 'c) client_lib \<Rightarrow> client_flags \<Rightarrow> int \<Rightarrow> gerr + rpc_request" where
  "client_request lib f i =
     (case NewRequest (anypb_New (cl_proto lib)) (cl_uuid lib i) (cl_now lib i) (f_service f) (f_method f)
             (Some (lookup_payload f)) (f_timeout f) of
        Inl err \<Rightarrow> Inl err
      | Inr req \<Rightarrow> Inr (req\<lparr>rq_IdempotencyKey := f_idemKey f\<rparr>))"

text \<open>One unary call; \<open>cli\<close> is the traced client under the call's timeout.\<close>

definition rpcclient_call ::
  "('a, 'c) client_lib \<Rightarrow> client_flags \<Rightarrow> ('c, 'w) traced_call \<Rightarrow> int \<Rightarrow> client_io \<times> ('w \<times> span list)
   \<Rightarrow> gerr option \<times> (client_io \<times> ('w \<times> span list))" where
  "rpcclient_call lib f cli sq s =
     (case s of (io, w) \<Rightarrow>
        (case client_request lib f sq of
           Inl err \<Rightarrow> (Some err, (logf (''rpc-client: build request: '' @ Error err) io, w))
         | Inr req \<Rightarrow>
             (case cli (cl_background lib) req w of
                ((rsp, Some err), w1) \<Rightarrow>
                  (Some err, (logf (''rpc-client: call #'' @ itoa sq @ '': transport error: '' @ Error err) io, w1))
              | ((rsp, None), w1) \<Rightarrow>
                  (let io1 = say (emit lib f (newReport lib sq req rsp (cl_elapsed lib sq))) io in
                   if GetStatus rsp \<noteq> STATUS_OK then
                     (Some (Opaque (''status '' @ Status_String (GetStatus rsp) @ '': '' @
                        (case rsp of None \<Rightarrow> '''' | Some x \<Rightarrow> rs_ErrorMessage x))), (io1, w1))
                   else (None, (io1, w1))))))"

text \<open>The loop of \<open>main\<close> from call \<open>i\<close> on: a failed call sets the exit status and the loop goes on.\<close>

function call_loop ::
  "('a, 'c) client_lib \<Rightarrow> client_flags \<Rightarrow> ('c, 'w) traced_call \<Rightarrow> int \<Rightarrow> int \<Rightarrow> client_io \<times> ('w \<times> span list)
   \<Rightarrow> int \<times> (client_io \<times> ('w \<times> span list))" where
  "call_loop lib f cli i exit s =
     (if i \<le> f_count f then
        (let (err, s1) = rpcclient_call lib f cli i s
         in call_loop lib f cli (i + 1) (if err = None then exit else 1) s1)
      else (exit, s))"
  by pat_completeness auto

termination
  by (relation "measure (\<lambda>(lib, f, cli, i, exit, s). nat (f_count f + 1 - i))") auto

declare call_loop.simps [simp del]

text \<open>The bidirectional stream: what opening, the \<open>i\<close>-th send and closing return, and what the
  \<open>i\<close>-th receive yields given the requests sent.\<close>

record stream_env =
  se_open :: "gerr option"
  se_send :: "int \<Rightarrow> gerr option"
  se_close :: "gerr option"
  se_recv :: "rpc_request list \<Rightarrow> int \<Rightarrow> gerr + rpc_response"

function send_loop ::
  "('a, 'c) client_lib \<Rightarrow> client_flags \<Rightarrow> stream_env \<Rightarrow> int \<Rightarrow> rpc_request list \<Rightarrow> client_io
   \<Rightarrow> (gerr + rpc_request list) \<times> client_io" where
  "send_loop lib f st i reqs io =
     (if i \<le> f_count f then
        (case client_request lib f i of
           Inl err \<Rightarrow> (Inl err, logf (''rpc-client: build request #'' @ itoa i @ '': '' @ Error err) io)
         | Inr req \<Rightarrow>
             (case se_send st i of
                Some err \<Rightarrow> (Inl err, logf (''rpc-client: stream send #'' @ itoa i @ '': '' @ Error err) io)
              | None \<Rightarrow> send_loop lib f st (i + 1) (reqs @ [req]) io))
      else (Inr reqs, io))"
  by pat_completeness auto

termination
  by (relation "measure (\<lambda>(lib, f, st, i, reqs, io). nat (f_count f + 1 - i))") auto

declare send_loop.simps [simp del]

function recv_loop ::
  "('a, 'c) client_lib \<Rightarrow> client_flags \<Rightarrow> stream_env \<Rightarrow> rpc_request list \<Rightarrow> int \<Rightarrow> bool \<Rightarrow> client_io
   \<Rightarrow> gerr option \<times> client_io" where
  "recv_loop lib f st reqs i failed io =
     (if i \<le> f_count f then
        (case se_recv st reqs i of
           Inl err \<Rightarrow> (Some err, logf (''rpc-client: stream recv #'' @ itoa i @ '': '' @ Error err) io)
         | Inr rsp \<Rightarrow>
             (let report = newReport lib i (zero_request\<lparr>rq_RequestId := rs_RequestId rsp\<rparr>) (Some rsp) (cl_elapsed lib i)
              in recv_loop lib f st reqs (i + 1) (failed \<or> rs_Status rsp \<noteq> STATUS_OK) (say (emit lib f report) io)))
      else (if failed then Some (Opaque ''one or more streamed responses were non-OK'') else None, io))"
  by pat_completeness auto

termination
  by (relation "measure (\<lambda>(lib, f, st, reqs, i, failed, io). nat (f_count f + 1 - i))") auto

declare recv_loop.simps [simp del]

definition rpcclient_callStream ::
  "('a, 'c) client_lib \<Rightarrow> client_flags \<Rightarrow> stream_env \<Rightarrow> client_io \<Rightarrow> gerr option \<times> client_io" where
  "rpcclient_callStream lib f st io =
     (case se_open st of
        Some err \<Rightarrow> (Some err, logf (''rpc-client: open stream: '' @ Error err) io)
      | None \<Rightarrow>
          (case send_loop lib f st 1 [] io of
             (Inl err, io1) \<Rightarrow> (Some err, io1)
           | (Inr reqs, io1) \<Rightarrow>
               (case se_close st of
                  Some err \<Rightarrow> (Some err, logf (''rpc-client: stream close-send: '' @ Error err) io1)
                | None \<Rightarrow> recv_loop lib f st reqs 1 False io1)))"

section \<open>The command\<close>

datatype client_exit = Fatal string | Exit int

text \<open>\<open>dial\<close> is the transport's dialer, \<open>call c d\<close> the dialled client's call under the timeout \<open>d\<close>, and
  \<open>stream c d\<close> the stream it opens.  \<open>log.Fatalf\<close> ends the process with its message.\<close>

definition rpcclient_main ::
  "('a, 'c) client_lib \<Rightarrow> (dial_target \<Rightarrow> gerr + 'k) \<Rightarrow> ('k \<Rightarrow> duration \<Rightarrow> ('c, 'w) traced_call)
   \<Rightarrow> ('k \<Rightarrow> duration \<Rightarrow> stream_env) \<Rightarrow> client_flags \<Rightarrow> otel_globals \<Rightarrow> 'w \<times> span list
   \<Rightarrow> client_exit \<times> (client_io \<times> ('w \<times> span list))" where
  "rpcclient_main lib dial call stream f g w =
     (let io = \<lparr>io_out = [], io_log = []\<rparr> in
      if f_service f \<noteq> ''customer'' \<or> f_method f \<noteq> ''Lookup'' then
        (Fatal (''rpc-client: only customer.Lookup is wired in this phase, got '' @ f_service f @ ''.'' @ f_method f), (io, w))
      else if f_count f < 1 then
        (Fatal (''rpc-client: -count must be >= 1, got '' @ itoa (f_count f)), (io, w))
      else
        (case fst (NewProvider ''rpc-client'' (f_trace f) g) of
           Inl terr \<Rightarrow> (Fatal (''rpc-client: tracing: '' @ Error terr), (io, w))
         | Inr shutdown \<Rightarrow>
             (case dial_of f of
                Inl msg \<Rightarrow> (Fatal msg, (io, w))
              | Inr t \<Rightarrow>
                  (case dial t of
                     Inl err \<Rightarrow>
                       (Fatal (''rpc-client: dial '' @ f_addr f @ '' over '' @ f_transport f @ '': '' @ Error err), (io, w))
                   | Inr c \<Rightarrow>
                       (if f_stream f then
                          (let (err, io1) = rpcclient_callStream lib f (stream c (f_timeout f)) io
                           in (Exit (if err = None then 0 else 1), (io1, w)))
                        else
                          (let (exit, s) = call_loop lib f (TracingClient_Call (cl_otel lib) (call c (f_timeout f))) 1 0 (io, w)
                           in (Exit exit, s)))))))"

section \<open>The service at the other end\<close>

text \<open>The idempotent service as the far end of a client's call: the \<open>n\<close>-th call it serves reads the
  clock as \<open>cks n\<close> says.\<close>

definition idem_service ::
  "'m proto_lib \<Rightarrow> ('m, 'w) mux \<Rightarrow> (nat \<Rightarrow> call_clock) \<Rightarrow> ('c, nat \<times> (idempotency_cache \<times> 'w)) traced_call" where
  "idem_service L m cks =
     untraced (\<lambda>ctx req (n, s). let (r, s1) = idempotent L m (cks n) req s in ((Some r, None), (Suc n, s1)))"

text \<open>Packing a message and decoding it into a message of its type gives the message back.\<close>

fun same_type :: "'a service_msg \<Rightarrow> 'a service_msg \<Rightarrow> bool" where
  "same_type (AllTypes x) (AllTypes y) \<longleftrightarrow> True"
| "same_type (CustomerLookupRequest a b) (CustomerLookupRequest c d) \<longleftrightarrow> True"
| "same_type (CustomerLookupResponse a b c d) (CustomerLookupResponse p q r s) \<longleftrightarrow> True"
| "same_type _ _ \<longleftrightarrow> False"

definition packs :: "'a service_msg proto_lib \<Rightarrow> 'a service_msg \<Rightarrow> bool" where
  "packs L msg \<longleftrightarrow> (\<exists>a. anypb_New L msg = Inr a \<and> (\<forall>t. same_type t msg \<longrightarrow> anypb_UnmarshalTo L a t = Inr msg))"

definition customer_answer :: "client_flags \<Rightarrow> 'a service_msg" where
  "customer_answer f =
     (case fst (customer_handler (lookup_payload f :: 'a service_msg) ()) of Inr (Some msg) \<Rightarrow> msg | _ \<Rightarrow> lookup_payload f)"

lemma customer_handler_answer: "customer_handler (lookup_payload f) w = (Inr (Some (customer_answer f)), w)"
  by (simp add: customer_answer_def customer_handler_def lookup_payload_def Let_def)

text \<open>The report of a call that the service answered.\<close>

definition answer_report :: "('a, 'c) client_lib \<Rightarrow> client_flags \<Rightarrow> int \<Rightarrow> bool \<Rightarrow> report" where
  "answer_report lib f i replay =
     \<lparr>rp_Seq = i, rp_RequestID = cl_uuid lib i, rp_Status = ''STATUS_OK'', rp_ErrorMessage = '''', rp_Replay = replay,
      rp_RoundTripMS = fdiv (of_i64 (Microseconds (cl_elapsed lib i))) 1000,
      rp_Customer = view_of (customer_answer f :: 'a service_msg)\<rparr>"

text \<open>An OK response that carries the answer.\<close>

definition carries :: "'a service_msg proto_lib \<Rightarrow> client_flags \<Rightarrow> rpc_response \<Rightarrow> bool" where
  "carries L f r \<longleftrightarrow> rs_Status r = STATUS_OK \<and> rs_ErrorMessage r = '''' \<and>
     (\<exists>b. rs_Payload r = Some b \<and> anypb_New L (customer_answer f) = Inr b)"

lemma carries_replay_of [simp]: "carries L f (replay_of req r) = carries L f r" "replayed (replay_of req r)"
  by (simp_all add: carries_def replay_of_def replayed_def)

lemma newReport_carries:
  assumes "packs (cl_proto lib) (customer_answer f)" and "carries (cl_proto lib) f r" and "rq_RequestId req = cl_uuid lib i"
  shows "newReport lib i req (Some r) (cl_elapsed lib i) = answer_report lib f i (replayed r)"
proof -
  have "same_type (CustomerLookupResponse '''' '''' '''' []) (customer_answer f :: 'a service_msg)"
    by (simp add: customer_answer_def customer_handler_def lookup_payload_def Let_def)
  with assms show ?thesis
    by (auto simp: newReport_def answer_report_def carries_def packs_def replayed_def UnpackInto_def Let_def)
qed

lemma traced_untraced:
  "\<exists>ctx' req' sp. same_call req req' \<and>
     TracingClient_Call ot (untraced g) ctx req (w, sps) = (fst (g ctx' req' w), (snd (g ctx' req' w), sps @ [sp]))"
proof -
  let ?ctx = "tr_start ot ctx (spanName req)"
  let ?req = "case tr_trace_id ot ?ctx of None \<Rightarrow> req\<lparr>rq_Metadata := tr_inject ot ?ctx (rq_Metadata req)\<rparr>
      | Some t \<Rightarrow> req\<lparr>rq_Metadata := tr_inject ot ?ctx (rq_Metadata req), rq_TraceId := t\<rparr>"
  have "same_call req ?req" by (simp add: same_call_def split: option.split)
  then show ?thesis
    by (intro exI [of _ ?ctx] exI [of _ ?req]) (auto simp: TracingClient_Call_def untraced_def Let_def split: prod.split option.split)
qed

lemma same_call_fields:
  assumes "same_call req req'"
  shows "rq_RequestId req' = rq_RequestId req" "rq_Service req' = rq_Service req" "rq_Method req' = rq_Method req"
    "rq_IdempotencyKey req' = rq_IdempotencyKey req" "rq_Payload req' = rq_Payload req"
  using assms unfolding same_call_def by (cases req; cases req'; simp)+

section \<open>A run against the service\<close>

text \<open>The state of a run: the calls served so far, the cache, the application's state and the spans.\<close>

lemma call_service:
  fixes lib :: "('a, 'x) client_lib"
  assumes "packs (cl_proto lib) (customer_answer f)" and "client_request lib f i = Inr req"
    and "\<And>req'. same_call req req' \<Longrightarrow>
      \<exists>r c1 w1. idempotent (cl_proto lib) m (cks n) req' (c, w) = (r, (c1, w1)) \<and> carries (cl_proto lib) f r \<and>
        replayed r = rep \<and> P c1 w1"
  shows "\<exists>c1 w1 sps1. rpcclient_call lib f (TracingClient_Call ot (idem_service (cl_proto lib) m cks)) i (io, ((n, (c, w)), sps)) =
           (None, (say (emit lib f (answer_report lib f i rep)) io, ((Suc n, (c1, w1)), sps1))) \<and> P c1 w1"
proof -
  define g where "g = (\<lambda>(ctx :: 'x) req (n, s). let (r, s1) = idempotent (cl_proto lib) m (cks n) req s
      in ((Some r, None :: gerr option), (Suc n, s1)))"
  from traced_untraced [of req ot g "cl_background lib" "(n, (c, w))" sps] obtain ctx' req' sp
    where sc: "same_call req req'"
      and run: "TracingClient_Call ot (untraced g) (cl_background lib) req ((n, (c, w)), sps) =
        (fst (g ctx' req' (n, (c, w))), (snd (g ctx' req' (n, (c, w))), sps @ [sp]))" by blast
  from assms(3) [OF sc] obtain r c1 w1 where fact: "idempotent (cl_proto lib) m (cks n) req' (c, w) = (r, (c1, w1))"
      "carries (cl_proto lib) f r" "replayed r = rep" "P c1 w1" by blast
  have g: "g ctx' req' (n, (c, w)) = ((Some r, None), (Suc n, (c1, w1)))"
    using fact by (simp add: g_def)
  have id: "rq_RequestId req = cl_uuid lib i"
    using assms(2) by (auto simp: client_request_def NewRequest_def split: sum.splits if_splits)
  have rep: "newReport lib i req (Some r) (cl_elapsed lib i) = answer_report lib f i rep"
    using newReport_carries [OF assms(1) fact(2) id] fact by simp
  have "rpcclient_call lib f (TracingClient_Call ot (untraced g)) i (io, ((n, (c, w)), sps)) =
      (None, (say (emit lib f (answer_report lib f i rep)) io, ((Suc n, (c1, w1)), sps @ [sp])))"
    using fact by (simp add: rpcclient_call_def assms(2) run g rep GetStatus_def carries_def)
  with fact show ?thesis unfolding idem_service_def g_def by blast
qed

text \<open>While the first answer is remembered every further call reports it as a replay.\<close>

lemma call_loop_replays:
  assumes pk: "packs (cl_proto lib) (customer_answer f)" and req: "\<And>i. \<exists>req. client_request lib f i = Inr req"
    and "carries (cl_proto lib) f r0" and "live T (f_idemKey f) c = Some r0"
    and "\<And>k. n \<le> k \<Longrightarrow> int k < f_count f \<Longrightarrow> t_get (cks k) \<le> T" and "i = int n + 1" and "i \<le> f_count f + 1"
  shows "\<exists>c1 sps1. call_loop lib f (TracingClient_Call ot (idem_service (cl_proto lib) m cks)) i 0 (io, ((n, (c, w)), sps)) =
           (0, (say (concat (map (\<lambda>i. emit lib f (answer_report lib f i True)) [i..f_count f])) io,
                ((nat (f_count f), (c1, w)), sps1)))"
  using assms(4-7)
proof (induction "nat (f_count f + 1 - i)" arbitrary: i n c io sps)
  case 0
  then have "i = f_count f + 1" by simp
  with 0 show ?case by (simp add: call_loop.simps say_def)
next
  case (Suc x)
  then have i: "i \<le> f_count f" by simp
  obtain req where r: "client_request lib f i = Inr req" using req by blast
  have key: "rq_IdempotencyKey req = f_idemKey f"
    using r by (auto simp: client_request_def split: sum.splits)
  have step: "\<exists>r c1 w1. idempotent (cl_proto lib) m (cks n) req' (c, w) = (r, (c1, w1)) \<and>
      carries (cl_proto lib) f r \<and> replayed r = True \<and> (live T (f_idemKey f) c1 = Some r0 \<and> w1 = w)"
    if "same_call req req'" for req'
  proof -
    have k: "rq_IdempotencyKey req' = f_idemKey f" using same_call_fields [OF that] key by simp
    have t: "t_get (cks n) \<le> T" using Suc.prems(2) [of n] Suc.prems(3) i by simp
    from idempotent_replay [of T req' c r0 "cks n" "cl_proto lib" m w, unfolded k, OF Suc.prems(1) t] assms(3)
    show ?thesis by auto
  qed
  from call_service [where cks = cks and n = n and P = "\<lambda>c1 w1. live T (f_idemKey f) c1 = Some r0 \<and> w1 = w", OF pk r step]
  obtain c1 sps1 where one: "rpcclient_call lib f (TracingClient_Call ot (idem_service (cl_proto lib) m cks)) i (io, ((n, (c, w)), sps)) =
      (None, (say (emit lib f (answer_report lib f i True)) io, ((Suc n, (c1, w)), sps1)))" "live T (f_idemKey f) c1 = Some r0"
    by blast
  have "\<exists>c2 sps2. call_loop lib f (TracingClient_Call ot (idem_service (cl_proto lib) m cks)) (i + 1) 0
      (say (emit lib f (answer_report lib f i True)) io, ((Suc n, (c1, w)), sps1)) =
      (0, (say (concat (map (\<lambda>i. emit lib f (answer_report lib f i True)) [i + 1..f_count f])) (say (emit lib f (answer_report lib f i True)) io),
           ((nat (f_count f), (c2, w)), sps2)))"
    using Suc.hyps(1) [of "i + 1" c1 "Suc n"] Suc.hyps(2) Suc.prems one(2) i by auto
  moreover have "[i..f_count f] = i # [i + 1..f_count f]" using i by (simp add: upto_rec1)
  ultimately show ?case
    by (subst call_loop.simps) (simp add: i one say_def)
qed

text \<open>What the run assumes of the library, the routes and the flags.\<close>

definition wired :: "('a, 'c) client_lib \<Rightarrow> client_flags \<Rightarrow> 'a \<Rightarrow> bool \<Rightarrow> ('a service_msg, 'w) mux \<Rightarrow> bool" where
  "wired lib f zero v m \<longleftrightarrow>
     service_mux zero v = Inr m \<and> packs (cl_proto lib) (lookup_payload f) \<and> packs (cl_proto lib) (customer_answer f) \<and>
     protovalidate (cl_proto lib) (lookup_payload f) = None \<and>
     f_service f = ''customer'' \<and> f_method f = ''Lookup'' \<and> f_timeout f > 0 \<and> f_idemKey f \<noteq> ''''"

lemma wired_request:
  assumes "wired lib f zero v m"
  shows "\<exists>req. client_request lib f i = Inr req"
  using assms by (auto simp: wired_def packs_def client_request_def NewRequest_def Pack_def)

lemma wired_first:
  fixes m :: "('a service_msg, 'w) mux"
  assumes "wired lib f zero v m" and "client_request lib f i = Inr req" and "same_call req req'"
    and "d > 0" and "T \<le> t_put ck + d"
  shows "\<exists>r c1 w1. idempotent (cl_proto lib) m ck req' (NewIdempotencyCache d, w) = (r, (c1, w1)) \<and>
           carries (cl_proto lib) f r \<and> replayed r = False \<and> ((\<exists>r0. live T (f_idemKey f) c1 = Some r0 \<and> carries (cl_proto lib) f r0) \<and> w1 = w)"
proof -
  from assms(1) obtain a b where a: "anypb_New (cl_proto lib) (lookup_payload f) = Inr a"
      "\<And>t. same_type t (lookup_payload f) \<Longrightarrow> anypb_UnmarshalTo (cl_proto lib) a t = Inr (lookup_payload f)"
    and b: "anypb_New (cl_proto lib) (customer_answer f) = Inr b" by (auto simp: wired_def packs_def)
  have req: "rq_Service req' = ''customer''" "rq_Method req' = ''Lookup''" "rq_IdempotencyKey req' = f_idemKey f"
      "rq_Payload req' = Some a"
    using assms(1,2) same_call_fields [OF assms(3)] a(1)
    by (auto simp: wired_def client_request_def NewRequest_def Pack_def split: sum.splits if_splits)
  let ?rt = "\<lparr>newReq = CustomerLookupRequest '''' '''', handle = customer_handler\<rparr> :: ('a service_msg, 'w) route"
  have "same_type (CustomerLookupRequest '''' '''') (lookup_payload f :: 'a service_msg)" by (simp add: lookup_payload_def)
  then have adm: "admitted (cl_proto lib) req' m = Some (?rt, lookup_payload f)"
    using assms(1) a(2) req by (auto simp: wired_def service_mux_eq admitted_def muxKey_def UnpackInto_def)
  obtain r where D: "Dispatch (cl_proto lib) (t_stamps ck) req' m w = (r, w)" and c: "carries (cl_proto lib) f r"
    and nr: "\<not> replayed r"
  proof (rule that)
    from Dispatch_admitted [OF adm, of w "Inr (Some (customer_answer f))" w "t_stamps ck"] b
    show "Dispatch (cl_proto lib) (t_stamps ck) req' m w = (fst (Dispatch (cl_proto lib) (t_stamps ck) req' m w), w)"
      "carries (cl_proto lib) f (fst (Dispatch (cl_proto lib) (t_stamps ck) req' m w))"
      by (simp_all add: customer_handler_answer NewResponse_def Pack_def carries_def zero_response_def)
  qed (rule Dispatch_not_replayed)
  have "live (t_get ck) (rq_IdempotencyKey req') (NewIdempotencyCache d) = None"
    by (simp add: NewIdempotencyCache_def)
  from idempotent_miss [OF this D] c nr req assms(1,4,5) show ?thesis
    by (auto simp: carries_def wired_def live_Put NewIdempotencyCache_def)
qed

section \<open>Streamed and unary calls\<close>

text \<open>The server end of the stream, when nothing fails on the way, and the same server behind a
  unary call.\<close>

definition stream_of :: "'w rpc_handler \<Rightarrow> 'w \<Rightarrow> stream_env" where
  "stream_of h w =
     \<lparr>se_open = None, se_send = (\<lambda>_. None), se_close = None,
      se_recv = (\<lambda>reqs i. let rs = fst (CallStream h (map (\<lambda>q. Req q None) reqs @ [EOF]) w) in
                   if 1 \<le> i \<and> i \<le> int (length rs) then Inr (rs ! nat (i - 1)) else Inl (Opaque ''EOF''))\<rparr>"

definition unary_of :: "'w rpc_handler \<Rightarrow> ('c, 'w) traced_call" where
  "unary_of h = untraced (\<lambda>ctx req w. let (r, w1) = handled h req w in ((Some r, None), w1))"

text \<open>With tracing off the propagator writes nothing and spans have no trace.\<close>

definition otel_off :: "'c otel \<Rightarrow> bool" where
  "otel_off ot \<longleftrightarrow> (\<forall>ctx c. tr_inject ot ctx c = c) \<and> (\<forall>ctx. tr_trace_id ot ctx = None)"

lemma unary_off:
  assumes "otel_off ot"
  shows "\<exists>sp. TracingClient_Call ot (unary_of h) ctx req (w, sps) =
           ((Some (fst (handled h req w)), None), (snd (handled h req w), sps @ [sp]))"
proof -
  have "req\<lparr>rq_Metadata := tr_inject ot (tr_start ot ctx (spanName req)) (rq_Metadata req)\<rparr> = req"
    using assms by (simp add: otel_off_def)
  with assms show ?thesis
    by (simp add: TracingClient_Call_def unary_of_def untraced_def otel_off_def Let_def split: prod.split)
qed

definition answers :: "'w rpc_handler \<Rightarrow> rpc_request list \<Rightarrow> 'w \<Rightarrow> rpc_response list" where
  "answers h qs w = fst (CallStream h (map (\<lambda>q. Req q None) qs @ [EOF]) w)"

lemma answers_simps [simp]:
  "answers h [] w = []"
  "answers h (q # qs) w = fst (handled h q w) # answers h qs (snd (handled h q w))"
  by (simp_all add: answers_def split: prod.split)

lemma length_answers [simp]: "length (answers h qs w) = length qs"
  by (induction qs arbitrary: w) simp_all

definition lines_of :: "('a, 'c) client_lib \<Rightarrow> client_flags \<Rightarrow> int \<Rightarrow> rpc_response list \<Rightarrow> string list" where
  "lines_of lib f i rs = concat (map2 (\<lambda>j r. emit lib f (newReport lib j (zero_request\<lparr>rq_RequestId := rs_RequestId r\<rparr>)
     (Some r) (cl_elapsed lib j))) [i..f_count f] rs)"

lemma upto_Cons: "i \<le> j \<Longrightarrow> [i..j] = i # [i + 1..(j :: int)]"
  by (simp add: upto_rec1)

lemma lines_of_Cons:
  "i \<le> f_count f \<Longrightarrow> lines_of lib f i (r # rs) =
     emit lib f (newReport lib i (zero_request\<lparr>rq_RequestId := rs_RequestId r\<rparr>) (Some r) (cl_elapsed lib i)) @ lines_of lib f (i + 1) rs"
  by (simp add: lines_of_def upto_Cons)

lemma say_say [simp]: "say b (say a io) = say (a @ b) io" "say [] io = io"
  by (simp_all add: say_def)

abbreviation all_ok :: "rpc_response list \<Rightarrow> bool" where
  "all_ok \<equiv> list_all (\<lambda>r. rs_Status r = STATUS_OK)"

lemma client_request_stream: "client_request lib (f\<lparr>f_stream := b\<rparr>) i = client_request lib f i"
  by (simp add: client_request_def lookup_payload_def split: sum.split)

lemma lines_of_stream: "lines_of lib (f\<lparr>f_stream := b\<rparr>) = lines_of lib f"
  by (simp add: lines_of_def emit_def fun_eq_iff)

lemma call_loop_unary:
  assumes off: "otel_off ot" and req: "\<And>i. client_request lib f i = Inr (q i)"
    and echo: "\<And>r w. rs_RequestId (fst (handled h r w)) = rq_RequestId r"
  shows "\<exists>w1 sps1. call_loop lib f (TracingClient_Call ot (unary_of h)) i ex (io, (w, sps)) =
           (if all_ok (answers h (map q [i..f_count f]) w) then ex else 1,
            (say (lines_of lib f i (answers h (map q [i..f_count f]) w)) io, (w1, sps1)))"
proof (induction "nat (f_count f + 1 - i)" arbitrary: i ex io w sps)
  case 0
  then show ?case by (simp add: call_loop.simps lines_of_def)
next
  case (Suc x)
  then have i: "i \<le> f_count f" by simp
  let ?r = "fst (handled h (q i) w)" and ?w = "snd (handled h (q i) w)"
  have rep: "newReport lib i (q i) (Some ?r) el = newReport lib i (zero_request\<lparr>rq_RequestId := rs_RequestId ?r\<rparr>) (Some ?r) el" for el
    by (simp add: newReport_def echo Let_def)
  obtain sp where un: "TracingClient_Call ot (unary_of h) (cl_background lib) (q i) (w, sps) = ((Some ?r, None), (?w, sps @ [sp]))"
    using unary_off [OF off, of h "cl_background lib" "q i" w sps] by auto
  have x: "x = nat (f_count f + 1 - (i + 1))" using Suc.hyps(2) by linarith
  from Suc.hyps(1) [OF x, of "if rs_Status ?r = STATUS_OK then ex else 1"
      "say (emit lib f (newReport lib i (q i) (Some ?r) (cl_elapsed lib i))) io" ?w "sps @ [sp]"]
  obtain w1 sps1 where "call_loop lib f (TracingClient_Call ot (unary_of h)) (i + 1) (if rs_Status ?r = STATUS_OK then ex else 1)
      (say (emit lib f (newReport lib i (q i) (Some ?r) (cl_elapsed lib i))) io, (?w, sps @ [sp])) =
    (if all_ok (answers h (map q [i + 1..f_count f]) ?w) then (if rs_Status ?r = STATUS_OK then ex else 1) else 1,
     (say (lines_of lib f (i + 1) (answers h (map q [i + 1..f_count f]) ?w))
        (say (emit lib f (newReport lib i (q i) (Some ?r) (cl_elapsed lib i))) io), (w1, sps1)))" by blast
  then show ?case
    by (subst call_loop.simps)
       (auto simp: i upto_Cons rpcclient_call_def req un GetStatus_def lines_of_Cons rep split: if_splits)
qed

lemma send_loop_all:
  assumes "\<And>i. client_request lib f i = Inr (q i)" and "\<And>i. se_send st i = None"
  shows "send_loop lib f st i reqs io = (Inr (reqs @ map q [i..f_count f]), io)"
proof (induction "nat (f_count f + 1 - i)" arbitrary: i reqs)
  case 0
  then show ?case by (simp add: send_loop.simps)
next
  case (Suc x)
  then show ?case by (subst send_loop.simps) (simp add: assms upto_Cons)
qed

lemma recv_loop_all:
  assumes "\<And>j. 1 \<le> j \<Longrightarrow> j \<le> f_count f \<Longrightarrow> se_recv st reqs j = Inr (rs ! nat (j - 1))"
    and "1 \<le> i" and "int (length rs) = f_count f"
  shows "recv_loop lib f st reqs i failed io =
           (if failed \<or> \<not> all_ok (drop (nat (i - 1)) rs) then Some (Opaque ''one or more streamed responses were non-OK'') else None,
            say (lines_of lib f i (drop (nat (i - 1)) rs)) io)"
  using assms(2)
proof (induction "nat (f_count f + 1 - i)" arbitrary: i failed io)
  case 0
  with assms(3) show ?case by (simp add: recv_loop.simps lines_of_def)
next
  case (Suc x)
  then have i: "i \<le> f_count f" and n: "nat (i - 1) < length rs" "nat i = Suc (nat (i - 1))" using assms(3) by auto
  have d: "drop (nat (i - 1)) rs = rs ! nat (i - 1) # drop (nat i) rs" using n Cons_nth_drop_Suc [of "nat (i - 1)" rs] by simp
  show ?case
    using Suc.hyps(1) [of "i + 1"] Suc.hyps(2) Suc.prems
    by (subst recv_loop.simps) (auto simp: i assms(1) d lines_of_Cons Let_def)
qed

section \<open>A concrete run\<close>

definition sample_flags :: client_flags where
  "sample_flags = (client_defaults '''' '''')\<lparr>f_customerID := ''7f-1'', f_idemKey := ''k'', f_count := 2\<rparr>"

definition sample_client_lib :: "(unit, unit) client_lib" where
  "sample_client_lib =
     \<lparr>cl_proto =
        \<lparr>anypb_New = (\<lambda>msg. case msg of
             CustomerLookupRequest c r \<Rightarrow> Inr \<lparr>TypeUrl = ''req'', AnyValue = []\<rparr>
           | CustomerLookupResponse c n e ids \<Rightarrow> Inr \<lparr>TypeUrl = ''ans'', AnyValue = []\<rparr>
           | AllTypes a \<Rightarrow> Inl (Opaque ''unused'')),
         anypb_UnmarshalTo = (\<lambda>a t. if TypeUrl a = ''req'' then Inr (lookup_payload sample_flags) else Inr (customer_answer sample_flags)),
         protovalidate = (\<lambda>_. None)\<rparr>,
      cl_uuid = (\<lambda>i. if i = 1 then ''u1'' else ''u2''), cl_now = (\<lambda>i. i), cl_elapsed = (\<lambda>_. 0), cl_json = (\<lambda>_. ''{}''),
      cl_protojson = (\<lambda>_. ''{}''),
      cl_otel = \<lparr>tr_start = (\<lambda>ctx name. ctx), tr_inject = (\<lambda>ctx c. c), tr_extract = (\<lambda>ctx c. ctx), tr_trace_id = (\<lambda>ctx. None)\<rparr>,
      cl_background = ()\<rparr>"

definition refusing :: "unit rpc_handler" where
  "refusing req w = (Inl (Sentinel ErrUnavailable), w)"

lemma sample_packs:
  "packs (cl_proto sample_client_lib) (lookup_payload sample_flags)"
  "packs (cl_proto sample_client_lib) (customer_answer sample_flags)"
  by (simp_all add: packs_def sample_client_lib_def lookup_payload_def customer_answer_def customer_handler_def Let_def)

lemma sample_wired:
  assumes "service_mux () True = Inr m"
  shows "wired sample_client_lib sample_flags () True m"
  using assms sample_packs by (simp add: wired_def sample_flags_def client_defaults_def) (simp add: sample_client_lib_def)

lemma sample_client_requests:
  "\<exists>q. \<forall>i. client_request sample_client_lib sample_flags i = Inr (q i)"
  by (rule choice) (simp add: client_request_def NewRequest_def Pack_def sample_client_lib_def sample_flags_def client_defaults_def lookup_payload_def)

section \<open>Properties\<close>

text \<open>C32. The command proves the deduplication of retries.  With an idempotency key, against a service
  whose cache starts empty and keeps the first answer until the last lookup, the run exits with
  status 0 and logs nothing; it prints exactly one report per call, in order, each with the status OK and
  the customer the service computes from the flags; the first report is not marked as a replay and
  every other one is; the application's state is that of one execution.\<close>

theorem client_dedup:
  fixes m :: "('a service_msg, 'w) mux"
  assumes w: "wired lib f zero v m" and "f_count f \<ge> 1" and "\<not> f_stream f" and "f_trace f \<in> {'''', ''off'', ''none'', ''stdout'', ''stderr''}"
    and "dial_of f = Inr t" and "dial t = Inr c" and "call c (f_timeout f) = idem_service (cl_proto lib) m cks"
    and "d > 0" and "T \<le> t_put (cks 0) + d" and "\<forall>n. int n < f_count f \<longrightarrow> t_get (cks n) \<le> T"
  shows "\<exists>c1 sps. rpcclient_main lib dial call stream f g ((0, (NewIdempotencyCache d, x)), []) =
           (Exit 0, (\<lparr>io_out = concat (map (\<lambda>i. emit lib f (answer_report lib f i (i > 1))) [1..f_count f]), io_log = []\<rparr>,
             ((nat (f_count f), (c1, x)), sps)))"
proof -
  let ?cli = "TracingClient_Call (cl_otel lib) (idem_service (cl_proto lib) m cks)"
  let ?io = "\<lparr>io_out = [], io_log = []\<rparr>"
  obtain req where r: "client_request lib f 1 = Inr req" using wired_request [OF w] by blast
  have pk: "packs (cl_proto lib) (customer_answer f)" using w by (simp add: wired_def)
  from call_service [where cks = cks and n = 0 and P = "\<lambda>c1 w1. (\<exists>r0. live T (f_idemKey f) c1 = Some r0 \<and> carries (cl_proto lib) f r0) \<and> w1 = x",
      OF pk r wired_first [OF w r _ assms(8,9)], of "cl_otel lib" ?io "[]"]
  obtain c1 r0 sps1 where one: "rpcclient_call lib f ?cli 1 (?io, ((0, (NewIdempotencyCache d, x)), [])) =
      (None, (say (emit lib f (answer_report lib f 1 False)) ?io, ((Suc 0, (c1, x)), sps1)))"
    and live: "live T (f_idemKey f) c1 = Some r0" and cr: "carries (cl_proto lib) f r0" by blast
  from call_loop_replays [OF pk wired_request [OF w] cr live, of 1 cks 2 "cl_otel lib" m "say (emit lib f (answer_report lib f 1 False)) ?io" x sps1] assms(2,10)
  obtain c2 sps2 where rest: "call_loop lib f ?cli 2 0 (say (emit lib f (answer_report lib f 1 False)) ?io, ((Suc 0, (c1, x)), sps1)) =
      (0, (say (concat (map (\<lambda>i. emit lib f (answer_report lib f i True)) [2..f_count f])) (say (emit lib f (answer_report lib f 1 False)) ?io),
           ((nat (f_count f), (c2, x)), sps2)))" by auto
  have later: "map (\<lambda>i. emit lib f (answer_report lib f i True)) [2..f_count f] = map (\<lambda>i. emit lib f (answer_report lib f i (i > 1))) [2..f_count f]"
    by (rule map_cong) auto
  have "call_loop lib f ?cli 1 0 (?io, ((0, (NewIdempotencyCache d, x)), [])) =
      (0, (say (concat (map (\<lambda>i. emit lib f (answer_report lib f i (i > 1))) [1..f_count f])) ?io, ((nat (f_count f), (c2, x)), sps2)))"
    using assms(2) rest later by (subst call_loop.simps) (simp add: one upto_Cons [of 1])
  with assms(2-7) w show ?thesis
    by (auto simp: rpcclient_main_def NewProvider_def wired_def say_def Let_def)
qed

theorem client_dedup_witness:
  "\<exists>m c1 sps. service_mux () True = Inr m \<and>
     rpcclient_main sample_client_lib (\<lambda>t. Inr ()) (\<lambda>c d. idem_service (cl_proto sample_client_lib) m (\<lambda>_. sample_clock))
       (\<lambda>c d. stream_of refusing ()) sample_flags \<lparr>g_propagator = False, g_provider = DefaultProvider\<rparr>
       ((0, (NewIdempotencyCache Second, 0 :: nat)), []) =
     (Exit 0, (\<lparr>io_out = emit sample_client_lib sample_flags (answer_report sample_client_lib sample_flags 1 False) @
                        emit sample_client_lib sample_flags (answer_report sample_client_lib sample_flags 2 True), io_log = []\<rparr>,
       ((2, (c1, 0)), sps)))"
proof -
  obtain m :: "(unit service_msg, nat) mux" where m: "service_mux () True = Inr m" by (simp add: service_mux_eq)
  let ?call = "\<lambda>(c :: unit) (d :: duration). idem_service (cl_proto sample_client_lib) m (\<lambda>_. sample_clock)"
  have dl: "dial_of sample_flags = Inr (GrpcDial ''localhost:9430'')" by (simp add: dial_of_def sample_flags_def client_defaults_def)
  have "\<exists>c1 sps. rpcclient_main sample_client_lib (\<lambda>t. Inr ()) ?call (\<lambda>c d. stream_of refusing ()) sample_flags
       \<lparr>g_propagator = False, g_provider = DefaultProvider\<rparr> ((0, (NewIdempotencyCache Second, 0 :: nat)), []) =
     (Exit 0, (\<lparr>io_out = concat (map (\<lambda>i. emit sample_client_lib sample_flags (answer_report sample_client_lib sample_flags i (i > 1)))
        [1..f_count sample_flags]), io_log = []\<rparr>, ((nat (f_count sample_flags), (c1, 0)), sps)))"
    by (rule client_dedup [OF sample_wired [OF m] _ _ _ dl, where T = 14 and c = "()" and cks = "\<lambda>_. sample_clock"])
       (simp_all add: sample_flags_def client_defaults_def sample_clock_def)
  moreover have "f_count sample_flags = 2" by (simp add: sample_flags_def)
  ultimately show ?thesis using m by (auto simp: upto_Cons)
qed



end
