(* ===== verification/Transport.thy ===== *)
theory Transport
  imports Clocks Pending
begin

text \<open>
  The benchmark transports (\<open>clients/internal/transport/{nats,rabbitmq,valkey,mqtt}\<close>): requesters and
  responders for the request/response flow, publishers and consumers for the one-way flow, all over
  one codec and one buffer pool.

  The message type, its envelope accessors, the codecs' marshallers, validation and the hash are the
  record \<open>msg_lib\<close>; the pool's operations and the outcome of each library call are arguments.  \<open>None\<close>
  is a panic in the pool.
\<close>

section \<open>What every transport shares\<close>

record 'm msg_lib =
  l_env :: "'m \<Rightarrow> envelope option"
  l_set_env :: "envelope \<Rightarrow> 'm \<Rightarrow> 'm"
  l_hint :: "codec \<Rightarrow> 'm \<Rightarrow> int"
  l_append :: "codec \<Rightarrow> 'm marshaller"
  l_unmarshal :: "codec \<Rightarrow> bytes \<Rightarrow> gerr + 'm"
  l_validate :: "'m \<Rightarrow> gerr option"
  l_sha256 :: "bytes \<Rightarrow> bytes"

record options =
  o_Codec :: codec
  o_Region :: string
  o_Integrity :: bool
  o_Validate :: bool

type_synonym 's pool_get = "nat option \<Rightarrow> int \<Rightarrow> 's \<Rightarrow> (buf \<times> 's) option"
type_synonym 's pool_put = "buf option \<Rightarrow> 's \<Rightarrow> 's"
type_synonym ('m, 'w) handler = "'m \<Rightarrow> 'w \<Rightarrow> (gerr + 'm) \<times> 'w"

definition encode_with ::
  "'m msg_lib \<Rightarrow> 's pool_get \<Rightarrow> 's pool_put \<Rightarrow> codec \<Rightarrow> nat option \<Rightarrow> 'm \<Rightarrow> 's \<Rightarrow> ((gerr + buf) \<times> 's) option" where
  "encode_with L get put c ch m s = Encode get put (l_hint L c) (l_append L c) ch m s"

text \<open>The decode half of every responder and consumer: the message, receive-stamped, and the error.  A
  message that fails validation is returned with the error.\<close>

definition stamp_received :: "'m msg_lib \<Rightarrow> options \<Rightarrow> string \<Rightarrow> timestamp \<Rightarrow> bytes \<Rightarrow> 'm \<Rightarrow> 'm" where
  "stamp_received L opts responderID now body m =
     (case l_env L m of
        None \<Rightarrow> m
      | Some env \<Rightarrow> l_set_env L (StampReceive (l_sha256 L) now responderID body (o_Integrity opts) env) m)"

definition decode_msg ::
  "'m msg_lib \<Rightarrow> options \<Rightarrow> string \<Rightarrow> timestamp \<Rightarrow> codec \<Rightarrow> bytes \<Rightarrow> 'm option \<times> gerr option" where
  "decode_msg L opts responderID now cdc body =
     (case l_unmarshal L cdc body of
        Inl err \<Rightarrow> (None, Some err)
      | Inr m \<Rightarrow>
          (let m1 = stamp_received L opts responderID now body m
           in (Some m1, if o_Validate opts then l_validate L m1 else None)))"

definition stamp_sent :: "'m msg_lib \<Rightarrow> timestamp \<Rightarrow> 'm \<Rightarrow> 'm" where
  "stamp_sent L now m = (case l_env L m of None \<Rightarrow> m | Some env \<Rightarrow> l_set_env L (StampSend now env) m)"

text \<open>One delivery served: decode, handle, stamp, encode.  The result is the reply's bytes, if there is a
  reply, the pool (the reply's buffer put back after it was sent) and the application.\<close>

definition serve_delivery ::
  "'m msg_lib \<Rightarrow> 's pool_get \<Rightarrow> 's pool_put \<Rightarrow> options \<Rightarrow> string \<Rightarrow> timestamp \<Rightarrow> timestamp \<Rightarrow> nat option \<Rightarrow> ('m, 'w) handler
   \<Rightarrow> codec \<Rightarrow> bytes \<Rightarrow> 's \<times> 'w \<Rightarrow> (bytes option \<times> 's \<times> 'w) option" where
  "serve_delivery L get put opts responderID recv snt ch h cdc body st =
     (case st of (s, w) \<Rightarrow>
        (case decode_msg L opts responderID recv cdc body of
           (Some req, None) \<Rightarrow>
             (case h req w of
                (Inl err, w1) \<Rightarrow> Some (None, s, w1)
              | (Inr resp, w1) \<Rightarrow>
                  (case encode_with L get put cdc ch (stamp_sent L snt resp) s of
                     None \<Rightarrow> None
                   | Some (Inl err, s1) \<Rightarrow> Some (None, s1, w1)
                   | Some (Inr out, s1) \<Rightarrow> Some (Some (visible out), put (Some out) s1, w1)))
         | _ \<Rightarrow> Some (None, s, w)))"

section \<open>NATS request-reply\<close>

definition DeploySubject :: "string \<Rightarrow> string" where
  "DeploySubject region = ''wl.'' @ region @ ''.deploy''"

text \<open>\<open>request\<close> is \<open>RequestMsgWithContext\<close> on subject, content type and payload.  The result is the error
  or the decoded response, and the pool.\<close>

definition nats_Request ::
  "'m msg_lib \<Rightarrow> 's pool_get \<Rightarrow> 's pool_put \<Rightarrow> options \<Rightarrow> (string \<Rightarrow> string \<Rightarrow> bytes \<Rightarrow> gerr + bytes) \<Rightarrow> nat option \<Rightarrow> string
   \<Rightarrow> 'm \<Rightarrow> 's \<Rightarrow> ((gerr + 'm) \<times> 's) option" where
  "nats_Request L get put opts request ch region req s =
     (case encode_with L get put (o_Codec opts) ch req s of
        None \<Rightarrow> None
      | Some (Inl err, s1) \<Rightarrow> Some (Inl err, s1)
      | Some (Inr buf, s1) \<Rightarrow>
          (let reply = request (DeploySubject region) (ContentType (Some (o_Codec opts))) (visible buf);
               s2 = put (Some buf) s1
           in case reply of
                Inl err \<Rightarrow> Some (Inl err, s2)
              | Inr data \<Rightarrow> Some (l_unmarshal L (o_Codec opts) data, s2)))"

definition nats_reply ::
  "'m msg_lib \<Rightarrow> 's pool_get \<Rightarrow> 's pool_put \<Rightarrow> options \<Rightarrow> string \<Rightarrow> timestamp \<Rightarrow> timestamp \<Rightarrow> nat option \<Rightarrow> ('m, 'w) handler
   \<Rightarrow> string \<Rightarrow> bytes \<Rightarrow> 's \<times> 'w \<Rightarrow> (bytes option \<times> 's \<times> 'w) option" where
  "nats_reply L get put opts responderID recv snt ch h content_type body st =
     serve_delivery L get put opts responderID recv snt ch h (ByContentType content_type) body st"

section \<open>One-way publishers\<close>

text \<open>What a publish hands to the library: destination, content type (empty where the topic carries the
  codec), payload.\<close>

record published =
  pb_dest :: string
  pb_ct :: string
  pb_body :: bytes

type_synonym 's publish_result = "(published option \<times> gerr option) \<times> 's"

definition TelemetrySubject :: "string \<Rightarrow> string" where
  "TelemetrySubject region = ''wl.'' @ region @ ''.telemetry''"

definition LogsSubject :: "string \<Rightarrow> string \<Rightarrow> string" where
  "LogsSubject region workloadID = ''wl.'' @ region @ ''.logs.'' @ workloadID"

definition TelemetryQueue :: "string \<Rightarrow> string" where
  "TelemetryQueue region = ''wl.telemetry.'' @ region"

definition TelemetryStream :: "string \<Rightarrow> string" where
  "TelemetryStream region = ''wl:'' @ region @ '':telemetry''"

definition Topic :: "string \<Rightarrow> codec option \<Rightarrow> string" where
  "Topic region c =
     ''wl/'' @ region @ ''/telemetry'' @ (if c \<noteq> None \<and> Name (the c) = ''protojson'' then ''/json'' else '''')"

definition jetstream_Publish ::
  "'m msg_lib \<Rightarrow> 's pool_get \<Rightarrow> 's pool_put \<Rightarrow> options \<Rightarrow> gerr option \<Rightarrow> nat option \<Rightarrow> string \<Rightarrow> 'm \<Rightarrow> 's
   \<Rightarrow> 's publish_result option" where
  "jetstream_Publish L get put opts pub_err ch region m s =
     (case encode_with L get put (o_Codec opts) ch m s of
        None \<Rightarrow> None
      | Some (Inl err, s1) \<Rightarrow> Some ((None, Some err), s1)
      | Some (Inr buf, s1) \<Rightarrow>
          Some ((Some \<lparr>pb_dest = TelemetrySubject region, pb_ct = ContentType (Some (o_Codec opts)), pb_body = visible buf\<rparr>,
                 pub_err), put (Some buf) s1))"

definition log_Publish ::
  "'m msg_lib \<Rightarrow> 's pool_get \<Rightarrow> 's pool_put \<Rightarrow> options \<Rightarrow> gerr option \<Rightarrow> nat option \<Rightarrow> string \<Rightarrow> string \<Rightarrow> 'm \<Rightarrow> 's
   \<Rightarrow> 's publish_result option" where
  "log_Publish L get put opts pub_err ch region workloadID m s =
     (case encode_with L get put (o_Codec opts) ch m s of
        None \<Rightarrow> None
      | Some (Inl err, s1) \<Rightarrow> Some ((None, Some err), s1)
      | Some (Inr buf, s1) \<Rightarrow>
          Some ((Some \<lparr>pb_dest = LogsSubject region workloadID, pb_ct = ContentType (Some (o_Codec opts)),
                       pb_body = visible buf\<rparr>, pub_err), put (Some buf) s1))"

definition stream_Publish ::
  "'m msg_lib \<Rightarrow> 's pool_get \<Rightarrow> 's pool_put \<Rightarrow> options \<Rightarrow> gerr option \<Rightarrow> nat option \<Rightarrow> string \<Rightarrow> 'm \<Rightarrow> 's
   \<Rightarrow> 's publish_result option" where
  "stream_Publish L get put opts pub_err ch region m s =
     (case encode_with L get put (o_Codec opts) ch m s of
        None \<Rightarrow> None
      | Some (Inl err, s1) \<Rightarrow> Some ((None, Some err), s1)
      | Some (Inr buf, s1) \<Rightarrow>
          Some ((Some \<lparr>pb_dest = TelemetryStream region, pb_ct = ContentType (Some (o_Codec opts)), pb_body = visible buf\<rparr>,
                 pub_err), put (Some buf) s1))"

text \<open>The quorum publisher waits for the broker's confirmation after the buffer is back in the pool.\<close>

definition quorum_Publish ::
  "'m msg_lib \<Rightarrow> 's pool_get \<Rightarrow> 's pool_put \<Rightarrow> options \<Rightarrow> gerr option \<Rightarrow> (gerr + bool) \<Rightarrow> nat option \<Rightarrow> string \<Rightarrow> 'm \<Rightarrow> 's
   \<Rightarrow> 's publish_result option" where
  "quorum_Publish L get put opts pub_err confirm ch region m s =
     (case encode_with L get put (o_Codec opts) ch m s of
        None \<Rightarrow> None
      | Some (Inl err, s1) \<Rightarrow> Some ((None, Some err), s1)
      | Some (Inr buf, s1) \<Rightarrow>
          (let msg = \<lparr>pb_dest = TelemetryQueue region, pb_ct = ContentType (Some (o_Codec opts)), pb_body = visible buf\<rparr>;
               s2 = put (Some buf) s1
           in case pub_err of
                Some err \<Rightarrow> Some ((Some msg, Some err), s2)
              | None \<Rightarrow>
                  (case confirm of
                     Inl err \<Rightarrow> Some ((Some msg, Some err), s2)
                   | Inr acked \<Rightarrow>
                       (if \<not> acked
                        then Some ((Some msg, Some (Opaque (''rabbitmq: publish nacked (queue '' @ TelemetryQueue region @ '')''))), s2)
                        else Some ((Some msg, None), s2)))))"

text \<open>Paho keeps the payload until its token completes: \<open>flight\<close> is the set of buffers it holds.  \<open>first\<close>
  is what the \<open>select\<close> sees: the context's end, or the completed token's error.\<close>

definition mqtt_Publish ::
  "'m msg_lib \<Rightarrow> 's pool_get \<Rightarrow> 's pool_put \<Rightarrow> options \<Rightarrow> (gerr + gerr option) \<Rightarrow> nat option \<Rightarrow> string \<Rightarrow> 'm
   \<Rightarrow> 's \<times> nat set \<Rightarrow> ((published option \<times> gerr option) \<times> 's \<times> nat set) option" where
  "mqtt_Publish L get put opts first ch region m st =
     (case st of (s, flight) \<Rightarrow>
        (case encode_with L get put (o_Codec opts) ch m s of
           None \<Rightarrow> None
         | Some (Inl err, s1) \<Rightarrow> Some ((None, Some err), s1, flight)
         | Some (Inr buf, s1) \<Rightarrow>
             (let msg = \<lparr>pb_dest = Topic region (Some (o_Codec opts)), pb_ct = '''', pb_body = visible buf\<rparr>;
                  flight1 = insert (bid buf) flight
              in case first of
                   Inl ctx_err \<Rightarrow> Some ((Some msg, Some ctx_err), put (Some buf) s1, flight1)
                 | Inr tok_err \<Rightarrow> Some ((Some msg, tok_err), put (Some buf) s1, flight1 - {bid buf}))))"

section \<open>Request/response over a reply channel of the client's own\<close>

text \<open>\<open>strconv.FormatUint(n, 36)\<close>.\<close>

fun base36 :: "nat \<Rightarrow> string" where
  "base36 n =
     (let d = (char_of (if n mod 36 < 10 then 48 + n mod 36 else 87 + n mod 36) :: char)
      in if n < 36 then [d] else base36 (n div 36) @ [d])"

declare base36.simps [simp del]

text \<open>The requesters of RabbitMQ and Valkey: a counter, the table of waiting channels, the channels'
  contents (capacity one) and the next channel.\<close>

record requester =
  rq_seq :: u64
  rq_pending :: "nat locked_map"
  rq_chans :: "nat \<Rightarrow> bytes list"
  rq_next :: nat

definition new_requester :: requester where
  "new_requester = \<lparr>rq_seq = 0, rq_pending = Map.empty, rq_chans = (\<lambda>_. []), rq_next = 0\<rparr>"

text \<open>One reply dispatched; \<open>None\<close> is a send that blocks.\<close>

definition dispatch_reply :: "string \<times> bytes \<Rightarrow> requester \<Rightarrow> requester option" where
  "dispatch_reply d r =
     (case d of (corr, data) \<Rightarrow>
        (case lm_take corr (rq_pending r) of
           (None, p) \<Rightarrow> Some (r\<lparr>rq_pending := p\<rparr>)
         | (Some ch, p) \<Rightarrow>
             (if rq_chans r ch = [] then Some (r\<lparr>rq_pending := p, rq_chans := (rq_chans r)(ch := [data])\<rparr>) else None)))"

fun rabbitmq_dispatch :: "(string \<times> bytes) list \<Rightarrow> requester \<Rightarrow> requester option" where
  "rabbitmq_dispatch [] r = Some r"
| "rabbitmq_dispatch (d # ds) r = (case dispatch_reply d r of None \<Rightarrow> None | Some r1 \<Rightarrow> rabbitmq_dispatch ds r1)"

definition forget :: "string \<Rightarrow> requester \<Rightarrow> requester" where
  "forget corr r = r\<lparr>rq_pending := lm_forget corr (rq_pending r)\<rparr>"

text \<open>The start of a request: draw an id, make a channel, enter it.\<close>

definition begin_request :: "requester \<Rightarrow> string \<times> nat \<times> requester" where
  "begin_request r =
     (let sq = rq_seq r + 1; corr = base36 (unat sq); ch = rq_next r
      in (corr, ch, r\<lparr>rq_seq := sq, rq_pending := lm_store corr ch (rq_pending r), rq_next := ch + 1,
                     rq_chans := (rq_chans r)(ch := [])\<rparr>))"

text \<open>Its end: the replies dispatched meanwhile, then the \<open>select\<close> (\<open>ctx\<close> the context's error once it is
  done, \<open>prefer\<close> the choice when both are ready).  \<open>None\<close> is waiting forever.\<close>

definition end_request ::
  "(bytes \<Rightarrow> gerr + 'm) \<Rightarrow> (string \<times> bytes) list \<Rightarrow> gerr option \<Rightarrow> bool \<Rightarrow> string \<Rightarrow> nat \<Rightarrow> requester
   \<Rightarrow> ((gerr + 'm) \<times> requester) option" where
  "end_request unmarshal replies ctx prefer corr ch r =
     (case rabbitmq_dispatch replies r of
        None \<Rightarrow> None
      | Some r1 \<Rightarrow>
          (case (rq_chans r1 ch, ctx) of
             ([], None) \<Rightarrow> None
           | ([], Some e) \<Rightarrow> Some (Inl e, forget corr r1)
           | (data # _, None) \<Rightarrow> Some (unmarshal data, r1\<lparr>rq_chans := (rq_chans r1)(ch := [])\<rparr>)
           | (data # _, Some e) \<Rightarrow>
               (if prefer then Some (Inl e, forget corr r1)
                else Some (unmarshal data, r1\<lparr>rq_chans := (rq_chans r1)(ch := [])\<rparr>))))"

record request_env =
  re_pub_err :: "gerr option"
  re_ctx :: "gerr option"
  re_prefer :: bool
  re_replies :: "(string \<times> bytes) list"

text \<open>What a request sends: routing key or stream, content type, correlation id, reply address, body.\<close>

record sent_request =
  sr_dest :: string
  sr_ct :: string
  sr_corr :: string
  sr_reply :: string
  sr_body :: bytes

definition rabbitmq_Request ::
  "'m msg_lib \<Rightarrow> 's pool_get \<Rightarrow> 's pool_put \<Rightarrow> options \<Rightarrow> request_env \<Rightarrow> nat option \<Rightarrow> 'm \<Rightarrow> requester \<times> 's
   \<Rightarrow> ((gerr + 'm) \<times> sent_request option \<times> requester \<times> 's) option" where
  "rabbitmq_Request L get put opts env ch req st =
     (case st of (r, s) \<Rightarrow>
        (let (corr, chan, r1) = begin_request r in
         case encode_with L get put (o_Codec opts) ch req s of
           None \<Rightarrow> None
         | Some (Inl err, s1) \<Rightarrow> Some (Inl err, None, forget corr r1, s1)
         | Some (Inr buf, s1) \<Rightarrow>
             (let msg = \<lparr>sr_dest = ''deploy.'' @ o_Region opts, sr_ct = ContentType (Some (o_Codec opts)), sr_corr = corr,
                         sr_reply = ''amq.rabbitmq.reply-to'', sr_body = visible buf\<rparr>;
                  s2 = put (Some buf) s1
              in case re_pub_err env of
                   Some err \<Rightarrow> Some (Inl err, Some msg, forget corr r1, s2)
                 | None \<Rightarrow>
                     map_option (\<lambda>(res, r2). (res, Some msg, r2, s2))
                       (end_request (l_unmarshal L (o_Codec opts)) (re_replies env) (re_ctx env) (re_prefer env) corr chan r1))))"

definition ReplyStream :: "string \<Rightarrow> string" where
  "ReplyStream clientID = ''wl:reply:'' @ clientID"

definition DeployStream :: "string \<Rightarrow> string" where
  "DeployStream region = ''wl:'' @ region @ '':deploy''"

definition valkey_Request ::
  "'m msg_lib \<Rightarrow> 's pool_get \<Rightarrow> 's pool_put \<Rightarrow> options \<Rightarrow> string \<Rightarrow> request_env \<Rightarrow> nat option \<Rightarrow> 'm \<Rightarrow> requester \<times> 's
   \<Rightarrow> ((gerr + 'm) \<times> sent_request option \<times> requester \<times> 's) option" where
  "valkey_Request L get put opts clientID env ch req st =
     (case st of (r, s) \<Rightarrow>
        (let (corr, chan, r1) = begin_request r in
         case encode_with L get put (o_Codec opts) ch req s of
           None \<Rightarrow> None
         | Some (Inl err, s1) \<Rightarrow> Some (Inl err, None, forget corr r1, s1)
         | Some (Inr buf, s1) \<Rightarrow>
             (let msg = \<lparr>sr_dest = DeployStream (o_Region opts), sr_ct = ContentType (Some (o_Codec opts)), sr_corr = corr,
                         sr_reply = ReplyStream clientID, sr_body = visible buf\<rparr>;
                  s2 = put (Some buf) s1
              in case re_pub_err env of
                   Some err \<Rightarrow> Some (Inl err, Some msg, forget corr r1, s2)
                 | None \<Rightarrow>
                     map_option (\<lambda>(res, r2). (res, Some msg, r2, s2))
                       (end_request (l_unmarshal L (o_Codec opts)) (re_replies env) (re_ctx env) (re_prefer env) corr chan r1))))"

text \<open>A reply: destination, content type, correlation id, body.  Valkey drops a request without a reply
  stream before decoding it.\<close>

definition rabbitmq_reply ::
  "'m msg_lib \<Rightarrow> 's pool_get \<Rightarrow> 's pool_put \<Rightarrow> options \<Rightarrow> string \<Rightarrow> timestamp \<Rightarrow> timestamp \<Rightarrow> nat option \<Rightarrow> ('m, 'w) handler
   \<Rightarrow> sent_request \<Rightarrow> 's \<times> 'w \<Rightarrow> (sent_request option \<times> 's \<times> 'w) option" where
  "rabbitmq_reply L get put opts responderID recv snt ch h d st =
     map_option (\<lambda>(out, st1). (map_option (\<lambda>b. \<lparr>sr_dest = sr_reply d, sr_ct = sr_ct d, sr_corr = sr_corr d, sr_reply = '''', sr_body = b\<rparr>) out, st1))
       (serve_delivery L get put opts responderID recv snt ch h (ByContentType (sr_ct d)) (sr_body d) st)"

definition valkey_reply ::
  "'m msg_lib \<Rightarrow> 's pool_get \<Rightarrow> 's pool_put \<Rightarrow> options \<Rightarrow> string \<Rightarrow> timestamp \<Rightarrow> timestamp \<Rightarrow> nat option \<Rightarrow> ('m, 'w) handler
   \<Rightarrow> sent_request \<Rightarrow> 's \<times> 'w \<Rightarrow> (sent_request option \<times> 's \<times> 'w) option" where
  "valkey_reply L get put opts responderID recv snt ch h d st =
     (if sr_reply d = '''' then Some (None, st)
      else map_option (\<lambda>(out, st1). (map_option (\<lambda>b. \<lparr>sr_dest = sr_reply d, sr_ct = sr_ct d, sr_corr = sr_corr d, sr_reply = '''', sr_body = b\<rparr>) out, st1))
             (serve_delivery L get put opts responderID recv snt ch h (ByContentType (sr_ct d)) (sr_body d) st))"

section \<open>Readers and consumers\<close>

text \<open>Valkey's reply reader: an entry is its id, correlation id and data; a round is what \<open>XREAD\<close> answers
  to the id it is asked from.  Errors of any kind only repeat the round.  The result is the cursor and
  the replies handed to the dispatcher.\<close>

type_synonym reply_entry = "string \<times> string \<times> bytes"

fun valkey_readReplies :: "(string \<Rightarrow> gerr + reply_entry list) list \<Rightarrow> string \<Rightarrow> string \<times> reply_entry list" where
  "valkey_readReplies [] lastID = (lastID, [])"
| "valkey_readReplies (xread # rs) lastID =
     (case xread lastID of
        Inl err \<Rightarrow> valkey_readReplies rs lastID
      | Inr es \<Rightarrow>
          (let (l, out) = valkey_readReplies rs (if es = [] then lastID else fst (last es)) in (l, es @ out)))"

text \<open>A delivery as the consumers see it: codec, payload, redelivery mark, and its id.\<close>

record message =
  mg_id :: string
  mg_codec :: codec
  mg_body :: bytes
  mg_redelivered :: bool

definition NumDelivered :: "(gerr + nat) \<Rightarrow> nat" where
  "NumDelivered md = (case md of Inl err \<Rightarrow> 1 | Inr n \<Rightarrow> if n = 0 then 1 else n)"

definition jetstream_msg :: "string \<Rightarrow> string \<Rightarrow> bytes \<Rightarrow> (gerr + nat) \<Rightarrow> message" where
  "jetstream_msg mid ct body md = \<lparr>mg_id = mid, mg_codec = ByContentType ct, mg_body = body, mg_redelivered = (NumDelivered md > 1)\<rparr>"

definition mqtt_msg :: "string \<Rightarrow> bytes \<Rightarrow> message" where
  "mqtt_msg topic body =
     \<lparr>mg_id = '''', mg_codec = (if HasSuffix topic ''/json'' then ProtoJSON else Proto), mg_body = body, mg_redelivered = False\<rparr>"

text \<open>The pull loop of JetStream: the messages passed on, and how the loop ended if it did.\<close>

fun jetstream_Consume ::
  "(bool \<times> (gerr + message list) \<times> bool) list \<Rightarrow> (bool \<times> gerr option) \<times> message list" where
  "jetstream_Consume [] = ((False, None), [])"
| "jetstream_Consume ((ctx_top, fetched, ctx_later) # its) =
     (if ctx_top then ((True, None), [])
      else (case fetched of
              Inl err \<Rightarrow> (if errors_Is err NatsErrTimeout \<or> ctx_later then jetstream_Consume its else ((True, Some err), []))
            | Inr ms \<Rightarrow> (let (e, out) = jetstream_Consume its in (e, ms @ out))))"

fun quorum_Consume :: "(unit + message option) list \<Rightarrow> bool \<times> message list" where
  "quorum_Consume [] = (False, [])"
| "quorum_Consume (Inl u # its) = (True, [])"
| "quorum_Consume (Inr None # its) = (True, [])"
| "quorum_Consume (Inr (Some m) # its) = (let (e, out) = quorum_Consume its in (e, m # out))"

text \<open>The stream consumer against its consumer group \<open>g\<close>: \<open>read\<close> is \<open>XREADGROUP\<close> from an id, \<open>ack\<close> the
  \<open>XACK\<close> the callback makes for each message it is given.  \<open>ctxs\<close> gives, per iteration, whether the
  context is done at the top and after an error; the callback sees every message, marked as
  redelivered while the backlog is read.\<close>

fun stream_Consume ::
  "(string \<Rightarrow> 'g \<Rightarrow> (gerr + (string \<times> string \<times> bytes) list) \<times> 'g) \<Rightarrow> (string \<Rightarrow> 'g \<Rightarrow> 'g) \<Rightarrow> (bool \<times> bool) list
   \<Rightarrow> bool \<Rightarrow> 'g \<Rightarrow> bool \<times> message list \<times> bool \<times> 'g" where
  "stream_Consume read ack [] pend g = (False, [], pend, g)"
| "stream_Consume read ack ((ctx_top, ctx_later) # its) pend g =
     (if ctx_top then (True, [], pend, g)
      else (case read (if pend then ''0'' else ''>'') g of
              (Inl err, g1) \<Rightarrow>
                (if errors_Is err RedisNil \<or> ctx_later then stream_Consume read ack its False g1
                 else stream_Consume read ack its pend g1)
            | (Inr es, g1) \<Rightarrow>
                (let ms = map (\<lambda>(mid, ct, data). \<lparr>mg_id = mid, mg_codec = ByContentType ct, mg_body = data, mg_redelivered = pend\<rparr>) es;
                     g2 = fold (\<lambda>(mid, ct, data). ack mid) es g1;
                     (e, out, p, g3) = stream_Consume read ack its (pend \<and> es \<noteq> []) g2
                 in (e, ms @ out, p, g3))))"

text \<open>The agent's callbacks: what they record and whether they acknowledge.\<close>

datatype consume_action = Rec measurement | Ack_Msg

definition msg_cell :: "'m msg_lib \<Rightarrow> agent \<Rightarrow> 'm option \<Rightarrow> cell" where
  "msg_cell L a req =
     agent_cell a (case req of None \<Rightarrow> zero_envelope | Some m \<Rightarrow> (case l_env L m of None \<Rightarrow> zero_envelope | Some e \<Rightarrow> e))"

definition consume_durable :: "'m msg_lib \<Rightarrow> agent \<Rightarrow> options \<Rightarrow> timestamp \<Rightarrow> message \<Rightarrow> consume_action list" where
  "consume_durable L a opts now m =
     (let (req, derr) = decode_msg L opts (ag_responderID a) now (mg_codec m) (mg_body m);
          cl = msg_cell L a req
      in [Rec (Message cl ''received'')] @
         (if mg_redelivered m then [Rec (Message cl ''redelivered'')] else []) @
         (case derr of Some e \<Rightarrow> [Rec (ErrorCount cl ''validate''), Ack_Msg] | None \<Rightarrow> [Rec (Message cl ''ok''), Ack_Msg]))"

definition consumeTelemetry :: "'m msg_lib \<Rightarrow> agent \<Rightarrow> options \<Rightarrow> timestamp \<Rightarrow> message \<Rightarrow> consume_action list" where
  "consumeTelemetry L a opts now m =
     (let (req, derr) = decode_msg L opts (ag_responderID a) now (mg_codec m) (mg_body m);
          cl = msg_cell L a req
      in [Rec (Message cl ''received'')] @
         (case derr of Some e \<Rightarrow> [Rec (ErrorCount cl ''validate'')] | None \<Rightarrow> [Rec (Message cl ''ok'')]))"

section \<open>The pool contract across the transports\<close>

text \<open>What the transports rely on from the codecs: size hints are not negative, a marshaller appends the
  codec's encoding, decoding inverts it, and the vtprotobuf profile writes the bytes of the binary one.\<close>

definition lib_ok :: "(codec \<Rightarrow> 'm \<Rightarrow> bytes) \<Rightarrow> 'm msg_lib \<Rightarrow> bool" where
  "lib_ok enc L \<longleftrightarrow>
     (\<forall>c m. 0 \<le> l_hint L c m) \<and> (\<forall>c. appends (enc c) (l_append L c)) \<and>
     (\<forall>c m. l_unmarshal L c (enc c m) = Inr m) \<and> (\<forall>m. enc VT m = enc Proto m)"

lemma lib_ok_negotiated:
  assumes "lib_ok enc L"
  shows "l_unmarshal L (ByContentType (ContentType (Some c))) (enc c m) = Inr m"
    and "l_unmarshal L c (enc (ByContentType (ContentType (Some c))) m) = Inr m"
  using assms by (cases c; simp add: lib_ok_def ByContentType_def ContentType_def; metis)+

context buffer_pool
begin

lemma encode_put:
  assumes "inv s held" and "lib_ok enc L"
  obtains err s1 where "encode_with L get put c ch m s = Some (Inl err, s1)" and "inv s1 held"
  | p s1 where "encode_with L get put c ch m s = Some (Inr p, s1)" and "visible p = enc c m"
      and "inv (put (Some p) s1) held" and "bid p \<notin> held"
proof -
  obtain r s1 where E: "Encode get put (l_hint L c) (l_append L c) ch m s = Some (r, s1)"
    using Encode_total [OF assms(1), of "l_hint L c" m] assms(2) unfolding lib_ok_def by blast
  show thesis
  proof (cases r)
    case (Inl err)
    have "inv s1 held" by (rule Encode_error [OF assms(1) E [unfolded Inl]])
    with E Inl that(1) show thesis by (simp add: encode_with_def)
  next
    case (Inr p)
    have ap: "appends (enc c) (l_append L c)" using assms(2) by (simp add: lib_ok_def)
    have ok: "visible p = enc c m \<and> bid p \<notin> held \<and> inv s1 (insert (bid p) held)"
      using Encode_ok [OF assms(1) ap] E Inr by simp
    then have "inv (put (Some p) s1) held" using put_inv [of s1 "insert (bid p) held" p] by simp
    with E Inr ok that(2) show thesis by (simp add: encode_with_def)
  qed
qed

lemma serve_delivery_spec:
  assumes "inv s held" and "lib_ok enc L"
  shows "\<exists>out s' w'. serve_delivery L get put opts rid rt st ch h cdc body (s, w) = Some (out, s', w') \<and> inv s' held \<and>
           (\<forall>b. out = Some b \<longrightarrow> (\<exists>req resp. decode_msg L opts rid rt cdc body = (Some req, None) \<and>
                h req w = (Inr resp, w') \<and> b = enc cdc (stamp_sent L st resp)))"
proof (cases "decode_msg L opts rid rt cdc body")
  case (Pair x e)
  show ?thesis
  proof (cases "\<exists>req. x = Some req \<and> e = None")
    case True
    then obtain req where req: "decode_msg L opts rid rt cdc body = (Some req, None)" using Pair by blast
    obtain hr w1 where H: "h req w = (hr, w1)" by (cases "h req w")
    show ?thesis
    proof (cases hr)
      case (Inl err)
      with H req assms(1) show ?thesis by (simp add: serve_delivery_def)
    next
      case (Inr resp)
      show ?thesis
        by (rule encode_put [OF assms, of cdc ch "stamp_sent L st resp"])
           (use H Inr req in \<open>auto simp: serve_delivery_def\<close>)
    qed
  next
    case False
    with Pair assms(1) show ?thesis by (auto simp: serve_delivery_def split: option.split)
  qed
qed

lemma publish_spec:
  assumes "inv s held" and "lib_ok enc L"
    and "r \<in> {jetstream_Publish L get put opts perr ch region m s, log_Publish L get put opts perr ch region wid m s,
              stream_Publish L get put opts perr ch region m s, quorum_Publish L get put opts perr conf ch region m s}"
  shows "\<exists>msg err s'. r = Some ((msg, err), s') \<and> inv s' held \<and>
           (\<forall>p. msg = Some p \<longrightarrow> pb_body p = enc (o_Codec opts) m \<and> pb_ct p = ContentType (Some (o_Codec opts)))"
  by (rule encode_put [OF assms(1,2), of "o_Codec opts" ch m])
     (use assms(3) in \<open>auto simp: jetstream_Publish_def log_Publish_def stream_Publish_def quorum_Publish_def
        Let_def split: option.splits sum.splits\<close>)

lemma mqtt_publish_spec:
  assumes "inv s held" and "lib_ok enc L"
  shows "\<exists>msg err s' fl'. mqtt_Publish L get put opts (Inr tok) ch region m (s, fl) = Some ((msg, err), s', fl') \<and> inv s' held \<and>
           fl' \<subseteq> fl \<and> (\<forall>p. msg = Some p \<longrightarrow> pb_body p = enc (o_Codec opts) m \<and> pb_dest p = Topic region (Some (o_Codec opts)))"
  by (rule encode_put [OF assms, of "o_Codec opts" ch m]) (auto simp: mqtt_Publish_def Let_def)

end

section \<open>The requesters' tables\<close>

definition rq_inv :: "requester \<Rightarrow> bool" where
  "rq_inv r \<longleftrightarrow>
     (\<forall>k c. rq_pending r k = Some c \<longrightarrow> c < rq_next r \<and> rq_chans r c = []) \<and>
     (\<forall>j k c. rq_pending r j = Some c \<longrightarrow> rq_pending r k = Some c \<longrightarrow> j = k)"

lemma rq_inv_new: "rq_inv new_requester"
  by (simp add: rq_inv_def new_requester_def)

lemma rq_inv_forget: "rq_inv r \<Longrightarrow> rq_inv (forget corr r) \<and> rq_pending (forget corr r) corr = None"
  by (simp add: rq_inv_def forget_def lm_forget_def)

lemma begin_request_spec:
  assumes "rq_inv r" and "begin_request r = (corr, c, r1)"
  shows "corr = base36 (unat (rq_seq r + 1)) \<and> rq_inv r1 \<and> rq_pending r1 corr = Some c \<and> rq_chans r1 c = [] \<and> c < rq_next r1"
proof -
  have lt: "rq_pending r k = Some c' \<Longrightarrow> c' < rq_next r" for k c' using assms(1) by (simp add: rq_inv_def)
  then have "rq_pending r k \<noteq> Some (rq_next r)" for k by blast
  with assms lt show ?thesis
    by (auto simp: begin_request_def Let_def rq_inv_def lm_store_def less_SucI split: if_splits)
qed

lemma dispatch_reply_spec:
  assumes "rq_inv r"
  shows "\<exists>r1. dispatch_reply (k, b) r = Some r1 \<and> rq_inv r1 \<and> rq_pending r1 = (rq_pending r)(k := None) \<and>
           (\<forall>c. rq_pending r k \<noteq> Some c \<longrightarrow> rq_chans r1 c = rq_chans r c) \<and>
           (\<forall>c. rq_pending r k = Some c \<longrightarrow> rq_chans r1 c = [b])"
proof (cases "rq_pending r k")
  case None
  with assms show ?thesis by (simp add: dispatch_reply_def lm_take_def rq_inv_def)
next
  case (Some c)
  then have "rq_chans r c = []" using assms by (auto simp: rq_inv_def)
  moreover have "rq_inv (r\<lparr>rq_pending := (rq_pending r)(k := None), rq_chans := (rq_chans r)(c := [b])\<rparr>)"
    using assms Some by (auto simp: rq_inv_def)
  ultimately show ?thesis using Some by (auto simp: dispatch_reply_def lm_take_def)
qed

lemma dispatch_settled:
  assumes "rq_inv r" and "\<forall>k. rq_pending r k \<noteq> Some c" and "rq_pending r corr = None"
  shows "\<exists>r'. rabbitmq_dispatch ds r = Some r' \<and> rq_inv r' \<and> (\<forall>k. rq_pending r' k \<noteq> Some c) \<and>
           rq_pending r' corr = None \<and> rq_chans r' c = rq_chans r c"
  using assms
proof (induction ds arbitrary: r)
  case (Cons d ds)
  obtain k b where d: "d = (k, b)" by (cases d)
  obtain r1 where r1: "dispatch_reply d r = Some r1" "rq_inv r1" "rq_pending r1 = (rq_pending r)(k := None)"
    "\<forall>c. rq_pending r k \<noteq> Some c \<longrightarrow> rq_chans r1 c = rq_chans r c"
    using dispatch_reply_spec [OF Cons.prems(1)] d by blast
  with Cons.IH [of r1] Cons.prems show ?case by auto
qed simp

lemma dispatch_waiting:
  assumes "rq_inv r" and "rq_pending r corr = Some c"
  shows "\<exists>r'. rabbitmq_dispatch ds r = Some r' \<and> rq_inv r' \<and>
           (case map_of ds corr of
              None \<Rightarrow> rq_pending r' corr = Some c \<and> rq_chans r' c = []
            | Some data \<Rightarrow> rq_pending r' corr = None \<and> (\<forall>k. rq_pending r' k \<noteq> Some c) \<and> rq_chans r' c = [data])"
  using assms
proof (induction ds arbitrary: r)
  case Nil
  then show ?case by (simp add: rq_inv_def)
next
  case (Cons d ds)
  obtain k b where d: "d = (k, b)" by (cases d)
  show ?case
  proof (cases "k = corr")
    case True
    obtain r1 where r1: "dispatch_reply d r = Some r1" "rq_inv r1" "rq_pending r1 = (rq_pending r)(corr := None)"
      "rq_chans r1 c = [b]"
      using dispatch_reply_spec [OF Cons.prems(1), of corr b] d True Cons.prems(2) by auto
    moreover have "\<forall>k. rq_pending r1 k \<noteq> Some c" using r1(3) Cons.prems by (auto simp: rq_inv_def)
    ultimately show ?thesis using dispatch_settled [of r1 c corr ds] True d by auto
  next
    case False
    obtain r1 where "dispatch_reply d r = Some r1" "rq_inv r1" "rq_pending r1 = (rq_pending r)(k := None)"
      using dispatch_reply_spec [OF Cons.prems(1)] d by blast
    with Cons.IH [of r1] Cons.prems d False show ?thesis by simp
  qed
qed

lemma end_request_spec:
  assumes "rq_inv r" and "rq_pending r corr = Some c"
  shows "case end_request um ds ctx pr corr c r of
           None \<Rightarrow> ctx = None \<and> map_of ds corr = None
         | Some (res, r') \<Rightarrow>
             rq_inv r' \<and> rq_pending r' corr = None \<and>
             (\<forall>x. res = Inr x \<longrightarrow> (\<exists>data. map_of ds corr = Some data \<and> um data = Inr x)) \<and>
             (\<forall>data. map_of ds corr = Some data \<longrightarrow> ctx = None \<longrightarrow> res = um data)"
proof -
  obtain r1 where D: "rabbitmq_dispatch ds r = Some r1" "rq_inv r1"
    and C: "case map_of ds corr of None \<Rightarrow> rq_pending r1 corr = Some c \<and> rq_chans r1 c = []
            | Some data \<Rightarrow> rq_pending r1 corr = None \<and> (\<forall>k. rq_pending r1 k \<noteq> Some c) \<and> rq_chans r1 c = [data]"
    using dispatch_waiting [OF assms, of ds] by blast
  show ?thesis
  proof (cases "map_of ds corr")
    case None
    with C D rq_inv_forget [OF D(2), of corr] show ?thesis by (auto simp: end_request_def split: option.split)
  next
    case (Some data)
    have "rq_inv (r1\<lparr>rq_chans := (rq_chans r1)(c := [])\<rparr>)" using D(2) by (auto simp: rq_inv_def)
    with Some C D rq_inv_forget [OF D(2), of corr] show ?thesis
      by (cases pr) (auto simp: end_request_def split: option.split)
  qed
qed

lemma base36_length: "length (base36 n) = 1 \<longleftrightarrow> n < 36"
  by (subst base36.simps) (auto simp: Let_def base36.simps [of "n div 36"])

lemma digit36_inject:
  assumes "a < 36" and "b < 36"
    and "(char_of (if a < 10 then 48 + a else 87 + a) :: char) = char_of (if b < 10 then 48 + b else 87 + (b :: nat))"
  shows "a = b"
proof -
  have "(if a < 10 then 48 + a else 87 + a) = (if b < 10 then 48 + b else 87 + b)"
    using arg_cong [OF assms(3), of "of_char :: char \<Rightarrow> nat"] assms(1,2) by (simp split: if_splits)
  then show ?thesis using assms(1,2) by (auto split: if_splits)
qed

text \<open>Correlation ids of different counter values differ.\<close>

lemma base36_inject: "base36 m = base36 n \<Longrightarrow> m = n"
proof (induction m arbitrary: n rule: less_induct)
  case (less m)
  have last: "m mod 36 = n mod 36"
    using arg_cong [OF less.prems, of last]
    by (intro digit36_inject) (simp_all add: base36.simps [of m] base36.simps [of n] Let_def split: if_splits)
  have same: "m < 36 \<longleftrightarrow> n < 36" using less.prems base36_length [of m] base36_length [of n] by simp
  show ?case
  proof (cases "m < 36")
    case True
    with last same show ?thesis by simp
  next
    case False
    with same have "base36 (m div 36) = base36 (n div 36)"
      using arg_cong [OF less.prems, of butlast] by (simp add: base36.simps [of m] base36.simps [of n] Let_def)
    with less.IH [of "m div 36"] False have "m div 36 = n div 36" by simp
    with last show ?thesis by (metis div_mod_decomp)
  qed
qed

section \<open>Round trips\<close>

definition lib_total :: "'m msg_lib \<Rightarrow> bool" where
  "lib_total L \<longleftrightarrow> (\<forall>c dst m. \<exists>x. fst (l_append L c dst m) = Inr x)"

context buffer_pool
begin

lemma encode_total:
  assumes "inv s held" and "lib_ok enc L" and "lib_total L"
  obtains p s1 where "encode_with L get put c ch m s = Some (Inr p, s1)" and "visible p = enc c m"
    and "inv (put (Some p) s1) held"
proof (rule encode_put [OF assms(1,2), of c ch m])
  fix err s1 assume "encode_with L get put c ch m s = Some (Inl err, s1)"
  then obtain q s2 where q: "get ch (l_hint L c m) s = Some (q, s2)" and "fst (l_append L c (mem q, 0) m) = Inl err"
    unfolding encode_with_def Encode_def
    by (cases "get ch (l_hint L c m) s"; cases "l_append L c (mem (fst (the (get ch (l_hint L c m) s))), 0) m")
       (auto split: sum.splits)
  moreover obtain x where "fst (l_append L c (mem q, 0) m) = Inr x" using assms(3) unfolding lib_total_def by blast
  ultimately show thesis by simp
qed (use that in blast)

lemma serve_roundtrip:
  assumes "inv s held" and "lib_ok enc L" and "lib_total L"
    and "req' = stamp_received L sopts rid rt (enc c req) req" and "o_Validate sopts \<longrightarrow> l_validate L req' = None"
    and "h req' w = (Inr resp, w')"
  shows "\<exists>s'. serve_delivery L get put sopts rid rt st ch h (ByContentType (ContentType (Some c))) (enc c req) (s, w) =
      Some (Some (enc (ByContentType (ContentType (Some c))) (stamp_sent L st resp)), s', w') \<and> inv s' held"
proof -
  let ?c' = "ByContentType (ContentType (Some c))"
  have D: "decode_msg L sopts rid rt ?c' (enc c req) = (Some req', None)"
    using lib_ok_negotiated(1) [OF assms(2), of c req] assms(4,5) by (simp add: decode_msg_def Let_def)
  obtain p s1 where "encode_with L get put ?c' ch (stamp_sent L st resp) s = Some (Inr p, s1)"
    and "visible p = enc ?c' (stamp_sent L st resp)" and "inv (put (Some p) s1) held"
    by (rule encode_total [OF assms(1-3)])
  with D assms(6) show ?thesis by (simp add: serve_delivery_def)
qed

end

text \<open>A library whose messages are their own encoding.\<close>

definition raw_lib :: "bytes msg_lib" where
  "raw_lib =
     \<lparr>l_env = (\<lambda>_. None), l_set_env = (\<lambda>_ m. m), l_hint = (\<lambda>_ m. int (length m)), l_append = (\<lambda>_. vt_MarshalAppend raw_vt),
      l_unmarshal = (\<lambda>_ b. Inr b), l_validate = (\<lambda>_. None), l_sha256 = (\<lambda>b. b)\<rparr>"

lemma raw_lib_ok: "lib_ok (\<lambda>_ m. m) raw_lib" "lib_total raw_lib"
  using vt_appends [OF raw_vt_fills]
  by (simp_all add: lib_ok_def lib_total_def raw_lib_def) (simp add: vt_MarshalAppend_def raw_vt_def Let_def)

definition raw_opts :: options where
  "raw_opts = \<lparr>o_Codec = VT, o_Region = ''eu'', o_Integrity = True, o_Validate = True\<rparr>"

section \<open>Properties\<close>


text \<open>A small pool to evaluate the properties on.\<close>

lemma small_pool: "\<exists>b. NewBuffers [4, 8] = Inr b \<and> pool_inv b {}"
proof -
  obtain b where b: "NewBuffers [4, 8] = Inr b"
    using NewBuffers_eq(1) [of "[4, 8]"] by (cases "NewBuffers [4, 8]") auto
  with preach_inv [OF preach.start [OF b]] show ?thesis by blast
qed


text \<open>Publishing.  In any state of the shared pool, every one-way publisher (JetStream telemetry and
  logs, Valkey streams, quorum queues, and MQTT when the token completes) returns whatever the broker
  answers, with its buffer back in the pool and none left in flight; what it sent is exactly the
  message's encoding, under a content type or topic from which the consumer decodes that message.\<close>

theorem transport_publish:
  assumes "pool_inv s held" and "lib_ok enc L"
  shows "(\<forall>r \<in> {jetstream_Publish L Buffers_Get Buffers_Put opts perr ch region m s,
                 log_Publish L Buffers_Get Buffers_Put opts perr ch region wid m s,
                 stream_Publish L Buffers_Get Buffers_Put opts perr ch region m s,
                 quorum_Publish L Buffers_Get Buffers_Put opts perr conf ch region m s}.
            \<exists>msg err s'. r = Some ((msg, err), s') \<and> pool_inv s' held \<and>
              (\<forall>p. msg = Some p \<longrightarrow> pb_body p = enc (o_Codec opts) m \<and>
                 l_unmarshal L (ByContentType (pb_ct p)) (pb_body p) = Inr m)) \<and>
         (\<exists>msg err s' fl'. mqtt_Publish L Buffers_Get Buffers_Put opts (Inr tok) ch region m (s, fl) = Some ((msg, err), s', fl') \<and>
            pool_inv s' held \<and> fl' \<subseteq> fl \<and>
            (\<forall>p. msg = Some p \<longrightarrow> pb_body p = enc (o_Codec opts) m \<and>
               l_unmarshal L (mg_codec (mqtt_msg (pb_dest p) (pb_body p))) (pb_body p) = Inr m))"
proof (intro conjI ballI)
  fix r assume r: "r \<in> {jetstream_Publish L Buffers_Get Buffers_Put opts perr ch region m s,
                 log_Publish L Buffers_Get Buffers_Put opts perr ch region wid m s,
                 stream_Publish L Buffers_Get Buffers_Put opts perr ch region m s,
                 quorum_Publish L Buffers_Get Buffers_Put opts perr conf ch region m s}"
  show "\<exists>msg err s'. r = Some ((msg, err), s') \<and> pool_inv s' held \<and>
              (\<forall>p. msg = Some p \<longrightarrow> pb_body p = enc (o_Codec opts) m \<and>
                 l_unmarshal L (ByContentType (pb_ct p)) (pb_body p) = Inr m)"
    using bp.publish_spec [OF assms r] lib_ok_negotiated(1) [OF assms(2)] by fastforce
next
  have "\<not> HasSuffix (''wl/'' @ region @ ''/telemetry'') ''/json''"
    by (auto simp: HasSuffix_def)
  moreover have "HasSuffix (''wl/'' @ region @ ''/telemetry/json'') ''/json''"
    by (simp add: HasSuffix_def)
  ultimately have mc: "mg_codec (mqtt_msg (Topic region (Some c)) b) = (if c = ProtoJSON then ProtoJSON else Proto)" for c b
    by (cases c) (simp_all add: mqtt_msg_def Topic_def)
  have "l_unmarshal L (mg_codec (mqtt_msg (Topic region (Some c)) (enc c m))) (enc c m) = Inr m" for c
    using assms(2) unfolding mc lib_ok_def by (cases c) (simp, simp, metis codec.distinct(1) codec.distinct(5))
  with bp.mqtt_publish_spec [OF assms, of opts tok ch region m fl]
  show "\<exists>msg err s' fl'. mqtt_Publish L Buffers_Get Buffers_Put opts (Inr tok) ch region m (s, fl) = Some ((msg, err), s', fl') \<and>
            pool_inv s' held \<and> fl' \<subseteq> fl \<and>
            (\<forall>p. msg = Some p \<longrightarrow> pb_body p = enc (o_Codec opts) m \<and>
               l_unmarshal L (mg_codec (mqtt_msg (pb_dest p) (pb_body p))) (pb_body p) = Inr m)"
    by fastforce
qed

theorem transport_publish_witness:
  "\<exists>s msg err s'. NewBuffers [4, 8] = Inr s \<and>
     jetstream_Publish raw_lib Buffers_Get Buffers_Put raw_opts None None ''eu'' [1, 2] s = Some ((msg, err), s') \<and> pool_inv s' {}"
proof -
  obtain s where s: "NewBuffers [4, 8] = Inr s" "pool_inv s {}" using small_pool by blast
  from transport_publish [OF s(2) raw_lib_ok(1), of raw_opts None None "''eu''" "[1, 2]" "''w''" "Inr True" None "{}"] s(1)
  show ?thesis by blast
qed

text \<open>C10. Correlated calls.  A request over RabbitMQ or Valkey, whatever replies are dispatched meanwhile
  (to this or other calls, duplicates and strays included): no dispatch blocks; when the call returns
  nothing is left registered under its correlation id, the table is in order and every buffer is back in
  the pool; a response it returns was sent under its own id; and it waits forever only if its context
  never ends and no reply to it comes.\<close>

theorem request_isolated:
  assumes "rq_inv r" and "pool_inv s held" and "lib_ok enc L"
    and "corr = base36 (unat (rq_seq r + 1))"
  shows "\<forall>x \<in> {rabbitmq_Request L Buffers_Get Buffers_Put opts env ch req (r, s),
                valkey_Request L Buffers_Get Buffers_Put opts cid env ch req (r, s)}.
           case x of
             None \<Rightarrow> re_pub_err env = None \<and> re_ctx env = None \<and> map_of (re_replies env) corr = None
           | Some (res, msg, r', s') \<Rightarrow>
               rq_inv r' \<and> rq_pending r' corr = None \<and> pool_inv s' held \<and>
               (\<forall>y. res = Inr y \<longrightarrow>
                  (\<exists>data. (corr, data) \<in> set (re_replies env) \<and> l_unmarshal L (o_Codec opts) data = Inr y))"
proof -
  obtain c r1 where B: "begin_request r = (corr, c, r1)" using assms(4) by (simp add: begin_request_def Let_def)
  note BS = begin_request_spec [OF assms(1) B]
  have inv1: "rq_inv r1" and pend: "rq_pending r1 corr = Some c" using BS by auto
  note ER = end_request_spec [OF inv1 pend, of "re_ctx env" "re_replies env" "l_unmarshal L (o_Codec opts)" "re_prefer env"]
  note F = rq_inv_forget [OF inv1, of corr]
  show ?thesis
  proof (rule bp.encode_put [OF assms(2,3), of "o_Codec opts" ch req])
    fix err s1 assume "encode_with L Buffers_Get Buffers_Put (o_Codec opts) ch req s = Some (Inl err, s1)" "pool_inv s1 held"
    with B F show ?thesis by (simp add: rabbitmq_Request_def valkey_Request_def)
  next
    fix p s1 assume E: "encode_with L Buffers_Get Buffers_Put (o_Codec opts) ch req s = Some (Inr p, s1)"
      and inv: "pool_inv (Buffers_Put (Some p) s1) held"
    show ?thesis
    proof (cases "re_pub_err env")
      case None
      with B E inv ER show ?thesis
        by (auto simp: rabbitmq_Request_def valkey_Request_def split: option.splits) (blast dest: map_of_SomeD)
    next
      case (Some err)
      with B E inv F show ?thesis by (simp add: rabbitmq_Request_def valkey_Request_def)
    qed
  qed
qed

theorem request_isolated_witness:
  "\<exists>s. NewBuffers [4, 8] = Inr s \<and>
     (case rabbitmq_Request raw_lib Buffers_Get Buffers_Put raw_opts
        \<lparr>re_pub_err = None, re_ctx = Some (Sentinel CtxDeadlineExceeded), re_prefer = False, re_replies = [(''zz'', [7])]\<rparr>
        None [1, 2] (new_requester, s) of
        None \<Rightarrow> False | Some (res, msg, r', s') \<Rightarrow> rq_pending r' ''1'' = None)"
proof -
  obtain s where s: "NewBuffers [4, 8] = Inr s" "pool_inv s {}" using small_pool by blast
  have one: "base36 (unat (rq_seq new_requester + 1)) = ''1''" by (simp add: new_requester_def base36.simps) code_simp
  from request_isolated [OF rq_inv_new s(2) raw_lib_ok(1) one [symmetric], of raw_opts
      "\<lparr>re_pub_err = None, re_ctx = Some (Sentinel CtxDeadlineExceeded), re_prefer = False, re_replies = [(''zz'', [7])]\<rparr>"
      None "[1, 2]" "''c''"] s(1)
  show ?thesis by (auto split: option.splits)
qed

text \<open>Cancelling an MQTT publish.  When the context ends before the token completes, the buffer goes back
  to the pool although the client library still holds it, and the next message of the same size class
  can be encoded into that buffer: the packet still in flight then shows the other message's bytes.\<close>

theorem mqtt_cancel_reuse:
  assumes "encode_with L Buffers_Get Buffers_Put (o_Codec opts) ch m s = Some (Inr p, s1)"
    and "SearchInts (classes s1) (cap p) = i" and "i < length (classes s1)" and "classes s1 ! i = cap p" and "i < length (pools s1)"
    and "0 \<le> l_hint L (o_Codec opts) m2" and "classIndex s1 (l_hint L (o_Codec opts) m2) = int i"
    and "fst (l_append L (o_Codec opts) (mem p, 0) m2) = Inr (arr, n)"
  shows "\<exists>s2 fl q s3. mqtt_Publish L Buffers_Get Buffers_Put opts (Inl e) ch region m (s, {}) =
             Some ((Some \<lparr>pb_dest = Topic region (Some (o_Codec opts)), pb_ct = '''', pb_body = visible p\<rparr>, Some e), s2, fl) \<and>
           encode_with L Buffers_Get Buffers_Put (o_Codec opts) (Some 0) m2 s2 = Some (Inr q, s3) \<and>
           bid q \<in> fl \<and> bid q = bid p \<and> mem q = arr"
proof -
  let ?s2 = "Buffers_Put (Some p) s1"
  have s2: "?s2 = s1\<lparr>pools := (pools s1)[i := p\<lparr>blen := 0\<rparr> # pools s1 ! i]\<rparr>"
    using assms(2-4) by (simp add: Buffers_Put_def Let_def)
  have ci: "classIndex ?s2 (l_hint L (o_Codec opts) m2) = int i" using assms(7) s2 by (simp add: classIndex_def)
  have "\<exists>s3. Buffers_Get (Some 0) (l_hint L (o_Codec opts) m2) ?s2 = Some (p\<lparr>blen := nat (l_hint L (o_Codec opts) m2)\<rparr>, s3)"
    using assms(5,6) ci unfolding s2 by (simp add: Buffers_Get_def Let_def sync_pool_Get_def)
  then obtain s3 where G: "Buffers_Get (Some 0) (l_hint L (o_Codec opts) m2) ?s2 = Some (p\<lparr>blen := nat (l_hint L (o_Codec opts) m2)\<rparr>, s3)" by blast
  obtain rest where A: "l_append L (o_Codec opts) (mem p, 0) m2 = (Inr (arr, n), rest)" using assms(8) by (metis prod.collapse)
  have "encode_with L Buffers_Get Buffers_Put (o_Codec opts) (Some 0) m2 ?s2 = Some (Inr (p\<lparr>mem := arr, blen := n\<rparr>), s3)"
    using G A by (simp add: encode_with_def Encode_def)
  moreover have "mqtt_Publish L Buffers_Get Buffers_Put opts (Inl e) ch region m (s, {}) =
      Some ((Some \<lparr>pb_dest = Topic region (Some (o_Codec opts)), pb_ct = '''', pb_body = visible p\<rparr>, Some e), ?s2, {bid p})"
    using assms(1) by (simp add: mqtt_Publish_def)
  ultimately show ?thesis by fastforce
qed

theorem mqtt_cancel_reuse_witness:
  "\<exists>s s2 fl q s3. NewBuffers [4] = Inr s \<and>
     mqtt_Publish raw_lib Buffers_Get Buffers_Put raw_opts (Inl (Sentinel CtxCanceled)) None ''eu'' [1, 2, 3] (s, {}) =
       Some ((Some \<lparr>pb_dest = Topic ''eu'' (Some VT), pb_ct = '''', pb_body = [1, 2, 3]\<rparr>, Some (Sentinel CtxCanceled)), s2, fl) \<and>
     encode_with raw_lib Buffers_Get Buffers_Put VT (Some 0) [9, 9, 9] s2 = Some (Inr q, s3) \<and> bid q \<in> fl \<and> mem q = [9, 9, 9, 0]"
proof -
  let ?s = "\<lparr>classes = [4], pools = [[]], b_hits = [0], b_misses = [0], b_drops = [0], oversizeMiss = 0, oversizeDrop = 0, next_ptr = 0\<rparr>"
  let ?s1 = "?s\<lparr>b_misses := [1], next_ptr := 1\<rparr>" and ?p = "\<lparr>bid = 0, mem = [1, 2, 3, 0], blen = 3\<rparr>"
  have new: "NewBuffers [4] = Inr ?s" by (simp add: NewBuffers_def Let_def dedupe.simps)
  have search: "SearchInts [4] 4 = 0" "SearchInts [4] 3 = 0" by (simp_all add: SearchInts_def search_loop.simps)
  have enc: "encode_with raw_lib Buffers_Get Buffers_Put VT None [1, 2, 3] ?s = Some (Inr ?p, ?s1)"
    by (simp add: encode_with_def Encode_def raw_lib_def raw_vt_def Buffers_Get_def classIndex_def search sync_pool_Get_def
      make_buf_def vt_MarshalAppend_def Let_def numeral_eq_Suc)
  have app: "fst (l_append raw_lib VT (mem ?p, 0) [9, 9, 9]) = Inr ([9, 9, 9, 0], 3)"
    by (simp add: raw_lib_def vt_MarshalAppend_def raw_vt_def Let_def numeral_eq_Suc)
  have hint: "l_hint raw_lib VT [9, 9, 9] = 3" by (simp add: raw_lib_def)
  have vis: "visible ?p = [1, 2, 3]" by (simp add: visible_def)
  from mqtt_cancel_reuse [of raw_lib raw_opts None "[1, 2, 3]" ?s ?p ?s1 0 "[9, 9, 9]" "[9, 9, 9, 0]" 3 "Sentinel CtxCanceled" "''eu''"]
  show ?thesis using new enc app hint vis search by (auto simp: raw_opts_def classIndex_def)
qed

text \<open>The reply reader of the Valkey requester asks from the end of its stream as it is when a read is
  issued.  With a server that answers such a read only with entries added after it was issued, and a read
  from an id only with later entries, nothing that was in the stream when the reader began is ever
  handed on: a reply added before the first read is lost.\<close>

theorem valkey_reader_misses:
  assumes "\<forall>xread \<in> set rounds. \<forall>cursor es. xread cursor = Inr es \<longrightarrow>
             (\<forall>x \<in> set es. (if cursor = ''$'' then start else pos cursor) < pos (fst x))"
    and "pos (fst reply) \<le> (start :: nat)"
  shows "reply \<notin> set (snd (valkey_readReplies rounds ''$''))"
proof -
  have "\<forall>x \<in> set (snd (valkey_readReplies rounds cursor)). start < pos (fst x)" if "cursor = ''$'' \<or> start < pos cursor" for cursor
    using assms(1) that
  proof (induction rounds arbitrary: cursor)
    case (Cons xread rounds)
    show ?case
    proof (cases "xread cursor")
      case (Inl err)
      with Cons show ?thesis by simp
    next
      case (Inr es)
      have "\<forall>x \<in> set es. (if cursor = ''$'' then start else pos cursor) < pos (fst x)" using Cons.prems(1) Inr by simp
      with Cons.prems(2) have new: "\<forall>x \<in> set es. start < pos (fst x)" by (auto split: if_splits)
      then have "es = [] \<or> start < pos (fst (last es))" using last_in_set by blast
      with Cons.prems(2) have cur: "(if es = [] then cursor else fst (last es)) = ''$'' \<or>
          start < pos (if es = [] then cursor else fst (last es))" by auto
      have "\<forall>x \<in> set (snd (valkey_readReplies rounds (if es = [] then cursor else fst (last es)))). start < pos (fst x)"
        by (rule Cons.IH [OF _ cur]) (use Cons.prems(1) in simp)
      with new Inr show ?thesis by (simp add: case_prod_unfold Let_def ball_Un)
    qed
  qed simp
  from this [of "''$''"] assms(2) show ?thesis by auto
qed

theorem valkey_reader_misses_witness:
  "(''a'', ''1'', [5]) \<notin> set (snd (valkey_readReplies
     [\<lambda>cursor. Inl (Sentinel RedisNil), \<lambda>cursor. Inr (if cursor = ''$'' then [(''bb'', ''2'', [6])] else [])] ''$''))"
  by (rule valkey_reader_misses [where start = 1 and pos = length]) auto

section \<open>Draining a backlog\<close>

definition marked :: "bool \<Rightarrow> string \<times> string \<times> bytes \<Rightarrow> message" where
  "marked p = (\<lambda>(mid, ct, data). \<lparr>mg_id = mid, mg_codec = ByContentType ct, mg_body = data, mg_redelivered = p\<rparr>)"

lemma fold_ack:
  assumes "\<forall>g mid. backlog (ack mid g) = filter (\<lambda>e. fst e \<noteq> mid) (backlog g)"
  shows "backlog (fold (\<lambda>(mid, ct, data). ack mid) es g) = filter (\<lambda>e. fst e \<notin> fst ` set es) (backlog g)"
proof (induction es arbitrary: g)
  case (Cons e es)
  have "backlog (ack (fst e) g) = filter (\<lambda>x. fst x \<noteq> fst e) (backlog g)" using assms by blast
  then show ?case using Cons.IH by (cases e) (auto intro!: filter_cong)
qed simp

lemma drop_acked:
  assumes "distinct (map fst xs)"
  shows "filter (\<lambda>e. fst e \<notin> fst ` set (take n xs)) xs = drop n xs"
proof -
  have "set (map fst (take n xs)) \<inter> set (map fst (drop n xs)) = {}"
    using assms distinct_append [of "map fst (take n xs)" "map fst (drop n xs)"] by (simp flip: map_append)
  then have late: "\<forall>e \<in> set (drop n xs). fst e \<notin> fst ` set (take n xs)" unfolding set_map by blast
  have "filter (\<lambda>e. fst e \<notin> fst ` set (take n xs)) (take n xs @ drop n xs) = drop n xs"
    unfolding filter_append using late by (simp add: filter_id_conv filter_empty_conv)
  then show ?thesis by simp
qed

lemma stream_drain:
  assumes "\<forall>g. read ''0'' g = (Inr (take 64 (backlog g)), g)"
    and "\<forall>g mid. backlog (ack mid g) = filter (\<lambda>e. fst e \<noteq> mid) (backlog g)"
    and "distinct (map fst (backlog g))" and "length (backlog g) \<le> 64 * n"
  shows "\<exists>g1 k. backlog g1 = [] \<and> k \<le> n \<and>
           stream_Consume read ack (replicate (n + 1) (False, False) @ its) True g =
             (case stream_Consume read ack (replicate k (False, False) @ its) False g1 of (e, out, p, g2) \<Rightarrow> (e, map (marked True) (backlog g) @ out, p, g2))"
  using assms(3,4)
proof (induction n arbitrary: g)
  case 0
  then show ?case using assms(1) by (intro exI [of _ g] exI [of _ "0 :: nat"]) (simp add: case_prod_unfold Let_def)
next
  case (Suc n)
  show ?case
  proof (cases "backlog g = []")
    case True
    then show ?thesis using assms(1)
      by (intro exI [of _ g] exI [of _ "Suc n"]) (simp add: case_prod_unfold Let_def)
  next
    case False
    let ?es = "take 64 (backlog g)" and ?g = "fold (\<lambda>(mid, ct, data). ack mid) (take 64 (backlog g)) g"
    have rest: "backlog ?g = drop 64 (backlog g)"
      using fold_ack [where backlog = backlog and ack = ack and es = ?es and g = g, OF assms(2)] drop_acked [OF Suc.prems(1)] by simp
    have "distinct (map fst (backlog ?g))" using Suc.prems(1) unfolding rest by (simp add: drop_map [symmetric])
    moreover have "length (backlog ?g) \<le> 64 * n" using Suc.prems(2) unfolding rest by simp
    ultimately obtain g1 k where IH: "backlog g1 = []" "k \<le> n"
      "stream_Consume read ack (replicate (n + 1) (False, False) @ its) True ?g =
         (case stream_Consume read ack (replicate k (False, False) @ its) False g1 of (e, out, p, g2) \<Rightarrow> (e, map (marked True) (backlog ?g) @ out, p, g2))"
      using Suc.IH by blast
    have step: "stream_Consume read ack (replicate (Suc n + 1) (False, False) @ its) True g =
        (case stream_Consume read ack (replicate (n + 1) (False, False) @ its) True ?g of
           (e, out, p, g3) \<Rightarrow> (e, map (marked True) ?es @ out, p, g3))"
      using assms(1) False by (simp add: Let_def marked_def case_prod_unfold)
    have "map (marked True) ?es @ map (marked True) (backlog ?g) = map (marked True) (backlog g)"
      unfolding rest by (simp flip: map_append)
    then show ?thesis using IH step
      by (intro exI [of _ g1] exI [of _ k]) (simp add: case_prod_unfold flip: append_assoc)
  qed
qed

text \<open>The stream consumer after a restart.  With a consumer group that answers a read from zero with the
  first 64 unacknowledged entries, and the agent's callback, which acknowledges every delivery exactly
  once and last whether it decodes or not: within one read more than the backlog needs, the consumer has
  handed on the whole backlog, each entry once and in order, marked as redelivered, has left none
  unacknowledged, and reads new entries from then on.\<close>

theorem stream_consumer_drains:
  assumes "\<forall>g. read ''0'' g = (Inr (take 64 (backlog g)), g)"
    and "\<forall>g mid. backlog (ack mid g) = filter (\<lambda>e. fst e \<noteq> mid) (backlog g)"
    and "distinct (map fst (backlog g))" and "n = (length (backlog g) + 63) div 64"
  shows "(\<exists>g1 k. backlog g1 = [] \<and> k \<le> n \<and>
           stream_Consume read ack (replicate (n + 1) (False, False) @ its) True g =
             (case stream_Consume read ack (replicate k (False, False) @ its) False g1 of (e, out, p, g2) \<Rightarrow>
                (e, map (marked True) (backlog g) @ out, p, g2))) \<and>
         (\<forall>m. last (consume_durable L a opts now m) = Ack_Msg \<and>
              length (filter (\<lambda>x. x = Ack_Msg) (consume_durable L a opts now m)) = 1)"
proof (intro conjI allI)
  show "\<exists>g1 k. backlog g1 = [] \<and> k \<le> n \<and>
           stream_Consume read ack (replicate (n + 1) (False, False) @ its) True g =
             (case stream_Consume read ack (replicate k (False, False) @ its) False g1 of (e, out, p, g2) \<Rightarrow>
                (e, map (marked True) (backlog g) @ out, p, g2))"
    by (rule stream_drain) (use assms in auto)
  fix m
  show "last (consume_durable L a opts now m) = Ack_Msg"
    and "length (filter (\<lambda>x. x = Ack_Msg) (consume_durable L a opts now m)) = 1"
    by (simp_all add: consume_durable_def Let_def split: prod.split option.split)
qed

theorem stream_consumer_drains_witness:
  "\<exists>g1 k. g1 = [] \<and> k \<le> 1 \<and>
     stream_Consume (\<lambda>i g. (Inr (if i = ''0'' then take 64 g else []), g)) (\<lambda>mid. filter (\<lambda>e. fst e \<noteq> mid))
       (replicate 2 (False, False)) True [(''1'', '''', [1]), (''2'', '''', [2])] =
     (case stream_Consume (\<lambda>i g. (Inr (if i = ''0'' then take 64 g else []), g)) (\<lambda>mid. filter (\<lambda>e. fst e \<noteq> mid)) (replicate k (False, False)) False g1 of
        (e, out, p, g2) \<Rightarrow> (e, map (marked True) [(''1'', '''', [1]), (''2'', '''', [2])] @ out, p, g2))"
proof -
  let ?read = "(\<lambda>i g. (Inr (if i = ''0'' then take 64 g else []), g)) ::
      string \<Rightarrow> (string \<times> string \<times> bytes) list \<Rightarrow> (gerr + (string \<times> string \<times> bytes) list) \<times> (string \<times> string \<times> bytes) list"
    and ?ack = "(\<lambda>mid. filter (\<lambda>e. fst e \<noteq> mid)) :: string \<Rightarrow> (string \<times> string \<times> bytes) list \<Rightarrow> (string \<times> string \<times> bytes) list"
    and ?g = "[(''1'', '''', [1]), (''2'', '''', [2])] :: (string \<times> string \<times> bytes) list"
  note D = stream_consumer_drains [where read = ?read and backlog = "\<lambda>g. g" and ack = ?ack and g = ?g and n = 1 and its = "[]", THEN conjunct1]
  have two: "1 + 1 = (2 :: nat)" by simp
  show ?thesis using D unfolding two append_Nil2 by simp
qed

end
