(* ===== verification/Endpoints.thy ===== *)
theory Endpoints
  imports Transport Natsx
begin

text \<open>
  The ends of the benchmark transports: how requesters, responders, publishers and consumers are set up
  over a connection (\<open>clients/internal/transport/*\<close>), the responders' serve loops, the region agent's
  transport-neutral callbacks (\<open>clients/workloads/region-agent/main.go\<close>), and the gRPC codec, method
  table and stats handler (\<open>clients/internal/transport/grpc\<close>).

  A function that acquires resources returns what it leaves open, as in theory \<open>Natsx\<close>; the outcome of
  each library call is an argument.
\<close>

section \<open>Setting up\<close>

text \<open>\<open>info\<close>, \<open>add\<close> and \<open>info2\<close> are the errors of \<open>StreamInfo\<close>, \<open>AddStream\<close> and the second \<open>StreamInfo\<close>.\<close>

definition EnsureStream :: "gerr option \<Rightarrow> gerr option \<Rightarrow> gerr option \<Rightarrow> gerr option" where
  "EnsureStream info add info2 =
     (case info of
        None \<Rightarrow> None
      | Some e \<Rightarrow>
          (if \<not> errors_Is e NatsErrStreamNotFound then Some e
           else (case add of None \<Rightarrow> None | Some err \<Rightarrow> (case info2 of None \<Rightarrow> None | Some e2 \<Rightarrow> Some err))))"

definition EnsureLogsStream :: "gerr option \<Rightarrow> gerr option \<Rightarrow> gerr option \<Rightarrow> gerr option" where
  "EnsureLogsStream info add info2 =
     (case info of
        None \<Rightarrow> None
      | Some e \<Rightarrow>
          (if \<not> errors_Is e NatsErrStreamNotFound then Some e
           else (case add of None \<Rightarrow> None | Some err \<Rightarrow> (case info2 of None \<Rightarrow> None | Some e2 \<Rightarrow> Some err))))"

definition durableName :: "string \<Rightarrow> string" where
  "durableName region = ''AGENT_'' @ region"

definition SubscribeLogs :: "gerr option \<Rightarrow> (gerr + unit) \<times> string list" where
  "SubscribeLogs sub_err = (case sub_err of Some e \<Rightarrow> (Inl e, []) | None \<Rightarrow> (Inr (), [''sub'']))"

definition rabbitmq_NewRequester ::
  "gerr option \<Rightarrow> gerr option \<Rightarrow> gerr option \<Rightarrow> (gerr + requester) \<times> string list" where
  "rabbitmq_NewRequester chan_err exchange_err consume_err =
     (case chan_err of
        Some e \<Rightarrow> (Inl e, [])
      | None \<Rightarrow>
          (case exchange_err of
             Some e \<Rightarrow> (Inl e, remove1 ''ch'' [''ch''])
           | None \<Rightarrow>
               (case consume_err of
                  Some e \<Rightarrow> (Inl e, remove1 ''ch'' [''ch''])
                | None \<Rightarrow> (Inr new_requester, [''ch'', ''dispatch'']))))"

definition RoutingKey :: "string \<Rightarrow> string" where
  "RoutingKey region = ''deploy.'' @ region"

definition rabbitmq_NewResponder ::
  "gerr option \<Rightarrow> gerr option \<Rightarrow> gerr option \<Rightarrow> gerr option \<Rightarrow> (gerr + unit) \<times> string list" where
  "rabbitmq_NewResponder chan_err exchange_err queue_err bind_err =
     (case chan_err of
        Some e \<Rightarrow> (Inl e, [])
      | None \<Rightarrow>
          (case exchange_err of
             Some e \<Rightarrow> (Inl e, remove1 ''ch'' [''ch''])
           | None \<Rightarrow>
               (case queue_err of
                  Some e \<Rightarrow> (Inl e, remove1 ''ch'' [''ch''])
                | None \<Rightarrow>
                    (case bind_err of
                       Some e \<Rightarrow> (Inl e, remove1 ''ch'' [''ch''])
                     | None \<Rightarrow> (Inr (), [''ch''])))))"

definition quorum_NewPublisher ::
  "gerr option \<Rightarrow> gerr option \<Rightarrow> gerr option \<Rightarrow> (gerr + unit) \<times> string list" where
  "quorum_NewPublisher chan_err queue_err confirm_err =
     (case chan_err of
        Some e \<Rightarrow> (Inl e, [])
      | None \<Rightarrow>
          (case queue_err of
             Some e \<Rightarrow> (Inl e, remove1 ''ch'' [''ch''])
           | None \<Rightarrow>
               (case confirm_err of
                  Some e \<Rightarrow> (Inl e, remove1 ''ch'' [''ch''])
                | None \<Rightarrow> (Inr (), [''ch'']))))"

definition quorum_NewConsumer :: "gerr option \<Rightarrow> gerr option \<Rightarrow> (gerr + unit) \<times> string list" where
  "quorum_NewConsumer chan_err queue_err =
     (case chan_err of
        Some e \<Rightarrow> (Inl e, [])
      | None \<Rightarrow>
          (case queue_err of Some e \<Rightarrow> (Inl e, remove1 ''ch'' [''ch'']) | None \<Rightarrow> (Inr (), [''ch''])))"

text \<open>The group may exist already.\<close>

definition valkey_NewResponder :: "gerr option \<Rightarrow> gerr + unit" where
  "valkey_NewResponder group_err =
     (case group_err of None \<Rightarrow> Inr () | Some e \<Rightarrow> if \<not> Contains (Error e) ''BUSYGROUP'' then Inl e else Inr ())"

definition valkey_NewConsumer :: "gerr option \<Rightarrow> gerr + unit" where
  "valkey_NewConsumer group_err =
     (case group_err of None \<Rightarrow> Inr () | Some e \<Rightarrow> if \<not> Contains (Error e) ''BUSYGROUP'' then Inl e else Inr ())"

text \<open>A token is \<open>None\<close> until it completes, then its error; a failed dial leaves the retrying client.\<close>

definition mqtt_transport_Dial :: "string \<Rightarrow> gerr option option \<Rightarrow> (gerr + unit) \<times> string list" where
  "mqtt_transport_Dial addr tok =
     (case tok of
        Some None \<Rightarrow> (Inr (), [''paho''])
      | Some (Some e) \<Rightarrow> (Inl (Wrapf (''mqtt connect '' @ addr @ '': '') e ''''), [''paho''])
      | None \<Rightarrow> (Inl (Opaque (''mqtt connect '' @ addr @ '': %!w(<nil>)'')), [''paho'']))"

text \<open>The messages delivered between the subscription and the end of the context.\<close>

definition mqtt_Consume :: "gerr option option \<Rightarrow> (string \<times> bytes) list \<Rightarrow> gerr option \<times> message list" where
  "mqtt_Consume tok arrived =
     (case tok of
        Some None \<Rightarrow> (None, map (\<lambda>(topic, body). mqtt_msg topic body) arrived)
      | Some (Some e) \<Rightarrow> (Some (Wrapf ''mqtt subscribe: '' e ''''), [])
      | None \<Rightarrow> (Some (Opaque ''mqtt subscribe: %!w(<nil>)''), []))"

section \<open>Serving\<close>

text \<open>The RabbitMQ loop meets the context's end, the channel's end (\<open>Inr None\<close>) or a delivery; \<open>None\<close> is a
  panic in the pool.  The choices of the pool and the clock readings come with each delivery.\<close>

record served =
  sv_recv :: timestamp
  sv_send :: timestamp
  sv_choice :: "nat option"

fun rabbitmq_Serve ::
  "'m msg_lib \<Rightarrow> 's pool_get \<Rightarrow> 's pool_put \<Rightarrow> options \<Rightarrow> string \<Rightarrow> ('m, 'w) handler \<Rightarrow> (unit + (sent_request \<times> served) option) list
   \<Rightarrow> 's \<times> 'w \<Rightarrow> (bool \<times> sent_request list \<times> 's \<times> 'w) option" where
  "rabbitmq_Serve L get put opts rid h [] st = Some (False, [], st)"
| "rabbitmq_Serve L get put opts rid h (Inl u # its) st = Some (True, [], st)"
| "rabbitmq_Serve L get put opts rid h (Inr None # its) st = Some (True, [], st)"
| "rabbitmq_Serve L get put opts rid h (Inr (Some (d, sv)) # its) st =
     (case rabbitmq_reply L get put opts rid (sv_recv sv) (sv_send sv) (sv_choice sv) h d st of
        None \<Rightarrow> None
      | Some (out, st1) \<Rightarrow>
          map_option (\<lambda>(e, outs, st2). (e, (case out of None \<Rightarrow> outs | Some x \<Rightarrow> x # outs), st2))
            (rabbitmq_Serve L get put opts rid h its st1))"

text \<open>The Valkey loop acknowledges each entry after serving it, whether it was answered or not; the result
  holds the replies and the acknowledged ids in order.\<close>

datatype serve_action = Replied sent_request | Acked string

fun valkey_batch ::
  "'m msg_lib \<Rightarrow> 's pool_get \<Rightarrow> 's pool_put \<Rightarrow> options \<Rightarrow> string \<Rightarrow> ('m, 'w) handler \<Rightarrow> (string \<times> sent_request \<times> served) list
   \<Rightarrow> 's \<times> 'w \<Rightarrow> (serve_action list \<times> 's \<times> 'w) option" where
  "valkey_batch L get put opts rid h [] st = Some ([], st)"
| "valkey_batch L get put opts rid h ((mid, d, sv) # es) st =
     (case valkey_reply L get put opts rid (sv_recv sv) (sv_send sv) (sv_choice sv) h d st of
        None \<Rightarrow> None
      | Some (out, st1) \<Rightarrow>
          map_option (\<lambda>(acts, st2). ((case out of None \<Rightarrow> [] | Some x \<Rightarrow> [Replied x]) @ Acked mid # acts, st2))
            (valkey_batch L get put opts rid h es st1))"

fun valkey_transport_Serve ::
  "'m msg_lib \<Rightarrow> 's pool_get \<Rightarrow> 's pool_put \<Rightarrow> options \<Rightarrow> string \<Rightarrow> ('m, 'w) handler
   \<Rightarrow> (bool \<times> (gerr + (string \<times> sent_request \<times> served) list)) list \<Rightarrow> 's \<times> 'w \<Rightarrow> (bool \<times> serve_action list \<times> 's \<times> 'w) option" where
  "valkey_transport_Serve L get put opts rid h [] st = Some (False, [], st)"
| "valkey_transport_Serve L get put opts rid h ((ctx_top, got) # its) st =
     (if ctx_top then Some (True, [], st)
      else (case got of
              Inl err \<Rightarrow> valkey_transport_Serve L get put opts rid h its st
            | Inr es \<Rightarrow>
                (case valkey_batch L get put opts rid h es st of
                   None \<Rightarrow> None
                 | Some (acts, st1) \<Rightarrow>
                     map_option (\<lambda>(e, acts2, st2). (e, acts @ acts2, st2))
                       (valkey_transport_Serve L get put opts rid h its st1))))"

section \<open>The agent's callbacks\<close>

text \<open>\<open>deployHandler\<close> on a request that is a deployment (envelope and reference) or something else.\<close>

datatype 'r deploy_message = DeployRequest "envelope option" 'r | Other_message string

definition deployHandler ::
  "agent \<Rightarrow> 'r deploy_message \<Rightarrow> (gerr + (envelope option \<times> 'r \<times> string \<times> string \<times> nat)) \<times> measurement list" where
  "deployHandler a req =
     (case req of
        Other_message tn \<Rightarrow> (Inl (Opaque (''deployHandler: unexpected '' @ tn)), [])
      | DeployRequest env ref \<Rightarrow>
          (let cl = agent_cell a (case env of None \<Rightarrow> zero_envelope | Some e \<Rightarrow> e) in
           (Inr (env, ref, ag_region a, ag_region a @ ''-0'', 1), [Message cl ''received'', Message cl ''ok''])))"

definition FetchLogs :: "(bytes \<Rightarrow> bytes) \<Rightarrow> agent \<Rightarrow> agent_clock \<Rightarrow> (32 word) option \<Rightarrow> envelope option \<Rightarrow> envelope \<times> measurement list" where
  "FetchLogs sha256 a ck info env = agent_done ck (agent_stamp sha256 a ck info env)"

definition consumeJetStream :: "'m msg_lib \<Rightarrow> agent \<Rightarrow> options \<Rightarrow> timestamp \<Rightarrow> message \<Rightarrow> consume_action list" where
  "consumeJetStream L a opts now m = consume_durable L a opts now m"

definition consumeQuorum :: "'m msg_lib \<Rightarrow> agent \<Rightarrow> options \<Rightarrow> timestamp \<Rightarrow> message \<Rightarrow> consume_action list" where
  "consumeQuorum L a opts now m = consume_durable L a opts now m"

definition quorum_msg :: "string \<Rightarrow> string \<Rightarrow> bytes \<Rightarrow> bool \<Rightarrow> message" where
  "quorum_msg mid ct body redelivered =
     \<lparr>mg_id = mid, mg_codec = ByContentType ct, mg_body = body, mg_redelivered = redelivered\<rparr>"

text \<open>The packages' \<open>Decode\<close> helpers and redelivery predicates; a delivery without the marker is none.\<close>

definition jetstream_Redelivered :: "(gerr + nat) option \<Rightarrow> bool" where
  "jetstream_Redelivered md = (case md of None \<Rightarrow> False | Some n \<Rightarrow> NumDelivered n > 1)"

definition quorum_Redelivered :: "bool option \<Rightarrow> bool" where
  "quorum_Redelivered mark = (case mark of None \<Rightarrow> False | Some b \<Rightarrow> b)"

definition quorum_Decode :: "'m msg_lib \<Rightarrow> options \<Rightarrow> string \<Rightarrow> timestamp \<Rightarrow> message \<Rightarrow> 'm option \<times> gerr option" where
  "quorum_Decode L opts responderID now m = decode_msg L opts responderID now (mg_codec m) (mg_body m)"

definition stream_Decode :: "'m msg_lib \<Rightarrow> options \<Rightarrow> string \<Rightarrow> timestamp \<Rightarrow> message \<Rightarrow> 'm option \<times> gerr option" where
  "stream_Decode L opts responderID now m = decode_msg L opts responderID now (mg_codec m) (mg_body m)"

definition mqtt_Decode :: "'m msg_lib \<Rightarrow> options \<Rightarrow> string \<Rightarrow> timestamp \<Rightarrow> message \<Rightarrow> 'm option \<times> gerr option" where
  "mqtt_Decode L opts responderID now m = decode_msg L opts responderID now (mg_codec m) (mg_body m)"

section \<open>gRPC\<close>

definition newCodecV2_name :: "codec \<Rightarrow> string" where
  "newCodecV2_name c = (if ContentType (Some c) = ContentType (Some ProtoJSON) then ''json'' else ''proto'')"

text \<open>\<open>below\<close> is the library's pooling threshold.  The result is the bytes handed to gRPC and the pooled buffer
  whose ownership goes with them.\<close>

definition codecV2_Marshal ::
  "'m msg_lib \<Rightarrow> 's pool_get \<Rightarrow> 's pool_put \<Rightarrow> (int \<Rightarrow> bool) \<Rightarrow> codec \<Rightarrow> nat option \<Rightarrow> 'm \<Rightarrow> 's
   \<Rightarrow> ((gerr + bytes \<times> buf option) \<times> 's) option" where
  "codecV2_Marshal L get put below c ch m s =
     (let size = l_hint L c m in
      if below size then
        (case fst (l_append L c ([], 0) m) of
           Inl err \<Rightarrow> Some (Inl err, s)
         | Inr (arr, n) \<Rightarrow> Some (Inr (take n arr, None), s))
      else
        (case get ch size s of
           None \<Rightarrow> None
         | Some (p, s1) \<Rightarrow>
             (case l_append L c (mem p, 0) m of
                (Inl err, arr) \<Rightarrow> Some (Inl err, put (Some (p\<lparr>mem := arr\<rparr>)) s1)
              | (Inr (arr, n), rest) \<Rightarrow>
                  (let q = p\<lparr>mem := arr, blen := n\<rparr> in Some (Inr (visible q, Some q), s1)))))"

datatype unary_request = PingRequest | ClockProbeRequest | UnaryDeploy | FetchLogsRequest | Unary_other string

fun methodFor :: "unary_request \<Rightarrow> gerr + string" where
  "methodFor PingRequest = Inr ''/workloads.v1.BenchService/Ping''"
| "methodFor ClockProbeRequest = Inr ''/workloads.v1.BenchService/ClockProbe''"
| "methodFor UnaryDeploy = Inr ''/workloads.v1.WorkloadService/Deploy''"
| "methodFor FetchLogsRequest = Inr ''/workloads.v1.LogService/FetchLogs''"
| "methodFor (Unary_other t) = Inl (Opaque (''grpctransport: no unary method for '' @ t))"

record rpc_info =
  recvUnixNano :: int
  wireBytes :: "32 word"

text \<open>What \<open>HandleRPC\<close> does with an event: the receive time and wire length of a payload, or another event.\<close>

definition HandleRPC :: "(timestamp \<times> int) option \<Rightarrow> rpc_info option \<Rightarrow> rpc_info option" where
  "HandleRPC ev info =
     (case ev of
        None \<Rightarrow> info
      | Some (recv, len) \<Rightarrow>
          map_option (\<lambda>i. (let i1 = i\<lparr>recvUnixNano := recv\<rparr> in if len > 0 then i1\<lparr>wireBytes := of_int len\<rparr> else i1)) info)"

text \<open>The per-call information: fresh for every call, read by the agent's handlers.  The receive time is absent until a
  payload has arrived.\<close>

definition TagRPC :: rpc_info where
  "TagRPC = \<lparr>recvUnixNano = 0, wireBytes = 0\<rparr>"

definition RecvTime :: "rpc_info \<Rightarrow> timestamp option" where
  "RecvTime i = (if recvUnixNano i = 0 then None else Some (recvUnixNano i))"

text \<open>The unary requester: the method of the request's type, then the call.\<close>

definition grpc_Request :: "(string \<Rightarrow> 'w \<Rightarrow> gerr option \<times> 'w) \<Rightarrow> unary_request \<Rightarrow> 'w \<Rightarrow> gerr option \<times> 'w" where
  "grpc_Request invoke req w = (case methodFor req of Inl e \<Rightarrow> (Some e, w) | Inr m \<Rightarrow> invoke m w)"

text \<open>The NATS responder: the outcome of the subscription; after it the messages come to \<open>nats_reply\<close> until the context ends.\<close>

definition nats_transport_Serve :: "(string \<Rightarrow> string \<Rightarrow> gerr option) \<Rightarrow> string \<Rightarrow> (gerr option \<times> string option)" where
  "nats_transport_Serve queueSubscribe region =
     (case queueSubscribe (DeploySubject region) ''agents'' of
        Some e \<Rightarrow> (Some e, None)
      | None \<Rightarrow> (None, Some (DeploySubject region)))"

section \<open>Facts\<close>

lemma wire_length_seen:
  "0 < len \<Longrightarrow> len < 2 ^ 32 \<Longrightarrow> recv \<noteq> 0 \<Longrightarrow>
   (case HandleRPC (Some (recv, len)) (Some TagRPC) of None \<Rightarrow> False | Some i \<Rightarrow> RecvTime i = Some recv \<and> uint (wireBytes i) = len)"
  by (simp add: HandleRPC_def TagRPC_def RecvTime_def Let_def uint_word_of_int take_bit_int_eq_self)

definition acked_ids :: "serve_action list \<Rightarrow> string list" where
  "acked_ids acts = concat (map (\<lambda>a. case a of Acked mid \<Rightarrow> [mid] | Replied x \<Rightarrow> []) acts)"

lemma acked_ids_simps [simp]:
  "acked_ids [] = []" "acked_ids (Acked mid # acts) = mid # acked_ids acts" "acked_ids (Replied x # acts) = acked_ids acts"
  "acked_ids (acts @ acts') = acked_ids acts @ acked_ids acts'"
  by (simp_all add: acked_ids_def)

context buffer_pool
begin

lemma valkey_reply_total:
  assumes "inv s held" and "lib_ok enc L"
  shows "\<exists>out s' w'. valkey_reply L get put opts rid rt st ch h d (s, w) = Some (out, s', w') \<and> inv s' held"
  using serve_delivery_spec [OF assms, of opts rid rt st ch h "ByContentType (sr_ct d)" "sr_body d" w] assms(1)
  by (auto simp: valkey_reply_def)

lemma rabbitmq_reply_total:
  assumes "inv s held" and "lib_ok enc L"
  shows "\<exists>out s' w'. rabbitmq_reply L get put opts rid rt st ch h d (s, w) = Some (out, s', w') \<and> inv s' held \<and>
           (\<forall>x. out = Some x \<longrightarrow> sr_dest x = sr_reply d \<and> sr_corr x = sr_corr d)"
  using serve_delivery_spec [OF assms, of opts rid rt st ch h "ByContentType (sr_ct d)" "sr_body d" w]
  by (auto simp: rabbitmq_reply_def)

lemma valkey_batch_spec:
  assumes "inv s held" and "lib_ok enc L"
  shows "\<exists>acts s' w'. valkey_batch L get put opts rid h es (s, w) = Some (acts, s', w') \<and> inv s' held \<and> acked_ids acts = map fst es"
  using assms(1)
proof (induction es arbitrary: s w)
  case (Cons e es)
  obtain mid d sv where e: "e = (mid, d, sv)" by (cases e)
  obtain out s1 w1 where R: "valkey_reply L get put opts rid (sv_recv sv) (sv_send sv) (sv_choice sv) h d (s, w) = Some (out, s1, w1)" "inv s1 held"
    using valkey_reply_total [OF Cons.prems assms(2), where opts = opts and rid = rid and rt = "sv_recv sv" and
        st = "sv_send sv" and ch = "sv_choice sv" and h = h and d = d and w = w] by blast
  from Cons.IH [OF R(2), of w1] R(1) e show ?case by (auto split: option.split)
qed simp

lemma valkey_Serve_spec:
  assumes "inv s held" and "lib_ok enc L"
  shows "\<exists>e acts s' w'. valkey_transport_Serve L get put opts rid h its (s, w) = Some (e, acts, s', w') \<and> inv s' held \<and>
           acked_ids acts = concat (map (\<lambda>(c, got). case got of Inl err \<Rightarrow> [] | Inr es \<Rightarrow> map fst es) (takeWhile (\<lambda>(c, got). \<not> c) its))"
  using assms(1)
proof (induction its arbitrary: s w)
  case (Cons it its)
  obtain c got where it: "it = (c, got)" by (cases it)
  show ?case
  proof (cases "c \<or> (\<exists>err. got = Inl err)")
    case True
    with Cons it show ?thesis by auto
  next
    case False
    then obtain es where es: "got = Inr es" by (cases got) auto
    obtain acts s1 w1 where B: "valkey_batch L get put opts rid h es (s, w) = Some (acts, s1, w1)" "inv s1 held" "acked_ids acts = map fst es"
      using valkey_batch_spec [OF Cons.prems assms(2), where opts = opts and rid = rid and h = h and es = es and w = w] by blast
    from Cons.IH [OF B(2), of w1] B(1,3) it es False show ?thesis by auto
  qed
qed auto

lemma rabbitmq_Serve_spec:
  assumes "inv s held" and "lib_ok enc L"
  shows "\<exists>e outs s' w'. rabbitmq_Serve L get put opts rid h its (s, w) = Some (e, outs, s', w') \<and> inv s' held \<and>
           (\<forall>x \<in> set outs. \<exists>d sv. Inr (Some (d, sv)) \<in> set its \<and> sr_dest x = sr_reply d \<and> sr_corr x = sr_corr d)"
  using assms(1)
proof (induction its arbitrary: s w)
  case (Cons it its)
  show ?case
  proof (cases "\<exists>d sv. it = Inr (Some (d, sv))")
    case False
    then have "(\<exists>u. it = Inl u) \<or> it = Inr None" by (cases it) (auto, metis option.exhaust prod.exhaust)
    with Cons.prems show ?thesis by auto
  next
    case True
    then obtain d sv where it: "it = Inr (Some (d, sv))" by blast
    obtain out s1 w1 where R: "rabbitmq_reply L get put opts rid (sv_recv sv) (sv_send sv) (sv_choice sv) h d (s, w) = Some (out, s1, w1)"
      "inv s1 held" "\<forall>x. out = Some x \<longrightarrow> sr_dest x = sr_reply d \<and> sr_corr x = sr_corr d"
      using rabbitmq_reply_total [OF Cons.prems assms(2), where opts = opts and rid = rid and rt = "sv_recv sv" and
          st = "sv_send sv" and ch = "sv_choice sv" and h = h and d = d and w = w] by blast
    obtain e outs s' w' where I: "rabbitmq_Serve L get put opts rid h its (s1, w1) = Some (e, outs, s', w')" "inv s' held"
      "\<forall>x \<in> set outs. \<exists>d sv. Inr (Some (d, sv)) \<in> set its \<and> sr_dest x = sr_reply d \<and> sr_corr x = sr_corr d"
      using Cons.IH [OF R(2), of w1] by blast
    have "rabbitmq_Serve L get put opts rid h (it # its) (s, w) = Some (e, (case out of None \<Rightarrow> outs | Some x \<Rightarrow> x # outs), s', w')"
      using R(1) I(1) it by simp
    moreover have "\<forall>x \<in> set (case out of None \<Rightarrow> outs | Some x \<Rightarrow> x # outs).
        \<exists>d sv. Inr (Some (d, sv)) \<in> set (it # its) \<and> sr_dest x = sr_reply d \<and> sr_corr x = sr_corr d"
      using I(3) R(3) it by (cases out) fastforce+
    ultimately show ?thesis using I(2) by blast
  qed
qed auto

text \<open>The gRPC codec gives its buffer away exactly when it used one.\<close>

lemma codecV2_Marshal_spec:
  assumes "inv s held" and "lib_ok enc L"
  shows "\<exists>r s'. codecV2_Marshal L get put below c ch m s = Some (r, s') \<and>
           (case r of
              Inl err \<Rightarrow> inv s' held
            | Inr (b, None) \<Rightarrow> b = enc c m \<and> s' = s
            | Inr (b, Some q) \<Rightarrow> b = enc c m \<and> bid q \<notin> held \<and> inv s' (insert (bid q) held))"
proof (cases "below (l_hint L c m)")
  case True
  have "appends (enc c) (l_append L c)" using assms(2) by (simp add: lib_ok_def)
  then have "l_append L c ([], 0) m = (Inr (arr, n), rest) \<Longrightarrow> take n arr = enc c m" for arr n rest
    unfolding appends_def by fastforce
  with True assms(1) show ?thesis
    by (cases "l_append L c ([], 0) m") (auto simp: codecV2_Marshal_def split: sum.split)
next
  case False
  have h: "0 \<le> l_hint L c m" and ap: "appends (enc c) (l_append L c)" using assms(2) by (simp_all add: lib_ok_def)
  obtain r s1 where E: "Encode get put (l_hint L c) (l_append L c) ch m s = Some (r, s1)"
    using Encode_total [OF assms(1), of "l_hint L c" m] h by blast
  have M: "codecV2_Marshal L get put below c ch m s = Some (map_sum id (\<lambda>q. (visible q, Some q)) r, s1)"
    using E False by (auto simp: codecV2_Marshal_def Encode_def Let_def split: option.splits prod.splits sum.splits)
  show ?thesis
  proof (cases r)
    case (Inl err)
    with M Encode_error [OF assms(1) E [unfolded Inl]] show ?thesis by simp
  next
    case (Inr q)
    with M Encode_ok [OF assms(1) ap E [unfolded Inr]] show ?thesis by simp
  qed
qed

end


text \<open>Serving loops.  Whatever arrives, the responders' loops keep the pool contract: each reply
  buffer is back in the pool when its delivery is done, and no delivery panics.  Every reply RabbitMQ
  sends goes to the reply queue and correlation id of a delivery it received; Valkey acknowledges every
  entry it read before its context ended, once and in order, served or not.\<close>

theorem endpoints_serve:
  assumes "pool_inv s held" and "lib_ok enc L"
  shows "(\<exists>e outs s' w'. rabbitmq_Serve L Buffers_Get Buffers_Put opts rid h its (s, w) = Some (e, outs, s', w') \<and> pool_inv s' held \<and>
            (\<forall>x \<in> set outs. \<exists>d sv. Inr (Some (d, sv)) \<in> set its \<and> sr_dest x = sr_reply d \<and> sr_corr x = sr_corr d)) \<and>
         (\<exists>e acts s' w'. valkey_transport_Serve L Buffers_Get Buffers_Put opts rid h reads (s, w) = Some (e, acts, s', w') \<and> pool_inv s' held \<and>
            acked_ids acts =
              concat (map (\<lambda>(c, got). case got of Inl err \<Rightarrow> [] | Inr es \<Rightarrow> map fst es) (takeWhile (\<lambda>(c, got). \<not> c) reads)))"
  by (intro conjI) (rule bp.rabbitmq_Serve_spec [OF assms], rule bp.valkey_Serve_spec [OF assms])

theorem endpoints_serve_witness:
  "\<exists>s e acts s' w'. NewBuffers [4, 8] = Inr s \<and>
     valkey_transport_Serve raw_lib Buffers_Get Buffers_Put raw_opts ''r'' (\<lambda>m w. (Inr m, w))
       [(False, Inr [(''1-0'', \<lparr>sr_dest = ''d'', sr_ct = ''application/x-protobuf'', sr_corr = ''c'', sr_reply = ''q'', sr_body = [1, 2]\<rparr>,
                      \<lparr>sv_recv = 1, sv_send = 2, sv_choice = None\<rparr>)]),
        (False, Inl (Opaque ''nil'')), (True, Inr [])] (s, ()) = Some (e, acts, s', w') \<and> acked_ids acts = [''1-0'']"
proof -
  obtain s where s: "NewBuffers [4, 8] = Inr s" "pool_inv s {}" using small_pool by blast
  from endpoints_serve [OF s(2) raw_lib_ok(1), where opts = raw_opts and rid = "''r''" and h = "\<lambda>m w. (Inr m, w)" and w = "()" and its = "[]" and
      reads = "[(False, Inr [(''1-0'', \<lparr>sr_dest = ''d'', sr_ct = ''application/x-protobuf'', sr_corr = ''c'', sr_reply = ''q'', sr_body = [1, 2]\<rparr>,
                      \<lparr>sv_recv = 1, sv_send = 2, sv_choice = None\<rparr>)]), (False, Inl (Opaque ''nil'')), (True, Inr [])]"] s(1)
  show ?thesis by auto
qed

text \<open>The gRPC codec.  Marshalling a message returns its encoding and either no buffer or one taken
  from the pool and now owned by gRPC; on an error the pool has its buffer back.\<close>

theorem grpc_marshal:
  assumes "pool_inv s held" and "lib_ok enc L"
  shows "\<exists>r s'. codecV2_Marshal L Buffers_Get Buffers_Put below c ch m s = Some (r, s') \<and>
           (case r of
              Inl err \<Rightarrow> pool_inv s' held
            | Inr (b, None) \<Rightarrow> b = enc c m \<and> s' = s
            | Inr (b, Some q) \<Rightarrow> b = enc c m \<and> bid q \<notin> held \<and> pool_inv s' (insert (bid q) held))"
  using bp.codecV2_Marshal_spec [OF assms] .

theorem grpc_marshal_witness:
  "\<exists>s r s'. NewBuffers [4, 8] = Inr s \<and>
     codecV2_Marshal raw_lib Buffers_Get Buffers_Put (\<lambda>n. False) Proto None [1, 2] s = Some (r, s') \<and>
     (case r of Inl err \<Rightarrow> True | Inr (b, q) \<Rightarrow> b = [1, 2])"
proof -
  obtain s where s: "NewBuffers [4, 8] = Inr s" "pool_inv s {}" using small_pool by blast
  from grpc_marshal [OF s(2) raw_lib_ok(1), of "\<lambda>n. False" Proto None "[1, 2]"] obtain r s' where
    R: "codecV2_Marshal raw_lib Buffers_Get Buffers_Put (\<lambda>n. False) Proto None [1, 2] s = Some (r, s')" and
    C: "case r of Inl err \<Rightarrow> pool_inv s' {} | Inr (b, None) \<Rightarrow> b = [1, 2] \<and> s' = s
        | Inr (b, Some q) \<Rightarrow> b = [1, 2] \<and> bid q \<notin> {} \<and> pool_inv s' (insert (bid q) {})" by blast
  from C have "case r of Inl err \<Rightarrow> True | Inr (b, q) \<Rightarrow> b = [1, 2]" by (auto split: sum.splits option.splits prod.splits)
  with s(1) R show ?thesis by blast
qed


end
