(* ===== verification/Instruments.thy ===== *)
theory Instruments
  imports Clocks Harness
begin

text \<open>
  The instruments of the benchmark (\<open>clients/internal/harness/harness.go\<close>): the label set of a cell, the
  registration of the instruments, and what each recording method does to the series.

  A series is addressed by the name of its instrument and its attributes.  The main result says that recording
  a run's measurements keeps the series of different cells apart: each counter holds exactly the measurements of
  its own cell.
\<close>

section \<open>Series\<close>

type_synonym attributes = "(string \<times> string) list"

definition cell_option :: "cell \<Rightarrow> attributes" where
  "cell_option c =
     [(''transport'', c_Transport c), (''codec'', c_Codec c), (''fixture'', c_Fixture c), (''pool'', c_Pool c), (''gc'', c_GC c),
      (''mode'', c_Mode c), (''region'', c_Region c), (''role'', c_Role c), (''tier'', c_Tier c)]"

record bench_series =
  bs_counters :: "string \<times> attributes \<Rightarrow> int"
  bs_histograms :: "string \<times> attributes \<Rightarrow> rat list"
  bs_gauges :: "string \<times> attributes \<Rightarrow> int option"

definition no_series :: bench_series where
  "no_series = \<lparr>bs_counters = (\<lambda>_. 0), bs_histograms = (\<lambda>_. []), bs_gauges = (\<lambda>_. None)\<rparr>"

text \<open>\<open>New\<close> registers in this order and stops at the first error.\<close>

definition bench_instruments :: "string list" where
  "bench_instruments =
     [''mbbench_messages_total'', ''mbbench_errors_total'', ''mbbench_wire_bytes_total'', ''mbbench_rtt_seconds'',
      ''mbbench_one_way_seconds'', ''mbbench_server_duration_seconds'', ''mbbench_codec_seconds'', ''mbbench_validate_seconds'',
      ''mbbench_inflight'', ''mbbench_cell_info'']"

definition harness_New :: "(string \<Rightarrow> gerr option) \<Rightarrow> gerr + bench_series" where
  "harness_New register =
     (case find (\<lambda>i. register i \<noteq> None) bench_instruments of
        Some i \<Rightarrow> Inl (the (register i))
      | None \<Rightarrow> Inr no_series)"

definition counter_add :: "string \<Rightarrow> attributes \<Rightarrow> int \<Rightarrow> bench_series \<Rightarrow> bench_series" where
  "counter_add name attrs n s = s\<lparr>bs_counters := (bs_counters s)((name, attrs) := bs_counters s (name, attrs) + n)\<rparr>"

definition histogram_record :: "string \<Rightarrow> attributes \<Rightarrow> duration \<Rightarrow> bench_series \<Rightarrow> bench_series" where
  "histogram_record name attrs d s =
     s\<lparr>bs_histograms := (bs_histograms s)((name, attrs) := bs_histograms s (name, attrs) @ [Seconds d])\<rparr>"

section \<open>The recording methods\<close>

definition inst_Message :: "cell \<Rightarrow> string \<Rightarrow> bench_series \<Rightarrow> bench_series" where
  "inst_Message c result = counter_add ''mbbench_messages_total'' (cell_option c @ [(''result'', result)]) 1"

definition inst_Error :: "cell \<Rightarrow> string \<Rightarrow> bench_series \<Rightarrow> bench_series" where
  "inst_Error c kind = counter_add ''mbbench_errors_total'' (cell_option c @ [(''kind'', kind)]) 1"

definition inst_RTT :: "cell \<Rightarrow> duration \<Rightarrow> bench_series \<Rightarrow> bench_series" where
  "inst_RTT c = histogram_record ''mbbench_rtt_seconds'' (cell_option c)"

definition inst_OneWay :: "cell \<Rightarrow> duration \<Rightarrow> string \<Rightarrow> bench_series \<Rightarrow> bench_series" where
  "inst_OneWay c d direction = histogram_record ''mbbench_one_way_seconds'' (cell_option c @ [(''direction'', direction)]) d"

definition inst_ServerDuration :: "cell \<Rightarrow> duration \<Rightarrow> bench_series \<Rightarrow> bench_series" where
  "inst_ServerDuration c = histogram_record ''mbbench_server_duration_seconds'' (cell_option c)"

definition inst_CodecTime :: "cell \<Rightarrow> duration \<Rightarrow> bench_series \<Rightarrow> bench_series" where
  "inst_CodecTime c = histogram_record ''mbbench_codec_seconds'' (cell_option c)"

definition inst_ValidateTime :: "cell \<Rightarrow> duration \<Rightarrow> bench_series \<Rightarrow> bench_series" where
  "inst_ValidateTime c = histogram_record ''mbbench_validate_seconds'' (cell_option c)"

definition inst_WireBytes :: "cell \<Rightarrow> int \<Rightarrow> string \<Rightarrow> bench_series \<Rightarrow> bench_series" where
  "inst_WireBytes c n direction = counter_add ''mbbench_wire_bytes_total'' (cell_option c @ [(''direction'', direction)]) n"

definition inst_AddInflight :: "cell \<Rightarrow> int \<Rightarrow> bench_series \<Rightarrow> bench_series" where
  "inst_AddInflight c = counter_add ''mbbench_inflight'' (cell_option c)"

definition inst_SetActiveCell :: "cell \<Rightarrow> bool \<Rightarrow> bench_series \<Rightarrow> bench_series" where
  "inst_SetActiveCell c on s = s\<lparr>bs_gauges := (bs_gauges s)((''mbbench_cell_info'', cell_option c) \<mapsto> (if on then 1 else 0))\<rparr>"

text \<open>The measurements of the handlers and of the driver, as calls of these methods.\<close>

fun record_measurement :: "measurement \<Rightarrow> bench_series \<Rightarrow> bench_series" where
  "record_measurement (Message c result) = inst_Message c result"
| "record_measurement (WireBytes c n direction) = inst_WireBytes c n direction"
| "record_measurement (ServerTook c d) = inst_ServerDuration c d"
| "record_measurement (ErrorCount c kind) = inst_Error c kind"
| "record_measurement (RoundTrip c d) = inst_RTT c d"
| "record_measurement (ActiveCell c on) = inst_SetActiveCell c on"

definition recorded :: "measurement list \<Rightarrow> bench_series" where
  "recorded ms = fold record_measurement ms no_series"

section \<open>Series of different cells stay apart\<close>

lemma cell_option_inject [simp]: "cell_option c = cell_option d \<longleftrightarrow> c = d"
  by (auto simp: cell_option_def intro: cell.equality)

lemma cell_option_length [simp]: "length (cell_option c) = 9"
  by (simp add: cell_option_def)

lemma cell_option_append [simp]: "cell_option c @ xs = cell_option d @ ys \<longleftrightarrow> c = d \<and> xs = ys"
  using append_eq_append_conv [of "cell_option c" "cell_option d" xs ys] by simp

lemmas recording =
  inst_Message_def inst_Error_def inst_RTT_def inst_ServerDuration_def inst_WireBytes_def inst_SetActiveCell_def
  counter_add_def histogram_record_def

lemma fold_counter:
  assumes "\<And>m s. bs_counters (record_measurement m s) key = bs_counters s key + weight m"
  shows "bs_counters (fold record_measurement ms s) key = bs_counters s key + sum_list (map weight ms)"
proof (induction ms arbitrary: s)
  case (Cons m ms)
  then show ?case using assms [of m s] by simp
qed simp

text \<open>After a run every counter of a cell holds exactly that cell's measurements: messages by result, errors by
  kind, bytes by direction.\<close>

theorem series_exact:
  "bs_counters (recorded ms) (''mbbench_messages_total'', cell_option c @ [(''result'', result)]) = int (count_list ms (Message c result))"
  "bs_counters (recorded ms) (''mbbench_errors_total'', cell_option c @ [(''kind'', kind)]) = int (count_list ms (ErrorCount c kind))"
  "bs_counters (recorded ms) (''mbbench_wire_bytes_total'', cell_option c @ [(''direction'', direction)]) =
     (\<Sum>m\<leftarrow>ms. case m of WireBytes d n dir \<Rightarrow> if d = c \<and> dir = direction then n else 0 | _ \<Rightarrow> 0)"
proof -
  have tally: "(\<Sum>m\<leftarrow>ms. if m = x then 1 else 0) = int (count_list ms x)" for x :: measurement and ms by (induction ms) auto
  have w: "bs_counters (record_measurement m s) (''mbbench_messages_total'', cell_option c @ [(''result'', result)]) =
      bs_counters s (''mbbench_messages_total'', cell_option c @ [(''result'', result)]) + (if m = Message c result then 1 else 0)" for m s
    by (cases m) (auto simp: recording)
  from fold_counter [OF w] show "bs_counters (recorded ms) (''mbbench_messages_total'', cell_option c @ [(''result'', result)]) =
      int (count_list ms (Message c result))"
    by (simp add: recorded_def no_series_def tally)
  have w: "bs_counters (record_measurement m s) (''mbbench_errors_total'', cell_option c @ [(''kind'', kind)]) =
      bs_counters s (''mbbench_errors_total'', cell_option c @ [(''kind'', kind)]) + (if m = ErrorCount c kind then 1 else 0)" for m s
    by (cases m) (auto simp: recording)
  from fold_counter [OF w] show "bs_counters (recorded ms) (''mbbench_errors_total'', cell_option c @ [(''kind'', kind)]) =
      int (count_list ms (ErrorCount c kind))"
    by (simp add: recorded_def no_series_def tally)
  have w: "bs_counters (record_measurement m s) (''mbbench_wire_bytes_total'', cell_option c @ [(''direction'', direction)]) =
      bs_counters s (''mbbench_wire_bytes_total'', cell_option c @ [(''direction'', direction)]) +
      (case m of WireBytes d n dir \<Rightarrow> if d = c \<and> dir = direction then n else 0 | _ \<Rightarrow> 0)" for m s
    by (cases m) (auto simp: recording)
  from fold_counter [OF w] show "bs_counters (recorded ms) (''mbbench_wire_bytes_total'', cell_option c @ [(''direction'', direction)]) =
      (\<Sum>m\<leftarrow>ms. case m of WireBytes d n dir \<Rightarrow> if d = c \<and> dir = direction then n else 0 | _ \<Rightarrow> 0)"
    by (simp add: recorded_def no_series_def)
qed

text \<open>The state timeline: the active-cell gauge shows the cell's last switch.\<close>

lemma active_gauge:
  "bs_gauges (fold record_measurement ms s) (''mbbench_cell_info'', cell_option c) =
     (case filter (\<lambda>m. \<exists>on. m = ActiveCell c on) ms of
        [] \<Rightarrow> bs_gauges s (''mbbench_cell_info'', cell_option c)
      | xs \<Rightarrow> Some (if last xs = ActiveCell c True then 1 else 0))"
proof (induction ms arbitrary: s)
  case (Cons m ms)
  have "bs_gauges (record_measurement m s) (''mbbench_cell_info'', cell_option c) =
      (if \<exists>on. m = ActiveCell c on then Some (if m = ActiveCell c True then 1 else 0) else bs_gauges s (''mbbench_cell_info'', cell_option c))"
    by (cases m) (auto simp: recording)
  with Cons show ?case by (auto split: list.splits)
qed simp

text \<open>One request served by the agent shows in exactly one received and one ok message of its cell.\<close>

lemma ping_series:
  assumes "Ping sha256 a ck info env0 = (env, ms)" and "c = agent_cell a (case env0 of None \<Rightarrow> zero_envelope | Some e \<Rightarrow> e)"
  shows "bs_counters (recorded ms) (''mbbench_messages_total'', cell_option c @ [(''result'', ''received'')]) = 1"
    and "bs_counters (recorded ms) (''mbbench_messages_total'', cell_option c @ [(''result'', ''ok'')]) = 1"
  using assms unfolding series_exact by (auto simp: Ping_def agent_done_def agent_stamp_def Let_def split: option.splits if_splits)

end
