(* ===== verification/Soak.thy ===== *)
theory Soak
  imports Rpc_Core
begin

text \<open>
  The pub/sub clients' shared loop and their loss accounting: \<open>PubLoop\<close> and \<open>Limiter\<close> of
  \<open>clients/internal/cli/cli.go\<close>, and \<open>ParseSeq\<close>, \<open>GapTracker\<close> and \<open>RecordReceived\<close> of
  \<open>clients/internal/metrics/metrics.go\<close>.  A publisher numbers its messages; every subscriber infers
  from the numbers how many messages it has missed.

  Sequence numbers are 64-bit words read as signed, because the tracker's arithmetic wraps.
\<close>

section \<open>Publishing\<close>

text \<open>The fields of \<open>Flags\<close> that the loop reads; \<open>Interval\<close> is the delay derived from the rate.\<close>

record flags =
  FSubject :: string
  Addr :: string
  Msg :: string
  Count :: int
  Interval :: duration

definition pub_count :: "flags \<Rightarrow> nat" where
  "pub_count f = (if Count f \<le> 0 then 1 else nat (Count f))"

definition pub_body :: "flags \<Rightarrow> nat \<Rightarrow> string" where
  "pub_body f i = (if pub_count f > 1 then Msg f @ '' '' @ itoa (int i + 1) else Msg f)"

definition pub_summary :: "flags \<Rightarrow> string" where
  "pub_summary f = ''published '' @ itoa (int (pub_count f)) @ '' message(s) to '' @ quoted (FSubject f) @ '' on '' @ Addr f @ ''\<newline>''"

text \<open>The loop from index \<open>i\<close>: the sleeps it makes, its error or the summary it prints, and the
  state of the \<open>send\<close> callback.\<close>

function pub_from ::
  "(string \<Rightarrow> 'w \<Rightarrow> gerr option \<times> 'w) \<Rightarrow> flags \<Rightarrow> nat \<Rightarrow> 'w \<Rightarrow> duration list \<times> (gerr + string) \<times> 'w" where
  "pub_from send f i w =
     (if i < pub_count f then
        (let sleeps = (if i > 0 \<and> Interval f > 0 then [Interval f] else []);
             (err, w1) = send (pub_body f i) w
         in case err of
              Some e \<Rightarrow>
                (sleeps, Inl (Wrapf (''publish '' @ itoa (int i + 1) @ ''/'' @ itoa (int (pub_count f)) @ '': '') e ''''), w1)
            | None \<Rightarrow> (let (sl, r, w2) = pub_from send f (i + 1) w1 in (sleeps @ sl, r, w2)))
      else ([], Inr (pub_summary f), w))"
  by pat_completeness auto
termination by (relation "measure (\<lambda>(send, f, i, w). pub_count f - i)") auto

declare pub_from.simps [simp del]

definition PubLoop ::
  "(string \<Rightarrow> 'w \<Rightarrow> gerr option \<times> 'w) \<Rightarrow> flags \<Rightarrow> 'w \<Rightarrow> duration list \<times> (gerr + string) \<times> 'w" where
  "PubLoop send f w = pub_from send f 0 w"

section \<open>Limiting a subscriber\<close>

text \<open>\<open>closes\<close> counts the calls of \<open>close\<close> on the done channel: a second one would panic.\<close>

record limiter =
  limit :: int
  hits :: nat
  once :: bool
  closes :: nat

definition NewLimiter :: "flags \<Rightarrow> limiter" where
  "NewLimiter f = \<lparr>limit = Count f, hits = 0, once = False, closes = 0\<rparr>"

definition Hit :: "limiter \<Rightarrow> limiter" where
  "Hit l =
     (if limit l \<le> 0 then l
      else (let l1 = l\<lparr>hits := hits l + 1\<rparr> in
            if limit l1 \<le> int (hits l1) then
              (if once l1 then l1 else l1\<lparr>once := True, closes := closes l1 + 1\<rparr>)
            else l1))"

section \<open>Sequence numbers and gaps\<close>

definition ParseSeq :: "string \<Rightarrow> i64 option" where
  "ParseSeq body =
     (let tl = TrimRight is_space body in
      if tl = '''' then None
      else map_option of_int
             (ParseInt64 (if \<exists>c \<in> set tl. is_space c
                          then TrimLeft is_space (drop (length (TrimRight (\<lambda>c. \<not> is_space c) tl) - 1) tl)
                          else tl)))"

record gap_tracker =
  last_seq :: i64
  have_seq :: bool

definition Observe :: "i64 \<Rightarrow> gap_tracker \<Rightarrow> i64 \<times> gap_tracker" where
  "Observe sq g =
     (if \<not> have_seq g then (0, g\<lparr>have_seq := True, last_seq := sq\<rparr>)
      else if sq = last_seq g + 1 then (0, g\<lparr>last_seq := sq\<rparr>)
      else if word_sless (last_seq g + 1) sq then (sq - last_seq g - 1, g\<lparr>last_seq := sq\<rparr>)
      else if word_sless sq (last_seq g) then (0, g\<lparr>last_seq := sq\<rparr>)
      else (0, g))"

text \<open>The counters of the recorder that a subscriber touches.\<close>

record recorder =
  received_total :: int
  gaps_total :: int

definition RecordReceived :: "string \<Rightarrow> recorder \<times> gap_tracker \<Rightarrow> recorder \<times> gap_tracker" where
  "RecordReceived data s =
     (case s of (rec, g) \<Rightarrow>
        (let rec1 = rec\<lparr>received_total := received_total rec + 1\<rparr> in
         case ParseSeq data of
           None \<Rightarrow> (rec1, g)
         | Some sq \<Rightarrow>
             (let (gap, g1) = Observe sq g in
              (if word_sless 0 gap then rec1\<lparr>gaps_total := gaps_total rec1 + sint gap\<rparr> else rec1, g1))))"

section \<open>Facts about the loop\<close>

lemma digits_no_space: "list_all is_digit ds \<Longrightarrow> \<forall>c \<in> set ds. \<not> is_space c"
  by (auto simp: list_all_iff digit_not_space)

lemma ParseSeq_numbered:
  assumes "1 \<le> i" and "i < 2 ^ 63"
  shows "ParseSeq (msg @ '' '' @ itoa i) = Some (of_int i)"
proof -
  let ?ds = "itoa i"
  have ds: "?ds \<noteq> []" "\<forall>c \<in> set ?ds. \<not> is_space c"
    using assms(1) digits_no_space [OF nat_to_dec_digits [of "nat i"]] by (simp_all add: itoa_def)
  have sp: "is_space CHR '' ''" by (simp add: is_space_def)
  have "dropWhile is_space (rev ?ds @ rest) = rev ?ds @ rest" for rest
    using ds by (cases "rev ?ds") (auto dest: arg_cong [where f = set])
  then have tail: "TrimRight is_space (msg @ '' '' @ ?ds) = msg @ '' '' @ ?ds" by (simp add: TrimRight_def)
  have "dropWhile (\<lambda>c. \<not> is_space c) (rev ?ds @ CHR '' '' # rest) = CHR '' '' # rest" for rest
    using ds(2) sp by (subst dropWhile_append2) auto
  then have "length (TrimRight (\<lambda>c. \<not> is_space c) (msg @ '' '' @ ?ds)) - 1 = length msg"
    by (simp add: TrimRight_def)
  moreover have "TrimLeft is_space ('' '' @ ?ds) = ?ds"
    using ds sp by (cases ?ds) (simp_all add: TrimLeft_def)
  ultimately show ?thesis
    using tail sp assms by (simp add: ParseSeq_def Let_def ParseInt64_itoa)
qed

lemma pub_from_ok:
  assumes "i \<le> pub_count f"
  shows "pub_from (\<lambda>b w. (None, w @ [b])) f i w =
           (if Interval f > 0 then replicate (pub_count f - max 1 i) (Interval f) else [],
            Inr (pub_summary f), w @ map (pub_body f) [i..<pub_count f])"
  using assms
proof (induction "pub_count f - i" arbitrary: i w)
  case 0
  then show ?case by (simp add: pub_from.simps)
next
  case (Suc k)
  then have lt: "i < pub_count f" by simp
  have "pub_count f - i = Suc (pub_count f - Suc i)" using lt by simp
  moreover have "pub_count f - max 1 i = (if i > 0 then 1 else 0) + (pub_count f - max 1 (Suc i))" using lt by (cases i) auto
  ultimately show ?case using lt Suc.hyps(1) [of "Suc i" "w @ [pub_body f i]"] Suc.hyps(2)
    by (subst pub_from.simps) (auto simp: upt_conv_Cons replicate_add)
qed

lemma pub_from_fails:
  assumes "i \<le> j" and "j < pub_count f" and "\<And>k w. i \<le> k \<Longrightarrow> k < j \<Longrightarrow> fst (send (pub_body f k) w) = None"
    and "\<And>w. fst (send (pub_body f j) w) = Some e"
  shows "fst (snd (pub_from send f i w)) =
           Inl (Wrapf (''publish '' @ itoa (int j + 1) @ ''/'' @ itoa (int (pub_count f)) @ '': '') e '''')"
  using assms
proof (induction "j - i" arbitrary: i w)
  case 0
  then show ?case by (subst pub_from.simps) (auto simp: case_prod_unfold Let_def)
next
  case (Suc k)
  then have "fst (send (pub_body f i) w) = None" by simp
  moreover have "fst (snd (pub_from send f (i + 1) (snd (send (pub_body f i) w)))) =
      Inl (Wrapf (''publish '' @ itoa (int j + 1) @ ''/'' @ itoa (int (pub_count f)) @ '': '') e '''')"
    using Suc.prems Suc.hyps(2) by (intro Suc.hyps(1)) auto
  ultimately show ?case using Suc.prems by (subst pub_from.simps) (auto simp: case_prod_unfold Let_def)
qed

section \<open>Facts about the tracker\<close>

lemma sint_of_int_small:
  assumes "- (2 ^ 63) \<le> x" and "x < 2 ^ 63"
  shows "sint (of_int x :: i64) = x"
  using assms by (simp add: signed_of_int signed_take_bit_int_eq_self)

text \<open>The tracker away from the top of the number range: in order and duplicate are no gap, a lower
  number is a new run, a jump counts what it skipped.\<close>

lemma Observe_seq:
  assumes "int l + 2 < 2 ^ 63" and "int i + 1 < 2 ^ 63"
  shows "Observe (of_int (int i + 1)) \<lparr>last_seq = of_int (int l + 1), have_seq = True\<rparr> =
           (of_int (int (i - l - 1)), \<lparr>last_seq = of_int (int i + 1), have_seq = True\<rparr>)"
proof -
  let ?s = "of_int (int i + 1) :: i64" and ?l = "of_int (int l + 1) :: i64"
  have l1: "?l + 1 = of_int (int l + 2)" by simp
  have s: "sint ?s = int i + 1" using assms(2) by (intro sint_of_int_small) auto
  have l: "sint ?l = int l + 1" "sint (of_int (int l + 2) :: i64) = int l + 2"
    using assms(1) by (intro sint_of_int_small; auto)+
  have eq: "?s = ?l + 1 \<longleftrightarrow> i = l + 1" 
    unfolding l1 word_eq_iff_signed [where ?'a = int] s l by auto
  have lt: "word_sless (?l + 1) ?s \<longleftrightarrow> l + 1 < i" "word_sless ?s ?l \<longleftrightarrow> i < l"
    using s l unfolding l1 word_sless_alt by auto
  have gap: "l + 1 < i \<Longrightarrow> ?s - ?l - 1 = of_int (int (i - l - 1))" by (simp add: of_nat_diff algebra_simps)
  consider "i = l + 1" | "l + 1 < i" | "i < l" | "i = l" by linarith
  then show ?thesis
    by cases (use eq lt gap in \<open>auto simp: Observe_def\<close>)
qed

definition new_tracker :: gap_tracker where
  "new_tracker = \<lparr>last_seq = 0, have_seq = False\<rparr>"

definition tracker_at :: "nat \<Rightarrow> gap_tracker" where
  "tracker_at l = \<lparr>last_seq = of_int (int l + 1), have_seq = True\<rparr>"

definition counted :: "nat \<Rightarrow> nat \<Rightarrow> recorder \<Rightarrow> recorder" where
  "counted r g rec = rec\<lparr>received_total := received_total rec + int r, gaps_total := gaps_total rec + int g\<rparr>"

lemma counted_simps [simp]:
  "counted r' g' (counted r g rec) = counted (r' + r) (g' + g) rec" "counted 0 0 rec = rec"
  by (simp_all add: counted_def)

text \<open>What the tracker adds up, over indices.\<close>

fun gap_sum :: "nat \<Rightarrow> nat list \<Rightarrow> nat" where
  "gap_sum l [] = 0"
| "gap_sum l (i # is) = (i - l - 1) + gap_sum i is"

definition missed :: "nat list \<Rightarrow> nat" where
  "missed is = card ({hd is..last is} - set is)"

lemma ParseSeq_body:
  assumes "1 < pub_count f" and "i < pub_count f" and "int (pub_count f) < 2 ^ 63"
  shows "ParseSeq (pub_body f i) = Some (of_int (int i + 1))"
  using assms ParseSeq_numbered [of "int i + 1" "Msg f"] by (simp add: pub_body_def)

lemma RecordReceived_first:
  assumes "1 < pub_count f" and "i < pub_count f" and "int (pub_count f) < 2 ^ 63"
  shows "RecordReceived (pub_body f i) (rec, new_tracker) = (counted 1 0 rec, tracker_at i)"
  using ParseSeq_body [OF assms]
  by (simp add: RecordReceived_def Observe_def new_tracker_def tracker_at_def counted_def word_sless_alt)

lemma RecordReceived_next:
  assumes "1 < pub_count f" and "i < pub_count f" and "l < pub_count f" and "int (pub_count f) + 1 < 2 ^ 63"
  shows "RecordReceived (pub_body f i) (rec, tracker_at l) = (counted 1 (i - l - 1) rec, tracker_at i)"
proof -
  have "sint (of_int (int (i - l - 1)) :: i64) = int (i - l - 1)" using assms by (intro sint_of_int_small) auto
  then show ?thesis
    using ParseSeq_body [OF assms(1,2)] Observe_seq [of l i] assms(2-4)
    by (auto simp: RecordReceived_def tracker_at_def counted_def word_sless_alt Let_def)
qed

lemma receive_all:
  assumes "1 < pub_count f" and "\<forall>i \<in> set is. i < pub_count f" and "l < pub_count f" and "int (pub_count f) + 1 < 2 ^ 63"
  shows "fold RecordReceived (map (pub_body f) is) (rec, tracker_at l) =
           (counted (length is) (gap_sum l is) rec, tracker_at (last (l # is)))"
  using assms
  by (induction "is" arbitrary: l rec) (auto simp: RecordReceived_next add.commute)

lemma gap_sum_append: "gap_sum l (is @ js) = gap_sum l is + gap_sum (last (l # is)) js"
  by (induction "is" arbitrary: l) auto

lemma missed_Cons:
  assumes "sorted (i # j # js)"
  shows "missed (i # j # js) = (j - i - 1) + missed (j # js)"
proof -
  let ?L = "last (j # js)"
  have ord: "i \<le> j" "j \<le> ?L" "\<forall>k \<in> set (j # js). j \<le> k" using assms by auto
  have split: "{i..?L} - set (i # j # js) = {i<..<j} \<union> ({j..?L} - set (j # js))"
    using ord by (auto simp del: last.simps) 
  have "card ({i<..<j} \<union> ({j..?L} - set (j # js))) = card {i<..<j} + card ({j..?L} - set (j # js))"
    by (intro card_Un_disjoint) auto
  then show ?thesis using split by (simp add: missed_def)
qed

lemma gap_sum_sorted: "sorted (i # is) \<Longrightarrow> gap_sum i is = missed (i # is)"
proof (induction "is" arbitrary: i)
  case Nil
  then show ?case by (simp add: missed_def)
next
  case (Cons j js)
  then show ?case using missed_Cons [OF Cons.prems] by simp
qed

lemma gap_sum_run:
  assumes "sorted is" and "is \<noteq> []" and "hd is \<le> l"
  shows "gap_sum l is = missed is"
  using assms gap_sum_sorted by (cases "is") auto

lemma gap_sum_runs:
  assumes "\<forall>r \<in> set (run # runs). sorted r \<and> r \<noteq> []" and "successively (\<lambda>r r'. hd r' \<le> last r) (run # runs)"
    and "hd run \<le> l"
  shows "gap_sum l (concat (run # runs)) = sum_list (map missed (run # runs))"
  using assms
proof (induction runs arbitrary: run l)
  case Nil
  then show ?case by (simp add: gap_sum_run)
next
  case (Cons r rs)
  then have "gap_sum (last run) (concat (r # rs)) = sum_list (map missed (r # rs))" by simp
  moreover have "gap_sum l (concat (run # r # rs)) = gap_sum l run + gap_sum (last (l # run)) (concat (r # rs))"
    by (simp only: concat.simps(2) [of run] gap_sum_append)
  ultimately show ?case using Cons.prems by (simp add: gap_sum_run)
qed

section \<open>Facts about the limiter\<close>

lemma Hit_iterate:
  "(Hit ^^ k) (NewLimiter f) =
     (if Count f \<le> 0 then NewLimiter f
      else \<lparr>limit = Count f, hits = k, once = (Count f \<le> int k), closes = (if Count f \<le> int k then 1 else 0)\<rparr>)"
  by (induction k) (auto simp: Hit_def NewLimiter_def Let_def)

section \<open>Properties\<close>

text \<open>C13. Loss accounting from end to end.  A publisher sends numbered messages with \<open>PubLoop\<close>; a
  subscriber feeds what reaches it to \<open>RecordReceived\<close>.  When the messages of each run of the
  publisher arrive in order, possibly lost or duplicated, and a restarted run shows itself by a number
  not above the last one, the gap counter grows by exactly the number of messages lost between the
  first and the last one received of each run, and the receive counter by the number of messages
  received.\<close>

theorem soak_gap_count:
  assumes "1 < pub_count f" and "int (pub_count f) + 1 < 2 ^ 63"
    and "\<forall>r \<in> set runs. sorted r \<and> r \<noteq> [] \<and> (\<forall>i \<in> set r. i < pub_count f)"
    and "successively (\<lambda>r r'. hd r' \<le> last r) runs"
  shows "snd (snd (PubLoop (\<lambda>b w. (None, w @ [b])) f [])) = map (pub_body f) [0..<pub_count f] \<and>
         (let bodies = snd (snd (PubLoop (\<lambda>b w. (None, w @ [b])) f []));
              (rec', g') = fold RecordReceived (map (\<lambda>i. bodies ! i) (concat runs)) (rec, new_tracker)
          in received_total rec' = received_total rec + int (length (concat runs)) \<and>
             gaps_total rec' = gaps_total rec + int (\<Sum>r\<leftarrow>runs. card ({hd r..last r} - set r)))"
proof -
  have sent: "snd (snd (PubLoop (\<lambda>b w. (None, w @ [b])) f [])) = map (pub_body f) [0..<pub_count f]"
    by (simp add: PubLoop_def pub_from_ok)
  have nth: "map (\<lambda>i. map (pub_body f) [0..<pub_count f] ! i) (concat runs) = map (pub_body f) (concat runs)"
    using assms(3) by auto
  have "fold RecordReceived (map (pub_body f) (concat runs)) (rec, new_tracker) = (rec, new_tracker) \<and> runs = [] \<or>
        (\<exists>g. fold RecordReceived (map (pub_body f) (concat runs)) (rec, new_tracker) =
          (counted (length (concat runs)) (sum_list (map missed runs)) rec, g))"
  proof (cases runs)
    case (Cons run rs)
    obtain i "is" where r: "run = i # is" using assms(3) Cons by (cases run) auto
    have "gap_sum i (concat (run # rs)) = sum_list (map missed (run # rs))"
      by (rule gap_sum_runs) (use assms(3,4) Cons r in auto)
    then have "gap_sum i (is @ concat rs) = sum_list (map missed (run # rs))" by (simp add: r)
    moreover have "fold RecordReceived (map (pub_body f) (is @ concat rs)) (counted 1 0 rec, tracker_at i) =
        (counted (length (is @ concat rs)) (gap_sum i (is @ concat rs)) (counted 1 0 rec), tracker_at (last (i # is @ concat rs)))"
      by (rule receive_all) (use assms Cons r in auto)
    moreover have "RecordReceived (pub_body f i) (rec, new_tracker) = (counted 1 0 rec, tracker_at i)"
      by (rule RecordReceived_first) (use assms Cons r in auto)
    ultimately show ?thesis using Cons r by simp
  qed simp
  then show ?thesis unfolding sent Let_def nth by (auto simp: counted_def missed_def [abs_def])
qed

theorem soak_gap_count_witness:
  "let f = \<lparr>FSubject = ''s'', Addr = ''a'', Msg = ''m'', Count = 9, Interval = 0\<rparr>;
       bodies = snd (snd (PubLoop (\<lambda>b w. (None, w @ [b])) f []));
       (rec', g') = fold RecordReceived (map (\<lambda>i. bodies ! i) [1, 2, 5, 5, 0, 3]) (\<lparr>received_total = 0, gaps_total = 0\<rparr>, new_tracker)
   in gaps_total rec' = 4"
proof -
  let ?f = "\<lparr>FSubject = ''s'', Addr = ''a'', Msg = ''m'', Count = 9, Interval = 0\<rparr>"
  let ?runs = "[[1, 2, 5, 5], [0, 3]] :: nat list list" and ?rec = "\<lparr>received_total = 0, gaps_total = 0\<rparr>"
  have sum: "(\<Sum>r\<leftarrow>?runs. card ({hd r..last r} - set r)) = 4" by code_simp
  have cat: "concat ?runs = [1, 2, 5, 5, 0, 3]" by simp
  have ok: "1 < pub_count ?f" "int (pub_count ?f) + 1 < 2 ^ 63"
    "\<forall>r \<in> set ?runs. sorted r \<and> r \<noteq> [] \<and> (\<forall>i \<in> set r. i < pub_count ?f)"
    "successively (\<lambda>r r'. hd r' \<le> last r) ?runs" by (simp_all add: pub_count_def)
  show ?thesis
    using soak_gap_count [OF ok, of ?rec, THEN conjunct2] unfolding sum cat Let_def case_prod_unfold
    by (simp only: recorder.select_convs of_nat_numeral add_0)
qed

text \<open>The tracker's arithmetic wraps: at the largest sequence number a duplicate is reported as a gap
  of minus one instead of none, and every smaller positive number as a negative gap; the recorder
  ignores both.\<close>

theorem observe_wraps:
  assumes "1 \<le> s" and "s < 2 ^ 63"
  shows "fst (Observe (of_int s) \<lparr>last_seq = of_int (2 ^ 63 - 1), have_seq = True\<rparr>) = of_int (s - 2 ^ 63) \<and>
         sint (fst (Observe (of_int s) \<lparr>last_seq = of_int (2 ^ 63 - 1), have_seq = True\<rparr>)) < 0"
proof -
  let ?s = "of_int s :: i64" and ?m = "of_int (2 ^ 63 - 1) :: i64"
  have m1: "?m + 1 = of_int (- (2 ^ 63))" by simp
  have m: "sint (?m + 1) = - (2 ^ 63)" unfolding m1 by (rule sint_of_int_small) auto
  have s: "sint ?s = s" using assms by (intro sint_of_int_small) auto
  have ne: "?s \<noteq> ?m + 1" using m s assms by auto
  have less: "word_sless (?m + 1) ?s" using m s assms by (simp only: word_sless_alt)
  have g: "?s - ?m - 1 = of_int (s - 2 ^ 63)" by simp
  have O: "fst (Observe ?s \<lparr>last_seq = ?m, have_seq = True\<rparr>) = of_int (s - 2 ^ 63)"
    using ne less g by (simp only: Observe_def gap_tracker.select_convs if_True if_False fst_conv not_True_eq_False)
  have "sint (of_int (s - 2 ^ 63) :: i64) = s - 2 ^ 63" using assms by (intro sint_of_int_small) auto
  with O assms show ?thesis by simp
qed

theorem observe_wraps_witness:
  "sint (fst (Observe (of_int (2 ^ 63 - 1)) \<lparr>last_seq = of_int (2 ^ 63 - 1), have_seq = True\<rparr>)) < 0"
  using observe_wraps [of "2 ^ 63 - 1"] by simp

end
