(* ===== verification/Cliflags.thy ===== *)
theory Cliflags
  imports Soak Float64
begin

text \<open>
  The command line of the pub/sub clients: \<open>parseArgs\<close>, \<open>parseRate\<close> and \<open>Stop\<close> of
  \<open>clients/internal/cli/cli.go\<close>, over the part of package \<open>flag\<close> they use.

  Of the number syntaxes of the standard library the integer, duration and float parsers are the
  record \<open>std_parsers\<close>, an argument; \<open>Inl\<close> is the text of their error.
\<close>

section \<open>Flags\<close>

record cli_flags =
  fl_Cmd :: string
  fl_Addr :: string
  fl_Subject :: string
  fl_Msg :: string
  fl_User :: string
  fl_Pass :: string
  fl_Count :: int
  fl_Timeout :: duration
  fl_JSON :: bool
  fl_JetStream :: bool
  fl_Durable :: bool
  fl_Sentinels :: string
  fl_MetricsAddr :: string
  fl_interval :: duration

text \<open>What \<open>PubLoop\<close> and the limiter of theory \<open>Soak\<close> read.\<close>

definition loop_flags :: "cli_flags \<Rightarrow> flags" where
  "loop_flags f = \<lparr>FSubject = fl_Subject f, Addr = fl_Addr f, Msg = fl_Msg f, Count = fl_Count f, Interval = fl_interval f\<rparr>"

datatype go_float = Finite rat | PosInf | NegInf | NaN

record std_parsers =
  sp_int :: "string \<Rightarrow> string + int"
  sp_duration :: "string \<Rightarrow> string + duration"
  sp_float :: "string \<Rightarrow> go_float option"

definition ParseBool :: "string \<Rightarrow> bool option" where
  "ParseBool s =
     (if s \<in> {''1'', ''t'', ''T'', ''TRUE'', ''true'', ''True''} then Some True
      else if s \<in> {''0'', ''f'', ''F'', ''FALSE'', ''false'', ''False''} then Some False
      else None)"

section \<open>The rate\<close>

definition TrimSuffix :: "string \<Rightarrow> string \<Rightarrow> string" where
  "TrimSuffix s suf = (if HasSuffix s suf then take (length s - length suf) s else s)"

text \<open>\<open>float64(time.Second) / n\<close> and its conversion to a 64-bit integer.  The language leaves the
  conversion of a value out of range open: it is the argument \<open>out_of_range\<close>.\<close>

definition second_over :: "go_float \<Rightarrow> go_float" where
  "second_over n =
     (case n of
        Finite x \<Rightarrow> Finite (fdiv (of_i64 Second) x)
      | NaN \<Rightarrow> NaN
      | _ \<Rightarrow> Finite 0)"

definition to_duration :: "duration \<Rightarrow> go_float \<Rightarrow> duration" where
  "to_duration out_of_range x =
     (case x of
        Finite q \<Rightarrow> if - (2 ^ 63) \<le> to_i64 q \<and> to_i64 q < 2 ^ 63 then to_i64 q else out_of_range
      | _ \<Rightarrow> out_of_range)"

text \<open>\<open>n <= 0\<close> is false for NaN.\<close>

definition not_positive :: "go_float \<Rightarrow> bool" where
  "not_positive n = (case n of Finite x \<Rightarrow> x \<le> 0 | NegInf \<Rightarrow> True | _ \<Rightarrow> False)"

definition parseRate :: "std_parsers \<Rightarrow> duration \<Rightarrow> string \<Rightarrow> gerr + duration" where
  "parseRate P out_of_range s0 =
     (let s = TrimSpace s0 in
      if s = '''' \<or> s = ''0'' then Inr 0
      else (case sp_float P (TrimSpace (TrimSuffix s ''/s'')) of
              None \<Rightarrow> Inl (Opaque ''want N/s (e.g. 10/s)'')
            | Some n \<Rightarrow>
                if not_positive n then Inl (Opaque ''rate must be > 0'')
                else Inr (to_duration out_of_range (second_over n))))"

section \<open>Package flag\<close>

text \<open>The flag set \<open>parseArgs\<close> defines; the rate is a local variable beside the flags.\<close>

definition bool_flag :: "string \<Rightarrow> bool" where
  "bool_flag name \<longleftrightarrow> name \<in> {''json'', ''jetstream'', ''durable''}"

definition defined_flag :: "string \<Rightarrow> bool" where
  "defined_flag name \<longleftrightarrow> bool_flag name \<or>
     name \<in> {''addr'', ''subject'', ''msg'', ''user'', ''pass'', ''count'', ''rate'', ''timeout'', ''sentinels'', ''metrics-addr''}"

definition set_flag :: "std_parsers \<Rightarrow> string \<Rightarrow> string \<Rightarrow> cli_flags \<times> string \<Rightarrow> string + (cli_flags \<times> string)" where
  "set_flag P name v s =
     (case s of (f, rate) \<Rightarrow>
        if name = ''addr'' then Inr (f\<lparr>fl_Addr := v\<rparr>, rate)
        else if name = ''subject'' then Inr (f\<lparr>fl_Subject := v\<rparr>, rate)
        else if name = ''msg'' then Inr (f\<lparr>fl_Msg := v\<rparr>, rate)
        else if name = ''user'' then Inr (f\<lparr>fl_User := v\<rparr>, rate)
        else if name = ''pass'' then Inr (f\<lparr>fl_Pass := v\<rparr>, rate)
        else if name = ''count'' then
          (case sp_int P v of Inl e \<Rightarrow> Inl e | Inr n \<Rightarrow> Inr (f\<lparr>fl_Count := n\<rparr>, rate))
        else if name = ''rate'' then Inr (f, v)
        else if name = ''timeout'' then
          (case sp_duration P v of Inl e \<Rightarrow> Inl e | Inr d \<Rightarrow> Inr (f\<lparr>fl_Timeout := d\<rparr>, rate))
        else if name = ''sentinels'' then Inr (f\<lparr>fl_Sentinels := v\<rparr>, rate)
        else if name = ''metrics-addr'' then Inr (f\<lparr>fl_MetricsAddr := v\<rparr>, rate)
        else
          (case ParseBool v of
             None \<Rightarrow> Inl ''parse error''
           | Some b \<Rightarrow>
               Inr (if name = ''json'' then f\<lparr>fl_JSON := b\<rparr>
                    else if name = ''jetstream'' then f\<lparr>fl_JetStream := b\<rparr>
                    else f\<lparr>fl_Durable := b\<rparr>, rate)))"

datatype flag_error = ErrHelp | FlagError string

text \<open>The name and the value of one argument: the equals sign cannot come first.\<close>

definition split_flag :: "string \<Rightarrow> string \<times> string option" where
  "split_flag name =
     (let n = takeWhile (\<lambda>c. c \<noteq> CHR ''='') (tl name) in
      if length n = length (tl name) then (name, None) else (hd name # n, Some (drop (length n + 2) name)))"

text \<open>\<open>FlagSet.Parse\<close>: flags up to the first argument that is none.\<close>

fun parse_flags :: "std_parsers \<Rightarrow> string list \<Rightarrow> cli_flags \<times> string \<Rightarrow> flag_error + (cli_flags \<times> string)" where
  "parse_flags P [] s = Inr s"
| "parse_flags P (a # args) s =
     (if length a < 2 \<or> hd a \<noteq> CHR ''-'' then Inr s
      else if a = ''--'' then Inr s
      else
        (let body = (if a ! 1 = CHR ''-'' then drop 2 a else drop 1 a) in
         if body = [] \<or> hd body = CHR ''-'' \<or> hd body = CHR ''='' then Inl (FlagError (''bad flag syntax: '' @ a))
         else
           (let (name, v) = split_flag body in
            if \<not> defined_flag name then
              (if name = ''help'' \<or> name = ''h'' then Inl ErrHelp
               else Inl (FlagError (''flag provided but not defined: -'' @ name)))
            else if bool_flag name then
              (let val = (case v of None \<Rightarrow> ''true'' | Some x \<Rightarrow> x) in
               case set_flag P name val s of
                 Inl e \<Rightarrow> Inl (FlagError (''invalid boolean value '' @ quoted val @ '' for -'' @ name @ '': '' @ e))
               | Inr s1 \<Rightarrow> parse_flags P args s1)
            else
              (case v of
                 Some x \<Rightarrow>
                   (case set_flag P name x s of
                      Inl e \<Rightarrow> Inl (FlagError (''invalid value '' @ quoted x @ '' for flag -'' @ name @ '': '' @ e))
                    | Inr s1 \<Rightarrow> parse_flags P args s1)
               | None \<Rightarrow>
                   (case args of
                      [] \<Rightarrow> Inl (FlagError (''flag needs an argument: -'' @ name))
                    | x # rest \<Rightarrow>
                        (case set_flag P name x s of
                           Inl e \<Rightarrow> Inl (FlagError (''invalid value '' @ quoted x @ '' for flag -'' @ name @ '': '' @ e))
                         | Inr s1 \<Rightarrow> parse_flags P rest s1))))))"

declare parse_flags.simps(2) [simp del]

definition cli_defaults :: "string \<Rightarrow> string \<Rightarrow> string \<Rightarrow> string \<Rightarrow> cli_flags" where
  "cli_defaults bin defAddr defPass cmd =
     \<lparr>fl_Cmd = cmd, fl_Addr = defAddr, fl_Subject = ''demo'', fl_Msg = ''hello from '' @ bin, fl_User = ''admin'',
      fl_Pass = defPass, fl_Count = 0, fl_Timeout = 0, fl_JSON = False, fl_JetStream = False, fl_Durable = False,
      fl_Sentinels = '''', fl_MetricsAddr = '''', fl_interval = 0\<rparr>"

definition parseArgs ::
  "std_parsers \<Rightarrow> duration \<Rightarrow> string \<Rightarrow> string \<Rightarrow> string \<Rightarrow> string list \<Rightarrow> flag_error + cli_flags" where
  "parseArgs P out_of_range bin defAddr defPass args =
     (case args of
        [] \<Rightarrow> Inl (FlagError ''missing subcommand (want pub|sub)'')
      | cmd # rest \<Rightarrow>
          if cmd \<noteq> ''pub'' \<and> cmd \<noteq> ''sub'' then
            Inl (FlagError (''unknown subcommand '' @ quoted cmd @ '' (want pub|sub)''))
          else
            (case parse_flags P rest (cli_defaults bin defAddr defPass cmd, '''') of
               Inl err \<Rightarrow> Inl err
             | Inr (f, rate) \<Rightarrow>
                 (case parseRate P out_of_range rate of
                    Inl err \<Rightarrow> Inl (FlagError (''invalid -rate '' @ quoted rate @ '': '' @ Error err))
                  | Inr iv \<Rightarrow> Inr (f\<lparr>fl_interval := iv\<rparr>))))"

text \<open>\<open>Parse\<close>: on an error the usage is printed and the process exits with status 2; the result is what
  goes to standard error.\<close>

definition usage_text :: "string \<Rightarrow> string" where
  "usage_text bin =
     ''usage: '' @ bin @ '' <pub|sub> [-addr host:port] [-subject name] [-msg text]\<newline>'' @
     ''          [-user u] [-pass p] [-count n] [-rate N/s] [-timeout d] [-json]\<newline>'' @
     ''          [-jetstream (nats)] [-durable (rabbitmq)] [-sentinels h:p,... (valkey)]\<newline>'' @
     ''          [-metrics-addr host:port]\<newline>''"

definition Parse ::
  "std_parsers \<Rightarrow> duration \<Rightarrow> string \<Rightarrow> string \<Rightarrow> string \<Rightarrow> string list \<Rightarrow> string + cli_flags" where
  "Parse P out_of_range bin defAddr defPass args =
     (case parseArgs P out_of_range bin defAddr defPass args of
        Inl ErrHelp \<Rightarrow> Inl (usage_text bin)
      | Inl (FlagError e) \<Rightarrow> Inl (bin @ '': '' @ e @ ''\<newline>'' @ usage_text bin)
      | Inr f \<Rightarrow> Inr f)"

text \<open>\<open>Stop\<close>: the instant at which the channel closes, for a subscriber started at \<open>t0\<close> and a signal at
  the instant \<open>sig\<close>, if there is one.\<close>

definition Stop_at :: "cli_flags \<Rightarrow> timestamp \<Rightarrow> timestamp option \<Rightarrow> timestamp option" where
  "Stop_at f t0 sig =
     (if fl_Timeout f > 0 then
        Some (case sig of None \<Rightarrow> t0 + fl_Timeout f | Some s \<Rightarrow> min s (t0 + fl_Timeout f))
      else sig)"

section \<open>Facts about the parsers\<close>

lemma to_i64_fl_between:
  assumes "0 \<le> x" and "x < 2 ^ 53"
  shows "\<lfloor>x\<rfloor> \<le> to_i64 (fl x)" and "to_i64 (fl x) \<le> \<lfloor>x\<rfloor> + 1" and "x = of_int k \<Longrightarrow> to_i64 (fl x) = k"
proof -
  have k: "0 \<le> \<lfloor>x\<rfloor>" "\<lfloor>x\<rfloor> + 1 \<le> 2 ^ 53" using assms by (auto simp: floor_less_iff)
  have "fl (of_int \<lfloor>x\<rfloor>) = of_int \<lfloor>x\<rfloor>" "fl (of_int (\<lfloor>x\<rfloor> + 1)) = of_int (\<lfloor>x\<rfloor> + 1)"
    using fl_of_int [of "\<lfloor>x\<rfloor>"] fl_of_int [of "\<lfloor>x\<rfloor> + 1"] k by (simp_all only: exact64_fl abs_of_nonneg)+
  moreover have "fl (of_int \<lfloor>x\<rfloor>) \<le> fl x" "fl x \<le> fl (of_int (\<lfloor>x\<rfloor> + 1))"
    by (rule fl_mono; linarith)+
  ultimately have b: "of_int \<lfloor>x\<rfloor> \<le> fl x" "fl x \<le> of_int (\<lfloor>x\<rfloor> + 1)" by simp_all
  have n: "0 \<le> fl x" using fl_nonneg [OF assms(1)] .
  show "\<lfloor>x\<rfloor> \<le> to_i64 (fl x)" using b n by (simp add: to_i64_def le_floor_iff)
  show "to_i64 (fl x) \<le> \<lfloor>x\<rfloor> + 1" using b n by (simp add: to_i64_def) linarith
  show "to_i64 (fl x) = k" if "x = of_int k"
    using that fl_of_int [of k] assms n by (simp add: to_i64_def)
qed

text \<open>One argument of the form \<open>-name=value\<close>.\<close>

lemma split_flag_eq: "name \<noteq> [] \<Longrightarrow> CHR ''='' \<notin> set name \<Longrightarrow> split_flag (name @ CHR ''='' # v) = (name, Some v)"
  by (cases name) (auto simp: split_flag_def Let_def takeWhile_append)

lemma parse_flags_eq:
  assumes "defined_flag name" and "set_flag P name v s = Inr s1" and "a = CHR ''-'' # name @ CHR ''='' # v"
    and "CHR ''='' \<notin> set name" and "name \<noteq> []" and "hd name \<noteq> CHR ''-''"
  shows "parse_flags P (a # args) s = parse_flags P args s1"
proof -
  have "split_flag (name @ CHR ''='' # v) = (name, Some v)" using assms by (simp add: split_flag_eq)
  moreover have "hd name \<noteq> CHR ''=''" using assms(4,5) by (cases name) auto
  moreover have "a ! 1 = hd name" using assms by (cases name) auto
  ultimately show ?thesis
    using assms by (auto simp: parse_flags.simps(2) neq_Nil_conv)
qed

definition arg :: "string \<Rightarrow> string \<Rightarrow> string" where
  "arg name v = CHR ''-'' # name @ CHR ''='' # v"

definition bool_text :: "bool \<Rightarrow> string" where
  "bool_text b = (if b then ''true'' else ''false'')"

text \<open>The command line that spells out every flag.\<close>

definition render :: "cli_flags \<Rightarrow> string \<Rightarrow> string list" where
  "render f rate =
     [fl_Cmd f, arg ''addr'' (fl_Addr f), arg ''subject'' (fl_Subject f), arg ''msg'' (fl_Msg f), arg ''user'' (fl_User f),
      arg ''pass'' (fl_Pass f), arg ''count'' (itoa (fl_Count f)), arg ''rate'' rate,
      arg ''timeout'' (Duration_String (fl_Timeout f)), arg ''json'' (bool_text (fl_JSON f)),
      arg ''jetstream'' (bool_text (fl_JetStream f)), arg ''durable'' (bool_text (fl_Durable f)),
      arg ''sentinels'' (fl_Sentinels f), arg ''metrics-addr'' (fl_MetricsAddr f)]"

lemma parse_arg:
  assumes "set_flag P name v s = Inr s1" and "defined_flag name"
  shows "parse_flags P (arg name v # args) s = parse_flags P args s1"
proof (rule parse_flags_eq [OF assms(2,1) arg_def])
  show "CHR ''='' \<notin> set name" "name \<noteq> []" "hd name \<noteq> CHR ''-''"
    using assms(2) by (auto simp: defined_flag_def bool_flag_def)
qed

lemma parse_render:
  assumes "sp_int P (itoa (fl_Count f)) = Inr (fl_Count f)"
    and "sp_duration P (Duration_String (fl_Timeout f)) = Inr (fl_Timeout f)" and "fl_Cmd g = fl_Cmd f"
  shows "parse_flags P (tl (render f rate)) (g, r) = Inr (f\<lparr>fl_interval := fl_interval g\<rparr>, rate)"
  using assms
  by (simp add: render_def parse_arg set_flag_def defined_flag_def bool_flag_def ParseBool_def bool_text_def)

lemma parseArgs_render:
  assumes "fl_Cmd f \<in> {''pub'', ''sub''}" and "sp_int P (itoa (fl_Count f)) = Inr (fl_Count f)"
    and "sp_duration P (Duration_String (fl_Timeout f)) = Inr (fl_Timeout f)"
  shows "parseArgs P oor bin defAddr defPass (render f rate) =
           (case parseRate P oor rate of
              Inl err \<Rightarrow> Inl (FlagError (''invalid -rate '' @ quoted rate @ '': '' @ Error err))
            | Inr iv \<Rightarrow> Inr (f\<lparr>fl_interval := iv\<rparr>))"
proof -
  have "render f rate = fl_Cmd f # tl (render f rate)" by (simp add: render_def)
  moreover have "parse_flags P (tl (render f rate)) (cli_defaults bin defAddr defPass (fl_Cmd f), '''') =
      Inr (f\<lparr>fl_interval := 0\<rparr>, rate)"
    using parse_render [OF assms(2,3), of "cli_defaults bin defAddr defPass (fl_Cmd f)"] by (simp add: cli_defaults_def)
  ultimately show ?thesis
    using assms(1) by (auto simp: parseArgs_def split: list.split sum.split)
qed

section \<open>Properties\<close>

text \<open>Command lines round-trip.  For parsers that read back the decimal and the duration they print,
  spelling out every flag of a client gives exactly these flags again, whatever the texts contain
  (equals signs, leading dashes, spaces), with the delay derived from the rate; an unacceptable rate is
  the only error.\<close>

theorem cli_roundtrip:
  assumes "fl_Cmd f \<in> {''pub'', ''sub''}" and "sp_int P (itoa (fl_Count f)) = Inr (fl_Count f)"
    and "sp_duration P (Duration_String (fl_Timeout f)) = Inr (fl_Timeout f)"
  shows "parseArgs P oor bin defAddr defPass (render f rate) =
           (case parseRate P oor rate of
              Inl err \<Rightarrow> Inl (FlagError (''invalid -rate '' @ quoted rate @ '': '' @ Error err))
            | Inr iv \<Rightarrow> Inr (f\<lparr>fl_interval := iv\<rparr>))"
  by (rule parseArgs_render [OF assms])

definition sample_parsers :: std_parsers where
  "sample_parsers =
     \<lparr>sp_int = (\<lambda>s. case ParseInt64 s of None \<Rightarrow> Inl ''parse error'' | Some n \<Rightarrow> Inr n),
      sp_duration = (\<lambda>s. if s = ''0s'' then Inr 0 else Inl ''time: invalid duration''),
      sp_float = (\<lambda>s. if s = ''NaN'' then Some NaN else map_option (\<lambda>n. Finite (of_int n)) (ParseInt64 s))\<rparr>"

theorem cli_roundtrip_witness:
  "parseArgs sample_parsers 0 ''natscli'' ''a:1'' '''' (render (cli_defaults ''natscli'' ''-x=y'' ''p w'' ''sub'') ''x'') =
     Inl (FlagError (''invalid -rate '' @ quoted ''x'' @ '': want N/s (e.g. 10/s)''))"
proof -
  let ?f = "cli_defaults ''natscli'' ''-x=y'' ''p w'' ''sub''"
  have "parseRate sample_parsers 0 ''x'' = Inl (Opaque ''want N/s (e.g. 10/s)'')"
    by (simp add: parseRate_def sample_parsers_def TrimSpace_def TrimLeft_def TrimRight_def is_space_def TrimSuffix_def HasSuffix_def
        ParseInt64_def parse_digits_def is_digit_def)
  moreover have "fl_Cmd ?f \<in> {''pub'', ''sub''}" "sp_int sample_parsers (itoa (fl_Count ?f)) = Inr (fl_Count ?f)"
      "sp_duration sample_parsers (Duration_String (fl_Timeout ?f)) = Inr (fl_Timeout ?f)"
    by (simp_all add: cli_defaults_def sample_parsers_def ParseInt64_itoa Duration_String_def)
  ultimately show ?thesis
    using cli_roundtrip [of ?f sample_parsers 0 "''natscli''" "''a:1''" "''''" "''x''"] by simp
qed

text \<open>The delay of a rate.  For a positive rate of \<open>n\<close> messages per second, down to one message in about
  104 days, the delay in nanoseconds is the whole part of a second divided by \<open>n\<close>, or one more when the
  quotient is closer to the next integer than floating point can tell, and it is the quotient itself when
  that is whole.\<close>

theorem rate_interval:
  assumes "TrimSpace s \<notin> {'''', ''0''}" and "sp_float P (TrimSpace (TrimSuffix (TrimSpace s) ''/s'')) = Some (Finite n)"
    and "n > 0" and "of_int Second / n < 2 ^ 53"
  shows "\<exists>d. parseRate P oor s = Inr d \<and> \<lfloor>of_int Second / n\<rfloor> \<le> d \<and> d \<le> \<lfloor>of_int Second / n\<rfloor> + 1 \<and>
             (\<forall>k. of_int Second = n * of_int k \<longrightarrow> d = k)"
proof -
  let ?x = "of_int Second / n" and ?d = "to_i64 (fl (of_int Second / n))"
  have x: "0 \<le> ?x" using assms(3) by simp
  note b = to_i64_fl_between [OF x assms(4)]
  have f: "0 \<le> \<lfloor>?x\<rfloor>" "\<lfloor>?x\<rfloor> + 1 \<le> 2 ^ 53" using x assms(4) by (auto simp: floor_less_iff)
  have r: "0 \<le> ?d" "?d < 2 ^ 63" using b(1,2) f power_strict_increasing [of 53 63 "2 :: int"] by linarith+
  have one: "of_i64 Second = of_int Second" by (rule of_i64_exact) simp
  have "parseRate P oor s = Inr ?d"
    using assms(1-3) r by (simp add: parseRate_def Let_def not_positive_def second_over_def to_duration_def fdiv_def one del: of_int_numeral)
  moreover have "?d = k" if "of_int Second = n * of_int k" for k
    by (rule b(3)) (use that assms(3) in \<open>simp add: divide_eq_eq mult.commute\<close>)
  ultimately show ?thesis using b(1,2) by blast
qed

theorem rate_interval_witness: "parseRate sample_parsers 0 ''8/s'' = Inr 125000000"
proof -
  have trim: "TrimSpace ''8/s'' = ''8/s''" "TrimSpace (TrimSuffix ''8/s'' ''/s'') = ''8''"
    by (simp_all add: TrimSpace_def TrimLeft_def TrimRight_def is_space_def TrimSuffix_def HasSuffix_def)
  have p: "ParseInt64 ''8'' = Some 8"
    by (simp add: ParseInt64_def parse_digits_def is_digit_def dec_val_def digit_val_def)
  have "\<exists>d. parseRate sample_parsers 0 ''8/s'' = Inr d \<and> \<lfloor>of_int Second / (8 :: rat)\<rfloor> \<le> d \<and> d \<le> \<lfloor>of_int Second / (8 :: rat)\<rfloor> + 1 \<and>
      (\<forall>k. of_int Second = 8 * (of_int k :: rat) \<longrightarrow> d = k)"
    by (rule rate_interval) (simp_all add: trim p sample_parsers_def)
  then obtain d where d: "parseRate sample_parsers 0 ''8/s'' = Inr d" "\<forall>k. of_int Second = 8 * (of_int k :: rat) \<longrightarrow> d = k" by blast
  then show ?thesis using d(2) [rule_format, of 125000000] by simp
qed

text \<open>Two inputs escape the check of the rate.  Not-a-number is not at most zero, so it is accepted; and a
  positive rate may be so small that the delay exceeds 63 bits.  The delay is then whatever the
  conversion yields: where that is not positive, the publisher asked for the slowest pace sends without
  any delay.\<close>

theorem rate_unthrottled:
  assumes "TrimSpace s \<notin> {'''', ''0''}"
    and "sp_float P (TrimSpace (TrimSuffix (TrimSpace s) ''/s'')) = Some n"
    and "n = NaN \<or> (\<exists>x. n = Finite x \<and> 0 < x \<and> 2 ^ 63 \<le> fdiv (of_i64 Second) x)"
    and "oor \<le> 0" and "parseArgs P oor bin defAddr defPass (render f s) = Inr f'"
    and "fl_Cmd f \<in> {''pub'', ''sub''}" and "sp_int P (itoa (fl_Count f)) = Inr (fl_Count f)"
    and "sp_duration P (Duration_String (fl_Timeout f)) = Inr (fl_Timeout f)"
  shows "fl_interval f' = oor \<and> fst (PubLoop (\<lambda>b w. (None, w @ [b])) (loop_flags f') []) = []"
proof -
  have "parseRate P oor s = Inr oor"
    using assms(1-3)
    by (auto simp: parseRate_def Let_def not_positive_def second_over_def to_duration_def to_i64_def le_floor_iff floor_less_iff)
  with parseArgs_render [OF assms(6-8), of oor bin defAddr defPass s] assms(5) have "fl_interval f' = oor" by simp
  then show ?thesis using assms(4) by (simp add: PubLoop_def pub_from_ok loop_flags_def)
qed

theorem rate_unthrottled_witness:
  "\<exists>f'. parseArgs sample_parsers (- (2 ^ 63)) ''natscli'' ''a:1'' '''' (render (cli_defaults ''natscli'' ''a:1'' '''' ''pub'') ''NaN'') = Inr f' \<and>
     fst (PubLoop (\<lambda>b w. (None, w @ [b])) (loop_flags f') []) = []"
proof -
  let ?f = "cli_defaults ''natscli'' ''a:1'' '''' ''pub''"
  have trim: "TrimSpace ''NaN'' = ''NaN''" "TrimSpace (TrimSuffix ''NaN'' ''/s'') = ''NaN''"
    by (simp_all add: TrimSpace_def TrimLeft_def TrimRight_def is_space_def TrimSuffix_def HasSuffix_def)
  have n: "sp_float sample_parsers (TrimSpace (TrimSuffix (TrimSpace ''NaN'') ''/s'')) = Some NaN"
    by (simp add: trim sample_parsers_def)
  have f: "fl_Cmd ?f \<in> {''pub'', ''sub''}" "sp_int sample_parsers (itoa (fl_Count ?f)) = Inr (fl_Count ?f)"
      "sp_duration sample_parsers (Duration_String (fl_Timeout ?f)) = Inr (fl_Timeout ?f)"
    by (simp_all add: cli_defaults_def sample_parsers_def ParseInt64_itoa Duration_String_def)
  have "parseRate sample_parsers (- (2 ^ 63)) ''NaN'' = Inr (- (2 ^ 63))"
    using n by (simp add: parseRate_def trim not_positive_def second_over_def to_duration_def)
  with parseArgs_render [OF f, of "- (2 ^ 63)" "''natscli''" "''a:1''" "''''" "''NaN''"]
  have run: "parseArgs sample_parsers (- (2 ^ 63)) ''natscli'' ''a:1'' '''' (render ?f ''NaN'') = Inr (?f\<lparr>fl_interval := - (2 ^ 63)\<rparr>)" by simp
  from rate_unthrottled [OF _ n _ _ run f] run show ?thesis by (simp add: trim)
qed

end
