(* ===== verification/Soakcli.thy ===== *)
theory Soakcli
  imports Cliflags Harness
begin

text \<open>
  The pub/sub clients of the four buses (\<open>clients/nats/natscli\<close>, \<open>clients/rabbitmq/rabbitmqcli\<close>,
  \<open>clients/mqtt/mqttcli\<close>, \<open>clients/valkey/valkeycli\<close>) over the recorder of
  \<open>clients/internal/metrics/metrics.go\<close>: each command from its arguments to its exit.

  A bus library is a record of arguments: what each of its calls returns, with the state \<open>'w\<close> of
  everything behind it threaded through the publishing calls.  What a waiting subscriber sees is a list
  of events, in the order in which the runtime lets them happen.
\<close>

section \<open>The recorder\<close>

record live_metrics =
  lm_attrs :: "(string \<times> string) list"
  lm_counts :: recorder
  lm_published :: int
  lm_errors :: int
  lm_reconnects :: int
  lm_latency :: "rat list"

datatype mb_recorder = Nop | Live live_metrics

record metrics_config =
  mc_Addr :: string
  mc_Bus :: string
  mc_Mode :: string
  mc_Role :: string

definition instruments :: "string list" where
  "instruments = [''mbclient_published'', ''mbclient_received'', ''mbclient_publish_errors'', ''mbclient_reconnects'',
     ''mbclient_receive_gaps'', ''mbclient_request_latency_seconds'']"

text \<open>\<open>exp_err\<close> and \<open>inst_err\<close> are the errors of the exporter and of registering each instrument.\<close>

definition Setup :: "gerr option \<Rightarrow> (string \<Rightarrow> gerr option) \<Rightarrow> metrics_config \<Rightarrow> gerr + mb_recorder" where
  "Setup exp_err inst_err cfg =
     (if mc_Addr cfg = '''' then Inr Nop
      else (case exp_err of
              Some e \<Rightarrow> Inl (Wrapf ''prometheus exporter: '' e '''')
            | None \<Rightarrow>
                (case find (\<lambda>i. inst_err i \<noteq> None) instruments of
                   Some i \<Rightarrow> Inl (the (inst_err i))
                 | None \<Rightarrow>
                     Inr (Live \<lparr>lm_attrs = [(''bus'', mc_Bus cfg), (''mode'', mc_Mode cfg), (''role'', mc_Role cfg)],
                                lm_counts = \<lparr>received_total = 0, gaps_total = 0\<rparr>, lm_published = 0, lm_errors = 0,
                                lm_reconnects = 0, lm_latency = []\<rparr>))))"

text \<open>The meter provider of the benchmark: the caller's views, then the latency buckets, and the address it
  serves if one is given.\<close>

definition latency_boundaries :: "rat list" where
  "latency_boundaries = map (\<lambda>us. us / 1000000)
     [25, 50, 100, 200, 400, 800, 1600, 3200, 6400, 12800, 25600, 51200, 100000, 200000, 400000, 800000, 1600000, 3200000,
      6400000, 12800000, 30000000]"

datatype view = LatencyBucketsView | CallerView string

record meter_provider =
  mp_views :: "view list"
  mp_served :: "string option"

definition metrics_NewProvider :: "gerr option \<Rightarrow> string \<Rightarrow> view list \<Rightarrow> gerr + meter_provider" where
  "metrics_NewProvider exp_err addr views =
     (case exp_err of
        Some e \<Rightarrow> Inl (Wrapf ''prometheus exporter: '' e '''')
      | None \<Rightarrow> Inr \<lparr>mp_views = views @ [LatencyBucketsView], mp_served = (if addr = '''' then None else Some addr)\<rparr>)"

lemma latency_boundaries_increasing: "sorted_wrt (<) latency_boundaries" and "length latency_boundaries = 21"
  by (simp_all add: latency_boundaries_def)

fun IncPublished :: "mb_recorder \<Rightarrow> mb_recorder" where
  "IncPublished Nop = Nop"
| "IncPublished (Live m) = Live (m\<lparr>lm_published := lm_published m + 1\<rparr>)"

fun IncPublishError :: "mb_recorder \<Rightarrow> mb_recorder" where
  "IncPublishError Nop = Nop"
| "IncPublishError (Live m) = Live (m\<lparr>lm_errors := lm_errors m + 1\<rparr>)"

fun IncReconnect :: "mb_recorder \<Rightarrow> mb_recorder" where
  "IncReconnect Nop = Nop"
| "IncReconnect (Live m) = Live (m\<lparr>lm_reconnects := lm_reconnects m + 1\<rparr>)"

fun ObserveLatency :: "duration \<Rightarrow> mb_recorder \<Rightarrow> mb_recorder" where
  "ObserveLatency d Nop = Nop"
| "ObserveLatency d (Live m) = Live (m\<lparr>lm_latency := lm_latency m @ [Seconds d]\<rparr>)"

text \<open>\<open>RecordReceived\<close> through the interface: the disabled recorder counts nothing, the tracker moves
  all the same.\<close>

fun record_received :: "string \<Rightarrow> mb_recorder \<times> gap_tracker \<Rightarrow> mb_recorder \<times> gap_tracker" where
  "record_received data (Nop, g) = (Nop, snd (RecordReceived data (\<lparr>received_total = 0, gaps_total = 0\<rparr>, g)))"
| "record_received data (Live m, g) =
     (let (c, g1) = RecordReceived data (lm_counts m, g) in (Live (m\<lparr>lm_counts := c\<rparr>), g1))"

section \<open>Subscribing\<close>

text \<open>\<open>ts\<close> is the clock reading of each call of \<open>Emit\<close> in the two layouts; \<open>json\<close> the marshalled object.\<close>

definition Emit :: "(string \<Rightarrow> string \<Rightarrow> string) \<Rightarrow> string \<Rightarrow> cli_flags \<Rightarrow> string \<Rightarrow> string \<Rightarrow> string" where
  "Emit json ts f subject data =
     (if fl_JSON f then json subject data else ts @ ''  ['' @ subject @ ''] '' @ data)"

record sub_state =
  ss_rec :: mb_recorder
  ss_gaps :: gap_tracker
  ss_lim :: limiter
  ss_out :: "string list"
  ss_acks :: nat

definition sub_init :: "cli_flags \<Rightarrow> mb_recorder \<Rightarrow> sub_state" where
  "sub_init f rec = \<lparr>ss_rec = rec, ss_gaps = new_tracker, ss_lim = NewLimiter (loop_flags f), ss_out = [], ss_acks = 0\<rparr>"

text \<open>The three lines every subscriber runs per message, and the acknowledgement of the durable one.\<close>

definition on_message ::
  "(string \<Rightarrow> string \<Rightarrow> string) \<Rightarrow> string \<Rightarrow> bool \<Rightarrow> cli_flags \<Rightarrow> string \<Rightarrow> string \<Rightarrow> sub_state \<Rightarrow> sub_state" where
  "on_message json ts ack f subject data s =
     (let (rec, g) = record_received data (ss_rec s, ss_gaps s) in
      s\<lparr>ss_rec := rec, ss_gaps := g, ss_out := ss_out s @ [Emit json ts f subject data],
        ss_acks := (if ack then ss_acks s + 1 else ss_acks s), ss_lim := Hit (ss_lim s)\<rparr>)"

datatype sub_event =
    Delivered string string string
  | StopFires
  | DoneFires
  | ChanClosed

text \<open>How a wait ends: by one of the two channels, by the delivery channel closing, or not yet.  A
  schedule that takes the \<open>Done\<close> case while its channel is open is impossible: \<open>None\<close>.\<close>

datatype sub_end = ByStop | ByDone | ByClose | Waiting

fun sub_wait ::
  "(string \<Rightarrow> string \<Rightarrow> string) \<Rightarrow> bool \<Rightarrow> cli_flags \<Rightarrow> sub_event list \<Rightarrow> sub_state \<Rightarrow> (sub_end \<times> sub_state) option" where
  "sub_wait json ack f [] s = Some (Waiting, s)"
| "sub_wait json ack f (StopFires # es) s = Some (ByStop, s)"
| "sub_wait json ack f (DoneFires # es) s = (if closes (ss_lim s) > 0 then Some (ByDone, s) else None)"
| "sub_wait json ack f (ChanClosed # es) s = Some (ByClose, s)"
| "sub_wait json ack f (Delivered ts subject data # es) s = sub_wait json ack f es (on_message json ts ack f subject data s)"

section \<open>Publishing\<close>

text \<open>The body of the send callback of every bus but RabbitMQ: the library's publish and the counter.\<close>

definition counted_publish ::
  "(string \<Rightarrow> string \<Rightarrow> 'w \<Rightarrow> gerr option \<times> 'w) \<Rightarrow> cli_flags \<Rightarrow> string \<Rightarrow> mb_recorder \<times> 'w \<Rightarrow> gerr option \<times> (mb_recorder \<times> 'w)" where
  "counted_publish publish f body s =
     (case publish (fl_Subject f) body (snd s) of
        (Some err, w) \<Rightarrow> (Some err, (IncPublishError (fst s), w))
      | (None, w) \<Rightarrow> (None, (IncPublished (fst s), w)))"

text \<open>The confirmed publish: the library's error, or whether the broker acknowledged and the time it took.\<close>

definition confirmed_publish ::
  "(string \<Rightarrow> 'w \<Rightarrow> (gerr + bool \<times> duration) \<times> 'w) \<Rightarrow> string \<Rightarrow> mb_recorder \<times> 'w \<Rightarrow> gerr option \<times> (mb_recorder \<times> 'w)" where
  "confirmed_publish publish body s =
     (case publish body (snd s) of
        (Inl err, w) \<Rightarrow> (Some err, (IncPublishError (fst s), w))
      | (Inr (acked, elapsed), w) \<Rightarrow>
          (if \<not> acked then (Some (Opaque ''message nacked by broker''), (IncPublishError (fst s), w))
           else (None, (IncPublished (ObserveLatency elapsed (fst s)), w))))"

text \<open>What a command leaves: its exit, the recorder, the lines on standard output and the library's state.\<close>

datatype cli_exit = UsageExit string | CliFatal string | CliReturns | CliWaits | CliPanics | CliImpossible

record 'w cli_result =
  cr_exit :: cli_exit
  cr_rec :: mb_recorder
  cr_out :: "string list"
  cr_world :: 'w

definition fatal :: "string \<Rightarrow> mb_recorder \<Rightarrow> 'w \<Rightarrow> 'w cli_result" where
  "fatal msg rec w = \<lparr>cr_exit = CliFatal msg, cr_rec = rec, cr_out = [], cr_world = w\<rparr>"

definition pub_done :: "string \<Rightarrow> duration list \<times> (gerr + string) \<times> (mb_recorder \<times> 'w) \<Rightarrow> 'w cli_result" where
  "pub_done post r =
     (case r of
        (sl, Inl err, (rec, w)) \<Rightarrow> fatal (Error err @ post) rec w
      | (sl, Inr summary, (rec, w)) \<Rightarrow> \<lparr>cr_exit = CliReturns, cr_rec = rec, cr_out = [summary], cr_world = w\<rparr>)"

definition sub_done :: "bool \<Rightarrow> 'w \<Rightarrow> (sub_end \<times> sub_state) option \<Rightarrow> 'w cli_result" where
  "sub_done close_panics w r =
     (case r of
        None \<Rightarrow> \<lparr>cr_exit = CliImpossible, cr_rec = Nop, cr_out = [], cr_world = w\<rparr>
      | Some (e, s) \<Rightarrow>
          \<lparr>cr_exit = (case e of Waiting \<Rightarrow> CliWaits | ByClose \<Rightarrow> (if close_panics then CliPanics else CliReturns) | _ \<Rightarrow> CliReturns),
           cr_rec = ss_rec s, cr_out = ss_out s, cr_world = w\<rparr>)"

text \<open>The start every command has: the arguments, then the metrics.\<close>

definition with_setup ::
  "std_parsers \<Rightarrow> duration \<Rightarrow> gerr option \<Rightarrow> (string \<Rightarrow> gerr option) \<Rightarrow> string \<Rightarrow> string \<Rightarrow> string \<Rightarrow> string \<Rightarrow> (cli_flags \<Rightarrow> string)
   \<Rightarrow> (cli_flags \<Rightarrow> mb_recorder \<Rightarrow> 'w cli_result) \<Rightarrow> string list \<Rightarrow> 'w \<Rightarrow> 'w cli_result" where
  "with_setup P oor exp_err inst_err bin defAddr defPass bus mode_of run args w =
     (case Parse P oor bin defAddr defPass args of
        Inl usage \<Rightarrow> \<lparr>cr_exit = UsageExit usage, cr_rec = Nop, cr_out = [], cr_world = w\<rparr>
      | Inr f \<Rightarrow>
          (case Setup exp_err inst_err \<lparr>mc_Addr = fl_MetricsAddr f, mc_Bus = bus, mc_Mode = mode_of f, mc_Role = fl_Cmd f\<rparr> of
             Inl err \<Rightarrow> fatal (''metrics: '' @ Error err) Nop w
           | Inr rec \<Rightarrow> run f rec))"

section \<open>natscli\<close>

record 'w nats_lib =
  nl_connect :: "string \<Rightarrow> gerr option"
  nl_publish :: "string \<Rightarrow> string \<Rightarrow> 'w \<Rightarrow> gerr option \<times> 'w"
  nl_flush :: "'w \<Rightarrow> gerr option \<times> 'w"
  nl_subscribe :: "gerr option"
  nl_jetstream :: "gerr option"
  nl_streamInfo :: "string \<Rightarrow> gerr option"
  nl_addStream :: "string \<Rightarrow> string \<Rightarrow> gerr option"
  nl_jsPublish :: "string \<Rightarrow> string \<Rightarrow> 'w \<Rightarrow> gerr option \<times> 'w"
  nl_jsSubscribe :: "gerr option"

text \<open>The stream's name; \<open>runes\<close> are the code points of the subject as \<open>range\<close> yields them.\<close>

definition name_rune :: "nat \<Rightarrow> bool" where
  "name_rune r \<longleftrightarrow> 97 \<le> r \<and> r \<le> 122 \<or> 65 \<le> r \<and> r \<le> 90 \<or> 48 \<le> r \<and> r \<le> 57"

definition ToUpper :: "char \<Rightarrow> char" where
  "ToUpper c = (if 97 \<le> (of_char c :: nat) \<and> (of_char c :: nat) \<le> 122 then char_of (of_char c - 32 :: nat) else c)"

definition streamNameFor :: "nat list \<Rightarrow> string" where
  "streamNameFor runes =
     (let s = map (\<lambda>r. if name_rune r then char_of r else CHR ''_'') runes;
          s1 = (if s = '''' then ''STREAM'' else s)
      in ''MBEX_'' @ map ToUpper s1)"

definition ensureStream :: "'w nats_lib \<Rightarrow> string \<Rightarrow> string \<Rightarrow> gerr option" where
  "ensureStream L name subject =
     (case nl_streamInfo L name of
        None \<Rightarrow> None
      | Some err \<Rightarrow> if errors_Is err NatsErrStreamNotFound then nl_addStream L name subject else Some err)"

text \<open>\<open>range\<close> over a string decodes UTF-8; a byte that starts no valid sequence is the replacement
  character.\<close>

definition decode_rune :: "nat list \<Rightarrow> nat \<times> nat" where
  "decode_rune bs =
     (let b0 = bs ! 0; n = length bs; ct = (\<lambda>i. i < n \<and> 128 \<le> bs ! i \<and> bs ! i \<le> 191); lo = (\<lambda>i. bs ! i - 128) in
      if b0 < 128 then (b0, 1)
      else if 194 \<le> b0 \<and> b0 \<le> 223 \<and> ct 1 then ((b0 - 192) * 64 + lo 1, 2)
      else if 224 \<le> b0 \<and> b0 \<le> 239 \<and> ct 1 \<and> ct 2 \<and> (b0 = 224 \<longrightarrow> 160 \<le> bs ! 1) \<and> (b0 = 237 \<longrightarrow> bs ! 1 \<le> 159)
      then ((b0 - 224) * 4096 + lo 1 * 64 + lo 2, 3)
      else if 240 \<le> b0 \<and> b0 \<le> 244 \<and> ct 1 \<and> ct 2 \<and> ct 3 \<and> (b0 = 240 \<longrightarrow> 144 \<le> bs ! 1) \<and> (b0 = 244 \<longrightarrow> bs ! 1 \<le> 143)
      then ((b0 - 240) * 262144 + lo 1 * 4096 + lo 2 * 64 + lo 3, 4)
      else (65533, 1))"

lemma decode_rune_width: "1 \<le> snd (decode_rune bs)"
  by (simp add: decode_rune_def Let_def)

function runes :: "nat list \<Rightarrow> nat list" where
  "runes bs = (if bs = [] then [] else fst (decode_rune bs) # runes (drop (snd (decode_rune bs)) bs))"
  by pat_completeness auto
termination
proof (relation "measure length")
  fix bs :: "nat list" assume "bs \<noteq> []"
  then show "(drop (snd (decode_rune bs)) bs, bs) \<in> measure length"
    using decode_rune_width [of bs] by (cases bs) auto
qed simp

declare runes.simps [simp del]

definition runes_of :: "string \<Rightarrow> nat list" where
  "runes_of s = runes (map of_char s)"

lemma runes_ascii: "\<forall>b \<in> set bs. b < 128 \<Longrightarrow> runes bs = bs"
  by (induction bs) (simp_all add: runes.simps decode_rune_def)

definition runCore ::
  "'w nats_lib \<Rightarrow> (string \<Rightarrow> string \<Rightarrow> string) \<Rightarrow> sub_event list \<Rightarrow> cli_flags \<Rightarrow> mb_recorder \<Rightarrow> 'w \<Rightarrow> 'w cli_result" where
  "runCore L json es f rec w =
     (if fl_Cmd f = ''pub'' then
        (let r = pub_done '''' (PubLoop (counted_publish (nl_publish L) f) (loop_flags f) (rec, w)) in
         case cr_exit r of
           CliReturns \<Rightarrow>
             (case nl_flush L (cr_world r) of
                (Some err, w1) \<Rightarrow> r\<lparr>cr_exit := CliFatal (''flush: '' @ Error err), cr_world := w1\<rparr>
              | (None, w1) \<Rightarrow> r\<lparr>cr_world := w1\<rparr>)
         | _ \<Rightarrow> r)
      else
        (case nl_subscribe L of
           Some err \<Rightarrow> fatal (''subscribe: '' @ Error err) rec w
         | None \<Rightarrow> sub_done False w (sub_wait json False f es (sub_init f rec))))"

definition natscli_runJetStream ::
  "'w nats_lib \<Rightarrow> (string \<Rightarrow> string \<Rightarrow> string) \<Rightarrow> sub_event list \<Rightarrow> cli_flags \<Rightarrow> mb_recorder \<Rightarrow> 'w \<Rightarrow> 'w cli_result" where
  "natscli_runJetStream L json es f rec w =
     (case nl_jetstream L of
        Some err \<Rightarrow> fatal (''jetstream: '' @ Error err) rec w
      | None \<Rightarrow>
          (let stream = streamNameFor (runes_of (fl_Subject f)) in
           case ensureStream L stream (fl_Subject f) of
             Some err \<Rightarrow> fatal (''ensure stream '' @ quoted stream @ '': '' @ Error err) rec w
           | None \<Rightarrow>
               (if fl_Cmd f = ''pub'' then
                  pub_done '''' (PubLoop (counted_publish (nl_jsPublish L) f) (loop_flags f) (rec, w))
                else
                  (case nl_jsSubscribe L of
                     Some err \<Rightarrow> fatal (''subscribe (jetstream): '' @ Error err) rec w
                   | None \<Rightarrow> sub_done False w (sub_wait json True f es (sub_init f rec))))))"

definition natscli ::
  "std_parsers \<Rightarrow> duration \<Rightarrow> gerr option \<Rightarrow> (string \<Rightarrow> gerr option) \<Rightarrow> 'w nats_lib \<Rightarrow> (string \<Rightarrow> string \<Rightarrow> string) \<Rightarrow> sub_event list
   \<Rightarrow> string list \<Rightarrow> 'w \<Rightarrow> 'w cli_result" where
  "natscli P oor exp_err inst_err L json es args w =
     with_setup P oor exp_err inst_err ''natscli'' ''127.0.0.1:30422'' '''' ''nats''
       (\<lambda>f. if fl_JetStream f then ''jetstream'' else ''core'')
       (\<lambda>f rec. case nl_connect L (''nats://'' @ fl_Addr f) of
                  Some err \<Rightarrow> fatal (''connect: '' @ Error err) rec w
                | None \<Rightarrow> if fl_JetStream f then natscli_runJetStream L json es f rec w else runCore L json es f rec w)
       args w"

section \<open>mqttcli\<close>

record 'w mqtt_lib =
  ml_connect :: "string \<Rightarrow> gerr option"
  ml_publish :: "string \<Rightarrow> string \<Rightarrow> 'w \<Rightarrow> gerr option \<times> 'w"
  ml_subscribe :: "gerr option"

definition mqttcli ::
  "std_parsers \<Rightarrow> duration \<Rightarrow> gerr option \<Rightarrow> (string \<Rightarrow> gerr option) \<Rightarrow> 'w mqtt_lib \<Rightarrow> (string \<Rightarrow> string \<Rightarrow> string) \<Rightarrow> sub_event list
   \<Rightarrow> string list \<Rightarrow> 'w \<Rightarrow> 'w cli_result" where
  "mqttcli P oor exp_err inst_err L json es args w =
     with_setup P oor exp_err inst_err ''mqttcli'' ''127.0.0.1:30883'' '''' ''mqtt'' (\<lambda>f. ''bridge'')
       (\<lambda>f rec. case ml_connect L (''tcp://'' @ fl_Addr f) of
                  Some err \<Rightarrow> fatal (''connect: '' @ Error err) rec w
                | None \<Rightarrow>
                    (if fl_Cmd f = ''pub'' then
                       pub_done '''' (PubLoop (counted_publish (ml_publish L) f) (loop_flags f) (rec, w))
                     else
                       (case ml_subscribe L of
                          Some err \<Rightarrow> fatal (''subscribe: '' @ Error err) rec w
                        | None \<Rightarrow> sub_done False w (sub_wait json False f es (sub_init f rec)))))
       args w"

section \<open>valkeycli\<close>

datatype valkey_dial_opts = Failover string "string list" string | Direct string string

definition masterName :: string where "masterName = ''mymaster''"

definition valkey_newClient :: "cli_flags \<Rightarrow> valkey_dial_opts" where
  "valkey_newClient f =
     (if fl_Sentinels f \<noteq> '''' then
        Failover masterName (filter (\<lambda>a. a \<noteq> '''') (map TrimSpace (Split CHR '','' (fl_Sentinels f)))) (fl_Pass f)
      else Direct (fl_Addr f) (fl_Pass f))"

definition valkey_target_text :: "cli_flags \<Rightarrow> string" where
  "valkey_target_text f =
     (if fl_Sentinels f \<noteq> '''' then ''sentinel['' @ masterName @ ''] via '' @ fl_Sentinels f else fl_Addr f)"

record 'w valkey_lib =
  vl_publish :: "valkey_dial_opts \<Rightarrow> string \<Rightarrow> string \<Rightarrow> 'w \<Rightarrow> gerr option \<times> 'w"
  vl_receive :: "gerr option"

text \<open>A closed delivery channel yields a nil message, which the loop dereferences.\<close>

definition valkeycli ::
  "std_parsers \<Rightarrow> duration \<Rightarrow> gerr option \<Rightarrow> (string \<Rightarrow> gerr option) \<Rightarrow> 'w valkey_lib \<Rightarrow> (string \<Rightarrow> string \<Rightarrow> string) \<Rightarrow> sub_event list
   \<Rightarrow> string \<Rightarrow> string list \<Rightarrow> 'w \<Rightarrow> 'w cli_result" where
  "valkeycli P oor exp_err inst_err L json es pass args w =
     with_setup P oor exp_err inst_err ''valkeycli'' ''127.0.0.1:30637'' pass ''valkey''
       (\<lambda>f. if fl_Sentinels f \<noteq> '''' then ''sentinel'' else ''direct'')
       (\<lambda>f rec. if fl_Cmd f = ''pub'' then
                  pub_done '' (check -pass)''
                    (PubLoop (counted_publish (vl_publish L (valkey_newClient f)) f) (loop_flags f) (rec, w))
                else
                  (case vl_receive L of
                     Some err \<Rightarrow> fatal (''subscribe (check -pass): '' @ Error err) rec w
                   | None \<Rightarrow> sub_done True w (sub_wait json False f es (sub_init f rec))))
       args w"

section \<open>rabbitmqcli\<close>

text \<open>\<open>consume\<close> prints every message under the subject of the command line.\<close>

fun under_subject :: "string \<Rightarrow> sub_event \<Rightarrow> sub_event" where
  "under_subject subject (Delivered ts key data) = Delivered ts subject data"
| "under_subject subject e = e"

definition consume ::
  "(string \<Rightarrow> string \<Rightarrow> string) \<Rightarrow> sub_event list \<Rightarrow> cli_flags \<Rightarrow> mb_recorder \<Rightarrow> 'w \<Rightarrow> 'w cli_result" where
  "consume json es f rec w = sub_done False w (sub_wait json False f (map (under_subject (fl_Subject f)) es) (sub_init f rec))"

record 'w rabbit_lib =
  rl_dial :: "string \<Rightarrow> gerr option"
  rl_channel :: "gerr option"
  rl_exchange :: "string \<Rightarrow> gerr option"
  rl_confirm :: "gerr option"
  rl_publish :: "string \<Rightarrow> string \<Rightarrow> nat \<Rightarrow> string \<Rightarrow> 'w \<Rightarrow> (gerr + bool \<times> duration) \<times> 'w"
  rl_tempQueue :: "gerr + string"
  rl_quorum :: "string \<Rightarrow> gerr option"
  rl_bind :: "string \<Rightarrow> string \<Rightarrow> gerr option"
  rl_consume :: "string \<Rightarrow> bool \<Rightarrow> gerr option"

definition Transient :: nat where "Transient = 1"
definition Persistent :: nat where "Persistent = 2"

definition publishConfirmed ::
  "'w rabbit_lib \<Rightarrow> string \<Rightarrow> string \<Rightarrow> nat \<Rightarrow> cli_flags \<Rightarrow> mb_recorder \<Rightarrow> 'w \<Rightarrow> 'w cli_result" where
  "publishConfirmed L exchange key mode f rec w =
     (case rl_confirm L of
        Some err \<Rightarrow> fatal (''enable publisher confirms: '' @ Error err) rec w
      | None \<Rightarrow> pub_done '''' (PubLoop (confirmed_publish (rl_publish L exchange key mode)) (loop_flags f) (rec, w)))"

definition runFanout ::
  "'w rabbit_lib \<Rightarrow> (string \<Rightarrow> string \<Rightarrow> string) \<Rightarrow> sub_event list \<Rightarrow> cli_flags \<Rightarrow> mb_recorder \<Rightarrow> 'w \<Rightarrow> 'w cli_result" where
  "runFanout L json es f rec w =
     (case rl_exchange L (fl_Subject f) of
        Some err \<Rightarrow> fatal (''exchange declare: '' @ Error err) rec w
      | None \<Rightarrow>
          (if fl_Cmd f = ''pub'' then publishConfirmed L (fl_Subject f) '''' Transient f rec w
           else
             (case rl_tempQueue L of
                Inl err \<Rightarrow> fatal (''queue declare: '' @ Error err) rec w
              | Inr q \<Rightarrow>
                  (case rl_bind L q (fl_Subject f) of
                     Some err \<Rightarrow> fatal (''queue bind: '' @ Error err) rec w
                   | None \<Rightarrow>
                       (case rl_consume L q True of
                          Some err \<Rightarrow> fatal (''consume: '' @ Error err) rec w
                        | None \<Rightarrow> consume json es f rec w)))))"

definition rabbitmqcli_runQuorum ::
  "'w rabbit_lib \<Rightarrow> (string \<Rightarrow> string \<Rightarrow> string) \<Rightarrow> sub_event list \<Rightarrow> cli_flags \<Rightarrow> mb_recorder \<Rightarrow> 'w \<Rightarrow> 'w cli_result" where
  "rabbitmqcli_runQuorum L json es f rec w =
     (let queue = fl_Subject f @ ''.quorum'' in
      case rl_quorum L queue of
        Some err \<Rightarrow> fatal (''quorum queue declare: '' @ Error err) rec w
      | None \<Rightarrow>
          (if fl_Cmd f = ''pub'' then publishConfirmed L '''' queue Persistent f rec w
           else
             (case rl_consume L queue False of
                Some err \<Rightarrow> fatal (''consume: '' @ Error err) rec w
              | None \<Rightarrow> consume json es f rec w)))"

definition rabbitmqcli ::
  "std_parsers \<Rightarrow> duration \<Rightarrow> gerr option \<Rightarrow> (string \<Rightarrow> gerr option) \<Rightarrow> 'w rabbit_lib \<Rightarrow> (string \<Rightarrow> string \<Rightarrow> string) \<Rightarrow> sub_event list
   \<Rightarrow> string \<Rightarrow> string list \<Rightarrow> 'w \<Rightarrow> 'w cli_result" where
  "rabbitmqcli P oor exp_err inst_err L json es pass args w =
     with_setup P oor exp_err inst_err ''rabbitmqcli'' ''127.0.0.1:30567'' pass ''rabbitmq''
       (\<lambda>f. if fl_Durable f then ''durable'' else ''fanout'')
       (\<lambda>f rec. case rl_dial L (''amqp://'' @ fl_User f @ '':'' @ fl_Pass f @ ''@'' @ fl_Addr f @ ''/'') of
                  Some err \<Rightarrow> fatal (''dial (check -user/-pass; see -h): '' @ Error err) rec w
                | None \<Rightarrow>
                    (case rl_channel L of
                       Some err \<Rightarrow> fatal (''channel: '' @ Error err) rec w
                     | None \<Rightarrow> if fl_Durable f then rabbitmqcli_runQuorum L json es f rec w else runFanout L json es f rec w))
       args w"

section \<open>What a send callback promises\<close>

text \<open>The account of a publishing command: at most one error, which is its last message; a command
  that returns published every message and printed its summary.\<close>

definition accounted :: "flags \<Rightarrow> 'w cli_result \<Rightarrow> bool" where
  "accounted f r \<longleftrightarrow>
     (\<exists>m. cr_rec r = Live m \<and> 0 \<le> lm_published m \<and> lm_published m + lm_errors m \<le> int (pub_count f) \<and>
        (lm_errors m = 0 \<or> lm_errors m = 1 \<and> (\<exists>msg. cr_exit r = CliFatal msg)) \<and>
        (cr_exit r = CliReturns \<and> lm_published m = int (pub_count f) \<and> cr_out r = [pub_summary f] \<or>
         (\<exists>msg. cr_exit r = CliFatal msg)))"

text \<open>The contract of a send callback with a live recorder: a success counts one message published, a
  failure one publish error, and nothing else is counted.\<close>

locale counting_send =
  fixes send :: "string \<Rightarrow> mb_recorder \<times> 'w \<Rightarrow> gerr option \<times> (mb_recorder \<times> 'w)"
  assumes send_live: "\<exists>m' w'. send b (Live m, w) = (None, (Live m', w')) \<and> lm_published m' = lm_published m + 1 \<and> lm_errors m' = lm_errors m \<or>
      (\<exists>e. send b (Live m, w) = (Some e, (Live m', w')) \<and> lm_published m' = lm_published m \<and> lm_errors m' = lm_errors m + 1)"
begin

lemma pub_from_counts:
  assumes "i \<le> pub_count f"
  shows "\<exists>sl res m' w' j. pub_from send f i (Live m, w) = (sl, res, (Live m', w')) \<and> i \<le> j \<and>
           lm_published m' = lm_published m + int (j - i) \<and>
           (res = Inr (pub_summary f) \<and> j = pub_count f \<and> lm_errors m' = lm_errors m \<or>
            (\<exists>e. res = Inl e) \<and> j < pub_count f \<and> lm_errors m' = lm_errors m + 1)"
  using assms
proof (induction "pub_count f - i" arbitrary: i m w)
  case 0
  then show ?case by (intro exI [of _ "[]"] exI [of _ "Inr (pub_summary f)"] exI [of _ m] exI [of _ w] exI [of _ i]) (simp add: pub_from.simps)
next
  case (Suc k)
  then have lt: "i < pub_count f" and k: "k = pub_count f - (i + 1)" "i + 1 \<le> pub_count f" by simp_all
  from send_live [of "pub_body f i" m w] show ?case
  proof (elim exE disjE conjE)
    fix m1 w1 assume s: "send (pub_body f i) (Live m, w) = (None, (Live m1, w1))"
      "lm_published m1 = lm_published m + 1" "lm_errors m1 = lm_errors m"
    from Suc.hyps(1) [OF k, of m1 w1] obtain sl res m' w' j
      where "pub_from send f (i + 1) (Live m1, w1) = (sl, res, (Live m', w'))" "i + 1 \<le> j"
        "lm_published m' = lm_published m1 + int (j - (i + 1))"
        "res = Inr (pub_summary f) \<and> j = pub_count f \<and> lm_errors m' = lm_errors m1 \<or>
         (\<exists>e. res = Inl e) \<and> j < pub_count f \<and> lm_errors m' = lm_errors m1 + 1" by blast
    with s lt show ?thesis
      by (subst pub_from.simps)
         (auto simp: Let_def intro!: exI [of _ m'] exI [of _ w'] exI [of _ j])
  next
    fix m1 w1 e assume "send (pub_body f i) (Live m, w) = (Some e, (Live m1, w1))"
      "lm_published m1 = lm_published m" "lm_errors m1 = lm_errors m + 1"
    with lt show ?thesis
      by (subst pub_from.simps) (auto simp: Let_def intro!: exI [of _ m1] exI [of _ w1] exI [of _ i])
  qed
qed

lemma PubLoop_accounted:
  "lm_published m = 0 \<Longrightarrow> lm_errors m = 0 \<Longrightarrow> accounted f (pub_done post (PubLoop send f (Live m, w)))"
  using pub_from_counts [of 0 f m w] by (auto simp: PubLoop_def pub_done_def fatal_def accounted_def)

end

interpretation cp: counting_send "counted_publish publish f" for publish f
proof
  fix b m w
  show "\<exists>m' w'. counted_publish publish f b (Live m, w) = (None, (Live m', w')) \<and> lm_published m' = lm_published m + 1 \<and> lm_errors m' = lm_errors m \<or>
      (\<exists>e. counted_publish publish f b (Live m, w) = (Some e, (Live m', w')) \<and> lm_published m' = lm_published m \<and> lm_errors m' = lm_errors m + 1)"
    by (cases "fst (publish (fl_Subject f) b w)"; cases "publish (fl_Subject f) b w") (auto simp: counted_publish_def)
qed

interpretation rp: counting_send "confirmed_publish publish" for publish
proof
  fix b m w
  show "\<exists>m' w'. confirmed_publish publish b (Live m, w) = (None, (Live m', w')) \<and> lm_published m' = lm_published m + 1 \<and> lm_errors m' = lm_errors m \<or>
      (\<exists>e. confirmed_publish publish b (Live m, w) = (Some e, (Live m', w')) \<and> lm_published m' = lm_published m \<and> lm_errors m' = lm_errors m + 1)"
  proof (cases "publish b w")
    case (Pair r w')
    then show ?thesis by (cases r) (auto simp: confirmed_publish_def split: if_splits prod.splits)
  qed
qed

section \<open>Facts about the commands\<close>

definition started :: "metrics_config \<Rightarrow> live_metrics" where
  "started cfg = \<lparr>lm_attrs = [(''bus'', mc_Bus cfg), (''mode'', mc_Mode cfg), (''role'', mc_Role cfg)],
     lm_counts = \<lparr>received_total = 0, gaps_total = 0\<rparr>, lm_published = 0, lm_errors = 0, lm_reconnects = 0, lm_latency = []\<rparr>"

lemma Setup_live: "mc_Addr cfg \<noteq> '''' \<Longrightarrow> Setup None (\<lambda>_. None) cfg = Inr (Live (started cfg))"
  by (simp add: Setup_def started_def instruments_def)

lemma accounted_fatal: "lm_published m = 0 \<Longrightarrow> lm_errors m = 0 \<Longrightarrow> accounted f (fatal msg (Live m) w)"
  by (simp add: accounted_def fatal_def)

lemma accounted_flush:
  "accounted f r \<Longrightarrow> cr_exit r = CliReturns \<Longrightarrow> accounted f (r\<lparr>cr_world := w\<rparr>)"
  "accounted f r \<Longrightarrow> cr_exit r = CliReturns \<Longrightarrow> accounted f (r\<lparr>cr_exit := CliFatal msg, cr_world := w\<rparr>)"
  by (auto simp: accounted_def)

lemma accounted_exit: "accounted f r \<Longrightarrow> cr_exit r = CliReturns \<or> (\<exists>msg. cr_exit r = CliFatal msg)"
  by (auto simp: accounted_def)

lemma runCore_accounted:
  assumes "fl_Cmd f = ''pub''" and "lm_published m = 0" and "lm_errors m = 0"
  shows "accounted (loop_flags f) (runCore L json es f (Live m) w)"
proof -
  let ?r = "pub_done '''' (PubLoop (counted_publish (nl_publish L) f) (loop_flags f) (Live m, w))"
  have acc: "accounted (loop_flags f) ?r" by (rule cp.PubLoop_accounted [OF assms(2,3)])
  from accounted_exit [OF acc] show ?thesis
  proof (elim disjE exE)
    assume "cr_exit ?r = CliReturns"
    then show ?thesis
      using assms(1) accounted_flush [OF acc]
      by (cases "nl_flush L (cr_world ?r)") (auto simp: runCore_def Let_def split: option.splits)
  qed (use assms(1) acc in \<open>simp add: runCore_def Let_def\<close>)
qed

lemma jetstream_accounted:
  assumes "fl_Cmd f = ''pub''" and "lm_published m = 0" and "lm_errors m = 0"
  shows "accounted (loop_flags f) (natscli_runJetStream L json es f (Live m) w)"
  using assms
  by (auto simp: natscli_runJetStream_def Let_def intro!: accounted_fatal cp.PubLoop_accounted split: option.split)

lemma confirmed_accounted:
  assumes "lm_published m = 0" and "lm_errors m = 0"
  shows "accounted (loop_flags f) (publishConfirmed L x k md f (Live m) w)"
  using assms by (auto simp: publishConfirmed_def intro!: accounted_fatal rp.PubLoop_accounted split: option.split)

lemma started_counts [simp]: "lm_published (started cfg) = 0" "lm_errors (started cfg) = 0"
  by (simp_all add: started_def)

lemma Parse_render:
  assumes "fl_Cmd f \<in> {''pub'', ''sub''}" and "sp_int P (itoa (fl_Count f)) = Inr (fl_Count f)"
    and "sp_duration P (Duration_String (fl_Timeout f)) = Inr (fl_Timeout f)" and "parseRate P oor rate = Inr iv"
  shows "Parse P oor bin defAddr defPass (render f rate) = Inr (f\<lparr>fl_interval := iv\<rparr>)"
  using parseArgs_render [OF assms(1-3), of oor bin defAddr defPass rate] assms(4) by (simp add: Parse_def)

lemma with_setup_live:
  assumes "fl_Cmd f \<in> {''pub'', ''sub''}" and "sp_int P (itoa (fl_Count f)) = Inr (fl_Count f)"
    and "sp_duration P (Duration_String (fl_Timeout f)) = Inr (fl_Timeout f)" and "parseRate P oor rate = Inr iv"
    and "fl_MetricsAddr f \<noteq> ''''" and "g = f\<lparr>fl_interval := iv\<rparr>"
  shows "with_setup P oor None (\<lambda>_. None) bin defAddr defPass bus mode_of run (render f rate) w =
           run g (Live (started \<lparr>mc_Addr = fl_MetricsAddr f, mc_Bus = bus, mc_Mode = mode_of g, mc_Role = fl_Cmd f\<rparr>))"
  using assms(5,6) by (simp add: with_setup_def Parse_render [OF assms(1-4)] Setup_live)

section \<open>Facts about subscribers\<close>

fun before_end :: "sub_event list \<Rightarrow> (string \<times> string \<times> string) list" where
  "before_end (Delivered ts subject data # es) = (ts, subject, data) # before_end es"
| "before_end _ = []"

lemma sub_wait_runs:
  assumes "sub_wait json ack f es s = Some (e, s')"
  shows "s' = fold (\<lambda>(ts, subject, data). on_message json ts ack f subject data) (before_end es) s \<and>
         (e = ByDone \<longrightarrow> closes (ss_lim s') > 0)"
  using assms by (induction json ack f es s rule: sub_wait.induct) (auto split: if_splits)

lemma fold_on_message:
  assumes "ss_rec s = Live m"
  shows "let s' = fold (\<lambda>(ts, subject, data). on_message json ts ack f subject data) ds s;
             (c, g) = fold RecordReceived (map (\<lambda>(ts, subject, data). data) ds) (lm_counts m, ss_gaps s)
         in ss_rec s' = Live (m\<lparr>lm_counts := c\<rparr>) \<and> ss_gaps s' = g \<and>
            ss_out s' = ss_out s @ map (\<lambda>(ts, subject, data). Emit json ts f subject data) ds \<and>
            ss_acks s' = ss_acks s + (if ack then length ds else 0) \<and> ss_lim s' = (Hit ^^ length ds) (ss_lim s)"
  using assms
proof (induction ds arbitrary: s m)
  case (Cons d ds)
  obtain ts subject data where d: "d = (ts, subject, data)" by (cases d)
  obtain c1 g1 where one: "RecordReceived data (lm_counts m, ss_gaps s) = (c1, g1)" by fastforce
  let ?s = "on_message json ts ack f subject data s"
  have s1: "ss_rec ?s = Live (m\<lparr>lm_counts := c1\<rparr>)" "ss_gaps ?s = g1" "ss_lim ?s = Hit (ss_lim s)"
      "ss_out ?s = ss_out s @ [Emit json ts f subject data]" "ss_acks ?s = ss_acks s + (if ack then 1 else 0)"
    by (simp_all add: on_message_def Cons.prems one)
  from Cons.IH [OF s1(1)] show ?case
    by (auto simp: d one s1 Let_def funpow_Suc_right simp del: funpow.simps split: prod.splits)
qed (simp split: prod.split)

lemma RecordReceived_total: "received_total (fst (RecordReceived data (c, g))) = received_total c + 1"
  by (simp add: RecordReceived_def Let_def split: option.split prod.split)

lemma fold_received_total: "received_total (fst (fold RecordReceived ds (c, g))) = received_total c + int (length ds)"
proof (induction ds arbitrary: c g)
  case (Cons d ds)
  then show ?case
    using RecordReceived_total [of d c g] by (cases "RecordReceived d (c, g)") simp
qed simp

section \<open>Properties\<close>


text \<open>A run whose third publish of three fails.\<close>

definition failing_nats :: "nat nats_lib" where
  "failing_nats =
     \<lparr>nl_connect = (\<lambda>_. None), nl_publish = (\<lambda>s b n. (if n = 2 then Some (Opaque ''closed'') else None, Suc n)),
      nl_flush = (\<lambda>n. (None, n)), nl_subscribe = None, nl_jetstream = None, nl_streamInfo = (\<lambda>_. None),
      nl_addStream = (\<lambda>_ _. None), nl_jsPublish = (\<lambda>s b n. (None, n)), nl_jsSubscribe = None\<rparr>"

definition soak_flags :: cli_flags where
  "soak_flags = (cli_defaults ''natscli'' ''a:1'' '''' ''pub'')\<lparr>fl_Count := 3, fl_MetricsAddr := '':9100''\<rparr>"




text \<open>The limit is a lower bound only.  Once the limit is reached the wait may still take further messages
  before it takes the end: for every number of additional messages there is an order of events in which a
  subscriber asked for \<open>n\<close> messages prints them all.\<close>

theorem sub_overshoot:
  assumes "0 < fl_Count f"
  shows "\<exists>es s. sub_wait json ack f es (sub_init f rec) = Some (ByDone, s) \<and> length (ss_out s) = nat (fl_Count f) + k"
proof -
  have grow: "ss_lim (fold (\<lambda>(ts, subject, data). on_message json ts ack f subject data) ds s) = (Hit ^^ length ds) (ss_lim s) \<and>
      length (ss_out (fold (\<lambda>(ts, subject, data). on_message json ts ack f subject data) ds s)) = length (ss_out s) + length ds" for ds s
    by (induction ds arbitrary: s) (auto simp: on_message_def funpow_Suc_right simp del: funpow.simps split: prod.split)
  have run: "sub_wait json ack f (map (\<lambda>(ts, subject, data). Delivered ts subject data) ds @ [DoneFires]) s =
      (let s' = fold (\<lambda>(ts, subject, data). on_message json ts ack f subject data) ds s in
       if closes (ss_lim s') > 0 then Some (ByDone, s') else None)" for ds s
    by (induction ds arbitrary: s) (auto simp: Let_def)
  let ?ds = "replicate (nat (fl_Count f) + k) (''t'', ''s'', ''m'')"
  have "closes ((Hit ^^ length ?ds) (NewLimiter (loop_flags f))) = 1"
    using assms by (simp only: Hit_iterate) (simp add: loop_flags_def)
  moreover define s' where "s' = fold (\<lambda>(ts, subject, data). on_message json ts ack f subject data) ?ds (sub_init f rec)"
  ultimately have "closes (ss_lim s') > 0" "length (ss_out s') = nat (fl_Count f) + k"
    using grow [of ?ds "sub_init f rec"] by (simp_all add: sub_init_def)
  moreover from this(1) have "sub_wait json ack f (map (\<lambda>(ts, subject, data). Delivered ts subject data) ?ds @ [DoneFires]) (sub_init f rec) = Some (ByDone, s')"
    by (simp only: run Let_def s'_def if_True)
  ultimately show ?thesis by blast
qed

theorem sub_overshoot_witness:
  "\<exists>es s. sub_wait (\<lambda>s d. d) False (soak_flags\<lparr>fl_Count := 1\<rparr>) es (sub_init (soak_flags\<lparr>fl_Count := 1\<rparr>) Nop) = Some (ByDone, s) \<and> length (ss_out s) = 3"
  using sub_overshoot [of "soak_flags\<lparr>fl_Count := 1\<rparr>" "\<lambda>s d. d" False Nop 2] by (simp add: numeral_3_eq_3)

text \<open>The stream name of a subject is always a valid one, capital letters, digits and underscores after the
  prefix, but it is not injective: two subjects may share a stream, and the command of the second finds
  the stream in place and does not create one for its subject.\<close>

theorem stream_name_lossy:
  "set (drop 5 (streamNameFor rs)) \<subseteq> {c. of_char c \<in> {65..90} \<union> {48..57} \<union> {95 :: nat}} \<and> drop 5 (streamNameFor rs) \<noteq> '''' \<and>
   streamNameFor (runes_of ''orders.eu'') = streamNameFor (runes_of ''orders_eu'') \<and>
   ensureStream (L\<lparr>nl_streamInfo := (\<lambda>_. None)\<rparr>) (streamNameFor (runes_of ''orders_eu'')) ''orders_eu'' = None"
proof -
  have up: "of_char (ToUpper c) \<in> {65..90} \<union> {48..57} \<union> {95 :: nat}"
    if "of_char c \<in> {97..122} \<union> {65..90} \<union> {48..57} \<union> {95 :: nat}" for c
    using that by (auto simp: ToUpper_def)
  have ch: "of_char (if name_rune r then char_of r else CHR ''_'') \<in> {97..122} \<union> {65..90} \<union> {48..57} \<union> {95 :: nat}" for r :: nat
    by (auto simp: name_rune_def)
  define name where "name = (let s = map (\<lambda>r. if name_rune r then char_of r else CHR ''_'') rs in if s = '''' then ''STREAM'' else s)"
  have "\<forall>c \<in> set name. of_char c \<in> {97..122} \<union> {65..90} \<union> {48..57} \<union> {95 :: nat}"
  proof (cases "rs = []")
    case False
    with ch show ?thesis unfolding name_def Let_def by (simp only: map_is_Nil_conv if_False set_map) blast
  qed (simp add: name_def)
  moreover have "drop 5 (streamNameFor rs) = map ToUpper name" by (simp add: streamNameFor_def name_def Let_def)
  ultimately have 1: "set (drop 5 (streamNameFor rs)) \<subseteq> {c. of_char c \<in> {65..90} \<union> {48..57} \<union> {95 :: nat}}"
    using up by auto
  have 2: "drop 5 (streamNameFor rs) \<noteq> ''''" by (simp add: streamNameFor_def Let_def)
  have 3: "streamNameFor (runes_of ''orders.eu'') = streamNameFor (runes_of ''orders_eu'')"
    by (simp add: runes_of_def runes_ascii streamNameFor_def name_rune_def)
  show ?thesis using 1 2 3 by (simp add: ensureStream_def)
qed

end
