(* ===== verification/Startup.thy ===== *)
theory Startup
  imports Rpcclient Endpoints Instruments Soakcli
begin

text \<open>
  How the long-running processes start: the region agent (\<open>main\<close>, \<open>run\<close>, \<open>startBuses\<close> and the helpers of
  \<open>clients/workloads/region-agent/main.go\<close>), the backend service and the gateway (\<open>main\<close> of
  \<open>clients/rpc-service\<close> and \<open>clients/rpc-gateway\<close>).

  What the libraries answer is a record of outcomes, an argument; a process is the lines it logs, the
  workers and listeners it has started, and how it ends.
\<close>

section \<open>Helpers of the agent\<close>

definition envOr :: "(string \<Rightarrow> string) \<Rightarrow> string \<Rightarrow> string \<Rightarrow> string" where
  "envOr getenv key def = (if getenv key \<noteq> '''' then getenv key else def)"

definition hostname :: "(string \<Rightarrow> string) \<Rightarrow> gerr + string \<Rightarrow> string" where
  "hostname getenv os_Hostname =
     (if getenv ''HOSTNAME'' \<noteq> '''' then getenv ''HOSTNAME''
      else (case os_Hostname of Inl e \<Rightarrow> ''unknown'' | Inr h \<Rightarrow> h))"

definition clockSource :: "gerr + string \<Rightarrow> string" where
  "clockSource file = (case file of Inl e \<Rightarrow> ''unknown'' | Inr b \<Rightarrow> TrimSpace b)"

definition chronySynced :: "gerr + string \<Rightarrow> bool" where
  "chronySynced out = (case out of Inl e \<Rightarrow> False | Inr text \<Rightarrow> Contains text ''Leap status     : Normal'')"

definition agent_newValkeyClient :: "string \<Rightarrow> string \<Rightarrow> valkey_dial_opts" where
  "agent_newValkeyClient sentinels pass =
     Failover ''mymaster'' (filter (\<lambda>a. a \<noteq> '''') (map TrimSpace (Split CHR '','' sentinels))) pass"

section \<open>The buses of the agent\<close>

record bus_config =
  bc_nats :: string
  bc_amqp :: string
  bc_valkeySentinels :: string
  bc_valkeyPass :: string
  bc_mqtt :: string

text \<open>What the libraries answer.\<close>

record bus_lib =
  bl_natsDial :: "string \<Rightarrow> gerr option"
  bl_jetstream :: "gerr option"
  bl_streamInfo :: "gerr option"
  bl_addStream :: "gerr option"
  bl_streamInfo2 :: "gerr option"
  bl_amqpDial :: "string \<Rightarrow> gerr option"
  bl_rpcChannel :: "gerr option"
  bl_rpcExchange :: "gerr option"
  bl_rpcQueue :: "gerr option"
  bl_rpcBind :: "gerr option"
  bl_quorumChannel :: "gerr option"
  bl_quorumQueue :: "gerr option"
  bl_group :: "valkey_dial_opts \<Rightarrow> string \<Rightarrow> gerr option"
  bl_mqttToken :: "gerr option option"

text \<open>The goroutines the agent starts.\<close>

datatype agent_worker =
    ServeNats string
  | ConsumeJetStream string
  | ServeRabbitMQ string
  | ConsumeQuorum string
  | ServeValkey string
  | ConsumeStream string
  | ConsumeTelemetry string

definition telemetry_stream_name :: string where "telemetry_stream_name = ''WL_TELEMETRY''"

definition start_nats :: "bus_lib \<Rightarrow> agent \<Rightarrow> bus_config \<Rightarrow> string list \<times> agent_worker list" where
  "start_nats L a b =
     (if bc_nats b = '''' then ([], [])
      else (case bl_natsDial L (bc_nats b) of
              Some e \<Rightarrow> ([''nats: dial '' @ bc_nats b @ '': '' @ Error e], [])
            | None \<Rightarrow>
                (let up = ''nats responder: '' @ bc_nats b @ '' on '' @ DeploySubject (ag_region a); serve = ServeNats (DeploySubject (ag_region a)) in
                 case bl_jetstream L of
                   Some e \<Rightarrow> ([up, ''nats: jetstream context: '' @ Error e], [serve])
                 | None \<Rightarrow>
                     (case EnsureStream (bl_streamInfo L) (bl_addStream L) (bl_streamInfo2 L) of
                        Some e \<Rightarrow> ([up, ''nats: ensure stream '' @ telemetry_stream_name @ '': '' @ Error e], [serve])
                      | None \<Rightarrow>
                          ([up, ''nats jetstream consumer: stream '' @ telemetry_stream_name @ '' subject '' @ TelemetrySubject (ag_region a)],
                           [serve, ConsumeJetStream (TelemetrySubject (ag_region a))])))))"

definition start_amqp :: "bus_lib \<Rightarrow> agent \<Rightarrow> bus_config \<Rightarrow> string list \<times> agent_worker list" where
  "start_amqp L a b =
     (if bc_amqp b = '''' then ([], [])
      else (case bl_amqpDial L (bc_amqp b) of
              Some e \<Rightarrow> ([''rabbitmq: dial: '' @ Error e], [])
            | None \<Rightarrow>
                (let (log1, w1) =
                       (case fst (rabbitmq_NewResponder (bl_rpcChannel L) (bl_rpcExchange L) (bl_rpcQueue L) (bl_rpcBind L)) of
                          Inl e \<Rightarrow> ([''rabbitmq: responder: '' @ Error e], [])
                        | Inr _ \<Rightarrow> ([''rabbitmq responder: key '' @ RoutingKey (ag_region a)], [ServeRabbitMQ (RoutingKey (ag_region a))]));
                     (log2, w2) =
                       (case fst (quorum_NewConsumer (bl_quorumChannel L) (bl_quorumQueue L)) of
                          Inl e \<Rightarrow> ([''rabbitmq: quorum consumer: '' @ Error e], [])
                        | Inr _ \<Rightarrow> ([''rabbitmq quorum consumer: queue '' @ TelemetryQueue (ag_region a)], [ConsumeQuorum (TelemetryQueue (ag_region a))]))
                 in (log1 @ log2, w1 @ w2))))"

definition start_valkey :: "bus_lib \<Rightarrow> agent \<Rightarrow> bus_config \<Rightarrow> string list \<times> agent_worker list" where
  "start_valkey L a b =
     (if bc_valkeySentinels b = '''' then ([], [])
      else
        (let rdb = agent_newValkeyClient (bc_valkeySentinels b) (bc_valkeyPass b);
             (log1, w1) =
               (case valkey_NewResponder (bl_group L rdb (DeployStream (ag_region a))) of
                  Inl e \<Rightarrow> ([''valkey: responder: '' @ Error e], [])
                | Inr _ \<Rightarrow> ([''valkey responder: stream '' @ DeployStream (ag_region a)], [ServeValkey (DeployStream (ag_region a))]));
             (log2, w2) =
               (case valkey_NewConsumer (bl_group L rdb (TelemetryStream (ag_region a))) of
                  Inl e \<Rightarrow> ([''valkey: stream consumer: '' @ Error e], [])
                | Inr _ \<Rightarrow>
                    ([''valkey stream consumer: stream '' @ TelemetryStream (ag_region a) @ '' group agents''],
                     [ConsumeStream (TelemetryStream (ag_region a))]))
         in (log1 @ log2, w1 @ w2)))"

definition start_mqtt :: "bus_lib \<Rightarrow> agent \<Rightarrow> bus_config \<Rightarrow> string list \<times> agent_worker list" where
  "start_mqtt L a b =
     (if bc_mqtt b = '''' then ([], [])
      else (case fst (mqtt_transport_Dial (bc_mqtt b) (bl_mqttToken L)) of
              Inl e \<Rightarrow> ([''mqtt: dial '' @ bc_mqtt b @ '': '' @ Error e], [])
            | Inr _ \<Rightarrow> ([''mqtt consumer: topic wl/'' @ ag_region a @ ''/telemetry''], [ConsumeTelemetry (ag_region a)])))"

definition startBuses :: "bus_lib \<Rightarrow> agent \<Rightarrow> bus_config \<Rightarrow> string list \<times> agent_worker list" where
  "startBuses L a b =
     (let (l1, w1) = start_nats L a b; (l2, w2) = start_amqp L a b; (l3, w3) = start_valkey L a b; (l4, w4) = start_mqtt L a b
      in (l1 @ l2 @ l3 @ l4, w1 @ w2 @ w3 @ w4))"

text \<open>\<open>serve\<close> logs the error its responder ends with.\<close>

definition agent_serve :: "string \<Rightarrow> gerr option \<Rightarrow> string list" where
  "agent_serve name err = (case err of None \<Rightarrow> [] | Some e \<Rightarrow> [name @ '': serve: '' @ Error e])"

section \<open>The agent\<close>

record agent_flags =
  af_region :: string
  af_grpcAddr :: string
  af_metricsAddr :: string
  af_codec :: string
  af_pool :: string
  af_integrity :: bool
  af_validate :: bool
  af_buses :: bus_config

definition agent_defaults :: "(string \<Rightarrow> string) \<Rightarrow> agent_flags" where
  "agent_defaults getenv =
     \<lparr>af_region = envOr getenv ''REGION'' ''us-west-2'', af_grpcAddr = '':9090'', af_metricsAddr = '':9464'', af_codec = ''proto'',
      af_pool = ''all'', af_integrity = False, af_validate = False,
      af_buses = \<lparr>bc_nats = '''', bc_amqp = '''', bc_valkeySentinels = '''', bc_valkeyPass = getenv ''VALKEY_PASSWORD'', bc_mqtt = ''''\<rparr>\<rparr>"

text \<open>What the process around the buses sees: the exporter, the registration of each instrument, the host name,
  the listener, and how the server ends.\<close>

record agent_os =
  ao_getenv :: "string \<Rightarrow> string"
  ao_hostname :: "gerr + string"
  ao_exporter :: "gerr option"
  ao_register :: "string \<Rightarrow> gerr option"
  ao_listen :: "string \<Rightarrow> gerr option"
  ao_serve :: "gerr option"
  ao_version :: string

record agent_process =
  ap_result :: "gerr option"
  ap_log :: "string list"
  ap_workers :: "agent_worker list"
  ap_grpc :: "(agent \<times> options) option"

definition not_started :: "gerr \<Rightarrow> agent_process" where
  "not_started e = \<lparr>ap_result = Some e, ap_log = [], ap_workers = [], ap_grpc = None\<rparr>"

text \<open>The pool's default classes are valid, so building the pool does not panic.\<close>

definition agent_run :: "bus_lib \<Rightarrow> agent_os \<Rightarrow> agent_flags \<Rightarrow> agent_process" where
  "agent_run L os f =
     (case ByName (af_codec f) of
        Inl e \<Rightarrow> not_started e
      | Inr cdc \<Rightarrow>
          (case ParseMode (af_pool f) of
             Inl e \<Rightarrow> not_started (Opaque e)
           | Inr mode \<Rightarrow>
               (let opts = \<lparr>o_Codec = cdc, o_Region = af_region f, o_Integrity = af_integrity f, o_Validate = af_validate f\<rparr> in
                case metrics_NewProvider (ao_exporter os) '''' [] of
                  Inl e \<Rightarrow> not_started (Wrapf ''metrics provider: '' e '''')
                | Inr mp \<Rightarrow>
                    (case harness_New (ao_register os) of
                       Inl e \<Rightarrow> not_started (Wrapf ''instruments: '' e '''')
                     | Inr inst \<Rightarrow>
                         (let responderID = af_region f @ ''/'' @ hostname (ao_getenv os) (ao_hostname os);
                              a = \<lparr>ag_region = af_region f, ag_pool = af_pool f, ag_responderID = responderID\<rparr>;
                              (lines, ws) = startBuses L a (af_buses f)
                          in case ao_listen os (af_grpcAddr f) of
                               Some e \<Rightarrow> \<lparr>ap_result = Some (Wrapf (''listen '' @ af_grpcAddr f @ '': '') e ''''), ap_log = lines, ap_workers = ws, ap_grpc = None\<rparr>
                             | None \<Rightarrow>
                                 \<lparr>ap_result = ao_serve os,
                                  ap_log = lines @ [''region-agent '' @ ao_version os @ '' ('' @ responderID @ '') serving gRPC on '' @ af_grpcAddr f @
                                    '', metrics on '' @ af_metricsAddr f @ '', codec='' @ af_codec f @ '' pool='' @ af_pool f],
                                  ap_workers = ws, ap_grpc = Some (a, opts)\<rparr>)))))"

definition agent_main :: "bus_lib \<Rightarrow> agent_os \<Rightarrow> agent_flags \<Rightarrow> agent_process \<times> string option" where
  "agent_main L os f =
     (let p = agent_run L os f in (p, map_option (\<lambda>e. ''region-agent: '' @ Error e) (ap_result p)))"

text \<open>Whatever happens on a bus, the agent serves gRPC: neither its result nor what it serves depends on the
  buses.  Each worker runs exactly if its own bus is configured and its own calls succeed.\<close>

definition nats_up :: "bus_lib \<Rightarrow> bus_config \<Rightarrow> bool" where
  "nats_up L b \<longleftrightarrow> bc_nats b \<noteq> '''' \<and> bl_natsDial L (bc_nats b) = None"

definition amqp_up :: "bus_lib \<Rightarrow> bus_config \<Rightarrow> bool" where
  "amqp_up L b \<longleftrightarrow> bc_amqp b \<noteq> '''' \<and> bl_amqpDial L (bc_amqp b) = None"

definition group_ready :: "gerr option \<Rightarrow> bool" where
  "group_ready e \<longleftrightarrow> e = None \<or> Contains (Error (the e)) ''BUSYGROUP''"

definition runs :: "bus_lib \<Rightarrow> agent \<Rightarrow> bus_config \<Rightarrow> agent_worker \<Rightarrow> bool" where
  "runs L a b w =
     (case w of
        ServeNats s \<Rightarrow> s = DeploySubject (ag_region a) \<and> nats_up L b
      | ConsumeJetStream s \<Rightarrow>
          s = TelemetrySubject (ag_region a) \<and> nats_up L b \<and> bl_jetstream L = None \<and>
          EnsureStream (bl_streamInfo L) (bl_addStream L) (bl_streamInfo2 L) = None
      | ServeRabbitMQ k \<Rightarrow>
          k = RoutingKey (ag_region a) \<and> amqp_up L b \<and>
          bl_rpcChannel L = None \<and> bl_rpcExchange L = None \<and> bl_rpcQueue L = None \<and> bl_rpcBind L = None
      | ConsumeQuorum q \<Rightarrow>
          q = TelemetryQueue (ag_region a) \<and> amqp_up L b \<and> bl_quorumChannel L = None \<and> bl_quorumQueue L = None
      | ServeValkey s \<Rightarrow>
          s = DeployStream (ag_region a) \<and> bc_valkeySentinels b \<noteq> '''' \<and>
          group_ready (bl_group L (agent_newValkeyClient (bc_valkeySentinels b) (bc_valkeyPass b)) s)
      | ConsumeStream s \<Rightarrow>
          s = TelemetryStream (ag_region a) \<and> bc_valkeySentinels b \<noteq> '''' \<and>
          group_ready (bl_group L (agent_newValkeyClient (bc_valkeySentinels b) (bc_valkeyPass b)) s)
      | ConsumeTelemetry r \<Rightarrow> r = ag_region a \<and> bc_mqtt b \<noteq> '''' \<and> bl_mqttToken L = Some None)"

lemma start_nats_workers: "w \<in> set (snd (start_nats L a b)) \<longleftrightarrow> runs L a b w \<and> (\<exists>s. w = ServeNats s \<or> w = ConsumeJetStream s)"
  by (cases w) (auto simp: start_nats_def runs_def nats_up_def Let_def split: option.splits)

lemma start_amqp_workers: "w \<in> set (snd (start_amqp L a b)) \<longleftrightarrow> runs L a b w \<and> (\<exists>s. w = ServeRabbitMQ s \<or> w = ConsumeQuorum s)"
  by (cases w) (auto simp: start_amqp_def runs_def amqp_up_def rabbitmq_NewResponder_def quorum_NewConsumer_def split: option.splits prod.splits sum.splits)

lemma valkey_ready:
  "(case valkey_NewResponder e of Inl err \<Rightarrow> x err | Inr u \<Rightarrow> y u) = (if group_ready e then y () else x (the e))"
  "(case valkey_NewConsumer e of Inl err \<Rightarrow> x err | Inr u \<Rightarrow> y u) = (if group_ready e then y () else x (the e))"
  by (auto simp: valkey_NewResponder_def valkey_NewConsumer_def group_ready_def split: option.splits)

lemma start_valkey_workers: "w \<in> set (snd (start_valkey L a b)) \<longleftrightarrow> runs L a b w \<and> (\<exists>s. w = ServeValkey s \<or> w = ConsumeStream s)"
  by (cases w) (auto simp: start_valkey_def runs_def valkey_ready Let_def split: if_splits)

lemma start_mqtt_workers: "w \<in> set (snd (start_mqtt L a b)) \<longleftrightarrow> runs L a b w \<and> (\<exists>r. w = ConsumeTelemetry r)"
  by (cases w) (auto simp: start_mqtt_def runs_def mqtt_transport_Dial_def split: option.splits)

lemma startBuses_workers: "set (snd (startBuses L a b)) = {w. runs L a b w}"
proof -
  have "w \<in> set (snd (startBuses L a b)) \<longleftrightarrow>
      w \<in> set (snd (start_nats L a b)) \<or> w \<in> set (snd (start_amqp L a b)) \<or> w \<in> set (snd (start_valkey L a b)) \<or> w \<in> set (snd (start_mqtt L a b))" for w
    by (auto simp: startBuses_def split: prod.splits)
  moreover have "(\<exists>s. w = ServeNats s \<or> w = ConsumeJetStream s) \<or> (\<exists>s. w = ServeRabbitMQ s \<or> w = ConsumeQuorum s) \<or>
      (\<exists>s. w = ServeValkey s \<or> w = ConsumeStream s) \<or> (\<exists>r. w = ConsumeTelemetry r)" for w
    by (cases w) auto
  ultimately have "w \<in> set (snd (startBuses L a b)) \<longleftrightarrow> runs L a b w" for w
    unfolding start_nats_workers start_amqp_workers start_valkey_workers start_mqtt_workers by metis
  then show ?thesis by blast
qed

lemma agent_run_any_bus:
  "ap_result (agent_run L os f) = ap_result (agent_run L' os f)" "ap_grpc (agent_run L os f) = ap_grpc (agent_run L' os f)"
  by (auto simp: agent_run_def not_started_def Let_def split: sum.splits prod.splits option.splits)

theorem agent_isolated:
  assumes "ap_grpc (agent_run L os f) = Some (a, opts)"
  shows "set (ap_workers (agent_run L os f)) = {w. runs L a (af_buses f) w} \<and>
         (\<forall>L'. ap_grpc (agent_run L' os f) = Some (a, opts) \<and> ap_result (agent_run L' os f) = ap_result (agent_run L os f))"
proof -
  have "ap_workers (agent_run L os f) = snd (startBuses L a (af_buses f))"
    using assms by (auto simp: agent_run_def not_started_def Let_def split: sum.splits prod.splits option.splits)
  with startBuses_workers [of L a "af_buses f"] agent_run_any_bus [of L os f] assms show ?thesis by metis
qed

section \<open>The backend service\<close>

record svc_flags =
  vf_grpc :: string
  vf_nats :: string
  vf_natsJS :: string
  vf_amqp :: string
  vf_mqtt :: string
  vf_mqttQoS :: int
  vf_valkey :: string
  vf_valkeyStream :: string
  vf_valkeyPass :: string
  vf_idemTTL :: duration
  vf_validate :: bool
  vf_trace :: string

definition svc_defaults :: "string \<Rightarrow> svc_flags" where
  "svc_defaults valkeyPass =
     \<lparr>vf_grpc = '':9440'', vf_nats = '''', vf_natsJS = '''', vf_amqp = '''', vf_mqtt = '''', vf_mqttQoS = 1, vf_valkey = '''', vf_valkeyStream = '''',
      vf_valkeyPass = valkeyPass, vf_idemTTL = 300 * Second, vf_validate = True, vf_trace = ''off''\<rparr>"

text \<open>The handler every listener of the process serves: one cache and one table behind the tracing decorator.\<close>

definition svc_handler ::
  "'c otel \<Rightarrow> 'm proto_lib \<Rightarrow> ('m, 'w) mux \<Rightarrow> (nat \<Rightarrow> call_clock) \<Rightarrow> ('c, nat \<times> (idempotency_cache \<times> 'w)) traced_call" where
  "svc_handler O' L m cks = TracingHandler_Handle O' (idem_service L m cks)"

datatype listener =
    NatsListener string
  | JetStreamListener string
  | RabbitListener string
  | MqttListener string "8 word"
  | ValkeyListener string string
  | ValkeyStreamListener string string

text \<open>Before a listener starts its flag may be refused; \<open>what\<close> names it in the fatal line, \<open>up\<close> is the line logged
  when it serves.\<close>

record listener_step =
  ls_refused :: "string option"
  ls_listener :: listener
  ls_what :: string
  ls_up :: string

definition svc_steps :: "svc_flags \<Rightarrow> listener_step list" where
  "svc_steps f =
     (if vf_nats f \<noteq> '''' then
        [\<lparr>ls_refused = None, ls_listener = NatsListener (vf_nats f), ls_what = ''NATS at '' @ vf_nats f,
          ls_up = ''rpc-service: also serving GatewayService over NATS at '' @ vf_nats f @ '' (subject '' @ SubjectWildcard @ '')''\<rparr>] else []) @
     (if vf_natsJS f \<noteq> '''' then
        [\<lparr>ls_refused = None, ls_listener = JetStreamListener (vf_natsJS f), ls_what = ''NATS JetStream at '' @ vf_natsJS f,
          ls_up = ''rpc-service: also serving GatewayService over durable JetStream at '' @ vf_natsJS f @ '' (subject '' @ jsSubjectPrefix @ ''.>)''\<rparr>] else []) @
     (if vf_amqp f \<noteq> '''' then
        [\<lparr>ls_refused = None, ls_listener = RabbitListener (vf_amqp f), ls_what = ''RabbitMQ at '' @ vf_amqp f,
          ls_up = ''rpc-service: also serving GatewayService over RabbitMQ (queue '' @ RequestQueue @ '')''\<rparr>] else []) @
     (if vf_mqtt f \<noteq> '''' then
        [\<lparr>ls_refused = (if vf_mqttQoS f < 0 \<or> vf_mqttQoS f > 2 then Some (''rpc-service: -mqtt-qos must be 0, 1, or 2, got '' @ itoa (vf_mqttQoS f)) else None),
          ls_listener = MqttListener (vf_mqtt f) (word_of_int (vf_mqttQoS f)), ls_what = ''MQTT at '' @ vf_mqtt f,
          ls_up = ''rpc-service: also serving GatewayService over MQTT at '' @ vf_mqtt f @ '' (qos='' @ itoa (vf_mqttQoS f) @
                  '', request topic rpc/request/+/+)''\<rparr>] else []) @
     (if vf_valkey f \<noteq> '''' then
        [\<lparr>ls_refused = None, ls_listener = ValkeyListener (vf_valkey f) (vf_valkeyPass f), ls_what = ''Valkey Pub/Sub at '' @ vf_valkey f,
          ls_up = ''rpc-service: also serving GatewayService over Valkey Pub/Sub at '' @ vf_valkey f\<rparr>] else []) @
     (if vf_valkeyStream f \<noteq> '''' then
        [\<lparr>ls_refused = None, ls_listener = ValkeyStreamListener (vf_valkeyStream f) (vf_valkeyPass f), ls_what = ''Valkey Streams at '' @ vf_valkeyStream f,
          ls_up = ''rpc-service: also serving GatewayService over durable Valkey Streams at '' @ vf_valkeyStream f\<rparr>] else [])"

record svc_process =
  sp_listeners :: "listener list"
  sp_log :: "string list"

text \<open>The listeners start one after the other; the first that is refused or fails ends the process.\<close>

fun start_listeners :: "(listener \<Rightarrow> gerr option) \<Rightarrow> listener_step list \<Rightarrow> svc_process \<Rightarrow> string option \<times> svc_process" where
  "start_listeners start [] p = (None, p)"
| "start_listeners start (x # xs) p =
     (case ls_refused x of
        Some msg \<Rightarrow> (Some msg, p)
      | None \<Rightarrow>
          (case start (ls_listener x) of
             Some e \<Rightarrow> (Some (''rpc-service: serve '' @ ls_what x @ '': '' @ Error e), p)
           | None \<Rightarrow> start_listeners start xs (p\<lparr>sp_listeners := sp_listeners p @ [ls_listener x], sp_log := sp_log p @ [ls_up x]\<rparr>)))"

text \<open>How \<open>main\<close> ends: with a fatal line, or still serving, or after a signal stopped the server, when the deferred
  calls close the responders, the last started first.\<close>

datatype svc_exit = SvcFatal string | SvcServing | SvcStopped "listener list"

text \<open>\<open>served\<close> is \<open>None\<close> while the server runs, then the error it returned, if any; \<open>addr\<close> is the listener's address.\<close>

definition svc_main ::
  "(listener \<Rightarrow> gerr option) \<Rightarrow> (string \<Rightarrow> gerr + string) \<Rightarrow> gerr option option \<Rightarrow> otel_globals \<Rightarrow> svc_flags
   \<Rightarrow> svc_exit \<times> svc_process" where
  "svc_main start listen served g f =
     (let p = \<lparr>sp_listeners = [], sp_log = []\<rparr> in
      case fst (NewProvider ''rpc-service'' (vf_trace f) g) of
        Inl e \<Rightarrow> (SvcFatal (''rpc-service: tracing: '' @ Error e), p)
      | Inr tp \<Rightarrow>
          (case start_listeners start (svc_steps f) p of
             (Some msg, p1) \<Rightarrow> (SvcFatal msg, p1)
           | (None, p1) \<Rightarrow>
               (case listen (vf_grpc f) of
                  Inl e \<Rightarrow> (SvcFatal (''rpc-service: listen '' @ vf_grpc f @ '': '' @ Error e), p1)
                | Inr addr \<Rightarrow>
                    (let p2 = p1\<lparr>sp_log := sp_log p1 @ [''rpc-service: serving GatewayService on '' @ addr @ '' (idempotency-ttl='' @
                                  Duration_String (vf_idemTTL f) @ '' validate='' @ (if vf_validate f then ''true'' else ''false'') @ '')'']\<rparr>
                     in ((case served of
                            None \<Rightarrow> SvcServing
                          | Some None \<Rightarrow> SvcStopped (rev (sp_listeners p1))
                          | Some (Some e) \<Rightarrow> SvcFatal (''rpc-service: serve: '' @ Error e)), p2)))))"

lemma start_listeners_ok:
  "\<forall>x \<in> set xs. ls_refused x = None \<and> start (ls_listener x) = None \<Longrightarrow>
   start_listeners start xs p = (None, p\<lparr>sp_listeners := sp_listeners p @ map ls_listener xs, sp_log := sp_log p @ map ls_up xs\<rparr>)"
  by (induction start xs p rule: start_listeners.induct) auto

lemma start_listeners_bad:
  "\<exists>x \<in> set xs. ls_refused x \<noteq> None \<or> start (ls_listener x) \<noteq> None \<Longrightarrow> \<exists>msg p'. start_listeners start xs p = (Some msg, p')"
  by (induction start xs p rule: start_listeners.induct) (auto split: option.splits)

text \<open>The service comes up with every listener it was asked for or not at all, and when it stops it closes each of them,
  the last started first.\<close>

theorem service_all_or_nothing:
  assumes "listen (vf_grpc f) = Inr addr" and "fst (NewProvider ''rpc-service'' (vf_trace f) g) = Inr tp"
  shows "if list_all (\<lambda>x. ls_refused x = None \<and> start (ls_listener x) = None) (svc_steps f)
         then fst (svc_main start listen (Some None) g f) = SvcStopped (rev (map ls_listener (svc_steps f))) \<and>
              sp_listeners (snd (svc_main start listen None g f)) = map ls_listener (svc_steps f)
         else \<exists>msg. fst (svc_main start listen served g f) = SvcFatal msg"
proof (cases "\<forall>x \<in> set (svc_steps f). ls_refused x = None \<and> start (ls_listener x) = None")
  case True
  then show ?thesis using assms start_listeners_ok [OF True] by (simp add: svc_main_def list_all_iff Let_def)
next
  case False
  then obtain msg p where "start_listeners start (svc_steps f) \<lparr>sp_listeners = [], sp_log = []\<rparr> = (Some msg, p)"
    using start_listeners_bad [of "svc_steps f" start] by blast
  with assms(2) have "fst (svc_main start listen served g f) = SvcFatal msg" by (simp add: svc_main_def Let_def)
  with False show ?thesis by (auto simp: list_all_iff)
qed

text \<open>The addresses that are set are exactly what is served, in the order of the flags.\<close>

lemma svc_steps_listeners:
  "map ls_listener (svc_steps f) =
     (if vf_nats f \<noteq> '''' then [NatsListener (vf_nats f)] else []) @
     (if vf_natsJS f \<noteq> '''' then [JetStreamListener (vf_natsJS f)] else []) @
     (if vf_amqp f \<noteq> '''' then [RabbitListener (vf_amqp f)] else []) @
     (if vf_mqtt f \<noteq> '''' then [MqttListener (vf_mqtt f) (word_of_int (vf_mqttQoS f))] else []) @
     (if vf_valkey f \<noteq> '''' then [ValkeyListener (vf_valkey f) (vf_valkeyPass f)] else []) @
     (if vf_valkeyStream f \<noteq> '''' then [ValkeyStreamListener (vf_valkeyStream f) (vf_valkeyPass f)] else [])"
  by (simp add: svc_steps_def)

section \<open>The gateway\<close>

record gw_flags =
  gf_grpc :: string
  gf_backend :: string
  gf_egress :: string
  gf_mqttQoS :: int
  gf_valkeyPass :: string
  gf_trace :: string
  gf_routes :: "(string \<times> string) list"

definition gw_defaults :: "string \<Rightarrow> gw_flags" where
  "gw_defaults valkeyPass =
     \<lparr>gf_grpc = '':9430'', gf_backend = ''localhost:9440'', gf_egress = ''grpc'', gf_mqttQoS = 1, gf_valkeyPass = valkeyPass, gf_trace = ''off'',
      gf_routes = []\<rparr>"

text \<open>Each \<open>-route\<close> argument goes through \<open>Set\<close>.\<close>

fun gw_routes :: "string list \<Rightarrow> (string \<times> string) list \<Rightarrow> gerr + (string \<times> string) list" where
  "gw_routes [] rs = Inr rs"
| "gw_routes (v # vs) rs = (case route_Set v rs of Inl e \<Rightarrow> Inl e | Inr rs1 \<Rightarrow> gw_routes vs rs1)"

datatype 'k gw_exit = GwFatal string | GwServing "'k router" | GwStopped "'k router"

text \<open>The quality of service is cut to a byte before it is checked.\<close>

definition gw_main ::
  "(string \<Rightarrow> gerr + string) \<Rightarrow> gerr option option \<Rightarrow> otel_globals \<Rightarrow> gw_flags \<Rightarrow> 'k gw_exit \<times> string list" where
  "gw_main listen served g f =
     (case fst (NewProvider ''rpc-gateway'' (gf_trace f) g) of
        Inl e \<Rightarrow> (GwFatal (''rpc-gateway: tracing: '' @ Error e), [])
      | Inr tp \<Rightarrow>
          (case newRouter (gf_egress f) (gf_backend f) (unat (word_of_int (gf_mqttQoS f) :: 8 word)) (gf_routes f) of
             Inl e \<Rightarrow> (GwFatal (''rpc-gateway: '' @ Error e), [])
           | Inr r \<Rightarrow>
               (case listen (gf_grpc f) of
                  Inl e \<Rightarrow> (GwFatal (''rpc-gateway: listen '' @ gf_grpc f @ '': '' @ Error e), [])
                | Inr addr \<Rightarrow>
                    ((case served of
                        None \<Rightarrow> GwServing r
                      | Some None \<Rightarrow> GwStopped r
                      | Some (Some e) \<Rightarrow> GwFatal (''rpc-gateway: serve: '' @ Error e)),
                     [''rpc-gateway: proxying GatewayService on '' @ addr @ '' -> default backend '' @ gf_backend f @ '' over '' @ gf_egress f @
                      '' ('' @ nat_to_dec (length (gf_routes f)) @ '' route override(s))'']))))"

text \<open>The check of the gateway sees the number modulo 256: a quality of service of 256 is served as 0, where the service
  and the client refuse it.\<close>

theorem gateway_qos_wraps:
  assumes "fst (NewProvider ''rpc-gateway'' (gf_trace f) g) = Inr tp" and "listen (gf_grpc f) = Inr addr" and "gf_egress f = ''mqtt''"
  shows "(\<exists>r. fst (gw_main listen None g f) = GwServing r) \<longleftrightarrow> gf_mqttQoS f mod 256 \<le> 2"
proof -
  have "unat (word_of_int (gf_mqttQoS f) :: 8 word) = nat (gf_mqttQoS f mod 256)"
    by (simp add: unat_eq_nat_uint uint_word_of_int)
  then show ?thesis using assms by (auto simp: gw_main_def newRouter_def transports_def)
qed

theorem gateway_qos_wraps_witness:
  "\<exists>r. fst (gw_main (\<lambda>a. Inr a) None \<lparr>g_propagator = False, g_provider = DefaultProvider\<rparr>
         ((gw_defaults '''')\<lparr>gf_egress := ''mqtt'', gf_mqttQoS := 256\<rparr>)) = GwServing r"
proof -
  let ?f = "(gw_defaults '''')\<lparr>gf_egress := ''mqtt'', gf_mqttQoS := 256\<rparr>"
  have "fst (NewProvider ''rpc-gateway'' (gf_trace ?f) \<lparr>g_propagator = False, g_provider = DefaultProvider\<rparr>) = Inr NoopProvider"
    by (simp add: NewProvider_def gw_defaults_def)
  from gateway_qos_wraps [OF this, of "\<lambda>a. Inr a" "gf_grpc ?f"] show ?thesis by simp
qed

end
