(* ===== verification/Rpcbench.thy ===== *)
theory Rpcbench
  imports Report Retry Service
begin

text \<open>
  The load driver of the RPC lab (\<open>clients/rpc-benchmark\<close>): the closed loop of \<open>bench.go\<close> as a step
  relation over its workers, its open loop, the classification of every call into samples, errors and
  counters, the payload-size sweep of \<open>sweep.go\<close> with its run record, and the \<open>rpc_*\<close> metrics of
  \<open>metrics_sink.go\<close> and \<open>clients/internal/rpc/rpcmetrics\<close>.

  A call's outcome and its round-trip time are arguments; so are the clock, the UUIDs, the size function
  of the protobuf library and the two readings of the runtime's statistics.
\<close>

section \<open>Metrics\<close>

record rpc_labels =
  lb_Transport :: string
  lb_Codec :: string
  lb_Service :: string
  lb_Method :: string

text \<open>One update of an instrument of the set; durations are in seconds.\<close>

datatype rpc_update =
    Requests rpc_labels
  | RequestBytes rpc_labels int
  | CallDuration rpc_labels string rat
  | Responses rpc_labels string
  | ResponseBytes rpc_labels int
  | Replays rpc_labels
  | Timeouts rpc_labels
  | TransportErrors rpc_labels

definition Recorder_Observe :: "rpc_labels option \<Rightarrow> string \<Rightarrow> duration \<Rightarrow> int \<Rightarrow> bool \<Rightarrow> int \<Rightarrow> bool \<Rightarrow> rpc_update list" where
  "Recorder_Observe r result d reqBytes hasResp respBytes replay =
     (case r of
        None \<Rightarrow> []
      | Some l \<Rightarrow>
          [Requests l, RequestBytes l reqBytes, CallDuration l result (Seconds d)] @
          (if hasResp then [Responses l result, ResponseBytes l respBytes] else []) @
          (if replay then [Replays l] else []) @
          (if result = ''timeout'' then [Timeouts l] else if result = ''error'' then [TransportErrors l] else []))"

definition For :: "bool \<Rightarrow> rpc_labels \<Rightarrow> rpc_labels option" where
  "For enabled l = (if enabled then Some l else None)"

record metrics_sink =
  sk_rec :: "rpc_labels option"
  sk_reqBytes :: int

definition isReplay :: "rpc_response option \<Rightarrow> bool" where
  "isReplay rsp = (case rsp of None \<Rightarrow> False | Some r \<Rightarrow> rs_Metadata r ''idempotent-replay'' = Some ''true'')"

definition sink_record ::
  "(rpc_response \<Rightarrow> int) \<Rightarrow> metrics_sink option \<Rightarrow> string \<Rightarrow> rpc_response option \<Rightarrow> duration \<Rightarrow> rpc_update list" where
  "sink_record sizeof s result rsp rtt =
     (case s of
        None \<Rightarrow> []
      | Some sk \<Rightarrow>
          (let respBytes = (case rsp of None \<Rightarrow> 0 | Some r \<Rightarrow> sizeof r);
               replay = (case rsp of None \<Rightarrow> False | Some r \<Rightarrow> isReplay rsp)
           in Recorder_Observe (sk_rec sk) result rtt (sk_reqBytes sk) (rsp \<noteq> None) respBytes replay))"

section \<open>One measurement cell\<close>

record bench_config =
  b_mode :: string
  b_requests :: int
  b_concurrency :: int
  b_rate :: rat
  b_duration :: duration
  b_timeout :: duration

definition bench_validate :: "bench_config \<Rightarrow> gerr option" where
  "bench_validate c =
     (if b_timeout c \<le> 0 then Some (Opaque ''timeout must be > 0'')
      else if b_mode c = ''closed'' then
        (if b_requests c \<le> 0 then Some (Opaque ''mode=closed needs -requests > 0'')
         else if b_concurrency c \<le> 0 then Some (Opaque ''mode=closed needs -concurrency > 0'')
         else None)
      else if b_mode c = ''open'' then
        (if b_rate c \<le> 0 then Some (Opaque ''mode=open needs -rate > 0 (offered req/s)'')
         else if b_duration c \<le> 0 then Some (Opaque ''mode=open needs -duration > 0'')
         else None)
      else Some (Opaque (''unknown -mode '' @ quoted (b_mode c) @ '' (closed|open)'')))"

text \<open>The accumulator and the counters a cell's workers share under the mutex.\<close>

record 'h tally =
  t_hdr :: "'h HDR"
  t_timeouts :: int
  t_nonOK :: int
  t_replays :: int

definition new_tally :: "'h hist_lib \<Rightarrow> 'h tally" where
  "new_tally H = \<lparr>t_hdr = NewHDR H, t_timeouts = 0, t_nonOK = 0, t_replays = 0\<rparr>"

definition isTimeout :: "gerr \<Rightarrow> bool" where
  "isTimeout err \<longleftrightarrow> StatusOf (Some err) = STATUS_TIMEOUT"

definition classify ::
  "'h hist_lib \<Rightarrow> (rpc_response \<Rightarrow> int) \<Rightarrow> metrics_sink option \<Rightarrow> bool \<Rightarrow> duration \<Rightarrow> duration \<times> outcome \<Rightarrow> 'h tally
   \<Rightarrow> bool \<times> 'h tally \<times> rpc_update list" where
  "classify H sizeof sink adjust expected call t =
     (case call of (rtt, rsp, err) \<Rightarrow>
        (case err of
           Some e \<Rightarrow>
             (if isTimeout e
              then (False, t\<lparr>t_timeouts := t_timeouts t + 1, t_hdr := AddErrorKind ''timeout'' (t_hdr t)\<rparr>,
                    sink_record sizeof sink ''timeout'' None rtt)
              else (False, t\<lparr>t_hdr := AddErrorKind ''error'' (t_hdr t)\<rparr>, sink_record sizeof sink ''error'' None rtt))
         | None \<Rightarrow>
             (if GetStatus rsp \<noteq> STATUS_OK then
                (if GetStatus rsp = STATUS_TIMEOUT
                 then (False, t\<lparr>t_timeouts := t_timeouts t + 1, t_hdr := AddErrorKind ''timeout'' (t_hdr t)\<rparr>,
                       sink_record sizeof sink ''timeout'' rsp rtt)
                 else (False, t\<lparr>t_nonOK := t_nonOK t + 1, t_hdr := AddErrorKind ''non-ok'' (t_hdr t)\<rparr>,
                       sink_record sizeof sink ''non_ok'' rsp rtt))
              else
                (let t1 = t\<lparr>t_hdr := (if adjust then RecordCorrected H rtt expected (t_hdr t) else Record H rtt (t_hdr t))\<rparr>;
                     t2 = (if isReplay rsp then t1\<lparr>t_replays := t_replays t1 + 1\<rparr> else t1)
                 in (True, t2, sink_record sizeof sink ''ok'' rsp rtt)))))"

section \<open>The closed loop\<close>

text \<open>A worker is about to take from the budget, in a call, or has returned.  \<open>b_log\<close> holds the
  classified calls in the order of the mutex, \<open>b_updates\<close> the metrics updates.\<close>

datatype bench_worker = Taking | Calling | Returned

record 'h bench_run =
  b_remaining :: int
  b_workers :: "bench_worker list"
  b_ctx_done :: bool
  b_tally :: "'h tally"
  b_log :: "(duration \<times> outcome) list"
  b_updates :: "rpc_update list"

definition bench_init :: "'h hist_lib \<Rightarrow> bench_config \<Rightarrow> 'h bench_run" where
  "bench_init H cfg =
     \<lparr>b_remaining = b_requests cfg, b_workers = replicate (nat (b_concurrency cfg)) Taking, b_ctx_done = False,
      b_tally = new_tally H, b_log = [], b_updates = []\<rparr>"

text \<open>\<open>ended\<close> is whether the context has ended when the worker looks; it does not come back.\<close>

definition bench_take :: "nat \<Rightarrow> bool \<Rightarrow> 'h bench_run \<Rightarrow> 'h bench_run" where
  "bench_take w ended r =
     (let left = b_remaining r - 1; r1 = r\<lparr>b_remaining := left\<rparr> in
      if left \<ge> 0 then
        (if ended then r1\<lparr>b_ctx_done := True, b_workers := (b_workers r)[w := Returned]\<rparr>
         else r1\<lparr>b_workers := (b_workers r)[w := Calling]\<rparr>)
      else r1\<lparr>b_workers := (b_workers r)[w := Returned]\<rparr>)"

definition bench_call ::
  "'h hist_lib \<Rightarrow> (rpc_response \<Rightarrow> int) \<Rightarrow> metrics_sink option \<Rightarrow> nat \<Rightarrow> duration \<times> outcome \<Rightarrow> 'h bench_run \<Rightarrow> 'h bench_run" where
  "bench_call H sizeof sink w out r =
     (let (ok, t, ups) = classify H sizeof sink False 0 out (b_tally r) in
      r\<lparr>b_workers := (b_workers r)[w := Taking], b_tally := t, b_log := b_log r @ [out], b_updates := b_updates r @ ups\<rparr>)"

inductive bench_step ::
  "'h hist_lib \<Rightarrow> (rpc_response \<Rightarrow> int) \<Rightarrow> metrics_sink option \<Rightarrow> 'h bench_run \<Rightarrow> 'h bench_run \<Rightarrow> bool"
  for H sizeof sink where
  taking: "w < length (b_workers r) \<Longrightarrow> b_workers r ! w = Taking \<Longrightarrow> b_ctx_done r \<longrightarrow> ended \<Longrightarrow>
    bench_step H sizeof sink r (bench_take w ended r)"
| calling: "w < length (b_workers r) \<Longrightarrow> b_workers r ! w = Calling \<Longrightarrow>
    bench_step H sizeof sink r (bench_call H sizeof sink w out r)"

section \<open>The open loop\<close>

definition bench_pool :: "bench_config \<Rightarrow> int" where
  "bench_pool cfg = (let pool = to_i64 (fdiv (b_rate cfg) 10) + 1 in if pool > 4096 then 4096 else pool)"

definition bench_interval :: "bench_config \<Rightarrow> duration" where
  "bench_interval cfg = to_i64 (fdiv (of_i64 Second) (b_rate cfg))"

text \<open>The calls offered from number \<open>i\<close> on.  The loop ends once the intended instant is past the deadline,
  or when the context ends in one of the two waits before call \<open>i\<close> (\<open>stop i\<close>).  It may not end.\<close>

partial_function (option) offers :: "duration \<Rightarrow> duration \<Rightarrow> (nat \<Rightarrow> bool) \<Rightarrow> nat \<Rightarrow> nat list option" where
  "offers interval dur stop i =
     (if wrap64 (int i * interval) > dur then Some []
      else if stop i then Some []
      else Option.bind (offers interval dur stop (i + 1)) (\<lambda>rest. Some (i # rest)))"

text \<open>What the offered calls meet: how late each is sent, its round trip and outcome, and the order in
  which they reach the mutex.\<close>

record bench_open =
  bo_stop :: "nat \<Rightarrow> bool"
  bo_late :: "nat \<Rightarrow> duration"
  bo_call :: "nat \<Rightarrow> duration \<times> outcome"
  bo_order :: "nat list \<Rightarrow> nat list"

definition open_call ::
  "'h hist_lib \<Rightarrow> (rpc_response \<Rightarrow> int) \<Rightarrow> metrics_sink option \<Rightarrow> bench_open \<Rightarrow> nat \<Rightarrow> 'h tally \<times> rpc_update list
   \<Rightarrow> 'h tally \<times> rpc_update list" where
  "open_call H sizeof sink bo i st =
     (case st of (t, ups) \<Rightarrow>
        (let (rtt, out) = bo_call bo i;
             (ok, t1, ups1) = classify H sizeof sink True (rtt + bo_late bo i) (rtt + bo_late bo i, out) t
         in (t1, ups @ ups1)))"

definition runOpen ::
  "'h hist_lib \<Rightarrow> (rpc_response \<Rightarrow> int) \<Rightarrow> metrics_sink option \<Rightarrow> bench_config \<Rightarrow> bench_open
   \<Rightarrow> ('h tally \<times> rpc_update list) option" where
  "runOpen H sizeof sink cfg bo =
     map_option (\<lambda>ns. fold (open_call H sizeof sink bo) (bo_order bo ns) (new_tally H, []))
       (offers (bench_interval cfg) (b_duration cfg) (bo_stop bo) 0)"

section \<open>The result of a cell\<close>

record 'h bench_result =
  br_Summary :: summary
  br_CorrectedP99 :: duration
  br_CorrectedOK :: bool
  br_Timeouts :: int
  br_NonOK :: int
  br_Retries :: int
  br_Replays :: int
  br_Elapsed :: duration
  br_hdr :: "'h HDR"

text \<open>\<open>rc\<close> holds the retry counter before and after the pass when the client has one.\<close>

definition bench_result_of :: "'h hist_lib \<Rightarrow> duration \<Rightarrow> (u64 \<times> u64) option \<Rightarrow> 'h tally \<Rightarrow> 'h bench_result" where
  "bench_result_of H elapsed rc t =
     \<lparr>br_Summary = Summarize H elapsed (t_hdr t), br_CorrectedP99 = fst (CorrectedP99 H (t_hdr t)),
      br_CorrectedOK = snd (CorrectedP99 H (t_hdr t)), br_Timeouts = t_timeouts t, br_NonOK = t_nonOK t,
      br_Retries = (case rc of None \<Rightarrow> 0 | Some (before, after) \<Rightarrow> sint (after - before)),
      br_Replays = t_replays t, br_Elapsed = elapsed, br_hdr = t_hdr t\<rparr>"

text \<open>\<open>None\<close> is a pass that does not return; \<open>fin\<close> is the state in which the closed loop ends.\<close>

definition runBench ::
  "'h hist_lib \<Rightarrow> (rpc_response \<Rightarrow> int) \<Rightarrow> metrics_sink option \<Rightarrow> bench_config \<Rightarrow> 'h bench_run \<Rightarrow> bench_open \<Rightarrow> duration
   \<Rightarrow> (u64 \<times> u64) option \<Rightarrow> 'h bench_result option" where
  "runBench H sizeof sink cfg fin bo elapsed rc =
     (if b_mode cfg = ''closed'' then Some (bench_result_of H elapsed rc (b_tally fin))
      else if b_mode cfg = ''open'' then map_option (\<lambda>(t, ups). bench_result_of H elapsed rc t) (runOpen H sizeof sink cfg bo)
      else Some (bench_result_of H 0 rc (new_tally H)))"

section \<open>What is counted\<close>

definition succeeded :: "outcome \<Rightarrow> bool" where
  "succeeded out \<longleftrightarrow> snd out = None \<and> GetStatus (fst out) = STATUS_OK"

definition timed_out :: "outcome \<Rightarrow> bool" where
  "timed_out out \<longleftrightarrow> (case snd out of None \<Rightarrow> GetStatus (fst out) = STATUS_TIMEOUT | Some e \<Rightarrow> isTimeout e)"

definition refused :: "outcome \<Rightarrow> bool" where
  "refused out \<longleftrightarrow> snd out = None \<and> GetStatus (fst out) \<notin> {STATUS_OK, STATUS_TIMEOUT}"

definition number :: "(outcome \<Rightarrow> bool) \<Rightarrow> (duration \<times> outcome) list \<Rightarrow> int" where
  "number P calls = int (length (filter (\<lambda>(rtt, out). P out) calls))"

lemma number_simps [simp]:
  "number P [] = 0" "number P (calls @ [(rtt, out)]) = number P calls + (if P out then 1 else 0)"
  by (simp_all add: number_def)

text \<open>The counters hold exactly the calls of their kind; samples are the successes, errors the rest.\<close>

definition tally_inv :: "'h hist_lib \<Rightarrow> (duration \<times> outcome) list \<Rightarrow> 'h tally \<Rightarrow> bool" where
  "tally_inv H calls t \<longleftrightarrow>
     hdr_Count H (t_hdr t) = number succeeded calls \<and> NumErrors (t_hdr t) = number (\<lambda>out. \<not> succeeded out) calls \<and>
     t_timeouts t = number timed_out calls \<and> t_nonOK t = number refused calls \<and>
     t_replays t = number (\<lambda>out. succeeded out \<and> isReplay (fst out)) calls \<and> hdr_inv (t_hdr t)"

lemma tally_inv_new [simp]: "hist_ok H \<Longrightarrow> tally_inv H [] (new_tally H)"
  by (simp add: tally_inv_def new_tally_def)

lemma classify_inv:
  assumes "hist_ok H" and "tally_inv H calls t" and "classify H sizeof sink adjust expected (rtt, out) t = (ok, t', ups)"
  shows "tally_inv H (calls @ [(rtt', out)]) t'" and "ok = succeeded out"
proof -
  obtain rsp err where out: "out = (rsp, err)" by (cases out)
  note d = tally_inv_def succeeded_def timed_out_def refused_def hdr_counts [OF assms(1)] hdr_inv_error
  have "tally_inv H (calls @ [(rtt', out)]) t' \<and> ok = succeeded out"
  proof (cases err)
    case None
    with assms(2,3) out show ?thesis by (auto simp: classify_def Let_def d split: if_splits)
  next
    case (Some e)
    with assms(2,3) out show ?thesis by (auto simp: classify_def d split: if_splits)
  qed
  then show "tally_inv H (calls @ [(rtt', out)]) t'" and "ok = succeeded out" by simp_all
qed

text \<open>The metrics of a live sink count the same calls.\<close>

definition metered :: "rpc_labels \<Rightarrow> (duration \<times> outcome) list \<Rightarrow> rpc_update list \<Rightarrow> bool" where
  "metered l calls ups \<longleftrightarrow>
     int (count_list ups (Requests l)) = number (\<lambda>out. True) calls \<and>
     int (count_list ups (Responses l ''ok'')) = number succeeded calls \<and>
     int (count_list ups (Timeouts l)) = number timed_out calls \<and>
     int (count_list ups (TransportErrors l)) = number (\<lambda>out. \<not> succeeded out \<and> \<not> timed_out out \<and> \<not> refused out) calls \<and>
     int (count_list ups (Replays l)) = number (\<lambda>out. snd out = None \<and> isReplay (fst out)) calls"

lemma classify_metered:
  assumes "sink = Some \<lparr>sk_rec = Some l, sk_reqBytes = n\<rparr>" and "metered l calls ups"
    and "classify H sizeof sink adjust expected (rtt, out) t = (ok, t', ups')"
  shows "metered l (calls @ [(rtt', out)]) (ups @ ups')"
proof -
  obtain rsp err where out: "out = (rsp, err)" by (cases out)
  note d = metered_def succeeded_def timed_out_def refused_def sink_record_def Recorder_Observe_def assms(1) isReplay_def GetStatus_def
  show ?thesis
  proof (cases err)
    case None
    with assms(2,3) out show ?thesis by (cases rsp) (auto simp: classify_def Let_def d split: if_splits)
  next
    case (Some e)
    with assms(2,3) out show ?thesis by (auto simp: classify_def d split: if_splits)
  qed
qed

section \<open>The closed loop ends\<close>

fun bench_work :: "bench_worker \<Rightarrow> nat" where
  "bench_work Taking = 1"
| "bench_work Calling = 2"
| "bench_work Returned = 0"

fun in_call :: "bench_worker \<Rightarrow> nat" where
  "in_call Calling = 1"
| "in_call _ = 0"

definition bench_left :: "'h bench_run \<Rightarrow> nat" where
  "bench_left r =
     (if set (b_workers r) \<subseteq> {Returned} then 0 else 2 * nat (b_remaining r) + sum_list (map bench_work (b_workers r)))"

text \<open>The budget is what was classified, what is in a call, what is left and, once the context has ended,
  what was given up.\<close>

definition bench_inv :: "'h hist_lib \<Rightarrow> bench_config \<Rightarrow> 'h bench_run \<Rightarrow> bool" where
  "bench_inv H cfg r \<longleftrightarrow>
     length (b_workers r) = nat (b_concurrency cfg) \<and> tally_inv H (b_log r) (b_tally r) \<and>
     int (length (b_log r)) + int (sum_list (map in_call (b_workers r))) + max 0 (b_remaining r) \<le> b_requests cfg \<and>
     (\<not> b_ctx_done r \<longrightarrow>
        int (length (b_log r)) + int (sum_list (map in_call (b_workers r))) + max 0 (b_remaining r) = b_requests cfg \<and>
        (Returned \<in> set (b_workers r) \<longrightarrow> b_remaining r < 0))"

lemma bench_inv_init: "hist_ok H \<Longrightarrow> 0 \<le> b_requests cfg \<Longrightarrow> bench_inv H cfg (bench_init H cfg)"
  by (simp add: bench_inv_def bench_init_def sum_list_replicate)

lemma active_left:
  assumes "w < length (b_workers r)" and "b_workers r ! w \<noteq> Returned"
  shows "bench_left r = 2 * nat (b_remaining r) + sum_list (map bench_work (b_workers r))"
proof -
  have "b_workers r ! w \<in> set (b_workers r)" using assms(1) by simp
  with assms(2) have "\<not> set (b_workers r) \<subseteq> {Returned}" by blast
  then show ?thesis by (simp add: bench_left_def)
qed

lemma bench_left_le: "bench_left r \<le> 2 * nat (b_remaining r) + sum_list (map bench_work (b_workers r))"
  by (simp add: bench_left_def)

lemma bench_take_inv:
  assumes "bench_inv H cfg r" and "w < length (b_workers r)" and "b_workers r ! w = Taking" and "b_ctx_done r \<longrightarrow> ended"
  shows "bench_inv H cfg (bench_take w ended r) \<and> bench_left (bench_take w ended r) < bench_left r"
proof -
  note upd = sum_list_update [OF assms(2), of in_call, unfolded assms(3)] sum_list_update [OF assms(2), of bench_work, unfolded assms(3)]
  have left: "bench_left r = 2 * nat (b_remaining r) + sum_list (map bench_work (b_workers r))"
    using active_left [OF assms(2)] assms(3) by simp
  have ret: "Returned \<in> set ((b_workers r)[w := Calling]) \<Longrightarrow> Returned \<in> set (b_workers r)"
    using set_update_subset_insert [of "b_workers r" w Calling] by auto
  have "bench_inv H cfg (bench_take w ended r)"
    using assms(1,4) upd(1) [of Calling] upd(1) [of Returned] ret
    by (auto simp: bench_inv_def bench_take_def Let_def max_def split: if_splits)
  moreover have "bench_left (bench_take w ended r) < bench_left r"
    using bench_left_le [of "bench_take w ended r"] left upd(2) [of Calling] upd(2) [of Returned]
    by (auto simp: bench_take_def Let_def split: if_splits)
  ultimately show ?thesis ..
qed

lemma bench_call_inv:
  assumes "hist_ok H" and "bench_inv H cfg r" and "w < length (b_workers r)" and "b_workers r ! w = Calling"
  shows "bench_inv H cfg (bench_call H sizeof sink w out r) \<and> bench_left (bench_call H sizeof sink w out r) < bench_left r"
proof -
  obtain ok t ups where C: "classify H sizeof sink False 0 out (b_tally r) = (ok, t, ups)" by (metis prod_cases3)
  obtain rtt o' where o: "out = (rtt, o')" by (cases out)
  have left: "bench_left r = 2 * nat (b_remaining r) + sum_list (map bench_work (b_workers r))"
    using active_left [OF assms(3)] assms(4) by simp
  have ret: "Returned \<in> set ((b_workers r)[w := Taking]) \<Longrightarrow> Returned \<in> set (b_workers r)"
    using set_update_subset_insert [of "b_workers r" w Taking] by auto
  have "tally_inv H (b_log r @ [out]) t"
    using classify_inv(1) [OF assms(1) _ C [unfolded o]] assms(2) o by (auto simp: bench_inv_def)
  then have "bench_inv H cfg (bench_call H sizeof sink w out r)"
    using assms(2) C sum_list_update [OF assms(3), of in_call Taking, unfolded assms(4)] ret
    by (auto simp: bench_inv_def bench_call_def)
  moreover have "bench_left (bench_call H sizeof sink w out r) < bench_left r"
    using bench_left_le [of "bench_call H sizeof sink w out r"] left C
      sum_list_update [OF assms(3), of bench_work Taking, unfolded assms(4)]
    by (auto simp: bench_call_def)
  ultimately show ?thesis ..
qed

lemma bench_progress:
  assumes "0 < bench_left r"
  shows "\<exists>r'. bench_step H sizeof sink r r'"
proof -
  have "\<not> set (b_workers r) \<subseteq> {Returned}" using assms by (auto simp: bench_left_def split: if_splits)
  then obtain w where w: "w < length (b_workers r)" "b_workers r ! w \<noteq> Returned" by (auto simp: in_set_conv_nth subset_iff)
  then show ?thesis by (cases "b_workers r ! w") (auto intro: bench_step.intros)
qed

lemma bench_step_inv:
  assumes "bench_step H sizeof sink r r'" and "hist_ok H" and "bench_inv H cfg r"
  shows "bench_inv H cfg r' \<and> bench_left r' < bench_left r"
  using assms(1)
proof (cases rule: bench_step.cases)
  case (taking w ended)
  show ?thesis unfolding taking(1) by (rule bench_take_inv [OF assms(3) taking(2-4)])
next
  case (calling w out)
  show ?thesis unfolding calling(1) by (rule bench_call_inv [OF assms(2,3) calling(2,3)])
qed

interpretation bl: step_loop "bench_step H sizeof sink" "\<lambda>r. hist_ok H \<and> bench_inv H cfg r" bench_left
  for H sizeof sink cfg
  by unfold_locales (use bench_step_inv bench_progress in blast)+

section \<open>The open loop\<close>

lemma div_bounds:
  fixes d i :: int
  assumes "0 < i"
  shows "d div i * i \<le> d" and "d < (d div i + 1) * i"
  using div_mult_mod_eq [of d i] pos_mod_sign [OF assms, of d] pos_mod_bound [OF assms, of d]
  unfolding distrib_right by linarith+

text \<open>With a positive interval the loop ends: it offers one call per interval up to the deadline, the
  deadline included, unless the context ends first.\<close>

lemma offers_spec:
  assumes "1 \<le> interval" and "0 \<le> dur" and "dur + interval < 2 ^ 63" and "i \<le> nat (dur div interval) + 1"
  shows "\<exists>n \<le> nat (dur div interval) + 1. i \<le> n \<and> offers interval dur stop i = Some [i..<n] \<and>
           (n = nat (dur div interval) + 1 \<or> stop n)"
  using assms(4)
proof (induction "nat (dur div interval) + 1 - i" arbitrary: i)
  case 0
  have pos: "0 < interval" using assms(1) by simp
  have "0 \<le> dur div interval" using assms(2) pos by (simp add: pos_imp_zdiv_nonneg_iff)
  with 0 have i: "int i = dur div interval + 1" by linarith
  have b: "dur < int i * interval" "int i * interval \<le> dur + interval"
    using div_bounds [OF pos, of dur] unfolding i by (simp_all add: algebra_simps)
  with assms(2,3) have "wrap64 (int i * interval) = int i * interval" by (intro wrap64_exact) auto
  with b(1) have "offers interval dur stop i = Some [i..<i]" by (subst offers.simps) simp
  with 0 show ?case by (intro exI [of _ i]) auto
next
  case (Suc x)
  have pos: "0 < interval" using assms(1) by simp
  have "0 \<le> dur div interval" using assms(2) pos by (simp add: pos_imp_zdiv_nonneg_iff)
  with Suc.hyps(2) have i: "int i \<le> dur div interval" by linarith
  have "int i * interval \<le> dur div interval * interval" using i pos by (intro mult_right_mono) auto
  with div_bounds(1) [OF pos, of dur] have le: "int i * interval \<le> dur" by linarith
  with assms(3) pos have "wrap64 (int i * interval) = int i * interval" by (intro wrap64_exact) (auto simp: abs_mult)
  with le have step: "offers interval dur stop i = (if stop i then Some [] else Option.bind (offers interval dur stop (i + 1)) (\<lambda>rest. Some (i # rest)))"
    by (subst offers.simps) simp
  show ?case
  proof (cases "stop i")
    case True
    with step Suc.prems show ?thesis by (intro exI [of _ i]) auto
  next
    case False
    obtain n where n: "n \<le> nat (dur div interval) + 1" "i + 1 \<le> n" "offers interval dur stop (i + 1) = Some [i + 1..<n]"
      "n = nat (dur div interval) + 1 \<or> stop n"
      using Suc.hyps(1) [of "i + 1"] Suc.hyps(2) by (metis Suc_diff_Suc Suc_eq_plus1 Suc_leI add_diff_cancel_right' diff_Suc_Suc zero_less_Suc zero_less_diff)
    then have "offers interval dur stop i = Some [i..<n]" using step False upt_conv_Cons [of i n] by simp
    with n show ?thesis by (intro exI [of _ n]) auto
  qed
qed

text \<open>With interval zero it never reaches the deadline.\<close>

lemma offers_diverge:
  assumes "0 \<le> dur" and "\<And>i. \<not> stop i"
  shows "offers 0 dur stop i = None"
proof -
  have "\<not> (interval = 0 \<and> 0 \<le> dur \<and> (\<forall>i. \<not> stop i))" if "offers interval dur stop i = Some ns" for interval dur stop i ns
    using that
    by (rule offers.raw_induct [rotated]) (auto simp: wrap64_exact split: if_splits Option.bind_splits)
  with assms show ?thesis by (metis not_None_eq)
qed

lemma bench_interval_0:
  assumes "2 * 10 ^ 9 \<le> b_rate cfg"
  shows "bench_interval cfg = 0"
proof -
  have "(10 ^ 9 :: rat) / b_rate cfg \<le> 1 / 2" using assms by (simp add: field_simps)
  then have "fl (10 ^ 9 / b_rate cfg) \<le> fl (1 / 2)" by (rule fl_mono)
  moreover have "exact64 (1 / 2)" using fl_scaled [of 1 "-1"] by (simp add: power_int_minus)
  then have "fl (1 / 2) = 1 / 2" by (rule exact64_fl)
  moreover have "0 \<le> fl (10 ^ 9 / b_rate cfg)" using assms by (intro fl_nonneg) simp
  ultimately have "0 \<le> fl (10 ^ 9 / b_rate cfg)" "fl (10 ^ 9 / b_rate cfg) < 1" by simp_all
  then have "\<lfloor>fl (10 ^ 9 / b_rate cfg)\<rfloor> = 0" by (simp add: floor_eq_iff)
  with \<open>0 \<le> fl (10 ^ 9 / b_rate cfg)\<close> show ?thesis
    using of_i64_exact [of Second] by (simp add: bench_interval_def fdiv_def to_i64_def)
qed

lemma number_perm: "mset xs = mset ys \<Longrightarrow> number P xs = number P ys"
  unfolding number_def by (metis mset_filter size_mset)

text \<open>Where the expected interval is the sample itself nothing is back-filled: what the library documents.\<close>

definition no_backfill :: "'h hist_lib \<Rightarrow> bool" where
  "no_backfill H \<longleftrightarrow> (\<forall>v h. h_corrected H v v h = h_record H v h)"

lemma classify_same_series:
  assumes "no_backfill H" and "classify H sizeof sink True d (d, out) t = (ok, t', ups)" and "corrected (t_hdr t) = raw (t_hdr t)"
  shows "corrected (t_hdr t') = raw (t_hdr t')"
proof -
  obtain rsp err where out: "out = (rsp, err)" by (cases out)
  show ?thesis
    using assms out
    by (auto simp: classify_def Let_def AddErrorKind_def RecordCorrected_def no_backfill_def split: option.splits if_splits)
qed

lemma open_fold:
  assumes "hist_ok H" and "tally_inv H calls t" and "fold (open_call H sizeof sink bo) ns (t, ups) = (t', ups')"
  shows "tally_inv H (calls @ map (bo_call bo) ns) t'"
    and "no_backfill H \<Longrightarrow> corrected (t_hdr t) = raw (t_hdr t) \<Longrightarrow> corrected (t_hdr t') = raw (t_hdr t')"
proof -
  have "tally_inv H (calls @ map (bo_call bo) ns) t' \<and>
        (no_backfill H \<longrightarrow> corrected (t_hdr t) = raw (t_hdr t) \<longrightarrow> corrected (t_hdr t') = raw (t_hdr t'))"
    using assms(2,3)
  proof (induction ns arbitrary: calls t ups)
    case (Cons n ns)
    obtain rtt out where c: "bo_call bo n = (rtt, out)" by (cases "bo_call bo n")
    obtain ok t1 ups1 where C: "classify H sizeof sink True (rtt + bo_late bo n) (rtt + bo_late bo n, out) t = (ok, t1, ups1)"
      by (metis prod_cases3)
    then have "open_call H sizeof sink bo n (t, ups) = (t1, ups @ ups1)" using c by (simp add: open_call_def)
    then have F: "fold (open_call H sizeof sink bo) ns (t1, ups @ ups1) = (t', ups')" using Cons.prems(2) by simp
    have "tally_inv H (calls @ [(rtt, out)]) t1" by (rule classify_inv(1) [OF assms(1) Cons.prems(1) C])
    from Cons.IH [OF this F] show ?case using c classify_same_series [OF _ C] by auto
  qed simp
  then show "tally_inv H (calls @ map (bo_call bo) ns) t'"
    and "no_backfill H \<Longrightarrow> corrected (t_hdr t) = raw (t_hdr t) \<Longrightarrow> corrected (t_hdr t') = raw (t_hdr t')" by simp_all
qed

text \<open>What the reported counters say of the calls they were made from.\<close>

definition accounts :: "'h bench_result \<Rightarrow> (duration \<times> outcome) list \<Rightarrow> bool" where
  "accounts res calls \<longleftrightarrow>
     sm_Count (br_Summary res) = number succeeded calls \<and> sm_Errors (br_Summary res) = number (\<lambda>out. \<not> succeeded out) calls \<and>
     sm_Count (br_Summary res) + sm_Errors (br_Summary res) = int (length calls) \<and>
     br_Timeouts res = number timed_out calls \<and> br_NonOK res = number refused calls \<and>
     br_Replays res = number (\<lambda>out. succeeded out \<and> isReplay (fst out)) calls \<and>
     sum_list (map snd (errKinds (br_hdr res))) = sm_Errors (br_Summary res)"

lemma Summarize_counts [simp]:
  "sm_Count (Summarize H d r) = hdr_Count H r" "sm_Errors (Summarize H d r) = NumErrors r"
  by (simp_all add: Summarize_def Let_def hdr_Count_def NumErrors_def)

lemma number_partition: "number P calls + number (\<lambda>out. \<not> P out) calls = int (length calls)"
  by (induction calls) (auto simp: number_def split: prod.splits)

lemma tally_accounts: "tally_inv H calls t \<Longrightarrow> accounts (bench_result_of H elapsed rc t) calls"
  using number_partition [of succeeded calls]
  by (simp add: accounts_def bench_result_of_def tally_inv_def hdr_inv_def NumErrors_def)

lemma accounts_perm: "mset xs = mset ys \<Longrightarrow> accounts res xs \<longleftrightarrow> accounts res ys"
  using number_perm [of xs ys] mset_eq_length [of xs ys] by (simp add: accounts_def)

lemma bench_metered:
  assumes "(bench_step H sizeof sink ^^ k) (bench_init H cfg) r" and "sink = Some \<lparr>sk_rec = Some l, sk_reqBytes = n\<rparr>"
  shows "metered l (b_log r) (b_updates r)"
  using assms(1)
proof (induction k arbitrary: r)
  case 0
  then show ?case by (auto simp: bench_init_def metered_def)
next
  case (Suc k)
  then obtain r1 where r1: "(bench_step H sizeof sink ^^ k) (bench_init H cfg) r1" "bench_step H sizeof sink r1 r" by auto
  from r1(2) show ?case
  proof (cases rule: bench_step.cases)
    case (taking w ended)
    then show ?thesis using Suc.IH [OF r1(1)] by (simp add: bench_take_def Let_def)
  next
    case (calling w out)
    obtain ok t ups where C: "classify H sizeof sink False 0 out (b_tally r1) = (ok, t, ups)" by (metis prod_cases3)
    obtain rtt o' where o: "out = (rtt, o')" by (cases out)
    show ?thesis
      using classify_metered [OF assms(2) Suc.IH [OF r1(1)] C [unfolded o], of rtt] calling(1) C o by (simp add: bench_call_def)
  qed
qed

section \<open>Properties\<close>

text \<open>C30. A closed-loop cell under every interleaving of its workers and every moment at which the context may
  end.  A run takes at most twice the budget plus the number of workers steps and cannot get stuck before
  every worker has returned.  At any moment the reported counters account for exactly the calls
  made so far, at most the budget; when all workers have returned without the context having ended, the
  calls made are exactly the budget.  The metrics of a live sink agree with the counters.\<close>

theorem bench_closed:
  assumes "hist_ok H" and "bench_validate cfg = None" and "b_mode cfg = ''closed''"
    and "(bench_step H sizeof sink ^^ k) (bench_init H cfg) r"
  shows "k \<le> 2 * nat (b_requests cfg) + nat (b_concurrency cfg) \<and>
         ((\<exists>r'. bench_step H sizeof sink r r') \<or> set (b_workers r) = {Returned}) \<and>
         (\<exists>res. runBench H sizeof sink cfg r bo elapsed rc = Some res \<and> accounts res (b_log r)) \<and>
         int (length (b_log r)) \<le> b_requests cfg \<and>
         (set (b_workers r) = {Returned} \<and> \<not> b_ctx_done r \<longrightarrow> int (length (b_log r)) = b_requests cfg) \<and>
         (\<forall>l n. sink = Some \<lparr>sk_rec = Some l, sk_reqBytes = n\<rparr> \<longrightarrow> metered l (b_log r) (b_updates r))"
proof (intro conjI)
  have pos: "0 < b_requests cfg" "0 < b_concurrency cfg"
    using assms(2,3) by (auto simp: bench_validate_def split: if_splits)
  have inv: "bench_inv H cfg r" and bound: "k + bench_left r \<le> bench_left (bench_init H cfg)"
    using bl.run_bounded [OF _ assms(4), of cfg] bench_inv_init [OF assms(1), of cfg] assms(1) pos by auto
  have "bench_left (bench_init H cfg) \<le> 2 * nat (b_requests cfg) + nat (b_concurrency cfg)"
    using bench_left_le [of "bench_init H cfg"] by (simp add: bench_init_def sum_list_replicate)
  with bound show "k \<le> 2 * nat (b_requests cfg) + nat (b_concurrency cfg)" by simp
  have ne: "b_workers r \<noteq> []" using inv pos(2) by (auto simp: bench_inv_def)
  show "(\<exists>r'. bench_step H sizeof sink r r') \<or> set (b_workers r) = {Returned}"
  proof (cases "set (b_workers r) \<subseteq> {Returned}")
    case True
    with ne show ?thesis by (cases "b_workers r") auto
  next
    case False
    then obtain w where "w < length (b_workers r)" "b_workers r ! w \<noteq> Returned" by (auto simp: in_set_conv_nth subset_iff)
    then show ?thesis by (cases "b_workers r ! w") (auto intro: bench_step.intros)
  qed
  show "\<exists>res. runBench H sizeof sink cfg r bo elapsed rc = Some res \<and> accounts res (b_log r)"
    using inv assms(3) tally_accounts [of H "b_log r" "b_tally r"] by (simp add: runBench_def bench_inv_def)
  show "int (length (b_log r)) \<le> b_requests cfg" using inv by (auto simp: bench_inv_def max_def split: if_splits)
  show "set (b_workers r) = {Returned} \<and> \<not> b_ctx_done r \<longrightarrow> int (length (b_log r)) = b_requests cfg"
  proof
    assume fin: "set (b_workers r) = {Returned} \<and> \<not> b_ctx_done r"
    then have "sum_list (map in_call (b_workers r)) = 0" by simp
    moreover have "Returned \<in> set (b_workers r)" using fin by simp
    with fin have "b_remaining r < 0" "int (length (b_log r)) + int (sum_list (map in_call (b_workers r))) + max 0 (b_remaining r) = b_requests cfg"
      using inv unfolding bench_inv_def by blast+
    ultimately show "int (length (b_log r)) = b_requests cfg" by linarith
  qed
  show "\<forall>l n. sink = Some \<lparr>sk_rec = Some l, sk_reqBytes = n\<rparr> \<longrightarrow> metered l (b_log r) (b_updates r)"
    by (intro allI impI) (rule bench_metered [OF assms(4)])
qed

text \<open>One request answered by one worker, over the counting histogram.\<close>

definition demo_bench :: bench_config where
  "demo_bench = \<lparr>b_mode = ''closed'', b_requests = 1, b_concurrency = 1, b_rate = 0, b_duration = 0, b_timeout = 5\<rparr>"

definition demo_outcome :: outcome where
  "demo_outcome = (Some (zero_response\<lparr>rs_Status := STATUS_OK\<rparr>), None)"

definition demo_open :: bench_open where
  "demo_open = \<lparr>bo_stop = (\<lambda>i. False), bo_late = (\<lambda>i. 0), bo_call = (\<lambda>i. (7, demo_outcome)), bo_order = (\<lambda>xs. xs)\<rparr>"

theorem bench_closed_witness:
  "\<exists>r res. (bench_step count_hist (\<lambda>r. 0) None ^^ 3) (bench_init count_hist demo_bench) r \<and> set (b_workers r) = {Returned} \<and>
     runBench count_hist (\<lambda>r. 0) None demo_bench r demo_open 5 None = Some res \<and> accounts res (b_log r) \<and>
     int (length (b_log r)) = 1 \<and> sm_Count (br_Summary res) = 1"
proof -
  let ?H = count_hist and ?z = "\<lambda>r. 0 :: int" and ?i = "bench_init count_hist demo_bench"
  define r1 where "r1 = bench_take 0 False ?i"
  define r2 where "r2 = bench_call ?H ?z None 0 (7, demo_outcome) r1"
  define r3 where "r3 = bench_take 0 False r2"
  note d = bench_init_def demo_bench_def r1_def r2_def r3_def bench_take_def bench_call_def classify_def demo_outcome_def Let_def
    GetStatus_def isReplay_def zero_response_def
  have "bench_step ?H ?z None ?i r1" unfolding r1_def by (rule bench_step.taking) (simp_all add: d)
  moreover have "bench_step ?H ?z None r1 r2" unfolding r2_def by (rule bench_step.calling) (simp_all add: d)
  moreover have "bench_step ?H ?z None r2 r3" unfolding r3_def by (rule bench_step.taking) (simp_all add: d)
  ultimately have run: "(bench_step ?H ?z None ^^ 3) ?i r3" by (auto simp: numeral_3_eq_3)
  have fin: "set (b_workers r3) = {Returned}" "\<not> b_ctx_done r3" "b_log r3 = [(7, demo_outcome)]" by (simp_all add: d)
  have v: "bench_validate demo_bench = None" "b_mode demo_bench = ''closed''" "b_requests demo_bench = 1"
    by (simp_all add: bench_validate_def demo_bench_def)
  note T = bench_closed [OF count_hist_ok v(1,2) run, of demo_open 5 None]
  then obtain res where res: "runBench ?H ?z None demo_bench r3 demo_open 5 None = Some res" "accounts res (b_log r3)" by blast
  moreover have "sm_Count (br_Summary res) = 1"
    using res(2) fin(3) by (simp add: accounts_def number_def succeeded_def demo_outcome_def GetStatus_def)
  ultimately show ?thesis using run fin T v(3) by fastforce
qed

text \<open>An open-loop cell whose rate leaves a positive interval and whose deadline is in the range of the
  clock.  The loop returns; it offers one call per interval up to and including the deadline, unless the
  context ends, with between one and 4096 calls outstanding; whatever order the calls end in, the counters
  account for exactly the calls offered.  Because
  every sample is corrected against itself, the corrected distribution is the raw one: the reported
  corrected p99 is the p99.\<close>

theorem bench_open:
  assumes "hist_ok H" and "no_backfill H" and "bench_validate cfg = None" and "b_mode cfg = ''open''"
    and "1 \<le> bench_interval cfg" and "b_duration cfg + bench_interval cfg < 2 ^ 63"
    and "\<forall>xs. mset (bo_order bo xs) = mset xs"
  shows "\<exists>res n. runBench H sizeof sink cfg fin bo elapsed rc = Some res \<and> accounts res (map (bo_call bo) [0..<n]) \<and>
           n \<le> nat (b_duration cfg div bench_interval cfg) + 1 \<and>
           (n = nat (b_duration cfg div bench_interval cfg) + 1 \<or> bo_stop bo n) \<and>
           1 \<le> bench_pool cfg \<and> bench_pool cfg \<le> 4096 \<and>
           (br_CorrectedOK res \<longleftrightarrow> sm_Count (br_Summary res) \<noteq> 0) \<and>
           (br_CorrectedOK res \<longrightarrow> br_CorrectedP99 res = P99 (br_Summary res))"
proof -
  have "0 \<le> fdiv (b_rate cfg) 10"
    unfolding fdiv_def using assms(3,4) by (intro fl_nonneg) (auto simp: bench_validate_def split: if_splits)
  then have pool: "1 \<le> bench_pool cfg" "bench_pool cfg \<le> 4096" by (simp_all add: bench_pool_def to_i64_def Let_def)
  have dur: "0 \<le> b_duration cfg" using assms(3,4) by (auto simp: bench_validate_def split: if_splits)
  obtain n where n: "n \<le> nat (b_duration cfg div bench_interval cfg) + 1"
    "offers (bench_interval cfg) (b_duration cfg) (bo_stop bo) 0 = Some [0..<n]"
    "n = nat (b_duration cfg div bench_interval cfg) + 1 \<or> bo_stop bo n"
    using offers_spec [OF assms(5) dur assms(6), of 0 "bo_stop bo"] by auto
  obtain t ups where F: "fold (open_call H sizeof sink bo) (bo_order bo [0..<n]) (new_tally H, []) = (t, ups)" by (metis prod.exhaust)
  have same: "corrected (t_hdr t) = raw (t_hdr t)"
    using open_fold(2) [OF assms(1) tally_inv_new [OF assms(1)] F assms(2)] by (simp add: new_tally_def NewHDR_def)
  have "tally_inv H (map (bo_call bo) (bo_order bo [0..<n])) t"
    using open_fold(1) [OF assms(1) tally_inv_new [OF assms(1)] F] by simp
  then have "accounts (bench_result_of H elapsed rc t) (map (bo_call bo) (bo_order bo [0..<n]))" by (rule tally_accounts)
  moreover have "mset (map (bo_call bo) (bo_order bo [0..<n])) = mset (map (bo_call bo) [0..<n])" using assms(7) by simp
  ultimately have acc: "accounts (bench_result_of H elapsed rc t) (map (bo_call bo) [0..<n])" using accounts_perm by blast
  have R: "runBench H sizeof sink cfg fin bo elapsed rc = Some (bench_result_of H elapsed rc t)"
    using assms(4) n(2) F by (simp add: runBench_def runOpen_def)
  have "br_CorrectedOK (bench_result_of H elapsed rc t) \<longleftrightarrow> sm_Count (br_Summary (bench_result_of H elapsed rc t)) \<noteq> 0"
    "br_CorrectedOK (bench_result_of H elapsed rc t) \<longrightarrow>
       br_CorrectedP99 (bench_result_of H elapsed rc t) = P99 (br_Summary (bench_result_of H elapsed rc t))"
    using same by (simp_all add: bench_result_of_def CorrectedP99_def hdr_Count_def Summarize_def Let_def)
  with R acc n(1,3) pool show ?thesis by blast
qed

theorem bench_open_witness:
  "\<exists>res. runBench count_hist (\<lambda>r. 0) None (demo_bench\<lparr>b_mode := ''open'', b_rate := 1, b_duration := 2000000000\<rparr>)
       (bench_init count_hist demo_bench) demo_open 5 None = Some res \<and>
     sm_Count (br_Summary res) = 3 \<and> br_CorrectedOK res \<and> br_CorrectedP99 res = P99 (br_Summary res)"
proof -
  let ?cfg = "demo_bench\<lparr>b_mode := ''open'', b_rate := 1, b_duration := 2000000000\<rparr>"
  have i: "bench_interval ?cfg = Second"
    using of_i64_exact [of Second] fl_of_int [of Second, THEN exact64_fl] by (simp add: bench_interval_def fdiv_def to_i64_def)
  have v: "bench_validate ?cfg = None" by (simp add: bench_validate_def demo_bench_def)
  have nb: "no_backfill count_hist" by (simp add: no_backfill_def count_hist_def)
  have "\<exists>res n. runBench count_hist (\<lambda>r. 0) None ?cfg (bench_init count_hist demo_bench) demo_open 5 None = Some res \<and>
      accounts res (map (bo_call demo_open) [0..<n]) \<and> n \<le> nat (b_duration ?cfg div bench_interval ?cfg) + 1 \<and>
      (n = nat (b_duration ?cfg div bench_interval ?cfg) + 1 \<or> bo_stop demo_open n) \<and>
      1 \<le> bench_pool ?cfg \<and> bench_pool ?cfg \<le> 4096 \<and>
      (br_CorrectedOK res \<longleftrightarrow> sm_Count (br_Summary res) \<noteq> 0) \<and>
      (br_CorrectedOK res \<longrightarrow> br_CorrectedP99 res = P99 (br_Summary res))"
    by (rule bench_open [OF count_hist_ok nb v]) (simp_all add: i demo_open_def)
  then obtain res n where r: "runBench count_hist (\<lambda>r. 0) None ?cfg (bench_init count_hist demo_bench) demo_open 5 None = Some res"
    "accounts res (map (bo_call demo_open) [0..<n])" "n = 3 \<or> bo_stop demo_open n"
    "br_CorrectedOK res \<longleftrightarrow> sm_Count (br_Summary res) \<noteq> 0" "br_CorrectedOK res \<longrightarrow> br_CorrectedP99 res = P99 (br_Summary res)"
    unfolding i by auto
  have "n = 3" using r(3) by (simp add: demo_open_def)
  then have "sm_Count (br_Summary res) = 3"
    using r(2) by (simp add: accounts_def number_def demo_open_def succeeded_def demo_outcome_def GetStatus_def numeral_3_eq_3)
  with r show ?thesis by auto
qed

text \<open>A rate of two per nanosecond or more makes the interval zero: the open loop never reaches its
  deadline, so a run with a valid configuration whose context does not end never returns.\<close>

theorem bench_open_diverges:
  assumes "bench_validate cfg = None" and "b_mode cfg = ''open''" and "2 * 10 ^ 9 \<le> b_rate cfg" and "\<forall>i. \<not> bo_stop bo i"
  shows "runBench H sizeof sink cfg fin bo elapsed rc = None"
proof -
  have "0 \<le> b_duration cfg" using assms(1,2) by (auto simp: bench_validate_def split: if_splits)
  then have "offers (bench_interval cfg) (b_duration cfg) (bo_stop bo) 0 = None"
    using offers_diverge assms(4) bench_interval_0 [OF assms(3)] by simp
  with assms(2) show ?thesis by (simp add: runBench_def runOpen_def)
qed

theorem bench_open_diverges_witness:
  "runBench count_hist (\<lambda>r. 0) None (demo_bench\<lparr>b_mode := ''open'', b_rate := 10 ^ 10, b_duration := Second\<rparr>)
     (bench_init count_hist demo_bench) demo_open 5 None = None"
  by (rule bench_open_diverges) (simp_all add: bench_validate_def demo_bench_def demo_open_def)

end
