(* ===== verification/Sweep.thy ===== *)
theory Sweep
  imports Rpcbench
begin

text \<open>
  The payload-size sweep of the RPC load driver (\<open>clients/rpc-benchmark/sweep.go\<close>) and what its \<open>main.go\<close>
  makes of the cells: sizes parsed from the command line, one workload per size, the run record with one
  cell per workload, the JSON line per cell and the exit status.

  Times already formatted, the revision and the state of the tree, the Go version, and the contents of the
  files under \<open>/proc\<close> are arguments.
\<close>

section \<open>Sizes\<close>

text \<open>\<open>strings.EqualFold\<close> against a word of ASCII letters: only ASCII characters can fold to them in the
  same number of bytes.\<close>

definition lower :: "char \<Rightarrow> char" where
  "lower c = (if 65 \<le> (of_char c :: nat) \<and> (of_char c :: nat) \<le> 90 then char_of ((of_char c :: nat) + 32) else c)"

definition EqualFold :: "string \<Rightarrow> string \<Rightarrow> bool" where
  "EqualFold s t \<longleftrightarrow> map lower s = map lower t"

definition hasSuffixFold :: "string \<Rightarrow> string \<Rightarrow> bool" where
  "hasSuffixFold s suffix \<longleftrightarrow> length s \<ge> length suffix \<and> EqualFold (drop (length s - length suffix) s) suffix"

definition parseSize :: "string \<Rightarrow> gerr + int" where
  "parseSize s0 =
     (let s1 = TrimSpace s0;
          (mult, s) = (if hasSuffixFold s1 ''MiB'' then (1024 * 1024, take (length s1 - 3) s1)
                       else if hasSuffixFold s1 ''KiB'' then (1024, take (length s1 - 3) s1)
                       else if hasSuffixFold s1 ''B'' then (1, take (length s1 - 1) s1)
                       else (1, s1))
      in case ParseInt64 (TrimSpace s) of
           None \<Rightarrow> Inl (Opaque (''bad size '' @ quoted s @ '' (want e.g. 100B, 1KiB, 1MiB)''))
         | Some n \<Rightarrow> (if n < 0 then Inl (Opaque (''size '' @ quoted s @ '' is negative'')) else Inr (wrap64 (n * mult))))"

definition humanSize :: "int \<Rightarrow> string" where
  "humanSize n =
     (if n \<noteq> 0 \<and> n smod (1024 * 1024) = 0 then itoa (n sdiv (1024 * 1024)) @ ''MiB''
      else if n \<noteq> 0 \<and> n smod 1024 = 0 then itoa (n sdiv 1024) @ ''KiB''
      else itoa n @ ''B'')"

definition defaultLadder :: "int list" where
  "defaultLadder = [100, 1024, 10 * 1024, 100 * 1024, 1024 * 1024]"

fun parse_parts :: "string list \<Rightarrow> gerr + int list" where
  "parse_parts [] = Inr []"
| "parse_parts (p # ps) =
     (let part = TrimSpace p in
      if part = '''' then parse_parts ps
      else (case parseSize part of
              Inl err \<Rightarrow> Inl err
            | Inr n \<Rightarrow> map_sum id (\<lambda>ns. n # ns) (parse_parts ps)))"

definition parseSizes :: "string \<Rightarrow> gerr + int list" where
  "parseSizes csv =
     (if EqualFold (TrimSpace csv) ''default'' then Inr defaultLadder
      else (case parse_parts (Split CHR '','' csv) of
              Inl err \<Rightarrow> Inl err
            | Inr out \<Rightarrow> (if out = [] then Inl (Opaque (''-sizes '' @ quoted csv @ '' lists no sizes'')) else Inr out)))"

section \<open>Workloads\<close>

text \<open>\<open>wl_newReq\<close> takes the values of the UUID and the clock; \<open>Inl\<close> is a panic.\<close>

record workload =
  wl_service :: string
  wl_method :: string
  wl_fixture :: string
  wl_blobBytes :: int
  wl_newReq :: "string \<Rightarrow> timestamp \<Rightarrow> gerr + rpc_request"

definition mkReq ::
  "('a service_msg \<Rightarrow> gerr + any_pb) \<Rightarrow> string \<Rightarrow> string \<Rightarrow> 'a service_msg \<Rightarrow> duration \<Rightarrow> string \<Rightarrow> string \<Rightarrow> timestamp
   \<Rightarrow> gerr + rpc_request" where
  "mkReq any_new service method payload timeout idemKey uuid now =
     map_sum id (\<lambda>req. if idemKey \<noteq> '''' then req\<lparr>rq_IdempotencyKey := idemKey\<rparr> else req)
       (NewRequest any_new uuid now service method (Some payload) timeout)"

text \<open>\<open>blob n\<close> is the content of an \<open>AllTypes\<close> message whose only set field is a blob of \<open>n\<close> zero bytes;
  \<open>None\<close> is the panic of \<open>make\<close> on a negative length.\<close>

definition buildWorkloads ::
  "('a service_msg \<Rightarrow> gerr + any_pb) \<Rightarrow> (nat \<Rightarrow> 'a) \<Rightarrow> string \<Rightarrow> string \<Rightarrow> string \<Rightarrow> duration \<Rightarrow> string
   \<Rightarrow> (gerr + workload list) option" where
  "buildWorkloads any_new blob sizes customerID region timeout idemKey =
     (if TrimSpace sizes = '''' then
        Some (Inr [\<lparr>wl_service = ''customer'', wl_method = ''Lookup'', wl_fixture = ''customer'', wl_blobBytes = 0,
                    wl_newReq = mkReq any_new ''customer'' ''Lookup'' (CustomerLookupRequest customerID region) timeout idemKey\<rparr>])
      else
        (case parseSizes sizes of
           Inl err \<Rightarrow> Some (Inl err)
         | Inr ns \<Rightarrow>
             (if \<exists>n \<in> set ns. n < 0 then None
              else Some (Inr (map (\<lambda>n. \<lparr>wl_service = ''echo'', wl_method = ''Echo'', wl_fixture = humanSize n, wl_blobBytes = n,
                     wl_newReq = mkReq any_new ''echo'' ''Echo'' (AllTypes (blob (nat n))) timeout idemKey\<rparr>) ns)))))"

section \<open>Running the cells\<close>

record bench_mem =
  bm_Mallocs :: u64
  bm_TotalAlloc :: u64
  bm_NumGC :: "32 word"
  bm_PauseTotalNs :: u64

record 'h cell_run =
  cr_wl :: workload
  cr_res :: "'h bench_result"
  cr_reqBytes :: int
  cr_mem :: bench_mem

text \<open>What one cell meets: the first request's UUID and clock, the end of the closed loop or the calls of the
  open one, the elapsed time, the retry counter, the two readings of the statistics.\<close>

record 'h cell_env =
  ce_uuid :: string
  ce_now :: timestamp
  ce_fin :: "'h bench_run"
  ce_open :: bench_open
  ce_elapsed :: duration
  ce_rc :: "(u64 \<times> u64) option"
  ce_m0 :: bench_mem
  ce_m1 :: bench_mem

definition mem_delta :: "bench_mem \<Rightarrow> bench_mem \<Rightarrow> bench_mem" where
  "mem_delta m0 m1 =
     \<lparr>bm_Mallocs = bm_Mallocs m1 - bm_Mallocs m0, bm_TotalAlloc = bm_TotalAlloc m1 - bm_TotalAlloc m0,
      bm_NumGC = bm_NumGC m1 - bm_NumGC m0, bm_PauseTotalNs = bm_PauseTotalNs m1 - bm_PauseTotalNs m0\<rparr>"

definition run_workload ::
  "'h hist_lib \<Rightarrow> (rpc_request \<Rightarrow> int) \<Rightarrow> (rpc_response \<Rightarrow> int) \<Rightarrow> bool \<Rightarrow> string \<Rightarrow> string \<Rightarrow> bench_config \<Rightarrow> 'h cell_env \<Rightarrow> workload
   \<Rightarrow> 'h cell_run option" where
  "run_workload H protoSize sizeof inst transport codec cfg ce wl =
     (case wl_newReq wl (ce_uuid ce) (ce_now ce) of
        Inl panic \<Rightarrow> None
      | Inr req \<Rightarrow>
          (let reqBytes = protoSize req;
               sink = (if inst
                       then Some \<lparr>sk_rec = For inst \<lparr>lb_Transport = transport, lb_Codec = codec, lb_Service = wl_service wl, lb_Method = wl_method wl\<rparr>,
                                  sk_reqBytes = reqBytes\<rparr>
                       else None)
           in map_option (\<lambda>res. \<lparr>cr_wl = wl, cr_res = res, cr_reqBytes = reqBytes, cr_mem = mem_delta (ce_m0 ce) (ce_m1 ce)\<rparr>)
                (runBench H sizeof sink cfg (ce_fin ce) (ce_open ce) (ce_elapsed ce) (ce_rc ce))))"

definition runWorkloads ::
  "'h hist_lib \<Rightarrow> (rpc_request \<Rightarrow> int) \<Rightarrow> (rpc_response \<Rightarrow> int) \<Rightarrow> bool \<Rightarrow> string \<Rightarrow> string \<Rightarrow> bench_config \<Rightarrow> (nat \<Rightarrow> 'h cell_env)
   \<Rightarrow> workload list \<Rightarrow> 'h cell_run list option" where
  "runWorkloads H protoSize sizeof inst transport codec cfg ces wls =
     those (map (\<lambda>(i, wl). run_workload H protoSize sizeof inst transport codec cfg (ces i) wl) (enumerate 0 wls))"

section \<open>The run record\<close>

definition cellSummary :: "'h hist_lib \<Rightarrow> bench_config \<Rightarrow> string \<Rightarrow> string \<Rightarrow> 'h cell_run \<Rightarrow> run_summary" where
  "cellSummary H cfg transport codec c =
     (let s = br_Summary (cr_res c);
          sum0 = zero_summary\<lparr>rs_Tier := ''rpc'', rs_Transport := transport, rs_Codec := codec, rs_Fixture := wl_fixture (cr_wl c),
                   rs_Pool := ''none'', rs_GC := ''default'', rs_Mode := b_mode cfg, rs_Msgs := sm_Count s,
                   rs_Errors := (case ErrorKinds (br_hdr (cr_res c)) of None \<Rightarrow> [] | Some ks \<Rightarrow> ks),
                   rs_Retries := br_Retries (cr_res c), rs_Replays := br_Replays (cr_res c),
                   rs_ThroughputMsgS := ThroughputPerSec s, rs_RTTP50US := us (P50 s), rs_RTTP90US := us (P90 s),
                   rs_RTTP95US := us (ValueAt H 95 (br_hdr (cr_res c))), rs_RTTP99US := us (P99 s), rs_RTTP999US := us (P999 s),
                   rs_RTTMaxUS := us (sm_Max s), rs_WireBytesReq := cr_reqBytes c\<rparr>;
          sum1 = (if b_mode cfg = ''open'' then sum0\<lparr>rs_Rate := b_rate cfg\<rparr> else sum0\<lparr>rs_Inflight := b_concurrency cfg\<rparr>);
          sum2 = (if br_CorrectedOK (cr_res c) then sum1\<lparr>rs_RTTCoCorrectedP99US := us (br_CorrectedP99 (cr_res c))\<rparr> else sum1);
          sum3 = (if cr_reqBytes c > 0
                  then sum2\<lparr>rs_ThroughputMiBS := fdiv (fmul (ThroughputPerSec s) (of_i64 (cr_reqBytes c))) 1048576\<rparr> else sum2)
      in if sm_Count s > 0
         then sum3\<lparr>rs_DriverAllocBytesPerMsg := fdiv (of_i64 (uint (bm_TotalAlloc (cr_mem c)))) (of_i64 (sm_Count s)),
                   rs_DriverAllocsPerMsg := fdiv (of_i64 (uint (bm_Mallocs (cr_mem c)))) (of_i64 (sm_Count s))\<rparr>
         else sum3)"

definition hgrm :: "'h hist_lib \<Rightarrow> 'h HDR \<Rightarrow> string" where
  "hgrm H h = (case WriteHGRM H (\<lambda>i. None) h of Inl err \<Rightarrow> '''' | Inr txt \<Rightarrow> txt)"

definition gitInfo :: "gerr + string \<Rightarrow> gerr + string \<Rightarrow> string \<times> bool" where
  "gitInfo revp status =
     (case revp of
        Inl err \<Rightarrow> ('''', False)
      | Inr r \<Rightarrow> (r, (case status of Inl err \<Rightarrow> False | Inr st \<Rightarrow> TrimSpace st \<noteq> '''')))"

fun cut :: "char \<Rightarrow> string \<Rightarrow> (string \<times> string) option" where
  "cut c [] = None"
| "cut c (x # xs) = (if x = c then Some ([], xs) else map_option (\<lambda>(k, v). (x # k, v)) (cut c xs))"

fun first_model :: "string list \<Rightarrow> string" where
  "first_model [] = ''''"
| "first_model (l # ls) =
     (case cut CHR '':'' l of
        Some (k, v) \<Rightarrow> (if TrimSpace k = ''model name'' then TrimSpace v else first_model ls)
      | None \<Rightarrow> first_model ls)"

definition cpuModel :: "gerr + string \<Rightarrow> string" where
  "cpuModel file = (case file of Inl err \<Rightarrow> '''' | Inr b \<Rightarrow> first_model (Split CHR 0x0A b))"

definition cell_id :: "bench_config \<Rightarrow> string \<Rightarrow> string \<Rightarrow> 'h cell_run \<Rightarrow> string" where
  "cell_id cfg transport codec c = ''rpc/'' @ transport @ ''/'' @ codec @ ''/'' @ wl_fixture (cr_wl c) @ ''/'' @ b_mode cfg"

definition record_cell :: "'h hist_lib \<Rightarrow> bench_config \<Rightarrow> string \<Rightarrow> string \<Rightarrow> 'h cell_run \<Rightarrow> run_cell" where
  "record_cell H cfg transport codec c =
     \<lparr>rc_ID = cell_id cfg transport codec c, rc_Repeat = 0, rc_Summary = cellSummary H cfg transport codec c,
      rc_HGRM = hgrm H (br_hdr (cr_res c))\<rparr>"

definition buildRun ::
  "'h hist_lib \<Rightarrow> bench_config \<Rightarrow> string \<Rightarrow> string \<Rightarrow> string \<times> string \<times> string \<Rightarrow> string \<times> bool \<Rightarrow> string \<Rightarrow> string \<Rightarrow> 'h cell_run list \<Rightarrow> run" where
  "buildRun H cfg transport codec formatted git goVersion cpu cells =
     (case formatted of (stamp, started, finished) \<Rightarrow>
        \<lparr>ru_RunID = ''rpc-'' @ stamp, ru_StartedAt = started, ru_FinishedAt = finished, ru_Rev = fst git, ru_Dirty = snd git,
         ru_Versions = [(''go'', goVersion)], ru_Host = \<lparr>ho_CPU = cpu, ho_DriverCPUSet = ''''\<rparr>, ru_Clock = [], ru_Seed = 0,
         ru_Fixtures = fold (\<lambda>c m. AList.update (wl_fixture (cr_wl c)) (cr_reqBytes c, 0, 0) m) cells [],
         ru_Cells = map (record_cell H cfg transport codec) cells\<rparr>)"

text \<open>The exit status of the process: a run without one successful sample is a failure.\<close>

definition bench_exit :: "'h cell_run list \<Rightarrow> int" where
  "bench_exit cells = (if (\<Sum>c\<leftarrow>cells. sm_Count (br_Summary (cr_res c))) = 0 then 1 else 0)"

section \<open>Sizes read back\<close>

lemma TrimSpace_id:
  assumes "\<forall>c \<in> set s. \<not> is_space c"
  shows "TrimSpace s = s"
proof -
  have keep: "dropWhile is_space xs = xs" if "set xs \<subseteq> set s" for xs using that assms by (cases xs) auto
  show ?thesis using keep [of s] keep [of "rev s"] by (simp add: TrimSpace_def TrimLeft_def TrimRight_def)
qed

lemma drop_rev_take: "drop (length s - k) s = rev (take k (rev s))"
  by (simp add: take_rev)

lemma lower_digit: "is_digit c \<Longrightarrow> lower c = c"
  by (auto simp: lower_def is_digit_def)

lemma no_long_suffix:
  assumes "list_all is_digit ds" and "ds \<noteq> []"
  shows "\<not> hasSuffixFold (ds @ ''B'') [a, CHR ''i'', CHR ''B'']"
proof -
  obtain d es where ds: "rev ds = d # es" using assms(2) by (cases "rev ds") auto
  then have "d \<in> set ds" by (metis list.set_intros(1) set_rev)
  then have "is_digit d" using assms(1) by (simp add: list_all_iff)
  then have "lower d \<noteq> lower CHR ''i''" by (auto simp: lower_digit lower_def is_digit_def)
  moreover have "drop (length (ds @ ''B'') - 3) (ds @ ''B'') = rev (take 3 (CHR ''B'' # d # es))"
    using ds unfolding drop_rev_take by simp
  ultimately show ?thesis by (cases es) (auto simp: hasSuffixFold_def EqualFold_def numeral_3_eq_3)
qed

lemma suffix_fold_units:
  "hasSuffixFold (ds @ ''MiB'') ''MiB''" "hasSuffixFold (ds @ ''KiB'') ''KiB''" "hasSuffixFold (ds @ ''B'') ''B''"
  "\<not> hasSuffixFold (ds @ ''KiB'') ''MiB''"
  by (simp_all add: hasSuffixFold_def EqualFold_def lower_def)

lemma humanSize_cases:
  assumes "0 \<le> n" and "n < 2 ^ 63"
  obtains m mult suffix where "humanSize n = itoa m @ suffix" "(mult, suffix) \<in> {(1048576, ''MiB''), (1024, ''KiB''), (1, ''B'')}"
    "n = m * mult" "0 \<le> m" "m \<le> n"
proof -
  have nn: "0 \<le> n" using assms by simp
  have q: "n sdiv k = n div k" "n smod k = n mod k" if "0 < k" for k :: int
    using that nn by (cases "n = 0"; simp add: signed_divide_int_def signed_modulo_int_def)+
  consider (M) "n \<noteq> 0" "n mod 1048576 = 0" | (K) "n \<noteq> 0" "n mod 1024 = 0" "n mod 1048576 \<noteq> 0"
    | (B) "n = 0 \<or> n mod 1024 \<noteq> 0" by blast
  then show ?thesis
  proof cases
    case M
    then have h: "humanSize n = itoa (n div 1048576) @ ''MiB''" by (simp add: humanSize_def q)
    have e: "n = n div 1048576 * 1048576" using M(2) by (metis add.right_neutral div_mult_mod_eq)
    show ?thesis by (rule that [OF h _ e]) (use nn in \<open>auto simp: div_le_dividend\<close>)
  next
    case K
    then have h: "humanSize n = itoa (n div 1024) @ ''KiB''" by (simp add: humanSize_def q)
    have e: "n = n div 1024 * 1024" using K(2) by (metis add.right_neutral div_mult_mod_eq)
    show ?thesis by (rule that [OF h _ e]) (use nn in auto)
  next
    case B
    moreover have "n mod 1048576 mod 1024 = n mod 1024" by (rule mod_mod_cancel) simp
    ultimately have "\<not> (n \<noteq> 0 \<and> n mod 1048576 = 0)" by auto
    with B have h: "humanSize n = itoa n @ ''B''" by (auto simp: humanSize_def q)
    show ?thesis by (rule that [OF h, of 1]) (use nn in auto)
  qed
qed

lemma itoa_digits: "0 \<le> m \<Longrightarrow> list_all is_digit (itoa m)" "0 \<le> m \<Longrightarrow> itoa m \<noteq> []"
  by (simp_all add: itoa_def nat_to_dec_digits)

lemma parseSize_humanSize:
  assumes "0 \<le> n" and "n < 2 ^ 63"
  shows "parseSize (humanSize n) = Inr n"
proof -
  obtain m mult suffix where h: "humanSize n = itoa m @ suffix" "(mult, suffix) \<in> {(1048576, ''MiB''), (1024, ''KiB''), (1, ''B'')}"
    "n = m * mult" "0 \<le> m" "m \<le> n" using humanSize_cases [OF assms] by blast
  note ds = itoa_digits [OF h(4)]
  have plain: "\<forall>c \<in> set (itoa m). \<not> is_space c" using ds(1) digit_not_space by (auto simp: list_all_iff)
  have sfx: "\<forall>c \<in> set suffix. \<not> is_space c" using h(2) by (auto simp: is_space_def)
  have t: "TrimSpace (itoa m @ suffix) = itoa m @ suffix" "TrimSpace (itoa m) = itoa m"
    using plain sfx by (auto intro!: TrimSpace_id)
  have "wrap64 (m * mult) = n" using assms h(3) by (simp add: wrap64_exact)
  moreover have "ParseInt64 (itoa m) = Some m" using assms h(4,5) by (intro ParseInt64_itoa) auto
  moreover have "(if hasSuffixFold (itoa m @ suffix) ''MiB'' then (1024 * 1024, take (length (itoa m @ suffix) - 3) (itoa m @ suffix))
      else if hasSuffixFold (itoa m @ suffix) ''KiB'' then (1024, take (length (itoa m @ suffix) - 3) (itoa m @ suffix))
      else if hasSuffixFold (itoa m @ suffix) ''B'' then (1, take (length (itoa m @ suffix) - 1) (itoa m @ suffix))
      else (1, itoa m @ suffix)) = (mult, itoa m)"
    using h(2) no_long_suffix [OF ds] suffix_fold_units [of "itoa m"] by force
  ultimately show ?thesis using h(1,4) t by (simp add: parseSize_def Let_def)
qed

lemma humanSize_chars:
  assumes "0 \<le> n" and "n < 2 ^ 63"
  shows "\<forall>c \<in> set (humanSize n). \<not> is_space c \<and> c \<noteq> CHR '',''" and "humanSize n \<noteq> []" and "is_digit (hd (humanSize n))"
proof -
  obtain m mult suffix where h: "humanSize n = itoa m @ suffix" "(mult, suffix) \<in> {(1048576, ''MiB''), (1024, ''KiB''), (1, ''B'')}" "0 \<le> m"
    using humanSize_cases [OF assms] by blast
  have "\<forall>c \<in> set (itoa m). \<not> is_space c \<and> c \<noteq> CHR '',''"
    using itoa_digits(1) [OF h(3)] digit_not_space by (auto simp: list_all_iff is_digit_def)
  moreover have "\<forall>c \<in> set suffix. \<not> is_space c \<and> c \<noteq> CHR '',''" using h(2) by (auto simp: is_space_def)
  ultimately show "\<forall>c \<in> set (humanSize n). \<not> is_space c \<and> c \<noteq> CHR '',''" unfolding h(1) by auto
  show "humanSize n \<noteq> []" "is_digit (hd (humanSize n))"
    using itoa_digits [OF h(3)] unfolding h(1) by (cases "itoa m"; simp)+
qed

lemma parse_parts_humanSize:
  "\<forall>n \<in> set ns. 0 \<le> n \<and> n < 2 ^ 63 \<Longrightarrow> parse_parts (map humanSize ns) = Inr ns"
proof (induction ns)
  case (Cons n ns)
  then have n: "0 \<le> n" "n < 2 ^ 63" by simp_all
  have "TrimSpace (humanSize n) = humanSize n" using humanSize_chars(1) [OF n] by (intro TrimSpace_id) blast
  with Cons humanSize_chars(2) [OF n] parseSize_humanSize [OF n] show ?case by simp
qed simp

lemma parseSizes_humanSize:
  assumes "ns \<noteq> []" and "\<forall>n \<in> set ns. 0 \<le> n \<and> n < 2 ^ 63"
  shows "parseSizes (Join '','' (map humanSize ns)) = Inr ns" and "TrimSpace (Join '','' (map humanSize ns)) \<noteq> ''''"
proof -
  let ?csv = "Join '','' (map humanSize ns)"
  obtain n rest where ns: "ns = n # rest" using assms(1) by (cases ns) auto
  have n: "0 \<le> n" "n < 2 ^ 63" using assms(2) ns by auto
  note hn = humanSize_chars [OF n]
  have start: "\<exists>more. ?csv = humanSize n @ more" unfolding ns by (cases rest) auto
  then have hd: "?csv \<noteq> []" "is_digit (hd ?csv)" using hn(2,3) by (auto simp: hd_append)
  have comma: "\<not> is_space CHR '',''" by (simp add: is_space_def)
  have plain: "\<forall>c \<in> set (humanSize k). \<not> is_space c" if "k \<in> set ns" for k using humanSize_chars(1) assms(2) that by blast
  have "\<not> is_space c" if "c \<in> set ?csv" for c
  proof -
    have "c = CHR '','' \<or> (\<exists>k \<in> set ns. c \<in> set (humanSize k))"
      using set_Join [of "'',''" "map humanSize ns"] that by auto
    then show ?thesis using comma plain by blast
  qed
  then have t: "TrimSpace ?csv = ?csv" by (intro TrimSpace_id) blast
  then show "TrimSpace ?csv \<noteq> ''''" using hd(1) by simp
  have "\<not> EqualFold ?csv ''default''"
  proof
    assume e: "EqualFold ?csv ''default''"
    then have "lower (hd ?csv) = CHR ''d''" using hd(1) by (cases ?csv) (auto simp: EqualFold_def lower_def)
    with hd(2) show False by (auto simp: lower_digit is_digit_def)
  qed
  moreover have "Split CHR '','' ?csv = map humanSize ns"
    using assms humanSize_chars(1) by (intro Split_Join) auto
  ultimately show "parseSizes ?csv = Inr ns"
    using parse_parts_humanSize [OF assms(2)] t assms(1) by (simp add: parseSizes_def)
qed

section \<open>The record of a sweep\<close>

lemma those_map:
  "those (map f xs) = Some ys \<Longrightarrow> length ys = length xs \<and> (\<forall>i < length xs. f (xs ! i) = Some (ys ! i))"
proof (induction xs arbitrary: ys)
  case (Cons x xs)
  then obtain y zs where "f x = Some y" "those (map f xs) = Some zs" "ys = y # zs"
    by (auto split: option.splits)
  with Cons.IH show ?case by (auto simp: less_Suc_eq_0_disj)
qed simp

lemma run_workload_wl:
  "run_workload H protoSize sizeof inst transport codec cfg ce wl = Some c \<Longrightarrow> cr_wl c = wl"
  by (auto simp: run_workload_def Let_def split: sum.splits)

lemma runWorkloads_wls:
  assumes "runWorkloads H protoSize sizeof inst transport codec cfg ces wls = Some cells"
  shows "map cr_wl cells = wls"
proof (rule nth_equalityI)
  note T = those_map [OF assms [unfolded runWorkloads_def]]
  then show "length (map cr_wl cells) = length wls" by simp
  fix i assume "i < length (map cr_wl cells)"
  with T have i: "i < length wls" "i < length cells" by simp_all
  with T have "run_workload H protoSize sizeof inst transport codec cfg (ces i) (wls ! i) = Some (cells ! i)"
    by (auto simp: nth_enumerate_eq)
  then have "cr_wl (cells ! i) = wls ! i" by (rule run_workload_wl)
  with i show "map cr_wl cells ! i = wls ! i" by simp
qed

lemma firsts_distinct: "distinct xs \<Longrightarrow> firsts xs = xs"
  by (induction xs) (auto intro!: filter_True)

lemma cells_of_distinct:
  assumes "distinct (map rc_ID cells)" and "c \<in> set cells"
  shows "cells_of cells (rc_ID c) = [c]"
  using assms
proof (induction cells)
  case (Cons d ds)
  have "filter (\<lambda>x. rc_ID x = k) ds = []" if "k \<notin> rc_ID ` set ds" for k using that by (auto simp: filter_empty_conv)
  with Cons show ?case by (auto simp: cells_of_def)
qed simp

lemma humanSize_inject:
  assumes "0 \<le> m" "m < 2 ^ 63" "0 \<le> n" "n < 2 ^ 63"
  shows "humanSize m = humanSize n \<longleftrightarrow> m = n"
  using parseSize_humanSize [OF assms(1,2)] parseSize_humanSize [OF assms(3,4)] by (metis sum.inject(2))

section \<open>Properties\<close>

text \<open>The sweep asked for is the sweep run.  Sizes printed in the form of the labels and joined by commas are read
  back exactly; the sweep has one workload per size, in order, labelled with it; and every request of a
  workload is a new echo request with the given UUID, the run's idempotency key and a packed message with a
  blob of exactly that many bytes.\<close>

theorem sweep_workloads:
  assumes "ns \<noteq> []" and "\<forall>n \<in> set ns. 0 \<le> n \<and> n < 2 ^ 63" and "0 < timeout" and "\<forall>n \<in> set ns. any_new (AllTypes (blob (nat n))) = Inr (packed n)"
  shows "\<exists>wls. buildWorkloads any_new blob (Join '','' (map humanSize ns)) customerID region timeout idemKey = Some (Inr wls) \<and>
           map wl_blobBytes wls = ns \<and> map wl_fixture wls = map humanSize ns \<and>
           (\<forall>i < length ns. \<forall>uuid now. \<exists>req. wl_newReq (wls ! i) uuid now = Inr req \<and> rq_RequestId req = uuid \<and>
              rq_Service req = ''echo'' \<and> rq_Method req = ''Echo'' \<and> rq_IdempotencyKey req = idemKey \<and>
              rq_Timeout req = Some timeout \<and> rq_Payload req = Some (packed (ns ! i)))"
proof -
  let ?wl = "\<lambda>n. \<lparr>wl_service = ''echo'', wl_method = ''Echo'', wl_fixture = humanSize n, wl_blobBytes = n,
     wl_newReq = mkReq any_new ''echo'' ''Echo'' (AllTypes (blob (nat n))) timeout idemKey\<rparr>"
  have "\<not> (\<exists>n \<in> set ns. n < 0)" using assms(2) by force
  then have "buildWorkloads any_new blob (Join '','' (map humanSize ns)) customerID region timeout idemKey = Some (Inr (map ?wl ns))"
    using parseSizes_humanSize [OF assms(1,2)] by (simp add: buildWorkloads_def)
  moreover have "\<exists>req. wl_newReq (map ?wl ns ! i) uuid now = Inr req \<and> rq_RequestId req = uuid \<and>
      rq_Service req = ''echo'' \<and> rq_Method req = ''Echo'' \<and> rq_IdempotencyKey req = idemKey \<and>
      rq_Timeout req = Some timeout \<and> rq_Payload req = Some (packed (ns ! i))" if "i < length ns" for i uuid now
    using that assms(3,4) by (simp add: mkReq_def NewRequest_def Pack_def zero_request_def)
  ultimately show ?thesis by (intro exI [of _ "map ?wl ns"]) (auto simp: comp_def)
qed

text \<open>The record of a sweep keeps its cells apart.  For distinct sizes the cells of the run record have distinct
  ids, so the report aggregates every cell alone, in the order of the sizes; and a cell whose result accounts
  for its calls reports, as messages plus errors, exactly the number of those calls.\<close>

theorem sweep_record:
  assumes "distinct ns" and "\<forall>n \<in> set ns. 0 \<le> n \<and> n < 2 ^ 63" and "map wl_fixture wls = map humanSize ns"
    and "runWorkloads H protoSize sizeof inst transport codec cfg ces wls = Some cells"
    and "\<forall>c \<in> set cells. accounts (cr_res c) (calls c)"
    and "r = buildRun H cfg transport codec formatted git goVersion cpu cells"
  shows "distinct (map rc_ID (ru_Cells r)) \<and> map ag_ID (Aggregate (ru_Cells r)) = map (cell_id cfg transport codec) cells \<and>
         length (Aggregate (ru_Cells r)) = length ns \<and> (\<forall>a \<in> set (Aggregate (ru_Cells r)). ag_Repeats a = 1) \<and>
         (\<forall>c \<in> set cells. rs_Msgs (cellSummary H cfg transport codec c) + TotalErrors (cellSummary H cfg transport codec c) =
            int (length (calls c)))"
proof -
  have cells: "ru_Cells r = map (record_cell H cfg transport codec) cells"
    unfolding assms(6) by (cases formatted) (simp add: buildRun_def)
  have fix_cells: "map (\<lambda>c. wl_fixture (cr_wl c)) cells = map humanSize ns"
    unfolding assms(3) [symmetric] runWorkloads_wls [OF assms(4), symmetric] by simp
  have "inj_on humanSize (set ns)" using humanSize_inject assms(2) unfolding inj_on_def by blast
  then have "distinct (map humanSize ns)" using assms(1) by (simp add: distinct_map)
  then have fx: "distinct (map (\<lambda>c. wl_fixture (cr_wl c)) cells)" unfolding fix_cells .
  then have ids: "distinct (map (cell_id cfg transport codec) cells)"
    by (auto simp: distinct_map inj_on_def cell_id_def)
  have rid: "map rc_ID (ru_Cells r) = map (cell_id cfg transport codec) cells"
    by (simp add: cells record_cell_def comp_def)
  have agg: "Aggregate (ru_Cells r) = map (\<lambda>c. reduce_group (rc_ID c) [c]) (ru_Cells r)"
  proof -
    have d: "distinct (map rc_ID (ru_Cells r))" unfolding rid by (rule ids)
    show ?thesis unfolding Aggregate_eq firsts_distinct [OF d] map_map comp_def using cells_of_distinct [OF d] by simp
  qed
  have len: "length cells = length ns" using fix_cells by (metis length_map)
  have "rs_Msgs (cellSummary H cfg transport codec c) + TotalErrors (cellSummary H cfg transport codec c) = int (length (calls c))"
    if "c \<in> set cells" for c
  proof -
    have acc: "accounts (cr_res c) (calls c)" using assms(5) that by blast
    have "rs_Msgs (cellSummary H cfg transport codec c) = sm_Count (br_Summary (cr_res c))"
      "TotalErrors (cellSummary H cfg transport codec c) = sum_list (map snd (errKinds (br_hdr (cr_res c))))"
      by (simp_all add: cellSummary_def Let_def TotalErrors_def ErrorKinds_def)
    with acc show ?thesis by (simp add: accounts_def)
  qed
  moreover have "map ag_ID (Aggregate (ru_Cells r)) = map (cell_id cfg transport codec) cells"
    using rid unfolding agg by (simp add: comp_def reduce_group_def Let_def)
  moreover have "\<forall>a \<in> set (Aggregate (ru_Cells r)). ag_Repeats a = 1" unfolding agg by (auto simp: reduce_group_def Let_def)
  moreover have "distinct (map rc_ID (ru_Cells r))" unfolding rid by (rule ids)
  moreover have "length (Aggregate (ru_Cells r)) = length ns" unfolding agg using len cells by simp
  ultimately show ?thesis by blast
qed

text \<open>Two echo cells of one and of 1024 bytes, run with one answered request each.\<close>

definition demo_pack :: "bytes service_msg \<Rightarrow> gerr + any_pb" where
  "demo_pack msg = Inr \<lparr>TypeUrl = ''t'', AnyValue = (case msg of AllTypes b \<Rightarrow> b | _ \<Rightarrow> [])\<rparr>"

definition demo_blob :: "nat \<Rightarrow> bytes" where
  "demo_blob n = replicate n 0"

theorem sweep_workloads_witness:
  "\<exists>wls. buildWorkloads demo_pack demo_blob ''1B,1KiB'' '''' '''' 5 ''key'' = Some (Inr wls) \<and> map wl_blobBytes wls = [1, 1024]"
proof -
  have csv: "Join '','' (map humanSize [1, 1024]) = ''1B,1KiB''"
    by code_simp
  have "\<exists>wls. buildWorkloads demo_pack demo_blob (Join '','' (map humanSize [1, 1024])) '''' '''' 5 ''key'' = Some (Inr wls) \<and>
      map wl_blobBytes wls = [1, 1024] \<and> map wl_fixture wls = map humanSize [1, 1024] \<and>
      (\<forall>i < length [1 :: int, 1024]. \<forall>uuid now. \<exists>req. wl_newReq (wls ! i) uuid now = Inr req \<and> rq_RequestId req = uuid \<and>
         rq_Service req = ''echo'' \<and> rq_Method req = ''Echo'' \<and> rq_IdempotencyKey req = ''key'' \<and>
         rq_Timeout req = Some 5 \<and> rq_Payload req = Some ((\<lambda>n. \<lparr>TypeUrl = ''t'', AnyValue = demo_blob (nat n)\<rparr>) ([1, 1024] ! i)))"
    by (rule sweep_workloads) (simp_all add: demo_pack_def)
  then show ?thesis unfolding csv by (elim exE conjE) (intro exI conjI)
qed

definition demo_mem :: bench_mem where
  "demo_mem = \<lparr>bm_Mallocs = 0, bm_TotalAlloc = 0, bm_NumGC = 0, bm_PauseTotalNs = 0\<rparr>"

definition demo_env :: "int cell_env" where
  "demo_env = \<lparr>ce_uuid = ''u'', ce_now = 0, ce_fin = bench_init count_hist demo_bench, ce_open = demo_open, ce_elapsed = 5, ce_rc = None,
     ce_m0 = demo_mem, ce_m1 = demo_mem\<rparr>"

definition demo_workload :: "int \<Rightarrow> workload" where
  "demo_workload n = \<lparr>wl_service = ''echo'', wl_method = ''Echo'', wl_fixture = humanSize n, wl_blobBytes = n,
     wl_newReq = mkReq demo_pack ''echo'' ''Echo'' (AllTypes (demo_blob (nat n))) 5 ''''\<rparr>"

theorem sweep_record_witness:
  "\<exists>cells. runWorkloads count_hist (\<lambda>r. 9) (\<lambda>r. 9) False ''nats'' ''proto'' demo_bench (\<lambda>i. demo_env) (map demo_workload [1, 1024]) = Some cells \<and>
     length (Aggregate (ru_Cells (buildRun count_hist demo_bench ''nats'' ''proto'' ('''', '''', '''') ('''', False) '''' '''' cells))) = 2"
proof -
  let ?res = "bench_result_of count_hist 5 None (new_tally count_hist)"
  let ?cell = "\<lambda>n. \<lparr>cr_wl = demo_workload n, cr_res = ?res, cr_reqBytes = 9, cr_mem = mem_delta demo_mem demo_mem\<rparr>"
  have run: "runWorkloads count_hist (\<lambda>r. 9) (\<lambda>r. 9) False ''nats'' ''proto'' demo_bench (\<lambda>i. demo_env) (map demo_workload [1, 1024]) =
      Some [?cell 1, ?cell 1024]"
    by (simp add: runWorkloads_def run_workload_def demo_workload_def demo_env_def mkReq_def NewRequest_def Pack_def demo_pack_def
        runBench_def demo_bench_def bench_init_def)
  have acc: "\<forall>c \<in> set [?cell 1, ?cell 1024]. accounts (cr_res c) []"
    using tally_accounts [OF tally_inv_new [OF count_hist_ok]] by simp
  have "length (Aggregate (ru_Cells (buildRun count_hist demo_bench ''nats'' ''proto'' ('''', '''', '''') ('''', False) '''' '''' [?cell 1, ?cell 1024]))) =
      length [1 :: int, 1024]"
    by (intro sweep_record [OF _ _ _ run acc refl, of "[1, 1024]", THEN conjunct2, THEN conjunct2, THEN conjunct1])
       (simp_all add: demo_workload_def)
  with run show ?thesis by auto
qed

text \<open>A size that does not fit: a count of kibibytes that is itself a valid number wraps to a negative length,
  and building the workloads panics instead of reporting a bad size.\<close>

theorem size_overflow:
  "parseSize ''9007199254740992KiB'' = Inr (- (2 ^ 63)) \<and>
   buildWorkloads any_new blob ''9007199254740992KiB'' customerID region timeout idemKey = None"
proof -
  have t: "TrimSpace ''9007199254740992KiB'' = ''9007199254740992KiB''" "TrimSpace ''9007199254740992'' = ''9007199254740992''"
    by code_simp+
  have unit: "\<not> hasSuffixFold ''9007199254740992KiB'' ''MiB''" "hasSuffixFold ''9007199254740992KiB'' ''KiB''" by code_simp+
  have "ParseInt64 ''9007199254740992'' = Some 9007199254740992"
    by (simp add: ParseInt64_def parse_digits_def is_digit_def dec_val_def digit_val_def)
  then have p: "parseSize ''9007199254740992KiB'' = Inr (- (2 ^ 63))" using t unit by (simp add: parseSize_def wrap64_def)
  have s: "Split CHR '','' ''9007199254740992KiB'' = [''9007199254740992KiB'']" by code_simp
  have "parseSizes ''9007199254740992KiB'' = Inr [- (2 ^ 63)]"
    using p t by (simp add: parseSizes_def s EqualFold_def)
  with p t show ?thesis by (simp add: buildWorkloads_def)
qed

end
