(* ===== verification/Benchmain.thy ===== *)
theory Benchmain
  imports Sweep Rpcclient Soakcli
begin

text \<open>
  The command of the RPC load driver (\<open>clients/rpc-benchmark/main.go\<close>): its flags, the choice of the transport
  and of the label it is reported under, the text and the JSON report of a cell, and \<open>main\<close> from the flags to
  the exit status.

  The load itself is theory \<open>Rpcbench\<close>, the sweep and the run record theory \<open>Sweep\<close>; what a cell meets is
  the argument \<open>ces\<close>, as there.
\<close>

section \<open>Flags and transports\<close>

record rpcbench_flags =
  rb_addr :: string
  rb_transport :: string
  rb_user :: string
  rb_pass :: string
  rb_mqttQoS :: int
  rb_valkeyPass :: string
  rb_codec :: string
  rb_config :: bench_config
  rb_customerID :: string
  rb_region :: string
  rb_sizes :: string
  rb_metricsAddr :: string
  rb_metricsLinger :: duration
  rb_out :: string
  rb_retries :: int
  rb_retryBackoff :: duration
  rb_idemKey :: string
  rb_asJSON :: bool
  rb_trace :: string

definition rpcbench_defaults :: "string \<Rightarrow> string \<Rightarrow> rpcbench_flags" where
  "rpcbench_defaults rabbitPass valkeyPass =
     \<lparr>rb_addr = ''localhost:9430'', rb_transport = ''grpc'', rb_user = ''admin'', rb_pass = rabbitPass, rb_mqttQoS = 1, rb_valkeyPass = valkeyPass,
      rb_codec = ''proto'',
      rb_config = \<lparr>b_mode = ''closed'', b_requests = 10000, b_concurrency = 32, b_rate = 0, b_duration = 10 * Second, b_timeout = 5 * Second\<rparr>,
      rb_customerID = ''11111111-1111-1111-1111-111111111111'', rb_region = ''us-west-2'', rb_sizes = '''', rb_metricsAddr = '''', rb_metricsLinger = 0,
      rb_out = '''', rb_retries = 0, rb_retryBackoff = 0, rb_idemKey = '''', rb_asJSON = False, rb_trace = ''off''\<rparr>"

text \<open>The dialer and the label of the transport; \<open>Inl\<close> is the fatal line.\<close>

definition bench_dial :: "rpcbench_flags \<Rightarrow> string + string \<times> dial_target" where
  "bench_dial f =
     (let t = rb_transport f; url = rabbit_URL (rb_addr f) (rb_user f) (rb_pass f) in
      if t = ''grpc'' then Inr (t, GrpcDial (rb_addr f))
      else if t = ''nats'' then Inr (t, NatsDial (rb_addr f))
      else if t = ''natsjs'' then Inr (t, JetStreamDial (rb_addr f))
      else if t = ''rabbitmq'' then Inr (t, RabbitDial url ModeReplyQueue)
      else if t = ''rabbitmq-direct'' then Inr (t, RabbitDial url ModeDirect)
      else if t = ''mqtt'' then
        (if rb_mqttQoS f < 0 \<or> rb_mqttQoS f > 2
         then Inl (''rpc-benchmark: -mqtt-qos must be 0, 1, or 2, got '' @ itoa (rb_mqttQoS f))
         else Inr (''mqtt-qos'' @ itoa (rb_mqttQoS f), MqttDial (rb_addr f) (word_of_int (rb_mqttQoS f))))
      else if t = ''valkey'' then Inr (t, ValkeyDial (rb_addr f) (rb_valkeyPass f))
      else if t = ''valkey-stream'' then Inr (t, ValkeyStreamDial (rb_addr f) (rb_valkeyPass f))
      else Inl (''rpc-benchmark: unknown -transport '' @ quoted t @
                '' (grpc|nats|natsjs|rabbitmq|rabbitmq-direct|mqtt|valkey|valkey-stream)''))"

text \<open>The decorators around the dialled client, from the inside out.\<close>

datatype client_layer = TracingLayer | RetryLayer int duration

definition client_layers :: "rpcbench_flags \<Rightarrow> client_layer list" where
  "client_layers f = TracingLayer # (if rb_retries f > 0 then [RetryLayer (rb_retries f + 1) (rb_retryBackoff f)] else [])"

text \<open>The instruments of the \<open>rpc_*\<close> metrics, registered in this order up to the first error, and the buckets of the
  histograms of bytes.\<close>

definition rpc_instruments :: "string list" where
  "rpc_instruments =
     [''rpc_requests_total'', ''rpc_responses_total'', ''rpc_errors_total'', ''rpc_timeouts_total'', ''rpc_idempotent_replays_total'',
      ''rpc_request_duration_seconds'', ''rpc_request_bytes'', ''rpc_response_bytes'']"

definition rpcmetrics_New :: "(string \<Rightarrow> gerr option) \<Rightarrow> gerr option" where
  "rpcmetrics_New register = (case find (\<lambda>i. register i \<noteq> None) rpc_instruments of Some i \<Rightarrow> register i | None \<Rightarrow> None)"

definition byte_boundaries :: "rat list" where
  "byte_boundaries = [100, 1024, 4096, 10240, 40960, 102400, 409600, 1024 * 1024, 4 * 1024 * 1024]"

section \<open>Reports\<close>

text \<open>\<open>Duration.Round\<close>: halves go away from zero, and a result out of range is the largest or smallest duration.\<close>

definition Duration_Round :: "duration \<Rightarrow> duration \<Rightarrow> duration" where
  "Duration_Round m d =
     (if m \<le> 0 then d
      else (let r = \<bar>d\<bar> mod m; up = \<bar>d\<bar> + m - r in
            if r + r < m then sgn d * (\<bar>d\<bar> - r)
            else if d < 0 then (if up \<le> 2 ^ 63 then - up else - (2 ^ 63))
            else (if up < 2 ^ 63 then up else 2 ^ 63 - 1)))"

definition report_d :: "duration \<Rightarrow> string" where
  "report_d v = Duration_String (Duration_Round 1000 v)"

definition report_ms :: "duration \<Rightarrow> rat" where
  "report_ms v = fdiv (of_i64 (Microseconds v)) 1000"

definition printReport :: "'h hist_lib \<Rightarrow> string \<Rightarrow> string \<Rightarrow> bench_config \<Rightarrow> 'h cell_run \<Rightarrow> string list" where
  "printReport H label codec cfg c =
     (let res = cr_res c; s = br_Summary res in
      [''rpc-benchmark  transport='' @ label @ ''  codec='' @ codec @ ''  fixture='' @ wl_fixture (cr_wl c) @ ''  mode='' @ b_mode cfg @
       ''  elapsed='' @ Duration_String (Duration_Round Millisecond (br_Elapsed res))] @
      (if wl_blobBytes (cr_wl c) > 0
       then [''  payload='' @ wl_fixture (cr_wl c) @ '' ('' @ itoa (wl_blobBytes (cr_wl c)) @ '' B blob)  request-wire='' @ itoa (cr_reqBytes c) @ '' B'']
       else []) @
      (if b_mode cfg = ''closed''
       then [''  budget='' @ itoa (b_requests cfg) @ '' concurrency='' @ itoa (b_concurrency cfg)]
       else [''  offered-rate='' @ FormatFixed (b_rate cfg) 0 @ ''/s duration='' @ Duration_String (b_duration cfg)]) @
      [''  ok='' @ itoa (sm_Count s) @ '' errors='' @ itoa (sm_Errors s) @ '' (timeouts='' @ itoa (br_Timeouts res) @ '' non-ok='' @ itoa (br_NonOK res) @
       '') of '' @ itoa (sm_Count s + sm_Errors s) @ ''  throughput='' @ FormatFixed (ThroughputPerSec s) 0 @ '' ok/s''] @
      (if br_Retries res > 0 \<or> br_Replays res > 0
       then [''  retries='' @ itoa (br_Retries res) @ '' idempotent-replays='' @ itoa (br_Replays res) @ '' ('' @ map char_of [194, 167 :: nat] @ ''29)'']
       else []) @
      [''  latency  min='' @ report_d (sm_Min s) @ '' p50='' @ report_d (P50 s) @ '' p90='' @ report_d (P90 s) @ '' p95='' @ report_d (ValueAt H 95 (br_hdr res)) @
       '' p99='' @ report_d (P99 s) @ '' p99.9='' @ report_d (P999 s) @ '' max='' @ report_d (sm_Max s) @ '' mean='' @ report_d (sm_Mean s)] @
      (if br_CorrectedOK res then [''  co-corrected p99='' @ report_d (br_CorrectedP99 res)] else []))"

record benchJSON =
  bj_Transport :: string
  bj_Codec :: string
  bj_Fixture :: string
  bj_PayloadBytes :: int
  bj_RequestBytes :: int
  bj_Mode :: string
  bj_ElapsedMS :: rat
  bj_OK :: int
  bj_Errors :: int
  bj_Timeouts :: int
  bj_NonOK :: int
  bj_Retries :: int
  bj_Replays :: int
  bj_ThroughputPS :: rat
  bj_P50MS :: rat
  bj_P90MS :: rat
  bj_P95MS :: rat
  bj_P99MS :: rat
  bj_P999MS :: rat
  bj_MaxMS :: rat
  bj_CorrP99MS :: rat

definition bench_json :: "'h hist_lib \<Rightarrow> string \<Rightarrow> string \<Rightarrow> bench_config \<Rightarrow> 'h cell_run \<Rightarrow> benchJSON" where
  "bench_json H label codec cfg c =
     (let res = cr_res c; s = br_Summary res in
      \<lparr>bj_Transport = label, bj_Codec = codec, bj_Fixture = wl_fixture (cr_wl c), bj_PayloadBytes = wl_blobBytes (cr_wl c),
       bj_RequestBytes = cr_reqBytes c, bj_Mode = b_mode cfg, bj_ElapsedMS = report_ms (br_Elapsed res), bj_OK = sm_Count s, bj_Errors = sm_Errors s,
       bj_Timeouts = br_Timeouts res, bj_NonOK = br_NonOK res, bj_Retries = br_Retries res, bj_Replays = br_Replays res,
       bj_ThroughputPS = ThroughputPerSec s, bj_P50MS = report_ms (P50 s), bj_P90MS = report_ms (P90 s),
       bj_P95MS = report_ms (ValueAt H 95 (br_hdr res)), bj_P99MS = report_ms (P99 s), bj_P999MS = report_ms (P999 s), bj_MaxMS = report_ms (sm_Max s),
       bj_CorrP99MS = (if br_CorrectedOK res then report_ms (br_CorrectedP99 res) else 0)\<rparr>)"

section \<open>The command\<close>

text \<open>What the process meets: the dialer, the metrics exporter and the registration of the instruments, the
  marshaller of a JSON line, the run record's stamps and the outcome of saving it.\<close>

record ('a, 'h) bench_os =
  bo_any :: "'a service_msg \<Rightarrow> gerr + any_pb"
  bo_blob :: "nat \<Rightarrow> 'a"
  bo_dial :: "dial_target \<Rightarrow> gerr option"
  bo_exporter :: "gerr option"
  bo_instruments :: "string \<Rightarrow> gerr option"
  bo_hist :: "'h hist_lib"
  bo_protoSize :: "rpc_request \<Rightarrow> int"
  bo_sizeof :: "rpc_response \<Rightarrow> int"
  bo_json :: "benchJSON \<Rightarrow> string"
  bo_stamps :: "string \<times> string \<times> string"
  bo_git :: "string \<times> bool"
  bo_goVersion :: string
  bo_cpu :: string
  bo_save :: "string \<Rightarrow> run \<Rightarrow> gerr option"

datatype bench_end = BenchFatal string | BenchPanic | BenchExit int

record bench_process =
  bp_end :: bench_end
  bp_out :: "string list"
  bp_log :: "string list"
  bp_saved :: "(string \<times> run) option"

definition bench_abort :: "bench_end \<Rightarrow> string list \<Rightarrow> bench_process" where
  "bench_abort e lines = \<lparr>bp_end = e, bp_out = [], bp_log = lines, bp_saved = None\<rparr>"

text \<open>What \<open>main\<close> does with the cells of a finished run.\<close>

definition bench_finish ::
  "('a, 'h) bench_os \<Rightarrow> rpcbench_flags \<Rightarrow> string \<Rightarrow> string list \<Rightarrow> 'h cell_run list \<Rightarrow> bench_process" where
  "bench_finish os f label lines cells =
     (let cfg = rb_config f;
          out = concat (map (\<lambda>c. if rb_asJSON f then [bo_json os (bench_json (bo_hist os) label (rb_codec f) cfg c)]
                                   else printReport (bo_hist os) label (rb_codec f) cfg c) cells);
          record = buildRun (bo_hist os) cfg label (rb_codec f) (bo_stamps os) (bo_git os) (bo_goVersion os) (bo_cpu os) cells;
          linger = (if rb_metricsAddr f \<noteq> '''' \<and> rb_metricsLinger f > 0
                    then [''rpc-benchmark: holding metrics open for '' @ Duration_String (rb_metricsLinger f)] else [])
      in if rb_out f = '''' then
           \<lparr>bp_end = BenchExit (bench_exit cells), bp_out = out, bp_log = lines @ linger, bp_saved = None\<rparr>
         else
           (case bo_save os (rb_out f) record of
              Some e \<Rightarrow>
                \<lparr>bp_end = BenchFatal (''rpc-benchmark: write run.json '' @ rb_out f @ '': '' @ Error e), bp_out = out, bp_log = lines, bp_saved = None\<rparr>
            | None \<Rightarrow>
                \<lparr>bp_end = BenchExit (bench_exit cells), bp_out = out,
                 bp_log = lines @ [''rpc-benchmark: wrote run.json to '' @ rb_out f @ '' ('' @ nat_to_dec (length cells) @ '' cell(s))''] @ linger,
                 bp_saved = Some (rb_out f, record)\<rparr>))"

definition bench_main :: "('a, 'h) bench_os \<Rightarrow> otel_globals \<Rightarrow> (nat \<Rightarrow> 'h cell_env) \<Rightarrow> rpcbench_flags \<Rightarrow> bench_process" where
  "bench_main os g ces f =
     (let cfg = rb_config f in
      case fst (NewProvider ''rpc-benchmark'' (rb_trace f) g) of
        Inl e \<Rightarrow> bench_abort (BenchFatal (''rpc-benchmark: tracing: '' @ Error e)) []
      | Inr tp \<Rightarrow>
          (case bench_validate cfg of
             Some e \<Rightarrow> bench_abort (BenchFatal (''rpc-benchmark: '' @ Error e)) []
           | None \<Rightarrow>
               (case buildWorkloads (bo_any os) (bo_blob os) (rb_sizes f) (rb_customerID f) (rb_region f) (b_timeout cfg) (rb_idemKey f) of
                  None \<Rightarrow> bench_abort BenchPanic []
                | Some (Inl e) \<Rightarrow> bench_abort (BenchFatal (''rpc-benchmark: '' @ Error e)) []
                | Some (Inr wls) \<Rightarrow>
                    (case bench_dial f of
                       Inl msg \<Rightarrow> bench_abort (BenchFatal msg) []
                     | Inr (label, t) \<Rightarrow>
                         (case bo_dial os t of
                            Some e \<Rightarrow> bench_abort (BenchFatal (''rpc-benchmark: dial '' @ rb_addr f @ '' over '' @ label @ '': '' @ Error e)) []
                          | None \<Rightarrow>
                              (let inst = (rb_metricsAddr f \<noteq> '''');
                                   lines = (if inst then [''rpc-benchmark: serving rpc_* metrics on '' @ rb_metricsAddr f] else []);
                                   run = (case runWorkloads (bo_hist os) (bo_protoSize os) (bo_sizeof os) inst label (rb_codec f) cfg ces wls of
                                            None \<Rightarrow> bench_abort BenchPanic lines
                                          | Some cells \<Rightarrow> bench_finish os f label lines cells)
                               in if \<not> inst then run
                                  else (case metrics_NewProvider (bo_exporter os) (rb_metricsAddr f) [CallerView ''byte buckets''] of
                                          Inl e \<Rightarrow> bench_abort (BenchFatal (''rpc-benchmark: metrics: '' @ Error e)) []
                                        | Inr mp \<Rightarrow>
                                            (case rpcmetrics_New (bo_instruments os) of
                                               Some e \<Rightarrow> bench_abort (BenchFatal (''rpc-benchmark: metrics instruments: '' @ Error e)) []
                                             | None \<Rightarrow> run))))))))"

section \<open>The label says what was measured\<close>

text \<open>The transport and the dialer, read back from the label.\<close>

definition labelled :: "rpcbench_flags \<Rightarrow> string \<Rightarrow> string \<times> dial_target" where
  "labelled f label =
     (if label = ''mqtt-qos0'' then (''mqtt'', MqttDial (rb_addr f) 0)
      else if label = ''mqtt-qos1'' then (''mqtt'', MqttDial (rb_addr f) 1)
      else if label = ''mqtt-qos2'' then (''mqtt'', MqttDial (rb_addr f) 2)
      else if label = ''nats'' then (label, NatsDial (rb_addr f))
      else if label = ''natsjs'' then (label, JetStreamDial (rb_addr f))
      else if label = ''rabbitmq'' then (label, RabbitDial (rabbit_URL (rb_addr f) (rb_user f) (rb_pass f)) ModeReplyQueue)
      else if label = ''rabbitmq-direct'' then (label, RabbitDial (rabbit_URL (rb_addr f) (rb_user f) (rb_pass f)) ModeDirect)
      else if label = ''valkey'' then (label, ValkeyDial (rb_addr f) (rb_valkeyPass f))
      else if label = ''valkey-stream'' then (label, ValkeyStreamDial (rb_addr f) (rb_valkeyPass f))
      else (label, GrpcDial (rb_addr f)))"

lemma dial_labelled:
  assumes "bench_dial f = Inr (label, t)"
  shows "labelled f label = (rb_transport f, t)"
proof (cases "rb_transport f = ''mqtt''")
  case True
  with assms have q: "0 \<le> rb_mqttQoS f" "rb_mqttQoS f \<le> 2"
    and l: "label = ''mqtt-qos'' @ itoa (rb_mqttQoS f)" "t = MqttDial (rb_addr f) (word_of_int (rb_mqttQoS f))"
    by (auto simp: bench_dial_def Let_def split: if_splits)
  consider "rb_mqttQoS f = 0" | "rb_mqttQoS f = 1" | "rb_mqttQoS f = 2" using q by linarith
  moreover have "itoa 0 = ''0''" "itoa 1 = ''1''" "itoa 2 = ''2''" by code_simp+
  ultimately show ?thesis using True l by cases (simp_all add: labelled_def)
next
  case False
  with assms show ?thesis by (auto simp: bench_dial_def labelled_def Let_def split: if_splits)
qed

text \<open>Two runs with the same credentials and the same label used the same dialer with the same arguments: a label never
  stands for two qualities of service or two reply modes.\<close>

theorem label_faithful:
  assumes "bench_dial f = Inr (label, t)" and "bench_dial f' = Inr (label, t')"
    and "(rb_addr f, rb_user f, rb_pass f, rb_valkeyPass f) = (rb_addr f', rb_user f', rb_pass f', rb_valkeyPass f')"
  shows "t = t' \<and> rb_transport f = rb_transport f'"
proof -
  from assms(3) have "labelled f label = labelled f' label" by (simp add: labelled_def)
  with dial_labelled [OF assms(1)] dial_labelled [OF assms(2)] show ?thesis by simp
qed

text \<open>Rounding a duration: a multiple of the unit, no further than half a unit away, unless it leaves the range.\<close>

lemma Duration_Round_near:
  assumes "0 < m" and "\<bar>d\<bar> + m < 2 ^ 63"
  shows "m dvd Duration_Round m d \<and> 2 * \<bar>Duration_Round m d - d\<bar> \<le> m"
proof -
  let ?r = "\<bar>d\<bar> mod m"
  have r: "0 \<le> ?r" "?r < m" using assms(1) by simp_all
  have e: "\<bar>d\<bar> - ?r = m * (\<bar>d\<bar> div m)" "\<bar>d\<bar> + m - ?r = m * (\<bar>d\<bar> div m + 1)" using minus_mod_eq_mult_div [of "\<bar>d\<bar>" m] by (simp_all add: distrib_left)
  have dv: "m dvd \<bar>d\<bar> - ?r" "m dvd \<bar>d\<bar> + m - ?r" unfolding e by simp_all
  show ?thesis
  proof (cases "?r + ?r < m")
    case True
    then have v: "Duration_Round m d = sgn d * (\<bar>d\<bar> - ?r)" using assms(1) by (simp add: Duration_Round_def Let_def)
    have "\<bar>sgn d * (\<bar>d\<bar> - ?r) - d\<bar> \<le> ?r" using r(1) by (cases "d = 0"; cases "0 < d") auto
    with True dv(1) show ?thesis unfolding v by auto
  next
    case False
    have up: "\<bar>d\<bar> + m - ?r < 2 ^ 63" using assms(2) r(1) by linarith
    with False assms(1) have v: "Duration_Round m d = (if d < 0 then - (\<bar>d\<bar> + m - ?r) else \<bar>d\<bar> + m - ?r)"
      unfolding Duration_Round_def Let_def by auto
    have "\<bar>(if d < 0 then - (\<bar>d\<bar> + m - ?r) else \<bar>d\<bar> + m - ?r) - d\<bar> = m - ?r" using r(2) by auto
    moreover have "m dvd (if d < 0 then - (\<bar>d\<bar> + m - ?r) else \<bar>d\<bar> + m - ?r)" using dv(2) by (simp only: dvd_minus_iff if_split) simp
    ultimately show ?thesis using False unfolding v by auto
  qed
qed

section \<open>What a finished run leaves\<close>

text \<open>A run that is measured prints every workload once, in order, records one cell for each, and succeeds exactly if some
  call did; nothing is dialled before the configuration and the sizes are accepted.\<close>

lemma runWorkloads_length: "runWorkloads H ps so inst label cd cfg ces wls = Some cells \<Longrightarrow> map cr_wl cells = wls"
proof -
  have each: "run_workload H ps so inst label cd cfg ce wl = Some c \<Longrightarrow> cr_wl c = wl" for ce wl c
    by (auto simp: run_workload_def Let_def split: sum.splits)
  have "those (map (\<lambda>(i, wl). run_workload H ps so inst label cd cfg (ces i) wl) (enumerate n wls)) = Some cells \<Longrightarrow> map cr_wl cells = wls" for n
  proof (induction wls arbitrary: n cells)
    case (Cons wl wls)
    then show ?case by (auto split: option.splits dest: each)
  qed simp
  then show "runWorkloads H ps so inst label cd cfg ces wls = Some cells \<Longrightarrow> map cr_wl cells = wls" by (simp add: runWorkloads_def)
qed

theorem bench_main_complete:
  assumes "bp_end (bench_main os g ces f) = BenchExit e"
  shows "\<exists>wls cells label t.
           buildWorkloads (bo_any os) (bo_blob os) (rb_sizes f) (rb_customerID f) (rb_region f) (b_timeout (rb_config f)) (rb_idemKey f) = Some (Inr wls) \<and>
           bench_validate (rb_config f) = None \<and> bench_dial f = Inr (label, t) \<and> bo_dial os t = None \<and> map cr_wl cells = wls \<and>
           e = bench_exit cells \<and>
           bp_out (bench_main os g ces f) =
             concat (map (\<lambda>c. if rb_asJSON f then [bo_json os (bench_json (bo_hist os) label (rb_codec f) (rb_config f) c)]
                               else printReport (bo_hist os) label (rb_codec f) (rb_config f) c) cells) \<and>
           (case bp_saved (bench_main os g ces f) of
              None \<Rightarrow> rb_out f = ''''
            | Some (path, r) \<Rightarrow> path = rb_out f \<and> map rc_ID (ru_Cells r) = map (cell_id (rb_config f) label (rb_codec f)) cells)"
proof -
  have fin: "bench_main os g ces f = bench_finish os f label lines cells \<Longrightarrow> ?thesis"
    if "buildWorkloads (bo_any os) (bo_blob os) (rb_sizes f) (rb_customerID f) (rb_region f) (b_timeout (rb_config f)) (rb_idemKey f) = Some (Inr wls)"
      "bench_validate (rb_config f) = None" "bench_dial f = Inr (label, t)" "bo_dial os t = None" "map cr_wl cells = wls" for wls label t lines cells
    using that assms
    by (intro exI [of _ wls] exI [of _ cells] exI [of _ label] exI [of _ t])
       (auto simp: bench_finish_def buildRun_def record_cell_def Let_def split: if_splits option.splits prod.splits)
  obtain wls label t lines cells where
    "buildWorkloads (bo_any os) (bo_blob os) (rb_sizes f) (rb_customerID f) (rb_region f) (b_timeout (rb_config f)) (rb_idemKey f) = Some (Inr wls)"
    "bench_validate (rb_config f) = None" "bench_dial f = Inr (label, t)" "bo_dial os t = None"
    "runWorkloads (bo_hist os) (bo_protoSize os) (bo_sizeof os) (rb_metricsAddr f \<noteq> '''') label (rb_codec f) (rb_config f) ces wls = Some cells"
    "bench_main os g ces f = bench_finish os f label lines cells"
    using assms by (auto simp: bench_main_def bench_abort_def Let_def split: sum.splits option.splits if_splits prod.splits)
  with fin [OF _ _ _ _ runWorkloads_length] show ?thesis by blast
qed

end
