(* ===== verification/Schema.thy ===== *)
theory Schema
  imports Clocks Float64
begin

text \<open>
  The messages of the workload benchmark and the validation rules their schema declares
  (\<open>clients/proto/workloads/v1/*.proto\<close>): for every message the corpus builds, a record with its fields
  and a function that lists the rules a message violates, each as the path of the field and the id of the
  rule.  The rules are those written in the schema; the engine that evaluates them is a library.

  A field with presence is an option, a \<open>oneof\<close> a datatype, an enum its number.  The envelope's
  \<open>attempt\<close> field is never set by the program and is left out; a \<open>double\<close> is a rational, so the rules
  that ask for a finite value always hold.
\<close>

section \<open>Rules\<close>

type_synonym violation = "string \<times> string"

definition rule :: "string \<Rightarrow> string \<Rightarrow> bool \<Rightarrow> violation list" where
  "rule path rid ok = (if ok then [] else [(path, rid)])"

definition under :: "string \<Rightarrow> violation list \<Rightarrow> violation list" where
  "under p vs = map (\<lambda>(q, rid). (if q = '''' then p else p @ ''.'' @ q, rid)) vs"

definition optional_field :: "string \<Rightarrow> ('a \<Rightarrow> violation list) \<Rightarrow> 'a option \<Rightarrow> violation list" where
  "optional_field p f x = (case x of None \<Rightarrow> [] | Some m \<Rightarrow> under p (f m))"

definition required_field :: "string \<Rightarrow> ('a \<Rightarrow> violation list) \<Rightarrow> 'a option \<Rightarrow> violation list" where
  "required_field p f x = (case x of None \<Rightarrow> [(p, ''required'')] | Some m \<Rightarrow> under p (f m))"

definition repeated_field :: "string \<Rightarrow> ('a \<Rightarrow> violation list) \<Rightarrow> 'a list \<Rightarrow> violation list" where
  "repeated_field p f xs = concat (map (\<lambda>(i, x). under (p @ ''['' @ itoa (int i) @ '']'') (f x)) (enumerate 0 xs))"

text \<open>The character classes and the patterns of the schema.\<close>

definition in_range :: "nat \<Rightarrow> nat \<Rightarrow> char \<Rightarrow> bool" where
  "in_range a b c \<longleftrightarrow> a \<le> (of_char c :: nat) \<and> (of_char c :: nat) \<le> b"

definition is_lower :: "char \<Rightarrow> bool" where
  "is_lower c = in_range 97 122 c"

definition is_alpha :: "char \<Rightarrow> bool" where
  "is_alpha c \<longleftrightarrow> is_lower c \<or> in_range 65 90 c"

definition is_lower_num :: "char \<Rightarrow> bool" where
  "is_lower_num c \<longleftrightarrow> is_lower c \<or> is_digit c"

definition is_alnum :: "char \<Rightarrow> bool" where
  "is_alnum c \<longleftrightarrow> is_alpha c \<or> is_digit c"

definition is_hex :: "char \<Rightarrow> bool" where
  "is_hex c \<longleftrightarrow> is_digit c \<or> in_range 97 102 c \<or> in_range 65 70 c"

definition region_pattern :: "string \<Rightarrow> bool" where
  "region_pattern s \<longleftrightarrow>
     6 \<le> length s \<and> list_all is_lower (take 2 s) \<and> s ! 2 = CHR ''-'' \<and> list_all is_lower (take (length s - 5) (drop 3 s)) \<and>
     s ! (length s - 2) = CHR ''-'' \<and> is_digit (s ! (length s - 1))"

definition name_pattern :: "string \<Rightarrow> bool" where
  "name_pattern s \<longleftrightarrow>
     s \<noteq> [] \<and> is_lower_num (hd s) \<and> is_lower_num (last s) \<and> list_all (\<lambda>c. is_lower_num c \<or> c = CHR ''-'') s"

definition starts_pattern :: "(char \<Rightarrow> bool) \<Rightarrow> (char \<Rightarrow> bool) \<Rightarrow> string \<Rightarrow> bool" where
  "starts_pattern p q s \<longleftrightarrow> s \<noteq> [] \<and> p (hd s) \<and> list_all q (tl s)"

definition uuid_text :: "string \<Rightarrow> bool" where
  "uuid_text s \<longleftrightarrow>
     length s = 36 \<and>
     list_all (\<lambda>(i, c). if i \<in> {8, 13, 18, 23} then c = CHR ''-'' else is_hex c) (enumerate 0 s)"

section \<open>common.proto, bench.proto\<close>

record tenant =
  tn_CustomerId :: string
  tn_ProjectId :: string

record workload_ref =
  wr_Tenant :: "tenant option"
  wr_WorkloadId :: string

record cluster_ref =
  cf_Region :: string
  cf_ClusterId :: string

record resource_quantity =
  rq_CpuMillis :: int
  rq_MemoryBytes :: int
  rq_EphemeralStorageBytes :: int

record resources =
  rs_Requests :: "resource_quantity option"
  rs_Limits :: "resource_quantity option"

datatype env_value = Literal string | Secret string string

record env_var =
  ev_Name :: string
  ev_Value :: "env_value option"

record port =
  po_Name :: string
  po_ContainerPort :: int
  po_Protocol :: int

definition tenant_violations :: "tenant \<Rightarrow> violation list" where
  "tenant_violations t = rule ''customer_id'' ''string.uuid'' (uuid_text (tn_CustomerId t)) @ rule ''project_id'' ''string.uuid'' (uuid_text (tn_ProjectId t))"

definition workload_ref_violations :: "workload_ref \<Rightarrow> violation list" where
  "workload_ref_violations r =
     required_field ''tenant'' tenant_violations (wr_Tenant r) @ rule ''workload_id'' ''string.uuid'' (uuid_text (wr_WorkloadId r))"

definition cluster_ref_violations :: "cluster_ref \<Rightarrow> violation list" where
  "cluster_ref_violations c =
     rule ''region'' ''string.pattern'' (region_pattern (cf_Region c)) @
     rule ''cluster_id'' ''string.min_len'' (1 \<le> length (cf_ClusterId c)) @
     rule ''cluster_id'' ''string.max_len'' (length (cf_ClusterId c) \<le> 63)"

definition resource_quantity_violations :: "resource_quantity \<Rightarrow> violation list" where
  "resource_quantity_violations q =
     rule ''cpu_millis'' ''int64.gte_lte'' (0 \<le> rq_CpuMillis q \<and> rq_CpuMillis q \<le> 256000) @
     rule ''memory_bytes'' ''int64.gte'' (0 \<le> rq_MemoryBytes q) @
     rule ''ephemeral_storage_bytes'' ''int64.gte'' (0 \<le> rq_EphemeralStorageBytes q)"

definition limits_ge_requests :: "resources \<Rightarrow> bool" where
  "limits_ge_requests r =
     (case (rs_Limits r, rs_Requests r) of
        (Some l, Some q) \<Rightarrow> rq_CpuMillis l \<ge> rq_CpuMillis q \<and> rq_MemoryBytes l \<ge> rq_MemoryBytes q
      | _ \<Rightarrow> True)"

definition resources_violations :: "resources \<Rightarrow> violation list" where
  "resources_violations r =
     optional_field ''requests'' resource_quantity_violations (rs_Requests r) @
     optional_field ''limits'' resource_quantity_violations (rs_Limits r) @
     rule '''' ''resources.limits_ge_requests'' (limits_ge_requests r)"

definition secret_pattern :: "string \<Rightarrow> bool" where
  "secret_pattern s \<longleftrightarrow>
     s \<noteq> [] \<and> is_lower_num (hd s) \<and> is_lower_num (last s) \<and> list_all (\<lambda>c. is_lower_num c \<or> c = CHR ''-'' \<or> c = CHR ''.'') s"

definition env_var_violations :: "env_var \<Rightarrow> violation list" where
  "env_var_violations e =
     rule ''name'' ''string.pattern'' (starts_pattern (\<lambda>c. is_alpha c \<or> c = CHR ''_'') (\<lambda>c. is_alnum c \<or> c = CHR ''_'') (ev_Name e)) @
     (case ev_Value e of
        None \<Rightarrow> [(''value'', ''required'')]
      | Some (Literal s) \<Rightarrow> rule ''literal'' ''string.max_len'' (length s \<le> 32768)
      | Some (Secret n k) \<Rightarrow>
          rule ''secret.name'' ''string.max_len'' (length n \<le> 253) @ rule ''secret.name'' ''string.pattern'' (secret_pattern n) @
          rule ''secret.key'' ''string.max_len'' (length k \<le> 253) @ rule ''secret.key'' ''string.pattern'' (secret_pattern k))"

definition port_violations :: "port \<Rightarrow> violation list" where
  "port_violations p =
     rule ''container_port'' ''uint32.gte_lte'' (1 \<le> po_ContainerPort p \<and> po_ContainerPort p \<le> 65535) @
     rule ''protocol'' ''enum.defined_only'' (po_Protocol p \<in> {0, 1, 2})"

definition envelope_violations :: "envelope \<Rightarrow> violation list" where
  "envelope_violations e =
     rule ''run_id'' ''string.min_len'' (1 \<le> length (RunId e)) @
     rule ''run_id'' ''string.max_len'' (length (RunId e) \<le> 64) @
     rule ''run_id'' ''string.pattern'' (RunId e \<noteq> [] \<and> list_all (\<lambda>c. is_alnum c \<or> c \<in> {CHR ''.'', CHR ''_'', CHR ''-''}) (RunId e)) @
     rule ''message_id'' ''bytes.len'' (length (MessageId e) = 16) @
     rule ''client_send_time'' ''required'' (ClientSendTime e \<noteq> None) @
     rule ''request_sha256'' ''envelope.sha256_len'' (length (RequestSha256 e) = 0 \<or> length (RequestSha256 e) = 32) @
     rule ''responder_id'' ''string.max_len'' (length (ResponderId e) \<le> 128) @
     rule ''codec'' ''enum.not_in'' (ECodec e \<noteq> CODEC_UNSPECIFIED) @
     rule ''transport'' ''enum.not_in'' (ETransport e \<noteq> TRANSPORT_UNSPECIFIED) @
     rule ''fixture'' ''string.in'' (Fixture e \<in> {''tiny'', ''small'', ''medium'', ''large'', ''max'', ''sparse'', ''dense''}) @
     rule '''' ''envelope.server_times_ordered''
       (case (ServerSendTime e, ServerReceiveTime e) of (Some s, Some r) \<Rightarrow> s \<ge> r | _ \<Rightarrow> True)"

section \<open>workload.proto\<close>

datatype image_ref = Tag string | Digest bytes

record image_source =
  im_Repository :: string
  im_Ref :: "image_ref option"

record container_spec =
  ct_Name :: string
  ct_Image :: "image_source option"
  ct_Command :: "string list"
  ct_Args :: "string list"
  ct_Env :: "env_var list"
  ct_Ports :: "port list"
  ct_Resources :: "resources option"
  ct_WorkingDir :: "string option"

datatype placement =
    Cluster cluster_ref
  | RegionAffinity "string list" "string list" bool
  | LatencyTarget string "duration option"

record workload_spec =
  sp_Kind :: int
  sp_Containers :: "container_spec list"
  sp_Replicas :: int
  sp_RestartPolicy :: int
  sp_Placement :: "placement option option"
  sp_Labels :: "(string \<times> string) list"
  sp_Annotations :: "(string \<times> string) list"
  sp_TtlAfterFinished :: "duration option"
  sp_Schedule :: "string option"

datatype deploy_op =
    Create workload_spec
  | Update "workload_spec option" "string list option"
  | Delete bool "duration option"

record deploy_request =
  dr_Envelope :: "envelope option"
  dr_Ref :: "workload_ref option"
  dr_Op :: "deploy_op option"
  dr_IdempotencyKey :: string
  dr_RequestedAt :: "timestamp option"

definition image_violations :: "image_source \<Rightarrow> violation list" where
  "image_violations i =
     rule ''repository'' ''string.min_len'' (1 \<le> length (im_Repository i)) @
     rule ''repository'' ''string.max_len'' (length (im_Repository i) \<le> 255) @
     rule ''repository'' ''string.pattern''
       (starts_pattern is_lower_num (\<lambda>c. is_lower_num c \<or> c \<in> {CHR ''.'', CHR ''_'', CHR ''/'', CHR ''-''}) (im_Repository i)) @
     (case im_Ref i of
        None \<Rightarrow> [(''ref'', ''required'')]
      | Some (Tag t) \<Rightarrow>
          rule ''tag'' ''string.min_len'' (1 \<le> length t) @ rule ''tag'' ''string.max_len'' (length t \<le> 128) @
          rule ''tag'' ''string.pattern''
            (starts_pattern (\<lambda>c. is_alnum c \<or> c = CHR ''_'') (\<lambda>c. is_alnum c \<or> c \<in> {CHR ''.'', CHR ''_'', CHR ''-''}) t)
      | Some (Digest d) \<Rightarrow> rule ''digest'' ''bytes.len'' (length d = 32))"

definition container_violations :: "container_spec \<Rightarrow> violation list" where
  "container_violations c =
     rule ''name'' ''string.min_len'' (1 \<le> length (ct_Name c)) @ rule ''name'' ''string.max_len'' (length (ct_Name c) \<le> 63) @
     rule ''name'' ''string.pattern'' (name_pattern (ct_Name c)) @
     required_field ''image'' image_violations (ct_Image c) @
     rule ''command'' ''repeated.max_items'' (length (ct_Command c) \<le> 32) @
     rule ''args'' ''repeated.max_items'' (length (ct_Args c) \<le> 64) @
     rule ''env'' ''repeated.max_items'' (length (ct_Env c) \<le> 128) @
     repeated_field ''env'' env_var_violations (ct_Env c) @
     rule ''ports'' ''repeated.max_items'' (length (ct_Ports c) \<le> 16) @
     repeated_field ''ports'' port_violations (ct_Ports c) @
     required_field ''resources'' resources_violations (ct_Resources c) @
     (case ct_WorkingDir c of None \<Rightarrow> [] | Some w \<Rightarrow> rule ''working_dir'' ''string.max_len'' (length w \<le> 4096) @ rule ''working_dir'' ''string.prefix'' (take 1 w = ''/'')) @
     rule '''' ''container_spec.port_names_unique'' (distinct (map po_Name (ct_Ports c)))"

definition placement_violations :: "placement option \<Rightarrow> violation list" where
  "placement_violations p =
     (case p of
        None \<Rightarrow> [(''policy'', ''required'')]
      | Some (Cluster c) \<Rightarrow> under ''cluster'' (cluster_ref_violations c)
      | Some (RegionAffinity ps es strict) \<Rightarrow>
          rule ''region_affinity.preferred'' ''repeated.min_items'' (1 \<le> length ps) @
          rule ''region_affinity.preferred'' ''repeated.max_items'' (length ps \<le> 8) @
          rule ''region_affinity.preferred'' ''repeated.unique'' (distinct ps) @
          rule ''region_affinity.preferred'' ''string.pattern'' (list_all region_pattern ps) @
          rule ''region_affinity.excluded'' ''repeated.max_items'' (length es \<le> 8) @
          rule ''region_affinity.excluded'' ''repeated.unique'' (distinct es) @
          rule ''region_affinity.excluded'' ''string.pattern'' (list_all region_pattern es) @
          rule ''region_affinity'' ''region_affinity.disjoint'' (set ps \<inter> set es = {})
      | Some (LatencyTarget from rtt) \<Rightarrow>
          rule ''latency_target.from_region'' ''string.pattern'' (region_pattern from) @
          (case rtt of None \<Rightarrow> [] | Some d \<Rightarrow> rule ''latency_target.max_rtt'' ''duration.gt_lte'' (0 < d \<and> d \<le> 5 * Second)))"

definition pairs_violations :: "string \<Rightarrow> nat \<Rightarrow> (string \<Rightarrow> bool) \<Rightarrow> (string \<Rightarrow> bool) \<Rightarrow> (string \<times> string) list \<Rightarrow> violation list" where
  "pairs_violations p n key val m =
     rule p ''map.max_pairs'' (length m \<le> n) @ rule p ''map.keys'' (list_all (\<lambda>(k, v). key k) m) @
     rule p ''map.values'' (list_all (\<lambda>(k, v). val v) m)"

definition spec_violations :: "workload_spec \<Rightarrow> violation list" where
  "spec_violations s =
     rule ''kind'' ''enum.defined_only'' (sp_Kind s \<in> {0, 1, 2, 3}) @ rule ''kind'' ''enum.not_in'' (sp_Kind s \<noteq> 0) @
     rule ''containers'' ''repeated.min_items'' (1 \<le> length (sp_Containers s)) @
     rule ''containers'' ''repeated.max_items'' (length (sp_Containers s) \<le> 16) @
     repeated_field ''containers'' container_violations (sp_Containers s) @
     rule ''replicas'' ''uint32.lte'' (sp_Replicas s \<le> 1000) @
     rule ''restart_policy'' ''enum.defined_only'' (sp_RestartPolicy s \<in> {0, 1, 2, 3}) @
     required_field ''placement'' placement_violations (sp_Placement s) @
     pairs_violations ''labels'' 64 (\<lambda>k. 1 \<le> length k \<and> length k \<le> 63) (\<lambda>v. length v \<le> 63) (sp_Labels s) @
     pairs_violations ''annotations'' 64 (\<lambda>k. True) (\<lambda>v. length v \<le> 4096) (sp_Annotations s) @
     (case sp_TtlAfterFinished s of None \<Rightarrow> [] | Some d \<Rightarrow> rule ''ttl_after_finished'' ''duration.lte'' (d \<le> 604800 * Second)) @
     (case sp_Schedule s of None \<Rightarrow> [] | Some c \<Rightarrow> rule ''schedule'' ''string.max_len'' (length c \<le> 128)) @
     rule '''' ''workload_spec.container_names_unique'' (distinct (map ct_Name (sp_Containers s))) @
     rule '''' ''workload_spec.schedule_iff_cron'' ((sp_Kind s = 3) = (sp_Schedule s \<noteq> None)) @
     rule '''' ''workload_spec.service_replicas'' (sp_Kind s \<noteq> 1 \<or> sp_Replicas s \<ge> 1)"

definition mask_paths :: "string list" where
  "mask_paths = [''kind'', ''containers'', ''replicas'', ''restart_policy'', ''placement'', ''labels'', ''annotations'',
     ''ttl_after_finished'', ''schedule'']"

definition op_violations :: "deploy_op option \<Rightarrow> violation list" where
  "op_violations op =
     (case op of
        None \<Rightarrow> [(''op'', ''required'')]
      | Some (Create s) \<Rightarrow> under ''create'' (spec_violations s)
      | Some (Update s paths) \<Rightarrow>
          under ''update''
            (required_field ''spec'' spec_violations s @
             rule '''' ''update_workload.mask_paths'' (case paths of None \<Rightarrow> True | Some ps \<Rightarrow> list_all (\<lambda>p. p \<in> set mask_paths) ps))
      | Some (Delete force grace) \<Rightarrow>
          (case grace of None \<Rightarrow> [] | Some d \<Rightarrow> rule ''delete.grace_period'' ''duration.gte_lte'' (0 \<le> d \<and> d \<le> 3600 * Second)))"

definition deploy_violations :: "deploy_request \<Rightarrow> violation list" where
  "deploy_violations d =
     required_field ''envelope'' envelope_violations (dr_Envelope d) @
     required_field ''ref'' workload_ref_violations (dr_Ref d) @
     op_violations (dr_Op d) @
     rule ''idempotency_key'' ''string.uuid'' (uuid_text (dr_IdempotencyKey d)) @
     rule ''requested_at'' ''required'' (dr_RequestedAt d \<noteq> None)"

section \<open>logs.proto, telemetry.proto, billing.proto\<close>

record log_chunk =
  lc_Envelope :: "envelope option"
  lc_PodName :: string
  lc_Container :: string
  lc_Stream :: int
  lc_FirstTs :: "timestamp option"
  lc_LastTs :: "timestamp option"
  lc_LineCount :: int
  lc_Data :: bytes
  lc_Truncated :: bool

definition log_chunk_violations :: "log_chunk \<Rightarrow> violation list" where
  "log_chunk_violations l =
     required_field ''envelope'' envelope_violations (lc_Envelope l) @
     rule ''pod_name'' ''string.max_len'' (length (lc_PodName l) \<le> 253) @
     rule ''container'' ''string.max_len'' (length (lc_Container l) \<le> 63) @
     rule ''stream'' ''enum.defined_only'' (lc_Stream l \<in> {0, 1, 2}) @
     rule ''data'' ''bytes.max_len'' (length (lc_Data l) \<le> 1048576) @
     rule '''' ''log_chunk.ts_ordered'' (case (lc_FirstTs l, lc_LastTs l) of (Some a, Some b) \<Rightarrow> b \<ge> a | _ \<Rightarrow> True)"

record container_state =
  st_Name :: string
  st_Phase :: int
  st_RestartCount :: int
  st_ExitCode :: "int option"
  st_StartedAt :: "timestamp option"
  st_ImageDigest :: "bytes option"

definition container_state_violations :: "container_state \<Rightarrow> violation list" where
  "container_state_violations c =
     rule ''phase'' ''enum.defined_only'' (0 \<le> st_Phase c \<and> st_Phase c \<le> 7) @
     rule ''restart_count'' ''int32.gte'' (0 \<le> st_RestartCount c) @
     (case st_ExitCode c of None \<Rightarrow> [] | Some e \<Rightarrow> rule ''exit_code'' ''int32.gte_lte'' (-128 \<le> e \<and> e \<le> 255)) @
     (case st_ImageDigest c of None \<Rightarrow> [] | Some d \<Rightarrow> rule ''image_digest'' ''bytes.len'' (length d = 32)) @
     rule '''' ''container_state.exit_code_iff_terminal'' ((st_ExitCode c \<noteq> None) = (st_Phase c \<in> {4, 5, 6}))"

record resource_sample =
  sa_CpuCores :: rat
  sa_MemoryWorkingSetBytes :: u64
  sa_RxBytes :: u64
  sa_TxBytes :: u64
  sa_FsUsedBytes :: u64

record telemetry_sample =
  te_Envelope :: "envelope option"
  te_Ref :: "workload_ref option"
  te_Cluster :: "cluster_ref option"
  te_PodName :: string
  te_SampledAt :: "timestamp option"
  te_Containers :: "container_state list"
  te_Resources :: "resource_sample option"
  te_CustomGauges :: "(string \<times> rat) list"

definition telemetry_violations :: "telemetry_sample \<Rightarrow> violation list" where
  "telemetry_violations t =
     required_field ''envelope'' envelope_violations (te_Envelope t) @
     required_field ''ref'' workload_ref_violations (te_Ref t) @
     optional_field ''cluster'' cluster_ref_violations (te_Cluster t) @
     rule ''pod_name'' ''string.max_len'' (length (te_PodName t) \<le> 253) @
     rule ''sampled_at'' ''required'' (te_SampledAt t \<noteq> None) @
     rule ''containers'' ''repeated.max_items'' (length (te_Containers t) \<le> 16) @
     repeated_field ''containers'' container_state_violations (te_Containers t) @
     optional_field ''resources'' (\<lambda>r. rule ''cpu_cores'' ''double.gte'' (0 \<le> sa_CpuCores r)) (te_Resources t) @
     rule ''custom_gauges'' ''map.max_pairs'' (length (te_CustomGauges t) \<le> 32) @
     rule '''' ''telemetry_sample.container_names_unique'' (distinct (map st_Name (te_Containers t)))"

datatype meter_value = Reading_Count u64 | Quantity rat

record meter_reading =
  mr_Meter :: int
  mr_Value :: "meter_value option"
  mr_Unit :: string

record usage_record =
  ur_Envelope :: "envelope option"
  ur_Ref :: "workload_ref option"
  ur_Cluster :: "cluster_ref option"
  ur_RecordId :: string
  ur_WindowStart :: "timestamp option"
  ur_WindowEnd :: "timestamp option"
  ur_Readings :: "meter_reading list"
  ur_Sku :: "string option"

definition meter_violations :: "meter_reading \<Rightarrow> violation list" where
  "meter_violations m =
     rule ''meter'' ''enum.defined_only'' (0 \<le> mr_Meter m \<and> mr_Meter m \<le> 5) @ rule ''meter'' ''enum.not_in'' (mr_Meter m \<noteq> 0) @
     (case mr_Value m of
        None \<Rightarrow> [(''value'', ''required'')]
      | Some (Reading_Count n) \<Rightarrow> []
      | Some (Quantity q) \<Rightarrow> rule ''quantity'' ''double.gte'' (0 \<le> q))"

text \<open>An expression that reads an absent timestamp reads the epoch.\<close>

definition or_epoch :: "timestamp option \<Rightarrow> timestamp" where
  "or_epoch t = (case t of None \<Rightarrow> 0 | Some x \<Rightarrow> x)"

definition usage_violations :: "usage_record \<Rightarrow> violation list" where
  "usage_violations u =
     required_field ''envelope'' envelope_violations (ur_Envelope u) @
     required_field ''ref'' workload_ref_violations (ur_Ref u) @
     optional_field ''cluster'' cluster_ref_violations (ur_Cluster u) @
     rule ''record_id'' ''string.uuid'' (uuid_text (ur_RecordId u)) @
     rule ''window_start'' ''required'' (ur_WindowStart u \<noteq> None) @
     rule ''window_end'' ''required'' (ur_WindowEnd u \<noteq> None) @
     rule ''readings'' ''repeated.min_items'' (1 \<le> length (ur_Readings u)) @
     rule ''readings'' ''repeated.max_items'' (length (ur_Readings u) \<le> 16) @
     repeated_field ''readings'' meter_violations (ur_Readings u) @
     (case ur_Sku u of None \<Rightarrow> [] | Some s \<Rightarrow> rule ''sku'' ''string.max_len'' (length s \<le> 128)) @
     rule '''' ''usage_record.window_ordered'' (or_epoch (ur_WindowEnd u) > or_epoch (ur_WindowStart u)) @
     rule '''' ''usage_record.window_max_1h'' (or_epoch (ur_WindowEnd u) - or_epoch (ur_WindowStart u) \<le> 3600 * Second) @
     rule '''' ''usage_record.meters_unique'' (distinct (map mr_Meter (ur_Readings u)))"

section \<open>Messages\<close>

text \<open>The messages the benchmark sends, and the rules that hold of each.\<close>

datatype wl_message =
    PingRequest "envelope option"
  | DeployRequest deploy_request
  | LogChunk_Msg log_chunk
  | TelemetrySample telemetry_sample
  | UsageRecord usage_record

definition violations :: "wl_message \<Rightarrow> violation list" where
  "violations m =
     (case m of
        PingRequest e \<Rightarrow> required_field ''envelope'' envelope_violations e
      | DeployRequest d \<Rightarrow> deploy_violations d
      | LogChunk_Msg l \<Rightarrow> log_chunk_violations l
      | TelemetrySample t \<Rightarrow> telemetry_violations t
      | UsageRecord u \<Rightarrow> usage_violations u)"

section \<open>Lemmas\<close>

lemma rule_Nil [simp]: "rule p r ok = [] \<longleftrightarrow> ok"
  by (simp add: rule_def)

lemma under_Nil [simp]: "under p vs = [] \<longleftrightarrow> vs = []"
  by (simp add: under_def)

lemma under_Nil_list [simp]: "under p [] = []"
  by (simp add: under_def)

lemma optional_field_Nil [simp]: "optional_field p f x = [] \<longleftrightarrow> (\<forall>m. x = Some m \<longrightarrow> f m = [])"
  by (cases x) (simp_all add: optional_field_def)

lemma required_field_Nil [simp]: "required_field p f x = [] \<longleftrightarrow> (\<exists>m. x = Some m \<and> f m = [])"
  by (cases x) (simp_all add: required_field_def)

lemma repeated_field_Nil [simp]: "repeated_field p f xs = [] \<longleftrightarrow> (\<forall>x\<in>set xs. f x = [])"
proof -
  have "set xs = snd ` set (enumerate 0 xs)"
    by (metis list.set_map map_snd_enumerate)
  then show ?thesis by (auto simp: repeated_field_def)
qed

end
