(* ===== verification/Corpus.thy ===== *)
theory Corpus
  imports Schema "HOL-Library.State_Monad"
begin

text \<open>
  The fixtures of the benchmark (\<open>clients/internal/corpus\<close>): every builder of \<open>corpus.go\<close>, in the state
  monad of the random generator it draws from, so the order of the draws is the order of the calls, and the
  deliberately invalid messages of \<open>invalid.go\<close>.

  The generator of \<open>math/rand/v2\<close> and the text form of the UUID library are the parameter \<open>lib\<close>; of them
  the program relies on \<open>rand_ok\<close>: \<open>IntN(n)\<close> is below \<open>n\<close>, and 16 bytes print as a UUID.  A Go map built from
  distinct keys is the list of its pairs.  The numbers of containers and readings are naturals: a negative
  one would panic in \<open>make\<close>, and no caller passes one.
\<close>

unbundle bit_operations_syntax

section \<open>Generator\<close>

record 'g lib =
  l_NewPCG :: "u64 \<Rightarrow> u64 \<Rightarrow> 'g"
  l_Uint64 :: "'g \<Rightarrow> u64 \<times> 'g"
  l_Uint32 :: "'g \<Rightarrow> 32 word \<times> 'g"
  l_IntN :: "nat \<Rightarrow> 'g \<Rightarrow> nat \<times> 'g"
  l_uuid_String :: "bytes \<Rightarrow> string"

definition rand_ok :: "'g lib \<Rightarrow> bool" where
  "rand_ok L \<longleftrightarrow> (\<forall>n g. 0 < n \<longrightarrow> fst (l_IntN L n g) < n) \<and> (\<forall>b. length b = 16 \<longrightarrow> uuid_text (l_uuid_String L b))"

definition Uint64 :: "'g lib \<Rightarrow> ('g, u64) state" where
  "Uint64 L = State (l_Uint64 L)"

definition Uint32 :: "'g lib \<Rightarrow> ('g, 32 word) state" where
  "Uint32 L = State (l_Uint32 L)"

definition IntN :: "'g lib \<Rightarrow> nat \<Rightarrow> ('g, nat) state" where
  "IntN L n = State (l_IntN L n)"

section \<open>Helpers\<close>

text \<open>\<open>hash\<close>: the FNV-1a loop, wrapping at 64 bits.\<close>

definition hash :: "string \<Rightarrow> u64" where
  "hash s = fold (\<lambda>c h. (h XOR of_char c) * 1099511628211) s 1469598103934665603"

text \<open>\<open>binary.LittleEndian.PutUint64\<close>.\<close>

definition le64 :: "u64 \<Rightarrow> bytes" where
  "le64 w = map (\<lambda>i. ucast (drop_bit (8 * i) w)) [0..<8]"

definition randUUID :: "'g lib \<Rightarrow> ('g, string) state" where
  "randUUID L =
     do {
       lo \<leftarrow> Uint64 L;
       hi \<leftarrow> Uint64 L;
       let b = le64 lo @ le64 hi;
       let b = b[6 := (b ! 6 AND 0x0f) OR 0x40];
       let b = b[8 := (b ! 8 AND 0x3f) OR 0x80];
       State_Monad.return (l_uuid_String L b)
     }"

definition randBytes :: "'g lib \<Rightarrow> nat \<Rightarrow> ('g, bytes) state" where
  "randBytes L n =
     do {
       ws \<leftarrow> traverse_list (\<lambda>_. Uint64 L) [0..<n div 8];
       bs \<leftarrow> traverse_list (\<lambda>_. Uint64 L) [n - n mod 8..<n];
       State_Monad.return (concat (map le64 ws) @ map ucast bs)
     }"

definition hex_digit :: "nat \<Rightarrow> char" where
  "hex_digit n = (if n < 10 then char_of (48 + n) else char_of (87 + n))"

text \<open>\<open>fmt.Sprintf("%08x", \<dots>)\<close> of a 32-bit word: eight digits, the highest first.\<close>

definition hex32 :: "32 word \<Rightarrow> string" where
  "hex32 w = map (\<lambda>i. hex_digit (unat (drop_bit (4 * i) w AND 0xf))) [7, 6, 5, 4, 3, 2, 1, 0]"

definition shortHex :: "'g lib \<Rightarrow> ('g, string) state" where
  "shortHex L = do { w \<leftarrow> Uint32 L; State_Monad.return (hex32 w) }"

definition nitoa :: "nat \<Rightarrow> string" where
  "nitoa n = itoa (int n)"

definition strMap :: "string \<Rightarrow> nat \<Rightarrow> (string \<times> string) list" where
  "strMap prefix n = map (\<lambda>i. (prefix @ ''-'' @ nitoa i, ''value-'' @ nitoa i)) [0..<n]"

section \<open>Fixtures\<close>

type_synonym fixture = string

abbreviation Tiny :: fixture where "Tiny \<equiv> ''tiny''"
abbreviation Small :: fixture where "Small \<equiv> ''small''"
abbreviation Medium :: fixture where "Medium \<equiv> ''medium''"
abbreviation Large :: fixture where "Large \<equiv> ''large''"
abbreviation Max_fixture :: fixture where "Max_fixture \<equiv> ''max''"
abbreviation Sparse :: fixture where "Sparse \<equiv> ''sparse''"
abbreviation Dense :: fixture where "Dense \<equiv> ''dense''"

definition AllFixtures :: "fixture list" where
  "AllFixtures = [Tiny, Small, Medium, Large, Max_fixture, Sparse, Dense]"

definition baseTime :: timestamp where
  "baseTime = 1700000000 * Second"

definition regions :: "string list" where
  "regions = [''us-west-2'', ''us-east-1'', ''eu-west-1'', ''ap-south-1'']"

record corpus =
  cp_seed :: u64

definition New :: "u64 \<Rightarrow> corpus" where
  "New seed = \<lparr>cp_seed = seed\<rparr>"

definition randFor :: "'g lib \<Rightarrow> corpus \<Rightarrow> u64 \<Rightarrow> 'g" where
  "randFor L c salt = l_NewPCG L (cp_seed c) salt"

text \<open>A builder that opens its own generator runs its draws from \<open>randFor\<close>.\<close>

definition with_rand :: "'g lib \<Rightarrow> corpus \<Rightarrow> u64 \<Rightarrow> ('g, 'a) state \<Rightarrow> 'a" where
  "with_rand L c salt m = fst (run_state m (randFor L c salt))"

section \<open>Builders\<close>

definition envelope_of :: "'g lib \<Rightarrow> corpus \<Rightarrow> fixture \<Rightarrow> u64 \<Rightarrow> envelope" where
  "envelope_of L c f sq =
     with_rand L c (hash (''env:'' @ f))
       (do {
          lo \<leftarrow> Uint64 L;
          hi \<leftarrow> Uint64 L;
          State_Monad.return
            (zero_envelope\<lparr>RunId := ''proto-bench'', MessageId := le64 lo @ le64 hi, Sequence := sq, ClientSendTime := Some baseTime,
               ECodec := CODEC_PROTO, ETransport := TRANSPORT_GRPC_UNARY, Fixture := f\<rparr>)
        })"

definition workloadRef :: "'g lib \<Rightarrow> ('g, workload_ref) state" where
  "workloadRef L =
     do {
       customer \<leftarrow> randUUID L;
       project \<leftarrow> randUUID L;
       workload \<leftarrow> randUUID L;
       State_Monad.return \<lparr>wr_Tenant = Some \<lparr>tn_CustomerId = customer, tn_ProjectId = project\<rparr>, wr_WorkloadId = workload\<rparr>
     }"

definition clusterRef :: "'g lib \<Rightarrow> ('g, cluster_ref) state" where
  "clusterRef L =
     do {
       i \<leftarrow> IntN L (length regions);
       h \<leftarrow> shortHex L;
       State_Monad.return \<lparr>cf_Region = regions ! i, cf_ClusterId = ''cluster-'' @ h\<rparr>
     }"

definition resources_of :: resources where
  "resources_of =
     \<lparr>rs_Requests = Some \<lparr>rq_CpuMillis = 100, rq_MemoryBytes = 128 * 2 ^ 20, rq_EphemeralStorageBytes = 0\<rparr>,
      rs_Limits = Some \<lparr>rq_CpuMillis = 200, rq_MemoryBytes = 256 * 2 ^ 20, rq_EphemeralStorageBytes = 0\<rparr>\<rparr>"

definition container :: "'g lib \<Rightarrow> nat \<Rightarrow> nat \<Rightarrow> nat \<Rightarrow> bool \<Rightarrow> ('g, container_spec) state" where
  "container L i nEnv nPorts withOptional =
     do {
       env \<leftarrow> traverse_list
         (\<lambda>j. do {
            h \<leftarrow> shortHex L;
            State_Monad.return \<lparr>ev_Name = ''VAR_'' @ nitoa i @ ''_'' @ nitoa j, ev_Value = Some (Literal (''v'' @ h))\<rparr>
          }) [0..<nEnv];
       let ports = map (\<lambda>j. \<lparr>po_Name = ''p'' @ nitoa i @ ''-'' @ nitoa j, po_ContainerPort = int (8000 + i * 10 + j) mod 2 ^ 32, po_Protocol = 1\<rparr>)
         [0..<nPorts];
       State_Monad.return
         \<lparr>ct_Name = ''app-'' @ nitoa i,
          ct_Image = Some \<lparr>im_Repository = ''registry.example/app'', im_Ref = Some (Tag ''v1.2.3'')\<rparr>,
          ct_Command = [], ct_Args = [], ct_Env = env, ct_Ports = ports, ct_Resources = Some resources_of,
          ct_WorkingDir = (if withOptional then Some ''/srv/app'' else None)\<rparr>
     }"

definition spec_of :: "'g lib \<Rightarrow> fixture \<Rightarrow> ('g, workload_spec) state" where
  "spec_of L f =
     do {
       cr \<leftarrow> clusterRef L;
       let spec = \<lparr>sp_Kind = 1, sp_Containers = [], sp_Replicas = 3, sp_RestartPolicy = 1, sp_Placement = Some (Some (Cluster cr)),
         sp_Labels = [], sp_Annotations = [], sp_TtlAfterFinished = None, sp_Schedule = None\<rparr>;
       if f = Large then
         do {
           cs \<leftarrow> traverse_list (\<lambda>i. container L i (if i = 0 then 32 else 4) 2 False) [0..<8];
           State_Monad.return (spec\<lparr>sp_Containers := cs, sp_Labels := strMap ''label'' 16, sp_Annotations := strMap ''annotation'' 16\<rparr>)
         }
       else if f = Sparse then
         do {
           ct \<leftarrow> container L 0 0 0 False;
           State_Monad.return (spec\<lparr>sp_Containers := [ct]\<rparr>)
         }
       else if f = Dense then
         do {
           ct \<leftarrow> container L 0 4 2 True;
           State_Monad.return (spec\<lparr>sp_Kind := 3, sp_Containers := [ct], sp_Labels := strMap ''label'' 4,
             sp_Annotations := strMap ''annotation'' 4, sp_TtlAfterFinished := Some (24 * 3600 * Second),
             sp_Schedule := Some ''*/5 * * * *''\<rparr>)
         }
       else
         do {
           ct \<leftarrow> container L 0 4 2 False;
           State_Monad.return (spec\<lparr>sp_Containers := [ct], sp_Labels := strMap ''label'' 4\<rparr>)
         }
     }"

section \<open>Messages\<close>

definition Ping :: "'g lib \<Rightarrow> corpus \<Rightarrow> wl_message" where
  "Ping L c = PingRequest (Some (envelope_of L c Tiny 1))"

definition Deploy :: "'g lib \<Rightarrow> corpus \<Rightarrow> fixture \<Rightarrow> deploy_request" where
  "Deploy L c f =
     with_rand L c (of_nat (length f) XOR hash f)
       (do {
          ref \<leftarrow> workloadRef L;
          key \<leftarrow> randUUID L;
          let req = \<lparr>dr_Envelope = Some (envelope_of L c f 2), dr_Ref = Some ref, dr_Op = None, dr_IdempotencyKey = key,
            dr_RequestedAt = Some (baseTime + Second)\<rparr>;
          if f = Small then State_Monad.return (req\<lparr>dr_Op := Some (Delete False (Some (30 * Second)))\<rparr>)
          else do { s \<leftarrow> spec_of L f; State_Monad.return (req\<lparr>dr_Op := Some (Create s)\<rparr>) }
        })"

definition logChunk :: "'g lib \<Rightarrow> corpus \<Rightarrow> fixture \<Rightarrow> u64 \<Rightarrow> nat \<Rightarrow> log_chunk" where
  "logChunk L c f salt sz =
     with_rand L c salt
       (do {
          dat \<leftarrow> randBytes L sz;
          h \<leftarrow> shortHex L;
          State_Monad.return
            \<lparr>lc_Envelope = Some (envelope_of L c f 3), lc_PodName = ''pod-'' @ h, lc_Container = ''app'', lc_Stream = 1,
             lc_FirstTs = Some baseTime, lc_LastTs = Some (baseTime + Second), lc_LineCount = 4096, lc_Data = dat, lc_Truncated = False\<rparr>
        })"

definition LogChunk :: "'g lib \<Rightarrow> corpus \<Rightarrow> fixture \<Rightarrow> log_chunk" where
  "LogChunk L c f = logChunk L c f (hash (''logchunk:'' @ f)) (960 * 2 ^ 10)"

definition LogChunkBytes :: "'g lib \<Rightarrow> corpus \<Rightarrow> nat \<Rightarrow> log_chunk" where
  "LogChunkBytes L c n = logChunk L c Max_fixture (hash (''logchunk-bytes:'' @ nitoa n)) n"

definition Telemetry :: "'g lib \<Rightarrow> corpus \<Rightarrow> nat \<Rightarrow> telemetry_sample" where
  "Telemetry L c nContainers =
     with_rand L c (hash (''telemetry:'' @ nitoa nContainers))
       (do {
          cs \<leftarrow> traverse_list
            (\<lambda>i. do {
               k \<leftarrow> IntN L 3;
               State_Monad.return \<lparr>st_Name = ''app-'' @ nitoa i, st_Phase = 3, st_RestartCount = int k, st_ExitCode = None,
                 st_StartedAt = Some baseTime, st_ImageDigest = None\<rparr>
             }) [0..<nContainers];
          ref \<leftarrow> workloadRef L;
          cr \<leftarrow> clusterRef L;
          h \<leftarrow> shortHex L;
          mem \<leftarrow> Uint32 L;
          rx \<leftarrow> Uint32 L;
          tx \<leftarrow> Uint32 L;
          fsu \<leftarrow> Uint32 L;
          depth \<leftarrow> IntN L 100;
          State_Monad.return
            \<lparr>te_Envelope = Some (envelope_of L c Medium 4), te_Ref = Some ref, te_Cluster = Some cr, te_PodName = ''pod-'' @ h,
             te_SampledAt = Some baseTime, te_Containers = cs,
             te_Resources = Some \<lparr>sa_CpuCores = 3 / 2, sa_MemoryWorkingSetBytes = ucast mem, sa_RxBytes = ucast rx,
               sa_TxBytes = ucast tx, sa_FsUsedBytes = ucast fsu\<rparr>,
             te_CustomGauges = [(''queue_depth'', of_nat depth), (''p99_ms'', 25 / 2)]\<rparr>
        })"

definition meters :: "int list" where
  "meters = [1, 2, 3, 4, 5]"

definition Usage :: "'g lib \<Rightarrow> corpus \<Rightarrow> nat \<Rightarrow> usage_record" where
  "Usage L c nReadings =
     with_rand L c (hash (''usage:'' @ nitoa nReadings))
       (do {
          let n = (if nReadings > length meters then length meters else nReadings);
          readings \<leftarrow> traverse_list
            (\<lambda>i. do {
               q \<leftarrow> IntN L 1000;
               State_Monad.return \<lparr>mr_Meter = meters ! i, mr_Value = Some (Quantity (of_nat q + 1 / 2)), mr_Unit = ''unit''\<rparr>
             }) [0..<n];
          ref \<leftarrow> workloadRef L;
          cr \<leftarrow> clusterRef L;
          rid \<leftarrow> randUUID L;
          State_Monad.return
            \<lparr>ur_Envelope = Some (envelope_of L c Medium 5), ur_Ref = Some ref, ur_Cluster = Some cr, ur_RecordId = rid,
             ur_WindowStart = Some baseTime, ur_WindowEnd = Some (baseTime + 30 * 60 * Second), ur_Readings = readings, ur_Sku = None\<rparr>
        })"

definition Message :: "'g lib \<Rightarrow> corpus \<Rightarrow> fixture \<Rightarrow> gerr + wl_message" where
  "Message L c f =
     (if f = Tiny then Inr (Ping L c)
      else if f \<in> {Small, Medium, Large, Sparse, Dense} then Inr (DeployRequest (Deploy L c f))
      else if f = Max_fixture then Inr (LogChunk_Msg (LogChunk L c Max_fixture))
      else Inl (Opaque (''corpus: unknown fixture '' @ quoted f)))"

text \<open>\<open>Sizes\<close>; \<open>psize\<close> stands for \<open>proto.Size\<close>.\<close>

primrec sizes_loop :: "'g lib \<Rightarrow> (wl_message \<Rightarrow> int) \<Rightarrow> corpus \<Rightarrow> fixture list \<Rightarrow> (fixture \<times> int) list \<Rightarrow> gerr + (fixture \<times> int) list" where
  "sizes_loop L psize c [] out = Inr out"
| "sizes_loop L psize c (f # fs) out =
     (case Message L c f of
        Inl err \<Rightarrow> Inl err
      | Inr m \<Rightarrow> sizes_loop L psize c fs (out @ [(f, psize m)]))"

definition Sizes :: "'g lib \<Rightarrow> (wl_message \<Rightarrow> int) \<Rightarrow> corpus \<Rightarrow> gerr + (fixture \<times> int) list" where
  "Sizes L psize c = sizes_loop L psize c AllFixtures []"

section \<open>Invalid messages\<close>

record invalid_case =
  ic_Description :: string
  ic_Message :: wl_message
  ic_WantContains :: string

definition validBase :: "'g lib \<Rightarrow> corpus \<Rightarrow> deploy_request" where
  "validBase L c =
     with_rand L c (hash ''invalid-base'')
       (do {
          ref \<leftarrow> workloadRef L;
          key \<leftarrow> randUUID L;
          s \<leftarrow> spec_of L Medium;
          State_Monad.return \<lparr>dr_Envelope = Some (envelope_of L c Medium 2), dr_Ref = Some ref, dr_Op = Some (Create s),
            dr_IdempotencyKey = key, dr_RequestedAt = Some baseTime\<rparr>
        })"

text \<open>An assignment through \<open>GetCreate()\<close>.\<close>

definition on_create :: "(workload_spec \<Rightarrow> workload_spec) \<Rightarrow> deploy_request \<Rightarrow> deploy_request" where
  "on_create f d = (case dr_Op d of Some (Create s) \<Rightarrow> d\<lparr>dr_Op := Some (Create (f s))\<rparr> | _ \<Rightarrow> d)"

definition limitsLtRequests :: "deploy_request \<Rightarrow> deploy_request" where
  "limitsLtRequests =
     on_create (\<lambda>s. s\<lparr>sp_Containers := (sp_Containers s)[0 := (sp_Containers s ! 0)\<lparr>ct_Resources := Some
       \<lparr>rs_Requests = Some \<lparr>rq_CpuMillis = 200, rq_MemoryBytes = 256 * 2 ^ 20, rq_EphemeralStorageBytes = 0\<rparr>,
        rs_Limits = Some \<lparr>rq_CpuMillis = 100, rq_MemoryBytes = 128 * 2 ^ 20, rq_EphemeralStorageBytes = 0\<rparr>\<rparr>\<rparr>]\<rparr>)"

definition dupNames :: "deploy_request \<Rightarrow> deploy_request" where
  "dupNames = on_create (\<lambda>s. s\<lparr>sp_Containers := sp_Containers s @ [sp_Containers s ! 0]\<rparr>)"

definition cronNoSchedule :: "deploy_request \<Rightarrow> deploy_request" where
  "cronNoSchedule = on_create (\<lambda>s. s\<lparr>sp_Kind := 3, sp_Schedule := None\<rparr>)"

definition badMask :: "'g lib \<Rightarrow> corpus \<Rightarrow> deploy_request" where
  "badMask L c =
     with_rand L c (hash ''invalid-update'')
       (do {
          ref \<leftarrow> workloadRef L;
          key \<leftarrow> randUUID L;
          s \<leftarrow> spec_of L Medium;
          State_Monad.return \<lparr>dr_Envelope = Some (envelope_of L c Medium 2), dr_Ref = Some ref,
            dr_Op = Some (Update (Some s) (Some [''bogus_field''])), dr_IdempotencyKey = key, dr_RequestedAt = Some baseTime\<rparr>
        })"

definition badSha :: "deploy_request \<Rightarrow> deploy_request" where
  "badSha d = d\<lparr>dr_Envelope := map_option (\<lambda>e. e\<lparr>RequestSha256 := replicate 31 0\<rparr>) (dr_Envelope d)\<rparr>"

definition badRtt :: "deploy_request \<Rightarrow> deploy_request" where
  "badRtt = on_create (\<lambda>s. s\<lparr>sp_Placement := Some (Some (LatencyTarget ''us-west-2'' (Some (6 * Second))))\<rparr>)"

definition InvalidCases :: "'g lib \<Rightarrow> corpus \<Rightarrow> invalid_case list" where
  "InvalidCases L c =
     (let ic = (\<lambda>descr m want. \<lparr>ic_Description = descr, ic_Message = DeployRequest m, ic_WantContains = want\<rparr>) in
      [ic ''limits < requests'' (limitsLtRequests (validBase L c)) ''resources.limits_ge_requests'',
       ic ''duplicate container names'' (dupNames (validBase L c)) ''workload_spec.container_names_unique'',
       ic ''CRON without schedule'' (cronNoSchedule (validBase L c)) ''workload_spec.schedule_iff_cron'',
       ic ''update_mask with an unknown path'' (badMask L c) ''update_workload.mask_paths'',
       ic ''request_sha256 of length 31'' (badSha (validBase L c)) ''envelope.sha256_len'',
       ic ''max_rtt of 6s'' (badRtt (validBase L c)) ''max_rtt''])"

section \<open>Lemmas: what every draw satisfies\<close>

lemma pred_return [simp]: "pred_state P (State_Monad.return x) \<longleftrightarrow> P x"
  by (auto dest: pred_stateD [where s = undefined])

lemma pred_bind: "pred_state Q m \<Longrightarrow> (\<And>x. Q x \<Longrightarrow> pred_state P (f x)) \<Longrightarrow> pred_state P (State_Monad.bind m f)"
  by (rule bind_predI, rule pred_stateI) (meson pred_stateD)

lemma pred_any: "pred_state (\<lambda>x. True) m"
  by (rule pred_stateI) simp

lemma pred_mono: "pred_state Q m \<Longrightarrow> (\<And>x. Q x \<Longrightarrow> P x) \<Longrightarrow> pred_state P m"
  by (rule pred_stateI) (meson pred_stateD)

lemma pred_if: "(b \<Longrightarrow> pred_state P m) \<Longrightarrow> (\<not> b \<Longrightarrow> pred_state P n) \<Longrightarrow> pred_state P (if b then m else n)"
  by simp

lemma pred_traverse:
  assumes "\<And>x. x \<in> set xs \<Longrightarrow> pred_state (P x) (f x)"
  shows "pred_state (list_all2 P xs) (traverse_list f xs)"
  using assms
proof (induction xs)
  case (Cons x xs)
  then have "pred_state (P x) (f x)" "pred_state (list_all2 P xs) (traverse_list f xs)" by auto
  then show ?case by (auto intro!: pred_bind [of "P x"] pred_bind [of "list_all2 P xs"])
qed simp

lemma with_rand_pred: "pred_state P m \<Longrightarrow> P (with_rand L c salt m)"
  by (simp add: with_rand_def pred_state_run_state)

lemma length_le64 [simp]: "length (le64 w) = 8"
  by (simp add: le64_def)

lemma IntN_pred: "rand_ok L \<Longrightarrow> 0 < n \<Longrightarrow> pred_state (\<lambda>i. i < n) (IntN L n)"
  by (rule pred_stateI) (metis IntN_def fst_conv rand_ok_def state.sel)

lemma randUUID_pred: "rand_ok L \<Longrightarrow> pred_state uuid_text (randUUID L)"
  unfolding randUUID_def Let_def
  by (rule pred_bind [OF pred_any], rule pred_bind [OF pred_any]) (simp add: rand_ok_def)

lemma length_concat_le64 [simp]: "length (concat (map le64 ws)) = 8 * length ws"
  by (induction ws) simp_all

lemma randBytes_pred: "pred_state (\<lambda>b. length b = n) (randBytes L n)"
proof -
  have len: "pred_state (\<lambda>ys. length ys = length xs) (traverse_list (\<lambda>_. Uint64 L) xs)" for xs :: "nat list"
    by (rule pred_mono [OF pred_traverse [OF pred_any]]) (simp add: list_all2_lengthD)
  show ?thesis unfolding randBytes_def
    by (rule pred_bind [OF len], rule pred_bind [OF len]) (simp add: mult.commute)
qed

lemma length_hex32 [simp]: "length (hex32 w) = 8"
  by (simp add: hex32_def)

lemma shortHex_pred: "pred_state (\<lambda>h. length h = 8) (shortHex L)"
  unfolding shortHex_def by (rule pred_bind [OF pred_any]) simp

lemma workloadRef_pred: "rand_ok L \<Longrightarrow> pred_state (\<lambda>r. workload_ref_violations r = []) (workloadRef L)"
  unfolding workloadRef_def
  by (intro pred_bind [OF randUUID_pred]) (simp_all add: workload_ref_violations_def tenant_violations_def)

lemma regions_pattern: "i < length regions \<Longrightarrow> region_pattern (regions ! i)"
  by (auto simp: regions_def region_pattern_def is_lower_def in_range_def is_digit_def less_Suc_eq numeral_eq_Suc)

lemma regions_nonempty [simp]: "0 < length regions"
  by (simp add: regions_def)

lemma clusterRef_pred: "rand_ok L \<Longrightarrow> pred_state (\<lambda>r. cluster_ref_violations r = []) (clusterRef L)"
  unfolding clusterRef_def
  by (rule pred_bind [OF IntN_pred [OF _ regions_nonempty]], assumption, rule pred_bind [OF shortHex_pred])
    (simp add: cluster_ref_violations_def regions_pattern)

lemma nitoa_digits: "list_all is_digit (nitoa n)"
  by (simp add: nitoa_def itoa_def nat_to_dec_digits)

lemma nitoa_not_Nil [simp]: "nitoa n \<noteq> []"
  by (simp add: nitoa_def itoa_def)

lemma nitoa_inject [simp]: "nitoa m = nitoa n \<longleftrightarrow> m = n"
  by (metis dec_val_nat_to_dec itoa_def nat_int nitoa_def of_nat_0_le_iff not_le)

lemma length_nat_to_dec: "n < 10 ^ Suc k \<Longrightarrow> length (nat_to_dec n) \<le> Suc k"
proof (induction k arbitrary: n)
  case 0
  then show ?case by (subst nat_to_dec.simps) simp
next
  case (Suc k)
  then have "n div 10 < 10 ^ Suc k" by (simp add: less_mult_imp_div_less mult.commute)
  from Suc.IH [OF this] show ?case by (subst nat_to_dec.simps) simp
qed

lemma length_nitoa: "n < 100 \<Longrightarrow> length (nitoa n) \<le> 2"
  using length_nat_to_dec [of n 1] by (simp add: nitoa_def itoa_def)

lemma digits_list_all: "(\<And>c. is_digit c \<Longrightarrow> P c) \<Longrightarrow> list_all P (nitoa n)"
  using nitoa_digits [of n] by (rule list.pred_mono_strong) simp

lemma last_nitoa: "is_digit (last (nitoa n))"
  using nitoa_digits [of n] by (simp add: list_all_iff)

lemma app_name_pattern: "name_pattern (''app-'' @ nitoa i)"
  using digits_list_all [of is_lower_num i] digits_list_all [of "\<lambda>c. is_lower_num c \<or> c = CHR ''-''" i] last_nitoa [of i]
  by (simp add: name_pattern_def is_lower_num_def is_lower_def in_range_def)

lemma var_name_pattern:
  "starts_pattern (\<lambda>c. is_alpha c \<or> c = CHR ''_'') (\<lambda>c. is_alnum c \<or> c = CHR ''_'') (''VAR_'' @ nitoa i @ ''_'' @ nitoa j)"
  using digits_list_all [of "\<lambda>c. is_alnum c \<or> c = CHR ''_''" i] digits_list_all [of "\<lambda>c. is_alnum c \<or> c = CHR ''_''" j]
  by (simp add: starts_pattern_def is_alnum_def is_alpha_def is_lower_def in_range_def)

lemma image_ok: "image_violations \<lparr>im_Repository = ''registry.example/app'', im_Ref = Some (Tag ''v1.2.3'')\<rparr> = []"
  by (simp add: image_violations_def starts_pattern_def is_alnum_def is_alpha_def is_lower_num_def is_lower_def in_range_def is_digit_def)

lemma resources_ok: "resources_violations resources_of = []"
  by (simp add: resources_violations_def resources_of_def resource_quantity_violations_def limits_ge_requests_def)

definition container_ok :: "nat \<Rightarrow> container_spec \<Rightarrow> bool" where
  "container_ok i ct \<longleftrightarrow> container_violations ct = [] \<and> ct_Name ct = ''app-'' @ nitoa i"

lemma distinct_ports: "distinct (map (\<lambda>j. ''p'' @ nitoa i @ ''-'' @ nitoa j) [0..<n])"
  by (simp add: distinct_map inj_on_def)

lemma container_pred:
  assumes "i < 100" "nEnv \<le> 128" "nPorts \<le> 16"
  shows "pred_state (container_ok i) (container L i nEnv nPorts w)"
proof -
  let ?v = "\<lambda>j e. env_var_violations e = []"
  have env: "pred_state (list_all2 ?v [0..<nEnv])
      (traverse_list (\<lambda>j. do { h \<leftarrow> shortHex L;
         State_Monad.return \<lparr>ev_Name = ''VAR_'' @ nitoa i @ ''_'' @ nitoa j, ev_Value = Some (Literal (''v'' @ h))\<rparr> }) [0..<nEnv])"
    by (rule pred_traverse, rule pred_bind [OF shortHex_pred])
      (simp add: env_var_violations_def var_name_pattern [simplified])
  show ?thesis unfolding container_def Let_def
  proof (rule pred_bind [OF env])
    fix es assume es: "list_all2 ?v [0..<nEnv] es"
    then have len: "length es = nEnv" and ok: "\<forall>e\<in>set es. env_var_violations e = []"
      by (auto dest: list_all2_lengthD simp: list_all2_conv_all_nth in_set_conv_nth)
    show "pred_state (container_ok i) (State_Monad.return
         \<lparr>ct_Name = ''app-'' @ nitoa i,
          ct_Image = Some \<lparr>im_Repository = ''registry.example/app'', im_Ref = Some (Tag ''v1.2.3'')\<rparr>,
          ct_Command = [], ct_Args = [], ct_Env = es,
          ct_Ports = map (\<lambda>j. \<lparr>po_Name = ''p'' @ nitoa i @ ''-'' @ nitoa j, po_ContainerPort = int (8000 + i * 10 + j) mod 2 ^ 32, po_Protocol = 1\<rparr>)
            [0..<nPorts],
          ct_Resources = Some resources_of,
          ct_WorkingDir = (if w then Some ''/srv/app'' else None)\<rparr>)"
      using assms length_nitoa [of i] app_name_pattern [of i] len ok distinct_ports [of i nPorts]
      by (simp add: container_ok_def container_violations_def image_ok resources_ok port_violations_def comp_def)
  qed
qed

lemma fixtures_in:
  "f \<in> set AllFixtures \<longleftrightarrow> f \<in> {''tiny'', ''small'', ''medium'', ''large'', ''max'', ''sparse'', ''dense''}"
  by (simp add: AllFixtures_def)

definition run_id_chars :: "string \<Rightarrow> bool" where
  "run_id_chars s \<longleftrightarrow> list_all (\<lambda>c. is_alnum c \<or> c \<in> {CHR ''.'', CHR ''_'', CHR ''-''}) s"

lemma proto_bench_chars: "run_id_chars ''proto-bench''"
  by (simp add: run_id_chars_def is_alnum_def is_alpha_def is_lower_def in_range_def)

lemma envelope_ok: "f \<in> set AllFixtures \<Longrightarrow> envelope_violations (envelope_of L c f sq) = []"
  unfolding envelope_of_def
  by (rule with_rand_pred, rule pred_bind [OF pred_any], rule pred_bind [OF pred_any])
    (use proto_bench_chars in \<open>simp add: envelope_violations_def zero_envelope_def fixtures_in run_id_chars_def\<close>)

lemma strMap_ok:
  assumes "n \<le> 64" "length p \<le> 32"
  shows "pairs_violations q 64 (\<lambda>k. 1 \<le> length k \<and> length k \<le> 63) (\<lambda>v. length v \<le> 63) (strMap p n) = []"
    and "pairs_violations q 64 (\<lambda>k. True) (\<lambda>v. length v \<le> 4096) (strMap p n) = []"
proof -
  have "length (nitoa i) \<le> 2" if "i < n" for i
    using that assms(1) by (intro length_nitoa) simp
  with assms show "pairs_violations q 64 (\<lambda>k. 1 \<le> length k \<and> length k \<le> 63) (\<lambda>v. length v \<le> 63) (strMap p n) = []"
    and "pairs_violations q 64 (\<lambda>k. True) (\<lambda>v. length v \<le> 4096) (strMap p n) = []"
    by (fastforce simp: pairs_violations_def strMap_def list_all_iff)+
qed

lemma empty_pairs [simp]: "pairs_violations p n key val [] = []"
  by (simp add: pairs_violations_def)

lemma containers_ok:
  assumes "list_all2 container_ok [0..<n] cs"
  shows "length cs = n" "\<forall>ct\<in>set cs. container_violations ct = []" "distinct (map ct_Name cs)"
proof -
  show len: "length cs = n" using assms by (auto dest: list_all2_lengthD)
  show "\<forall>ct\<in>set cs. container_violations ct = []"
    using assms by (auto simp: list_all2_conv_all_nth in_set_conv_nth container_ok_def)
  have "map ct_Name cs = map (\<lambda>i. ''app-'' @ nitoa i) [0..<n]"
    using assms len by (intro nth_equalityI) (auto simp: list_all2_conv_all_nth container_ok_def)
  then show "distinct (map ct_Name cs)" by (simp add: distinct_map inj_on_def)
qed

lemma many_containers:
  "list_all2 container_ok [0..<n] cs \<Longrightarrow> length cs = n \<and> (\<forall>ct\<in>set cs. container_violations ct = []) \<and> distinct (map ct_Name cs)"
  using containers_ok by blast

lemma single_container: "container_ok 0 ct \<Longrightarrow> container_violations ct = []"
  by (simp add: container_ok_def)

text \<open>The shape of the default specification, which the invalid cases change.\<close>

definition medium_spec :: "workload_spec \<Rightarrow> bool" where
  "medium_spec s \<longleftrightarrow>
     (\<exists>cr ct. cluster_ref_violations cr = [] \<and> container_ok 0 ct \<and>
        s = \<lparr>sp_Kind = 1, sp_Containers = [ct], sp_Replicas = 3, sp_RestartPolicy = 1, sp_Placement = Some (Some (Cluster cr)),
             sp_Labels = strMap ''label'' 4, sp_Annotations = [], sp_TtlAfterFinished = None, sp_Schedule = None\<rparr>)"

lemma spec_medium:
  assumes "rand_ok L"
  shows "pred_state medium_spec (spec_of L Medium)"
proof -
  have ct: "pred_state (container_ok 0) (container L 0 4 2 False)" by (rule container_pred) simp_all
  show ?thesis unfolding spec_of_def Let_def
    by (rule pred_bind [OF clusterRef_pred [OF assms]]) (auto simp: medium_spec_def intro!: pred_bind [OF ct])
qed

lemmas spec_ok_simps = spec_violations_def placement_violations_def strMap_ok strMap_ok(1) [simplified] single_container

lemma spec_pred:
  assumes "rand_ok L"
  shows "pred_state (\<lambda>s. spec_violations s = []) (spec_of L f)"
proof -
  have one: "pred_state (container_ok 0) (container L 0 e p w)" if "e \<le> 128" "p \<le> 16" for e p w
    using that by (intro container_pred) simp_all
  have many: "pred_state (list_all2 container_ok [0..<8])
      (traverse_list (\<lambda>i. container L i (if i = 0 then 32 else 4) 2 False) [0..<8])"
    by (rule pred_traverse, rule container_pred) simp_all
  show ?thesis unfolding spec_of_def Let_def
  proof (rule pred_bind [OF clusterRef_pred [OF assms]], intro pred_if, goal_cases)
    case (1 cr)
    show ?case
      by (rule pred_bind [OF many], drule many_containers) (use 1 in \<open>simp add: spec_ok_simps\<close>)
  next
    case (2 cr)
    show ?case by (rule pred_bind [OF one], simp, simp) (use 2 in \<open>simp add: spec_ok_simps\<close>)
  next
    case (3 cr)
    show ?case by (rule pred_bind [OF one], simp, simp) (use 3 in \<open>simp add: spec_ok_simps\<close>)
  next
    case (4 cr)
    show ?case by (rule pred_bind [OF one], simp, simp) (use 4 in \<open>simp add: spec_ok_simps\<close>)
  qed
qed

lemma Deploy_ok:
  assumes "rand_ok L" "f \<in> set AllFixtures"
  shows "deploy_violations (Deploy L c f) = []"
  unfolding Deploy_def Let_def
proof (rule with_rand_pred, rule pred_bind [OF workloadRef_pred [OF assms(1)]], rule pred_bind [OF randUUID_pred [OF assms(1)]],
    intro pred_if, goal_cases)
  case (1 ref key)
  then show ?case using assms(2) by (simp add: deploy_violations_def op_violations_def envelope_ok)
next
  case (2 ref key)
  show ?case
    by (rule pred_bind [OF spec_pred [OF assms(1)]]) (use 2 assms(2) in \<open>simp add: deploy_violations_def op_violations_def envelope_ok\<close>)
qed

lemma logChunk_ok:
  assumes "f \<in> set AllFixtures" "n \<le> 1048576"
  shows "log_chunk_violations (logChunk L c f salt n) = [] \<and> length (lc_Data (logChunk L c f salt n)) = n"
  unfolding logChunk_def
  by (rule with_rand_pred, rule pred_bind [OF randBytes_pred], rule pred_bind [OF shortHex_pred])
    (use assms in \<open>simp add: log_chunk_violations_def envelope_ok\<close>)

lemma medium_fixture [simp]: "Medium \<in> set AllFixtures"
  by (simp add: AllFixtures_def)

lemma max_fixture [simp]: "Max_fixture \<in> set AllFixtures"
  by (simp add: AllFixtures_def)

definition state_ok :: "nat \<Rightarrow> container_state \<Rightarrow> bool" where
  "state_ok i s \<longleftrightarrow> container_state_violations s = [] \<and> st_Name s = ''app-'' @ nitoa i"

lemma states_ok:
  assumes "list_all2 state_ok [0..<n] cs"
  shows "length cs = n \<and> (\<forall>s\<in>set cs. container_state_violations s = []) \<and> distinct (map st_Name cs)"
proof -
  have len: "length cs = n" using assms by (auto dest: list_all2_lengthD)
  have "map st_Name cs = map (\<lambda>i. ''app-'' @ nitoa i) [0..<n]"
    using assms len by (intro nth_equalityI) (auto simp: list_all2_conv_all_nth state_ok_def)
  then have "distinct (map st_Name cs)" by (simp add: distinct_map inj_on_def)
  with assms len show ?thesis by (auto simp: list_all2_conv_all_nth in_set_conv_nth state_ok_def)
qed

lemma Telemetry_ok:
  assumes "rand_ok L" "n \<le> 16"
  shows "telemetry_violations (Telemetry L c n) = []"
proof -
  have cs: "pred_state (list_all2 state_ok [0..<n])
      (traverse_list (\<lambda>i. do { k \<leftarrow> IntN L 3;
         State_Monad.return \<lparr>st_Name = ''app-'' @ nitoa i, st_Phase = 3, st_RestartCount = int k, st_ExitCode = None,
           st_StartedAt = Some baseTime, st_ImageDigest = None\<rparr> }) [0..<n])"
    by (rule pred_traverse, rule pred_bind [OF pred_any]) (simp add: state_ok_def container_state_violations_def)
  note draw = pred_bind [OF pred_any]
  show ?thesis unfolding Telemetry_def
    by (rule with_rand_pred, rule pred_bind [OF cs], rule pred_bind [OF workloadRef_pred [OF assms(1)]],
        rule pred_bind [OF clusterRef_pred [OF assms(1)]], rule pred_bind [OF shortHex_pred], rule draw, rule draw, rule draw,
        rule draw, rule draw, drule states_ok)
      (use assms(2) in \<open>simp add: telemetry_violations_def envelope_ok\<close>)
qed

definition reading_ok :: "nat \<Rightarrow> meter_reading \<Rightarrow> bool" where
  "reading_ok i r \<longleftrightarrow> meter_violations r = [] \<and> mr_Meter r = meters ! i"

lemma readings_ok:
  assumes "list_all2 reading_ok [0..<n] rs" "n \<le> 5"
  shows "length rs = n \<and> (\<forall>r\<in>set rs. meter_violations r = []) \<and> distinct (map mr_Meter rs)"
proof -
  have len: "length rs = n" using assms by (auto dest: list_all2_lengthD)
  have "map mr_Meter rs = take n meters"
    using assms len by (intro nth_equalityI) (auto simp: list_all2_conv_all_nth reading_ok_def meters_def)
  moreover have "distinct meters" by (simp add: meters_def)
  ultimately have "distinct (map mr_Meter rs)" by simp
  with assms len show ?thesis by (auto simp: list_all2_conv_all_nth in_set_conv_nth reading_ok_def)
qed

lemma meter_range: "i < 5 \<Longrightarrow> 0 < meters ! i \<and> meters ! i \<le> 5"
  by (auto simp: meters_def less_Suc_eq numeral_eq_Suc)

lemma reading_ok_built:
  "i < 5 \<Longrightarrow> reading_ok i \<lparr>mr_Meter = meters ! i, mr_Value = Some (Quantity (of_nat q + 1 / 2)), mr_Unit = ''unit''\<rparr>"
  using meter_range [of i] by (simp add: reading_ok_def meter_violations_def)

lemma Usage_ok:
  assumes "rand_ok L" "1 \<le> n"
  shows "usage_violations (Usage L c n) = []"
proof -
  define k where "k = (if n > length meters then length meters else n)"
  have k: "1 \<le> k" "k \<le> 5" using assms(2) by (auto simp: k_def meters_def)
  have rs: "pred_state (list_all2 reading_ok [0..<k])
      (traverse_list (\<lambda>i. do { q \<leftarrow> IntN L 1000;
         State_Monad.return \<lparr>mr_Meter = meters ! i, mr_Value = Some (Quantity (of_nat q + 1 / 2)), mr_Unit = ''unit''\<rparr> }) [0..<k])"
    by (rule pred_traverse, rule pred_bind [OF pred_any])
      (use k in \<open>simp add: reading_ok_built\<close>)
  show ?thesis unfolding Usage_def Let_def k_def [symmetric]
    by (rule with_rand_pred, rule pred_bind [OF rs], rule pred_bind [OF workloadRef_pred [OF assms(1)]],
        rule pred_bind [OF clusterRef_pred [OF assms(1)]], rule pred_bind [OF randUUID_pred [OF assms(1)]], drule readings_ok, rule k)
      (use k in \<open>simp add: usage_violations_def envelope_ok or_epoch_def\<close>)
qed

lemma Message_ok:
  assumes "rand_ok L" "f \<in> set AllFixtures"
  shows "\<exists>m. Message L c f = Inr m \<and> violations m = []"
proof -
  have "Message L c f \<in> {Inr (Ping L c), Inr (DeployRequest (Deploy L c f)), Inr (LogChunk_Msg (LogChunk L c Max_fixture))}"
    using assms(2) by (auto simp: AllFixtures_def Message_def)
  moreover have "violations (Ping L c) = []"
    by (simp add: violations_def Ping_def envelope_ok AllFixtures_def)
  moreover have "violations (DeployRequest (Deploy L c f)) = []"
    using Deploy_ok [OF assms] by (simp add: violations_def)
  moreover have "violations (LogChunk_Msg (LogChunk L c Max_fixture)) = []"
    by (simp add: violations_def LogChunk_def logChunk_ok)
  ultimately show ?thesis by auto
qed

subsection \<open>A concrete library\<close>

text \<open>A counter for a generator, and the text form of a UUID.\<close>

definition hex_byte :: "8 word \<Rightarrow> string" where
  "hex_byte b = [hex_digit (unat b div 16), hex_digit (unat b mod 16)]"

definition uuid_of_bytes :: "bytes \<Rightarrow> string" where
  "uuid_of_bytes b =
     (let h = concat (map hex_byte b)
      in take 8 h @ ''-'' @ take 4 (drop 8 h) @ ''-'' @ take 4 (drop 12 h) @ ''-'' @ take 4 (drop 16 h) @ ''-'' @ drop 20 h)"

definition sample_lib :: "u64 lib" where
  "sample_lib = \<lparr>l_NewPCG = (\<lambda>a b. a XOR b), l_Uint64 = (\<lambda>g. (g, g + 1)), l_Uint32 = (\<lambda>g. (ucast g, g + 1)),
     l_IntN = (\<lambda>n g. (unat g mod n, g + 1)), l_uuid_String = uuid_of_bytes\<rparr>"

lemma is_hex_digit: "n < 16 \<Longrightarrow> is_hex (hex_digit n)"
  by (auto simp: is_hex_def hex_digit_def is_digit_def in_range_def)

lemma hex_byte_hex: "list_all is_hex (hex_byte b)" "length (hex_byte b) = 2"
  using unsigned_less [of b, where ?'a = nat] by (simp_all add: hex_byte_def is_hex_digit less_mult_imp_div_less)

lemma hex_bytes_hex: "list_all is_hex (concat (map hex_byte b))" "length (concat (map hex_byte b)) = 2 * length b"
  by (induction b) (simp_all add: hex_byte_hex)

lemma list_all_enumerate: "list_all (\<lambda>(i, c). P i c) (enumerate n xs) \<longleftrightarrow> (\<forall>i < length xs. P (n + i) (xs ! i))"
  by (auto simp: list_all_length nth_enumerate_eq)

lemma uuid_of_bytes_text: "length b = 16 \<Longrightarrow> uuid_text (uuid_of_bytes b)"
proof -
  assume len: "length b = 16"
  define h where "h = concat (map hex_byte b)"
  have h: "length h = 32" "\<And>i. i < 32 \<Longrightarrow> is_hex (h ! i)"
    using hex_bytes_hex [of b] len by (auto simp: h_def list_all_length)
  have "length (uuid_of_bytes b) = 36" by (simp add: uuid_of_bytes_def Let_def h_def [symmetric] h(1))
  moreover have "list_all (\<lambda>(i, c). if i \<in> {8, 13, 18, 23} then c = CHR ''-'' else is_hex c) (enumerate 0 (uuid_of_bytes b))"
    unfolding list_all_enumerate uuid_of_bytes_def Let_def h_def [symmetric]
    by (auto simp: h nth_append nth_Cons')
  ultimately show ?thesis by (simp add: uuid_text_def)
qed

lemma sample_rand_ok: "rand_ok sample_lib"
  by (simp add: rand_ok_def sample_lib_def uuid_of_bytes_text)

subsection \<open>The invalid messages\<close>

definition base_ok :: "(workload_spec \<Rightarrow> deploy_op) \<Rightarrow> deploy_request \<Rightarrow> bool" where
  "base_ok mk d \<longleftrightarrow>
     (\<exists>e ref s key t. envelope_violations e = [] \<and> workload_ref_violations ref = [] \<and> medium_spec s \<and> uuid_text key \<and>
        d = \<lparr>dr_Envelope = Some e, dr_Ref = Some ref, dr_Op = Some (mk s), dr_IdempotencyKey = key, dr_RequestedAt = Some t\<rparr>)"

lemma base_pred:
  assumes "rand_ok L"
  shows "pred_state (base_ok mk)
      (do { ref \<leftarrow> workloadRef L; key \<leftarrow> randUUID L; s \<leftarrow> spec_of L Medium;
            State_Monad.return \<lparr>dr_Envelope = Some (envelope_of L c Medium 2), dr_Ref = Some ref, dr_Op = Some (mk s),
              dr_IdempotencyKey = key, dr_RequestedAt = Some baseTime\<rparr> })"
  by (rule pred_bind [OF workloadRef_pred [OF assms]], rule pred_bind [OF randUUID_pred [OF assms]], rule pred_bind [OF spec_medium [OF assms]])
    (use envelope_ok [OF medium_fixture, of L c 2] in \<open>auto simp: base_ok_def\<close>)

lemma validBase_ok: "rand_ok L \<Longrightarrow> base_ok Create (validBase L c)"
  unfolding validBase_def by (rule with_rand_pred, rule base_pred)

lemma badMask_ok: "rand_ok L \<Longrightarrow> base_ok (\<lambda>s. Update (Some s) (Some [''bogus_field''])) (badMask L c)"
  unfolding badMask_def by (rule with_rand_pred, rule base_pred)

lemma medium_valid: "medium_spec s \<Longrightarrow> spec_violations s = []"
  by (auto simp: medium_spec_def spec_ok_simps)

lemma create_violations:
  assumes "base_ok Create d" "\<And>s. medium_spec s \<Longrightarrow> spec_violations (g s) = vs"
  shows "violations (DeployRequest (on_create g d)) = under ''create'' vs"
  using assms by (auto simp: base_ok_def violations_def deploy_violations_def on_create_def op_violations_def required_field_def rule_def)

lemma limits_container:
  assumes "container_ok 0 ct"
  shows "container_violations (ct\<lparr>ct_Resources := Some \<lparr>rs_Requests = Some \<lparr>rq_CpuMillis = 200, rq_MemoryBytes = 256 * 2 ^ 20, rq_EphemeralStorageBytes = 0\<rparr>,
        rs_Limits = Some \<lparr>rq_CpuMillis = 100, rq_MemoryBytes = 128 * 2 ^ 20, rq_EphemeralStorageBytes = 0\<rparr>\<rparr>\<rparr>)
     = [(''resources'', ''resources.limits_ge_requests'')]"
proof -
  have "container_violations ct = []" using assms by (rule single_container)
  then show ?thesis unfolding container_violations_def append_is_Nil_conv
    by (elim conjE) (simp add: required_field_def resources_violations_def limits_ge_requests_def resource_quantity_violations_def rule_def under_def)
qed

lemma char_of_zero: "char_of (48 :: nat) = CHR ''0''"
proof -
  have "of_char CHR ''0'' = (48 :: nat)" by simp
  then show ?thesis by (metis char_of_char)
qed

lemma repeated_Cons:
  "repeated_field p f [x] = under (p @ ''[0]'') (f x)"
  "f x = [] \<Longrightarrow> repeated_field p f [x, x] = []"
  by (simp_all add: repeated_field_def itoa_def nat_to_dec.simps [of 0] digit_char.simps char_of_zero)

lemmas invalid_simps = spec_ok_simps rule_def required_field_def repeated_Cons

lemma medium_limits:
  assumes "medium_spec s"
  shows "spec_violations (s\<lparr>sp_Containers := (sp_Containers s)[0 := (sp_Containers s ! 0)\<lparr>ct_Resources := Some
       \<lparr>rs_Requests = Some \<lparr>rq_CpuMillis = 200, rq_MemoryBytes = 256 * 2 ^ 20, rq_EphemeralStorageBytes = 0\<rparr>,
        rs_Limits = Some \<lparr>rq_CpuMillis = 100, rq_MemoryBytes = 128 * 2 ^ 20, rq_EphemeralStorageBytes = 0\<rparr>\<rparr>\<rparr>]\<rparr>)
     = [(''containers[0].resources'', ''resources.limits_ge_requests'')]"
proof -
  from assms obtain cr ct where s: "cluster_ref_violations cr = []" "container_ok 0 ct"
    "s = \<lparr>sp_Kind = 1, sp_Containers = [ct], sp_Replicas = 3, sp_RestartPolicy = 1, sp_Placement = Some (Some (Cluster cr)),
          sp_Labels = strMap ''label'' 4, sp_Annotations = [], sp_TtlAfterFinished = None, sp_Schedule = None\<rparr>"
    unfolding medium_spec_def by blast
  note limits_container [OF s(2), simplified]
  with s(1) show ?thesis unfolding s(3) by (simp add: invalid_simps) (simp add: under_def)
qed

lemma invalid_limits:
  assumes "rand_ok L"
  shows "violations (DeployRequest (limitsLtRequests (validBase L c))) = [(''create.containers[0].resources'', ''resources.limits_ge_requests'')]"
  unfolding limitsLtRequests_def
  by (subst create_violations [OF validBase_ok [OF assms] medium_limits]) (simp_all add: under_def)

lemma medium_names:
  assumes "medium_spec s"
  shows "spec_violations (s\<lparr>sp_Containers := sp_Containers s @ [sp_Containers s ! 0]\<rparr>) = [('''', ''workload_spec.container_names_unique'')]"
proof -
  from assms obtain cr ct where s: "cluster_ref_violations cr = []" "container_ok 0 ct"
    "s = \<lparr>sp_Kind = 1, sp_Containers = [ct], sp_Replicas = 3, sp_RestartPolicy = 1, sp_Placement = Some (Some (Cluster cr)),
          sp_Labels = strMap ''label'' 4, sp_Annotations = [], sp_TtlAfterFinished = None, sp_Schedule = None\<rparr>"
    unfolding medium_spec_def by blast
  from s(1,2) show ?thesis unfolding s(3) by (simp add: invalid_simps)
qed

lemma invalid_names:
  assumes "rand_ok L"
  shows "violations (DeployRequest (dupNames (validBase L c))) = [(''create'', ''workload_spec.container_names_unique'')]"
  unfolding dupNames_def
  by (subst create_violations [OF validBase_ok [OF assms] medium_names]) (simp_all add: under_def)

lemma invalid_cron:
  assumes "rand_ok L"
  shows "violations (DeployRequest (cronNoSchedule (validBase L c))) = [(''create'', ''workload_spec.schedule_iff_cron'')]"
  unfolding cronNoSchedule_def
  by (subst create_violations [OF validBase_ok [OF assms], where vs = "[('''', ''workload_spec.schedule_iff_cron'')]"])
    (auto simp: medium_spec_def spec_ok_simps repeated_field_def under_def rule_def required_field_def)

lemma us_west_pattern: "region_pattern ''us-west-2''"
  using regions_pattern [of 0] by (simp add: regions_def)

lemma invalid_rtt:
  assumes "rand_ok L"
  shows "violations (DeployRequest (badRtt (validBase L c))) = [(''create.placement.latency_target.max_rtt'', ''duration.gt_lte'')]"
  unfolding badRtt_def
  by (subst create_violations [OF validBase_ok [OF assms], where vs = "[(''placement.latency_target.max_rtt'', ''duration.gt_lte'')]"])
    (auto simp: medium_spec_def spec_ok_simps repeated_field_def under_def rule_def required_field_def us_west_pattern)

lemma invalid_mask:
  assumes "rand_ok L"
  shows "violations (DeployRequest (badMask L c)) = [(''update'', ''update_workload.mask_paths'')]"
  using badMask_ok [OF assms, of c]
  by (auto simp: base_ok_def violations_def deploy_violations_def op_violations_def required_field_def rule_def under_def mask_paths_def medium_valid)

lemma invalid_sha:
  assumes "rand_ok L"
  shows "violations (DeployRequest (badSha (validBase L c))) = [(''envelope.request_sha256'', ''envelope.sha256_len'')]"
proof -
  have sha: "envelope_violations (e\<lparr>RequestSha256 := replicate 31 0\<rparr>) = [(''request_sha256'', ''envelope.sha256_len'')]"
    if "envelope_violations e = []" for e
    using that unfolding envelope_violations_def append_is_Nil_conv by (elim conjE) (simp add: rule_def)
  show ?thesis using validBase_ok [OF assms, of c]
    by (auto simp: base_ok_def badSha_def violations_def deploy_violations_def op_violations_def required_field_def rule_def under_def medium_valid sha)
qed

section \<open>Properties\<close>

text \<open>C20. Whatever the seed, every fixture the benchmark can name is built and passes every rule of the schema; so do the
  telemetry samples of at most 16 containers, the usage records of at least one reading and the log chunks of
  at most a megabyte, which carry exactly the bytes asked for.\<close>

theorem corpus_valid:
  assumes "rand_ok L" "n \<le> 16" "1 \<le> k" "b \<le> 1048576"
  shows "(\<forall>f \<in> set AllFixtures. \<exists>m. Message L (New seed) f = Inr m \<and> violations m = []) \<and>
    violations (TelemetrySample (Telemetry L (New seed) n)) = [] \<and>
    violations (UsageRecord (Usage L (New seed) k)) = [] \<and>
    violations (LogChunk_Msg (LogChunkBytes L (New seed) b)) = [] \<and>
    length (lc_Data (LogChunkBytes L (New seed) b)) = b"
  using Message_ok [OF assms(1)] Telemetry_ok [OF assms(1,2)] Usage_ok [OF assms(1,3)]
    logChunk_ok [OF max_fixture assms(4)]
  by (simp add: violations_def LogChunkBytes_def)

lemma corpus_valid_witness:
  "(\<exists>m. Message sample_lib (New 42) Dense = Inr m \<and> violations m = []) \<and>
    violations (TelemetrySample (Telemetry sample_lib (New 42) 16)) = [] \<and>
    violations (UsageRecord (Usage sample_lib (New 42) 5)) = [] \<and>
    violations (LogChunk_Msg (LogChunkBytes sample_lib (New 42) 4096)) = [] \<and>
    length (lc_Data (LogChunkBytes sample_lib (New 42) 4096)) = 4096"
  using corpus_valid [OF sample_rand_ok, of 16 5 4096 42] by (simp add: AllFixtures_def)

lemma invalid_case_exact:
  assumes "rand_ok L" "ic \<in> set (InvalidCases L c)"
  shows "\<exists>p r. violations (ic_Message ic) = [(p, r)] \<and> (r = ic_WantContains ic \<or> Contains p (ic_WantContains ic))"
proof -
  note cases = invalid_limits invalid_names invalid_cron invalid_mask invalid_sha invalid_rtt
  from assms(2) show ?thesis unfolding InvalidCases_def Let_def by (auto simp: cases [OF assms(1)])
qed

text \<open>C21. Each message of the invalid corpus breaks exactly one rule of the schema, and it is the rule, or the field, the case names.\<close>

theorem corpus_invalid:
  assumes "rand_ok L" "ic \<in> set (InvalidCases L (New seed))"
  shows "\<exists>p r. violations (ic_Message ic) = [(p, r)] \<and> (r = ic_WantContains ic \<or> Contains p (ic_WantContains ic))"
  using assms by (rule invalid_case_exact)

lemma corpus_invalid_witness:
  "\<exists>p r. violations (ic_Message (InvalidCases sample_lib (New 42) ! 2)) = [(p, r)] \<and>
     (r = ''workload_spec.schedule_iff_cron'' \<or> Contains p ''workload_spec.schedule_iff_cron'')"
proof -
  have "InvalidCases sample_lib (New 42) ! 2 \<in> set (InvalidCases sample_lib (New 42))"
    by (rule nth_mem) (simp add: InvalidCases_def Let_def)
  moreover have "ic_WantContains (InvalidCases sample_lib (New 42) ! 2) = ''workload_spec.schedule_iff_cron''"
    by (simp add: InvalidCases_def Let_def)
  ultimately show ?thesis using corpus_invalid [OF sample_rand_ok] by metis
qed

text \<open>A name that is no fixture is refused with an error that quotes it, and \<open>Sizes\<close> never fails: it reports one
  size for every fixture, in the canonical order.\<close>

lemma Message_unknown: "f \<notin> set AllFixtures \<Longrightarrow> Message L c f = Inl (Opaque (''corpus: unknown fixture '' @ quoted f))"
  by (simp add: Message_def AllFixtures_def)

lemma Message_built: "f \<in> set AllFixtures \<Longrightarrow> \<exists>m. Message L c f = Inr m"
  by (auto simp: AllFixtures_def Message_def)

lemma sizes_loop_ok:
  "set fs \<subseteq> set AllFixtures \<Longrightarrow> \<exists>ns. sizes_loop L psize c fs out = Inr (out @ zip fs ns) \<and> length ns = length fs"
proof (induction fs arbitrary: out)
  case (Cons f fs)
  then have f: "f \<in> set AllFixtures" and fs: "set fs \<subseteq> set AllFixtures" by simp_all
  from Message_built [OF f] obtain m where m: "Message L c f = Inr m" ..
  from Cons.IH [OF fs, of "out @ [(f, psize m)]"] obtain ns
    where "sizes_loop L psize c fs (out @ [(f, psize m)]) = Inr ((out @ [(f, psize m)]) @ zip fs ns)" "length ns = length fs"
    by blast
  with m show ?case by (intro exI [of _ "psize m # ns"]) simp
qed simp

lemma Sizes_total: "\<exists>out. Sizes L psize c = Inr out \<and> map fst out = AllFixtures"
  using sizes_loop_ok [of AllFixtures L psize c "[]"] by (auto simp: Sizes_def)

end
