(* ===== verification/Correctness.thy ===== *)
theory Correctness
  imports Corpus Driver "HOL-Library.Countable"
begin

text \<open>
  The correctness pass of the benchmark (\<open>clients/workloads/benchcli/correctness.go\<close>, with \<open>grpcPair\<close> and
  \<open>busPair\<close>): the in-process checks of every codec on every fixture, of the determinism of the corpus and of
  the validation rules, the round trips through a live transport, and the report that turns them into the
  exit status.

  The codecs, the deterministic marshaller, the validator and the hash are the record \<open>check_lib\<close>; what the
  pass relies on of them is \<open>check_lib_ok\<close>, the documented behaviour of the libraries.  The transport of a
  live check answers through an \<open>exchange\<close> of the request driver.
\<close>

section \<open>Checks\<close>

record check =
  ck_group :: string
  ck_name :: string
  ck_status :: string
  ck_detail :: string

definition pass :: "string \<Rightarrow> string \<Rightarrow> string \<Rightarrow> check" where
  "pass g n d = \<lparr>ck_group = g, ck_name = n, ck_status = ''ok'', ck_detail = d\<rparr>"

definition fail :: "string \<Rightarrow> string \<Rightarrow> string \<Rightarrow> check" where
  "fail g n d = \<lparr>ck_group = g, ck_name = n, ck_status = ''FAIL'', ck_detail = d\<rparr>"

definition skip :: "string \<Rightarrow> string \<Rightarrow> string \<Rightarrow> check" where
  "skip g n d = \<lparr>ck_group = g, ck_name = n, ck_status = ''skip'', ck_detail = d\<rparr>"

definition failed :: "check \<Rightarrow> bool" where
  "failed c \<longleftrightarrow> ck_status c = ''FAIL''"

text \<open>The dynamic type of a message, as \<open>%T\<close> prints it.\<close>

fun go_type :: "wl_message \<Rightarrow> string" where
  "go_type (PingRequest e) = ''*workloadsv1.PingRequest''"
| "go_type (DeployRequest d) = ''*workloadsv1.DeployRequest''"
| "go_type (LogChunk_Msg l) = ''*workloadsv1.LogChunk''"
| "go_type (TelemetrySample t) = ''*workloadsv1.TelemetrySample''"
| "go_type (UsageRecord u) = ''*workloadsv1.UsageRecord''"

record check_lib =
  k_marshal :: "codec \<Rightarrow> wl_message \<Rightarrow> gerr + bytes"
  k_unmarshal :: "codec \<Rightarrow> string \<Rightarrow> bytes \<Rightarrow> gerr + wl_message"
  k_det :: "nat \<Rightarrow> wl_message \<Rightarrow> gerr + bytes"
  k_validate :: "wl_message \<Rightarrow> gerr option"
  k_sha256 :: "bytes \<Rightarrow> bytes"

text \<open>\<open>k_unmarshal\<close> takes the type of the fresh target; the first argument of \<open>k_det\<close> is the number of the
  call, so its stability is a law and not a matter of notation.\<close>

definition check_lib_ok :: "check_lib \<Rightarrow> bool" where
  "check_lib_ok K \<longleftrightarrow>
     (\<forall>c m. violations m = [] \<longrightarrow> (\<exists>w. k_marshal K c m = Inr w \<and> k_unmarshal K c (go_type m) w = Inr m)) \<and>
     (\<forall>i m. violations m = [] \<longrightarrow> (\<exists>w. k_det K i m = Inr w)) \<and>
     (\<forall>i j m. k_det K i m = k_det K j m) \<and>
     (\<forall>m. k_validate K m = None \<longleftrightarrow> violations m = []) \<and>
     (\<forall>m e p r. k_validate K m = Some e \<longrightarrow> (p, r) \<in> set (violations m) \<longrightarrow> Contains (Error e) p \<and> Contains (Error e) r)"

section \<open>Codecs\<close>

record namedCodec =
  nc_name :: string
  nc_codec :: codec
  nc_enum :: wl_codec

fun parse_names :: "string list \<Rightarrow> namedCodec list \<Rightarrow> gerr + namedCodec list" where
  "parse_names [] out = Inr out"
| "parse_names (part # names) out =
     (let name = TrimSpace part in
      if name = '''' then parse_names names out
      else (case ByName name of
              Inl err \<Rightarrow> Inl err
            | Inr cdc \<Rightarrow>
                (case codecEnum name of
                   Inl err \<Rightarrow> Inl err
                 | Inr en \<Rightarrow> parse_names names (out @ [\<lparr>nc_name = name, nc_codec = cdc, nc_enum = en\<rparr>]))))"

definition parseCodecs :: "string \<Rightarrow> gerr + namedCodec list" where
  "parseCodecs csv =
     (case parse_names (Split (CHR '','') csv) [] of
        Inl err \<Rightarrow> Inl err
      | Inr out \<Rightarrow> if length out = 0 then Inl (Opaque ''no codecs selected'') else Inr out)"

definition codec_check :: "'g lib \<Rightarrow> check_lib \<Rightarrow> corpus \<Rightarrow> namedCodec \<Rightarrow> fixture \<Rightarrow> check" where
  "codec_check L K c nc f =
     (let label = nc_name nc @ ''/'' @ f in
      case Corpus.Message L c f of
        Inl err \<Rightarrow> fail ''codec-roundtrip'' label (Error err)
      | Inr msg \<Rightarrow>
          (case k_marshal K (nc_codec nc) msg of
             Inl err \<Rightarrow> fail ''codec-roundtrip'' label (''marshal: '' @ Error err)
           | Inr wire \<Rightarrow>
               (case k_unmarshal K (nc_codec nc) (go_type msg) wire of
                  Inl err \<Rightarrow> fail ''codec-roundtrip'' label (''unmarshal: '' @ Error err)
                | Inr got \<Rightarrow>
                    (if msg \<noteq> got then fail ''codec-roundtrip'' label ''decoded message not proto.Equal to fixture''
                     else pass ''codec-roundtrip'' label (nitoa (length wire) @ '' bytes'')))))"

definition codecRoundTrip :: "'g lib \<Rightarrow> check_lib \<Rightarrow> corpus \<Rightarrow> namedCodec list \<Rightarrow> check list" where
  "codecRoundTrip L K c codecs = concat (map (\<lambda>nc. map (codec_check L K c nc) AllFixtures) codecs)"

section \<open>Determinism and validation\<close>

definition determinism_check :: "'g lib \<Rightarrow> check_lib \<Rightarrow> corpus \<Rightarrow> fixture \<Rightarrow> check" where
  "determinism_check L K c f =
     (case Corpus.Message L c f of
        Inl err \<Rightarrow> fail ''corpus-determinism'' f (Error err)
      | Inr msg \<Rightarrow>
          (case k_det K 0 msg of
             Inl err \<Rightarrow> fail ''corpus-determinism'' f (Error err)
           | Inr a \<Rightarrow>
               (let b = (case k_det K 1 msg of Inl err \<Rightarrow> [] | Inr w \<Rightarrow> w) in
                if a \<noteq> b then fail ''corpus-determinism'' f ''deterministic marshal not byte-stable''
                else pass ''corpus-determinism'' f
                       (''sha256='' @ concat (map hex_byte (take 4 (k_sha256 K a))) @ [CHR 0xE2, CHR 0x80, CHR 0xA6]))))"

definition corpusDeterminism :: "'g lib \<Rightarrow> check_lib \<Rightarrow> corpus \<Rightarrow> check list" where
  "corpusDeterminism L K c = map (determinism_check L K c) AllFixtures"

text \<open>\<open>compact\<close>, on the characters of the error text.\<close>

fun compact_from :: "bool \<Rightarrow> string \<Rightarrow> string" where
  "compact_from prevSpace [] = []"
| "compact_from prevSpace (r # rs) =
     (let r = (if r = CHR 0x0A \<or> r = CHR 0x09 then CHR '' '' else r) in
      if r = CHR '' '' then (if prevSpace then compact_from prevSpace rs else r # compact_from True rs)
      else r # compact_from False rs)"

definition compact :: "gerr option \<Rightarrow> string" where
  "compact err = (case err of None \<Rightarrow> ''OK (unexpected)'' | Some e \<Rightarrow> compact_from False (Error e))"

definition valid_check :: "'g lib \<Rightarrow> check_lib \<Rightarrow> corpus \<Rightarrow> fixture \<Rightarrow> check" where
  "valid_check L K c f =
     (case k_validate K (DeployRequest (Corpus.Deploy L c f)) of
        Some err \<Rightarrow> fail ''validate-valid'' f (compact (Some err))
      | None \<Rightarrow> pass ''validate-valid'' f ''passes'')"

definition invalid_check :: "check_lib \<Rightarrow> invalid_case \<Rightarrow> check" where
  "invalid_check K ic =
     (case k_validate K (ic_Message ic) of
        None \<Rightarrow> fail ''validate-invalid'' (ic_Description ic) ''expected a violation, got none''
      | Some err \<Rightarrow>
          (if \<not> Contains (Error err) (ic_WantContains ic)
           then fail ''validate-invalid'' (ic_Description ic) (''missing '' @ quoted (ic_WantContains ic) @ '': '' @ compact (Some err))
           else pass ''validate-invalid'' (ic_Description ic) (ic_WantContains ic)))"

definition deploy_fixtures :: "fixture list" where
  "deploy_fixtures = [Small, Medium, Large, Sparse, Dense]"

definition validationChecks :: "'g lib \<Rightarrow> check_lib \<Rightarrow> corpus \<Rightarrow> check list" where
  "validationChecks L K c = map (valid_check L K c) deploy_fixtures @ map (invalid_check K) (InvalidCases L c)"

section \<open>Live transports\<close>

definition wireFormat :: "string \<Rightarrow> string" where
  "wireFormat codecName = (if codecName = ''protojson'' then ''json'' else ''binary'')"

definition transportEnum :: "string \<Rightarrow> wl_transport option" where
  "transportEnum name =
     (if name = ''grpc'' then Some TRANSPORT_GRPC_UNARY
      else if name = ''nats'' then Some TRANSPORT_NATS_REQUEST_REPLY
      else if name = ''rabbitmq'' then Some TRANSPORT_RABBITMQ_RPC
      else if name = ''valkey'' then Some TRANSPORT_VALKEY_STREAM
      else None)"

fun GetEnvelope :: "wl_message \<Rightarrow> envelope option" where
  "GetEnvelope (PingRequest e) = e"
| "GetEnvelope (DeployRequest d) = dr_Envelope d"
| "GetEnvelope (LogChunk_Msg l) = lc_Envelope l"
| "GetEnvelope (TelemetrySample t) = te_Envelope t"
| "GetEnvelope (UsageRecord u) = ur_Envelope u"

definition grpcPair :: "'g lib \<Rightarrow> corpus \<Rightarrow> fixture \<Rightarrow> gerr + wl_message" where
  "grpcPair L c f =
     (case Corpus.Message L c f of
        Inl err \<Rightarrow> Inl err
      | Inr m \<Rightarrow>
          (case m of
             PingRequest e \<Rightarrow> Inr m
           | DeployRequest d \<Rightarrow> Inr m
           | _ \<Rightarrow> Inl (Opaque (''fixture '' @ quoted f @ '' ('' @ go_type m @ '') is not a gRPC unary request; use a streaming/bus transport''))))"

definition busPair :: "'g lib \<Rightarrow> corpus \<Rightarrow> fixture \<Rightarrow> gerr + wl_message" where
  "busPair L c f =
     (case Corpus.Message L c f of
        Inl err \<Rightarrow> Inl err
      | Inr m \<Rightarrow>
          (case m of
             DeployRequest d \<Rightarrow> Inr m
           | _ \<Rightarrow> Inl (Opaque (''fixture '' @ quoted f @ '' ('' @ go_type m @ '') is not a bus RPC request; use small|medium|large|sparse|dense''))))"

definition pairFor :: "string \<Rightarrow> 'g lib \<Rightarrow> corpus \<Rightarrow> fixture \<Rightarrow> gerr + wl_message" where
  "pairFor name L c f = (if name = ''grpc'' then grpcPair L c f else busPair L c f)"

text \<open>A request whose message has no envelope would panic in \<open>Fill\<close>: every fixture has one.\<close>

definition oneTransportCheck ::
  "'g lib \<Rightarrow> ('u \<Rightarrow> gerr + bytes) \<Rightarrow> 'u exchange \<Rightarrow> string \<Rightarrow> namedCodec \<Rightarrow> wl_transport \<Rightarrow> fixture \<Rightarrow> corpus \<Rightarrow> string \<Rightarrow> check option" where
  "oneTransportCheck L marshal_uuid ex name nc tenum fx c runID =
     (let label = name @ ''/'' @ nc_name nc @ ''/'' @ fx in
      case pairFor name L c fx of
        Inl err \<Rightarrow> Some (fail ''transport'' label (Error err))
      | Inr req \<Rightarrow>
          (case GetEnvelope req of
             None \<Rightarrow> None
           | Some env0 \<Rightarrow>
               (case Fill (ex_uuid ex) marshal_uuid (ex_now ex) runID 0 (nc_enum nc) tenum fx env0 of
                  Inl err \<Rightarrow> Some (fail ''transport'' label (''fill: '' @ Error err))
                | Inr env \<Rightarrow>
                    (case ex_answer ex env of
                       Inl err \<Rightarrow> Some (fail ''transport'' label (''request: '' @ Error err))
                     | Inr None \<Rightarrow> Some (fail ''transport'' label ''reply did not echo the request message_id'')
                     | Inr (Some re) \<Rightarrow>
                         (if MessageId re \<noteq> MessageId env then Some (fail ''transport'' label ''reply did not echo the request message_id'')
                          else if length (RequestSha256 re) \<noteq> 0 \<and> length (RequestSha256 re) \<noteq> 32
                          then Some (fail ''transport'' label (''request_sha256 length '' @ nitoa (length (RequestSha256 re)) @ '', want 0 or 32''))
                          else Some (pass ''transport'' label
                                  (''message_id echoed'' @ (if length (RequestSha256 re) = 32 then '', sha256 stamped'' else ''''))))))))"

text \<open>The outcomes of the library calls that open a connection, by address; \<open>ev_open\<close> and \<open>ev_close\<close> record what was
  opened and closed.\<close>

record dial_lib =
  dl_grpc :: "string \<Rightarrow> gerr option"
  dl_nats :: "string \<Rightarrow> gerr option"
  dl_rabbitmq :: "string \<Rightarrow> gerr option"
  dl_rabbitmq_requester :: "gerr option"

datatype conn_event = Opened string | Closed string

record bus_flags =
  bf_addr :: string
  bf_user :: string
  bf_pass :: string
  bf_region :: string
  bf_runID :: string
  bf_seed :: u64

definition amqpURL :: "bus_flags \<Rightarrow> string" where
  "amqpURL f = ''amqp://'' @ bf_user f @ '':'' @ bf_pass f @ ''@'' @ bf_addr f @ ''/''"

definition dialForCorrectness :: "dial_lib \<Rightarrow> string \<Rightarrow> bus_flags \<Rightarrow> (gerr + conn_event list) \<times> conn_event list" where
  "dialForCorrectness D name f =
     (if name = ''grpc'' then
        (case dl_grpc D (bf_addr f) of
           Some err \<Rightarrow> (Inl err, [])
         | None \<Rightarrow> (Inr [Closed ''conn''], [Opened ''conn'']))
      else if name = ''nats'' then
        (case dl_nats D (''nats://'' @ bf_addr f) of
           Some err \<Rightarrow> (Inl err, [])
         | None \<Rightarrow> (Inr [Closed ''requester'', Closed ''conn''], [Opened ''conn'', Opened ''requester'']))
      else if name = ''rabbitmq'' then
        (case dl_rabbitmq D (amqpURL f) of
           Some err \<Rightarrow> (Inl err, [])
         | None \<Rightarrow>
             (case dl_rabbitmq_requester D of
                Some err \<Rightarrow> (Inl err, [Opened ''conn'', Closed ''conn''])
              | None \<Rightarrow> (Inr [Closed ''requester'', Closed ''conn''], [Opened ''conn'', Opened ''requester''])))
      else if name = ''valkey'' then (Inr [Closed ''requester'', Closed ''conn''], [Opened ''conn'', Opened ''requester''])
      else (Inl (Opaque (''transport '' @ quoted name @ '' has no request/reply correctness path (mqtt is one-way)'')), []))"

text \<open>What one codec's pass over the transport meets: its dial, the UUID library and the exchange of each fixture.\<close>

record 'u live =
  lv_dial :: dial_lib
  lv_marshal :: "'u \<Rightarrow> gerr + bytes"
  lv_exchange :: "fixture \<Rightarrow> 'u exchange"

fun fixture_checks ::
  "'g lib \<Rightarrow> 'u live \<Rightarrow> string \<Rightarrow> namedCodec \<Rightarrow> wl_transport \<Rightarrow> corpus \<Rightarrow> string \<Rightarrow> fixture list \<Rightarrow> check list option" where
  "fixture_checks L lv name nc tenum c runID [] = Some []"
| "fixture_checks L lv name nc tenum c runID (fx # fxs) =
     (case oneTransportCheck L (lv_marshal lv) (lv_exchange lv fx) name nc tenum fx c runID of
        None \<Rightarrow> None
      | Some ck \<Rightarrow> map_option (\<lambda>cks. ck # cks) (fixture_checks L lv name nc tenum c runID fxs))"

definition transport_fixtures :: "string \<Rightarrow> fixture list" where
  "transport_fixtures name = (if name = ''grpc'' then Tiny # deploy_fixtures else deploy_fixtures)"

definition codec_pass ::
  "'g lib \<Rightarrow> 'u live \<Rightarrow> string \<Rightarrow> string \<Rightarrow> bus_flags \<Rightarrow> wl_transport \<Rightarrow> corpus \<Rightarrow> namedCodec \<Rightarrow> (check list \<times> conn_event list) option" where
  "codec_pass L lv name serverCodec f tenum c nc =
     (if name = ''grpc'' \<and> wireFormat (nc_name nc) \<noteq> wireFormat serverCodec
      then Some ([skip ''transport'' (name @ ''/'' @ nc_name nc)
                    (''gRPC server is -codec='' @ serverCodec @ ''; '' @ nc_name nc @ '' wire format differs (ForceServerCodecV2)'')], [])
      else (case dialForCorrectness (lv_dial lv) name f of
              (Inl err, evs) \<Rightarrow> Some ([fail ''transport'' (name @ ''/'' @ nc_name nc) (''dial: '' @ Error err)], evs)
            | (Inr cleanup, evs) \<Rightarrow>
                map_option (\<lambda>cks. (cks, evs @ cleanup))
                  (fixture_checks L lv name nc tenum c (bf_runID f) (transport_fixtures name))))"

fun codec_passes ::
  "'g lib \<Rightarrow> (namedCodec \<Rightarrow> 'u live) \<Rightarrow> string \<Rightarrow> string \<Rightarrow> bus_flags \<Rightarrow> wl_transport \<Rightarrow> corpus \<Rightarrow> namedCodec list
   \<Rightarrow> (check list \<times> conn_event list) option" where
  "codec_passes L lv name serverCodec f tenum c [] = Some ([], [])"
| "codec_passes L lv name serverCodec f tenum c (nc # ncs) =
     (case codec_pass L (lv nc) name serverCodec f tenum c nc of
        None \<Rightarrow> None
      | Some (cks, evs) \<Rightarrow>
          map_option (\<lambda>(cks', evs'). (cks @ cks', evs @ evs')) (codec_passes L lv name serverCodec f tenum c ncs))"

definition transportChecks ::
  "'g lib \<Rightarrow> (namedCodec \<Rightarrow> 'u live) \<Rightarrow> string \<Rightarrow> string \<Rightarrow> bus_flags \<Rightarrow> namedCodec list \<Rightarrow> corpus \<Rightarrow> (check list \<times> conn_event list) option" where
  "transportChecks L lv name serverCodec f codecs c =
     (case transportEnum name of
        None \<Rightarrow> Some ([fail ''transport'' name ''unknown transport (grpc|nats|rabbitmq|valkey)''], [])
      | Some tenum \<Rightarrow> codec_passes L lv name serverCodec f tenum c codecs)"

section \<open>The report and the pass\<close>

definition count_failed :: "check list \<Rightarrow> int" where
  "count_failed rs = fold (\<lambda>r n. if ck_status r = ''FAIL'' then n + 1 else n) rs 0"

definition count_skipped :: "check list \<Rightarrow> int" where
  "count_skipped rs = fold (\<lambda>r n. if ck_status r = ''skip'' then n + 1 else n) rs 0"

text \<open>The table is aligned by a library writer; the counts of the last line and the error are the result.\<close>

definition reportChecks :: "check list \<Rightarrow> string \<Rightarrow> string \<times> gerr option" where
  "reportChecks results transportName =
     (let scope = (if transportName \<noteq> '''' then ''in-process + '' @ transportName else ''in-process'')
      in (''correctness ('' @ scope @ ''): '' @ nitoa (length results) @ '' checks, '' @ itoa (count_failed results) @ '' failed, '' @
            itoa (count_skipped results) @ '' skipped'',
          if count_failed results > 0 then Some (Opaque (itoa (count_failed results) @ '' correctness check(s) failed'')) else None))"

definition in_process_checks :: "'g lib \<Rightarrow> check_lib \<Rightarrow> corpus \<Rightarrow> namedCodec list \<Rightarrow> check list" where
  "in_process_checks L K c codecs = codecRoundTrip L K c codecs @ corpusDeterminism L K c @ validationChecks L K c"

definition runCorrectness ::
  "'g lib \<Rightarrow> check_lib \<Rightarrow> (namedCodec \<Rightarrow> 'u live) \<Rightarrow> string \<Rightarrow> string \<Rightarrow> string \<Rightarrow> bus_flags \<Rightarrow> (gerr option \<times> check list) option" where
  "runCorrectness L K lv transportName codecsCSV serverCodec f =
     (case parseCodecs codecsCSV of
        Inl err \<Rightarrow> Some (Some err, [])
      | Inr codecs \<Rightarrow>
          (let c = New (bf_seed f);
               results = in_process_checks L K c codecs
           in if transportName = '''' then Some (snd (reportChecks results transportName), results)
              else if bf_addr f = '''' then Some (Some (Opaque (''-addr is required with -transport='' @ transportName)), [])
              else (case transportChecks L lv transportName serverCodec f codecs c of
                      None \<Rightarrow> None
                    | Some (live, evs) \<Rightarrow> Some (snd (reportChecks (results @ live) transportName), results @ live))))"

section \<open>Lemmas\<close>

lemma fold_count: "fold (\<lambda>r n. if P r then n + 1 else n) rs (k :: int) = k + int (length (filter P rs))"
  by (induction rs arbitrary: k) simp_all

lemma count_failed_filter: "count_failed rs = int (length (filter failed rs))"
  by (simp add: count_failed_def fold_count failed_def [abs_def])

lemma check_status [simp]:
  "ck_status (pass g n d) = ''ok''" "ck_status (fail g n d) = ''FAIL''" "ck_status (skip g n d) = ''skip''"
  "\<not> failed (pass g n d)" "failed (fail g n d)" "\<not> failed (skip g n d)"
  by (simp_all add: pass_def fail_def skip_def failed_def)

lemma report_error: "snd (reportChecks rs t) = None \<longleftrightarrow> (\<forall>r\<in>set rs. \<not> failed r)"
  by (auto simp: reportChecks_def Let_def count_failed_filter filter_empty_conv)

lemma check_libD:
  assumes "check_lib_ok K"
  shows "violations m = [] \<Longrightarrow> \<exists>w. k_marshal K c m = Inr w \<and> k_unmarshal K c (go_type m) w = Inr m"
    and "violations m = [] \<Longrightarrow> \<exists>w. \<forall>i. k_det K i m = Inr w"
    and "k_validate K m = None \<longleftrightarrow> violations m = []"
    and "k_validate K m = Some e \<Longrightarrow> (p, r) \<in> set (violations m) \<Longrightarrow> Contains (Error e) p \<and> Contains (Error e) r"
  using assms unfolding check_lib_ok_def by metis+

lemma codec_check_ok:
  assumes "rand_ok L" "check_lib_ok K" "f \<in> set AllFixtures"
  shows "ck_status (codec_check L K c nc f) = ''ok''"
proof -
  obtain m where m: "Corpus.Message L c f = Inr m" "violations m = []" using Message_ok [OF assms(1,3)] by blast
  obtain w where "k_marshal K (nc_codec nc) m = Inr w" "k_unmarshal K (nc_codec nc) (go_type m) w = Inr m"
    using check_libD(1) [OF assms(2) m(2)] by blast
  with m show ?thesis by (simp add: codec_check_def)
qed

lemma determinism_check_ok:
  assumes "rand_ok L" "check_lib_ok K" "f \<in> set AllFixtures"
  shows "ck_status (determinism_check L K c f) = ''ok''"
proof -
  obtain m where m: "Corpus.Message L c f = Inr m" "violations m = []" using Message_ok [OF assms(1,3)] by blast
  obtain w where "\<forall>i. k_det K i m = Inr w" using check_libD(2) [OF assms(2) m(2)] by blast
  with m show ?thesis by (simp add: determinism_check_def)
qed

lemma deploy_fixtures_sub: "f \<in> set deploy_fixtures \<Longrightarrow> f \<in> set AllFixtures"
  by (auto simp: deploy_fixtures_def AllFixtures_def)

lemma valid_check_ok:
  assumes "rand_ok L" "check_lib_ok K" "f \<in> set deploy_fixtures"
  shows "ck_status (valid_check L K c f) = ''ok''"
  using Deploy_ok [OF assms(1) deploy_fixtures_sub [OF assms(3)], of c]
    check_libD(3) [OF assms(2), of "DeployRequest (Corpus.Deploy L c f)"]
  by (simp add: valid_check_def violations_def)

lemma invalid_case_rejected:
  assumes "rand_ok L" "check_lib_ok K" "ic \<in> set (InvalidCases L c)"
  shows "\<exists>e. k_validate K (ic_Message ic) = Some e \<and> Contains (Error e) (ic_WantContains ic)"
proof -
  obtain p r where v: "violations (ic_Message ic) = [(p, r)]" "r = ic_WantContains ic \<or> Contains p (ic_WantContains ic)"
    using invalid_case_exact [OF assms(1,3)] by blast
  then obtain e where e: "k_validate K (ic_Message ic) = Some e"
    using check_libD(3) [OF assms(2), of "ic_Message ic"] by fastforce
  have "Contains (Error e) p \<and> Contains (Error e) r"
    using check_libD(4) [OF assms(2) e, of p r] v(1) by simp
  then have "Contains (Error e) (ic_WantContains ic)" using v(2) Contains_trans by blast
  with e show ?thesis by blast
qed

lemma invalid_check_ok:
  assumes "rand_ok L" "check_lib_ok K" "ic \<in> set (InvalidCases L c)"
  shows "ck_status (invalid_check K ic) = ''ok''"
  using invalid_case_rejected [OF assms] by (auto simp: invalid_check_def pass_def)

lemma in_process_ok:
  assumes "rand_ok L" "check_lib_ok K" "ck \<in> set (in_process_checks L K c codecs)"
  shows "ck_status ck = ''ok''"
  using assms(3) codec_check_ok [OF assms(1,2)] determinism_check_ok [OF assms(1,2)] valid_check_ok [OF assms(1,2)]
    invalid_check_ok [OF assms(1,2)]
  by (auto simp: in_process_checks_def codecRoundTrip_def corpusDeterminism_def validationChecks_def)

lemma in_process_length: "length (in_process_checks L K c codecs) = 7 * length codecs + 18"
  by (simp add: in_process_checks_def codecRoundTrip_def corpusDeterminism_def validationChecks_def length_concat comp_def
      AllFixtures_def deploy_fixtures_def InvalidCases_def Let_def sum_list_triv)

subsection \<open>A concrete library\<close>

text \<open>The messages are countable, so a code of them as bytes exists.\<close>

instance tenant_ext :: (countable) countable
  by (rule countable_classI [of "\<lambda>r. to_nat (tn_CustomerId r, tn_ProjectId r, tenant.more r)"]) simp

instance workload_ref_ext :: (countable) countable
  by (rule countable_classI [of "\<lambda>r. to_nat (wr_Tenant r, wr_WorkloadId r, workload_ref.more r)"]) simp

instance cluster_ref_ext :: (countable) countable
  by (rule countable_classI [of "\<lambda>r. to_nat (cf_Region r, cf_ClusterId r, cluster_ref.more r)"]) simp

instance resource_quantity_ext :: (countable) countable
  by (rule countable_classI [of "\<lambda>r. to_nat (rq_CpuMillis r, rq_MemoryBytes r, rq_EphemeralStorageBytes r, resource_quantity.more r)"]) simp

instance resources_ext :: (countable) countable
  by (rule countable_classI [of "\<lambda>r. to_nat (rs_Requests r, rs_Limits r, resources.more r)"]) simp

instance env_value :: countable by countable_datatype

instance env_var_ext :: (countable) countable
  by (rule countable_classI [of "\<lambda>r. to_nat (ev_Name r, ev_Value r, env_var.more r)"]) simp

instance port_ext :: (countable) countable
  by (rule countable_classI [of "\<lambda>r. to_nat (po_Name r, po_ContainerPort r, po_Protocol r, port.more r)"]) simp

instance wl_codec :: countable by countable_datatype

instance wl_transport :: countable by countable_datatype

instance envelope_ext :: (countable) countable
  by (rule countable_classI [of "\<lambda>r. to_nat (RunId r, MessageId r, Sequence r, ClientSendTime r, ServerReceiveTime r, ServerSendTime r,
    RequestWireBytes r, RequestSha256 r, ResponderId r, ECodec r, ETransport r, Fixture r, envelope.more r)"]) simp

instance image_ref :: countable by countable_datatype

instance image_source_ext :: (countable) countable
  by (rule countable_classI [of "\<lambda>r. to_nat (im_Repository r, im_Ref r, image_source.more r)"]) simp

instance container_spec_ext :: (countable) countable
  by (rule countable_classI [of "\<lambda>r. to_nat (ct_Name r, ct_Image r, ct_Command r, ct_Args r, ct_Env r, ct_Ports r, ct_Resources r,
    ct_WorkingDir r, container_spec.more r)"]) simp

instance placement :: countable by countable_datatype

instance workload_spec_ext :: (countable) countable
  by (rule countable_classI [of "\<lambda>r. to_nat (sp_Kind r, sp_Containers r, sp_Replicas r, sp_RestartPolicy r, sp_Placement r, sp_Labels r,
    sp_Annotations r, sp_TtlAfterFinished r, sp_Schedule r, workload_spec.more r)"]) simp

instance deploy_op :: countable by countable_datatype

instance deploy_request_ext :: (countable) countable
  by (rule countable_classI [of "\<lambda>r. to_nat (dr_Envelope r, dr_Ref r, dr_Op r, dr_IdempotencyKey r, dr_RequestedAt r, deploy_request.more r)"]) simp

instance log_chunk_ext :: (countable) countable
  by (rule countable_classI [of "\<lambda>r. to_nat (lc_Envelope r, lc_PodName r, lc_Container r, lc_Stream r, lc_FirstTs r, lc_LastTs r,
    lc_LineCount r, lc_Data r, lc_Truncated r, log_chunk.more r)"]) simp

instance container_state_ext :: (countable) countable
  by (rule countable_classI [of "\<lambda>r. to_nat (st_Name r, st_Phase r, st_RestartCount r, st_ExitCode r, st_StartedAt r, st_ImageDigest r,
    container_state.more r)"]) simp

instance resource_sample_ext :: (countable) countable
  by (rule countable_classI [of "\<lambda>r. to_nat (sa_CpuCores r, sa_MemoryWorkingSetBytes r, sa_RxBytes r, sa_TxBytes r, sa_FsUsedBytes r,
    resource_sample.more r)"]) simp

instance telemetry_sample_ext :: (countable) countable
  by (rule countable_classI [of "\<lambda>r. to_nat (te_Envelope r, te_Ref r, te_Cluster r, te_PodName r, te_SampledAt r, te_Containers r,
    te_Resources r, te_CustomGauges r, telemetry_sample.more r)"]) simp

instance meter_value :: countable by countable_datatype

instance meter_reading_ext :: (countable) countable
  by (rule countable_classI [of "\<lambda>r. to_nat (mr_Meter r, mr_Value r, mr_Unit r, meter_reading.more r)"]) simp

instance usage_record_ext :: (countable) countable
  by (rule countable_classI [of "\<lambda>r. to_nat (ur_Envelope r, ur_Ref r, ur_Cluster r, ur_RecordId r, ur_WindowStart r, ur_WindowEnd r,
    ur_Readings r, ur_Sku r, usage_record.more r)"]) simp

instance wl_message :: countable by countable_datatype

definition sample_check_lib :: check_lib where
  "sample_check_lib =
     \<lparr>k_marshal = (\<lambda>c m. Inr (replicate (to_nat m) 0)), k_unmarshal = (\<lambda>c t w. Inr (from_nat (length w))),
      k_det = (\<lambda>i m. Inr (replicate (to_nat m) 0)),
      k_validate = (\<lambda>m. if violations m = [] then None else Some (Opaque (concat (map (\<lambda>(p, r). p @ '' '' @ r @ ''; '') (violations m))))),
      k_sha256 = (\<lambda>w. take 32 (w @ replicate 32 0))\<rparr>"

lemma Contains_concat: "x \<in> set xs \<Longrightarrow> Contains x s \<Longrightarrow> Contains (concat xs) s"
  unfolding Contains_take by (metis append.assoc concat.simps(2) concat_append split_list)

lemma sample_check_lib_ok: "check_lib_ok sample_check_lib"
proof -
  have "Contains (concat (map (\<lambda>(p, r). p @ '' '' @ r @ ''; '') vs)) p \<and> Contains (concat (map (\<lambda>(p, r). p @ '' '' @ r @ ''; '') vs)) r"
    if "(p, r) \<in> set vs" for p r and vs :: "violation list"
  proof -
    have "p @ '' '' @ r @ ''; '' \<in> set (map (\<lambda>(p, r). p @ '' '' @ r @ ''; '') vs)" using that by force
    moreover have "Contains (p @ '' '' @ r @ ''; '') p" unfolding Contains_take by (metis append_Nil)
    moreover have "Contains (p @ '' '' @ r @ ''; '') r" unfolding Contains_take by (metis append.assoc)
    ultimately show ?thesis using Contains_concat by blast
  qed
  then show ?thesis by (simp add: check_lib_ok_def sample_check_lib_def Error_def)
qed

section \<open>Properties\<close>


lemma three_codecs: "\<exists>codecs. parseCodecs ''proto,protojson,vtproto'' = Inr codecs \<and> length codecs = 3"
  by (simp add: parseCodecs_def TrimSpace_def TrimRight_def TrimLeft_def is_space_def ByName_def codecEnum_def Let_def)

text \<open>A transport that answers with the request's own envelope.\<close>

definition echo_live :: "bytes live" where
  "echo_live =
     \<lparr>lv_dial = \<lparr>dl_grpc = (\<lambda>a. None), dl_nats = (\<lambda>a. None), dl_rabbitmq = (\<lambda>a. None), dl_rabbitmq_requester = None\<rparr>,
      lv_marshal = Inr, lv_exchange = (\<lambda>f. \<lparr>ex_uuid = Inr (replicate 16 7), ex_now = baseTime, ex_answer = (\<lambda>e. Inr (Some e)), ex_rtt = 1000\<rparr>)\<rparr>"


lemma Deploy_envelope: "dr_Envelope (Corpus.Deploy L c f) = Some (envelope_of L c f 2)"
  unfolding Corpus.Deploy_def Let_def
  by (rule with_rand_pred, rule pred_bind [OF pred_any], rule pred_bind [OF pred_any], intro pred_if, simp, rule pred_bind [OF pred_any]) simp

lemma pairFor_request:
  assumes "fx \<in> set (transport_fixtures name)"
  shows "\<exists>m sq. pairFor name L c fx = Inr m \<and> GetEnvelope m = Some (envelope_of L c fx sq)"
proof (cases "fx = Tiny")
  case True
  then show ?thesis using assms
    by (auto simp: transport_fixtures_def deploy_fixtures_def pairFor_def grpcPair_def Corpus.Message_def Corpus.Ping_def split: if_splits)
next
  case False
  then have "fx \<in> set deploy_fixtures" using assms by (auto simp: transport_fixtures_def split: if_splits)
  then have "Corpus.Message L c fx = Inr (DeployRequest (Corpus.Deploy L c fx))"
    by (auto simp: deploy_fixtures_def Corpus.Message_def)
  then show ?thesis by (auto simp: pairFor_def grpcPair_def busPair_def Deploy_envelope)
qed

text \<open>A live check is \<open>ok\<close> exactly when the envelope could be filled, the transport answered, and the reply carries the request's
  message id and a request hash of 0 or 32 bytes; a reply without a hash passes.\<close>

theorem live_check_exact:
  assumes "fx \<in> set (transport_fixtures name)"
  shows "\<exists>sq ck. oneTransportCheck L marshal_uuid ex name nc tenum fx c runID = Some ck \<and>
    (ck_status ck = ''ok'' \<longleftrightarrow>
       (\<exists>env re. Fill (ex_uuid ex) marshal_uuid (ex_now ex) runID 0 (nc_enum nc) tenum fx (envelope_of L c fx sq) = Inr env \<and>
          ex_answer ex env = Inr (Some re) \<and> MessageId re = MessageId env \<and> length (RequestSha256 re) \<in> {0, 32}))"
proof -
  obtain m sq where m: "pairFor name L c fx = Inr m" "GetEnvelope m = Some (envelope_of L c fx sq)"
    using pairFor_request [OF assms] by blast
  show ?thesis
    by (rule exI [of _ sq]) (auto simp: oneTransportCheck_def m Let_def split: sum.splits option.splits)
qed

lemma live_check_exact_witness:
  "\<exists>sq ck. oneTransportCheck sample_lib Inr (lv_exchange echo_live Medium) ''nats'' \<lparr>nc_name = ''proto'', nc_codec = Proto, nc_enum = CODEC_PROTO\<rparr>
      TRANSPORT_NATS_REQUEST_REPLY Medium (New 42) ''local'' = Some ck \<and>
    (ck_status ck = ''ok'' \<longleftrightarrow>
       (\<exists>env re. Fill (Inr (replicate 16 7)) Inr baseTime ''local'' 0 CODEC_PROTO TRANSPORT_NATS_REQUEST_REPLY Medium
            (envelope_of sample_lib (New 42) Medium sq) = Inr env \<and>
          Inr (Some env) = (Inr (Some re) :: gerr + envelope option) \<and> MessageId re = MessageId env \<and> length (RequestSha256 re) \<in> {0, 32}))"
  using live_check_exact [of Medium "''nats''" sample_lib Inr "lv_exchange echo_live Medium"
      "\<lparr>nc_name = ''proto'', nc_codec = Proto, nc_enum = CODEC_PROTO\<rparr>" TRANSPORT_NATS_REQUEST_REPLY "New 42" "''local''"]
  by (simp add: transport_fixtures_def deploy_fixtures_def echo_live_def)

definition balanced :: "conn_event list \<Rightarrow> bool" where
  "balanced evs \<longleftrightarrow> (\<forall>r. count_list evs (Opened r) = count_list evs (Closed r))"

lemma balanced_Nil [simp]: "balanced []"
  by (simp add: balanced_def)

lemma balanced_append: "balanced xs \<Longrightarrow> balanced ys \<Longrightarrow> balanced (xs @ ys)"
  by (simp add: balanced_def)

lemma dial_balanced:
  "dialForCorrectness D name f = (Inl err, evs) \<Longrightarrow> balanced evs"
  "dialForCorrectness D name f = (Inr cleanup, evs) \<Longrightarrow> balanced (evs @ cleanup)"
  by (auto simp: dialForCorrectness_def balanced_def split: if_splits option.splits)

lemma codec_pass_balanced: "codec_pass L lv name sc f tenum c nc = Some (cks, evs) \<Longrightarrow> balanced evs"
  by (auto simp: codec_pass_def dial_balanced split: if_splits prod.splits sum.splits)

lemma codec_passes_balanced: "codec_passes L lv name sc f tenum c ncs = Some (cks, evs) \<Longrightarrow> balanced evs"
proof (induction ncs arbitrary: cks evs)
  case (Cons nc ncs)
  then show ?case
    by (auto split: option.splits prod.splits simp: balanced_append dest!: codec_pass_balanced)
qed simp

lemma fixture_checks_total:
  "set fxs \<subseteq> set (transport_fixtures name) \<Longrightarrow> \<exists>cks. fixture_checks L lv name nc tenum c runID fxs = Some cks \<and> length cks = length fxs"
proof (induction fxs)
  case (Cons fx fxs)
  then obtain m sq where "pairFor name L c fx = Inr m" "GetEnvelope m = Some (envelope_of L c fx sq)"
    using pairFor_request [of fx name] by fastforce
  then have "\<exists>ck. oneTransportCheck L (lv_marshal lv) (lv_exchange lv fx) name nc tenum fx c runID = Some ck"
    by (auto simp: oneTransportCheck_def Let_def split: sum.splits option.splits)
  moreover obtain cks where "fixture_checks L lv name nc tenum c runID fxs = Some cks" "length cks = length fxs"
    using Cons by auto
  ultimately show ?case by auto
qed simp

lemma codec_pass_total: "\<exists>r. codec_pass L lv name sc f tenum c nc = Some r"
  using fixture_checks_total [of "transport_fixtures name" name L lv nc tenum c "bf_runID f"]
  by (auto simp: codec_pass_def split: prod.splits sum.splits)

lemma codec_passes_total: "\<exists>cks evs. codec_passes L lv name sc f tenum c ncs = Some (cks, evs)"
proof (induction ncs)
  case (Cons nc ncs)
  then show ?case using codec_pass_total [of L "lv nc" name sc f tenum c nc] by auto
qed simp

text \<open>C24. The exit status is the gate: whatever the libraries and the transport do, the pass never panics, closes every connection it
  opened, and once it has run checks it returns an error exactly when one of them failed.\<close>

theorem gate_exact:
  "\<exists>err rs. runCorrectness L K lv transportName csv serverCodec f = Some (err, rs) \<and>
    (rs \<noteq> [] \<longrightarrow> (err = None \<longleftrightarrow> (\<forall>r\<in>set rs. ck_status r \<noteq> ''FAIL''))) \<and> (rs = [] \<longrightarrow> err \<noteq> None) \<and>
    (\<forall>codecs cks evs. transportChecks L lv transportName serverCodec f codecs c = Some (cks, evs) \<longrightarrow> balanced evs)"
proof -
  have b: "balanced evs" if "transportChecks L lv transportName serverCodec f codecs c = Some (cks, evs)" for codecs cks evs
    using that by (auto simp: transportChecks_def split: option.splits dest: codec_passes_balanced)
  have t: "\<exists>cks evs. transportChecks L lv transportName serverCodec f codecs c' = Some (cks, evs)" for codecs c'
    using codec_passes_total by (auto simp: transportChecks_def split: option.splits)
  have ne: "in_process_checks L K c' codecs \<noteq> []" for c' codecs
    by (metis add_is_0 in_process_length list.size(3) zero_neq_numeral)
  show ?thesis
  proof (cases "parseCodecs csv")
    case (Inl e)
    then show ?thesis using b by (simp add: runCorrectness_def)
  next
    case (Inr codecs)
    obtain cks evs where "transportChecks L lv transportName serverCodec f codecs (New (bf_seed f)) = Some (cks, evs)" using t by blast
    with Inr b ne show ?thesis
      by (auto simp: runCorrectness_def Let_def report_error failed_def)
  qed
qed

lemma gate_exact_witness:
  "\<exists>err rs. runCorrectness sample_lib sample_check_lib (\<lambda>nc. echo_live) ''nats'' ''proto'' ''proto''
      \<lparr>bf_addr = ''127.0.0.1:30422'', bf_user = ''admin'', bf_pass = '''', bf_region = ''us-west-2'', bf_runID = ''local'', bf_seed = 42\<rparr> = Some (err, rs) \<and>
    (rs = [] \<or> (err = None) = list_all (\<lambda>r. ck_status r \<noteq> ''FAIL'') rs)"
  unfolding list_all_iff
  using gate_exact [of sample_lib sample_check_lib "\<lambda>nc. echo_live" "''nats''" "''proto''" "''proto''"
      "\<lparr>bf_addr = ''127.0.0.1:30422'', bf_user = ''admin'', bf_pass = '''', bf_region = ''us-west-2'', bf_runID = ''local'', bf_seed = 42\<rparr>"]
  by blast

end
