(* ===== verification/Publish.thy ===== *)
theory Publish
  imports Runrecord Endpoints Correctness
begin

text \<open>
  The subcommands of the benchmark client (\<open>clients/workloads/benchcli\<close>): the shared flags and set-up of
  \<open>bus.go\<close>, the one-way publish loops of \<open>bus_run.go\<close> over MQTT, JetStream, quorum queues and Valkey
  streams, the log fan-out of \<open>logs_run.go\<close> and the in-process codec loop of \<open>main.go\<close>.

  A loop runs over the list of what its iterations meet: the UUID, the clock, the broker's answers, the
  choice of the pool and the time the publish took.  \<open>None\<close> is a panic.  Dialling is the outcome of each
  library call; the printed tables are left out.
\<close>

section \<open>Flags and set-up\<close>

record bench_flags = bus_flags +
  bf_codecName :: string
  bf_poolName :: string
  bf_fixture :: string
  bf_gc :: string
  bf_mode :: string
  bf_validate :: bool
  bf_n :: int
  bf_inflight :: int
  bf_rate :: rat
  bf_duration :: duration
  bf_step :: duration
  bf_floor :: duration
  bf_conns :: int
  bf_timeout :: duration
  bf_sentinels :: string
  bf_repeat :: int
  bf_out :: string
  bf_hgrm :: string

definition flags_emit :: "bench_flags \<Rightarrow> emit_options" where
  "flags_emit b = \<lparr>eo_out = bf_out b, eo_hgrm = bf_hgrm b, eo_repeat = bf_repeat b\<rparr>"

definition flags_driveConfig :: "bench_flags \<Rightarrow> drive_config" where
  "flags_driveConfig b =
     \<lparr>d_mode = bf_mode b, d_n = bf_n b, d_inflight = bf_inflight b, d_rate = bf_rate b, d_duration = bf_duration b,
      d_step = bf_step b, d_floor = bf_floor b, d_conns = bf_conns b, d_timeout = bf_timeout b, d_runID = bf_runID b,
      d_fixture = bf_fixture b\<rparr>"

definition tierForTransport :: "wl_transport \<Rightarrow> string" where
  "tierForTransport t =
     (if t = TRANSPORT_MQTT then ''at_most_once''
      else if t = TRANSPORT_NATS_JETSTREAM \<or> t = TRANSPORT_RABBITMQ_QUORUM \<or> t = TRANSPORT_VALKEY_STREAM then ''at_least_once''
      else ''rpc'')"

record bus_run =
  br_opts :: options
  br_pool :: mode
  br_cell :: cell
  br_cenum :: wl_codec
  br_tenum :: wl_transport
  br_corpus :: corpus

text \<open>\<open>provider\<close> and \<open>instruments\<close> are the errors of the metrics library.\<close>

definition bus_setup :: "gerr option \<Rightarrow> gerr option \<Rightarrow> bench_flags \<Rightarrow> string \<Rightarrow> wl_transport \<Rightarrow> gerr + bus_run" where
  "bus_setup provider instruments b label tenum =
     (case ByName (bf_codecName b) of
        Inl err \<Rightarrow> Inl err
      | Inr cdc \<Rightarrow>
          (case ParseMode (bf_poolName b) of
             Inl err \<Rightarrow> Inl (Opaque err)
           | Inr pmode \<Rightarrow>
               (case codecEnum (bf_codecName b) of
                  Inl err \<Rightarrow> Inl err
                | Inr cenum \<Rightarrow>
                    (case provider of
                       Some err \<Rightarrow> Inl err
                     | None \<Rightarrow>
                         (case instruments of
                            Some err \<Rightarrow> Inl err
                          | None \<Rightarrow>
                              Inr \<lparr>br_opts = \<lparr>o_Codec = cdc, o_Region = bf_region b, o_Integrity = False, o_Validate = bf_validate b\<rparr>,
                                   br_pool = pmode,
                                   br_cell = \<lparr>c_Transport = label, c_Codec = bf_codecName b, c_Fixture = bf_fixture b, c_Pool = Mode_String pmode,
                                     c_GC = bf_gc b, c_Mode = bf_mode b, c_Region = bf_region b, c_Role = ''client'', c_Tier = tierForTransport tenum\<rparr>,
                                   br_cenum = cenum, br_tenum = tenum, br_corpus = New (bf_seed b)\<rparr>)))))"

text \<open>The client options of \<open>newValkeyClient\<close>: a list of sentinels, or one address.\<close>

datatype valkey_target = Failover "string list" | Direct string

definition newValkeyClient :: "string \<Rightarrow> string \<Rightarrow> valkey_target" where
  "newValkeyClient addr sentinels =
     (if sentinels \<noteq> '''' then Failover (filter (\<lambda>s. s \<noteq> '''') (map TrimSpace (Split (CHR '','') sentinels))) else Direct addr)"

section \<open>The publish loop\<close>

fun SetEnvelope :: "envelope \<Rightarrow> wl_message \<Rightarrow> wl_message" where
  "SetEnvelope e (wl_message.PingRequest x) = wl_message.PingRequest (Some e)"
| "SetEnvelope e (DeployRequest d) = DeployRequest (d\<lparr>dr_Envelope := Some e\<rparr>)"
| "SetEnvelope e (LogChunk_Msg l) = LogChunk_Msg (l\<lparr>lc_Envelope := Some e\<rparr>)"
| "SetEnvelope e (TelemetrySample t) = TelemetrySample (t\<lparr>te_Envelope := Some e\<rparr>)"
| "SetEnvelope e (UsageRecord u) = UsageRecord (u\<lparr>ur_Envelope := Some e\<rparr>)"

record 'u pub_env =
  pe_uuid :: "gerr + 'u"
  pe_now :: timestamp
  pe_err :: "gerr option"
  pe_confirm :: "gerr + bool"
  pe_token :: "gerr + gerr option"
  pe_choice :: "nat option"
  pe_took :: duration

record ('h, 's) pub_run =
  pr_lat :: "'h HDR"
  pr_msg :: wl_message
  pr_pool :: 's
  pr_meas :: "measurement list"
  pr_stderr :: "string list"
  pr_sent :: "published list"
  pr_ok :: int

type_synonym ('u, 's) publisher = "'u pub_env \<Rightarrow> wl_message \<Rightarrow> 's \<Rightarrow> ((published option \<times> gerr option) \<times> 's) option"

text \<open>\<open>okResult\<close> is the result label of a publish that succeeded.\<close>

definition publish_step ::
  "'h hist_lib \<Rightarrow> ('u \<Rightarrow> gerr + bytes) \<Rightarrow> ('u, 's) publisher \<Rightarrow> bus_run \<Rightarrow> string \<Rightarrow> string \<Rightarrow> string \<Rightarrow> nat \<Rightarrow> 'u pub_env
   \<Rightarrow> ('h, 's) pub_run \<Rightarrow> ('h, 's) pub_run option" where
  "publish_step H marshal_uuid pub br runID fixture okResult i pe st =
     (case GetEnvelope (pr_msg st) of
        None \<Rightarrow> None
      | Some env0 \<Rightarrow>
          (case Fill (pe_uuid pe) marshal_uuid (pe_now pe) runID (of_nat i) (br_cenum br) (br_tenum br) fixture env0 of
             Inl err \<Rightarrow> Some (st\<lparr>pr_lat := AddErrorKind ''encode'' (pr_lat st)\<rparr>)
           | Inr env \<Rightarrow>
               (let m = SetEnvelope env (pr_msg st) in
                case pub pe m (pr_pool st) of
                  None \<Rightarrow> None
                | Some ((msg, err), s1) \<Rightarrow>
                    (let st1 = st\<lparr>pr_msg := m, pr_pool := s1, pr_meas := pr_meas st @ [measurement.Message (br_cell br) ''sent''],
                               pr_sent := pr_sent st @ (case msg of None \<Rightarrow> [] | Some p \<Rightarrow> [p])\<rparr>
                     in case err of
                          Some e \<Rightarrow>
                            (let lat = AddErrorKind ''transport'' (pr_lat st)
                             in Some (st1\<lparr>pr_lat := lat, pr_meas := pr_meas st1 @ [ErrorCount (br_cell br) ''transport''],
                                   pr_stderr := pr_stderr st @ (if NumErrors lat \<le> 3 then [''publish '' @ nitoa i @ '': '' @ Error e] else [])\<rparr>))
                        | None \<Rightarrow>
                            Some (st1\<lparr>pr_meas := pr_meas st1 @ [measurement.Message (br_cell br) okResult, RoundTrip (br_cell br) (pe_took pe)],
                                  pr_lat := Record H (pe_took pe) (pr_lat st), pr_ok := pr_ok st + 1\<rparr>)))))"

fun publish_loop ::
  "'h hist_lib \<Rightarrow> ('u \<Rightarrow> gerr + bytes) \<Rightarrow> ('u, 's) publisher \<Rightarrow> bus_run \<Rightarrow> string \<Rightarrow> string \<Rightarrow> string \<Rightarrow> nat \<Rightarrow> 'u pub_env list
   \<Rightarrow> ('h, 's) pub_run \<Rightarrow> ('h, 's) pub_run option" where
  "publish_loop H marshal_uuid pub br runID fixture okResult i [] st = Some st"
| "publish_loop H marshal_uuid pub br runID fixture okResult i (pe # pes) st =
     (case publish_step H marshal_uuid pub br runID fixture okResult i pe st of
        None \<Rightarrow> None
      | Some st1 \<Rightarrow> publish_loop H marshal_uuid pub br runID fixture okResult (Suc i) pes st1)"

definition pub_init :: "'h hist_lib \<Rightarrow> bus_run \<Rightarrow> wl_message \<Rightarrow> 's \<Rightarrow> ('h, 's) pub_run" where
  "pub_init H br m s =
     \<lparr>pr_lat = NewHDR H, pr_msg = m, pr_pool = s, pr_meas = [ActiveCell (br_cell br) True], pr_stderr = [], pr_sent = [], pr_ok = 0\<rparr>"

section \<open>The one-way subcommands\<close>

definition wireLen :: "'m msg_lib \<Rightarrow> codec \<Rightarrow> 'm \<Rightarrow> int" where
  "wireLen M c m = (case l_append M c ([], 0) m of (Inl err, rest) \<Rightarrow> 0 | (Inr (arr, n), rest) \<Rightarrow> int n)"

definition pub_result :: "'h hist_lib \<Rightarrow> 'h HDR \<Rightarrow> duration \<Rightarrow> int \<Rightarrow> 'h cell_result" where
  "pub_result H lat elapsed wire =
     \<lparr>r_hdr = lat, r_elapsed = elapsed, r_wireReq = wire, r_inflight = 1, r_rate = 0, r_lateSends = 0, r_missing = 0, r_sat = None,
      r_srvHDR = NewHDR H, allocsPerMsg = 0, allocBytesPerMsg = 0, gcPauseP99 = 0, gcCyclesPerS = 0\<rparr>"

text \<open>The rest of the world of a publishing subcommand: the libraries, what each iteration meets, and the errors of writing the
  histogram and the record.\<close>

record ('h, 'u) bench_world =
  bw_hist :: "'h hist_lib"
  bw_msg :: "wl_message msg_lib"
  bw_marshal :: "'u \<Rightarrow> gerr + bytes"
  bw_env :: "nat \<Rightarrow> 'u pub_env"
  bw_elapsed :: duration
  bw_provider :: "gerr option"
  bw_instruments :: "gerr option"
  bw_hgrm_err :: "nat \<Rightarrow> gerr option"
  bw_write_err :: "string \<Rightarrow> gerr option"
  bw_json_err :: "run_cell \<Rightarrow> gerr option"

type_synonym ('h, 's) pub_outcome = "gerr option \<times> file_write list \<times> ('h, 's) pub_run option"

definition run_publisher ::
  "('h, 'u) bench_world \<Rightarrow> ('u, 's) publisher \<Rightarrow> bus_run \<Rightarrow> bench_flags \<Rightarrow> string \<Rightarrow> string \<Rightarrow> wl_message \<Rightarrow> 's \<Rightarrow> ('h, 's) pub_outcome option" where
  "run_publisher W pub br f fixture okResult sample s =
     (case publish_loop (bw_hist W) (bw_marshal W) pub br (bf_runID f) fixture okResult 0 (map (bw_env W) [0..<nat (bf_n f)])
             (pub_init (bw_hist W) br sample s) of
        None \<Rightarrow> None
      | Some st \<Rightarrow>
          (let res = pub_result (bw_hist W) (pr_lat st) (bw_elapsed W) (wireLen (bw_msg W) (o_Codec (br_opts br)) (pr_msg st));
               (err, files) = emitCell (bw_hist W) (bw_hgrm_err W) (bw_write_err W) (bw_json_err W) (flags_emit f) (br_cell br) res
           in Some (err, files, Some (st\<lparr>pr_meas := pr_meas st @ [ActiveCell (br_cell br) False]\<rparr>))))"

definition stopped :: "gerr \<Rightarrow> ('h, 's) pub_outcome option" where
  "stopped err = Some (Some err, [], None)"

definition telemetry_sample_of :: "'g lib \<Rightarrow> bus_run \<Rightarrow> wl_message" where
  "telemetry_sample_of L br = TelemetrySample (Telemetry L (br_corpus br) 3)"

definition runMQTT ::
  "'g lib \<Rightarrow> ('h, 'u) bench_world \<Rightarrow> 's pool_get \<Rightarrow> 's pool_put \<Rightarrow> 's \<Rightarrow> gerr option option \<Rightarrow> bench_flags \<Rightarrow> ('h, 's \<times> nat set) pub_outcome option" where
  "runMQTT L W get put s tok f =
     (if bf_mode f \<noteq> ''latency''
      then stopped (Opaque (''mqtt is fire-and-forget publish; only -mode=latency is supported (got '' @ quoted (bf_mode f) @ '')''))
      else (case bus_setup (bw_provider W) (bw_instruments W) f ''mqtt'' TRANSPORT_MQTT of
              Inl err \<Rightarrow> stopped err
            | Inr br \<Rightarrow>
                (case mqtt_transport_Dial (bf_addr f) tok of
                   (Inl err, opened) \<Rightarrow> stopped err
                 | (Inr u, opened) \<Rightarrow>
                     run_publisher W (\<lambda>pe. mqtt_Publish (bw_msg W) get put (br_opts br) (pe_token pe) (pe_choice pe) (bf_region f)) br f
                       ''telemetry'' ''received'' (telemetry_sample_of L br) (s, {}))))"

definition runJetStream ::
  "'g lib \<Rightarrow> ('h, 'u) bench_world \<Rightarrow> 's pool_get \<Rightarrow> 's pool_put \<Rightarrow> 's \<Rightarrow> (string \<Rightarrow> gerr option) \<Rightarrow> gerr option \<Rightarrow> gerr option \<Rightarrow> bench_flags
   \<Rightarrow> ('h, 's) pub_outcome option" where
  "runJetStream L W get put s dial context_err ensure_err f =
     (if bf_mode f \<noteq> ''latency''
      then stopped (Opaque (''jetstream is a durable publish loop; only -mode=latency is supported (got '' @ quoted (bf_mode f) @ '')''))
      else (case bus_setup (bw_provider W) (bw_instruments W) f ''nats_jetstream'' TRANSPORT_NATS_JETSTREAM of
              Inl err \<Rightarrow> stopped err
            | Inr br \<Rightarrow>
                (case dial (''nats://'' @ bf_addr f) of
                   Some err \<Rightarrow> stopped (Wrapf (''nats connect '' @ bf_addr f @ '': '') err '''')
                 | None \<Rightarrow>
                     (case context_err of
                        Some err \<Rightarrow> stopped (Wrapf ''jetstream context: '' err '''')
                      | None \<Rightarrow>
                          (case ensure_err of
                             Some err \<Rightarrow> stopped (Wrapf ''ensure stream WL_TELEMETRY: '' err '''')
                           | None \<Rightarrow>
                               run_publisher W (\<lambda>pe. jetstream_Publish (bw_msg W) get put (br_opts br) (pe_err pe) (pe_choice pe) (bf_region f)) br f
                                 ''telemetry'' ''ok'' (telemetry_sample_of L br) s)))))"

definition runQuorum ::
  "'g lib \<Rightarrow> ('h, 'u) bench_world \<Rightarrow> 's pool_get \<Rightarrow> 's pool_put \<Rightarrow> 's \<Rightarrow> (string \<Rightarrow> gerr option) \<Rightarrow> (gerr + unit) \<times> string list \<Rightarrow> bench_flags
   \<Rightarrow> ('h, 's) pub_outcome option" where
  "runQuorum L W get put s dial new_publisher f =
     (if bf_mode f \<noteq> ''latency''
      then stopped (Opaque (''quorum is a durable publish loop; only -mode=latency is supported (got '' @ quoted (bf_mode f) @ '')''))
      else (case bus_setup (bw_provider W) (bw_instruments W) f ''rabbitmq_quorum'' TRANSPORT_RABBITMQ_QUORUM of
              Inl err \<Rightarrow> stopped err
            | Inr br \<Rightarrow>
                (case dial (''amqp://'' @ bf_user f @ '':'' @ bf_pass f @ ''@'' @ bf_addr f @ ''/'') of
                   Some err \<Rightarrow> stopped (Wrapf ''rabbitmq dial (check -user/-pass): '' err '''')
                 | None \<Rightarrow>
                     (case new_publisher of
                        (Inl err, opened) \<Rightarrow> stopped err
                      | (Inr u, opened) \<Rightarrow>
                          run_publisher W
                            (\<lambda>pe. quorum_Publish (bw_msg W) get put (br_opts br) (pe_err pe) (pe_confirm pe) (pe_choice pe) (bf_region f)) br f
                            ''telemetry'' ''ok'' (telemetry_sample_of L br) s))))"

definition runStream ::
  "'g lib \<Rightarrow> ('h, 'u) bench_world \<Rightarrow> 's pool_get \<Rightarrow> 's pool_put \<Rightarrow> 's \<Rightarrow> bench_flags \<Rightarrow> ('h, 's) pub_outcome option" where
  "runStream L W get put s f =
     (if bf_mode f \<noteq> ''latency''
      then stopped (Opaque (''stream is a durable publish loop; only -mode=latency is supported (got '' @ quoted (bf_mode f) @ '')''))
      else (case bus_setup (bw_provider W) (bw_instruments W) f ''valkey_stream'' TRANSPORT_VALKEY_STREAM of
              Inl err \<Rightarrow> stopped err
            | Inr br \<Rightarrow>
                run_publisher W (\<lambda>pe. stream_Publish (bw_msg W) get put (br_opts br) (pe_err pe) (pe_choice pe) (bf_region f)) br f
                  ''telemetry'' ''ok'' (telemetry_sample_of L br) s))"

section \<open>The request/reply subcommands\<close>

text \<open>\<open>de\<close> is what the run of the driver meets; its request envelope is that of the fixture.\<close>

definition runAndPrint ::
  "('h, 'u) bench_world \<Rightarrow> bus_run \<Rightarrow> wl_message \<Rightarrow> bench_flags \<Rightarrow> ('u, 'h) drive_env \<Rightarrow> (gerr option \<times> file_write list) option" where
  "runAndPrint W br req f de =
     (case drive (bw_hist W) \<lparr>rc_marshal = bw_marshal W, rc_cenum = br_cenum br, rc_tenum = br_tenum br, rc_cell = br_cell br\<rparr>
             (flags_driveConfig f) (case GetEnvelope req of None \<Rightarrow> de | Some e \<Rightarrow> de\<lparr>de_env := e\<rparr>)
             (wireLen (bw_msg W) (o_Codec (br_opts br)) req) of
        None \<Rightarrow> None
      | Some (Inl err) \<Rightarrow> Some (Some err, [])
      | Some (Inr res) \<Rightarrow>
          Some (emitCell (bw_hist W) (bw_hgrm_err W) (bw_write_err W) (bw_json_err W) (flags_emit f) (br_cell br) res))"

definition runNATS ::
  "'g lib \<Rightarrow> ('h, 'u) bench_world \<Rightarrow> (string \<Rightarrow> gerr option) \<Rightarrow> bench_flags \<Rightarrow> ('u, 'h) drive_env \<Rightarrow> (gerr option \<times> file_write list) option" where
  "runNATS L W dial f de =
     (case bus_setup (bw_provider W) (bw_instruments W) f ''nats_request_reply'' TRANSPORT_NATS_REQUEST_REPLY of
        Inl err \<Rightarrow> Some (Some err, [])
      | Inr br \<Rightarrow>
          (case busPair L (br_corpus br) (bf_fixture f) of
             Inl err \<Rightarrow> Some (Some err, [])
           | Inr req \<Rightarrow>
               (case dial (''nats://'' @ bf_addr f) of
                  Some err \<Rightarrow> Some (Some (Wrapf (''nats connect '' @ bf_addr f @ '': '') err ''''), [])
                | None \<Rightarrow> runAndPrint W br req f de)))"

definition runRabbitMQ ::
  "'g lib \<Rightarrow> ('h, 'u) bench_world \<Rightarrow> (string \<Rightarrow> gerr option) \<Rightarrow> gerr option \<Rightarrow> bench_flags \<Rightarrow> ('u, 'h) drive_env \<Rightarrow> (gerr option \<times> file_write list) option" where
  "runRabbitMQ L W dial requester_err f de =
     (case bus_setup (bw_provider W) (bw_instruments W) f ''rabbitmq_rpc'' TRANSPORT_RABBITMQ_RPC of
        Inl err \<Rightarrow> Some (Some err, [])
      | Inr br \<Rightarrow>
          (case busPair L (br_corpus br) (bf_fixture f) of
             Inl err \<Rightarrow> Some (Some err, [])
           | Inr req \<Rightarrow>
               (case dial (''amqp://'' @ bf_user f @ '':'' @ bf_pass f @ ''@'' @ bf_addr f @ ''/'') of
                  Some err \<Rightarrow> Some (Some (Wrapf ''rabbitmq dial (check -user/-pass): '' err ''''), [])
                | None \<Rightarrow> (case requester_err of Some err \<Rightarrow> Some (Some err, []) | None \<Rightarrow> runAndPrint W br req f de))))"

definition runValkey ::
  "'g lib \<Rightarrow> ('h, 'u) bench_world \<Rightarrow> bench_flags \<Rightarrow> ('u, 'h) drive_env \<Rightarrow> (gerr option \<times> file_write list) option" where
  "runValkey L W f de =
     (case bus_setup (bw_provider W) (bw_instruments W) f ''valkey_stream'' TRANSPORT_VALKEY_STREAM of
        Inl err \<Rightarrow> Some (Some err, [])
      | Inr br \<Rightarrow>
          (case busPair L (br_corpus br) (bf_fixture f) of
             Inl err \<Rightarrow> Some (Some err, [])
           | Inr req \<Rightarrow> runAndPrint W br req f de))"

text \<open>The gRPC subcommand resolves the fixture before the codec's enum and dials before the metrics are set up.\<close>

definition runGRPC ::
  "'g lib \<Rightarrow> ('h, 'u) bench_world \<Rightarrow> (string \<Rightarrow> gerr option) \<Rightarrow> bench_flags \<Rightarrow> ('u, 'h) drive_env \<Rightarrow> (gerr option \<times> file_write list) option" where
  "runGRPC L W dial f de =
     (case ByName (bf_codecName f) of
        Inl err \<Rightarrow> Some (Some err, [])
      | Inr cdc \<Rightarrow>
          (case ParseMode (bf_poolName f) of
             Inl err \<Rightarrow> Some (Some (Opaque err), [])
           | Inr pmode \<Rightarrow>
               (case grpcPair L (New (bf_seed f)) (bf_fixture f) of
                  Inl err \<Rightarrow> Some (Some err, [])
                | Inr req \<Rightarrow>
                    (case codecEnum (bf_codecName f) of
                       Inl err \<Rightarrow> Some (Some err, [])
                     | Inr cenum \<Rightarrow>
                         (case dial (bf_addr f) of
                            Some err \<Rightarrow> Some (Some (Wrapf (''dial '' @ bf_addr f @ '': '') err ''''), [])
                          | None \<Rightarrow>
                              (case bw_provider W of
                                 Some err \<Rightarrow> Some (Some err, [])
                               | None \<Rightarrow>
                                   (case bw_instruments W of
                                      Some err \<Rightarrow> Some (Some err, [])
                                    | None \<Rightarrow>
                                        runAndPrint W
                                          \<lparr>br_opts = \<lparr>o_Codec = cdc, o_Region = bf_region f, o_Integrity = False, o_Validate = bf_validate f\<rparr>,
                                           br_pool = pmode,
                                           br_cell = \<lparr>c_Transport = ''grpc_unary'', c_Codec = bf_codecName f, c_Fixture = bf_fixture f,
                                             c_Pool = Mode_String pmode, c_GC = bf_gc f, c_Mode = bf_mode f, c_Region = bf_region f,
                                             c_Role = ''client'', c_Tier = ''rpc''\<rparr>,
                                           br_cenum = cenum, br_tenum = TRANSPORT_GRPC_UNARY, br_corpus = New (bf_seed f)\<rparr> req f de)))))))"

section \<open>The log fan-out\<close>

record 'h fanout =
  fo_t0 :: "int list"
  fo_delivered :: int
  fo_fan :: "'h HDR"
  fo_meas :: "measurement list"

text \<open>A delivery, \<open>now\<close> its time since the base.  A sequence of \<open>2 ^ 63\<close> or more is negative as an \<open>int\<close>, passes the test and
  panics at the index.\<close>

definition onMsg ::
  "'h hist_lib \<Rightarrow> wl_message msg_lib \<Rightarrow> bus_run \<Rightarrow> string \<Rightarrow> timestamp \<Rightarrow> duration \<Rightarrow> codec \<times> bytes \<Rightarrow> 'h fanout \<Rightarrow> 'h fanout option" where
  "onMsg H M br region recv since msg fo =
     (let (req, derr) = decode_msg M (br_opts br) (region @ ''/subscriber'') recv (fst msg) (snd msg);
          fo1 = fo\<lparr>fo_meas := fo_meas fo @ [measurement.Message (br_cell br) ''received'']\<rparr>
      in case derr of
           Some e \<Rightarrow> Some (fo1\<lparr>fo_meas := fo_meas fo1 @ [ErrorCount (br_cell br) ''validate'']\<rparr>)
         | None \<Rightarrow>
             (let fo2 = fo1\<lparr>fo_delivered := fo_delivered fo + 1\<rparr> in
              case Option.bind req (l_env M) of
                None \<Rightarrow> Some fo2
              | Some env \<Rightarrow>
                  (let sq = uint (Sequence env) in
                   if sint (Sequence env) < int (length (fo_t0 fo)) then
                     (if sq < int (length (fo_t0 fo)) then
                        (let raw_t = fo_t0 fo ! nat sq in
                         if raw_t > 0 then Some (fo2\<lparr>fo_fan := Record H (since - (raw_t - 1)) (fo_fan fo)\<rparr>) else Some fo2)
                      else None)
                   else Some fo2)))"

text \<open>The publisher stores the time of a chunk before it publishes it.\<close>

definition log_step ::
  "'h hist_lib \<Rightarrow> ('u \<Rightarrow> gerr + bytes) \<Rightarrow> ('u, 's) publisher \<Rightarrow> bus_run \<Rightarrow> string \<Rightarrow> string \<Rightarrow> nat \<Rightarrow> duration \<Rightarrow> 'u pub_env
   \<Rightarrow> ('h, 's) pub_run \<times> 'h fanout \<Rightarrow> (('h, 's) pub_run \<times> 'h fanout) option" where
  "log_step H marshal_uuid pub br runID fixture i since pe st =
     (case st of (p, fo) \<Rightarrow>
        (let filled = (case GetEnvelope (pr_msg p) of
                         None \<Rightarrow> False
                       | Some e \<Rightarrow>
                           (case Fill (pe_uuid pe) marshal_uuid (pe_now pe) runID (of_nat i) (br_cenum br) (br_tenum br) fixture e of
                              Inl err \<Rightarrow> False | Inr env \<Rightarrow> True))
         in map_option (\<lambda>p1. (p1, if filled then fo\<lparr>fo_t0 := (fo_t0 fo)[i := since + 1]\<rparr> else fo))
              (publish_step H marshal_uuid pub br runID fixture ''ok'' i pe p)))"

datatype 'u log_event = Publish_Chunk duration "'u pub_env" | Deliver_Chunk timestamp duration "codec \<times> bytes"

text \<open>The run as the sequence of publishes and deliveries, in the order they happen.\<close>

fun log_run ::
  "'h hist_lib \<Rightarrow> wl_message msg_lib \<Rightarrow> ('u \<Rightarrow> gerr + bytes) \<Rightarrow> ('u, 's) publisher \<Rightarrow> bus_run \<Rightarrow> string \<Rightarrow> string \<Rightarrow> string \<Rightarrow> nat
   \<Rightarrow> 'u log_event list \<Rightarrow> ('h, 's) pub_run \<times> 'h fanout \<Rightarrow> (('h, 's) pub_run \<times> 'h fanout) option" where
  "log_run H M mu pub br region runID fixture i [] st = Some st"
| "log_run H M mu pub br region runID fixture i (Publish_Chunk since pe # evs) st =
     (case log_step H mu pub br runID fixture i since pe st of
        None \<Rightarrow> None
      | Some st1 \<Rightarrow> log_run H M mu pub br region runID fixture (Suc i) evs st1)"
| "log_run H M mu pub br region runID fixture i (Deliver_Chunk recv since msg # evs) (p, fo) =
     (case onMsg H M br region recv since msg fo of
        None \<Rightarrow> None
      | Some fo1 \<Rightarrow> log_run H M mu pub br region runID fixture i evs (p, fo1))"

text \<open>\<open>waitForFanout\<close>: each poll is the counter and the readings of the clock it takes; \<open>None\<close> means the fuel ran out.\<close>

record poll =
  pl_got :: int
  pl_mark :: timestamp
  pl_since :: timestamp
  pl_after :: timestamp

fun wait_loop :: "nat \<Rightarrow> (nat \<Rightarrow> poll) \<Rightarrow> int \<Rightarrow> timestamp \<Rightarrow> nat \<Rightarrow> int \<Rightarrow> timestamp \<Rightarrow> nat option" where
  "wait_loop 0 polls expected deadline i last_got lastProgress = None"
| "wait_loop (Suc fuel) polls expected deadline i last_got lastProgress =
     (let p = polls i in
      if pl_got p \<ge> expected then Some i
      else (let lp = (if pl_got p \<noteq> last_got then pl_mark p else lastProgress) in
            if pl_since p - lp > 3 * Second \<or> pl_after p > deadline then Some i
            else wait_loop fuel polls expected deadline (Suc i) (pl_got p) lp))"

definition waitForFanout :: "nat \<Rightarrow> (nat \<Rightarrow> poll) \<Rightarrow> int \<Rightarrow> int \<Rightarrow> timestamp \<Rightarrow> timestamp \<Rightarrow> duration \<Rightarrow> nat option" where
  "waitForFanout fuel polls expected delivered start now timeout =
     (if expected \<le> 0 then Some 0 else wait_loop fuel polls expected (start + timeout) 0 delivered now)"

fun subscribe_all :: "(nat \<Rightarrow> gerr option) \<Rightarrow> nat \<Rightarrow> nat \<Rightarrow> gerr + unit" where
  "subscribe_all errs i 0 = Inr ()"
| "subscribe_all errs i (Suc k) =
     (case errs i of
        Some err \<Rightarrow> Inl (Wrapf (''subscribe '' @ nitoa (i + 1) @ ''/'' @ nitoa (i + Suc k) @ '': '') err '''')
      | None \<Rightarrow> subscribe_all errs (Suc i) k)"

text \<open>The run up to the record; \<open>waitForFanout\<close>, which only lets time pass, is treated on its own.  The last component is the fan-out, the deliveries expected and the loss reported.\<close>

definition runLogsFanout ::
  "'g lib \<Rightarrow> ('h, 'u) bench_world \<Rightarrow> 's pool_get \<Rightarrow> 's pool_put \<Rightarrow> 's \<Rightarrow> (string \<Rightarrow> gerr option) \<Rightarrow> gerr option \<Rightarrow> gerr option \<Rightarrow> (nat \<Rightarrow> gerr option)
   \<Rightarrow> 'u log_event list \<Rightarrow> int \<Rightarrow> int \<Rightarrow> string \<Rightarrow> bench_flags \<Rightarrow> (('h, 's) pub_outcome \<times> ('h fanout \<times> int \<times> int) option) option" where
  "runLogsFanout L W get put s dial context_err ensure_err sub_errs evs subs chunkKiB workloadID f =
     (let fails = (\<lambda>err. Some ((Some err, [], None), None)) in
      if bf_mode f \<noteq> ''latency''
      then fails (Opaque (''logs is a fan-out publish loop; only -mode=latency is supported (got '' @ quoted (bf_mode f) @ '')''))
      else if subs < 1 then fails (Opaque (''-subscribers must be >= 1 (got '' @ itoa subs @ '')''))
      else if chunkKiB < 1 then fails (Opaque (''-chunk-kib must be >= 1 (got '' @ itoa chunkKiB @ '')''))
      else (case bus_setup (bw_provider W) (bw_instruments W) f ''nats_jetstream'' TRANSPORT_NATS_JETSTREAM of
              Inl err \<Rightarrow> fails err
            | Inr br0 \<Rightarrow>
                (let br = br0\<lparr>br_cell := (br_cell br0)\<lparr>c_Mode := ''fanout''\<rparr>\<rparr> in
                 case dial (''nats://'' @ bf_addr f) of
                   Some err \<Rightarrow> fails (Wrapf (''nats connect '' @ bf_addr f @ '': '') err '''')
                 | None \<Rightarrow>
                     (case context_err of
                        Some err \<Rightarrow> fails (Wrapf ''jetstream context: '' err '''')
                      | None \<Rightarrow>
                          (case ensure_err of
                             Some err \<Rightarrow> fails (Wrapf ''ensure stream WL_LOGS: '' err '''')
                           | None \<Rightarrow>
                               (if bf_n f < 0 then None
                                else (case subscribe_all sub_errs 0 (nat subs) of
                                        Inl err \<Rightarrow> fails err
                                      | Inr u \<Rightarrow>
                                          (let chunk = LogChunk_Msg (LogChunkBytes L (br_corpus br) (nat (chunkKiB * 2 ^ 10)));
                                               H = bw_hist W;
                                               fo0 = \<lparr>fo_t0 = replicate (nat (bf_n f)) 0, fo_delivered = 0, fo_fan = NewHDR H, fo_meas = []\<rparr>
                                           in case log_run H (bw_msg W) (bw_marshal W)
                                                     (\<lambda>pe. log_Publish (bw_msg W) get put (br_opts br) (pe_err pe) (pe_choice pe) (bf_region f) workloadID)
                                                     br (bf_region f) (bf_runID f) (bf_fixture f) 0 evs (pub_init H br chunk s, fo0) of
                                                None \<Rightarrow> None
                                              | Some (p, fo) \<Rightarrow>
                                                  (let expected = pr_ok p * subs;
                                                       res = pub_result H (pr_lat p) (bw_elapsed W) (wireLen (bw_msg W) (o_Codec (br_opts br)) (pr_msg p));
                                                       (err, files) = emitCell H (bw_hgrm_err W) (bw_write_err W) (bw_json_err W) (flags_emit f) (br_cell br) res
                                                   in Some ((err, files, Some (p\<lparr>pr_meas := pr_meas p @ [ActiveCell (br_cell br) False]\<rparr>)),
                                                            Some (fo, expected, expected - fo_delivered fo)))))))))))"

section \<open>The in-process codec loop\<close>

fun codec_iterations ::
  "wl_message msg_lib \<Rightarrow> 's pool_get \<Rightarrow> 's pool_put \<Rightarrow> codec \<Rightarrow> (nat \<Rightarrow> nat option) \<Rightarrow> wl_message \<Rightarrow> nat \<Rightarrow> 's \<Rightarrow> (gerr option \<times> 's) option" where
  "codec_iterations M get put cdc ch msg 0 s = Some (None, s)"
| "codec_iterations M get put cdc ch msg (Suc k) s =
     (case encode_with M get put cdc (ch k) msg s of
        None \<Rightarrow> None
      | Some (Inl err, s1) \<Rightarrow> Some (Some (Wrapf ''encode: '' err ''''), s1)
      | Some (Inr b, s1) \<Rightarrow>
          (case l_unmarshal M cdc (visible b) of
             Inl err \<Rightarrow> Some (Some (Wrapf ''decode: '' err ''''), s1)
           | Inr target \<Rightarrow> codec_iterations M get put cdc ch msg k (put (Some b) s1)))"

text \<open>The warm-up, the loop, and the figures printed: the bytes on the wire and the nanoseconds per iteration, whose integer
  division panics for \<open>n = 0\<close>.\<close>

definition runLoop ::
  "'g lib \<Rightarrow> wl_message msg_lib \<Rightarrow> 's pool_get \<Rightarrow> 's pool_put \<Rightarrow> corpus \<Rightarrow> codec \<Rightarrow> nat option \<Rightarrow> (nat \<Rightarrow> nat option) \<Rightarrow> duration \<Rightarrow> fixture \<Rightarrow> int \<Rightarrow> 's
   \<Rightarrow> ((gerr + int \<times> int) \<times> 's) option" where
  "runLoop L M get put c cdc ch0 ch elapsed fixture n s =
     (case Corpus.Message L c fixture of
        Inl err \<Rightarrow> Some (Inl err, s)
      | Inr msg \<Rightarrow>
          (case encode_with M get put cdc ch0 msg s of
             None \<Rightarrow> None
           | Some (warm, s1) \<Rightarrow>
               (let s2 = (case warm of Inl err \<Rightarrow> s1 | Inr b \<Rightarrow> put (Some b) s1) in
                case codec_iterations M get put cdc ch msg (nat n) s2 of
                  None \<Rightarrow> None
                | Some (Some err, s3) \<Rightarrow> Some (Inl err, s3)
                | Some (None, s3) \<Rightarrow>
                    (case l_append M cdc ([], 0) msg of
                       (Inl err, rest) \<Rightarrow> None
                     | (Inr (arr, w), rest) \<Rightarrow> if n = 0 then None else Some (Inr (int w, elapsed sdiv n), s3)))))"

section \<open>Lemmas\<close>

text \<open>What a publisher owes the loop: in every state that satisfies \<open>I\<close> it returns, in such a state.\<close>

definition publishes :: "('s \<Rightarrow> bool) \<Rightarrow> ('u, 's) publisher \<Rightarrow> bool" where
  "publishes I pub \<longleftrightarrow> (\<forall>pe m s. I s \<longrightarrow> (\<exists>msg err s'. pub pe m s = Some ((msg, err), s') \<and> I s'))"

fun is_roundtrip :: "measurement \<Rightarrow> bool" where
  "is_roundtrip (RoundTrip c d) = True"
| "is_roundtrip m = False"

fun is_sent :: "measurement \<Rightarrow> bool" where
  "is_sent (measurement.Message c r) \<longleftrightarrow> r = ''sent''"
| "is_sent m = False"

text \<open>The books of a publish run after \<open>k\<close> iterations.\<close>

definition pub_books :: "'h hist_lib \<Rightarrow> nat \<Rightarrow> ('h, 's) pub_run \<Rightarrow> bool" where
  "pub_books H k st \<longleftrightarrow>
     hdr_inv (pr_lat st) \<and> outcomes H (pr_lat st) = int k \<and> hdr_Count H (pr_lat st) = pr_ok st \<and>
     int (length (filter is_roundtrip (pr_meas st))) = pr_ok st \<and>
     pr_ok st \<le> int (length (filter is_sent (pr_meas st))) \<and>
     int (length (filter is_sent (pr_meas st))) \<le> int k \<and>
     length (pr_stderr st) \<le> 3 \<and> int (length (pr_stderr st)) \<le> NumErrors (pr_lat st) \<and>
     GetEnvelope (pr_msg st) \<noteq> None"

lemma GetEnvelope_Set [simp]: "GetEnvelope (SetEnvelope e m) = Some e"
  by (cases m) simp_all

lemma pub_books_init: "hist_ok H \<Longrightarrow> GetEnvelope m \<noteq> None \<Longrightarrow> pub_books H 0 (pub_init H br m s)"
  by (simp add: pub_books_def pub_init_def outcomes_def)

lemma publish_step_books:
  assumes "hist_ok H" "okResult \<noteq> ''sent''" "pub_books H k st"
    and "publish_step H mu pub br runID fixture okResult i pe st = Some st'"
  shows "pub_books H (Suc k) st'"
  using assms(4,3) hdr_counts [OF assms(1)] hdr_inv_error [of "pr_lat st"] assms(2)
  by (auto simp: publish_step_def pub_books_def outcomes_def Let_def split: option.splits sum.splits)

lemma publish_step_total:
  assumes "publishes I pub" "I (pr_pool st)" "GetEnvelope (pr_msg st) \<noteq> None"
  shows "\<exists>st'. publish_step H mu pub br runID fixture okResult i pe st = Some st' \<and> I (pr_pool st') \<and> GetEnvelope (pr_msg st') \<noteq> None"
proof -
  obtain env0 where e0: "GetEnvelope (pr_msg st) = Some env0" using assms(3) by blast
  show ?thesis
  proof (cases "Fill (pe_uuid pe) mu (pe_now pe) runID (of_nat i) (br_cenum br) (br_tenum br) fixture env0")
    case (Inl err)
    with e0 assms(2) show ?thesis by (simp add: publish_step_def)
  next
    case (Inr env)
    obtain msg err s' where "pub pe (SetEnvelope env (pr_msg st)) (pr_pool st) = Some ((msg, err), s')" "I s'"
      using assms(1,2) unfolding publishes_def by blast
    with e0 Inr show ?thesis by (cases err) (simp_all add: publish_step_def Let_def)
  qed
qed

lemma publish_loop_spec:
  assumes "hist_ok H" "okResult \<noteq> ''sent''" "publishes I pub" "I (pr_pool st)" "pub_books H k st"
  shows "\<exists>st'. publish_loop H mu pub br runID fixture okResult i pes st = Some st' \<and> I (pr_pool st') \<and> pub_books H (k + length pes) st'"
  using assms(4,5)
proof (induction pes arbitrary: i k st)
  case (Cons pe pes)
  then have "GetEnvelope (pr_msg st) \<noteq> None" by (simp add: pub_books_def)
  from publish_step_total [OF assms(3) Cons.prems(1) this] obtain st1
    where st1: "publish_step H mu pub br runID fixture okResult i pe st = Some st1" "I (pr_pool st1)" by blast
  have "pub_books H (Suc k) st1" by (rule publish_step_books [OF assms(1,2) Cons.prems(2) st1(1)])
  from Cons.IH [OF st1(2) this, of "Suc i"] st1(1) show ?case by simp
qed simp

lemma bus_publishers:
  assumes "lib_ok enc M"
  shows "publishes (\<lambda>s. pool_inv s {}) (\<lambda>pe. jetstream_Publish M Buffers_Get Buffers_Put opts (pe_err pe) (pe_choice pe) region)"
    and "publishes (\<lambda>s. pool_inv s {}) (\<lambda>pe. stream_Publish M Buffers_Get Buffers_Put opts (pe_err pe) (pe_choice pe) region)"
    and "publishes (\<lambda>s. pool_inv s {}) (\<lambda>pe. quorum_Publish M Buffers_Get Buffers_Put opts (pe_err pe) (pe_confirm pe) (pe_choice pe) region)"
    and "publishes (\<lambda>s. pool_inv s {}) (\<lambda>pe. log_Publish M Buffers_Get Buffers_Put opts (pe_err pe) (pe_choice pe) region wid)"
  unfolding publishes_def using bp.publish_spec [OF _ assms] by blast+

lemma mqtt_publisher:
  assumes "lib_ok enc M"
  shows "publishes (\<lambda>s. pool_inv (fst s) {}) (\<lambda>pe. mqtt_Publish M Buffers_Get Buffers_Put opts (pe_token pe) (pe_choice pe) region)"
  unfolding publishes_def
proof (intro allI impI)
  fix pe m and s :: "buffers \<times> nat set" assume s: "pool_inv (fst s) {}"
  show "\<exists>msg err s'. mqtt_Publish M Buffers_Get Buffers_Put opts (pe_token pe) (pe_choice pe) region m s = Some ((msg, err), s') \<and> pool_inv (fst s') {}"
    by (rule bp.encode_put [OF s assms, of "o_Codec opts" "pe_choice pe" m])
      (auto simp: mqtt_Publish_def Let_def split: prod.splits sum.splits)
qed

lemma Telemetry_envelope: "te_Envelope (Telemetry L c n) = Some (envelope_of L c Medium 4)"
  unfolding Telemetry_def
  by (rule with_rand_pred, (rule pred_bind [OF pred_any])+) simp

lemma telemetry_has_envelope [simp]: "GetEnvelope (telemetry_sample_of L br) \<noteq> None"
  by (simp add: telemetry_sample_of_def Telemetry_envelope)

definition run_books :: "('h, 'u) bench_world \<Rightarrow> bench_flags \<Rightarrow> ('s \<Rightarrow> bool) \<Rightarrow> ('h, 's) pub_outcome option \<Rightarrow> bool" where
  "run_books W f I r \<longleftrightarrow>
     (\<exists>err files st. r = Some (err, files, Some st) \<and> I (pr_pool st) \<and>
        hdr_Count (bw_hist W) (pr_lat st) + NumErrors (pr_lat st) = int (nat (bf_n f)) \<and>
        int (length (filter is_roundtrip (pr_meas st))) = hdr_Count (bw_hist W) (pr_lat st) \<and>
        length (pr_stderr st) \<le> 3)"

lemma run_publisher_books:
  assumes "hist_ok (bw_hist W)" "okResult \<noteq> ''sent''" "publishes I pub" "I s" "GetEnvelope sample \<noteq> None"
  shows "run_books W f I (run_publisher W pub br f fixture okResult sample s)"
proof -
  have "I (pr_pool (pub_init (bw_hist W) br sample s))" using assms(4) by (simp add: pub_init_def)
  from publish_loop_spec [OF assms(1-3) this pub_books_init [OF assms(1,5)], where pes = "map (bw_env W) [0..<nat (bf_n f)]"]
  obtain st where st: "publish_loop (bw_hist W) (bw_marshal W) pub br (bf_runID f) fixture okResult 0 (map (bw_env W) [0..<nat (bf_n f)])
      (pub_init (bw_hist W) br sample s) = Some st" "I (pr_pool st)" "pub_books (bw_hist W) (nat (bf_n f)) st"
    by fastforce
  then show ?thesis
    by (auto simp: run_publisher_def run_books_def pub_books_def outcomes_def Let_def simp del: int_nat_eq split: prod.splits)
qed

section \<open>Properties\<close>


text \<open>A message library that codes messages as numbers, and a world whose second publish fails.\<close>

definition count_bytes :: "wl_message \<Rightarrow> bytes" where
  "count_bytes m = replicate (to_nat m) 0"

definition count_msg_lib :: "wl_message msg_lib" where
  "count_msg_lib =
     \<lparr>l_env = GetEnvelope, l_set_env = SetEnvelope, l_hint = (\<lambda>c m. int (to_nat m)),
      l_append = (\<lambda>c (arr, n) m. (Inr (take n arr @ count_bytes m, n + to_nat m), arr)),
      l_unmarshal = (\<lambda>c b. Inr (from_nat (length b))),
      l_validate = (\<lambda>m. if violations m = [] then None else Some (Opaque ''invalid'')), l_sha256 = (\<lambda>b. take 32 (b @ replicate 32 0))\<rparr>"

lemma count_msg_lib_ok: "lib_ok (\<lambda>c. count_bytes) count_msg_lib"
  by (auto simp: lib_ok_def count_msg_lib_def count_bytes_def appends_def)

lemma count_msg_lib_total: "lib_total count_msg_lib"
  by (auto simp: lib_total_def count_msg_lib_def)

definition demo_pub_env :: "nat \<Rightarrow> bytes pub_env" where
  "demo_pub_env i =
     \<lparr>pe_uuid = Inr (replicate 16 1), pe_now = baseTime, pe_err = (if i = 1 then Some (Opaque ''no responders'') else None),
      pe_confirm = Inr (i \<noteq> 1), pe_token = Inr (if i = 1 then Some (Opaque ''lost'') else None), pe_choice = None, pe_took = 1000\<rparr>"

definition demo_world :: "(int, bytes) bench_world" where
  "demo_world =
     \<lparr>bw_hist = count_hist, bw_msg = count_msg_lib, bw_marshal = Inr, bw_env = demo_pub_env, bw_elapsed = Second, bw_provider = None,
      bw_instruments = None, bw_hgrm_err = (\<lambda>i. None), bw_write_err = (\<lambda>p. None), bw_json_err = (\<lambda>c. None)\<rparr>"

definition demo_flags :: bench_flags where
  "demo_flags =
     \<lparr>bf_addr = ''127.0.0.1:30422'', bf_user = ''admin'', bf_pass = '''', bf_region = ''us-west-2'', bf_runID = ''local'', bf_seed = 42,
      bf_codecName = ''proto'', bf_poolName = ''all'', bf_fixture = ''telemetry'', bf_gc = ''default'', bf_mode = ''latency'', bf_validate = False,
      bf_n = 3, bf_inflight = 0, bf_rate = 0, bf_duration = 30 * Second, bf_step = 10 * Second, bf_floor = 0, bf_conns = 0, bf_timeout = 5 * Second,
      bf_sentinels = '''', bf_repeat = 0, bf_out = '''', bf_hgrm = ''''\<rparr>"


lemma telemetry_fixture_violation: "Fixture env = ''telemetry'' \<Longrightarrow> envelope_violations env \<noteq> []"
  by (simp add: envelope_violations_def)

lemma violations_envelope: "GetEnvelope m = Some env \<Longrightarrow> violations m = [] \<Longrightarrow> envelope_violations env = []"
  by (cases m) (auto simp: violations_def deploy_violations_def log_chunk_violations_def telemetry_violations_def usage_violations_def)

text \<open>C25. A sample the client publishes never validates: its envelope names the fixture \<open>telemetry\<close>, which the schema does not
  list.  An agent that validates, of any transport, counts every one of them as a validation error and none
  as \<open>ok\<close>.\<close>

theorem telemetry_refused:
  assumes "publish_step H mu pub br runID ''telemetry'' okResult i pe st = Some st'" "Fill (pe_uuid pe) mu (pe_now pe) runID (of_nat i) (br_cenum br) (br_tenum br) ''telemetry'' env0 = Inr env"
    and "GetEnvelope (pr_msg st) = Some env0"
    and "l_env M = GetEnvelope" "l_set_env M = SetEnvelope" "\<forall>m. l_validate M m = None \<longrightarrow> violations m = []"
    and "l_unmarshal M (mg_codec msg) (mg_body msg) = Inr (pr_msg st')" "o_Validate opts"
  shows "(\<exists>cl. Rec (ErrorCount cl ''validate'') \<in> set (consume_durable M a opts now msg) \<and> Rec (ErrorCount cl ''validate'') \<in> set (consumeTelemetry M a opts now msg)) \<and>
    (\<forall>cl. Rec (measurement.Message cl ''ok'') \<notin> set (consume_durable M a opts now msg) \<and> Rec (measurement.Message cl ''ok'') \<notin> set (consumeTelemetry M a opts now msg))"
proof -
  have fx: "Fixture env = ''telemetry''" using assms(2) by (auto simp: Fill_def split: sum.splits)
  have "GetEnvelope (pr_msg st') = Some env"
    using assms(1-3) by (auto simp: publish_step_def Let_def split: option.splits)
  then obtain m1 where m1: "stamp_received M opts (ag_responderID a) now (mg_body msg) (pr_msg st') = m1"
    and "\<exists>e. GetEnvelope m1 = Some e \<and> Fixture e = ''telemetry''"
    using fx assms(4,5) by (auto simp: stamp_received_def StampReceive_def Let_def)
  then have "violations m1 \<noteq> []" using violations_envelope telemetry_fixture_violation by blast
  then obtain e where "l_validate M m1 = Some e" using assms(6) by blast
  then have d: "decode_msg M opts (ag_responderID a) now (mg_codec msg) (mg_body msg) = (Some m1, Some e)"
    using assms(7,8) m1 by (simp add: decode_msg_def Let_def)
  show ?thesis by (auto simp: consume_durable_def consumeTelemetry_def d Let_def)
qed

definition demo_run :: bus_run where
  "demo_run =
     \<lparr>br_opts = \<lparr>o_Codec = Proto, o_Region = ''us-west-2'', o_Integrity = False, o_Validate = False\<rparr>, br_pool = ModeAll,
      br_cell = \<lparr>c_Transport = ''nats_jetstream'', c_Codec = ''proto'', c_Fixture = ''telemetry'', c_Pool = ''all'', c_GC = ''default'',
        c_Mode = ''latency'', c_Region = ''us-west-2'', c_Role = ''client'', c_Tier = ''at_least_once''\<rparr>,
      br_cenum = CODEC_PROTO, br_tenum = TRANSPORT_NATS_JETSTREAM, br_corpus = New 42\<rparr>"

lemma telemetry_refused_witness:
  "\<exists>st' cl. publish_step count_hist Inr (\<lambda>pe m u. Some ((None, None), u)) demo_run ''local'' ''telemetry'' ''ok'' 0 (demo_pub_env 0)
       (pub_init count_hist demo_run (telemetry_sample_of sample_lib demo_run) ()) = Some st' \<and>
     Rec (ErrorCount cl ''validate'') \<in> set (consume_durable count_msg_lib \<lparr>ag_region = ''us-west-2'', ag_pool = ''all'', ag_responderID = ''us-west-2/pod''\<rparr>
       (br_opts demo_run\<lparr>o_Validate := True\<rparr>) baseTime \<lparr>mg_id = ''1'', mg_codec = Proto, mg_body = count_bytes (pr_msg st'), mg_redelivered = False\<rparr>)"
proof -
  let ?st = "pub_init count_hist demo_run (telemetry_sample_of sample_lib demo_run) ()"
  let ?pub = "\<lambda>pe m u. Some ((None, None), u)"
  have e0: "GetEnvelope (pr_msg ?st) = Some (envelope_of sample_lib (New 42) Medium 4)"
    by (simp add: pub_init_def telemetry_sample_of_def Telemetry_envelope demo_run_def)
  obtain env where env: "Fill (pe_uuid (demo_pub_env 0)) Inr (pe_now (demo_pub_env 0)) ''local'' (of_nat 0) (br_cenum demo_run) (br_tenum demo_run)
      ''telemetry'' (envelope_of sample_lib (New 42) Medium 4) = Inr env"
    by (simp add: Fill_def demo_pub_env_def)
  obtain st' where st': "publish_step count_hist Inr ?pub demo_run ''local'' ''telemetry'' ''ok'' 0 (demo_pub_env 0) ?st = Some st'"
    using publish_step_total [of "\<lambda>s. True" ?pub ?st] e0 unfolding publishes_def by blast
  define msg where "msg = \<lparr>mg_id = ''1'', mg_codec = Proto, mg_body = count_bytes (pr_msg st'), mg_redelivered = False\<rparr>"
  have um: "l_unmarshal count_msg_lib (mg_codec msg) (mg_body msg) = Inr (pr_msg st')"
    by (simp add: msg_def count_msg_lib_def count_bytes_def)
  have lib: "l_env count_msg_lib = GetEnvelope" "l_set_env count_msg_lib = SetEnvelope"
    "\<forall>m. l_validate count_msg_lib m = None \<longrightarrow> violations m = []" by (simp_all add: count_msg_lib_def)
  have val: "o_Validate (br_opts demo_run\<lparr>o_Validate := True\<rparr>)" by simp
  from telemetry_refused [OF st' env e0 lib um val] st' show ?thesis unfolding msg_def by blast
qed



subsection \<open>The end of the fan-out\<close>

text \<open>Why a wait ended at poll \<open>j\<close>: everything arrived, nothing arrived for three seconds, or the deadline passed.\<close>

definition wait_reason :: "(nat \<Rightarrow> poll) \<Rightarrow> int \<Rightarrow> timestamp \<Rightarrow> timestamp set \<Rightarrow> nat \<Rightarrow> bool" where
  "wait_reason polls expected deadline starts j \<longleftrightarrow>
     pl_got (polls j) \<ge> expected \<or> pl_after (polls j) > deadline \<or>
     (\<exists>lp \<in> starts \<union> (pl_mark \<circ> polls) ` {..j}. pl_since (polls j) - lp > 3 * Second)"

lemma wait_loop_returns:
  assumes "pl_after (polls K) > deadline" "i \<le> K" "K - i < fuel" "lp \<in> starts \<union> (pl_mark \<circ> polls) ` {..i}"
  shows "\<exists>j. wait_loop fuel polls expected deadline i lg lp = Some j \<and> j \<le> K \<and> wait_reason polls expected deadline starts j"
  using assms(2-4)
proof (induction fuel arbitrary: i lg lp)
  case (Suc fuel)
  let ?p = "polls i"
  let ?lp = "if pl_got ?p \<noteq> lg then pl_mark ?p else lp"
  have lp: "?lp \<in> starts \<union> (pl_mark \<circ> polls) ` {..i}" using Suc.prems(3) by auto
  show ?case
  proof (cases "pl_got ?p \<ge> expected \<or> pl_since ?p - ?lp > 3 * Second \<or> pl_after ?p > deadline")
    case True
    then have "wait_loop (Suc fuel) polls expected deadline i lg lp = Some i" by (auto simp: Let_def)
    moreover have "wait_reason polls expected deadline starts i" using True lp unfolding wait_reason_def by blast
    ultimately show ?thesis using Suc.prems(1) by blast
  next
    case False
    then have "i \<noteq> K" using assms(1) by blast
    then have next_i: "Suc i \<le> K" "K - Suc i < fuel" using Suc.prems(1,2) by simp_all
    have lp': "?lp \<in> starts \<union> (pl_mark \<circ> polls) ` {..Suc i}"
      using lp by (rule rev_subsetD) (auto simp: atMost_Suc)
    have "wait_loop (Suc fuel) polls expected deadline i lg lp = wait_loop fuel polls expected deadline (Suc i) (pl_got ?p) ?lp"
      using False by (auto simp: Let_def)
    then show ?thesis using Suc.IH [OF next_i lp', of "pl_got ?p"] by simp
  qed
qed simp

lemma polls_advance:
  assumes "\<forall>i. pl_after (polls (Suc i)) \<ge> pl_after (polls i) + d" "pl_after (polls 0) \<ge> (start :: int)"
  shows "pl_after (polls i) \<ge> start + int i * d"
proof (induction i)
  case (Suc i)
  have "pl_after (polls (Suc i)) \<ge> pl_after (polls i) + d" using assms(1) by blast
  with Suc show ?case by (simp add: algebra_simps)
qed (use assms(2) in simp)



subsection \<open>The books of the fan-out\<close>

lemma sint_small: "uint (w :: 64 word) < 2 ^ 63 \<Longrightarrow> sint w = uint w"
  using signed_take_bit_int_eq_self [of 63 "uint w"] uint_ge_0 [of w] by (simp add: sint_uint)

lemma div_one: "2 ^ 63 \<le> k \<Longrightarrow> k < 2 ^ 64 \<Longrightarrow> k div 9223372036854775808 = (1 :: int)"
  by simp

lemma sint_large: "2 ^ 63 \<le> uint (w :: 64 word) \<Longrightarrow> sint w < 0"
  using div_one [of "uint w"] unsigned_less [of w, where ?'a = int] by (simp add: sint_uint signed_take_bit_negative_iff bit_iff_odd)

text \<open>A delivery whose sequence number, if it decodes to one, fits an \<open>int64\<close>.\<close>

definition sequence_fits :: "wl_message msg_lib \<Rightarrow> options \<Rightarrow> string \<Rightarrow> timestamp \<Rightarrow> codec \<times> bytes \<Rightarrow> bool" where
  "sequence_fits M opts region recv msg =
     (case decode_msg M opts (region @ ''/subscriber'') recv (fst msg) (snd msg) of
        (Some req, None) \<Rightarrow> (case l_env M req of None \<Rightarrow> True | Some e \<Rightarrow> uint (Sequence e) < 2 ^ 63)
      | _ \<Rightarrow> True)"

fun event_fits :: "wl_message msg_lib \<Rightarrow> options \<Rightarrow> string \<Rightarrow> 'u log_event \<Rightarrow> bool" where
  "event_fits M opts region (Publish_Chunk since pe) = True"
| "event_fits M opts region (Deliver_Chunk recv since msg) = sequence_fits M opts region recv msg"

fun is_publish :: "'u log_event \<Rightarrow> bool" where
  "is_publish (Publish_Chunk since pe) = True"
| "is_publish (Deliver_Chunk recv since msg) = False"

definition fan_books :: "'h hist_lib \<Rightarrow> nat \<Rightarrow> 'h fanout \<Rightarrow> bool" where
  "fan_books H k fo \<longleftrightarrow> hdr_Count H (fo_fan fo) \<le> fo_delivered fo \<and> fo_delivered fo \<le> int k \<and> NumErrors (fo_fan fo) = 0"

lemma onMsg_books:
  assumes "hist_ok H" "fan_books H k fo" "sequence_fits M (br_opts br) region recv msg"
  shows "\<exists>fo'. onMsg H M br region recv since msg fo = Some fo' \<and> fan_books H (Suc k) fo'"
proof (cases "decode_msg M (br_opts br) (region @ ''/subscriber'') recv (fst msg) (snd msg)")
  case (Pair req derr)
  show ?thesis
  proof (cases derr)
    case (Some e)
    with Pair assms(2) show ?thesis by (simp add: onMsg_def fan_books_def Let_def)
  next
    case None
    show ?thesis
    proof (cases "Option.bind req (l_env M)")
      case None
      with Pair \<open>derr = None\<close> assms(2) show ?thesis by (simp add: onMsg_def fan_books_def Let_def)
    next
      case (Some env)
      then have "uint (Sequence env) < 2 ^ 63"
        using assms(3) Pair \<open>derr = None\<close> by (cases req) (auto simp: sequence_fits_def)
      from sint_small [OF this] Some Pair \<open>derr = None\<close> assms(2) hdr_counts [OF assms(1)]
      show ?thesis by (simp add: onMsg_def fan_books_def Let_def)
    qed
  qed
qed

lemma log_step_books:
  assumes "hist_ok H" "publishes I pub" "I (pr_pool p)" "pub_books H k p" "fan_books H d fo"
  shows "\<exists>p' fo'. log_step H mu pub br runID fixture i since pe (p, fo) = Some (p', fo') \<and> I (pr_pool p') \<and> pub_books H (Suc k) p' \<and> fan_books H d fo'"
proof -
  have e: "GetEnvelope (pr_msg p) \<noteq> None" using assms(4) by (simp add: pub_books_def)
  from publish_step_total [OF assms(2,3) e] obtain p'
    where p': "publish_step H mu pub br runID fixture ''ok'' i pe p = Some p'" "I (pr_pool p')" by blast
  have "pub_books H (Suc k) p'" by (rule publish_step_books [OF assms(1) _ assms(4) p'(1)]) simp
  with p' assms(5) show ?thesis by (simp add: log_step_def Let_def fan_books_def)
qed

lemma log_run_books:
  assumes "hist_ok H" "publishes I pub" "\<forall>ev \<in> set evs. event_fits M (br_opts br) region ev"
    and "I (pr_pool p)" "pub_books H k p" "fan_books H d fo"
  shows "\<exists>p' fo'. log_run H M mu pub br region runID fixture i evs (p, fo) = Some (p', fo') \<and> I (pr_pool p') \<and>
    pub_books H (k + length (filter is_publish evs)) p' \<and> fan_books H (d + length (filter (\<lambda>ev. \<not> is_publish ev) evs)) fo'"
  using assms(3-)
proof (induction evs arbitrary: i k d p fo)
  case (Cons ev evs)
  show ?case
  proof (cases ev)
    case (Publish_Chunk since pe)
    from log_step_books [OF assms(1,2) Cons.prems(2-4)] obtain p' fo'
      where s: "log_step H mu pub br runID fixture i since pe (p, fo) = Some (p', fo')" "I (pr_pool p')" "pub_books H (Suc k) p'" "fan_books H d fo'"
      by blast
    have "\<forall>ev \<in> set evs. event_fits M (br_opts br) region ev" using Cons.prems(1) by simp
    from Cons.IH [OF this s(2-4), of "Suc i"] s(1) Publish_Chunk show ?thesis by simp
  next
    case (Deliver_Chunk recv since msg)
    then have "sequence_fits M (br_opts br) region recv msg" using Cons.prems(1) by simp
    from onMsg_books [OF assms(1) Cons.prems(4) this] obtain fo'
      where s: "onMsg H M br region recv since msg fo = Some fo'" "fan_books H (Suc d) fo'" by blast
    have "\<forall>ev \<in> set evs. event_fits M (br_opts br) region ev" using Cons.prems(1) by simp
    from Cons.IH [OF this Cons.prems(2,3) s(2), of i] s(1) Deliver_Chunk show ?thesis by simp
  qed
qed simp

lemma LogChunk_envelope: "lc_Envelope (logChunk L c f salt n) = Some (envelope_of L c f 3)"
  unfolding logChunk_def by (rule with_rand_pred, (rule pred_bind [OF pred_any])+) simp

lemma subscribe_all_ok: "(\<And>i. errs i = None) \<Longrightarrow> subscribe_all errs i k = Inr ()"
  by (induction errs i k rule: subscribe_all.induct) simp_all



text \<open>A chunk on the same subject whose sequence number is \<open>2 ^ 63\<close> or more, from any publisher, panics the subscriber: the
  bounds test converts it to a negative \<open>int\<close>.\<close>

theorem stray_chunk_panics:
  assumes "decode_msg M (br_opts br) (region @ ''/subscriber'') recv (fst msg) (snd msg) = (Some req, None)"
    and "l_env M req = Some env" "2 ^ 63 \<le> uint (Sequence env)" "length (fo_t0 fo) < 2 ^ 63"
  shows "onMsg H M br region recv since msg fo = None"
  using assms sint_large [OF assms(3)] by (simp add: onMsg_def Let_def)

definition stray_chunk :: wl_message where
  "stray_chunk = wl_message.PingRequest (Some (zero_envelope\<lparr>Sequence := 9223372036854775808\<rparr>))"

lemma stray_chunk_panics_witness:
  "onMsg count_hist count_msg_lib demo_run ''us-west-2'' baseTime 0 (Proto, count_bytes stray_chunk)
     \<lparr>fo_t0 = [1, 2], fo_delivered = 0, fo_fan = NewHDR count_hist, fo_meas = []\<rparr> = None"
proof -
  define e where "e = StampReceive (l_sha256 count_msg_lib) baseTime ''us-west-2/subscriber'' (count_bytes stray_chunk) False
      (zero_envelope\<lparr>Sequence := 9223372036854775808\<rparr>)"
  have seq: "2 ^ 63 \<le> uint (Sequence e)" by (simp add: e_def StampReceive_def)
  have "l_unmarshal count_msg_lib Proto (count_bytes stray_chunk) = Inr stray_chunk"
    by (simp add: count_msg_lib_def count_bytes_def)
  moreover have "l_env count_msg_lib = GetEnvelope" "l_set_env count_msg_lib = SetEnvelope" by (simp_all add: count_msg_lib_def)
  ultimately have dec: "decode_msg count_msg_lib (br_opts demo_run) (''us-west-2'' @ ''/subscriber'') baseTime (fst (Proto, count_bytes stray_chunk))
      (snd (Proto, count_bytes stray_chunk)) = (Some (wl_message.PingRequest (Some e)), None)"
    by (simp add: decode_msg_def stamp_received_def stray_chunk_def demo_run_def e_def)
  have env: "l_env count_msg_lib (wl_message.PingRequest (Some e)) = Some e" by (simp add: count_msg_lib_def)
  show ?thesis by (rule stray_chunk_panics [OF dec env seq]) simp
qed

lemma codec_iterations_ok:
  assumes "lib_ok enc M" "lib_total M" "pool_inv s {}"
  shows "\<exists>s'. codec_iterations M Buffers_Get Buffers_Put cdc ch msg k s = Some (None, s') \<and> pool_inv s' {}"
  using assms(3)
proof (induction k arbitrary: s)
  case (Suc k)
  obtain p s1 where p: "encode_with M Buffers_Get Buffers_Put cdc (ch k) msg s = Some (Inr p, s1)" "visible p = enc cdc msg"
    "pool_inv (Buffers_Put (Some p) s1) {}"
    by (rule bp.encode_total [OF Suc.prems assms(1,2)])
  moreover have "l_unmarshal M cdc (enc cdc msg) = Inr msg" using assms(1) by (simp add: lib_ok_def)
  ultimately show ?case using Suc.IH [OF p(3)] by simp
qed simp

text \<open>The in-process loop returns for every pool state, codec and fixture: its figures after \<open>n\<close> round trips with every buffer back in
  the pool when \<open>n\<close> is not zero, and a panic, from the division, when it is.\<close>

theorem codec_loop:
  assumes "lib_ok enc M" "lib_total M" "pool_inv s {}" "fixture \<in> set AllFixtures"
  shows "case runLoop L M Buffers_Get Buffers_Put c cdc warm ch elapsed fixture n s of
      None \<Rightarrow> n = 0
    | Some (r, s') \<Rightarrow> n \<noteq> 0 \<and> (\<exists>w. r = Inr (w, elapsed sdiv n)) \<and> pool_inv s' {}"
proof -
  obtain msg where m: "Corpus.Message L c fixture = Inr msg" using Message_built [OF assms(4)] by blast
  obtain p s1 where p: "encode_with M Buffers_Get Buffers_Put cdc warm msg s = Some (Inr p, s1)" "pool_inv (Buffers_Put (Some p) s1) {}"
    by (rule bp.encode_total [OF assms(3,1,2)])
  obtain s3 where s3: "codec_iterations M Buffers_Get Buffers_Put cdc ch msg (nat n) (Buffers_Put (Some p) s1) = Some (None, s3)" "pool_inv s3 {}"
    using codec_iterations_ok [OF assms(1,2) p(2)] by blast
  obtain arr w rest where "l_append M cdc ([], 0) msg = (Inr (arr, w), rest)"
    using assms(2) unfolding lib_total_def by (metis prod.collapse)
  with m p s3 show ?thesis by (simp add: runLoop_def)
qed

lemma codec_loop_witness:
  "\<exists>s w s'. NewBuffers [4, 8] = Inr s \<and>
     runLoop sample_lib count_msg_lib Buffers_Get Buffers_Put (New 42) Proto None (\<lambda>i. None) (3 * Second) Medium 1000 s = Some (Inr (w, (3 * Second) sdiv 1000), s') \<and>
     pool_inv s' {}"
proof -
  obtain s where s: "NewBuffers [4, 8] = Inr s" "pool_inv s {}" using small_pool by blast
  from codec_loop [OF count_msg_lib_ok count_msg_lib_total s(2) medium_fixture, where L = sample_lib and c = "New 42" and cdc = Proto
      and warm = None and ch = "\<lambda>i. None" and elapsed = "3 * Second" and n = 1000]
  show ?thesis using s(1) by (auto split: option.splits)
qed

end
