(* ===== verification/Benchcli.thy ===== *)
theory Benchcli
  imports Publish Report
begin

text \<open>
  The command of the benchmark client (\<open>clients/workloads/benchcli/main.go\<close>): the switch over its subcommands with
  its exit status, the \<open>codec\<close> subcommand with the two demos of the schema, \<open>clockprobe\<close> and \<open>report\<close>, and the
  reading and writing of \<open>run.json\<close> (\<open>clients/internal/runrecord/runrecord.go\<close>).

  Files are a map from paths to contents.  JSON is an argument; its round trip is the hypothesis \<open>json_ok\<close>.
  Of package \<open>path/filepath\<close>, \<open>Clean\<close>, \<open>Dir\<close> and \<open>Join\<close> are defined here, for Unix paths.
\<close>

section \<open>Paths\<close>

fun clean_parts :: "bool \<Rightarrow> string list \<Rightarrow> string list \<Rightarrow> string list" where
  "clean_parts rooted acc [] = acc"
| "clean_parts rooted acc (p # ps) =
     (if p = '''' \<or> p = ''.'' then clean_parts rooted acc ps
      else if p = ''..'' then
        (if acc \<noteq> [] \<and> last acc \<noteq> ''..'' then clean_parts rooted (butlast acc) ps
         else if rooted then clean_parts rooted acc ps
         else clean_parts rooted (acc @ [p]) ps)
      else clean_parts rooted (acc @ [p]) ps)"

definition Clean :: "string \<Rightarrow> string" where
  "Clean path =
     (if path = '''' then ''.''
      else
        (let rooted = (hd path = CHR ''/''); s = Join ''/'' (clean_parts rooted [] (Split CHR ''/'' path)) in
         if rooted then ''/'' @ s else if s = '''' then ''.'' else s))"

definition filepath_Dir :: "string \<Rightarrow> string" where
  "filepath_Dir path = Clean (rev (dropWhile (\<lambda>c. c \<noteq> CHR ''/'') (rev path)))"

definition filepath_Join :: "string list \<Rightarrow> string" where
  "filepath_Join elems = (let es = filter (\<lambda>e. e \<noteq> '''') elems in if es = [] then '''' else Clean (Join ''/'' es))"

section \<open>The run record on disk\<close>

type_synonym files = "string \<rightharpoonup> string"

record run_json =
  rj_marshal :: "run \<Rightarrow> gerr + string"
  rj_unmarshal :: "string \<Rightarrow> gerr + run"

text \<open>\<open>no_file\<close> is the error of reading a path that does not exist, \<open>write_err\<close> the outcome of writing a path.\<close>

definition Load :: "run_json \<Rightarrow> (string \<Rightarrow> gerr) \<Rightarrow> files \<Rightarrow> string \<Rightarrow> gerr + run" where
  "Load J no_file fs path =
     (case fs path of
        None \<Rightarrow> Inl (no_file path)
      | Some b \<Rightarrow> (case rj_unmarshal J b of Inl e \<Rightarrow> Inl (Wrapf (''parse '' @ path @ '': '') e '''') | Inr r \<Rightarrow> Inr r))"

definition write_file :: "(string \<Rightarrow> gerr option) \<Rightarrow> string \<Rightarrow> string \<Rightarrow> files \<Rightarrow> gerr option \<times> files" where
  "write_file write_err path b fs = (case write_err path of Some e \<Rightarrow> (Some e, fs) | None \<Rightarrow> (None, fs(path \<mapsto> b)))"

definition Save :: "run_json \<Rightarrow> (string \<Rightarrow> gerr option) \<Rightarrow> string \<Rightarrow> run \<Rightarrow> files \<Rightarrow> gerr option \<times> files" where
  "Save J write_err path r fs =
     (case rj_marshal J r of Inl e \<Rightarrow> (Some e, fs) | Inr b \<Rightarrow> write_file write_err path b fs)"

section \<open>report\<close>

record report_flags =
  rf_run :: string
  rf_outDir :: string
  rf_stdout :: bool

record command_io =
  co_out :: "string list"
  co_err :: "string list"
  co_files :: files

text \<open>The error, and what the command printed and wrote.\<close>

definition runReport :: "run_json \<Rightarrow> (string \<Rightarrow> gerr) \<Rightarrow> (string \<Rightarrow> gerr option) \<Rightarrow> report_flags \<Rightarrow> files \<Rightarrow> gerr option \<times> command_io" where
  "runReport J no_file write_err f fs =
     (let io = \<lparr>co_out = [], co_err = [], co_files = fs\<rparr> in
      if rf_run f = '''' then (Some (Opaque ''-run is required (path to run.json)''), io)
      else
        (case Load J no_file fs (rf_run f) of
           Inl e \<Rightarrow> (Some e, io)
         | Inr r \<Rightarrow>
             (let dir = (if rf_outDir f = '''' then filepath_Dir (rf_run f) else rf_outDir f);
                  tsvPath = filepath_Join [dir, ''results.tsv'']; mdPath = filepath_Join [dir, ''results.md''] in
              case write_file write_err tsvPath (renderTSV r) fs of
                (Some e, fs1) \<Rightarrow> (Some e, io\<lparr>co_files := fs1\<rparr>)
              | (None, fs1) \<Rightarrow>
                  (case write_file write_err mdPath (renderMarkdown r) fs1 of
                     (Some e, fs2) \<Rightarrow> (Some e, io\<lparr>co_files := fs2\<rparr>)
                   | (None, fs2) \<Rightarrow>
                       (None, \<lparr>co_out = (if rf_stdout f then [renderMarkdown r] else []),
                               co_err = [''wrote '' @ tsvPath @ '' and '' @ mdPath @ '' ('' @ nat_to_dec (length (ru_Cells r)) @ '' cells, '' @
                                         nat_to_dec (length (Aggregate (ru_Cells r))) @ '' aggregated)''],
                               co_files = fs2\<rparr>)))))"

section \<open>clockprobe\<close>

record probe_flags =
  pf_addr :: string
  pf_region :: string
  pf_probes :: int
  pf_codec :: string
  pf_timeout :: duration
  pf_json :: bool

definition probe_defaults :: probe_flags where
  "probe_defaults =
     \<lparr>pf_addr = ''127.0.0.1:30710'', pf_region = ''us-west-2'', pf_probes = 200, pf_codec = ''proto'', pf_timeout = 5 * Second, pf_json = False\<rparr>"

definition printClockResult :: "clock_result \<Rightarrow> string list" where
  "printClockResult r =
     [''clockprobe '' @ cr_Region r @ '': '' @ nat_to_dec (cr_OK r) @ ''/'' @ itoa (cr_Probes r) @ '' probes ok'',
      ''  offset       '' @ Duration_String (OffsetNs r),
      ''  uncertainty  '' @ Duration_String (UncertaintyNs r) @ '' (rtt_min '' @ Duration_String (RTTMinNs r) @ '')'',
      ''  clock_source '' @ cr_ClockSource r @ '' (chrony_synced='' @ (if cr_ChronySynced r then ''true'' else ''false'') @ '')'']"

text \<open>\<open>rounds n\<close> is what the \<open>n\<close> probes meet over the dialled connection; \<open>json\<close> encodes the result.\<close>

definition runClockProbe ::
  "('u \<Rightarrow> gerr + bytes) \<Rightarrow> (string \<Rightarrow> gerr option) \<Rightarrow> (nat \<Rightarrow> 'u probe_round list) \<Rightarrow> (clock_result \<Rightarrow> gerr + string) \<Rightarrow> probe_flags
   \<Rightarrow> gerr option \<times> string list" where
  "runClockProbe marshal_uuid dial rounds json f =
     (if pf_probes f \<le> 0 then (Some (Opaque ''-probes must be > 0''), [])
      else (case ByName (pf_codec f) of
              Inl e \<Rightarrow> (Some e, [])
            | Inr cdc \<Rightarrow>
                (case dial (pf_addr f) of
                   Some e \<Rightarrow> (Some (Wrapf (''dial '' @ pf_addr f @ '': '') e ''''), [])
                 | None \<Rightarrow>
                     (case clockProbe marshal_uuid (pf_region f) (pf_codec f) (rounds (nat (pf_probes f))) of
                        Inl e \<Rightarrow> (Some e, [])
                      | Inr res \<Rightarrow>
                          (if pf_json f then (case json res of Inl e \<Rightarrow> (Some e, []) | Inr line \<Rightarrow> (None, [line]))
                           else (None, printClockResult res))))))"

section \<open>codec\<close>

text \<open>\<open>mustMarshal\<close> panics on an error: \<open>None\<close>.\<close>

definition mustMarshal :: "check_lib \<Rightarrow> codec \<Rightarrow> wl_message \<Rightarrow> bytes option" where
  "mustMarshal K cdc m = (case k_marshal K cdc m of Inl e \<Rightarrow> None | Inr b \<Rightarrow> Some b)"

text \<open>\<open>printSizes\<close>: the cells of the table, one row per fixture, and the ProtoJSON text below it.  The rows
  are aligned by \<open>text/tabwriter\<close>.\<close>

definition sizes_row :: "'g lib \<Rightarrow> check_lib \<Rightarrow> corpus \<Rightarrow> fixture \<Rightarrow> (gerr + string list) option" where
  "sizes_row L K c f =
     (case Corpus.Message L c f of
        Inl e \<Rightarrow> Some (Inl e)
      | Inr m \<Rightarrow>
          (case (mustMarshal K Proto m, mustMarshal K ProtoJSON m, mustMarshal K VT m) of
             (Some p, Some j, Some v) \<Rightarrow> Some (Inr [f, nat_to_dec (length p), nat_to_dec (length j), nat_to_dec (length v)])
           | _ \<Rightarrow> None))"

fun sizes_rows :: "'g lib \<Rightarrow> check_lib \<Rightarrow> corpus \<Rightarrow> fixture list \<Rightarrow> (gerr + string list list) option" where
  "sizes_rows L K c [] = Some (Inr [])"
| "sizes_rows L K c (f # fs) =
     (case sizes_row L K c f of
        None \<Rightarrow> None
      | Some (Inl e) \<Rightarrow> Some (Inl e)
      | Some (Inr row) \<Rightarrow>
          (case sizes_rows L K c fs of
             None \<Rightarrow> None
           | Some (Inl e) \<Rightarrow> Some (Inl e)
           | Some (Inr rows) \<Rightarrow> Some (Inr (row # rows))))"

definition printSizes :: "'g lib \<Rightarrow> check_lib \<Rightarrow> corpus \<Rightarrow> (gerr + string list list \<times> bytes) option" where
  "printSizes L K c =
     (case sizes_rows L K c AllFixtures of
        None \<Rightarrow> None
      | Some (Inl e) \<Rightarrow> Some (Inl e)
      | Some (Inr rows) \<Rightarrow>
          (case mustMarshal K ProtoJSON (DeployRequest (Corpus.Deploy L c Dense)) of
             None \<Rightarrow> None
           | Some j \<Rightarrow> Some (Inr ([''fixture'', ''proto'', ''protojson'', ''vtproto''] # rows, j))))"

definition pad32 :: "string \<Rightarrow> string" where
  "pad32 s = s @ replicate (32 - length s) CHR '' ''"

definition printValidateDemo :: "'g lib \<Rightarrow> check_lib \<Rightarrow> corpus \<Rightarrow> gerr + string list" where
  "printValidateDemo L K c =
     (case k_validate K (DeployRequest (Corpus.Deploy L c Dense)) of
        Some e \<Rightarrow> Inl (Wrapf ''dense fixture unexpectedly failed validation: '' e '''')
      | None \<Rightarrow>
          Inr ([''valid: dense DeployRequest passes protovalidate'', ''\<newline>mutations (each violates exactly one rule):''] @
               map (\<lambda>ic. ''  '' @ pad32 (ic_Description ic) @ '' -> '' @ compact (k_validate K (ic_Message ic))) (InvalidCases L c)))"

text \<open>\<open>runCodec\<close> picks a demo before it looks at the codec and the pool.\<close>

record codec_flags =
  cf_codec :: string
  cf_fixture :: string
  cf_pool :: string
  cf_n :: int
  cf_seed :: u64
  cf_sizes :: bool
  cf_validateDemo :: bool
  cf_antipattern :: bool

datatype codec_task = SizesTask | ValidateTask | AntipatternTask | LoopTask codec mode fixture int

definition runCodec :: "codec_flags \<Rightarrow> gerr + codec_task" where
  "runCodec f =
     (if cf_sizes f then Inr SizesTask
      else if cf_validateDemo f then Inr ValidateTask
      else if cf_antipattern f then Inr AntipatternTask
      else (case ByName (cf_codec f) of
              Inl e \<Rightarrow> Inl e
            | Inr cdc \<Rightarrow>
                (case ParseMode (cf_pool f) of
                   Inl e \<Rightarrow> Inl (Opaque e)
                 | Inr m \<Rightarrow> Inr (LoopTask cdc m (cf_fixture f) (cf_n f)))))"

section \<open>The command\<close>

definition subcommands :: "string list" where
  "subcommands =
     [''codec'', ''grpc'', ''nats'', ''jetstream'', ''rabbitmq'', ''quorum'', ''valkey'', ''stream'', ''mqtt'', ''logs'', ''correctness'', ''clockprobe'', ''report'']"

definition usage_head :: string where
  "usage_head = ''usage: benchcli <'' @ Join ''|'' subcommands @ ''> [flags]''"

text \<open>\<open>sub\<close> runs a subcommand on the remaining arguments; the result is the exit status and what is printed
  on standard error, of the usage its first line.\<close>

definition benchcli_main :: "(string \<Rightarrow> string list \<Rightarrow> gerr option) \<Rightarrow> string list \<Rightarrow> int \<times> string option" where
  "benchcli_main sub args =
     (case args of
        [] \<Rightarrow> (2, Some usage_head)
      | cmd # rest \<Rightarrow>
          (if cmd \<notin> set subcommands then (2, Some usage_head)
           else (case sub cmd rest of
                   Some e \<Rightarrow> (1, Some (''benchcli '' @ cmd @ '': '' @ Error e))
                 | None \<Rightarrow> (0, None))))"

section \<open>Where a report goes\<close>

text \<open>A plain file name: no separator, and no name that \<open>Clean\<close> removes.\<close>

definition plain_name :: "string \<Rightarrow> bool" where
  "plain_name n \<longleftrightarrow> CHR ''/'' \<notin> set n \<and> n \<noteq> '''' \<and> n \<noteq> ''.'' \<and> n \<noteq> ''..''"

lemma Split_plain: "c \<notin> set n \<Longrightarrow> Split c n = [n]"
  by (induction n) auto

lemma Split_at_separator: "Split c (d @ c # e) = Split c d @ Split c e"
  by (induction d) (auto split: list.splits)

lemma clean_parts_snoc: "plain_name n \<Longrightarrow> clean_parts rooted acc (ps @ [n]) = clean_parts rooted acc ps @ [n]"
  by (induction ps arbitrary: acc) (auto simp: plain_name_def)

lemma last_Join: "x \<noteq> '''' \<Longrightarrow> last (Join sep (xs @ [x])) = last x \<and> Join sep (xs @ [x]) \<noteq> ''''"
proof (induction xs)
  case (Cons y xs)
  then show ?case by (cases "xs @ [x]") auto
qed simp

lemma last_Clean:
  assumes "plain_name n" and "Split CHR ''/'' p = ps @ [n]" and "p \<noteq> ''''"
  shows "last (Clean p) = last n"
proof -
  have "n \<noteq> ''''" using assms(1) by (simp add: plain_name_def)
  with last_Join [of n "''/''" "clean_parts (hd p = CHR ''/'') [] ps"] assms(2,3) clean_parts_snoc [OF assms(1)]
  show ?thesis by (auto simp: Clean_def Let_def)
qed

lemma last_filepath_Join:
  assumes "plain_name n"
  shows "last (filepath_Join [dir, n]) = last n"
proof (cases "dir = ''''")
  case True
  have n: "n \<noteq> ''''" "CHR ''/'' \<notin> set n" using assms by (auto simp: plain_name_def)
  have "last (Clean n) = last n" by (rule last_Clean [OF assms, of n "[]"]) (use n in \<open>simp_all add: Split_plain\<close>)
  with True n show ?thesis by (simp add: filepath_Join_def)
next
  case False
  have n: "n \<noteq> ''''" "CHR ''/'' \<notin> set n" using assms by (auto simp: plain_name_def)
  have "last (Clean (dir @ ''/'' @ n)) = last n"
    by (rule last_Clean [OF assms, of _ "Split CHR ''/'' dir"]) (use n Split_at_separator [of "CHR ''/''" dir n] in \<open>simp_all add: Split_plain\<close>)
  with False n show ?thesis by (simp add: filepath_Join_def)
qed

lemma report_paths_differ: "filepath_Join [dir, ''results.tsv''] \<noteq> filepath_Join [dir, ''results.md'']"
proof
  assume "filepath_Join [dir, ''results.tsv''] = filepath_Join [dir, ''results.md'']"
  then have "last (filepath_Join [dir, ''results.tsv'']) = last (filepath_Join [dir, ''results.md''])" by simp
  moreover have "plain_name ''results.tsv''" "plain_name ''results.md''" by (simp_all add: plain_name_def)
  ultimately show False by (simp add: last_filepath_Join)
qed

text \<open>Saving a run and rendering it: when the marshaller's text reads back, the two files hold the renderings of the very run
  that was saved, each under its own path, and no other file changes.\<close>

theorem report_rendered:
  assumes "rj_marshal J r = Inr b" and "rj_unmarshal J b = Inr r" and "\<And>p. write_err p = None" and "rf_run f \<noteq> ''''"
    and "dir = (if rf_outDir f = '''' then filepath_Dir (rf_run f) else rf_outDir f)"
  shows "\<exists>fs1 io. Save J write_err (rf_run f) r fs = (None, fs1) \<and> runReport J no_file write_err f fs1 = (None, io) \<and>
           co_files io = fs1(filepath_Join [dir, ''results.tsv''] \<mapsto> renderTSV r, filepath_Join [dir, ''results.md''] \<mapsto> renderMarkdown r) \<and>
           co_files io (filepath_Join [dir, ''results.tsv'']) = Some (renderTSV r) \<and>
           co_files io (filepath_Join [dir, ''results.md'']) = Some (renderMarkdown r) \<and>
           co_out io = (if rf_stdout f then [renderMarkdown r] else [])"
  using assms report_paths_differ [of dir]
  by (auto simp: Save_def runReport_def Load_def write_file_def Let_def)

section \<open>The demos of the schema\<close>

lemma marshals: "check_lib_ok K \<Longrightarrow> violations m = [] \<Longrightarrow> \<exists>b. mustMarshal K cdc m = Some b"
  by (auto simp: check_lib_ok_def mustMarshal_def) (metis sum.simps(6))

text \<open>The size table has a row for every fixture, and building it does not panic.\<close>

lemma sizes_rows_total:
  assumes "rand_ok L" and "check_lib_ok K" and "set fs \<subseteq> set AllFixtures"
  shows "\<exists>rows. sizes_rows L K c fs = Some (Inr rows) \<and> map hd rows = fs"
  using assms(3)
proof (induction fs)
  case (Cons f fs)
  obtain m where m: "Corpus.Message L c f = Inr m" "violations m = []" using Message_ok [OF assms(1), of f c] Cons.prems by auto
  obtain p j v where "mustMarshal K Proto m = Some p" "mustMarshal K ProtoJSON m = Some j" "mustMarshal K VT m = Some v"
    using marshals [OF assms(2) m(2)] by metis
  with m Cons show ?case by (auto simp: sizes_row_def)
qed simp

theorem demos_run:
  assumes "rand_ok L" and "check_lib_ok K"
  shows "(\<exists>rows j. printSizes L K c = Some (Inr (rows, j)) \<and> map hd (tl rows) = AllFixtures) \<and>
         (\<exists>ls. printValidateDemo L K c = Inr ls \<and> length ls = 2 + length (InvalidCases L c)) \<and>
         list_all (\<lambda>ic. \<exists>e. k_validate K (ic_Message ic) = Some e \<and> Contains (Error e) (ic_WantContains ic)) (InvalidCases L c)"
proof -
  obtain m where m: "Corpus.Message L c Dense = Inr m" "violations m = []"
    using Message_ok [OF assms(1), of Dense c] by (auto simp: AllFixtures_def)
  have d: "m = DeployRequest (Corpus.Deploy L c Dense)" using m(1) by (simp add: Corpus.Message_def split: if_splits)
  have v: "k_validate K (DeployRequest (Corpus.Deploy L c Dense)) = None" using assms(2) m(2) d by (simp add: check_lib_ok_def)
  obtain rows where rows: "sizes_rows L K c AllFixtures = Some (Inr rows)" "map hd rows = AllFixtures"
    using sizes_rows_total [OF assms order_refl] by blast
  obtain j where "mustMarshal K ProtoJSON (DeployRequest (Corpus.Deploy L c Dense)) = Some j"
    using marshals [OF assms(2), of _ ProtoJSON] m(2) d by blast
  with rows v invalid_case_rejected [OF assms] show ?thesis by (simp add: printSizes_def printValidateDemo_def list_all_iff)
qed

end
