(* ===== verification/Jsoncodec.thy ===== *)
theory Jsoncodec
  imports Codec Float64
begin

text \<open>
  The ProtoJSON codec of \<open>clients/internal/codec/codec.go\<close>: its cache of running averages of output sizes,
  the size hint it gives the buffer pool, and marshalling through it.

  The averages are \<open>float64\<close> values, in the arithmetic of theory \<open>Float64\<close>, each operation rounded on its
  own.  The marshaller of package \<open>protojson\<close> is an argument.
\<close>

section \<open>The size cache\<close>

record ewma =
  ew_v :: rat
  ew_seen :: bool

type_synonym size_cache = "string \<rightharpoonup> ewma"

record 'm json_lib =
  full_name :: "'m \<Rightarrow> string"
  binary_size :: "'m \<Rightarrow> nat"
  json_append :: "'m marshaller"

text \<open>\<open>LoadOrStore(name, &ewma{})\<close>.\<close>

definition load_or_store :: "string \<Rightarrow> size_cache \<Rightarrow> ewma \<times> size_cache" where
  "load_or_store name c =
     (case c name of
        Some e \<Rightarrow> (e, c)
      | None \<Rightarrow> (let e = \<lparr>ew_v = 0, ew_seen = False\<rparr> in (e, c(name \<mapsto> e))))"

definition ewma_hint :: "nat \<Rightarrow> ewma \<Rightarrow> int" where
  "ewma_hint bin e = (if \<not> ew_seen e then int bin * 3 else \<lceil>ew_v e\<rceil>)"

definition size_hint :: "'m json_lib \<Rightarrow> 'm \<Rightarrow> size_cache \<Rightarrow> int \<times> size_cache" where
  "size_hint J m c = (let (e, c1) = load_or_store (full_name J m) c in (ewma_hint (binary_size J m) e, c1))"

text \<open>The constants \<open>alpha\<close> and \<open>1 - alpha\<close>, each rounded to a float.\<close>

definition alpha :: rat where "alpha = fl (1 / 5)"
definition one_minus_alpha :: rat where "one_minus_alpha = fl (4 / 5)"

definition ewma_observe :: "int \<Rightarrow> ewma \<Rightarrow> ewma" where
  "ewma_observe n e =
     (if \<not> ew_seen e then \<lparr>ew_v = of_i64 n, ew_seen = True\<rparr>
      else e\<lparr>ew_v := fadd (fmul alpha (of_i64 n)) (fmul one_minus_alpha (ew_v e))\<rparr>)"

definition size_observe :: "'m json_lib \<Rightarrow> 'm \<Rightarrow> int \<Rightarrow> size_cache \<Rightarrow> size_cache" where
  "size_observe J m n c =
     (let (e, c1) = load_or_store (full_name J m) c in c1(full_name J m \<mapsto> ewma_observe n e))"

section \<open>Marshalling\<close>

definition json_MarshalAppend :: "'m json_lib \<Rightarrow> slice \<Rightarrow> 'm \<Rightarrow> size_cache \<Rightarrow> ((gerr + slice) \<times> bytes) \<times> size_cache" where
  "json_MarshalAppend J dst m c =
     (let r = json_append J dst m in
      case fst r of
        Inl err \<Rightarrow> (r, c)
      | Inr out \<Rightarrow> (r, size_observe J m (int (snd out) - int (snd dst)) c))"

text \<open>\<open>Encode\<close> with this codec: the hint, the buffer, the marshaller, with the cache in the state.\<close>

definition json_Encode ::
  "(nat option \<Rightarrow> int \<Rightarrow> 's \<Rightarrow> (buf \<times> 's) option) \<Rightarrow> (buf option \<Rightarrow> 's \<Rightarrow> 's) \<Rightarrow> 'm json_lib \<Rightarrow> nat option \<Rightarrow> 'm
   \<Rightarrow> 's \<times> size_cache \<Rightarrow> ((gerr + buf) \<times> ('s \<times> size_cache)) option" where
  "json_Encode get put J ch m st =
     (case st of (s, c) \<Rightarrow>
        (let (h, c1) = size_hint J m c in
         case get ch h s of
           None \<Rightarrow> None
         | Some (p, s1) \<Rightarrow>
             (case json_MarshalAppend J (mem p, 0) m c1 of
                ((Inl err, arr), c2) \<Rightarrow> Some (Inl err, (put (Some (p\<lparr>mem := arr\<rparr>)) s1, c2))
              | ((Inr (arr, n), left_over), c2) \<Rightarrow> Some (Inr (p\<lparr>mem := arr, blen := n\<rparr>), (s1, c2)))))"

section \<open>Rounding errors\<close>

lemma rne_error: "\<bar>of_int (rne y) - y\<bar> \<le> 1 / 2"
proof -
  have "of_int \<lfloor>y\<rfloor> \<le> y" "y < of_int \<lfloor>y\<rfloor> + 1" by linarith+
  then show ?thesis by (simp add: rne_def Let_def abs_if) linarith
qed

lemma fl_error:
  assumes "0 < x"
  shows "\<bar>fl x - x\<bar> \<le> x / 2 ^ 53"
proof -
  have u: "ulp x * 2 ^ 52 = 2 powi expo x" by (simp add: ulp_def power_int_diff)
  have "fl x - x = (of_int (rne (x / ulp x)) - x / ulp x) * ulp x"
    using ulp_pos [of x] by (simp add: fl_pos [OF assms] left_diff_distrib less_imp_neq [symmetric])
  then have "\<bar>fl x - x\<bar> = \<bar>of_int (rne (x / ulp x)) - x / ulp x\<bar> * ulp x"
    by (simp only: abs_mult abs_of_pos [OF ulp_pos])
  also have "\<dots> \<le> 1 / 2 * ulp x" using rne_error [of "x / ulp x"] by (intro mult_right_mono less_imp_le [OF ulp_pos])
  also have "\<dots> = 2 powi expo x / 2 ^ 53" using u by simp
  also have "\<dots> \<le> x / 2 ^ 53" using expo_bounds(1) [OF assms] by (intro divide_right_mono) auto
  finally show ?thesis .
qed

lemma fl_near:
  assumes "0 \<le> x"
  shows "fl x \<le> x + x / 2 ^ 53" and "x - x / 2 ^ 53 \<le> fl x"
proof -
  have "\<bar>fl x - x\<bar> \<le> x / 2 ^ 53" using fl_error [of x] assms by (cases "x = 0") auto
  then show "fl x \<le> x + x / 2 ^ 53" and "x - x / 2 ^ 53 \<le> fl x" by linarith+
qed

section \<open>The average stays within the sizes seen\<close>

text \<open>Thirty-two units of the last place absorb the three roundings of every step.\<close>

definition near_low :: "rat \<Rightarrow> rat" where "near_low x = x - x / 2 ^ 48"
definition near_high :: "rat \<Rightarrow> rat" where "near_high x = x + x / 2 ^ 48"

lemma alpha_bounds:
  "alpha \<le> 1 / 5 + 1 / 5 / 2 ^ 53" "1 / 5 - 1 / 5 / 2 ^ 53 \<le> alpha"
  "one_minus_alpha \<le> 4 / 5 + 4 / 5 / 2 ^ 53" "4 / 5 - 4 / 5 / 2 ^ 53 \<le> one_minus_alpha"
  unfolding alpha_def one_minus_alpha_def using fl_near [of "1 / 5"] fl_near [of "4 / 5"] by auto

lemma fmul_upper:
  assumes "0 \<le> a" and "a \<le> k + k / 2 ^ 53" and "0 \<le> x" and "x \<le> y" and "0 \<le> k"
  shows "fmul a x \<le> k * y * (1 + 3 / 2 ^ 53)"
proof -
  have "a * x \<le> (k + k / 2 ^ 53) * y" using assms by (intro mult_mono) auto
  moreover have "fl (a * x) \<le> a * x + a * x / 2 ^ 53" using assms by (intro fl_near) auto
  ultimately have "fl (a * x) \<le> (k + k / 2 ^ 53) * y + (k + k / 2 ^ 53) * y / 2 ^ 53" by auto
  also have "\<dots> = k * y * ((1 + 1 / 2 ^ 53) * (1 + 1 / 2 ^ 53))" by (simp add: field_simps)
  also have "\<dots> \<le> k * y * (1 + 3 / 2 ^ 53)"
  proof (rule mult_left_mono)
    show "0 \<le> k * y" using assms by auto
  qed simp
  finally show ?thesis by (simp add: fmul_def)
qed

lemma fmul_lower:
  assumes "0 \<le> a" and "k - k / 2 ^ 53 \<le> a" and "0 \<le> y" and "y \<le> x" and "0 \<le> k"
  shows "k * y * (1 - 3 / 2 ^ 53) \<le> fmul a x"
proof -
  have "(k - k / 2 ^ 53) * y \<le> a * x" using assms by (intro mult_mono) auto
  moreover have "a * x - a * x / 2 ^ 53 \<le> fl (a * x)" using assms by (intro fl_near) auto
  ultimately have "(k - k / 2 ^ 53) * y - (k - k / 2 ^ 53) * y / 2 ^ 53 \<le> fl (a * x)" by auto
  moreover have "k * y * (1 - 3 / 2 ^ 53) \<le> k * y * ((1 - 1 / 2 ^ 53) * (1 - 1 / 2 ^ 53))"
  proof (rule mult_left_mono)
    show "0 \<le> k * y" using assms by auto
  qed simp
  moreover have "k * y * ((1 - 1 / 2 ^ 53) * (1 - 1 / 2 ^ 53)) = (k - k / 2 ^ 53) * y - (k - k / 2 ^ 53) * y / 2 ^ 53"
    by (simp add: field_simps)
  ultimately show ?thesis by (simp add: fmul_def)
qed

lemma ewma_step_bounds:
  assumes "0 \<le> lo" and "lo \<le> n" and "n \<le> hi" and "near_low lo \<le> v" and "v \<le> near_high hi"
  shows "near_low lo \<le> fadd (fmul alpha n) (fmul one_minus_alpha v)" and "fadd (fmul alpha n) (fmul one_minus_alpha v) \<le> near_high hi"
proof -
  have a: "0 \<le> alpha" "0 \<le> one_minus_alpha" using alpha_bounds(2,4) by simp_all
  have nl: "0 \<le> near_low lo" using assms(1) by (simp add: near_low_def)
  then have v: "0 \<le> v" "0 \<le> n" using assms by auto
  have up: "fmul alpha n \<le> 1 / 5 * hi * (1 + 3 / 2 ^ 53)" "fmul one_minus_alpha v \<le> 4 / 5 * near_high hi * (1 + 3 / 2 ^ 53)"
    using fmul_upper [OF a(1) alpha_bounds(1) v(2) assms(3)] fmul_upper [OF a(2) alpha_bounds(3) v(1) assms(5)] by simp_all
  have low: "1 / 5 * lo * (1 - 3 / 2 ^ 53) \<le> fmul alpha n" "4 / 5 * near_low lo * (1 - 3 / 2 ^ 53) \<le> fmul one_minus_alpha v"
    using fmul_lower [OF a(1) alpha_bounds(2) assms(1,2)] fmul_lower [OF a(2) alpha_bounds(4) nl assms(4)] by simp_all
  have pos: "0 \<le> fmul alpha n" "0 \<le> fmul one_minus_alpha v" using a v by (simp_all add: fmul_def fl_nonneg)
  let ?s = "fmul alpha n + fmul one_minus_alpha v"
  have s: "fl ?s \<le> ?s + ?s / 2 ^ 53" "?s - ?s / 2 ^ 53 \<le> fl ?s" using pos by (intro fl_near; simp)+
  have "0 \<le> hi" using assms by auto
  then show "fadd (fmul alpha n) (fmul one_minus_alpha v) \<le> near_high hi"
    using s(1) up unfolding fadd_def near_high_def by (simp add: field_simps)
  show "near_low lo \<le> fadd (fmul alpha n) (fmul one_minus_alpha v)"
    using s(2) low assms(1) unfolding fadd_def near_low_def by (simp add: field_simps)
qed

definition within_sizes :: "int \<Rightarrow> int \<Rightarrow> ewma \<Rightarrow> bool" where
  "within_sizes lo hi e \<longleftrightarrow> ew_seen e \<and> near_low (of_int lo) \<le> ew_v e \<and> ew_v e \<le> near_high (of_int hi)"

lemma ewma_observe_within:
  assumes "0 \<le> lo" and "lo \<le> n" and "n \<le> hi" and "hi \<le> 2 ^ 40" and "\<not> ew_seen e \<or> within_sizes lo hi e"
  shows "within_sizes lo hi (ewma_observe n e)"
proof -
  have n: "of_i64 n = of_int n" using assms by (intro of_i64_exact) simp
  show ?thesis
  proof (cases "ew_seen e")
    case True
    with assms have w: "near_low (of_int lo) \<le> ew_v e" "ew_v e \<le> near_high (of_int hi)" by (auto simp: within_sizes_def)
    have "0 \<le> (of_int lo :: rat)" "(of_int lo :: rat) \<le> of_int n" "(of_int n :: rat) \<le> of_int hi" using assms by simp_all
    from ewma_step_bounds [OF this w] True show ?thesis by (simp add: within_sizes_def ewma_observe_def n)
  next
    case False
    have "(0 :: rat) \<le> of_int lo" "(of_int lo :: rat) \<le> of_int n" "(of_int n :: rat) \<le> of_int hi" using assms by simp_all
    then have "near_low (of_int lo) \<le> of_int n" "of_int n \<le> near_high (of_int hi)"
      by (simp_all add: near_low_def near_high_def field_simps)
    with False show ?thesis by (simp add: within_sizes_def ewma_observe_def n)
  qed
qed

lemma within_sizes_hint:
  assumes "within_sizes lo hi e" and "0 \<le> lo" and "lo \<le> hi" and "hi \<le> 2 ^ 40"
  shows "lo \<le> ewma_hint bin e" and "ewma_hint bin e \<le> hi + 1"
proof -
  have b: "(of_int lo :: rat) \<le> of_int hi" "(of_int hi :: rat) \<le> of_int (2 ^ 40)" using assms by (simp_all only: of_int_le_iff)
  have "near_low (of_int lo) \<le> ew_v e" "ew_v e \<le> near_high (of_int hi)" using assms(1) by (auto simp: within_sizes_def)
  with b have "of_int lo - 1 < ew_v e" "ew_v e \<le> of_int (hi + 1)"
    by (simp_all add: near_low_def near_high_def field_simps)
  then have "lo \<le> \<lceil>ew_v e\<rceil>" "\<lceil>ew_v e\<rceil> \<le> hi + 1" by (simp_all add: le_ceiling_iff ceiling_le_iff)
  with assms(1) show "lo \<le> ewma_hint bin e" and "ewma_hint bin e \<le> hi + 1" by (simp_all add: ewma_hint_def within_sizes_def)
qed

text \<open>Marshalling one message after another, and the sizes the messages of one type came to.\<close>

fun marshal_all :: "'m json_lib \<Rightarrow> (slice \<times> 'm) list \<Rightarrow> size_cache \<Rightarrow> size_cache" where
  "marshal_all J [] c = c"
| "marshal_all J ((dst, m) # xs) c = marshal_all J xs (snd (json_MarshalAppend J dst m c))"

definition appended :: "'m json_lib \<Rightarrow> string \<Rightarrow> (slice \<times> 'm) list \<Rightarrow> int list" where
  "appended J name xs =
     concat (map (\<lambda>(dst, m). case fst (json_append J dst m) of
                    Inr out \<Rightarrow> if full_name J m = name then [int (snd out) - int (snd dst)] else []
                  | Inl err \<Rightarrow> []) xs)"

definition average :: "size_cache \<Rightarrow> string \<Rightarrow> ewma" where
  "average c name = (case c name of Some e \<Rightarrow> e | None \<Rightarrow> \<lparr>ew_v = 0, ew_seen = False\<rparr>)"

lemma marshal_all_average: "average (marshal_all J xs c) name = fold ewma_observe (appended J name xs) (average c name)"
proof (induction J xs c rule: marshal_all.induct)
  case (2 J dst m xs c)
  have "average (snd (json_MarshalAppend J dst m c)) name = fold ewma_observe (appended J name [(dst, m)]) (average c name)"
    by (auto simp: json_MarshalAppend_def size_observe_def load_or_store_def average_def appended_def Let_def
             split: sum.splits option.splits)
  with 2 show ?case by (simp add: appended_def)
qed (simp add: appended_def)

lemma fold_observe_within:
  assumes "0 \<le> lo" and "hi \<le> 2 ^ 40" and "\<forall>n \<in> set ns. lo \<le> n \<and> n \<le> hi" and "\<not> ew_seen e \<and> ns \<noteq> [] \<or> within_sizes lo hi e"
  shows "within_sizes lo hi (fold ewma_observe ns e)"
  using assms(3,4)
proof (induction ns arbitrary: e)
  case (Cons n ns)
  from Cons.prems have "within_sizes lo hi (ewma_observe n e)" by (intro ewma_observe_within assms(1,2)) auto
  with Cons show ?case by simp
qed simp

lemma size_hint_average: "fst (size_hint J m c) = ewma_hint (binary_size J m) (average c (full_name J m))"
  by (simp add: size_hint_def load_or_store_def average_def Let_def split: option.splits)

text \<open>C40. The hint of the ProtoJSON codec: three times the binary size until a message of the type has been
  marshalled, and from then on at least the smallest and at most one more than the largest size seen.\<close>

theorem json_hint_bounds:
  assumes "0 \<le> lo" and "hi \<le> 2 ^ 40" and "\<forall>n \<in> set (appended J (full_name J m) xs). lo \<le> n \<and> n \<le> hi"
  shows "if appended J (full_name J m) xs = [] then fst (size_hint J m (marshal_all J xs Map.empty)) = 3 * int (binary_size J m)
         else lo \<le> fst (size_hint J m (marshal_all J xs Map.empty)) \<and> fst (size_hint J m (marshal_all J xs Map.empty)) \<le> hi + 1"
proof (cases "appended J (full_name J m) xs = []")
  case True
  have "average (marshal_all J xs Map.empty) (full_name J m) = \<lparr>ew_v = 0, ew_seen = False\<rparr>"
    unfolding marshal_all_average True by (simp add: average_def)
  with True show ?thesis by (simp add: size_hint_average ewma_hint_def)
next
  case False
  let ?e = "average (marshal_all J xs Map.empty) (full_name J m)"
  have "within_sizes lo hi ?e"
    unfolding marshal_all_average by (rule fold_observe_within [OF assms]) (use False in \<open>simp add: average_def\<close>)
  moreover have "lo \<le> hi" using False assms(3) by (cases "appended J (full_name J m) xs") auto
  ultimately show ?thesis using within_sizes_hint [of lo hi ?e] assms(1,2) False by (simp add: size_hint_average)
qed

section \<open>Encoding into the pool\<close>

text \<open>With its hint and its marshaller plugged in, the codec is an instance of \<open>Encode\<close>; only the cache moves.\<close>

lemma json_Encode_Encode:
  "map_option (\<lambda>(r, s, c). (r, s)) (json_Encode get put J ch m (s, c)) = Encode get put (\<lambda>_. fst (size_hint J m c)) (json_append J) ch m s"
  by (auto simp: json_Encode_def Encode_def json_MarshalAppend_def Let_def split: prod.splits option.splits sum.splits)

text \<open>Every average of the cache is at least as large as the smallest size can be.\<close>

definition cache_nonneg :: "size_cache \<Rightarrow> bool" where
  "cache_nonneg c \<longleftrightarrow> (\<forall>name e. c name = Some e \<longrightarrow> 0 \<le> ew_v e)"

lemma ewma_observe_nonneg: "0 \<le> n \<Longrightarrow> 0 \<le> ew_v e \<Longrightarrow> 0 \<le> ew_v (ewma_observe n e)"
proof -
  assume n: "0 \<le> n" and v: "0 \<le> ew_v e"
  have "0 \<le> alpha" "0 \<le> one_minus_alpha" using alpha_bounds(2,4) by simp_all
  with n v show ?thesis by (simp add: ewma_observe_def of_i64_nonneg fadd_def fmul_def fl_nonneg)
qed

lemma size_hint_nonneg: "cache_nonneg c \<Longrightarrow> 0 \<le> fst (size_hint J m c)"
proof -
  assume "cache_nonneg c"
  then have "0 \<le> ew_v (average c (full_name J m))" by (auto simp: average_def cache_nonneg_def split: option.splits)
  then have "0 \<le> \<lceil>ew_v (average c (full_name J m))\<rceil>" by linarith
  then show ?thesis by (simp add: size_hint_average ewma_hint_def)
qed

lemma json_MarshalAppend_nonneg:
  assumes "cache_nonneg c" and "appends enc (json_append J)" and "snd dst \<le> length (fst dst)"
  shows "cache_nonneg (snd (json_MarshalAppend J dst m c))"
proof (cases "fst (json_append J dst m)")
  case (Inl e)
  with assms(1) show ?thesis by (simp add: json_MarshalAppend_def Let_def)
next
  case (Inr out)
  obtain arr n arr1 n1 rest where d: "dst = (arr, n)" "out = (arr1, n1)" "json_append J dst m = (Inr (arr1, n1), rest)"
    using Inr by (metis prod.collapse)
  have "n1 \<le> length arr1 \<and> take n1 arr1 = take n arr @ enc m"
    using assms(2,3) d unfolding appends_def by (metis fst_conv snd_conv)
  then have "n \<le> n1" using assms(3) d(1) by (metis fst_conv snd_conv length_append length_take min.absorb2 le_add1)
  with assms(1) d show ?thesis
    by (auto simp: json_MarshalAppend_def size_observe_def load_or_store_def cache_nonneg_def Let_def
             intro!: ewma_observe_nonneg split: option.splits)
qed

lemma load_or_store_nonneg: "cache_nonneg c \<Longrightarrow> cache_nonneg (snd (load_or_store name c))"
  by (auto simp: load_or_store_def cache_nonneg_def Let_def split: option.splits)

lemma json_Encode_cache:
  assumes "cache_nonneg c" and "appends enc (json_append J)" and "json_Encode get put J ch m (s, c) = Some (r, (s1, c1))"
  shows "cache_nonneg c1"
proof -
  have c: "cache_nonneg (snd (size_hint J m c))"
    using load_or_store_nonneg [OF assms(1), of "full_name J m"] by (auto simp: size_hint_def split: prod.splits)
  have "\<exists>arr. c1 = snd (json_MarshalAppend J (arr, 0) m (snd (size_hint J m c)))"
    using assms(3) by (auto simp: json_Encode_def split: prod.splits option.splits sum.splits) (metis snd_conv)+
  with json_MarshalAppend_nonneg [OF c assms(2), of "(_, 0)"] show ?thesis by auto
qed

text \<open>Encoding with the ProtoJSON codec in every reachable state of the pool and of its size cache: it returns,
  on success the buffer shows exactly the encoding and only the caller holds it, on an error the buffer is back
  with the pool, and the cache can size the next message.\<close>

theorem json_encode_pooled:
  assumes "preach cls b held g" and "cache_nonneg c" and "appends enc (json_append J)"
  shows "\<exists>r b' c'. json_Encode Buffers_Get Buffers_Put J ch m (b, c) = Some (r, (b', c')) \<and> cache_nonneg c' \<and>
           (case r of
              Inr p \<Rightarrow> take (blen p) (mem p) = enc m \<and> bid p \<notin> held \<and> pool_inv b' (insert (bid p) held)
            | Inl err \<Rightarrow> pool_inv b' held)"
proof -
  let ?hint = "\<lambda>_ :: 'a. fst (size_hint J m c)"
  have inv: "pool_inv b held" using preach_inv [OF assms(1)] by blast
  obtain r b' where E: "Encode Buffers_Get Buffers_Put ?hint (json_append J) ch m b = Some (r, b')"
    using bp.Encode_total [where hint = ?hint and m = m, OF inv size_hint_nonneg [OF assms(2)]] by blast
  with json_Encode_Encode [of Buffers_Get Buffers_Put J ch m b c]
  obtain c' where J: "json_Encode Buffers_Get Buffers_Put J ch m (b, c) = Some (r, (b', c'))" by auto
  have "case r of Inr p \<Rightarrow> take (blen p) (mem p) = enc m \<and> bid p \<notin> held \<and> pool_inv b' (insert (bid p) held) | Inl err \<Rightarrow> pool_inv b' held"
    using bp.Encode_error [OF inv] bp.Encode_ok [OF inv assms(3)] E by (auto simp: visible_def split: sum.split)
  with J json_Encode_cache [OF assms(2,3) J] show ?thesis by blast
qed

text \<open>The upper bound is met: the average of two messages of three bytes asks for four.\<close>

lemma fl_grid:
  assumes "2 ^ 52 \<le> x * 2 ^ k" and "x * 2 ^ k < 2 ^ 53"
  shows "fl x = of_int (rne (x * 2 ^ k)) / 2 ^ k"
proof -
  have p: "(2 :: rat) powi (52 - int k) = 2 ^ 52 / 2 ^ k" "(2 :: rat) powi (52 - int k + 1) = 2 ^ 53 / 2 ^ k" "(2 :: rat) powi (- int k) = 1 / 2 ^ k"
    by (simp_all add: power_int_diff power_int_add powi_neg)
  have "expo x = 52 - int k" by (rule expo_unique; unfold p) (use assms in \<open>simp_all add: field_simps\<close>)
  then have u: "ulp x = 1 / 2 ^ k" by (simp add: ulp_def p(3))
  have "0 < x * 2 ^ k" using assms(1) by (rule less_le_trans [rotated]) simp
  then have "0 < x" by (simp add: zero_less_mult_iff)
  then show ?thesis by (simp add: fl_pos u)
qed

lemma rneI:
  assumes "of_int n - 1 / 2 < y" and "y < of_int n + 1 / 2"
  shows "rne y = n"
proof -
  have "\<bar>of_int (rne y) - y\<bar> \<le> 1 / 2" by (rule rne_error)
  with assms have "of_int (rne y) < (of_int n :: rat) + 1" "(of_int n :: rat) - 1 < of_int (rne y)" by linarith+
  then have "of_int (rne y) < (of_int (n + 1) :: rat)" "(of_int (n - 1) :: rat) < of_int (rne y)" by simp_all
  then show ?thesis unfolding of_int_less_iff by linarith
qed

lemma rne_tie: "odd n \<Longrightarrow> rne (of_int n + 1 / 2) = n + 1"
proof -
  assume "odd n"
  moreover have "\<lfloor>(of_int n + 1 / 2 :: rat)\<rfloor> = n" by linarith
  ultimately show ?thesis by (simp add: rne_def Let_def)
qed

lemma alpha_value: "alpha = 7205759403792794 / 2 ^ 55"
proof -
  have "rne (1 / 5 * 2 ^ 55) = 7205759403792794" by (rule rneI) simp_all
  then show ?thesis unfolding alpha_def using fl_grid [of "1 / 5" 55] by simp
qed

lemma one_minus_alpha_value: "one_minus_alpha = 7205759403792794 / 2 ^ 53"
proof -
  have "rne (4 / 5 * 2 ^ 53) = 7205759403792794" by (rule rneI) simp_all
  then show ?thesis unfolding one_minus_alpha_def using fl_grid [of "4 / 5" 53] by simp
qed

lemma json_hint_exceeds: "ewma_hint n (ewma_observe 3 (ewma_observe 3 \<lparr>ew_v = 0, ew_seen = False\<rparr>)) = 4"
proof -
  have i: "of_i64 3 = 3" using of_i64_exact [of 3] by simp
  have "rne (21617278211378382 / 2 ^ 55 * 2 ^ 53) = 5404319552844596" "rne (21617278211378382 / 2 ^ 53 * 2 ^ 51) = 5404319552844596"
    using rne_tie [of 5404319552844595] by simp_all
  then have a: "fmul alpha 3 = 5404319552844596 / 2 ^ 53" "fmul one_minus_alpha 3 = 5404319552844596 / 2 ^ 51"
    unfolding fmul_def alpha_value one_minus_alpha_value
    using fl_grid [of "21617278211378382 / 2 ^ 55" 53] fl_grid [of "21617278211378382 / 2 ^ 53" 51] by simp_all
  have "rne (27021597764222980 / 2 ^ 53 * 2 ^ 51) = 6755399441055745" by (rule rneI) simp_all
  then have "fadd (5404319552844596 / 2 ^ 53) (5404319552844596 / 2 ^ 51) = 6755399441055745 / 2 ^ 51"
    unfolding fadd_def using fl_grid [of "27021597764222980 / 2 ^ 53" 51] by simp
  moreover have "\<lceil>6755399441055745 / 2 ^ 51 :: rat\<rceil> = 4" by (rule ceiling_unique) simp_all
  ultimately have "\<lceil>fadd (fmul alpha 3) (fmul one_minus_alpha 3)\<rceil> = 4" unfolding a by (simp only:)
  then show ?thesis by (simp add: ewma_observe_def ewma_hint_def i)
qed

definition raw_json :: "bytes json_lib" where
  "raw_json = \<lparr>full_name = (\<lambda>_. ''raw''), binary_size = length, json_append = (\<lambda>(arr, n) m. (Inr (take n arr @ m, n + length m), arr))\<rparr>"

theorem json_hint_bounds_witness:
  "3 \<le> fst (size_hint raw_json [7] (marshal_all raw_json [(([], 0), [1, 2, 3]), (([9], 1), [1, 2, 3, 4, 5])] Map.empty)) \<and>
   fst (size_hint raw_json [7] (marshal_all raw_json [(([], 0), [1, 2, 3]), (([9], 1), [1, 2, 3, 4, 5])] Map.empty)) \<le> 5 + 1"
proof -
  have "appended raw_json (full_name raw_json [7]) [(([], 0), [1, 2, 3]), (([9], 1), [1, 2, 3, 4, 5])] = [3, 5]"
    by (simp add: appended_def raw_json_def)
  with json_hint_bounds [of 3 5 raw_json "[7]" "[(([], 0), [1, 2, 3]), (([9], 1), [1, 2, 3, 4, 5])]"] show ?thesis by simp
qed

end
