(* ===== verification/Sysexporter.thy ===== *)
theory Sysexporter
  imports Cliflags
begin

text \<open>
  The Mosquitto exporter (\<open>clients/mqtt/sysexporter/main.go\<close>): the table from \<open>$SYS\<close> topics to metrics, the
  counter that turns broker totals into increments, the message callback and the process around it.

  The Prometheus counter is an argument, the record \<open>prom_lib\<close>; what its documentation promises is the
  hypothesis \<open>prom_counter_laws\<close>.  The main result says that an exported counter is the sum, over the broker's
  lifetimes the samples show, of the last total of each.
\<close>

section \<open>Floats\<close>

text \<open>Comparison and subtraction with the special values: a comparison with NaN is false.\<close>

fun gf_less :: "go_float \<Rightarrow> go_float \<Rightarrow> bool" where
  "gf_less (Finite x) (Finite y) \<longleftrightarrow> x < y"
| "gf_less (Finite x) PosInf \<longleftrightarrow> True"
| "gf_less NegInf (Finite y) \<longleftrightarrow> True"
| "gf_less NegInf PosInf \<longleftrightarrow> True"
| "gf_less _ _ \<longleftrightarrow> False"

fun gf_sub :: "go_float \<Rightarrow> go_float \<Rightarrow> go_float" where
  "gf_sub (Finite x) (Finite y) = Finite (fsub x y)"
| "gf_sub (Finite x) PosInf = NegInf"
| "gf_sub (Finite x) NegInf = PosInf"
| "gf_sub PosInf (Finite y) = PosInf"
| "gf_sub PosInf NegInf = PosInf"
| "gf_sub NegInf (Finite y) = NegInf"
| "gf_sub NegInf PosInf = NegInf"
| "gf_sub _ _ = NaN"

section \<open>The mirrored counter\<close>

text \<open>A Prometheus counter: the fresh one, \<open>Add\<close>, which may panic, and the exported value.\<close>

record 'c prom_lib =
  pc_new :: 'c
  pc_Add :: "go_float \<Rightarrow> 'c \<Rightarrow> 'c option"
  pc_value :: "'c \<Rightarrow> go_float"

record 'c sys_counter =
  sc_c :: 'c
  sc_last :: go_float
  sc_seen :: bool

definition sys_counter_set :: "'c prom_lib \<Rightarrow> go_float \<Rightarrow> 'c sys_counter \<Rightarrow> 'c sys_counter option" where
  "sys_counter_set L v m =
     (case pc_Add L (if \<not> sc_seen m \<or> gf_less v (sc_last m) then v else gf_sub v (sc_last m)) (sc_c m) of
        None \<Rightarrow> None
      | Some c \<Rightarrow> Some \<lparr>sc_c = c, sc_last = v, sc_seen = True\<rparr>)"

section \<open>The exporter\<close>

datatype sys_metric = CounterMetric string | GaugeMetric string

definition sys_handlers :: "(string \<times> sys_metric) list" where
  "sys_handlers =
     [(''$SYS/broker/messages/received'', CounterMetric ''mosquitto_messages_received_total''),
      (''$SYS/broker/messages/sent'', CounterMetric ''mosquitto_messages_sent_total''),
      (''$SYS/broker/bytes/received'', CounterMetric ''mosquitto_bytes_received_total''),
      (''$SYS/broker/bytes/sent'', CounterMetric ''mosquitto_bytes_sent_total''),
      (''$SYS/broker/clients/connected'', GaugeMetric ''mosquitto_clients_connected''),
      (''$SYS/broker/load/messages/received/1min'', GaugeMetric ''mosquitto_load_messages_received_1min''),
      (''$SYS/broker/heap/current'', GaugeMetric ''mosquitto_heap_current_bytes'')]"

record 'c sys_exporter =
  sx_counters :: "string \<Rightarrow> 'c sys_counter"
  sx_gauges :: "string \<Rightarrow> go_float"
  sx_log :: "string list"

definition new_sys_exporter :: "'c prom_lib \<Rightarrow> 'c sys_exporter" where
  "new_sys_exporter L =
     \<lparr>sx_counters = (\<lambda>_. \<lparr>sc_c = pc_new L, sc_last = Finite 0, sc_seen = False\<rparr>), sx_gauges = (\<lambda>_. Finite 0), sx_log = []\<rparr>"

text \<open>The value of a message for its handler; other topics and text that is no number have none.\<close>

definition sys_sample :: "std_parsers \<Rightarrow> string \<times> string \<Rightarrow> (sys_metric \<times> go_float) option" where
  "sys_sample P m =
     (case map_of sys_handlers (fst m) of
        None \<Rightarrow> None
      | Some h \<Rightarrow>
          (case sp_float P (TrimSpace (snd m)) of
             None \<Rightarrow> None
           | Some v \<Rightarrow> Some (h, v)))"

text \<open>\<open>onMsg\<close>; \<open>None\<close> is the panic of the counter, which ends the process.\<close>

definition sys_onMsg :: "'c prom_lib \<Rightarrow> std_parsers \<Rightarrow> string \<times> string \<Rightarrow> 'c sys_exporter \<Rightarrow> 'c sys_exporter option" where
  "sys_onMsg L P m s =
     (case sys_sample P m of
        None \<Rightarrow> Some s
      | Some (CounterMetric n, v) \<Rightarrow>
          (case sys_counter_set L v (sx_counters s n) of
             None \<Rightarrow> None
           | Some c \<Rightarrow> Some (s\<lparr>sx_counters := (sx_counters s)(n := c)\<rparr>))
      | Some (GaugeMetric n, v) \<Rightarrow> Some (s\<lparr>sx_gauges := (sx_gauges s)(n := v)\<rparr>))"

text \<open>What the paho client calls back with: a connection, with the outcome of the subscription the handler
  makes, or a message.\<close>

datatype sys_event = OnConnect "gerr option" | OnMessage string string

fun sys_event_step :: "'c prom_lib \<Rightarrow> std_parsers \<Rightarrow> sys_event \<Rightarrow> 'c sys_exporter \<Rightarrow> 'c sys_exporter option" where
  "sys_event_step L P (OnConnect None) s = Some s"
| "sys_event_step L P (OnConnect (Some e)) s = Some (s\<lparr>sx_log := sx_log s @ [''subscribe: '' @ Error e]\<rparr>)"
| "sys_event_step L P (OnMessage topic payload) s = sys_onMsg L P (topic, payload) s"

fun sys_run :: "'c prom_lib \<Rightarrow> std_parsers \<Rightarrow> sys_event list \<Rightarrow> 'c sys_exporter \<Rightarrow> 'c sys_exporter option" where
  "sys_run L P [] s = Some s"
| "sys_run L P (e # es) s = (case sys_event_step L P e s of None \<Rightarrow> None | Some s1 \<Rightarrow> sys_run L P es s1)"

record sys_flags =
  sf_addr :: string
  sf_metricsAddr :: string

definition sys_defaults :: sys_flags where
  "sys_defaults = \<lparr>sf_addr = ''localhost:1883'', sf_metricsAddr = '':9234''\<rparr>"

datatype sys_exit = SysServing | SysFatal string | SysPanic

text \<open>The process: the first attempt to connect may fail, the events before and after the server starts, and
  the error the server ends with, if it does.\<close>

definition sysexporter_main ::
  "'c prom_lib \<Rightarrow> std_parsers \<Rightarrow> string \<Rightarrow> sys_flags \<Rightarrow> gerr option \<Rightarrow> sys_event list \<Rightarrow> sys_event list \<Rightarrow> gerr option
   \<Rightarrow> sys_exit \<times> 'c sys_exporter option" where
  "sysexporter_main L P version f connect_err early late serve_err =
     (case sys_run L P early (new_sys_exporter L) of
        None \<Rightarrow> (SysPanic, None)
      | Some s \<Rightarrow>
          (let retry = (case connect_err of None \<Rightarrow> [] | Some e \<Rightarrow> [''connect (will retry): '' @ Error e]);
               banner = ''mosquitto-sysexporter '' @ version @ '': broker='' @ sf_addr f @ '' metrics='' @ sf_metricsAddr f
           in case sys_run L P late (s\<lparr>sx_log := sx_log s @ retry @ [banner]\<rparr>) of
                None \<Rightarrow> (SysPanic, None)
              | Some s1 \<Rightarrow> ((case serve_err of None \<Rightarrow> SysServing | Some e \<Rightarrow> SysFatal (Error e)), Some s1)))"

section \<open>The reference: lifetimes of the broker\<close>

text \<open>The samples of one topic cut at every decrease, and the sum of the last totals.\<close>

fun lifetimes :: "nat list \<Rightarrow> nat list list" where
  "lifetimes [] = []"
| "lifetimes [x] = [[x]]"
| "lifetimes (x # y # xs) = (if y < x then [x] # lifetimes (y # xs) else (x # hd (lifetimes (y # xs))) # tl (lifetimes (y # xs)))"

definition mirrored :: "nat list \<Rightarrow> nat" where
  "mirrored xs = sum_list (map last (lifetimes xs))"

lemma lifetimes_Nil_iff [simp]: "lifetimes xs = [] \<longleftrightarrow> xs = []"
  by (cases xs rule: lifetimes.cases) auto

lemma lifetimes_nonempty: "l \<in> set (lifetimes xs) \<Longrightarrow> l \<noteq> []"
proof (induction xs arbitrary: l rule: lifetimes.induct)
  case (3 x y xs)
  then show ?case by (cases "lifetimes (y # xs)") (auto split: if_splits)
qed auto

lemma lifetimes_concat: "concat (lifetimes xs) = xs"
proof (induction xs rule: lifetimes.induct)
  case (3 x y xs)
  then show ?case by (cases "lifetimes (y # xs)") auto
qed auto

text \<open>What the delta rule adds, sample by sample.\<close>

fun increments :: "nat option \<Rightarrow> nat list \<Rightarrow> nat" where
  "increments prev [] = 0"
| "increments None (x # xs) = x + increments (Some x) xs"
| "increments (Some p) (x # xs) = (if x < p then x else x - p) + increments (Some x) xs"

lemma increments_mirrored: "increments (Some x) xs + x = mirrored (x # xs)"
proof (induction xs arbitrary: x)
  case (Cons y xs)
  obtain l ls where l: "lifetimes (y # xs) = l # ls" by (cases "lifetimes (y # xs)") auto
  then have "l \<noteq> []" using lifetimes_nonempty [of l "y # xs"] by simp
  with Cons [of y] l show ?case by (auto simp: mirrored_def)
qed (simp add: mirrored_def)

lemma mirrored_increments: "mirrored xs = increments None xs"
proof (cases xs)
  case (Cons x ys)
  with increments_mirrored [of x ys] show ?thesis by simp
qed (simp add: mirrored_def)

section \<open>The exporter mirrors the broker\<close>

text \<open>The documented behaviour of a Prometheus counter: it starts at zero, it panics on a negative value, and
  adding a whole number to a whole number below the exact range of a float gives their sum.\<close>

definition prom_counter_laws :: "'c prom_lib \<Rightarrow> bool" where
  "prom_counter_laws L \<longleftrightarrow>
     pc_value L (pc_new L) = Finite 0 \<and>
     (\<forall>v c. gf_less v (Finite 0) \<longrightarrow> pc_Add L v c = None) \<and>
     (\<forall>n k c. pc_value L c = Finite (of_nat n) \<and> n + k \<le> 2 ^ 53 \<longrightarrow>
        (\<exists>c'. pc_Add L (Finite (of_nat k)) c = Some c' \<and> pc_value L c' = Finite (of_nat (n + k))))"

definition total_of :: "nat \<Rightarrow> go_float" where
  "total_of n = Finite (of_nat n)"

text \<open>A counter that has exported \<open>n\<close> and whose last sample was \<open>prev\<close>.\<close>

definition counter_at :: "'c prom_lib \<Rightarrow> nat option \<Rightarrow> nat \<Rightarrow> 'c sys_counter \<Rightarrow> bool" where
  "counter_at L prev n m \<longleftrightarrow>
     pc_value L (sc_c m) = total_of n \<and> (case prev of None \<Rightarrow> \<not> sc_seen m | Some p \<Rightarrow> sc_seen m \<and> sc_last m = total_of p \<and> p \<le> n)"

lemma total_less [simp]: "gf_less (total_of a) (total_of b) \<longleftrightarrow> a < b"
  by (simp add: total_of_def)

lemma total_sub:
  assumes "b \<le> a" and "a \<le> 2 ^ 53"
  shows "gf_sub (total_of a) (total_of b) = total_of (a - b)"
proof -
  have "a - b \<le> 2 ^ 53" using assms(2) by (rule le_trans [OF diff_le_self])
  then have "int (a - b) \<le> int (2 ^ 53)" by (simp only: zle_int)
  then have "\<bar>int (a - b)\<bar> \<le> 2 ^ 53" by simp
  from exact64_fl [OF fl_of_int [OF this]] assms(1) have "fl (of_nat a - of_nat b) = (of_nat a - of_nat b :: rat)"
    by (simp add: of_nat_diff)
  with assms(1) show ?thesis by (simp add: total_of_def fsub_def of_nat_diff)
qed

lemma counter_set_step:
  assumes "prom_counter_laws L" and "counter_at L prev n m"
    and "n + increments prev [x] \<le> 2 ^ 53"
  shows "\<exists>m'. sys_counter_set L (total_of x) m = Some m' \<and> counter_at L (Some x) (n + increments prev [x]) m'"
proof -
  let ?d = "if \<not> sc_seen m \<or> gf_less (total_of x) (sc_last m) then total_of x else gf_sub (total_of x) (sc_last m)"
  have x: "x \<le> n + increments prev [x]" using assms(2) by (auto simp: counter_at_def split: option.splits)
  have "?d = total_of (increments prev [x])"
  proof (cases prev)
    case (Some p)
    have "x \<le> 2 ^ 53" using x assms(3) by (rule le_trans)
    with Some assms(2) show ?thesis using total_sub [of p x] by (simp add: counter_at_def not_less)
  qed (use assms(2) in \<open>simp add: counter_at_def\<close>)
  moreover obtain c' where "pc_Add L (total_of (increments prev [x])) (sc_c m) = Some c'"
      "pc_value L c' = total_of (n + increments prev [x])"
    using assms unfolding prom_counter_laws_def counter_at_def total_of_def by blast
  ultimately show ?thesis using x by (simp add: sys_counter_set_def counter_at_def)
qed

text \<open>The messages of a run, the samples of one metric among them.\<close>

fun sys_messages :: "sys_event list \<Rightarrow> (string \<times> string) list" where
  "sys_messages [] = []"
| "sys_messages (OnMessage topic payload # es) = (topic, payload) # sys_messages es"
| "sys_messages (OnConnect e # es) = sys_messages es"

definition sys_samples :: "std_parsers \<Rightarrow> sys_metric \<Rightarrow> sys_event list \<Rightarrow> go_float list" where
  "sys_samples P h es = map snd (filter (\<lambda>(k, v). k = h) (List.map_filter (sys_sample P) (sys_messages es)))"

lemma sys_samples_simps [simp]:
  "sys_samples P h [] = []"
  "sys_samples P h (OnConnect e # es) = sys_samples P h es"
  "sys_samples P h (OnMessage t p # es) =
     (case sys_sample P (t, p) of None \<Rightarrow> [] | Some (k, v) \<Rightarrow> if k = h then [v] else []) @ sys_samples P h es"
  by (auto simp: sys_samples_def map_filter_simps split: option.splits)

text \<open>Every counter of the table exports whole numbers that fit, from its current value on.\<close>

definition counts_fit ::
  "'c prom_lib \<Rightarrow> std_parsers \<Rightarrow> (string \<Rightarrow> nat list) \<Rightarrow> (string \<Rightarrow> nat option) \<Rightarrow> (string \<Rightarrow> nat) \<Rightarrow> sys_event list \<Rightarrow> 'c sys_exporter \<Rightarrow> bool" where
  "counts_fit L P ns prev n es s \<longleftrightarrow>
     (\<forall>c. sys_samples P (CounterMetric c) es = map total_of (ns c) \<and> counter_at L (prev c) (n c) (sx_counters s c) \<and>
          n c + increments (prev c) (ns c) \<le> 2 ^ 53)"

lemma increments_Cons: "increments prev (x # xs) = increments prev [x] + increments (Some x) xs"
  by (cases prev) auto

lemma counts_fit_step:
  assumes "prom_counter_laws L" and "counts_fit L P ns prev n (e # es) s"
  obtains s1 ns1 prev1 n1 where "sys_event_step L P e s = Some s1" "counts_fit L P ns1 prev1 n1 es s1"
    "\<And>c. n1 c + increments (prev1 c) (ns1 c) = n c + increments (prev c) (ns c)"
    "\<And>g. sx_gauges s1 g = last (sx_gauges s g # sys_samples P (GaugeMetric g) [e])"
proof -
  consider err where "e = OnConnect err"
    | t p where "e = OnMessage t p" "sys_sample P (t, p) = None"
    | t p g v where "e = OnMessage t p" "sys_sample P (t, p) = Some (GaugeMetric g, v)"
    | t p c v where "e = OnMessage t p" "sys_sample P (t, p) = Some (CounterMetric c, v)"
    by (metis option.exhaust prod.exhaust sys_event.exhaust sys_metric.exhaust)
  then show thesis
  proof cases
    case 1
    with assms(2) show thesis
      by (intro that [of "the (sys_event_step L P e s)" ns prev n]; cases err) (auto simp: counts_fit_def)
  next
    case 2
    with assms(2) show thesis by (intro that [of s ns prev n]) (auto simp: counts_fit_def sys_onMsg_def)
  next
    case 3
    with assms(2) show thesis
      by (intro that [of "s\<lparr>sx_gauges := (sx_gauges s)(g := v)\<rparr>" ns prev n]) (auto simp: counts_fit_def sys_onMsg_def)
  next
    case (4 t p c v)
    have split: "sys_samples P (CounterMetric d) (e # es) = map total_of (ns d)" for d
      using assms(2) by (simp add: counts_fit_def)
    from split [of c] 4 have "v # sys_samples P (CounterMetric c) es = map total_of (ns c)" by simp
    then obtain x xs where x: "ns c = x # xs" "v = total_of x" "sys_samples P (CounterMetric c) es = map total_of xs" by auto
    have at: "counter_at L (prev c) (n c) (sx_counters s c)" "n c + increments (prev c) (ns c) \<le> 2 ^ 53"
      using assms(2) by (auto simp: counts_fit_def)
    have "n c + increments (prev c) [x] \<le> n c + increments (prev c) (ns c)" by (simp add: x(1) increments_Cons [of _ x xs])
    then have "n c + increments (prev c) [x] \<le> 2 ^ 53" using at(2) by (rule le_trans)
    from counter_set_step [OF assms(1) at(1) this]
    obtain m where m: "sys_counter_set L v (sx_counters s c) = Some m" "counter_at L (Some x) (n c + increments (prev c) [x]) m"
      using x(2) by auto
    show thesis
    proof (rule that [of "s\<lparr>sx_counters := (sx_counters s)(c := m)\<rparr>" "ns(c := xs)" "prev(c := Some x)" "n(c := n c + increments (prev c) [x])"])
      show "sys_event_step L P e s = Some (s\<lparr>sx_counters := (sx_counters s)(c := m)\<rparr>)"
        using 4 m by (simp add: sys_onMsg_def)
      have old: "sys_samples P (CounterMetric d) es = map total_of (ns d)" if "d \<noteq> c" for d
        using split [of d] 4 that by simp
      show "counts_fit L P (ns(c := xs)) (prev(c := Some x)) (n(c := n c + increments (prev c) [x])) es
          (s\<lparr>sx_counters := (sx_counters s)(c := m)\<rparr>)"
        using assms(2) x m at(2) old increments_Cons [of "prev c" x xs] by (auto simp: counts_fit_def add.assoc)
    qed (use 4 x increments_Cons [of "prev c" x xs] in auto)
  qed
qed

lemma sys_run_counts:
  assumes "prom_counter_laws L" and "counts_fit L P ns prev n es s"
  shows "\<exists>s'. sys_run L P es s = Some s' \<and>
           (\<forall>c. pc_value L (sc_c (sx_counters s' c)) = total_of (n c + increments (prev c) (ns c))) \<and>
           (\<forall>g. sx_gauges s' g = last (sx_gauges s g # sys_samples P (GaugeMetric g) es))"
  using assms(2)
proof (induction es arbitrary: s ns prev n)
  case Nil
  then show ?case by (auto simp: counts_fit_def counter_at_def)
next
  case (Cons e es)
  from counts_fit_step [OF assms(1) Cons.prems] obtain s1 ns1 prev1 n1 where
    s1: "sys_event_step L P e s = Some s1" "counts_fit L P ns1 prev1 n1 es s1"
      "\<And>c. n1 c + increments (prev1 c) (ns1 c) = n c + increments (prev c) (ns c)"
      "\<And>g. sx_gauges s1 g = last (sx_gauges s g # sys_samples P (GaugeMetric g) [e])" by blast
  have "sys_samples P h (e # es) = sys_samples P h [e] @ sys_samples P h es" for h by (cases e) auto
  with Cons.IH [OF s1(2)] s1 show ?case by auto
qed


text \<open>A broker that restarts between the second and the third sample.\<close>

definition sample_prom :: "go_float prom_lib" where
  "sample_prom =
     \<lparr>pc_new = Finite 0,
      pc_Add = (\<lambda>v c. if gf_less v (Finite 0) then None
                       else Some (case (c, v) of (Finite x, Finite y) \<Rightarrow> Finite (fadd x y) | _ \<Rightarrow> NaN)),
      pc_value = id\<rparr>"

lemma sample_prom_laws: "prom_counter_laws sample_prom"
proof -
  have "fadd (of_nat n) (of_nat k) = (of_nat n + of_nat k :: rat)" if "n + k \<le> 2 ^ 53" for n k
  proof -
    have "\<bar>int (n + k)\<bar> \<le> int (2 ^ 53)" using that by (simp only: abs_of_nat zle_int)
    then have "\<bar>int (n + k)\<bar> \<le> 2 ^ 53" by simp
    from exact64_fl [OF fl_of_int [OF this]] show ?thesis by (simp add: fadd_def)
  qed
  then show ?thesis by (simp add: prom_counter_laws_def sample_prom_def)
qed

definition sample_totals :: "sys_event list" where
  "sample_totals =
     [OnConnect None,
      OnMessage ''$SYS/broker/messages/sent'' ''10'', OnMessage ''$SYS/broker/messages/sent'' '' 25 '',
      OnMessage ''$SYS/broker/version'' ''2'', OnMessage ''$SYS/broker/messages/sent'' ''4'',
      OnMessage ''$SYS/broker/heap/current'' ''70'', OnMessage ''$SYS/broker/messages/sent'' ''9'']"

definition whole_parsers :: std_parsers where
  "whole_parsers = \<lparr>sp_int = (\<lambda>s. Inl ''''), sp_duration = (\<lambda>s. Inl ''''),
     sp_float = (\<lambda>s. case ParseInt64 s of None \<Rightarrow> None | Some k \<Rightarrow> Some (Finite (of_int k)))\<rparr>"

definition sent_totals :: "string \<Rightarrow> nat list" where
  "sent_totals c = (if c = ''mosquitto_messages_sent_total'' then [10, 25, 4, 9] else [])"


text \<open>A negative total ends the process, and a NaN is added like any number.\<close>

lemma exporter_negative_panics:
  assumes "prom_counter_laws L" and "sys_sample P (topic, payload) = Some (CounterMetric c, Finite x)" and "x < 0"
    and "\<not> sc_seen (sx_counters s c) \<or> (\<exists>y. sc_last (sx_counters s c) = Finite y \<and> x < y)"
  shows "sys_run L P (OnMessage topic payload # es) s = None"
  using assms by (auto simp: sys_onMsg_def sys_counter_set_def prom_counter_laws_def)

end
