(* ===== verification/Natsdemo.thy ===== *)
theory Natsdemo
  imports Cliflags
begin

text \<open>
  The four NATS demonstrations (\<open>clients/nats/request-reply\<close>, \<open>queue-groups\<close>, \<open>subjects\<close>, \<open>leaf\<close>): each
  \<open>main.go\<close> from its flags to its exit, with what it prints.

  A connection is an argument: the error of each call, and the messages it hands to the callbacks, in
  batches between the points at which the program looks.  The two demonstrations that wait for deliveries
  share one loop, \<open>settle_wait\<close>, shown to end.
\<close>

section \<open>Shared parts\<close>

datatype demo_exit = DemoPass | DemoFail | DemoFatal string

record demo_result =
  dm_exit :: demo_exit
  dm_out :: "string list"
  dm_err :: "string list"

text \<open>\<open>connect\<close>: the library retries, an error is one of the options.\<close>

definition demo_connect :: "(string \<Rightarrow> gerr option) \<Rightarrow> string \<Rightarrow> string option" where
  "demo_connect dial addr = (case dial (''nats://'' @ addr) of None \<Rightarrow> None | Some e \<Rightarrow> Some (''connect: '' @ Error e))"

definition demo_fatal :: "string \<Rightarrow> string list \<Rightarrow> string list \<Rightarrow> demo_result" where
  "demo_fatal msg out err = \<lparr>dm_exit = DemoFatal msg, dm_out = out, dm_err = err\<rparr>"

text \<open>\<open>for total.Load() < want && time.Now().Before(deadline)\<close>: \<open>arr k\<close> are the deliveries before the
  \<open>k\<close>-th look at the counter, \<open>clk k\<close> the clock at that look; \<open>None\<close> means the fuel ran out.\<close>

fun settle_wait ::
  "nat \<Rightarrow> (nat \<Rightarrow> 'e list) \<Rightarrow> (nat \<Rightarrow> timestamp) \<Rightarrow> ('e \<Rightarrow> 's \<Rightarrow> 's) \<Rightarrow> ('s \<Rightarrow> int) \<Rightarrow> int \<Rightarrow> timestamp \<Rightarrow> nat \<Rightarrow> 's \<Rightarrow> 's option" where
  "settle_wait 0 arr clk h ctr want deadline k s = None"
| "settle_wait (Suc fuel) arr clk h ctr want deadline k s =
     (let s1 = fold h (arr k) s in
      if ctr s1 < want \<and> clk k < deadline then settle_wait fuel arr clk h ctr want deadline (Suc k) s1 else Some s1)"

section \<open>Request-reply\<close>

record rr_flags =
  rr_addr :: string
  rr_count :: int
  rr_timeout :: duration

definition rr_defaults :: rr_flags where
  "rr_defaults = \<lparr>rr_addr = ''127.0.0.1:30422'', rr_count = 3, rr_timeout = 2 * Second\<rparr>"

record 'w rr_conn =
  rc_dial :: "string \<Rightarrow> gerr option"
  rc_subscribe :: "string \<Rightarrow> gerr option"
  rc_flush :: "gerr option"
  rc_request :: "string \<Rightarrow> string \<Rightarrow> duration \<Rightarrow> 'w \<Rightarrow> (gerr + string \<times> string) \<times> 'w"

definition rr_subject :: string where "rr_subject = ''demo.request''"

text \<open>What the responder publishes to the inbox of a request, at the time \<open>ts\<close>.\<close>

definition rr_respond :: "string \<Rightarrow> string \<Rightarrow> string" where
  "rr_respond ts data = ''re: '' @ quoted data @ '' at '' @ ts"

definition rr_ping :: "int \<Rightarrow> string" where "rr_ping i = ''ping '' @ itoa i"

fun rr_loop ::
  "'w rr_conn \<Rightarrow> duration \<Rightarrow> int list \<Rightarrow> int \<times> string list \<times> string list \<Rightarrow> 'w \<Rightarrow> (int \<times> string list \<times> string list) \<times> 'w" where
  "rr_loop C timeout [] s w = (s, w)"
| "rr_loop C timeout (i # is) (replies, out, err) w =
     (let out1 = out @ [''[req] -> '' @ rr_subject @ '' : '' @ rr_ping i] in
      case rc_request C rr_subject (rr_ping i) timeout w of
        (Inl e, w1) \<Rightarrow>
          rr_loop C timeout is (replies, out1, err @ [''[req] request '' @ itoa i @ '' failed: '' @ Error e]) w1
      | (Inr (subject, data), w1) \<Rightarrow>
          rr_loop C timeout is (replies + 1, out1 @ [''[rep] <- '' @ subject @ '' : '' @ data], err) w1)"

definition rr_main :: "'w rr_conn \<Rightarrow> rr_flags \<Rightarrow> 'w \<Rightarrow> demo_result" where
  "rr_main C f w =
     (case demo_connect (rc_dial C) (rr_addr f) of
        Some msg \<Rightarrow> demo_fatal msg [] []
      | None \<Rightarrow>
          (case rc_subscribe C rr_subject of
             Some e \<Rightarrow> demo_fatal (''subscribe (responder): '' @ Error e) [] []
           | None \<Rightarrow>
               (case rc_flush C of
                  Some e \<Rightarrow> demo_fatal (''flush responder: '' @ Error e) [] []
                | None \<Rightarrow>
                    (let ((replies, out, err), w1) = rr_loop C (rr_timeout f) [1..rr_count f] (0, [], []) w;
                         out1 = out @ [''\<newline>summary: '' @ itoa replies @ ''/'' @ itoa (rr_count f) @ '' requests answered'']
                     in if replies \<noteq> rr_count f then
                          \<lparr>dm_exit = DemoFail, dm_out = out1, dm_err = err @ [''FAIL: not every request received a reply'']\<rparr>
                        else
                          \<lparr>dm_exit = DemoPass, dm_out = out1 @ [''PASS: every request got a synchronous reply via its _INBOX subject''],
                           dm_err = err\<rparr>))))"

section \<open>Queue groups\<close>

record qg_flags =
  qg_addr :: string
  qg_count :: int
  qg_workers :: int

definition qg_defaults :: qg_flags where
  "qg_defaults = \<lparr>qg_addr = ''127.0.0.1:30422'', qg_count = 9, qg_workers = 3\<rparr>"

record qg_conn =
  qc_dial :: "string \<Rightarrow> gerr option"
  qc_subscribe :: "int \<Rightarrow> gerr option"
  qc_flushSubs :: "gerr option"
  qc_publish :: "string \<Rightarrow> string \<Rightarrow> gerr option"
  qc_flushPubs :: "gerr option"

text \<open>A delivery: the worker and the message.  \<open>qs_tallies\<close> is the slice of counters, \<open>qs_total\<close> the total.\<close>

type_synonym qg_delivery = "nat \<times> string"

record qg_state =
  qs_tallies :: "int list"
  qs_total :: int
  qs_out :: "string list"

definition qg_handle :: "qg_delivery \<Rightarrow> qg_state \<Rightarrow> qg_state" where
  "qg_handle d s =
     s\<lparr>qs_tallies := (qs_tallies s)[fst d := qs_tallies s ! fst d + 1], qs_total := qs_total s + 1,
       qs_out := qs_out s @ [''  [worker '' @ nat_to_dec (fst d) @ ''] handled '' @ snd d]\<rparr>"

definition qg_task :: "int \<Rightarrow> string" where "qg_task i = ''task-'' @ itoa i"

text \<open>The publishing loop; \<open>during i\<close> is delivered after the line of message \<open>i\<close> is printed.\<close>

fun qg_publish :: "qg_conn \<Rightarrow> (int \<Rightarrow> qg_delivery list) \<Rightarrow> int list \<Rightarrow> qg_state \<Rightarrow> string option \<times> qg_state" where
  "qg_publish C during [] s = (None, s)"
| "qg_publish C during (i # is) s =
     (let s1 = fold qg_handle (during i) (s\<lparr>qs_out := qs_out s @ [''[pub] -> tasks : '' @ qg_task i]\<rparr>) in
      case qc_publish C ''tasks'' (qg_task i) of
        Some e \<Rightarrow> (Some (''publish '' @ itoa i @ '': '' @ Error e), s1)
      | None \<Rightarrow> qg_publish C during is s1)"

text \<open>The summary and the verdict over the tallies as they are read.\<close>

definition qg_verdict :: "qg_flags \<Rightarrow> qg_state \<Rightarrow> demo_result" where
  "qg_verdict f s =
     (let sum = sum_list (qs_tallies s);
          distinct_workers = int (length (filter (\<lambda>n. n > 0) (qs_tallies s)));
          out = qs_out s @ [''\<newline>summary (messages handled per worker):''] @
                map (\<lambda>w. ''  worker '' @ nat_to_dec w @ '': '' @ itoa (qs_tallies s ! w)) [0..<length (qs_tallies s)] @
                [''total handled: '' @ itoa sum @ ''/'' @ itoa (qg_count f) @ '' across '' @ itoa distinct_workers @ ''/'' @
                 itoa (qg_workers f) @ '' workers'']
      in if sum \<noteq> qg_count f then
           \<lparr>dm_exit = DemoFail, dm_out = out,
            dm_err = [''FAIL: messages handled did not equal messages published (each should be delivered exactly once)'']\<rparr>
         else if qg_workers f > 1 \<and> qg_count f \<ge> qg_workers f \<and> distinct_workers < 2 then
           \<lparr>dm_exit = DemoFail, dm_out = out, dm_err = [''FAIL: expected the load to spread across more than one worker'']\<rparr>
         else
           \<lparr>dm_exit = DemoPass,
            dm_out = out @ [''PASS: each message was delivered to exactly one worker, load balanced across the group''], dm_err = []\<rparr>)"

text \<open>\<open>main\<close>: \<open>now\<close> is the clock when the deadline is set, \<open>late\<close> what is delivered between the last look and
  the summary.\<close>

definition qg_main ::
  "nat \<Rightarrow> qg_conn \<Rightarrow> qg_flags \<Rightarrow> (int \<Rightarrow> qg_delivery list) \<Rightarrow> timestamp \<Rightarrow> (nat \<Rightarrow> qg_delivery list) \<Rightarrow> (nat \<Rightarrow> timestamp) \<Rightarrow> qg_delivery list
   \<Rightarrow> demo_result option" where
  "qg_main fuel C f during now arr clk late =
     (if qg_workers f < 1 then Some (demo_fatal ''-workers must be >= 1'' [] [])
      else case demo_connect (qc_dial C) (qg_addr f) of
        Some msg \<Rightarrow> Some (demo_fatal msg [] [])
      | None \<Rightarrow>
          (case find (\<lambda>w. qc_subscribe C w \<noteq> None) [0..qg_workers f - 1] of
             Some w \<Rightarrow> Some (demo_fatal (''queue subscribe (worker '' @ itoa w @ ''): '' @ Error (the (qc_subscribe C w))) [] [])
           | None \<Rightarrow>
               (case qc_flushSubs C of
                  Some e \<Rightarrow> Some (demo_fatal (''flush subscriptions: '' @ Error e) [] [])
                | None \<Rightarrow>
                    (case qg_publish C during [1..qg_count f]
                            \<lparr>qs_tallies = replicate (nat (qg_workers f)) 0, qs_total = 0, qs_out = []\<rparr> of
                       (Some msg, s) \<Rightarrow> Some (demo_fatal msg (qs_out s) [])
                     | (None, s) \<Rightarrow>
                         (case qc_flushPubs C of
                            Some e \<Rightarrow> Some (demo_fatal (''flush publishes: '' @ Error e) (qs_out s) [])
                          | None \<Rightarrow>
                              (case settle_wait fuel arr clk qg_handle qs_total (qg_count f) (now + 5 * Second) 0 s of
                                 None \<Rightarrow> None
                               | Some s1 \<Rightarrow> Some (qg_verdict f (fold qg_handle late s1))))))))"

section \<open>Subjects\<close>

record demo_sub =
  ds_label :: string
  ds_pattern :: string
  ds_want :: int
  ds_got :: int

record sj_flags =
  sj_addr :: string
  sj_settle :: duration

definition sj_defaults :: sj_flags where
  "sj_defaults = \<lparr>sj_addr = ''127.0.0.1:30422'', sj_settle = 100 * Millisecond\<rparr>"

definition sj_subjects :: "string list" where
  "sj_subjects = [''orders.retail.placed'', ''orders.retail.shipped'', ''orders.wholesale.placed'', ''orders.wholesale.shipped'']"

definition sj_subs :: "demo_sub list" where
  "sj_subs =
     [\<lparr>ds_label = ''exact'', ds_pattern = ''orders.retail.placed'', ds_want = 1, ds_got = 0\<rparr>,
      \<lparr>ds_label = ''wild '', ds_pattern = ''orders.retail.*'', ds_want = 2, ds_got = 0\<rparr>,
      \<lparr>ds_label = ''full '', ds_pattern = ''orders.>'', ds_want = int (length sj_subjects), ds_got = 0\<rparr>]"

record sj_conn =
  jc_dial :: "string \<Rightarrow> gerr option"
  jc_subscribe :: "string \<Rightarrow> gerr option"
  jc_flushSubs :: "gerr option"
  jc_publish :: "string \<Rightarrow> gerr option"
  jc_flush :: "string \<Rightarrow> gerr option"

text \<open>A delivery: the index of the subscriber and the subject of the message.\<close>

type_synonym sj_delivery = "nat \<times> string"

record sj_state =
  sj_list :: "demo_sub list"
  sj_total :: int
  sj_out :: "string list"

text \<open>The verb \<open>%-ns\<close> on ASCII text.\<close>

definition pad_right :: "nat \<Rightarrow> string \<Rightarrow> string" where
  "pad_right n s = s @ replicate (n - length s) CHR '' ''"

definition sj_handle :: "sj_delivery \<Rightarrow> sj_state \<Rightarrow> sj_state" where
  "sj_handle d s =
     (let b = sj_list s ! fst d in
      s\<lparr>sj_list := (sj_list s)[fst d := b\<lparr>ds_got := ds_got b + 1\<rparr>], sj_total := sj_total s + 1,
        sj_out := sj_out s @ [''  [sub '' @ ds_label b @ '' '' @ pad_right 22 (ds_pattern b) @ ''] GOT '' @ snd d]\<rparr>)"

text \<open>The publishing loop; \<open>during s\<close> is delivered while subject \<open>s\<close> is published, flushed and left to settle.\<close>

fun sj_publish :: "sj_conn \<Rightarrow> (string \<Rightarrow> sj_delivery list) \<Rightarrow> string list \<Rightarrow> sj_state \<Rightarrow> string option \<times> sj_state" where
  "sj_publish C during [] s = (None, s)"
| "sj_publish C during (subj # subjs) s =
     (let s1 = s\<lparr>sj_out := sj_out s @ [''[pub] -> '' @ subj]\<rparr> in
      case jc_publish C subj of
        Some e \<Rightarrow> (Some (''publish '' @ quoted subj @ '': '' @ Error e), s1)
      | None \<Rightarrow>
          (case jc_flush C subj of
             Some e \<Rightarrow> (Some (''flush publish: '' @ Error e), s1)
           | None \<Rightarrow> sj_publish C during subjs (fold sj_handle (during subj) s1)))"

definition sj_status :: "demo_sub \<Rightarrow> string" where
  "sj_status b =
     ''  '' @ pad_right 5 (ds_label b) @ '' '' @ pad_right 22 (ds_pattern b) @ '' got='' @ itoa (ds_got b) @ '' want='' @
     itoa (ds_want b) @ ''  '' @ (if ds_got b \<noteq> ds_want b then ''MISMATCH'' else ''ok'')"

definition sj_verdict :: "sj_state \<Rightarrow> demo_result" where
  "sj_verdict s =
     (let out = sj_out s @ [''\<newline>summary (each subscriber's match count):''] @ map sj_status (sj_list s) in
      if list_ex (\<lambda>b. ds_got b \<noteq> ds_want b) (sj_list s) then
        \<lparr>dm_exit = DemoFail, dm_out = out, dm_err = [''FAIL: subscriber match counts did not equal expectations'']\<rparr>
      else
        \<lparr>dm_exit = DemoPass, dm_out = out @ [''PASS: exact matched 1, retail wildcard matched 2, full wildcard matched all''], dm_err = []\<rparr>)"

definition sj_main ::
  "nat \<Rightarrow> sj_conn \<Rightarrow> sj_flags \<Rightarrow> (string \<Rightarrow> sj_delivery list) \<Rightarrow> timestamp \<Rightarrow> (nat \<Rightarrow> sj_delivery list) \<Rightarrow> (nat \<Rightarrow> timestamp) \<Rightarrow> sj_delivery list
   \<Rightarrow> demo_result option" where
  "sj_main fuel C f during now arr clk late =
     (case demo_connect (jc_dial C) (sj_addr f) of
        Some msg \<Rightarrow> Some (demo_fatal msg [] [])
      | None \<Rightarrow>
          (case find (\<lambda>b. jc_subscribe C (ds_pattern b) \<noteq> None) sj_subs of
             Some b \<Rightarrow> Some (demo_fatal (''subscribe '' @ quoted (ds_pattern b) @ '': '' @ Error (the (jc_subscribe C (ds_pattern b)))) [] [])
           | None \<Rightarrow>
               (case jc_flushSubs C of
                  Some e \<Rightarrow> Some (demo_fatal (''flush subscriptions: '' @ Error e) [] [])
                | None \<Rightarrow>
                    (let wantTotal = sum_list (map ds_want sj_subs) in
                     case sj_publish C during sj_subjects \<lparr>sj_list = sj_subs, sj_total = 0, sj_out = []\<rparr> of
                       (Some msg, s) \<Rightarrow> Some (demo_fatal msg (sj_out s) [])
                     | (None, s) \<Rightarrow>
                         (case settle_wait fuel arr clk sj_handle sj_total wantTotal (now + 2 * Second) 0 s of
                            None \<Rightarrow> None
                          | Some s1 \<Rightarrow> Some (sj_verdict (fold sj_handle late s1)))))))"

section \<open>Leaf node\<close>

record lf_flags =
  lf_hubAddr :: string
  lf_leafAddr :: string
  lf_timeout :: duration
  lf_settle :: duration

definition lf_defaults :: lf_flags where
  "lf_defaults =
     \<lparr>lf_hubAddr = ''127.0.0.1:30422'', lf_leafAddr = ''127.0.0.1:30423'', lf_timeout = 5 * Second, lf_settle = 300 * Millisecond\<rparr>"

record lf_conn =
  lc_subscribe :: "string \<Rightarrow> gerr option"
  lc_flushSub :: "string \<Rightarrow> gerr option"
  lc_publish :: "string \<Rightarrow> string \<Rightarrow> gerr option"
  lc_flushPub :: "string \<Rightarrow> gerr option"

definition long_dash :: string where "long_dash = map char_of [226, 128, 148 :: nat]"

text \<open>\<open>crosses\<close>: \<open>arrived\<close> are the messages the callback sees before the timer fires; the channel keeps the
  first.  \<open>Inl\<close> is a fatal error, with the lines printed before it.\<close>

definition crosses ::
  "lf_conn \<Rightarrow> lf_conn \<Rightarrow> string \<Rightarrow> string \<Rightarrow> string \<Rightarrow> duration \<Rightarrow> (string \<Rightarrow> string list) \<Rightarrow> (string \<times> string list) + (bool \<times> string list)" where
  "crosses pubConn subConn pubLabel subLabel subject timeout arrived =
     (case lc_subscribe subConn subject of
        Some e \<Rightarrow> Inl (''subscribe on '' @ subLabel @ '': '' @ Error e, [])
      | None \<Rightarrow>
          (case lc_flushSub subConn subject of
             Some e \<Rightarrow> Inl (''flush '' @ subLabel @ '' subscription: '' @ Error e, [])
           | None \<Rightarrow>
               (let body = ''crossing '' @ pubLabel @ ''->'' @ subLabel;
                    line = ''\<newline>['' @ pubLabel @ '' pub] -> '' @ subject @ '' : '' @ quoted body
                in case lc_publish pubConn subject body of
                     Some e \<Rightarrow> Inl (''publish on '' @ pubLabel @ '': '' @ Error e, [line])
                   | None \<Rightarrow>
                       (case lc_flushPub pubConn subject of
                          Some e \<Rightarrow> Inl (''flush '' @ pubLabel @ '' publish: '' @ Error e, [line])
                        | None \<Rightarrow>
                            (case arrived subject of
                               data # _ \<Rightarrow>
                                 Inr (True, [line, ''['' @ subLabel @ '' sub] <- '' @ subject @ '' : '' @ quoted data @ ''  (crossed the leaf link)''])
                             | [] \<Rightarrow>
                                 Inr (False, [line, ''['' @ subLabel @ '' sub] TIMEOUT after '' @ Duration_String timeout @ '' '' @ long_dash @ '' nothing arrived'']))))))"

definition leaf_connect :: "(string \<Rightarrow> gerr option) \<Rightarrow> string \<Rightarrow> string \<Rightarrow> string option" where
  "leaf_connect dial label addr =
     (case dial (''nats://'' @ addr) of
        None \<Rightarrow> None
      | Some e \<Rightarrow> Some (''connect '' @ label @ '' ('' @ addr @ ''): '' @ Error e))"

definition leaf_main ::
  "(string \<Rightarrow> gerr option) \<Rightarrow> lf_conn \<Rightarrow> lf_conn \<Rightarrow> lf_flags \<Rightarrow> (string \<Rightarrow> string list) \<Rightarrow> demo_result" where
  "leaf_main dial hub leaf f arrived =
     (case leaf_connect dial ''hub'' (lf_hubAddr f) of
        Some msg \<Rightarrow> demo_fatal msg [] []
      | None \<Rightarrow>
          (case leaf_connect dial ''leaf'' (lf_leafAddr f) of
             Some msg \<Rightarrow> demo_fatal msg [] []
           | None \<Rightarrow>
               (case crosses hub leaf ''hub'' ''leaf'' ''leaf.demo.hub2leaf'' (lf_timeout f) arrived of
                  Inl (msg, out) \<Rightarrow> demo_fatal msg out []
                | Inr (ok1, out1) \<Rightarrow>
                    (case crosses leaf hub ''leaf'' ''hub'' ''leaf.demo.leaf2hub'' (lf_timeout f) arrived of
                       Inl (msg, out) \<Rightarrow> demo_fatal msg (out1 @ out) []
                     | Inr (ok2, out2) \<Rightarrow>
                         (if \<not> (ok1 \<and> ok2) then
                            \<lparr>dm_exit = DemoFail, dm_out = out1 @ out2 @ [''''], dm_err = [''FAIL: a message did not cross the leaf link'']\<rparr>
                          else
                            \<lparr>dm_exit = DemoPass, dm_out = out1 @ out2 @ ['''', ''PASS: subject interest bridged both ways across the leaf link''],
                             dm_err = []\<rparr>)))))"

section \<open>Waiting for deliveries\<close>

text \<open>What the two waiting demonstrations share: each delivery raises the counter by one.  Then the wait ends
  within the deadline, with the counter reached or the deadline passed.\<close>

locale settling =
  fixes handle :: "'e \<Rightarrow> 's \<Rightarrow> 's" and seen :: "'s \<Rightarrow> int"
  assumes seen_handle: "seen (handle e s) = seen s + 1"
begin

lemma seen_fold: "seen (fold handle es s) = seen s + int (length es)"
  by (induction es arbitrary: s) (auto simp: seen_handle)

lemma wait_from:
  assumes "deadline \<le> clk K" and "k \<le> K" and "K < fuel + k"
  shows "\<exists>j. settle_wait fuel arr clk handle seen want deadline k s = Some (fold handle (concat (map arr [k..<Suc j])) s) \<and> k \<le> j \<and> j \<le> K \<and>
           (want \<le> seen s + int (length (concat (map arr [k..<Suc j]))) \<or> deadline \<le> clk j)"
  using assms(2,3)
proof (induction fuel arbitrary: k s)
  case (Suc fuel)
  let ?s = "fold handle (arr k) s"
  show ?case
  proof (cases "seen ?s < want \<and> clk k < deadline")
    case True
    with assms(1) Suc.prems have "Suc k \<le> K" by (metis leD le_neq_implies_less Suc_leI)
    from Suc.IH [OF this, of ?s] Suc.prems obtain j where
      "settle_wait fuel arr clk handle seen want deadline (Suc k) ?s = Some (fold handle (concat (map arr [Suc k..<Suc j])) ?s)"
      "Suc k \<le> j" "j \<le> K" "want \<le> seen ?s + int (length (concat (map arr [Suc k..<Suc j]))) \<or> deadline \<le> clk j" by auto
    with True show ?thesis by (intro exI [of _ j]) (auto simp: Let_def upt_conv_Cons seen_fold simp del: upt_Suc)
  next
    case False
    then show ?thesis using Suc.prems by (intro exI [of _ k]) (auto simp: Let_def seen_fold)
  qed
qed simp

lemma wait_ends:
  assumes "\<And>k. now + int k * (10 * Millisecond) \<le> clk k" and "d \<le> int K * (10 * Millisecond)" and "K < fuel"
  shows "\<exists>j \<le> K. settle_wait fuel arr clk handle seen want (now + d) 0 s = Some (fold handle (concat (map arr [0..<Suc j])) s) \<and>
           (want \<le> seen s + int (length (concat (map arr [0..<Suc j]))) \<or> now + d \<le> clk j)"
proof -
  have "now + d \<le> clk K" using assms(1) [of K] assms(2) by linarith
  from wait_from [where clk = clk and K = K and k = 0 and fuel = fuel, OF this] assms(3) show ?thesis by fastforce
qed

end

interpretation qw: settling qg_handle qs_total
  by unfold_locales (simp add: qg_handle_def)

interpretation sw: settling sj_handle sj_total
  by unfold_locales (simp add: sj_handle_def Let_def)

section \<open>The verdicts\<close>

text \<open>Request-reply: which requests a bus answers, in order.\<close>

fun rr_answers :: "'w rr_conn \<Rightarrow> duration \<Rightarrow> int list \<Rightarrow> 'w \<Rightarrow> bool list" where
  "rr_answers C timeout [] w = []"
| "rr_answers C timeout (i # is) w =
     (case rc_request C rr_subject (rr_ping i) timeout w of (r, w1) \<Rightarrow> (\<exists>d. r = Inr d) # rr_answers C timeout is w1)"

lemma rr_loop_replies:
  "fst (fst (rr_loop C timeout is (replies, out, err) w)) = replies + int (length (filter id (rr_answers C timeout is w)))"
  by (induction C timeout "is" "(replies, out, err)" w arbitrary: replies out err rule: rr_loop.induct)
     (auto simp: Let_def split: prod.splits sum.splits)

lemma rr_answers_length [simp]: "length (rr_answers C timeout is w) = length is"
  by (induction "is" arbitrary: w) (auto split: prod.splits)

lemma filter_short: "length (filter P xs) \<noteq> Suc (length xs)"
  using length_filter_le [of P xs] by linarith

lemma all_answered: "length (filter id bs) = length bs \<longleftrightarrow> list_all id bs"
  by (induction bs) (auto simp: filter_short)

theorem request_demo_exact:
  assumes "rc_dial C (''nats://'' @ rr_addr f) = None" and "rc_subscribe C rr_subject = None" and "rc_flush C = None"
  shows "dm_exit (rr_main C f w) =
           (if 0 \<le> rr_count f \<and> list_all id (rr_answers C (rr_timeout f) [1..rr_count f] w) then DemoPass else DemoFail)"
proof -
  let ?bs = "rr_answers C (rr_timeout f) [1..rr_count f] w"
  obtain out err w1 where l: "rr_loop C (rr_timeout f) [1..rr_count f] (0, [], []) w = ((int (length (filter id ?bs)), out, err), w1)"
    using rr_loop_replies [of C "rr_timeout f" "[1..rr_count f]" 0 "[]" "[]" w] by (metis prod.collapse add_0)
  have "int (length (filter id ?bs)) = rr_count f \<longleftrightarrow> 0 \<le> rr_count f \<and> list_all id ?bs"
    using all_answered [of ?bs] by (cases "0 \<le> rr_count f") auto
  with l assms show ?thesis by (auto simp: rr_main_def demo_connect_def)
qed

text \<open>Leaf node.\<close>

definition lf_calls_ok :: "(string \<Rightarrow> gerr option) \<Rightarrow> lf_conn \<Rightarrow> lf_conn \<Rightarrow> bool" where
  "lf_calls_ok dial hub leaf \<longleftrightarrow>
     (\<forall>a. dial a = None) \<and>
     (\<forall>c \<in> {hub, leaf}. \<forall>s b. lc_subscribe c s = None \<and> lc_flushSub c s = None \<and> lc_publish c s b = None \<and> lc_flushPub c s = None)"

theorem leaf_demo_exact:
  assumes "lf_calls_ok dial hub leaf"
  shows "dm_exit (leaf_main dial hub leaf f arrived) =
           (if arrived ''leaf.demo.hub2leaf'' \<noteq> [] \<and> arrived ''leaf.demo.leaf2hub'' \<noteq> [] then DemoPass else DemoFail)"
  using assms
  by (auto simp: leaf_main_def leaf_connect_def crosses_def lf_calls_ok_def Let_def split: list.splits)

text \<open>Queue groups: the tallies after a run of deliveries.\<close>

lemma qg_fold_tallies:
  assumes "\<forall>d \<in> set D. fst d < length (qs_tallies s)"
  shows "qs_tallies (fold qg_handle D s) =
           map (\<lambda>w. qs_tallies s ! w + int (length (filter (\<lambda>d. fst d = w) D))) [0..<length (qs_tallies s)]"
  using assms
proof (induction D arbitrary: s)
  case Nil
  show ?case by (simp add: map_nth)
next
  case (Cons d D)
  have len: "length (qs_tallies (qg_handle d s)) = length (qs_tallies s)" by (simp add: qg_handle_def)
  show ?case
    using Cons.IH [of "qg_handle d s"] Cons.prems len by (auto simp: qg_handle_def nth_list_update intro!: map_cong)
qed

definition per_worker :: "nat \<Rightarrow> qg_delivery list \<Rightarrow> int list" where
  "per_worker n D = map (\<lambda>w. int (length (filter (\<lambda>d. fst d = w) D))) [0..<n]"

lemma sum_per_worker:
  assumes "\<forall>d \<in> set D. fst d < n"
  shows "sum_list (per_worker n D) = int (length D)"
proof -
  have "(\<Sum>w\<leftarrow>[0..<n]. int (length (filter (\<lambda>d. fst d = w) D))) = int (length D)"
    using assms
  proof (induction D)
    case (Cons d D)
    have "(\<Sum>w\<leftarrow>[0..<n]. int (length (filter (\<lambda>d. fst d = w) (d # D)))) =
        (\<Sum>w\<leftarrow>[0..<n]. (if fst d = w then 1 else 0) + int (length (filter (\<lambda>d. fst d = w) D)))"
      by (intro arg_cong [of _ _ sum_list] map_cong) auto
    also have "\<dots> = (\<Sum>w\<leftarrow>[0..<n]. if fst d = w then 1 else 0) + int (length D)"
      using Cons by (simp add: sum_list_addf)
    also have "(\<Sum>w\<leftarrow>[0..<n]. if fst d = w then 1 else 0) = (1 :: int)"
      using Cons.prems by (simp add: sum_list_distinct_conv_sum_set)
    finally show ?case by simp
  qed simp
  then show ?thesis by (simp add: per_worker_def)
qed

lemma workers_per_worker:
  assumes "\<forall>d \<in> set D. fst d < n"
  shows "length (filter (\<lambda>k. k > 0) (per_worker n D)) = card (fst ` set D)"
proof -
  have "length (filter (\<lambda>k. k > 0) (per_worker n D)) = length (filter (\<lambda>w. w \<in> fst ` set D) [0..<n])"
    by (simp add: per_worker_def filter_map comp_def length_greater_0_conv filter_empty_conv image_iff)
       (rule arg_cong [of _ _ length], rule filter_cong, auto)
  also have "\<dots> = card (set (filter (\<lambda>w. w \<in> fst ` set D) [0..<n]))"
    by (simp add: distinct_card del: set_filter)
  also have "set (filter (\<lambda>w. w \<in> fst ` set D) [0..<n]) = fst ` set D" using assms by auto
  finally show ?thesis .
qed

lemma qg_verdict_exact:
  assumes "qs_tallies s = per_worker n D" and "\<forall>d \<in> set D. fst d < n"
  shows "dm_exit (qg_verdict f s) =
           (if int (length D) = qg_count f \<and> (1 < qg_workers f \<and> qg_workers f \<le> qg_count f \<longrightarrow> 2 \<le> card (fst ` set D))
            then DemoPass else DemoFail)"
  using assms by (auto simp: qg_verdict_def sum_per_worker workers_per_worker Let_def)

definition qg_calls_ok :: "qg_conn \<Rightarrow> bool" where
  "qg_calls_ok C \<longleftrightarrow>
     (\<forall>a. qc_dial C a = None) \<and> (\<forall>w. qc_subscribe C w = None) \<and> qc_flushSubs C = None \<and> (\<forall>s b. qc_publish C s b = None) \<and> qc_flushPubs C = None"

lemma find_never [simp]: "find (\<lambda>x. False) xs = None"
  by (induction xs) auto

text \<open>Printing moves no tally.\<close>

lemma qg_handle_tallies_cong: "qs_tallies s = qs_tallies t \<Longrightarrow> qs_tallies (fold qg_handle D s) = qs_tallies (fold qg_handle D t)"
  by (induction D arbitrary: s t) (auto simp: qg_handle_def)

lemma qg_publish_tallies:
  assumes "qg_calls_ok C"
  shows "fst (qg_publish C during is s) = None \<and>
         qs_tallies (snd (qg_publish C during is s)) = qs_tallies (fold qg_handle (concat (map during is)) s)"
  using assms
proof (induction "is" arbitrary: s)
  case (Cons i "is")
  let ?s = "s\<lparr>qs_out := qs_out s @ [''[pub] -> tasks : '' @ qg_task i]\<rparr>"
  have "qs_tallies (fold qg_handle (concat (map during is)) (fold qg_handle (during i) ?s)) =
      qs_tallies (fold qg_handle (concat (map during is)) (fold qg_handle (during i) s))"
    by (intro qg_handle_tallies_cong) simp
  with Cons show ?case by (simp add: qg_calls_ok_def)
qed simp

theorem queue_demo_exact:
  assumes "1 \<le> qg_workers f" and "qg_calls_ok C"
    and "\<And>k. now + int k * (10 * Millisecond) \<le> clk k" and "500 < fuel"
    and "\<And>i d. d \<in> set (during i) \<Longrightarrow> fst d < nat (qg_workers f)" and "\<And>k d. d \<in> set (arr k) \<Longrightarrow> fst d < nat (qg_workers f)"
    and "\<And>d. d \<in> set late \<Longrightarrow> fst d < nat (qg_workers f)"
  shows "\<exists>j r D. j \<le> 500 \<and> D = concat (map during [1..qg_count f]) @ concat (map arr [0..<Suc j]) @ late \<and>
           qg_main fuel C f during now arr clk late = Some r \<and>
           dm_exit r =
             (if int (length D) = qg_count f \<and> (1 < qg_workers f \<and> qg_workers f \<le> qg_count f \<longrightarrow> 2 \<le> card (fst ` set D))
              then DemoPass else DemoFail)"
proof -
  let ?s0 = "\<lparr>qs_tallies = replicate (nat (qg_workers f)) 0, qs_total = 0, qs_out = []\<rparr>"
  obtain s where s: "qg_publish C during [1..qg_count f] ?s0 = (None, s)"
      "qs_tallies s = qs_tallies (fold qg_handle (concat (map during [1..qg_count f])) ?s0)"
    using qg_publish_tallies [OF assms(2), of during "[1..qg_count f]" ?s0] by (metis prod.collapse)
  from qw.wait_ends [where now = now and clk = clk and K = 500 and fuel = fuel and d = "5 * Second" and arr = arr and want = "qg_count f" and s = s] assms(3,4)
  obtain j where j: "j \<le> 500"
      "settle_wait fuel arr clk qg_handle qs_total (qg_count f) (now + 5 * Second) 0 s = Some (fold qg_handle (concat (map arr [0..<Suc j])) s)"
    by auto
  let ?D = "concat (map during [1..qg_count f]) @ concat (map arr [0..<Suc j]) @ late"
  let ?fin = "fold qg_handle late (fold qg_handle (concat (map arr [0..<Suc j])) s)"
  have D: "\<forall>d \<in> set ?D. fst d < nat (qg_workers f)" using assms(5,6,7) by auto
  have "qs_tallies ?fin = qs_tallies (fold qg_handle ?D ?s0)"
    by (simp only: fold_append comp_apply) (rule qg_handle_tallies_cong, rule qg_handle_tallies_cong, rule s(2))
  also have "\<dots> = per_worker (nat (qg_workers f)) ?D"
    using qg_fold_tallies [of ?D ?s0] D by (simp add: per_worker_def cong: map_cong)
  finally have t: "qs_tallies ?fin = per_worker (nat (qg_workers f)) ?D" .
  have "qg_main fuel C f during now arr clk late = Some (qg_verdict f ?fin)"
    using assms(1,2) s(1) j(2) by (simp add: qg_main_def demo_connect_def qg_calls_ok_def)
  with qg_verdict_exact [OF t D] j(1) show ?thesis by blast
qed

text \<open>The check counts deliveries and workers, nothing else: a lost message and a duplicate cancel out, and a group
  that hands every message to one of two workers fails.\<close>

definition sample_qg_conn :: qg_conn where
  "sample_qg_conn = \<lparr>qc_dial = (\<lambda>_. None), qc_subscribe = (\<lambda>_. None), qc_flushSubs = None, qc_publish = (\<lambda>_ _. None), qc_flushPubs = None\<rparr>"

definition two_workers :: qg_flags where
  "two_workers = qg_defaults\<lparr>qg_count := 2, qg_workers := 2\<rparr>"

definition delivered_at_once :: "'a list \<Rightarrow> nat \<Rightarrow> 'a list" where
  "delivered_at_once D k = (if k = 0 then D else [])"

lemma delivered_at_once_concat: "concat (map (delivered_at_once D) [0..<Suc j]) = D"
  by (induction j) (auto simp: delivered_at_once_def)

lemma two_workers_verdict:
  assumes "\<forall>d \<in> set D. fst d < 2" and "length D = 2"
  shows "\<exists>r. qg_main 501 sample_qg_conn two_workers (\<lambda>_. []) 0 (delivered_at_once D) (\<lambda>k. int k * (10 * Millisecond)) [] = Some r \<and>
           dm_exit r = (if 2 \<le> card (fst ` set D) then DemoPass else DemoFail)"
proof -
  have in_range: "fst d < 2" if "d \<in> set (delivered_at_once D k)" for k d
    using that assms(1) by (auto simp: delivered_at_once_def split: if_splits)
  have none: "concat (map (\<lambda>_. []) [1..qg_count two_workers]) = ([] :: qg_delivery list)" by simp
  have w: "nat (qg_workers two_workers) = 2" by (simp add: two_workers_def)
  have "\<exists>j r D'. j \<le> 500 \<and>
      D' = concat (map (\<lambda>_. []) [1..qg_count two_workers]) @ concat (map (delivered_at_once D) [0..<Suc j]) @ [] \<and>
      qg_main 501 sample_qg_conn two_workers (\<lambda>_. []) 0 (delivered_at_once D) (\<lambda>k. int k * (10 * Millisecond)) [] = Some r \<and>
      dm_exit r =
        (if int (length D') = qg_count two_workers \<and>
            (1 < qg_workers two_workers \<and> qg_workers two_workers \<le> qg_count two_workers \<longrightarrow> 2 \<le> card (fst ` set D'))
         then DemoPass else DemoFail)"
    by (rule queue_demo_exact) (use in_range in \<open>simp_all add: w, simp_all add: sample_qg_conn_def qg_calls_ok_def two_workers_def\<close>)
  then show ?thesis unfolding none append_Nil append_Nil2 delivered_at_once_concat
    using assms(2) by (auto simp: two_workers_def)
qed

theorem queue_demo_duplicate:
  "\<exists>r. qg_main 501 sample_qg_conn two_workers (\<lambda>_. []) 0 (delivered_at_once [(0, ''task-1''), (1, ''task-1'')])
         (\<lambda>k. int k * (10 * Millisecond)) [] = Some r \<and> dm_exit r = DemoPass"
  using two_workers_verdict [of "[(0, ''task-1''), (1, ''task-1'')]"] by simp

theorem queue_demo_unlucky:
  "\<exists>r. qg_main 501 sample_qg_conn two_workers (\<lambda>_. []) 0 (delivered_at_once [(0, ''task-1''), (0, ''task-2'')])
         (\<lambda>k. int k * (10 * Millisecond)) [] = Some r \<and> dm_exit r = DemoFail"
  using two_workers_verdict [of "[(0, ''task-1''), (0, ''task-2'')]"] by simp

text \<open>Subjects: the counters after a run of deliveries, and the verdict over them.\<close>

lemma sj_fold_list:
  assumes "\<forall>d \<in> set D. fst d < length (sj_list s)"
  shows "sj_list (fold sj_handle D s) =
           map (\<lambda>i. (sj_list s ! i)\<lparr>ds_got := ds_got (sj_list s ! i) + int (length (filter (\<lambda>d. fst d = i) D))\<rparr>) [0..<length (sj_list s)]"
  using assms
proof (induction D arbitrary: s)
  case Nil
  show ?case by (simp add: map_nth)
next
  case (Cons d D)
  have len: "length (sj_list (sj_handle d s)) = length (sj_list s)" by (simp add: sj_handle_def Let_def)
  show ?case
    using Cons.IH [of "sj_handle d s"] Cons.prems len by (auto simp: sj_handle_def Let_def nth_list_update intro!: map_cong)
qed

lemma sj_handle_list_cong: "sj_list s = sj_list t \<Longrightarrow> sj_list (fold sj_handle D s) = sj_list (fold sj_handle D t)"
  by (induction D arbitrary: s t) (auto simp: sj_handle_def Let_def)

definition sj_calls_ok :: "sj_conn \<Rightarrow> bool" where
  "sj_calls_ok C \<longleftrightarrow>
     (\<forall>a. jc_dial C a = None) \<and> (\<forall>p. jc_subscribe C p = None) \<and> jc_flushSubs C = None \<and> (\<forall>s. jc_publish C s = None \<and> jc_flush C s = None)"

lemma sj_publish_list:
  assumes "sj_calls_ok C"
  shows "fst (sj_publish C during subjs s) = None \<and>
         sj_list (snd (sj_publish C during subjs s)) = sj_list (fold sj_handle (concat (map during subjs)) s)"
  using assms
proof (induction subjs arbitrary: s)
  case (Cons subj subjs)
  let ?t = "s\<lparr>sj_out := sj_out s @ [''[pub] -> '' @ subj]\<rparr>"
  have "sj_list (fold sj_handle (concat (map during subjs)) (fold sj_handle (during subj) ?t)) =
      sj_list (fold sj_handle (concat (map during subjs)) (fold sj_handle (during subj) s))"
    by (intro sj_handle_list_cong) simp
  with Cons show ?case by (simp add: sj_calls_ok_def)
qed simp

theorem subjects_demo_exact:
  assumes "sj_calls_ok C"
    and "\<And>k. now + int k * (10 * Millisecond) \<le> clk k" and "200 < fuel"
    and "\<And>s d. d \<in> set (during s) \<Longrightarrow> fst d < 3" and "\<And>k d. d \<in> set (arr k) \<Longrightarrow> fst d < 3" and "\<And>d. d \<in> set late \<Longrightarrow> fst d < 3"
  shows "\<exists>j r D. j \<le> 200 \<and> D = concat (map during sj_subjects) @ concat (map arr [0..<Suc j]) @ late \<and>
           sj_main fuel C f during now arr clk late = Some r \<and>
           dm_exit r =
             (if list_all (\<lambda>i. int (length (filter (\<lambda>d. fst d = i) D)) = ds_want (sj_subs ! i)) [0..<3] then DemoPass else DemoFail)"
proof -
  let ?start = "\<lparr>sj_list = sj_subs, sj_total = 0, sj_out = []\<rparr>"
  obtain s where s: "sj_publish C during sj_subjects ?start = (None, s)"
      "sj_list s = sj_list (fold sj_handle (concat (map during sj_subjects)) ?start)"
    using sj_publish_list [OF assms(1), of during sj_subjects ?start] by (metis prod.collapse)
  let ?want = "sum_list (map ds_want sj_subs)"
  from sw.wait_ends [where now = now and clk = clk and K = 200 and fuel = fuel and d = "2 * Second" and arr = arr and want = ?want and s = s] assms(2,3)
  obtain j where j: "j \<le> 200"
      "settle_wait fuel arr clk sj_handle sj_total ?want (now + 2 * Second) 0 s = Some (fold sj_handle (concat (map arr [0..<Suc j])) s)"
    by auto
  let ?D = "concat (map during sj_subjects) @ concat (map arr [0..<Suc j]) @ late"
  let ?fin = "fold sj_handle late (fold sj_handle (concat (map arr [0..<Suc j])) s)"
  have len: "length sj_subs = 3" by (simp add: sj_subs_def)
  have D: "\<forall>d \<in> set ?D. fst d < length (sj_list ?start)" using assms(4,5,6) len by auto
  have "sj_list ?fin = sj_list (fold sj_handle ?D ?start)"
    by (simp only: fold_append comp_apply) (rule sj_handle_list_cong, rule sj_handle_list_cong, rule s(2))
  also have "\<dots> = map (\<lambda>i. (sj_subs ! i)\<lparr>ds_got := int (length (filter (\<lambda>d. fst d = i) ?D))\<rparr>) [0..<3]"
    unfolding sj_fold_list [OF D] by (simp add: len sj_subs_def numeral_3_eq_3)
  finally have l: "sj_list ?fin = map (\<lambda>i. (sj_subs ! i)\<lparr>ds_got := int (length (filter (\<lambda>d. fst d = i) ?D))\<rparr>) [0..<3]" .
  have "sj_main fuel C f during now arr clk late = Some (sj_verdict ?fin)"
    using assms(1) s(1) j(2) by (simp add: sj_main_def demo_connect_def sj_calls_ok_def Let_def)
  moreover have "dm_exit (sj_verdict ?fin) =
      (if list_all (\<lambda>i. int (length (filter (\<lambda>d. fst d = i) ?D)) = ds_want (sj_subs ! i)) [0..<3] then DemoPass else DemoFail)"
    unfolding sj_verdict_def l by (auto simp: Let_def list_all_iff list_ex_iff)
  ultimately show ?thesis using j(1) by blast
qed

text \<open>The documented matching of subjects, token by token: \<open>*\<close> stands for one token, \<open>>\<close> for one or more.\<close>

definition nats_matching :: "(string list \<Rightarrow> string list \<Rightarrow> bool) \<Rightarrow> bool" where
  "nats_matching m \<longleftrightarrow>
     m [] [] \<and> (\<forall>t ts. m [''>''] (t # ts)) \<and>
     (\<forall>p ps t ts. p \<noteq> ''>'' \<longrightarrow> m (p # ps) (t # ts) = ((p = ''*'' \<or> p = t) \<and> m ps ts)) \<and>
     (\<forall>p ps. \<not> m (p # ps) []) \<and> (\<forall>t ts. \<not> m [] (t # ts))"

lemma pattern_tokens:
  "Split CHR ''.'' ''orders.retail.placed'' = [''orders'', ''retail'', ''placed'']"
  "Split CHR ''.'' ''orders.retail.shipped'' = [''orders'', ''retail'', ''shipped'']"
  "Split CHR ''.'' ''orders.wholesale.placed'' = [''orders'', ''wholesale'', ''placed'']"
  "Split CHR ''.'' ''orders.wholesale.shipped'' = [''orders'', ''wholesale'', ''shipped'']"
  "Split CHR ''.'' ''orders.retail.*'' = [''orders'', ''retail'', ''*'']"
  "Split CHR ''.'' ''orders.>'' = [''orders'', ''>'']"
  by code_simp+

definition matching_subs :: "(string list \<Rightarrow> string list \<Rightarrow> bool) \<Rightarrow> string \<Rightarrow> sj_delivery list" where
  "matching_subs m s =
     map (\<lambda>i. (i, s)) (filter (\<lambda>i. m (Split CHR ''.'' (ds_pattern (sj_subs ! i))) (Split CHR ''.'' s)) [0..<3])"

lemma matching_subs_eval:
  assumes "nats_matching m"
  shows "map (matching_subs m) sj_subjects =
    [[(0, ''orders.retail.placed''), (1, ''orders.retail.placed''), (2, ''orders.retail.placed'')],
     [(1, ''orders.retail.shipped''), (2, ''orders.retail.shipped'')],
     [(2, ''orders.wholesale.placed'')], [(2, ''orders.wholesale.shipped'')]]"
  using assms by (simp add: matching_subs_def sj_subjects_def sj_subs_def numeral_3_eq_3 pattern_tokens nats_matching_def)

text \<open>A server that hands every published message once to each matching subscriber, in any order, passes.\<close>

theorem subjects_demo_passes:
  assumes "nats_matching m" and "sj_calls_ok C"
    and "\<And>k. now + int k * (10 * Millisecond) \<le> clk k" and "200 < fuel"
    and "\<And>s. mset (during s) = mset (matching_subs m s)"
  shows "\<exists>r. sj_main fuel C f during now (\<lambda>_. []) clk [] = Some r \<and> dm_exit r = DemoPass"
proof -
  have in_range: "fst d < 3" if "d \<in> set (during s)" for s d
  proof -
    from that have "d \<in> set (matching_subs m s)" by (metis assms(5) set_mset_mset)
    then show ?thesis by (auto simp: matching_subs_def)
  qed
  have none: "concat (map (\<lambda>_. []) xs) = ([] :: sj_delivery list)" for xs :: "nat list" by simp
  have "\<exists>j r D. j \<le> 200 \<and> D = concat (map during sj_subjects) @ concat (map (\<lambda>_. []) [0..<Suc j]) @ [] \<and>
      sj_main fuel C f during now (\<lambda>_. []) clk [] = Some r \<and>
      dm_exit r =
        (if list_all (\<lambda>i. int (length (filter (\<lambda>d. fst d = i) D)) = ds_want (sj_subs ! i)) [0..<3] then DemoPass else DemoFail)"
    by (rule subjects_demo_exact [OF assms(2,3,4)]) (use in_range in auto)
  then
  obtain r where r: "sj_main fuel C f during now (\<lambda>_. []) clk [] = Some r"
    "dm_exit r = (if list_all (\<lambda>i. int (length (filter (\<lambda>d. fst d = i) (concat (map during sj_subjects)))) = ds_want (sj_subs ! i)) [0..<3]
                  then DemoPass else DemoFail)"
    unfolding none append_Nil2 by blast
  have same: "length (filter P (concat (map during ss))) = length (filter P (concat (map (matching_subs m) ss)))" for P ss
  proof (induction ss)
    case (Cons s ss)
    have "mset (filter P (during s)) = mset (filter P (matching_subs m s))" by (simp add: assms(5))
    from mset_eq_length [OF this] Cons show ?case by simp
  qed simp
  have "list_all (\<lambda>i. int (length (filter (\<lambda>d. fst d = i) (concat (map during sj_subjects)))) = ds_want (sj_subs ! i)) [0..<3]"
    unfolding same matching_subs_eval [OF assms(1)] by (simp add: sj_subs_def sj_subjects_def numeral_3_eq_3)
  with r show ?thesis by simp
qed

fun token_match :: "string list \<Rightarrow> string list \<Rightarrow> bool" where
  "token_match [] [] = True"
| "token_match [] (t # ts) = False"
| "token_match (p # ps) [] = False"
| "token_match (p # ps) (t # ts) = (if p = ''>'' then ps = [] else (p = ''*'' \<or> p = t) \<and> token_match ps ts)"

definition sample_sj_conn :: sj_conn where
  "sample_sj_conn = \<lparr>jc_dial = (\<lambda>_. None), jc_subscribe = (\<lambda>_. None), jc_flushSubs = None, jc_publish = (\<lambda>_. None), jc_flush = (\<lambda>_. None)\<rparr>"

theorem subjects_demo_passes_witness:
  "\<exists>r. sj_main 201 sample_sj_conn sj_defaults (\<lambda>s. rev (matching_subs token_match s)) 0 (\<lambda>_. []) (\<lambda>k. int k * (10 * Millisecond)) [] = Some r \<and>
     dm_exit r = DemoPass"
proof (rule subjects_demo_passes)
  show "nats_matching token_match" by (auto simp: nats_matching_def)
  show "sj_calls_ok sample_sj_conn" by (simp add: sj_calls_ok_def sample_sj_conn_def)
qed auto

end
