(* ===== verification/Broker.thy ===== *)
theory Broker
  imports Prelude
begin

text \<open>
  The in-memory core of the gRPC-native bus (\<open>clients/internal/grpcbus/broker.go\<close>) and its
  instruments (\<open>metrics.go\<close>): topics with live subscribers, fan-out by non-blocking sends into
  bounded channels, drops when a channel is full.

  A subscriber is known by the identity of its pointer; its channel is the list of messages sent and
  not yet received.  A Go map used as a set is a list without duplicates: iteration order does not
  matter, as \<open>send_all_perm\<close> shows.  The first part models each method as one call; the second part
  models any interleaving of publishers, subscribers and cancellations, with the snapshot and the
  sends of \<open>Publish\<close> as separate steps, since it sends after releasing the lock.
\<close>

section \<open>State\<close>

record 'p bus_message =
  Topic :: string
  Body :: 'p

record metrics =
  published :: int
  m_delivered :: int
  m_dropped :: int
  active_subs :: int

record 'p broker =
  subs :: "string \<Rightarrow> nat list option"
  bufSize :: nat
  bmetrics :: "metrics option"
  sub_topic :: "nat \<Rightarrow> string"
  sub_id :: "nat \<Rightarrow> string"
  chan :: "nat \<Rightarrow> 'p bus_message list"
  next_sub :: nat

definition DefaultSubBuffer :: int where
  "DefaultSubBuffer = 256"

definition NewBroker :: "int \<Rightarrow> metrics option \<Rightarrow> 'p broker" where
  "NewBroker depth m =
     \<lparr>subs = Map.empty, bufSize = nat (if depth \<le> 0 then DefaultSubBuffer else depth), bmetrics = m,
      sub_topic = (\<lambda>_. ''''), sub_id = (\<lambda>_. ''''), chan = (\<lambda>_. []), next_sub = 0\<rparr>"

definition recordPublish :: "int \<Rightarrow> int \<Rightarrow> metrics option \<Rightarrow> metrics option" where
  "recordPublish delivered dropped m =
     (case m of
        None \<Rightarrow> None
      | Some x \<Rightarrow>
          (let x1 = x\<lparr>published := published x + 1\<rparr>;
               x2 = (if delivered > 0 then x1\<lparr>m_delivered := m_delivered x1 + delivered\<rparr> else x1)
           in Some (if dropped > 0 then x2\<lparr>m_dropped := m_dropped x2 + dropped\<rparr> else x2)))"

definition addSubscribers :: "int \<Rightarrow> metrics option \<Rightarrow> metrics option" where
  "addSubscribers delta m = map_option (\<lambda>x. x\<lparr>active_subs := active_subs x + delta\<rparr>) m"

section \<open>Operations\<close>

text \<open>\<open>b.subs[topic]\<close> with a nil map for an absent topic.\<close>

definition topic_set :: "'p broker \<Rightarrow> string \<Rightarrow> nat list" where
  "topic_set b topic = (case subs b topic of None \<Rightarrow> [] | Some ss \<Rightarrow> ss)"

definition Subscribe :: "string \<Rightarrow> string \<Rightarrow> 'p broker \<Rightarrow> nat \<times> 'p broker" where
  "Subscribe topic sid b =
     (let s = next_sub b in
      (s, b\<lparr>subs := (subs b)(topic \<mapsto> s # topic_set b topic), bmetrics := addSubscribers 1 (bmetrics b),
            sub_topic := (sub_topic b)(s := topic), sub_id := (sub_id b)(s := sid),
            chan := (chan b)(s := []), next_sub := Suc s\<rparr>))"

text \<open>The body of the cancel function, which \<open>sync.Once\<close> runs at most once.\<close>

definition deregister :: "nat \<Rightarrow> 'p broker \<Rightarrow> 'p broker" where
  "deregister s b =
     (let topic = sub_topic b s;
          b1 = (case subs b topic of
                  None \<Rightarrow> b
                | Some ss \<Rightarrow>
                    (let ss' = removeAll s ss in
                     b\<lparr>subs := (subs b)(topic := if ss' = [] then None else Some ss')\<rparr>))
      in b1\<lparr>bmetrics := addSubscribers (-1) (bmetrics b1)\<rparr>)"

definition unsubscribe :: "nat \<Rightarrow> bool \<times> 'p broker \<Rightarrow> bool \<times> 'p broker" where
  "unsubscribe s st = (case st of (once, b) \<Rightarrow> if once then (True, b) else (True, deregister s b))"

text \<open>One iteration of the send loop: a \<open>select\<close> with a default branch.\<close>

definition try_send :: "'p bus_message \<Rightarrow> nat \<Rightarrow> 'p broker \<Rightarrow> bool \<times> 'p broker" where
  "try_send msg s b =
     (if length (chan b s) < bufSize b then (True, b\<lparr>chan := (chan b)(s := chan b s @ [msg])\<rparr>)
      else (False, b))"

fun send_all :: "'p bus_message \<Rightarrow> nat list \<Rightarrow> int \<times> int \<times> 'p broker \<Rightarrow> int \<times> int \<times> 'p broker" where
  "send_all msg [] st = st"
| "send_all msg (s # ss) (delivered, dropped, b) =
     (let (ok, b1) = try_send msg s b in
      send_all msg ss (if ok then (delivered + 1, dropped, b1) else (delivered, dropped + 1, b1)))"

definition Publish :: "'p bus_message \<Rightarrow> 'p broker \<Rightarrow> int \<times> 'p broker" where
  "Publish msg b =
     (let targets = topic_set b (Topic msg);
          (delivered, dropped, b1) = send_all msg targets (0, 0, b)
      in (delivered, b1\<lparr>bmetrics := recordPublish delivered dropped (bmetrics b1)\<rparr>))"

definition Subscribers :: "string \<Rightarrow> 'p broker \<Rightarrow> int" where
  "Subscribers topic b = int (length (topic_set b topic))"

text \<open>The subscriber's side: one receive from its channel.\<close>

definition recv :: "nat \<Rightarrow> 'p broker \<Rightarrow> ('p bus_message \<times> 'p broker) option" where
  "recv s b =
     (case chan b s of [] \<Rightarrow> None | x # xs \<Rightarrow> Some (x, b\<lparr>chan := (chan b)(s := xs)\<rparr>))"

section \<open>What a publish does\<close>

definition full :: "'p broker \<Rightarrow> nat \<Rightarrow> bool" where
  "full b s \<longleftrightarrow> \<not> length (chan b s) < bufSize b"

lemma send_all_eq:
  assumes "distinct ss"
  shows "send_all msg ss (d, r, b) =
     (d + int (length (filter (\<lambda>s. \<not> full b s) ss)), r + int (length (filter (full b) ss)),
      b\<lparr>chan := (\<lambda>s. if s \<in> set ss \<and> \<not> full b s then chan b s @ [msg] else chan b s)\<rparr>)"
  using assms
proof (induction ss arbitrary: d r b)
  case (Cons s ss)
  let ?b = "b\<lparr>chan := (chan b)(s := chan b s @ [msg])\<rparr>"
  have same: "full ?b t = full b t" if "t \<in> set ss" for t
    using Cons.prems that by (auto simp: full_def)
  have f: "filter (full ?b) ss = filter (full b) ss" "filter (\<lambda>s. \<not> full ?b s) ss = filter (\<lambda>s. \<not> full b s) ss"
    using same by (auto intro: filter_cong)
  show ?case
  proof (cases "full b s")
    case True
    then show ?thesis using Cons by (auto simp: try_send_def full_def fun_eq_iff)
  next
    case False
    then have step: "send_all msg (s # ss) (d, r, b) = send_all msg ss (d + 1, r, ?b)"
      by (simp add: try_send_def full_def)
    have "(\<lambda>t. if t \<in> set ss \<and> \<not> full ?b t then chan ?b t @ [msg] else chan ?b t) =
        (\<lambda>t. if t \<in> set (s # ss) \<and> \<not> full b t then chan b t @ [msg] else chan b t)"
      using same False Cons.prems by (intro ext) auto
    then show ?thesis unfolding step using Cons.IH [of "d + 1" r ?b] Cons.prems f False by simp
  qed
qed simp

lemma send_all_perm:
  assumes "distinct ss" and "distinct ts" and "set ss = set ts"
  shows "send_all msg ss (d, r, b) = send_all msg ts (d, r, b)"
proof -
  have "length (filter P ss) = length (filter P ts)" for P
    using assms by (metis distinct_card distinct_filter set_filter)
  then show ?thesis using assms by (simp add: send_all_eq)
qed

section \<open>Interleavings\<close>

text \<open>The broker with its running publishes (message, subscribers still to be sent to, tallies), the
  subscriptions whose cancel function has run, and what each subscriber was sent and has received.\<close>

record 'p bsys =
  brk :: "'p broker"
  jobs :: "('p bus_message \<times> nat list \<times> int \<times> int) list"
  cancelled :: "nat set"
  accepted :: "nat \<Rightarrow> 'p bus_message list"
  received :: "nat \<Rightarrow> 'p bus_message list"

definition bsys_init :: "int \<Rightarrow> metrics option \<Rightarrow> 'p bsys" where
  "bsys_init depth m =
     \<lparr>brk = NewBroker depth m, jobs = [], cancelled = {}, accepted = (\<lambda>_. []), received = (\<lambda>_. [])\<rparr>"

inductive bstep :: "'p bsys \<Rightarrow> 'p bsys \<Rightarrow> bool" where
  subscribe: "bstep st (st\<lparr>brk := snd (Subscribe t i (brk st))\<rparr>)"
| unsubscribe: "s < next_sub (brk st) \<Longrightarrow>
     bstep st (st\<lparr>brk := snd (unsubscribe s (s \<in> cancelled st, brk st)), cancelled := insert s (cancelled st)\<rparr>)"
| snapshot: "bstep st (st\<lparr>jobs := jobs st @ [(msg, topic_set (brk st) (Topic msg), 0, 0)]\<rparr>)"
| send: "jobs st = js @ (msg, s # ss, d, r) # ks \<Longrightarrow> try_send msg s (brk st) = (ok, b) \<Longrightarrow>
     bstep st (st\<lparr>brk := b, jobs := js @ (msg, ss, if ok then d + 1 else d, if ok then r else r + 1) # ks,
                  accepted := (if ok then (accepted st)(s := accepted st s @ [msg]) else accepted st)\<rparr>)"
| finish: "jobs st = js @ (msg, [], d, r) # ks \<Longrightarrow>
     bstep st (st\<lparr>jobs := js @ ks, brk := brk st\<lparr>bmetrics := recordPublish d r (bmetrics (brk st))\<rparr>\<rparr>)"
| receive: "recv s (brk st) = Some (x, b) \<Longrightarrow>
     bstep st (st\<lparr>brk := b, received := (received st)(s := received st s @ [x])\<rparr>)"

text \<open>The registry: no empty sets, no duplicates, and exactly the live subscriptions of each topic.\<close>

definition registry_inv :: "'p broker \<Rightarrow> nat set \<Rightarrow> bool" where
  "registry_inv b gone \<longleftrightarrow>
     (\<forall>t ss. subs b t = Some ss \<longrightarrow> ss \<noteq> [] \<and> distinct ss) \<and>
     (\<forall>t. set (topic_set b t) = {s. s < next_sub b \<and> sub_topic b s = t \<and> s \<notin> gone})"

definition flow_inv :: "'p bsys \<Rightarrow> bool" where
  "flow_inv st \<longleftrightarrow>
     (\<forall>s. accepted st s = received st s @ chan (brk st) s \<and> length (chan (brk st) s) \<le> bufSize (brk st)) \<and>
     (\<forall>s. next_sub (brk st) \<le> s \<longrightarrow> accepted st s = []) \<and>
     (\<forall>s. \<forall>m \<in> set (accepted st s). Topic m = sub_topic (brk st) s) \<and>
     (\<forall>(m, ss, d, r) \<in> set (jobs st). \<forall>s \<in> set ss. s < next_sub (brk st) \<and> sub_topic (brk st) s = Topic m)"

definition gauge_inv :: "'p bsys \<Rightarrow> bool" where
  "gauge_inv st \<longleftrightarrow> cancelled st \<subseteq> {..<next_sub (brk st)} \<and>
     (\<forall>x. bmetrics (brk st) = Some x \<longrightarrow>
        active_subs x = int (next_sub (brk st)) - int (card (cancelled st)))"

lemma registry_Subscribe:
  "registry_inv b gone \<Longrightarrow> gone \<subseteq> {..<next_sub b} \<Longrightarrow> registry_inv (snd (Subscribe t i b)) gone"
  by (auto simp: registry_inv_def Subscribe_def topic_set_def Let_def less_Suc_eq split: option.splits if_splits)

lemma subs_deregister:
  "subs (deregister s b) = (case subs b (sub_topic b s) of
     None \<Rightarrow> subs b
   | Some ss \<Rightarrow> (subs b)(sub_topic b s := if removeAll s ss = [] then None else Some (removeAll s ss)))"
  "next_sub (deregister s b) = next_sub b" "sub_topic (deregister s b) = sub_topic b"
  "chan (deregister s b) = chan b" "bufSize (deregister s b) = bufSize b"
  "bmetrics (deregister s b) = addSubscribers (-1) (bmetrics b)"
  by (simp_all add: deregister_def Let_def split: option.split)

lemma registry_deregister:
  assumes "registry_inv b gone"
  shows "registry_inv (deregister s b) (insert s gone)"
proof -
  have ts: "topic_set (deregister s b) t = (if t = sub_topic b s then removeAll s (topic_set b t) else topic_set b t)" for t
    by (simp add: topic_set_def subs_deregister split: option.split)
  have "subs (deregister s b) t = Some ss \<Longrightarrow> ss \<noteq> [] \<and> distinct ss" for t ss
    using assms by (auto simp: registry_inv_def subs_deregister distinct_removeAll split: option.splits if_splits)
  moreover have "set (topic_set (deregister s b) t) =
      {x. x < next_sub (deregister s b) \<and> sub_topic (deregister s b) x = t \<and> x \<notin> insert s gone}" for t
    using assms unfolding ts registry_inv_def subs_deregister by auto
  ultimately show ?thesis unfolding registry_inv_def by blast
qed

lemma try_send_fields:
  "try_send msg s b = (ok, b') \<Longrightarrow>
     subs b' = subs b \<and> next_sub b' = next_sub b \<and> sub_topic b' = sub_topic b \<and> bufSize b' = bufSize b \<and>
     bmetrics b' = bmetrics b \<and> chan b' = (if ok then (chan b)(s := chan b s @ [msg]) else chan b) \<and>
     (ok \<longrightarrow> length (chan b s) < bufSize b)"
  by (auto simp: try_send_def split: if_splits)

lemma recv_fields:
  "recv s b = Some (x, b') \<Longrightarrow>
     subs b' = subs b \<and> next_sub b' = next_sub b \<and> sub_topic b' = sub_topic b \<and> bufSize b' = bufSize b \<and>
     bmetrics b' = bmetrics b \<and> (\<exists>xs. chan b s = x # xs \<and> chan b' = (chan b)(s := xs))"
  by (auto simp: recv_def split: list.splits)

lemma active_recordPublish:
  "recordPublish d r m = Some x \<Longrightarrow> \<exists>y. m = Some y \<and> active_subs x = active_subs y"
  by (auto simp: recordPublish_def Let_def split: option.splits if_splits)

lemma registry_cong:
  "subs b' = subs b \<Longrightarrow> next_sub b' = next_sub b \<Longrightarrow> sub_topic b' = sub_topic b \<Longrightarrow>
     registry_inv b' gone = registry_inv b gone"
  by (simp add: registry_inv_def topic_set_def)

lemma registry_step:
  "bstep st st' \<Longrightarrow> registry_inv (brk st) (cancelled st) \<Longrightarrow> gauge_inv st \<Longrightarrow>
     registry_inv (brk st') (cancelled st')"
proof (induction rule: bstep.induct)
  case (subscribe st t i)
  then show ?case by (simp add: registry_Subscribe gauge_inv_def)
next
  case (unsubscribe s st)
  then show ?case by (auto simp: Broker.unsubscribe_def registry_deregister insert_absorb)
next
  case (send st js msg s ss d r ks ok b)
  then show ?case using try_send_fields [OF send(2)] by (simp add: registry_cong [of b "brk st"])
next
  case (receive s st x b)
  then show ?case using recv_fields [OF receive(1)] by (simp add: registry_cong [of b "brk st"])
qed (simp_all add: registry_inv_def topic_set_def)

lemma gauge_step: "bstep st st' \<Longrightarrow> gauge_inv st \<Longrightarrow> gauge_inv st'"
proof (induction rule: bstep.induct)
  case (subscribe st t i)
  then show ?case by (auto simp: gauge_inv_def Subscribe_def Let_def addSubscribers_def)
next
  case (unsubscribe s st)
  then have "finite (cancelled st)" by (auto simp: gauge_inv_def intro: finite_subset)
  with unsubscribe show ?case
    by (auto simp: gauge_inv_def Broker.unsubscribe_def subs_deregister addSubscribers_def insert_absorb)
next
  case (send st js msg s ss d r ks ok b)
  then show ?case using try_send_fields [OF send(2)] by (simp add: gauge_inv_def)
next
  case (finish st js msg d r ks)
  then show ?case by (auto simp: gauge_inv_def dest: active_recordPublish)
next
  case (receive s st x b)
  then show ?case using recv_fields [OF receive(1)] by (simp add: gauge_inv_def)
qed (simp_all add: gauge_inv_def)

text \<open>A subscriber taken by a publish is always in the snapshot of its own topic.\<close>

lemma flow_step:
  "bstep st st' \<Longrightarrow> registry_inv (brk st) (cancelled st) \<Longrightarrow> flow_inv st \<Longrightarrow> flow_inv st'"
proof (induction rule: bstep.induct)
  case (subscribe st t i)
  then have "accepted st (next_sub (brk st)) = []" and "received st (next_sub (brk st)) = []"
    unfolding flow_inv_def by (metis append_is_Nil_conv order_refl)+
  with subscribe show ?case by (fastforce simp: flow_inv_def Subscribe_def Let_def)
next
  case (unsubscribe s st)
  have "next_sub b = next_sub (brk st) \<Longrightarrow> sub_topic b = sub_topic (brk st) \<Longrightarrow> chan b = chan (brk st) \<Longrightarrow>
      bufSize b = bufSize (brk st) \<Longrightarrow> flow_inv (st\<lparr>brk := b, cancelled := g\<rparr>)" for b g
    using unsubscribe(3) unfolding flow_inv_def by auto
  then show ?case by (simp add: Broker.unsubscribe_def subs_deregister)
next
  case (snapshot st msg)
  then show ?case by (auto simp: flow_inv_def registry_inv_def)
next
  case (send st js msg s ss d r ks ok b)
  then have "s < next_sub (brk st) \<and> sub_topic (brk st) s = Topic msg" unfolding flow_inv_def by auto
  with send try_send_fields [OF send(2)] show ?case by (auto simp: flow_inv_def)
next
  case (finish st js msg d r ks)
  then show ?case by (auto simp: flow_inv_def)
next
  case (receive s st x b)
  then obtain xs where "chan (brk st) s = x # xs" "chan b = (chan (brk st))(s := xs)"
    "next_sub b = next_sub (brk st)" "sub_topic b = sub_topic (brk st)" "bufSize b = bufSize (brk st)"
    using recv_fields by blast
  with receive(3) show ?case by (auto simp: flow_inv_def) (metis Suc_le_lessD length_Cons less_imp_le_nat)
qed

definition breach :: "int \<Rightarrow> metrics option \<Rightarrow> 'p bsys \<Rightarrow> bool" where
  "breach depth m st \<longleftrightarrow> bstep\<^sup>*\<^sup>* (bsys_init depth m) st"

lemma breach_inv:
  assumes "breach depth m st" and "case_option True (\<lambda>x. active_subs x = 0) m"
  shows "registry_inv (brk st) (cancelled st) \<and> flow_inv st \<and> gauge_inv st"
  using assms(1) unfolding breach_def
proof (induction rule: rtranclp_induct)
  case base
  with assms(2) show ?case
    by (simp add: bsys_init_def NewBroker_def registry_inv_def topic_set_def flow_inv_def gauge_inv_def split: option.splits)
next
  case (step st st')
  then show ?case using registry_step flow_step gauge_step by blast
qed

lemma bufSize_bstep: "bstep st st' \<Longrightarrow> bufSize (brk st') = bufSize (brk st)"
  by (induction rule: bstep.induct)
     (auto simp: Subscribe_def Let_def Broker.unsubscribe_def subs_deregister dest: try_send_fields recv_fields)

lemma bufSize_breach: "breach depth m st \<Longrightarrow> bufSize (brk st) = nat (if depth \<le> 0 then 256 else depth)"
  unfolding breach_def
  by (induction rule: rtranclp_induct) (auto simp: bufSize_bstep bsys_init_def NewBroker_def DefaultSubBuffer_def)

section \<open>One publish\<close>

lemma publish_effect:
  assumes "registry_inv b gone" and "Publish msg b = (n, b')"
  shows "(\<forall>s. chan b' s =
            (if s < next_sub b \<and> sub_topic b s = Topic msg \<and> s \<notin> gone \<and> length (chan b s) < bufSize b
             then chan b s @ [msg] else chan b s)) \<and>
         n = int (card {s. s < next_sub b \<and> sub_topic b s = Topic msg \<and> s \<notin> gone \<and> length (chan b s) < bufSize b}) \<and>
         subs b' = subs b \<and> sub_topic b' = sub_topic b \<and> next_sub b' = next_sub b \<and> bufSize b' = bufSize b \<and> bmetrics b' = recordPublish n (Subscribers (Topic msg) b - n) (bmetrics b)"
proof -
  let ?ts = "topic_set b (Topic msg)"
  have d: "distinct ?ts" and set: "set ?ts = {s. s < next_sub b \<and> sub_topic b s = Topic msg \<and> s \<notin> gone}"
    using assms(1) by (auto simp: registry_inv_def topic_set_def split: option.splits)
  have n: "n = int (length (filter (\<lambda>s. \<not> full b s) ?ts))"
    and b': "b' = b\<lparr>chan := (\<lambda>s. if s \<in> set ?ts \<and> \<not> full b s then chan b s @ [msg] else chan b s),
                    bmetrics := recordPublish n (int (length (filter (full b) ?ts))) (bmetrics b)\<rparr>"
    using assms(2) by (auto simp: Publish_def send_all_eq [OF d] Let_def)
  have "length (filter (full b) ?ts) + length (filter (\<lambda>s. \<not> full b s) ?ts) = length ?ts"
    by (rule sum_length_filter_compl)
  then have drops: "int (length (filter (full b) ?ts)) = Subscribers (Topic msg) b - n"
    using n by (simp add: Subscribers_def)
  have "n = int (card (set (filter (\<lambda>s. \<not> full b s) ?ts)))"
    unfolding n by (subst distinct_card) (simp_all add: d)
  also have "set (filter (\<lambda>s. \<not> full b s) ?ts) =
      {s. s < next_sub b \<and> sub_topic b s = Topic msg \<and> s \<notin> gone \<and> length (chan b s) < bufSize b}"
    using set by (auto simp: full_def)
  finally show ?thesis using b' set drops by (auto simp: full_def)
qed

section \<open>Properties\<close>

text \<open>One publish, when the registry is in order: every live subscriber of the topic whose channel
  has room gets the message appended, no other channel changes, the result is the number of those
  subscribers, and the deliveries and drops add up to the subscribers of the topic.\<close>

theorem broker_publish:
  assumes "registry_inv b gone" and "Publish msg b = (n, b')"
  shows "(\<forall>s. chan b' s =
            (if s < next_sub b \<and> sub_topic b s = Topic msg \<and> s \<notin> gone \<and> length (chan b s) < bufSize b
             then chan b s @ [msg] else chan b s)) \<and>
         n = int (card {s. s < next_sub b \<and> sub_topic b s = Topic msg \<and> s \<notin> gone \<and> length (chan b s) < bufSize b}) \<and>
         subs b' = subs b \<and> bmetrics b' = recordPublish n (Subscribers (Topic msg) b - n) (bmetrics b)"
  using publish_effect [OF assms] by blast

definition one_sub :: "nat broker" where
  "one_sub = snd (Subscribe ''t'' ''a'' (NewBroker 1 None))"

lemma one_sub_registry: "registry_inv one_sub {}"
  unfolding one_sub_def by (rule registry_Subscribe) (simp_all add: registry_inv_def NewBroker_def topic_set_def)

theorem broker_publish_witness:
  "\<exists>n b'. Publish \<lparr>Topic = ''t'', Body = 5\<rparr> one_sub = (n, b') \<and> chan b' 0 = [\<lparr>Topic = ''t'', Body = 5\<rparr>] \<and> n = 1"
proof -
  obtain n b' where P: "Publish \<lparr>Topic = ''t'', Body = 5\<rparr> one_sub = (n, b')"
    by (cases "Publish \<lparr>Topic = ''t'', Body = 5\<rparr> one_sub")
  have f: "next_sub one_sub = 1" "sub_topic one_sub 0 = ''t''" "chan one_sub 0 = []" "bufSize one_sub = 1"
    by (simp_all add: one_sub_def Subscribe_def NewBroker_def Let_def)
  then have one: "{s. s < next_sub one_sub \<and> sub_topic one_sub s = ''t'' \<and> s \<notin> {} \<and>
      length (chan one_sub s) < bufSize one_sub} = {0}" by auto
  from broker_publish [OF one_sub_registry P] f one P show ?thesis by auto
qed

text \<open>C15. Any interleaving of publishers, subscribers and cancellations: no channel ever holds more
  than the buffer size, so a publisher never waits; every subscriber receives only messages of the
  topic it subscribed to; and it receives a prefix of the messages accepted for it, in the order in
  which they were accepted, without loss, duplication or reordering after acceptance.\<close>

theorem broker_delivery:
  assumes "breach depth m st" and "case_option True (\<lambda>x. active_subs x = 0) m"
  shows "length (chan (brk st) s) \<le> nat (if depth \<le> 0 then 256 else depth) \<and>
         received st s @ chan (brk st) s = accepted st s \<and>
         (\<forall>x \<in> set (received st s). Topic x = sub_topic (brk st) s)"
proof -
  have "flow_inv st" using breach_inv [OF assms] by blast
  moreover have "bufSize (brk st) = nat (if depth \<le> 0 then 256 else depth)"
    by (rule bufSize_breach [OF assms(1)])
  ultimately show ?thesis unfolding flow_inv_def by (metis Un_iff set_append)
qed

theorem broker_delivery_witness:
  "\<exists>st :: nat bsys. breach 4 None st \<and> next_sub (brk st) = 1 \<and> length (chan (brk st) 0) \<le> 4"
proof -
  let ?i = "bsys_init 4 None :: nat bsys"
  let ?st = "?i\<lparr>brk := snd (Subscribe ''t'' ''a'' (brk ?i))\<rparr>"
  have "bstep ?i ?st" by (rule bstep.subscribe)
  then have r: "breach 4 None ?st" by (simp add: breach_def)
  from broker_delivery [OF r, of 0] r show ?thesis
    by (intro exI [of _ ?st]) (simp add: Subscribe_def Let_def bsys_init_def NewBroker_def)
qed

text \<open>The registry stays exact under any interleaving: a topic's set holds precisely the
  subscriptions to it that were not cancelled, a topic without subscribers is not kept, and the
  active-subscriber gauge is the number of subscriptions not cancelled; cancelling twice changes
  nothing.\<close>

theorem broker_registry:
  assumes "breach depth m st" and "case_option True (\<lambda>x. active_subs x = 0) m"
  shows "set (topic_set (brk st) t) = {s. s < next_sub (brk st) \<and> sub_topic (brk st) s = t \<and> s \<notin> cancelled st} \<and>
         subs (brk st) t \<noteq> Some [] \<and>
         (\<forall>x. bmetrics (brk st) = Some x \<longrightarrow>
            active_subs x = int (card {s. s < next_sub (brk st) \<and> s \<notin> cancelled st})) \<and>
         unsubscribe s (unsubscribe s (once, brk st)) = unsubscribe s (once, brk st)"
proof -
  have R: "registry_inv (brk st) (cancelled st)" and G: "gauge_inv st" using breach_inv [OF assms] by blast+
  have sub: "cancelled st \<subseteq> {..<next_sub (brk st)}" using G by (simp add: gauge_inv_def)
  then have fin: "finite (cancelled st)" by (rule finite_subset) simp
  have "{s. s < next_sub (brk st) \<and> s \<notin> cancelled st} = {..<next_sub (brk st)} - cancelled st" by auto
  then have "int (card {s. s < next_sub (brk st) \<and> s \<notin> cancelled st}) = int (next_sub (brk st)) - int (card (cancelled st))"
    using card_Diff_subset [OF fin sub] card_mono [OF _ sub] by simp
  with R G show ?thesis by (auto simp: registry_inv_def gauge_inv_def unsubscribe_def)
qed

theorem broker_registry_witness:
  "\<exists>st :: nat bsys. breach 4 (Some \<lparr>published = 0, m_delivered = 0, m_dropped = 0, active_subs = 0\<rparr>) st \<and>
     set (topic_set (brk st) ''t'') = {0}"
proof -
  let ?m = "Some \<lparr>published = 0, m_delivered = 0, m_dropped = 0, active_subs = 0\<rparr>"
  let ?i = "bsys_init 4 ?m :: nat bsys"
  let ?st = "?i\<lparr>brk := snd (Subscribe ''t'' ''a'' (brk ?i))\<rparr>"
  have "bstep ?i ?st" by (rule bstep.subscribe)
  then have r: "breach 4 ?m ?st" by (simp add: breach_def)
  have "next_sub (brk ?st) = 1" "sub_topic (brk ?st) 0 = ''t''" "cancelled ?st = {}"
    by (simp_all add: Subscribe_def Let_def bsys_init_def NewBroker_def)
  then have "{s. s < next_sub (brk ?st) \<and> sub_topic (brk ?st) s = ''t'' \<and> s \<notin> cancelled ?st} = {0}" by auto
  with broker_registry [OF r, of "''t''"] r show ?thesis by (intro exI [of _ ?st]) auto
qed

end
