(* ===== verification/Grpcbus.thy ===== *)
theory Grpcbus
  imports Broker Soakcli "HOL-Library.Sublist"
begin

text \<open>
  The gRPC-native bus around the broker of theory \<open>Broker\<close>: its server
  (\<open>clients/grpcbus/grpcbrokerd/main.go\<close>) with the rules the schema declares for its requests
  (\<open>clients/proto/bus/v1/bus.proto\<close>), and its command-line client (\<open>clients/grpcbus/grpcbuscli/main.go\<close>).

  The gRPC connection passes a request and its result through; a stream's send may fail.
\<close>

section \<open>Messages and their rules\<close>

record bus_body =
  bm_Payload :: string
  bm_ContentType :: string
  bm_Headers :: "(string \<times> string) list"
  bm_Seq :: u64
  bm_PublisherId :: string
  bm_PublishedAt :: "timestamp option"

type_synonym bus_msg = "bus_body bus_message"

text \<open>String lengths count characters.\<close>

definition chars :: "string \<Rightarrow> nat" where
  "chars s = length (runes_of s)"

definition message_violations :: "bus_msg \<Rightarrow> string list" where
  "message_violations m =
     (if chars (Topic m) < 1 then [''message.topic: string.min_len''] else []) @
     (if chars (Topic m) > 256 then [''message.topic: string.max_len''] else []) @
     (if length (bm_Payload (Body m)) > 1048576 then [''message.payload: bytes.max_len''] else []) @
     (if chars (bm_ContentType (Body m)) > 128 then [''message.content_type: string.max_len''] else []) @
     (if length (bm_Headers (Body m)) > 32 then [''message.headers: map.max_pairs''] else []) @
     (if chars (bm_PublisherId (Body m)) > 128 then [''message.publisher_id: string.max_len''] else [])"

definition subscribe_violations :: "string \<Rightarrow> string \<Rightarrow> string list" where
  "subscribe_violations topic sid =
     (if chars topic < 1 then [''topic: string.min_len''] else []) @
     (if chars topic > 256 then [''topic: string.max_len''] else []) @
     (if chars sid > 128 then [''subscriber_id: string.max_len''] else [])"

text \<open>The validator reports a violation as an error; its text is \<open>verr\<close>.\<close>

definition validate_with :: "(string list \<Rightarrow> string) \<Rightarrow> string list \<Rightarrow> string option" where
  "validate_with verr vs = (if vs = [] then None else Some (verr vs))"

section \<open>The server\<close>

record bus_server =
  sv_broker :: "bus_body broker"
  sv_validate :: bool

datatype grpc_error = InvalidArgument string | StreamError gerr | ContextStatus gerr

definition server_Publish :: "(string list \<Rightarrow> string) \<Rightarrow> bus_msg option \<Rightarrow> bus_server \<Rightarrow> (grpc_error + u64) \<times> bus_server" where
  "server_Publish verr o_msg sv =
     (case o_msg of
        None \<Rightarrow> (Inl (InvalidArgument ''message is required''), sv)
      | Some msg \<Rightarrow>
          (case (if sv_validate sv then validate_with verr (message_violations msg) else None) of
             Some err \<Rightarrow> (Inl (InvalidArgument (''invalid message: '' @ err)), sv)
           | None \<Rightarrow>
               (let (delivered, b) = Publish msg (sv_broker sv)
                in (Inr (of_int delivered), sv\<lparr>sv_broker := b\<rparr>))))"

text \<open>The subscriber's session: the \<open>select\<close> takes a message of its channel and sends it, or sees the end
  of the context; the deferred cancel runs on every return.  \<open>Other\<close> is a publish by anybody else in
  between.  The result is \<open>None\<close> while the session is open; the list holds what was streamed.\<close>

datatype session_event =
    Other "bus_msg option"
  | TakeSend "gerr option"
  | CtxDone gerr

definition context_status :: "gerr \<Rightarrow> grpc_error option" where
  "context_status err = (if errors_Is err CtxCanceled then None else Some (ContextStatus err))"

fun session ::
  "(string list \<Rightarrow> string) \<Rightarrow> nat \<Rightarrow> session_event list \<Rightarrow> bus_msg list \<times> bus_server
   \<Rightarrow> grpc_error option option \<times> (bus_msg list \<times> bus_server)" where
  "session verr s [] st = (None, st)"
| "session verr s (Other m # es) (out, sv) = session verr s es (out, snd (server_Publish verr m sv))"
| "session verr s (CtxDone err # es) (out, sv) =
     (Some (context_status err), (out, sv\<lparr>sv_broker := deregister s (sv_broker sv)\<rparr>))"
| "session verr s (TakeSend send_err # es) (out, sv) =
     (case recv s (sv_broker sv) of
        None \<Rightarrow> session verr s es (out, sv)
      | Some (msg, b) \<Rightarrow>
          (case send_err of
             Some err \<Rightarrow> (Some (Some (StreamError err)), (out, sv\<lparr>sv_broker := deregister s b\<rparr>))
           | None \<Rightarrow> session verr s es (out @ [msg], sv\<lparr>sv_broker := b\<rparr>)))"

definition server_Subscribe ::
  "(string list \<Rightarrow> string) \<Rightarrow> string \<Rightarrow> string \<Rightarrow> session_event list \<Rightarrow> bus_server
   \<Rightarrow> grpc_error option option \<times> (bus_msg list \<times> bus_server)" where
  "server_Subscribe verr topic sid es sv =
     (case (if sv_validate sv then map_option (\<lambda>e. ''invalid subscribe: '' @ e) (validate_with verr (subscribe_violations topic sid))
            else if topic = '''' then Some ''topic is required'' else None) of
        Some err \<Rightarrow> (Some (Some (InvalidArgument err)), ([], sv))
      | None \<Rightarrow>
          (let (s, b) = Subscribe topic sid (sv_broker sv)
           in session verr s es ([], sv\<lparr>sv_broker := b\<rparr>)))"

text \<open>The start of the server: the instruments, the broker, the listener.\<close>

record brokerd_flags =
  bd_addr :: string
  bd_metricsAddr :: string
  bd_buffer :: int
  bd_validate :: bool

definition grpcbrokerd_main ::
  "gerr option \<Rightarrow> gerr option \<Rightarrow> gerr option \<Rightarrow> brokerd_flags \<Rightarrow> string + bus_server" where
  "grpcbrokerd_main provider_err inst_err listen_err f =
     (let serve = (\<lambda>bm. case listen_err of
                          Some e \<Rightarrow> Inl (''grpcbrokerd: listen '' @ bd_addr f @ '': '' @ Error e)
                        | None \<Rightarrow> Inr \<lparr>sv_broker = NewBroker (bd_buffer f) bm, sv_validate = bd_validate f\<rparr>)
      in if bd_metricsAddr f = '''' then serve None
         else (case provider_err of
                 Some e \<Rightarrow> Inl (''grpcbrokerd: metrics: '' @ Error e)
               | None \<Rightarrow>
                   (case inst_err of
                      Some e \<Rightarrow> Inl (''grpcbrokerd: metrics instruments: '' @ Error e)
                    | None \<Rightarrow> serve (Some \<lparr>published = 0, m_delivered = 0, m_dropped = 0, active_subs = 0\<rparr>))))"

section \<open>The client\<close>

text \<open>The send callback of \<open>runPub\<close>: the counter, the log and the state behind the connection.\<close>

definition bus_message_of :: "cli_flags \<Rightarrow> string \<Rightarrow> u64 \<Rightarrow> timestamp \<Rightarrow> string \<Rightarrow> bus_msg" where
  "bus_message_of f pubid n now body =
     \<lparr>Topic = fl_Subject f,
      Body = \<lparr>bm_Payload = body, bm_ContentType = ''text/plain'', bm_Headers = [], bm_Seq = n, bm_PublisherId = pubid,
              bm_PublishedAt = Some now\<rparr>\<rparr>"

definition bus_send ::
  "(bus_msg option \<Rightarrow> 'w \<Rightarrow> (gerr + u64) \<times> 'w) \<Rightarrow> (u64 \<Rightarrow> timestamp) \<Rightarrow> cli_flags \<Rightarrow> string \<Rightarrow> string
   \<Rightarrow> u64 \<times> string list \<times> 'w \<Rightarrow> gerr option \<times> (u64 \<times> string list \<times> 'w)" where
  "bus_send publish clock f pubid body st =
     (case st of (sq, logs, w) \<Rightarrow>
        (let n = sq + 1 in
         case publish (Some (bus_message_of f pubid n (clock n) body)) w of
           (Inl err, w1) \<Rightarrow> (Some err, (n, logs, w1))
         | (Inr delivered, w1) \<Rightarrow>
             (None, (n, if delivered = 0
                        then logs @ [''published seq '' @ itoa (uint n) @ '' to '' @ quoted (fl_Subject f) @ '': 0 subscribers (dropped)'']
                        else logs, w1))))"

definition bus_runPub ::
  "(bus_msg option \<Rightarrow> 'w \<Rightarrow> (gerr + u64) \<times> 'w) \<Rightarrow> (u64 \<Rightarrow> timestamp) \<Rightarrow> cli_flags \<Rightarrow> string \<Rightarrow> 'w
   \<Rightarrow> (string + string) \<times> string list \<times> 'w" where
  "bus_runPub publish clock f pubid w =
     (case PubLoop (bus_send publish clock f pubid) (loop_flags f) (0, [], w) of
        (sl, Inl err, (sq, logs, w1)) \<Rightarrow> (Inl (Error err), logs, w1)
      | (sl, Inr summary, (sq, logs, w1)) \<Rightarrow> (Inr summary, logs, w1))"

text \<open>\<open>runSub\<close>: the receiving goroutine prints and counts until the stream ends; the command waits for the
  stop channel or the limit.\<close>

datatype bus_event = BusMsg string string string | BusRecvErr gerr bool | BusStop | BusDone

fun bus_wait ::
  "(string \<Rightarrow> string \<Rightarrow> string) \<Rightarrow> cli_flags \<Rightarrow> bool \<Rightarrow> bus_event list \<Rightarrow> limiter \<times> string list \<times> string list
   \<Rightarrow> (sub_end \<times> limiter \<times> string list \<times> string list) option" where
  "bus_wait json f live [] st = Some (Waiting, st)"
| "bus_wait json f live (BusStop # es) st = Some (ByStop, st)"
| "bus_wait json f live (BusDone # es) (lm, out, logs) = (if closes lm > 0 then Some (ByDone, lm, out, logs) else None)"
| "bus_wait json f live (BusMsg ts topic payload # es) (lm, out, logs) =
     (if live then bus_wait json f live es (Hit lm, out @ [Emit json ts f topic payload], logs) else None)"
| "bus_wait json f live (BusRecvErr err alive # es) (lm, out, logs) =
     (if live then bus_wait json f False es (lm, out, if alive then logs @ [''recv: '' @ Error err] else logs) else None)"

definition grpcbuscli ::
  "std_parsers \<Rightarrow> duration \<Rightarrow> (string \<Rightarrow> gerr option) \<Rightarrow> (bus_msg option \<Rightarrow> 'w \<Rightarrow> (gerr + u64) \<times> 'w) \<Rightarrow> gerr option
   \<Rightarrow> (string \<Rightarrow> string \<Rightarrow> string) \<Rightarrow> (u64 \<Rightarrow> timestamp) \<Rightarrow> nat \<Rightarrow> bus_event list \<Rightarrow> string list \<Rightarrow> 'w
   \<Rightarrow> cli_exit \<times> string list \<times> string list \<times> 'w" where
  "grpcbuscli P oor dial publish sub_err json clock pid es args w =
     (case Parse P oor ''grpcbuscli'' ''127.0.0.1:30450'' '''' args of
        Inl usage \<Rightarrow> (UsageExit usage, [], [], w)
      | Inr f \<Rightarrow>
          (case dial (fl_Addr f) of
             Some err \<Rightarrow> (CliFatal (''dial '' @ fl_Addr f @ '': '' @ Error err), [], [], w)
           | None \<Rightarrow>
               (if fl_Cmd f = ''pub'' then
                  (case bus_runPub publish clock f (''grpcbuscli-'' @ itoa (int pid)) w of
                     (Inl err, logs, w1) \<Rightarrow> (CliFatal err, [], logs, w1)
                   | (Inr summary, logs, w1) \<Rightarrow> (CliReturns, [summary], logs, w1))
                else
                  (case sub_err of
                     Some err \<Rightarrow> (CliFatal (''subscribe: '' @ Error err), [], [], w)
                   | None \<Rightarrow>
                       (case bus_wait json f True es (NewLimiter (loop_flags f), [], []) of
                          None \<Rightarrow> (CliImpossible, [], [], w)
                        | Some (e, lm, out, logs) \<Rightarrow> (if e = Waiting then CliWaits else CliReturns, out, logs, w))))))"

section \<open>A session\<close>

text \<open>A live subscription of a broker in order.\<close>

definition subscribed :: "nat \<Rightarrow> string \<Rightarrow> bus_server \<Rightarrow> nat set \<Rightarrow> bool" where
  "subscribed s t sv gone \<longleftrightarrow> registry_inv (sv_broker sv) gone \<and> s < next_sub (sv_broker sv) \<and> sub_topic (sv_broker sv) s = t \<and> s \<notin> gone"

text \<open>The messages of the events that a server takes for a topic.\<close>

definition admissible :: "bool \<Rightarrow> string \<Rightarrow> bus_msg \<Rightarrow> bool" where
  "admissible v t m \<longleftrightarrow> Topic m = t \<and> (v \<longrightarrow> message_violations m = [])"

fun offered :: "bool \<Rightarrow> string \<Rightarrow> session_event list \<Rightarrow> bus_msg list" where
  "offered v t [] = []"
| "offered v t (Other (Some m) # es) = (if admissible v t m then m # offered v t es else offered v t es)"
| "offered v t (_ # es) = offered v t es"

lemma server_Publish_effect:
  assumes "subscribed s t sv gone"
  shows "let sv' = snd (server_Publish verr o_msg sv); b = sv_broker sv; b' = sv_broker sv' in
         subscribed s t sv' gone \<and> sv_validate sv' = sv_validate sv \<and> bufSize b' = bufSize b \<and>
         (case o_msg of
            None \<Rightarrow> chan b' s = chan b s
          | Some m \<Rightarrow> chan b' s = (if admissible (sv_validate sv) t m \<and> length (chan b s) < bufSize b then chan b s @ [m] else chan b s))"
proof (cases "\<exists>m. o_msg = Some m \<and> (sv_validate sv \<longrightarrow> message_violations m = [])")
  case False
  then have same: "server_Publish verr o_msg sv = (fst (server_Publish verr o_msg sv), sv)"
    by (auto simp: server_Publish_def validate_with_def split: option.split)
  show ?thesis
    by (subst same) (use False assms in \<open>auto simp: admissible_def Let_def split: option.split\<close>)
next
  case True
  then obtain m where m: "o_msg = Some m" "sv_validate sv \<longrightarrow> message_violations m = []" by blast
  obtain n b' where P: "Publish m (sv_broker sv) = (n, b')" by fastforce
  have R: "registry_inv (sv_broker sv) gone" using assms by (simp add: subscribed_def)
  have sv: "snd (server_Publish verr o_msg sv) = sv\<lparr>sv_broker := b'\<rparr>"
    using m P by (auto simp: server_Publish_def validate_with_def)
  from publish_effect [OF R P] assms m show ?thesis
    unfolding sv by (auto simp: subscribed_def admissible_def Let_def registry_cong [of b' "sv_broker sv"])
qed

lemma recv_subscribed:
  assumes "subscribed s t sv gone" and "recv s (sv_broker sv) = Some (msg, b)"
  shows "subscribed s t (sv\<lparr>sv_broker := b\<rparr>) gone" and "chan (sv_broker sv) s = msg # chan b s" and "bufSize b = bufSize (sv_broker sv)"
  using recv_fields [OF assms(2)] assms(1) by (auto simp: subscribed_def registry_cong [of b "sv_broker sv"])

lemma deregister_gone:
  assumes "registry_inv b gone"
  shows "s \<notin> set (topic_set (deregister s b) t)"
  using registry_deregister [OF assms, of s] by (auto simp: registry_inv_def)

text \<open>What a session streams is a prefix of what was in the channel and what has been added since; while it
  is open nothing is missing, and with room for all of them every offered message has been added; once it has
  ended the subscription is gone.\<close>

definition streams :: "nat \<Rightarrow> string \<Rightarrow> session_event list \<Rightarrow> bus_msg list \<times> bus_server
    \<Rightarrow> grpc_error option option \<times> (bus_msg list \<times> bus_server) \<Rightarrow> bool" where
  "streams s t es st res =
     (case st of (out, sv) \<Rightarrow> case res of (r, (out', sv')) \<Rightarrow>
        \<exists>new. subseq new (offered (sv_validate sv) t es) \<and> prefix out' (out @ chan (sv_broker sv) s @ new) \<and>
          (r = None \<longrightarrow> out' @ chan (sv_broker sv') s = out @ chan (sv_broker sv) s @ new \<and>
             (length (chan (sv_broker sv) s) + length (offered (sv_validate sv) t es) \<le> bufSize (sv_broker sv) \<longrightarrow>
              new = offered (sv_validate sv) t es)) \<and>
          (r \<noteq> None \<longrightarrow> (\<forall>topic. s \<notin> set (topic_set (sv_broker sv') topic))))"

lemma streams_other:
  assumes "subscribed s t sv gone" and "streams s t es (out, snd (server_Publish verr m sv)) res"
  shows "streams s t (Other m # es) (out, sv) res"
proof -
  let ?sv = "snd (server_Publish verr m sv)"
  obtain r out' sv' where res: "res = (r, (out', sv'))" by (cases res) auto
  note eff = server_Publish_effect [OF assms(1), of verr m, unfolded Let_def]
  show ?thesis
  proof (cases "\<exists>x. m = Some x \<and> admissible (sv_validate sv) t x \<and> length (chan (sv_broker sv) s) < bufSize (sv_broker sv)")
    case True
    then obtain x where x: "m = Some x" "admissible (sv_validate sv) t x" by blast
    with eff True have ch: "chan (sv_broker ?sv) s = chan (sv_broker sv) s @ [x]" by simp
    from assms(2) obtain new where
      "subseq new (offered (sv_validate sv) t es)" "prefix out' (out @ chan (sv_broker sv) s @ x # new)"
      "r = None \<longrightarrow> out' @ chan (sv_broker sv') s = out @ chan (sv_broker sv) s @ x # new \<and>
         (Suc (length (chan (sv_broker sv) s)) + length (offered (sv_validate sv) t es) \<le> bufSize (sv_broker sv) \<longrightarrow> new = offered (sv_validate sv) t es)"
      "r \<noteq> None \<longrightarrow> (\<forall>topic. s \<notin> set (topic_set (sv_broker sv') topic))"
      using eff ch by (auto simp: streams_def res)
    with x show ?thesis by (auto simp: streams_def res intro!: exI [of _ "x # new"])
  next
    case False
    with eff have ch: "chan (sv_broker ?sv) s = chan (sv_broker sv) s" by (auto split: option.splits)
    from assms(2) eff ch False show ?thesis by (cases m) (auto simp: streams_def res)
  qed
qed

lemma streams_take:
  assumes "subscribed s t sv gone" and "recv s (sv_broker sv) = Some (msg, b)" and "streams s t es (out @ [msg], sv\<lparr>sv_broker := b\<rparr>) res"
  shows "streams s t (TakeSend None # es) (out, sv) res"
  using recv_subscribed [OF assms(1,2)] assms(3) by (cases res) (auto simp: streams_def)

lemma streams_end:
  assumes "registry_inv b gone" and "prefix out' (out @ chan (sv_broker sv) s)"
  shows "streams s t es (out, sv) (Some e, (out', sv'\<lparr>sv_broker := deregister s b\<rparr>))"
  using deregister_gone [OF assms(1)] assms(2) by (auto simp: streams_def intro!: exI [of _ "[]"])

lemma session_streams:
  assumes "subscribed s t sv gone"
  shows "streams s t es (out, sv) (session verr s es (out, sv))"
  using assms
proof (induction es arbitrary: out sv)
  case Nil
  then show ?case by (auto simp: streams_def intro!: exI [of _ "[]"])
next
  case (Cons e es)
  have R: "registry_inv (sv_broker sv) gone" using Cons.prems by (simp add: subscribed_def)
  show ?case
  proof (cases e)
    case (Other m)
    have "subscribed s t (snd (server_Publish verr m sv)) gone"
      using server_Publish_effect [OF Cons.prems, of verr m] by (simp add: Let_def)
    from streams_other [OF Cons.prems Cons.IH [OF this]] show ?thesis by (simp add: Other)
  next
    case (CtxDone err)
    then show ?thesis by (auto intro: streams_end [OF R])
  next
    case (TakeSend send_err)
    show ?thesis
    proof (cases "recv s (sv_broker sv)")
      case None
      with Cons.IH [OF Cons.prems, of out] TakeSend show ?thesis by (simp add: streams_def)
    next
      case (Some mb)
      obtain msg b where mb: "recv s (sv_broker sv) = Some (msg, b)" using Some by (cases mb) auto
      note rs = recv_subscribed [OF Cons.prems mb]
      have Rb: "registry_inv b gone" using rs(1) by (simp add: subscribed_def)
      show ?thesis
        using streams_take [OF Cons.prems mb Cons.IH [OF rs(1)]] streams_end [OF Rb] TakeSend mb
        by (cases send_err) auto
    qed
  qed
qed

section \<open>A publisher\<close>

text \<open>The connection of a client to the server: the request and the status pass through.\<close>

definition via_server :: "(string list \<Rightarrow> string) \<Rightarrow> (grpc_error \<Rightarrow> gerr) \<Rightarrow> bus_msg option \<Rightarrow> bus_server \<Rightarrow> (gerr + u64) \<times> bus_server" where
  "via_server verr status m sv =
     (case server_Publish verr m sv of (Inl e, sv1) \<Rightarrow> (Inl (status e), sv1) | (Inr n, sv1) \<Rightarrow> (Inr n, sv1))"

definition sent_by :: "cli_flags \<Rightarrow> string \<Rightarrow> (u64 \<Rightarrow> timestamp) \<Rightarrow> nat \<Rightarrow> bus_msg" where
  "sent_by f pubid clock i = bus_message_of f pubid (of_nat (Suc i)) (clock (of_nat (Suc i))) (pub_body (loop_flags f) i)"

lemma u64_nonzero: "0 < k \<Longrightarrow> k < 2 ^ 64 \<Longrightarrow> (of_nat k :: u64) \<noteq> 0"
  by (auto simp: word_of_nat_eq_0_iff dest: dvd_imp_le)

lemma via_server_delivers:
  assumes "subscribed s (Topic m) sv gone" and "admissible (sv_validate sv) (Topic m) m"
    and "length (chan (sv_broker sv) s) < bufSize (sv_broker sv)" and "next_sub (sv_broker sv) < 2 ^ 64"
  shows "\<exists>n sv'. via_server verr status (Some m) sv = (Inr n, sv') \<and> n \<noteq> 0 \<and> subscribed s (Topic m) sv' gone \<and>
           chan (sv_broker sv') s = chan (sv_broker sv) s @ [m] \<and> bufSize (sv_broker sv') = bufSize (sv_broker sv) \<and>
           sv_validate sv' = sv_validate sv \<and> next_sub (sv_broker sv') = next_sub (sv_broker sv)"
proof -
  obtain d b' where P: "Publish m (sv_broker sv) = (d, b')" by fastforce
  have R: "registry_inv (sv_broker sv) gone" using assms(1) by (simp add: subscribed_def)
  let ?S = "{s. s < next_sub (sv_broker sv) \<and> sub_topic (sv_broker sv) s = Topic m \<and> s \<notin> gone \<and> length (chan (sv_broker sv) s) < bufSize (sv_broker sv)}"
  note eff = publish_effect [OF R P]
  have fin: "finite ?S" by (rule finite_subset [of _ "{..<next_sub (sv_broker sv)}"]) auto
  have "s \<in> ?S" using assms by (simp add: subscribed_def)
  then have pos: "0 < card ?S" using fin by (auto simp: card_gt_0_iff)
  have "card ?S \<le> card {..<next_sub (sv_broker sv)}" by (rule card_mono) auto
  then have d: "d = int (card ?S)" "card ?S < 2 ^ 64" using eff assms(4) by auto
  have "(of_int d :: u64) \<noteq> 0" unfolding d(1) of_int_of_nat_eq by (rule u64_nonzero [OF pos d(2)])
  moreover have "via_server verr status (Some m) sv = (Inr (of_int d), sv\<lparr>sv_broker := b'\<rparr>)"
    using assms(2) P by (auto simp: via_server_def server_Publish_def validate_with_def admissible_def)
  moreover have "subscribed s (Topic m) (sv\<lparr>sv_broker := b'\<rparr>) gone"
    using eff assms(1) by (auto simp: subscribed_def registry_cong [of b' "sv_broker sv"])
  ultimately show ?thesis using eff assms(1,3) by (auto simp: subscribed_def)
qed

lemma runPub_from:
  assumes "subscribed s (fl_Subject f) sv gone" and "length (chan (sv_broker sv) s) + (pub_count (loop_flags f) - i) \<le> bufSize (sv_broker sv)"
    and "next_sub (sv_broker sv) < 2 ^ 64" and "\<forall>j < pub_count (loop_flags f). admissible (sv_validate sv) (fl_Subject f) (sent_by f pubid clock j)"
    and "i \<le> pub_count (loop_flags f)"
  shows "\<exists>sl sv'. pub_from (bus_send (via_server verr status) clock f pubid) (loop_flags f) i (of_nat i, [], sv) =
           (sl, Inr (pub_summary (loop_flags f)), (of_nat (pub_count (loop_flags f)), [], sv')) \<and>
         subscribed s (fl_Subject f) sv' gone \<and> sv_validate sv' = sv_validate sv \<and>
         chan (sv_broker sv') s = chan (sv_broker sv) s @ map (sent_by f pubid clock) [i..<pub_count (loop_flags f)]"
  using assms
proof (induction "pub_count (loop_flags f) - i" arbitrary: i sv)
  case 0
  then show ?case by (simp add: pub_from.simps)
next
  case (Suc k)
  let ?m = "sent_by f pubid clock i" and ?n = "pub_count (loop_flags f)"
  have lt: "i < ?n" using Suc.hyps(2) by simp
  have top: "Topic ?m = fl_Subject f" by (simp add: sent_by_def bus_message_of_def)
  from via_server_delivers [of s ?m sv gone verr status] Suc.prems lt Suc.hyps(2) obtain n sv1
    where v: "via_server verr status (Some ?m) sv = (Inr n, sv1)" "n \<noteq> 0" "subscribed s (fl_Subject f) sv1 gone"
      "chan (sv_broker sv1) s = chan (sv_broker sv) s @ [?m]" "bufSize (sv_broker sv1) = bufSize (sv_broker sv)"
      "sv_validate sv1 = sv_validate sv" "next_sub (sv_broker sv1) = next_sub (sv_broker sv)"
    unfolding top by auto
  have send: "bus_send (via_server verr status) clock f pubid (pub_body (loop_flags f) i) (of_nat i, [], sv) = (None, (of_nat (Suc i), [], sv1))"
    using v(1,2) by (simp add: bus_send_def sent_by_def Let_def add.commute)
  have "\<exists>sl sv'. pub_from (bus_send (via_server verr status) clock f pubid) (loop_flags f) (Suc i) (of_nat (Suc i), [], sv1) =
      (sl, Inr (pub_summary (loop_flags f)), (of_nat ?n, [], sv')) \<and> subscribed s (fl_Subject f) sv' gone \<and> sv_validate sv' = sv_validate sv1 \<and>
      chan (sv_broker sv') s = chan (sv_broker sv1) s @ map (sent_by f pubid clock) [Suc i..<?n]"
    by (rule Suc.hyps(1)) (use Suc.prems Suc.hyps(2) v lt in auto)
  then show ?case
    using lt v(4,6) by (subst pub_from.simps) (auto simp: send Let_def upt_conv_Cons simp del: of_nat_Suc)
qed

lemma session_drain:
  assumes "subscribed s t sv gone" and "chan (sv_broker sv) s = ms"
  shows "\<exists>sv'. session verr s (replicate (length ms) (TakeSend None) @ [CtxDone (Sentinel CtxCanceled)]) (out, sv) = (Some None, (out @ ms, sv')) \<and>
           (\<forall>topic. s \<notin> set (topic_set (sv_broker sv') topic))"
  using assms
proof (induction ms arbitrary: sv out)
  case Nil
  then have "registry_inv (sv_broker sv) gone" by (simp add: subscribed_def)
  from deregister_gone [OF this] show ?case by (simp add: context_status_def)
next
  case (Cons m ms)
  obtain b where r: "recv s (sv_broker sv) = Some (m, b)" using Cons.prems(2) by (simp add: recv_def)
  note rs = recv_subscribed [OF Cons.prems(1) r]
  have "chan (sv_broker (sv\<lparr>sv_broker := b\<rparr>)) s = ms" using rs(2) Cons.prems(2) by simp
  from Cons.IH [OF rs(1) this, of "out @ [m]"] r show ?case by simp
qed

section \<open>Properties\<close>

text \<open>C37. From one end of the bus to the other.  A subscriber with an empty channel and room for the whole run
  gets every message of a \<open>grpcbuscli pub\<close>, numbered from one in the order of publication and under its topic,
  and nothing else of that run; the publisher logs no drop and prints its summary; when the subscriber then
  hangs up the stream ends without an error and the broker has forgotten it.\<close>

theorem bus_end_to_end:
  assumes "subscribed s (fl_Subject f) sv gone" and "chan (sv_broker sv) s = []"
    and "pub_count (loop_flags f) \<le> bufSize (sv_broker sv)" and "next_sub (sv_broker sv) < 2 ^ 64"
    and "\<forall>i < pub_count (loop_flags f). sv_validate sv \<longrightarrow> message_violations (sent_by f pubid clock i) = []"
  shows "\<exists>sv1 sv2. bus_runPub (via_server verr status) clock f pubid sv = (Inr (pub_summary (loop_flags f)), [], sv1) \<and>
           session verr s (replicate (pub_count (loop_flags f)) (TakeSend None) @ [CtxDone (Sentinel CtxCanceled)]) ([], sv1) =
             (Some None, (map (sent_by f pubid clock) [0..<pub_count (loop_flags f)], sv2)) \<and>
           (\<forall>topic. s \<notin> set (topic_set (sv_broker sv2) topic))"
proof -
  let ?n = "pub_count (loop_flags f)"
  have "\<exists>sl sv'. pub_from (bus_send (via_server verr status) clock f pubid) (loop_flags f) 0 (of_nat 0, [], sv) =
      (sl, Inr (pub_summary (loop_flags f)), (of_nat ?n, [], sv')) \<and> subscribed s (fl_Subject f) sv' gone \<and> sv_validate sv' = sv_validate sv \<and>
      chan (sv_broker sv') s = chan (sv_broker sv) s @ map (sent_by f pubid clock) [0..<?n]"
    by (rule runPub_from) (use assms in \<open>auto simp: admissible_def sent_by_def bus_message_of_def\<close>)
  then obtain sl sv1 where run: "pub_from (bus_send (via_server verr status) clock f pubid) (loop_flags f) 0 (0, [], sv) =
      (sl, Inr (pub_summary (loop_flags f)), (of_nat ?n, [], sv1))"
    and sub: "subscribed s (fl_Subject f) sv1 gone" and ch: "chan (sv_broker sv1) s = map (sent_by f pubid clock) [0..<?n]"
    using assms(2) by auto
  from session_drain [OF sub ch, of verr "[]"] run show ?thesis by (auto simp: bus_runPub_def PubLoop_def)
qed

definition sample_server :: bus_server where
  "sample_server = \<lparr>sv_broker = snd (Subscribe ''demo'' ''a'' (NewBroker 4 None)), sv_validate = False\<rparr>"

lemma sample_subscribed: "subscribed 0 ''demo'' sample_server {}"
proof -
  have "registry_inv (NewBroker 4 None :: bus_body broker) {}" by (simp add: registry_inv_def NewBroker_def topic_set_def)
  from registry_Subscribe [OF this] show ?thesis
    by (simp add: subscribed_def sample_server_def) (simp add: Subscribe_def NewBroker_def Let_def)
qed

theorem bus_end_to_end_witness:
  "\<exists>sv1 sv2. bus_runPub (via_server (\<lambda>_. ''invalid'') (\<lambda>_. Opaque ''refused'')) (\<lambda>n. 0) soak_flags ''p'' sample_server =
      (Inr (pub_summary (loop_flags soak_flags)), [], sv1) \<and>
     session (\<lambda>_. ''invalid'') 0 (replicate (pub_count (loop_flags soak_flags)) (TakeSend None) @ [CtxDone (Sentinel CtxCanceled)]) ([], sv1) =
      (Some None, (map (sent_by soak_flags ''p'' (\<lambda>n. 0)) [0..<pub_count (loop_flags soak_flags)], sv2))"
proof -
  have f: "fl_Subject soak_flags = ''demo''" "pub_count (loop_flags soak_flags) = 3"
    by (simp_all add: soak_flags_def cli_defaults_def loop_flags_def pub_count_def)
  have sv: "chan (sv_broker sample_server) 0 = []" "bufSize (sv_broker sample_server) = 4" "next_sub (sv_broker sample_server) = 1" "\<not> sv_validate sample_server"
    by (simp_all add: sample_server_def Subscribe_def NewBroker_def Let_def)
  have sub: "subscribed 0 (fl_Subject soak_flags) sample_server {}" unfolding f by (rule sample_subscribed)
  have n: "pub_count (loop_flags soak_flags) \<le> bufSize (sv_broker sample_server)" "next_sub (sv_broker sample_server) < 2 ^ 64"
    "\<forall>i < pub_count (loop_flags soak_flags). sv_validate sample_server \<longrightarrow> message_violations (sent_by soak_flags ''p'' (\<lambda>n. 0) i) = []"
    using f sv by simp_all
  from bus_end_to_end [OF sub sv(1) n, of "\<lambda>_. ''invalid''" "\<lambda>_. Opaque ''refused''"] show ?thesis by blast
qed

text \<open>C38. Every session, under any interleaving with other publishers: what is streamed is a prefix of the
  messages accepted for the topic, in order, none twice, each published in between on that topic and, on a
  validating server, within the rules; while the session is open nothing accepted is lost, and if the channel
  has room for all that was offered nothing at all is lost; on every return the subscription is removed.\<close>

theorem bus_session:
  assumes "registry_inv (sv_broker sv) gone" and "gone \<subseteq> {..<next_sub (sv_broker sv)}"
    and "server_Subscribe verr topic sid es sv = (r, (out, sv'))"
    and "if sv_validate sv then subscribe_violations topic sid = [] else topic \<noteq> ''''"
  shows "\<exists>new. subseq new (offered (sv_validate sv) topic es) \<and> prefix out new \<and>
           (r = None \<longrightarrow> out @ chan (sv_broker sv') (next_sub (sv_broker sv)) = new \<and>
              (length (offered (sv_validate sv) topic es) \<le> bufSize (sv_broker sv) \<longrightarrow> new = offered (sv_validate sv) topic es)) \<and>
           (r \<noteq> None \<longrightarrow> (\<forall>t. next_sub (sv_broker sv) \<notin> set (topic_set (sv_broker sv') t)))"
proof -
  let ?s = "next_sub (sv_broker sv)" and ?b = "snd (Subscribe topic sid (sv_broker sv))"
  have sub: "subscribed ?s topic (sv\<lparr>sv_broker := ?b\<rparr>) gone"
    using registry_Subscribe [OF assms(1,2), of topic sid] assms(2)
    by (simp add: subscribed_def) (auto simp: Subscribe_def Let_def)
  have ch: "chan ?b ?s = []" "bufSize ?b = bufSize (sv_broker sv)" by (simp_all add: Subscribe_def Let_def)
  have "session verr ?s es ([], sv\<lparr>sv_broker := ?b\<rparr>) = (r, (out, sv'))"
    using assms(3,4) by (auto simp: server_Subscribe_def validate_with_def Subscribe_def Let_def split: if_splits)
  with session_streams [OF sub, of es "[]" verr] show ?thesis by (simp add: streams_def ch)
qed

theorem bus_session_witness:
  "\<exists>r out sv'. server_Subscribe (\<lambda>_. ''invalid'') ''demo'' ''b'' [] sample_server = (r, (out, sv')) \<and> prefix out []"
proof -
  obtain r out sv' where run: "server_Subscribe (\<lambda>_. ''invalid'') ''demo'' ''b'' [] sample_server = (r, (out, sv'))"
    by (metis prod.exhaust)
  have "registry_inv (sv_broker sample_server) {}" using sample_subscribed by (simp add: subscribed_def)
  from bus_session [OF this _ run] run show ?thesis by (auto simp: sample_server_def dest: list_emb_Nil2)
qed

text \<open>A publish on a topic nobody listens to succeeds and changes no channel, and the client logs each of its
  messages as dropped: silence is not an error on this bus.\<close>

lemma unheard_from:
  assumes "subs (sv_broker sv) (fl_Subject f) = None" and "\<not> sv_validate sv" and "i \<le> pub_count (loop_flags f)"
  shows "\<exists>sl sq sv'. pub_from (bus_send (via_server verr status) clock f pubid) (loop_flags f) i (of_nat i, logs, sv) =
           (sl, Inr (pub_summary (loop_flags f)),
            (sq, logs @ map (\<lambda>j. ''published seq '' @ itoa (uint (of_nat (Suc j) :: u64)) @ '' to '' @ quoted (fl_Subject f) @ '': 0 subscribers (dropped)'')
                   [i..<pub_count (loop_flags f)], sv')) \<and>
         chan (sv_broker sv') = chan (sv_broker sv)"
  using assms
proof (induction "pub_count (loop_flags f) - i" arbitrary: i logs sv)
  case 0
  then show ?case by (simp add: pub_from.simps)
next
  case (Suc k)
  let ?n = "pub_count (loop_flags f)" and ?m = "sent_by f pubid clock i"
  let ?line = "\<lambda>j. ''published seq '' @ itoa (uint (of_nat (Suc j) :: u64)) @ '' to '' @ quoted (fl_Subject f) @ '': 0 subscribers (dropped)''"
  have lt: "i < ?n" using Suc.hyps(2) by simp
  define sv1 where "sv1 = sv\<lparr>sv_broker := sv_broker sv\<lparr>bmetrics := recordPublish 0 0 (bmetrics (sv_broker sv))\<rparr>\<rparr>"
  have "via_server verr status (Some ?m) sv = (Inr 0, sv1)"
    using Suc.prems(1,2)
    by (simp add: via_server_def server_Publish_def Publish_def topic_set_def sent_by_def bus_message_of_def sv1_def Let_def)
  then have send: "bus_send (via_server verr status) clock f pubid (pub_body (loop_flags f) i) (of_nat i, logs, sv) =
      (None, (of_nat (Suc i), logs @ [?line i], sv1))"
    by (simp add: bus_send_def sent_by_def Let_def add.commute)
  have "\<exists>sl sq sv'. pub_from (bus_send (via_server verr status) clock f pubid) (loop_flags f) (Suc i) (of_nat (Suc i), logs @ [?line i], sv1) =
      (sl, Inr (pub_summary (loop_flags f)), (sq, (logs @ [?line i]) @ map ?line [Suc i..<?n], sv')) \<and> chan (sv_broker sv') = chan (sv_broker sv1)"
    by (rule Suc.hyps(1)) (use Suc.prems Suc.hyps(2) lt in \<open>auto simp: sv1_def\<close>)
  then show ?case
    using lt by (subst pub_from.simps) (auto simp: send Let_def upt_conv_Cons sv1_def simp del: of_nat_Suc)
qed

theorem bus_unheard:
  assumes "subs (sv_broker sv) (fl_Subject f) = None" and "\<not> sv_validate sv"
  shows "\<exists>logs sv'. bus_runPub (via_server verr status) clock f pubid sv = (Inr (pub_summary (loop_flags f)), logs, sv') \<and>
           length logs = pub_count (loop_flags f) \<and> chan (sv_broker sv') = chan (sv_broker sv)"
  using unheard_from [OF assms, of 0 verr status clock pubid "[]"] by (auto simp: bus_runPub_def PubLoop_def)

theorem bus_unheard_witness:
  "\<exists>logs sv'. bus_runPub (via_server (\<lambda>_. '''') (\<lambda>_. Opaque '''')) (\<lambda>n. 0) (soak_flags\<lparr>fl_Subject := ''quiet''\<rparr>) ''p'' sample_server =
      (Inr (pub_summary (loop_flags (soak_flags\<lparr>fl_Subject := ''quiet''\<rparr>))), logs, sv') \<and> chan (sv_broker sv') = chan (sv_broker sample_server)"
proof -
  have "subs (sv_broker sample_server) (fl_Subject (soak_flags\<lparr>fl_Subject := ''quiet''\<rparr>)) = None" "\<not> sv_validate sample_server"
    by (simp_all add: sample_server_def Subscribe_def NewBroker_def Let_def)
  from bus_unheard [OF this, of "\<lambda>_. ''''" "\<lambda>_. Opaque ''''" "\<lambda>n. 0" "''p''"] show ?thesis by blast
qed

end
