(* ===== verification/Spec2Isabelle.thy ===== *)
theory Spec2Isabelle
  imports Startup Benchmain Benchcli Jsoncodec Sysexporter Natsdemo Instruments Rpcclient Grpcbus Publish Sweep Endpoints Soak Bindings Gateway Service Retry Codec Broker
begin

text \<open>
  This development models the Go programs of the repository (\<open>clients/\<close>): a laboratory that sends the same
  messages over gRPC, NATS, RabbitMQ, MQTT and Valkey and measures what each of them does.  It has four parts.

  \<^bold>\<open>The RPC lab\<close> (\<open>clients/internal/rpc\<close>, \<open>rpc-service\<close>, \<open>rpc-gateway\<close>, \<open>rpc-client\<close>, \<open>rpc-benchmark\<close>).  A client
  packs a message into a request envelope; a binding carries it over one of the buses and brings the response
  back; the service looks the operation up in its idempotency cache, and otherwise dispatches it to the registered
  handler.  A retrying client repeats an attempt under the same idempotency key, a gateway forwards to a backend,
  a decorator records spans, and a load driver measures calls.

  \<^item> \<open>Rpc_Core\<close>: errors and their wire statuses (\<open>errors.go\<close>), the envelope and its helpers (\<open>request.go\<close>,
    \<open>anypayload.go\<close>, \<open>capabilities.go\<close>).
  \<^item> \<open>Pending\<close>, \<open>Correlator\<close>: the tables of waiting calls; \<open>correlator.go\<close> as sequential methods and as the
    step relation \<open>cstep\<close>, in which a delivery claims a channel and sends to it in two steps.  In every
    interleaving a channel gets at most one send, that send never blocks, and only the result delivered under
    the channel's own id is found in it.  The methods refine the step relation.
  \<^item> \<open>Idempotency\<close>, \<open>Mux\<close>, \<open>Service\<close>: \<open>idempotency.go\<close>, \<open>mux.go\<close> and the handlers of \<open>rpc-service/main.go\<close>.
    A dispatched request is answered on every branch; a replay carries the response of the one execution.
  \<^item> \<open>Retry\<close>: \<open>retry.go\<close>, its loop with the uuids, the context and the timer as arguments.
  \<^item> \<open>Waiting\<close>, \<open>Natsx\<close>, \<open>Rabbitmqx\<close>, \<open>Mqttx\<close>, \<open>Valkeyx\<close>, \<open>Bindings\<close>: the bindings.  \<open>Waiting\<close> holds
    the wait for a reply while other goroutines act on the correlator, as a list of events; each binding
    interprets the contract of a reply handler on its own; \<open>Bindings\<close> states what holds over all of them: a
    call leaves nothing registered and returns only its own response, and a request fed to the responder comes
    back as the handler's response.
  \<^item> \<open>Gateway\<close>, \<open>Tracing\<close>, \<open>Rpcclient\<close>, \<open>Startup\<close>: \<open>grpcx.go\<close> and the router of \<open>rpc-gateway/main.go\<close>;
    \<open>tracing.go\<close> and \<open>tracing/tracing.go\<close>; \<open>rpc-client/main.go\<close>; the \<open>main\<close> functions of the service and the
    gateway, and the region agent's.
  \<^item> \<open>Rpcbench\<close>, \<open>Sweep\<close>, \<open>Benchmain\<close>: \<open>rpc-benchmark\<close>: the closed loop as a step relation over its workers,
    the open loop, the accounting of every call, the payload sweep, the reports and \<open>main\<close>.

  \<^bold>\<open>The workload benchmark\<close> (\<open>clients/workloads\<close> with \<open>internal/{codec,pool,envelope,harness,transport,corpus,
  runrecord}\<close>).  \<open>benchcli\<close> builds a fixture, encodes it into a pooled buffer, sends it to a region agent over a
  transport and accumulates latencies; a run becomes a record, and records become a report.

  \<^item> \<open>Pool\<close>, \<open>Codec\<close>, \<open>Jsoncodec\<close>: \<open>pool.go\<close>, \<open>mode.go\<close>, \<open>codec.go\<close>, \<open>vt.go\<close>.  No buffer is pooled twice or
    while it is held; encoding returns its buffer on errors; the size hint of the ProtoJSON codec stays
    within one byte of the sizes seen.
  \<^item> \<open>Clocks\<close>: the envelope, the agent's stamps and the clock probe; the error of the estimated offset and of
    the one-way latencies is bounded.
  \<^item> \<open>Transport\<close>, \<open>Endpoints\<close>: \<open>internal/transport\<close>: requesters, responders, publishers, consumers, the gRPC
    codec, and the agent's callbacks.  Round trips, isolation of requests, ownership of buffers.
  \<^item> \<open>Schema\<close>, \<open>Corpus\<close>, \<open>Correctness\<close>: the validation rules of \<open>proto/workloads/v1\<close>, the builders of
    \<open>internal/corpus\<close>, and the correctness pass.  Every fixture satisfies every rule, every invalid case
    violates one, and the pass succeeds exactly if no check fails.
  \<^item> \<open>Harness\<close>, \<open>Instruments\<close>, \<open>Loops\<close>, \<open>Driver\<close>: \<open>hdr.go\<close>, \<open>harness.go\<close>, and the load modes of
    \<open>drive.go\<close>; \<open>Loops\<close> is the contract of a loop run by several workers.
  \<^item> \<open>Publish\<close>, \<open>Benchcli\<close>: the one-way subcommands, the log fan-out, the codec loop, the command itself.
  \<^item> \<open>Runrecord\<close>, \<open>Report\<close>: \<open>runrecord.go\<close>, \<open>aggregate.go\<close>, \<open>emit.go\<close>, \<open>report.go\<close>, rendered to the byte.

  \<^bold>\<open>The pub/sub clients\<close> (\<open>clients/{nats,rabbitmq,mqtt,valkey}\<close> with \<open>internal/{cli,metrics}\<close>): commands that publish
  numbered messages or print what they receive and count the losses.  \<open>Soak\<close> has the loop, the limiter and
  the gap tracker, \<open>Cliflags\<close> the command line, \<open>Soakcli\<close> the four commands, \<open>Sysexporter\<close> the exporter of
  Mosquitto's own counters, \<open>Natsdemo\<close> the four NATS demonstrations.

  \<^bold>\<open>The gRPC bus\<close> (\<open>internal/grpcbus\<close>, \<open>clients/grpcbus\<close>): \<open>Broker\<close> has the broker as methods and as a
  step relation, \<open>Grpcbus\<close> its server and its client.

  This theory holds the properties that span the parts of the RPC lab: a retried call executes at
  most once over a lossy transport, and so does a whole sweep under one idempotency key.

  \<^bold>\<open>Conventions.\<close>  \<open>Prelude\<close> has Go's basic types and the standard-library functions the programs use.  A struct is a
  record, a result with an error a sum with \<open>Inl\<close> the error, a panic \<open>None\<close>; mutexes make methods atomic, and
  where the code gives a lock up between two actions they are two steps.  Numbers that may wrap are words;
  \<open>Float64\<close> gives \<open>float64\<close> as rationals rounded after every operation, without bounds on the exponent, which the
  rates, sizes and latencies of the programs do not reach.  Where a conversion is outside the range of the
  language, its result is an argument.

  \<^bold>\<open>Arguments and hypotheses.\<close>  The bus libraries, gRPC, protobuf, OpenTelemetry, Prometheus, the HdrHistogram, UUIDs,
  JSON, the clock and the random generator are arguments.  What is relied on of them is named: \<open>lib_ok\<close> and
  \<open>lib_total\<close> (what a codec encodes it decodes, and encoding does not fail), \<open>hist_ok\<close> (a histogram counts its values), \<open>rand_ok\<close>, \<open>check_lib_ok\<close>,
  \<open>otel_ok\<close>, \<open>prom_counter_laws\<close>, \<open>nats_matching\<close>; each is satisfied by the instance its witness uses.  An
  arbitrary choice of the runtime (which pooled buffer, which worker, which ready channel) is an argument
  over which the theorems quantify.

  \<^bold>\<open>Termination and fuel.\<close>  Loops over data are total functions.  Loops run by several workers are step relations
  whose runs are proved bounded and never stuck.  Two loops poll with a deadline and take fuel:
  \<open>waitForFanout\<close> needs one more than its timeout in units of 50 ms, \<open>settle_wait\<close> 501 looks for its 5 seconds
  or 201 for its 2 seconds at 10 ms each; with that fuel they are proved to return.  A wait that nothing ends is
  \<open>None\<close>, and the theorems say when that happens.

  \<^bold>\<open>Not modelled.\<close>  The generated code and the libraries; Nix, manifests and documents; the HTTP servers of the
  metrics; signal handling beyond the choice it causes; \<open>Close\<close> methods that only close a library object;
  the reading of command lines other than that of the pub/sub clients, whose flags are records with their
  defaults; the demonstration of \<open>encoding/json\<close>; the set-up of the \<open>grpc\<close> subcommand.
\<close>

section \<open>A retried operation over a lossy transport\<close>

text \<open>One attempt as the retrying client sees it: the transport may lose the request, or the
  response after the service has run, or deliver both.  The state counts the attempts, records the
  calls that reached the service, and holds the service's cache and the application's state.\<close>

datatype fate = LostRequest | LostResponse | Delivered

record ('m, 'w) link =
  attempt_no :: nat
  reached :: "(call_clock \<times> rpc_request) list"
  service :: "idempotency_cache \<times> 'w"

definition lossy_call ::
  "'m proto_lib \<Rightarrow> ('m, 'w) mux \<Rightarrow> (nat \<Rightarrow> fate) \<Rightarrow> (nat \<Rightarrow> call_clock) \<Rightarrow> ('m, 'w) link client_call" where
  "lossy_call L m fate clock r k =
     (let n = attempt_no k; k' = k\<lparr>attempt_no := Suc n\<rparr> in
      if fate n = LostRequest then ((None, Some (Sentinel CtxDeadlineExceeded)), k')
      else (let (resp, s) = idempotent L m (clock n) r (service k);
                k'' = k'\<lparr>reached := reached k @ [(clock n, r)], service := s\<rparr>
            in if fate n = LostResponse then ((None, Some (Sentinel CtxDeadlineExceeded)), k'')
               else ((Some resp, None), k'')))"

text \<open>The service's state is the run of the calls that reached it, all of them under one key, and
  every response the client got is one of that run.\<close>

definition link_inv ::
  "'m proto_lib \<Rightarrow> ('m, 'w) mux \<Rightarrow> (nat \<Rightarrow> call_clock) \<Rightarrow> string \<Rightarrow> idempotency_cache \<times> 'w \<Rightarrow> ('m, 'w) link \<Rightarrow> bool" where
  "link_inv L m clock key s0 k \<longleftrightarrow>
     snd (serve L m (reached k) s0) = service k \<and>
     (\<forall>(ck, req) \<in> set (reached k). rq_IdempotencyKey req = key \<and> ck \<in> range clock)"

definition answered :: "'m proto_lib \<Rightarrow> ('m, 'w) mux \<Rightarrow> idempotency_cache \<times> 'w \<Rightarrow> outcome \<Rightarrow> ('m, 'w) link \<Rightarrow> bool" where
  "answered L m s0 out k \<longleftrightarrow> (\<forall>r. fst out = Some r \<longrightarrow> r \<in> set (fst (serve L m (reached k) s0)))"

lemma serve_snoc:
  "serve L m (calls @ [(ck, req)]) s =
     (fst (serve L m calls s) @ [fst (idempotent L m ck req (snd (serve L m calls s)))],
      snd (idempotent L m ck req (snd (serve L m calls s))))"
  by (induction L m calls s rule: serve.induct) (auto simp: Let_def split: prod.split)

lemma lossy_call_inv:
  assumes "rq_IdempotencyKey r = key" and "link_inv L m clock key s0 k"
    and "lossy_call L m fate clock r k = (out, k')"
  shows "link_inv L m clock key s0 k' \<and> answered L m s0 out k'"
  using assms
  by (auto simp: lossy_call_def link_inv_def answered_def serve_snoc Let_def split: prod.splits if_splits)



section \<open>A sweep under one idempotency key\<close>

lemma workload_key:
  assumes "buildWorkloads any_new blob sizes customerID region timeout idemKey = Some (Inr wls)" and "idemKey \<noteq> ''''"
    and "wl \<in> set wls" and "wl_newReq wl uuid now = Inr req"
  shows "rq_IdempotencyKey req = idemKey"
  using assms
  by (auto simp: buildWorkloads_def mkReq_def map_sum_def split: if_splits sum.splits)

lemma executions_one_key:
  assumes "\<forall>(ck, req) \<in> set calls. rq_IdempotencyKey req = k" and "length rs = length calls"
  shows "executions k calls rs = length (filter fresh_ok rs)"
  using assms(2,1)
  by (induction rs calls rule: list_induct2) (auto simp: executions_def)

lemma number_fresh:
  "number succeeded (map (\<lambda>r. (rtt r, Some r, None)) rs) - number (\<lambda>out. succeeded out \<and> isReplay (fst out)) (map (\<lambda>r. (rtt r, Some r, None)) rs) =
   int (length (filter fresh_ok rs))"
  by (induction rs) (auto simp: number_def succeeded_def GetStatus_def isReplay_def fresh_ok_def replayed_def)



end
